(* ===== verification/Prelude.thy ===== *)
theory Prelude
  imports Main "HOL-Library.Word"
begin

text \<open>
  Shared vocabulary of the development: the machine integers of Go, the
  error-or-value sum with its sequencing operator, the little-endian byte
  order of \<^verbatim>\<open>encoding/binary\<close>, a byte stream as \<^verbatim>\<open>io.Reader\<close> and the
  runtime errors a Go program can raise.  Go's \<^verbatim>\<open>int\<close> and \<^verbatim>\<open>uint\<close> are taken at
  their 64-bit width; lengths of slices are natural numbers.
\<close>

unbundle bit_operations_syntax

type_synonym byte = "8 word"
type_synonym u16 = "16 word"
type_synonym u32 = "32 word"
type_synonym u64 = "64 word"

named_theorems go_simps \<open>equations that evaluate the model's primitive operations\<close>

text \<open>The run-time panics of Go code that the models can raise.\<close>

datatype go_error =
    IndexOutOfRange
  | SliceOutOfRange
  | NilDereference
  | DivideByZero
  | MakeSliceLen
  | BadTypeAssertion

section \<open>Words\<close>

lemma bit_int_consts [simp]:
  "bit (128 :: int) n \<longleftrightarrow> n = 7"
  "bit (64 :: int) n \<longleftrightarrow> n = 6"
  "bit (127 :: int) n \<longleftrightarrow> n < 7"
proof -
  have "bit (2 ^ 7 :: int) n \<longleftrightarrow> n = 7" "bit (2 ^ 6 :: int) n \<longleftrightarrow> n = 6"
    "bit (mask 7 :: int) n \<longleftrightarrow> n < 7"
    by (auto simp only: bit_exp_iff bit_mask_iff possible_bit_def) auto
  then show "bit (128 :: int) n \<longleftrightarrow> n = 7" "bit (64 :: int) n \<longleftrightarrow> n = 6"
    "bit (127 :: int) n \<longleftrightarrow> n < 7"
    by (simp_all add: mask_eq_exp_minus_1)
qed

lemma unat_drop_bit_div: "unat (drop_bit n (v :: 'a::len word)) = unat v div 2 ^ n"
  by (metis unat_drop_bit_eq drop_bit_eq_div)

lemma sint_signed_drop_bit_div: "sint (signed_drop_bit n (v :: 'a::len word)) = sint v div 2 ^ n"
  by (simp only: sint_signed_drop_bit_eq drop_bit_eq_div)

section \<open>Errors as values\<close>

text \<open>
  A fallible operation returns \<open>Inl e\<close> or \<open>Inr x\<close>; \<open>bindE\<close> is Go's
  \<^verbatim>\<open>if err != nil { return err }\<close>.
\<close>

definition bindE :: "'e + 'a \<Rightarrow> ('a \<Rightarrow> 'e + 'b) \<Rightarrow> 'e + 'b" where
  "bindE m f = (case m of Inl e \<Rightarrow> Inl e | Inr x \<Rightarrow> f x)"

lemma bindE_simps [simp, go_simps]:
  "bindE (Inl e) f = Inl e"
  "bindE (Inr x) f = f x"
  by (simp_all add: bindE_def)

lemma bindE_cong [fundef_cong]:
  assumes "m = m'" and "\<And>x. m' = Inr x \<Longrightarrow> f x = f' x"
  shows "bindE m f = bindE m' f'"
  using assms by (cases m') simp_all

lemma bindE_Inr_iff: "bindE m f = Inr y \<longleftrightarrow> (\<exists>x. m = Inr x \<and> f x = Inr y)"
  by (cases m) simp_all

lemma bindE_Inl_iff: "bindE m f = Inl e \<longleftrightarrow> m = Inl e \<or> (\<exists>x. m = Inr x \<and> f x = Inl e)"
  by (cases m) auto

lemma bindE_InrE:
  assumes "bindE m f = Inr y"
  obtains x where "m = Inr x" and "f x = Inr y"
  using assms by (cases m) simp_all

definition guardE :: "bool \<Rightarrow> 'e \<Rightarrow> 'e + unit" where
  "guardE b e = (if b then Inr () else Inl e)"

lemma guardE_simps [simp, go_simps]:
  "guardE True e = Inr ()"
  "guardE False e = Inl e"
  by (simp_all add: guardE_def)

lemma guardE_Inr_iff: "guardE b e = Inr u \<longleftrightarrow> b"
  by (simp add: guardE_def)

section \<open>Little-endian byte order\<close>

text \<open>
  \<^verbatim>\<open>binary.LittleEndian.PutUintN\<close> writes the \<open>n\<close> low bytes of a word, least
  significant first; \<^verbatim>\<open>binary.LittleEndian.UintN\<close> reads them back.
\<close>

fun le_put :: "nat \<Rightarrow> 'a::len word \<Rightarrow> byte list" where
  "le_put 0 w = []"
| "le_put (Suc n) w = ucast w # le_put n (drop_bit 8 w)"

fun le_get :: "byte list \<Rightarrow> 'a::len word" where
  "le_get [] = 0"
| "le_get (b # bs) = ucast b OR push_bit 8 (le_get bs)"

lemma length_le_put [simp]: "length (le_put n w) = n"
  by (induction n arbitrary: w) simp_all

lemma bit_le_get_put:
  "bit (le_get (le_put n w) :: 'a::len word) k \<longleftrightarrow> k < 8 * n \<and> bit (w :: 'a word) k"
proof (induction n arbitrary: w k)
  case 0
  then show ?case by simp
next
  case (Suc n)
  show ?case
  proof (cases "k < 8")
    case True
    then show ?thesis
      by (auto simp: bit_simps dest: bit_imp_le_length)
  next
    case False
    with Suc.IH [of "drop_bit 8 w" "k - 8"] show ?thesis
      by (auto simp: bit_simps dest: bit_imp_le_length)
  qed
qed

lemma le_get_put:
  assumes "LENGTH('a) \<le> 8 * n"
  shows "le_get (le_put n w) = (w :: 'a::len word)"
  using assms by (intro bit_word_eqI) (auto simp: bit_le_get_put)

lemma le_get_put_words [simp]:
  "le_get (le_put 2 w2) = (w2 :: u16)"
  "le_get (le_put 4 w4) = (w4 :: u32)"
  "le_get (le_put 8 w8) = (w8 :: u64)"
  by (rule le_get_put; simp)+

section \<open>Byte streams\<close>

text \<open>
  A reader over a byte buffer is the list of bytes not yet read.
  \<^verbatim>\<open>io.ReadFull(r, buf)\<close> returns \<^verbatim>\<open>io.EOF\<close> when no byte was read and
  \<^verbatim>\<open>io.ErrUnexpectedEOF\<close> when the buffer could only be filled in part.
\<close>

datatype io_error = EOF | UnexpectedEOF

definition ReadFull :: "nat \<Rightarrow> byte list \<Rightarrow> io_error + (byte list \<times> byte list)" where
  "ReadFull n r =
     (if n \<le> length r then Inr (take n r, drop n r)
      else if r = [] then Inl EOF
      else Inl UnexpectedEOF)"

lemma ReadFull_append [simp, go_simps]:
  "length xs = n \<Longrightarrow> ReadFull n (xs @ r) = Inr (xs, r)"
  by (simp add: ReadFull_def)

lemma ReadFull_Inr_iff:
  "ReadFull n r = Inr (xs, r') \<longleftrightarrow> length xs = n \<and> r = xs @ r'"
  by (auto simp: ReadFull_def append_eq_conv_conj)

section \<open>Lists as slices\<close>

text \<open>Reading an element of a slice: an index outside it is a run-time panic.\<close>

definition idx :: "'a list \<Rightarrow> nat \<Rightarrow> go_error + 'a" where
  "idx xs i = (if i < length xs then Inr (xs ! i) else Inl IndexOutOfRange)"

lemma idx_simps [go_simps]:
  "i < length xs \<Longrightarrow> idx xs i = Inr (xs ! i)"
  "\<not> i < length xs \<Longrightarrow> idx xs i = Inl IndexOutOfRange"
  by (simp_all add: idx_def)

text \<open>\<^verbatim>\<open>copy(dst, src)\<close> and \<^verbatim>\<open>copy(dst[off:], src)\<close>: as much of \<open>src\<close> as fits.\<close>

definition go_copy :: "'a list \<Rightarrow> 'a list \<Rightarrow> 'a list" where
  "go_copy dst src = take (length dst) src @ drop (length src) dst"

definition go_copy_at :: "nat \<Rightarrow> 'a list \<Rightarrow> 'a list \<Rightarrow> 'a list" where
  "go_copy_at off dst src = take off dst @ go_copy (drop off dst) src"

lemma length_go_copy [simp]: "length (go_copy dst src) = length dst"
  by (simp add: go_copy_def)

lemma length_go_copy_at [simp]: "length (go_copy_at off dst src) = length dst"
  by (simp add: go_copy_at_def)

lemma nth_go_copy:
  "i < length dst \<Longrightarrow> go_copy dst src ! i = (if i < length src then src ! i else dst ! i)"
  by (auto simp: go_copy_def nth_append min_def)

lemma nth_go_copy_at:
  assumes "i < length dst"
  shows "go_copy_at off dst src ! i =
    (if off \<le> i \<and> i < off + length src then src ! (i - off) else dst ! i)"
proof (cases "off \<le> i")
  case True
  then have "go_copy_at off dst src ! i = go_copy (drop off dst) src ! (i - off)"
    using assms by (simp add: go_copy_at_def nth_append min_def)
  with True assms show ?thesis by (auto simp: nth_go_copy)
next
  case False
  with assms show ?thesis by (simp add: go_copy_at_def nth_append)
qed

end
