(* ===== verification/Leb128.thy ===== *)
theory Leb128
  imports Prelude
begin

text \<open>
  \<^verbatim>\<open>wagon/wasm/leb128\<close>: the variable-length integers of the WebAssembly binary
  format.  Writers append to a byte slice; readers consume a byte stream and also
  report the size of the encoding they read.  No reader bounds the length of an
  encoding: bits shifted past the width are lost, as in the code.
\<close>

section \<open>Bits of one group\<close>

lemma uleb_shrinks:
  assumes "drop_bit 7 (v :: u64) \<noteq> 0"
  shows "unat (drop_bit 7 v) < unat v"
proof -
  have "unat (drop_bit 7 v) \<noteq> 0" using assms unat_eq_0 by blast
  then have "unat v div 128 \<noteq> 0" by (simp add: unat_drop_bit_div)
  then show ?thesis by (simp add: unat_drop_bit_div)
qed

lemma byte_AND_80: "(b :: byte) AND 0x80 = 0 \<longleftrightarrow> \<not> bit b 7"
proof -
  have "b AND 0x80 = (if bit b 7 then 0x80 else 0)"
    by (rule bit_word_eqI) (auto simp: bit_simps)
  then show ?thesis by simp
qed

lemma low7_bit7 [simp]: "\<not> bit (ucast ((v :: 'a::len word) AND 0x7f) :: byte) 7"
  by (simp add: bit_simps)

lemma low6_zero:
  "(ucast ((v :: u64) AND 0x40) :: byte) = 0 \<longleftrightarrow> \<not> bit v 6"
proof -
  have "(ucast (v AND 0x40) :: byte) = (if bit v 6 then 0x40 else 0)"
    by (rule bit_word_eqI) (auto simp: bit_simps)
  then show ?thesis by simp
qed

lemma bit_OR_80_7 [simp]: "bit ((c :: byte) OR 0x80) 7"
  by (simp add: bit_simps)

lemma group_sign:
  fixes s :: int
  shows "0 \<le> s \<Longrightarrow> s < 128 \<Longrightarrow> odd (s div 64) \<longleftrightarrow> 64 \<le> s"
    and "- 128 \<le> s \<Longrightarrow> s < 0 \<Longrightarrow> odd (s div 64) \<longleftrightarrow> - 64 \<le> s"
proof -
  assume a: "0 \<le> s" "s < 128"
  show "odd (s div 64) \<longleftrightarrow> 64 \<le> s"
  proof (cases "64 \<le> s")
    case True
    with a have "s div 64 = 1" by (simp add: int_div_pos_eq [where q = 1 and r = "s - 64"])
    with True show ?thesis by simp
  next
    case False
    with a have "s div 64 = 0" by simp
    with False show ?thesis by simp
  qed
next
  assume a: "- 128 \<le> s" "s < 0"
  show "odd (s div 64) \<longleftrightarrow> - 64 \<le> s"
  proof (cases "- 64 \<le> s")
    case True
    with a have "s div 64 = - 1" by (simp add: int_div_pos_eq [where q = "- 1" and r = "s + 64"])
    with True show ?thesis by simp
  next
    case False
    with a have "s div 64 = - 2" by (simp add: int_div_pos_eq [where q = "- 2" and r = "s + 128"])
    with False show ?thesis by simp
  qed
qed

lemma div128_cases:
  fixes s :: int
  shows "s div 128 = 0 \<longleftrightarrow> 0 \<le> s \<and> s < 128"
    and "s div 128 = - 1 \<longleftrightarrow> - 128 \<le> s \<and> s < 0"
proof -
  have "s = 128 * (s div 128) + s mod 128" "0 \<le> s mod 128" "s mod 128 < 128" by simp_all
  then show "s div 128 = 0 \<longleftrightarrow> 0 \<le> s \<and> s < 128"
    and "s div 128 = - 1 \<longleftrightarrow> - 128 \<le> s \<and> s < 0"
    by linarith+
qed

lemma sleb_done_iff:
  fixes v :: u64
  assumes "v' = signed_drop_bit 7 v"
  shows "((v' \<noteq> - 1 \<or> \<not> bit v 6) \<and> (v' \<noteq> 0 \<or> bit v 6)) \<longleftrightarrow> \<not> (- 64 \<le> sint v \<and> sint v < 64)"
proof -
  have "bit v 6 \<longleftrightarrow> bit (sint v) 6" by (simp add: bit_sint_iff)
  also have "\<dots> \<longleftrightarrow> odd (sint v div 2 ^ 6)" by (rule bit_iff_odd)
  finally have b6: "bit v 6 \<longleftrightarrow> odd (sint v div 64)" by simp
  have sv: "sint v' = sint v div 128" by (simp add: assms sint_signed_drop_bit_div)
  have n1: "v' = - 1 \<longleftrightarrow> - 128 \<le> sint v \<and> sint v < 0"
    by (metis sv signed_word_eqI sint_n1 div128_cases(2))
  have z: "v' = 0 \<longleftrightarrow> 0 \<le> sint v \<and> sint v < 128"
    by (metis sv signed_word_eqI sint_0 div128_cases(1))
  show ?thesis
    using group_sign [of "sint v"] unfolding b6 n1 z by linarith
qed

lemma sleb_shrinks:
  fixes v :: u64
  assumes "\<not> (- 64 \<le> sint v \<and> sint v < 64)"
  shows "nat \<bar>sint (signed_drop_bit 7 v)\<bar> < nat \<bar>sint v\<bar>"
proof -
  have "sint v = 128 * (sint v div 128) + sint v mod 128" "0 \<le> sint v mod 128" "sint v mod 128 < 128"
    by simp_all
  with assms have "\<bar>sint v div 128\<bar> < \<bar>sint v\<bar>" by linarith
  then show ?thesis by (simp add: sint_signed_drop_bit_div)
qed

section \<open>Writers\<close>

function AppendUleb128 :: "byte list \<Rightarrow> u64 \<Rightarrow> byte list" where
  "AppendUleb128 b v =
     (let c = (ucast (v AND 0x7f) :: byte);
          v' = drop_bit 7 v;
          c' = (if v' \<noteq> 0 then c OR 0x80 else c);
          b' = b @ [c']
      in if c' AND 0x80 = 0 then b' else AppendUleb128 b' v')"
  by pat_completeness (elim Pair_inject, hypsubst, rule refl)
termination
  by (relation "measure (\<lambda>(b, v). unat v)")
    (auto simp: uleb_shrinks byte_AND_80 Let_def split: if_splits)

declare AppendUleb128.simps [simp del]

function AppendSleb128 :: "byte list \<Rightarrow> u64 \<Rightarrow> byte list" where
  "AppendSleb128 b v =
     (let c = (ucast (v AND 0x7f) :: byte);
          s = (ucast (v AND 0x40) :: byte);
          v' = signed_drop_bit 7 v;
          c' = (if (v' \<noteq> - 1 \<or> s = 0) \<and> (v' \<noteq> 0 \<or> s \<noteq> 0) then c OR 0x80 else c);
          b' = b @ [c']
      in if c' AND 0x80 = 0 then b' else AppendSleb128 b' v')"
  by pat_completeness (elim Pair_inject, hypsubst, rule refl)
termination
  by (relation "measure (\<lambda>(b, v). nat \<bar>sint v\<bar>)")
    (auto simp only: in_measure wf_measure split_conv Let_def byte_AND_80 low6_zero
      sleb_done_iff [OF refl] not_not low7_bit7 split: if_splits intro!: sleb_shrinks)

declare AppendSleb128.simps [simp del]

definition WriteVarUint32 :: "byte list \<Rightarrow> u32 \<Rightarrow> byte list" where
  "WriteVarUint32 w cur = w @ AppendUleb128 [] (ucast cur)"

definition WriteVarint64 :: "byte list \<Rightarrow> u64 \<Rightarrow> byte list" where
  "WriteVarint64 w cur = w @ AppendSleb128 [] cur"

section \<open>Readers\<close>

fun ReadVarUint32_loop ::
  "byte list \<Rightarrow> u32 \<Rightarrow> nat \<Rightarrow> nat \<Rightarrow> io_error + ((u32 \<times> nat) \<times> byte list)" where
  "ReadVarUint32_loop [] res shift sz = Inl EOF"
| "ReadVarUint32_loop (b # r) res shift sz =
     (let cur = (ucast b :: u32);
          res' = res OR push_bit shift (cur AND 0x7f)
      in if cur AND 0x80 = 0 then Inr ((res', sz + 1), r)
         else ReadVarUint32_loop r res' (shift + 7) (sz + 1))"

definition ReadVarUint32Size :: "byte list \<Rightarrow> io_error + ((u32 \<times> nat) \<times> byte list)" where
  "ReadVarUint32Size r = ReadVarUint32_loop r 0 0 0"

definition ReadVarUint32 :: "byte list \<Rightarrow> io_error + (u32 \<times> byte list)" where
  "ReadVarUint32 r = bindE (ReadVarUint32Size r) (\<lambda>((n, _), r). Inr (n, r))"

fun ReadVarint64_loop ::
  "byte list \<Rightarrow> u64 \<Rightarrow> nat \<Rightarrow> u64 \<Rightarrow> nat \<Rightarrow> io_error + ((u64 \<times> nat) \<times> byte list)" where
  "ReadVarint64_loop [] res shift sign sz = Inl EOF"
| "ReadVarint64_loop (b # r) res shift sign sz =
     (let cur = (ucast b :: u64);
          res' = res OR push_bit shift (cur AND 0x7f);
          sign' = push_bit 7 sign
      in if cur AND 0x80 = 0
         then Inr ((if signed_drop_bit 1 sign' AND res' \<noteq> 0 then res' OR sign' else res',
                    sz + 1), r)
         else ReadVarint64_loop r res' (shift + 7) sign' (sz + 1))"

definition ReadVarint64Size :: "byte list \<Rightarrow> io_error + ((u64 \<times> nat) \<times> byte list)" where
  "ReadVarint64Size r = ReadVarint64_loop r 0 0 (- 1) 0"

definition ReadVarint64 :: "byte list \<Rightarrow> io_error + (u64 \<times> byte list)" where
  "ReadVarint64 r = bindE (ReadVarint64Size r) (\<lambda>((n, _), r). Inr (n, r))"

definition ReadVarint32Size :: "byte list \<Rightarrow> io_error + ((u32 \<times> nat) \<times> byte list)" where
  "ReadVarint32Size r = bindE (ReadVarint64Size r) (\<lambda>((res64, sz), r). Inr ((ucast res64, sz), r))"

definition ReadVarint32 :: "byte list \<Rightarrow> io_error + (u32 \<times> byte list)" where
  "ReadVarint32 r = bindE (ReadVarint32Size r) (\<lambda>((n, _), r). Inr (n, r))"

section \<open>One group written, the rest appended\<close>

lemma AppendUleb128_step:
  "AppendUleb128 b v =
     (if drop_bit 7 v = 0 then b @ [ucast (v AND 0x7f)]
      else AppendUleb128 (b @ [ucast (v AND 0x7f) OR 0x80]) (drop_bit 7 v))"
  by (subst AppendUleb128.simps) (simp add: Let_def byte_AND_80)

lemma AppendUleb128_append: "AppendUleb128 b v = b @ AppendUleb128 [] v"
proof (induction "unat v" arbitrary: b v rule: less_induct)
  case less
  show ?case
  proof (cases "drop_bit 7 v = 0")
    case True
    then show ?thesis by (simp add: AppendUleb128_step [of _ v])
  next
    case False
    note IH = less [OF uleb_shrinks [OF False]]
    from False show ?thesis
      by (simp add: AppendUleb128_step [of _ v] IH [of "b @ _"] IH [of "[_]"])
  qed
qed

lemma AppendUleb128_Nil:
  "AppendUleb128 [] v =
     (if drop_bit 7 v = 0 then [ucast (v AND 0x7f)]
      else (ucast (v AND 0x7f) OR 0x80) # AppendUleb128 [] (drop_bit 7 v))"
  by (subst AppendUleb128_step) (simp add: AppendUleb128_append [of "[_]"])

lemma AppendSleb128_step:
  "AppendSleb128 b v =
     (if - 64 \<le> sint v \<and> sint v < 64 then b @ [ucast (v AND 0x7f)]
      else AppendSleb128 (b @ [ucast (v AND 0x7f) OR 0x80]) (signed_drop_bit 7 v))"
  by (subst AppendSleb128.simps)
    (simp only: Let_def byte_AND_80 low6_zero not_not sleb_done_iff [OF refl]
      low7_bit7 bit_OR_80_7 if_not_P if_P not_False_eq_True split: if_split, auto)

lemma AppendSleb128_append: "AppendSleb128 b v = b @ AppendSleb128 [] v"
proof (induction "nat \<bar>sint v\<bar>" arbitrary: b v rule: less_induct)
  case less
  show ?case
  proof (cases "- 64 \<le> sint v \<and> sint v < 64")
    case True
    then show ?thesis by (simp add: AppendSleb128_step [of _ v])
  next
    case False
    note IH = less [OF sleb_shrinks [OF False]]
    have step: "AppendSleb128 b' v =
        AppendSleb128 (b' @ [ucast (v AND 0x7f) OR 0x80]) (signed_drop_bit 7 v)" for b'
      by (subst AppendSleb128_step) (rule if_not_P [OF False])
    show ?thesis
      by (simp add: step IH [of "b @ _"] IH [of "[_]"])
  qed
qed

lemma AppendSleb128_Nil:
  "AppendSleb128 [] v =
     (if - 64 \<le> sint v \<and> sint v < 64 then [ucast (v AND 0x7f)]
      else (ucast (v AND 0x7f) OR 0x80) # AppendSleb128 [] (signed_drop_bit 7 v))"
  by (subst AppendSleb128_step) (simp add: AppendSleb128_append [of "[_]"])

section \<open>Round trips\<close>

lemma uleb_low_group:
  fixes v :: u64 and res :: u32
  shows "(res OR push_bit k (ucast (ucast (v AND 0x7f) OR 0x80 :: byte) AND 0x7f)) OR
           push_bit (k + 7) (ucast (drop_bit 7 v)) =
         res OR push_bit k (ucast v)"
    and "drop_bit 7 v = 0 \<Longrightarrow>
         res OR push_bit k (ucast (ucast (v AND 0x7f) :: byte) AND 0x7f) = res OR push_bit k (ucast v)"
proof -
  show "(res OR push_bit k (ucast (ucast (v AND 0x7f) OR 0x80 :: byte) AND 0x7f)) OR
           push_bit (k + 7) (ucast (drop_bit 7 v)) =
         res OR push_bit k (ucast v)"
  proof (rule bit_word_eqI)
    fix n
    assume "n < LENGTH(32)"
    then show "bit ((res OR push_bit k (ucast (ucast (v AND 0x7f) OR 0x80 :: byte) AND 0x7f)) OR
           push_bit (k + 7) (ucast (drop_bit 7 v))) n = bit (res OR push_bit k (ucast v)) n"
      by (cases "k + 7 \<le> n") (auto simp: bit_simps dest!: le_Suc_ex)
  qed
next
  assume "drop_bit 7 v = 0"
  then have z: "\<not> bit v (7 + n)" for n
    by (metis bit_0_eq bit_drop_bit_eq bot_apply bot_bool_def comp_apply)
  have "n < 7 \<and> n < 8" if "bit v n" for n
    using that z [of "n - 7"] by (cases "n < 7") simp_all
  then show "res OR push_bit k (ucast (ucast (v AND 0x7f) :: byte) AND 0x7f) = res OR push_bit k (ucast v)"
    by (intro bit_word_eqI) (auto simp: bit_simps)
qed

lemma byte_cont_bit:
  "(ucast (ucast ((v :: u64) AND 0x7f) :: byte) :: 'a::len word) AND 0x80 = 0"
  "8 \<le> LENGTH('a) \<Longrightarrow> (ucast ((ucast (v AND 0x7f) :: byte) OR 0x80) :: 'a::len word) AND 0x80 \<noteq> 0"
proof -
  show "(ucast (ucast (v AND 0x7f) :: byte) :: 'a word) AND 0x80 = 0"
    by (rule bit_word_eqI) (auto simp: bit_simps)
  assume "8 \<le> LENGTH('a)"
  then have "bit ((ucast ((ucast (v AND 0x7f) :: byte) OR 0x80) :: 'a word) AND 0x80) 7"
    by (simp add: bit_simps)
  then show "(ucast ((ucast (v AND 0x7f) :: byte) OR 0x80) :: 'a word) AND 0x80 \<noteq> 0"
    by (metis bit_0_eq bot_apply bot_bool_def)
qed

lemma ReadVarUint32_loop_Append:
  "ReadVarUint32_loop (AppendUleb128 [] v @ r) res k sz =
     Inr ((res OR push_bit k (ucast v), sz + length (AppendUleb128 [] v)), r)"
proof (induction "unat v" arbitrary: v res k sz rule: less_induct)
  case less
  show ?case
  proof (cases "drop_bit 7 v = 0")
    case True
    then show ?thesis
      by (simp add: AppendUleb128_Nil [of v] byte_cont_bit
          uleb_low_group(2) [unfolded push_bit_and] Let_def)
  next
    case False
    note IH = less [OF uleb_shrinks [OF False]]
    from False show ?thesis
      by (simp add: AppendUleb128_Nil [of v] byte_cont_bit IH
          uleb_low_group(1) [unfolded push_bit_and] Let_def)
  qed
qed

lemma u32_u64_u32: "ucast (ucast (v :: u32) :: u64) = v"
  by (rule bit_word_eqI) (auto simp: bit_simps)

lemma ReadVarUint32Size_Append:
  "ReadVarUint32Size (AppendUleb128 [] (ucast v) @ r) =
     Inr ((v, length (AppendUleb128 [] (ucast v))), r)"
  by (simp add: ReadVarUint32Size_def ReadVarUint32_loop_Append u32_u64_u32)

lemma ReadVarUint32_Write [simp, go_simps]:
  "ReadVarUint32 (WriteVarUint32 [] v @ r) = Inr (v, r)"
  by (simp add: ReadVarUint32_def WriteVarUint32_def ReadVarUint32Size_Append)

lemma small_sign_bits:
  fixes v :: u64
  assumes "- 64 \<le> sint v" "sint v < 64" "6 \<le> n" "n < 64"
  shows "bit v n \<longleftrightarrow> bit v 6"
proof -
  let ?w = "signed_drop_bit 6 v"
  have b: "bit ?w (n - 6) \<longleftrightarrow> bit v n" "bit ?w 0 \<longleftrightarrow> bit v 6"
    using assms(3,4) by (auto simp: bit_signed_drop_bit_iff)
  have "sint ?w = sint v div 64" by (simp add: sint_signed_drop_bit_div)
  moreover have "sint v div 64 = 0 \<or> sint v div 64 = - 1"
  proof -
    have "sint v = 64 * (sint v div 64) + sint v mod 64" "0 \<le> sint v mod 64" "sint v mod 64 < 64"
      by simp_all
    with assms(1,2) show ?thesis by linarith
  qed
  ultimately have "?w = 0 \<or> ?w = - 1"
    by (metis signed_word_eqI sint_0 sint_n1)
  then show ?thesis
    using b assms(4) less_imp_diff_less [OF assms(4), of 6] by (elim disjE) simp_all
qed

lemma sleb_low_group:
  fixes v res :: u64
  shows "(res OR push_bit k (ucast (ucast (v AND 0x7f) OR 0x80 :: byte) AND 0x7f)) OR
           push_bit (k + 7) (signed_drop_bit 7 v) =
         res OR push_bit k v"
proof (rule bit_word_eqI)
  fix n
  assume "n < LENGTH(64)"
  then show "bit ((res OR push_bit k (ucast (ucast (v AND 0x7f) OR 0x80 :: byte) AND 0x7f)) OR
         push_bit (k + 7) (signed_drop_bit 7 v)) n = bit (res OR push_bit k v) n"
    by (cases "k + 7 \<le> n") (auto simp: bit_simps dest!: le_Suc_ex)
qed

lemma sleb_last_group:
  fixes v res :: u64
  assumes res: "\<And>n. bit res n \<Longrightarrow> n < k"
    and small: "- 64 \<le> sint v" "sint v < 64"
  defines "res' \<equiv> res OR push_bit k (ucast (ucast (v AND 0x7f) :: byte) AND 0x7f)"
    and "sign' \<equiv> push_bit 7 (push_bit k (- 1) :: u64)"
  shows "(if signed_drop_bit 1 sign' AND res' \<noteq> 0 then res' OR sign' else res') =
         res OR push_bit k v"
proof -
  have res'_bit: "bit res' n \<longleftrightarrow> bit res n \<or> (n < 64 \<and> k \<le> n \<and> n < k + 7 \<and> bit v (n - k))" for n
    unfolding res'_def by (auto simp: bit_simps)
  have sign'_bit: "bit sign' n \<longleftrightarrow> n < 64 \<and> k + 7 \<le> n" for n
    unfolding sign'_def by (auto simp: bit_simps)
  have and_bit: "bit (signed_drop_bit 1 sign' AND res') n \<longleftrightarrow> n = k + 6 \<and> k + 7 < 64 \<and> bit v 6" for n
  proof (cases "n = k + 6")
    case True
    then show ?thesis
      using res [of n]
      by (auto simp: bit_and_iff bit_signed_drop_bit_iff res'_bit sign'_bit)
  next
    case False
    then show ?thesis
      using res [of n]
      by (auto simp: bit_and_iff bit_signed_drop_bit_iff res'_bit sign'_bit)
  qed
  have nz: "signed_drop_bit 1 sign' AND res' \<noteq> 0 \<longleftrightarrow> k + 7 < 64 \<and> bit v 6"
    by (metis and_bit bit_0_eq bot_apply bot_bool_def bit_eqI)
  show ?thesis
  proof (rule bit_word_eqI)
    fix n
    assume n: "n < LENGTH(64)"
    show "bit (if signed_drop_bit 1 sign' AND res' \<noteq> 0 then res' OR sign' else res') n =
        bit (res OR push_bit k v) n"
      unfolding nz using n small_sign_bits [OF small, of "n - k"]
      by (cases "6 \<le> n - k") (auto simp: bit_or_iff bit_push_bit_iff res'_bit sign'_bit not_less)
  qed
qed

lemma ReadVarint64_loop_Append:
  assumes "\<And>n. bit res n \<Longrightarrow> n < k"
  shows "ReadVarint64_loop (AppendSleb128 [] v @ r) res k (push_bit k (- 1)) sz =
     Inr ((res OR push_bit k v, sz + length (AppendSleb128 [] v)), r)"
  using assms
proof (induction "nat \<bar>sint v\<bar>" arbitrary: v res k sz rule: less_induct)
  case less
  show ?case
  proof (cases "- 64 \<le> sint v \<and> sint v < 64")
    case True
    have last: "(if signed_drop_bit 1 (push_bit 7 (push_bit k (- 1))) AND
          (res OR push_bit k (ucast (ucast (v AND 0x7f) :: byte) AND 0x7f)) \<noteq> 0
        then (res OR push_bit k (ucast (ucast (v AND 0x7f) :: byte) AND 0x7f)) OR
          push_bit 7 (push_bit k (- 1))
        else res OR push_bit k (ucast (ucast (v AND 0x7f) :: byte) AND 0x7f)) = res OR push_bit k v"
      by (rule sleb_last_group) (use less.prems True in auto)
    have enc: "AppendSleb128 [] v = [ucast (v AND 0x7f)]"
      by (subst AppendSleb128_Nil) (rule if_P [OF True])
    show ?thesis
      unfolding enc append.simps ReadVarint64_loop.simps Let_def
      unfolding if_P [OF byte_cont_bit(1)] last by simp
  next
    case False
    have enc: "AppendSleb128 [] v =
        (ucast (v AND 0x7f) OR 0x80) # AppendSleb128 [] (signed_drop_bit 7 v)"
      by (subst AppendSleb128_Nil) (rule if_not_P [OF False])
    have sn: "push_bit 7 (push_bit k (- 1)) = push_bit (k + 7) (- 1 :: u64)"
      by (simp only: push_bit_push_bit add.commute)
    let ?res = "res OR push_bit k (ucast (ucast (v AND 0x7f) OR 0x80 :: byte) AND 0x7f)"
    have nz: "(ucast (ucast (v AND 0x7f) OR 0x80 :: byte) :: u64) AND 0x80 \<noteq> 0"
      by (rule byte_cont_bit(2)) simp
    have bits: "n < k + 7" if "bit ?res n" for n
      using that less.prems [of n] by (auto simp: bit_simps)
    have IH: "ReadVarint64_loop (AppendSleb128 [] (signed_drop_bit 7 v) @ r) ?res (k + 7)
          (push_bit (k + 7) (- 1)) (sz + 1) =
        Inr ((?res OR push_bit (k + 7) (signed_drop_bit 7 v),
          sz + 1 + length (AppendSleb128 [] (signed_drop_bit 7 v))), r)"
      by (rule less.hyps [OF sleb_shrinks [OF False]]) (rule bits)
    show ?thesis
      unfolding enc append.simps ReadVarint64_loop.simps Let_def sn if_not_P [OF nz] IH sleb_low_group
      by simp
  qed
qed

lemma ReadVarint64Size_Append:
  "ReadVarint64Size (AppendSleb128 [] v @ r) = Inr ((v, length (AppendSleb128 [] v)), r)"
  using ReadVarint64_loop_Append [of 0 0 v r 0] by (simp add: ReadVarint64Size_def)

lemma ReadVarint64_Write [simp, go_simps]:
  "ReadVarint64 (WriteVarint64 [] v @ r) = Inr (v, r)"
  by (simp add: ReadVarint64_def WriteVarint64_def ReadVarint64Size_Append)

lemma s32_s64_s32: "ucast (scast (v :: 'a::len word) :: u64) = v" if "LENGTH('a) \<le> 64"
  by (rule bit_word_eqI) (use that in \<open>auto simp: bit_simps dest: le_neq_implies_less\<close>)

lemma ReadVarint32_Write [simp, go_simps]:
  "ReadVarint32 (WriteVarint64 [] (scast (v :: u32)) @ r) = Inr (v, r)"
  by (simp add: ReadVarint32_def ReadVarint32Size_def WriteVarint64_def ReadVarint64Size_Append
      s32_s64_s32)

section \<open>What a reader consumes\<close>

lemma ReadVarUint32_loop_consumes:
  "ReadVarUint32_loop r res k sz = Inr ((v, n), r') \<Longrightarrow>
     \<exists>xs. r = xs @ r' \<and> n = sz + length xs \<and> xs \<noteq> []"
proof (induction r res k sz rule: ReadVarUint32_loop.induct)
  case (1 res shift sz)
  then show ?case by simp
next
  case (2 b r res shift sz)
  show ?case
  proof (cases "(ucast b :: u32) AND 0x80 = 0")
    case True
    with "2.prems" show ?thesis by (intro exI [of _ "[b]"]) (simp add: Let_def)
  next
    case False
    with "2.prems" "2.IH" [OF refl refl False]
    obtain xs where "r = xs @ r'" "n = sz + 1 + length xs" by (auto simp: Let_def)
    then show ?thesis by (intro exI [of _ "b # xs"]) simp
  qed
qed

lemma ReadVarUint32_consumes:
  assumes "ReadVarUint32 r = Inr (v, r')"
  shows "length r' < length r" and "\<exists>xs. r = xs @ r'"
  using assms unfolding ReadVarUint32_def ReadVarUint32Size_def
  by (auto elim!: bindE_InrE dest!: ReadVarUint32_loop_consumes)

lemma ReadVarint64_loop_consumes:
  "ReadVarint64_loop r res k sn sz = Inr ((v, n), r') \<Longrightarrow>
     \<exists>xs. r = xs @ r' \<and> n = sz + length xs \<and> xs \<noteq> []"
proof (induction r res k sn sz rule: ReadVarint64_loop.induct)
  case (1 res shift sn sz)
  then show ?case by simp
next
  case (2 b r res shift sn sz)
  show ?case
  proof (cases "(ucast b :: u64) AND 0x80 = 0")
    case True
    with "2.prems" show ?thesis
      by (intro exI [of _ "[b]"]) (simp add: Let_def)
  next
    case False
    with "2.prems" "2.IH" [OF refl refl refl False]
    obtain xs where "r = xs @ r'" "n = sz + 1 + length xs" by (auto simp: Let_def)
    then show ?thesis by (intro exI [of _ "b # xs"]) simp
  qed
qed

lemma ReadVarint64_consumes:
  assumes "ReadVarint64 r = Inr (v, r')"
  shows "length r' < length r" and "\<exists>xs. r = xs @ r'"
  using assms unfolding ReadVarint64_def ReadVarint64Size_def
  by (auto elim!: bindE_InrE dest!: ReadVarint64_loop_consumes)

lemma ReadVarint32_consumes:
  assumes "ReadVarint32 r = Inr (v, r')"
  shows "length r' < length r" and "\<exists>xs. r = xs @ r'"
  using assms unfolding ReadVarint32_def ReadVarint32Size_def ReadVarint64Size_def
  by (auto elim!: bindE_InrE dest!: ReadVarint64_loop_consumes)

text \<open>Bytes that follow a readable prefix are left alone.\<close>

lemma ReadFull_extend: "ReadFull n r = Inr (xs, r') \<Longrightarrow> ReadFull n (r @ s) = Inr (xs, r' @ s)"
  by (auto simp: ReadFull_Inr_iff)

lemma ReadVarUint32_loop_extend:
  "ReadVarUint32_loop r res k sz = Inr (x, r') \<Longrightarrow>
   ReadVarUint32_loop (r @ s) res k sz = Inr (x, r' @ s)"
  by (induction r res k sz rule: ReadVarUint32_loop.induct) (auto simp: Let_def split: if_splits)

lemma ReadVarint64_loop_extend:
  "ReadVarint64_loop r res k sn sz = Inr (x, r') \<Longrightarrow>
   ReadVarint64_loop (r @ s) res k sn sz = Inr (x, r' @ s)"
  by (induction r res k sn sz rule: ReadVarint64_loop.induct) (auto simp: Let_def split: if_splits)

lemma ReadVarUint32_extend: "ReadVarUint32 r = Inr (x, r') \<Longrightarrow> ReadVarUint32 (r @ s) = Inr (x, r' @ s)"
  unfolding ReadVarUint32_def ReadVarUint32Size_def
  by (auto elim!: bindE_InrE simp: ReadVarUint32_loop_extend)

lemma ReadVarint64_extend: "ReadVarint64 r = Inr (x, r') \<Longrightarrow> ReadVarint64 (r @ s) = Inr (x, r' @ s)"
  unfolding ReadVarint64_def ReadVarint64Size_def
  by (auto elim!: bindE_InrE simp: ReadVarint64_loop_extend)

lemma ReadVarint32_extend: "ReadVarint32 r = Inr (x, r') \<Longrightarrow> ReadVarint32 (r @ s) = Inr (x, r' @ s)"
  unfolding ReadVarint32_def ReadVarint32Size_def ReadVarint64Size_def
  by (auto elim!: bindE_InrE simp: ReadVarint64_loop_extend)

text \<open>A read fails exactly when no byte of the stream ends an encoding.\<close>

lemma ReadVarUint32_loop_EOF:
  "ReadVarUint32_loop r res k sz = Inl e \<longleftrightarrow> e = EOF \<and> (\<forall>b \<in> set r. bit b 7)"
proof (induction r res k sz rule: ReadVarUint32_loop.induct)
  case (1 res shift sz)
  then show ?case by auto
next
  case (2 b r res shift sz)
  have "(ucast b :: u32) AND 0x80 = 0 \<longleftrightarrow> \<not> bit b 7"
  proof -
    have "(ucast b :: u32) AND 0x80 = (if bit b 7 then 0x80 else 0)"
      by (rule bit_word_eqI) (auto simp: bit_simps)
    then show ?thesis by simp
  qed
  with 2 show ?case by (simp add: Let_def)
qed

section \<open>Sizes\<close>

lemma length_uleb: "unat v < 128 ^ Suc n \<Longrightarrow> length (AppendUleb128 [] v) \<le> Suc n"
proof (induction n arbitrary: v)
  case 0
  then have "drop_bit 7 v = 0"
    by (intro word_unat_eq_iff [THEN iffD2]) (simp add: unat_drop_bit_div)
  then show ?case by (simp add: AppendUleb128_Nil)
next
  case (Suc n)
  have "unat (drop_bit 7 v) < 128 ^ Suc n"
    using Suc.prems by (simp add: unat_drop_bit_div less_mult_imp_div_less)
  from Suc.IH [OF this] show ?case by (simp add: AppendUleb128_Nil [of v])
qed

lemma length_WriteVarUint32: "length (WriteVarUint32 [] v) \<le> 5"
proof -
  have "unat v < 2 ^ LENGTH(32)" by (rule unsigned_less)
  then have "unat v < 2 ^ 32" by simp
  then have "unat (ucast v :: u64) < 128 ^ Suc 4" by (simp add: unsigned_ucast_eq take_bit_nat_eq_self)
  from length_uleb [OF this] show ?thesis by (simp add: WriteVarUint32_def)
qed

lemma AppendUleb128_nonempty [simp]: "AppendUleb128 [] v \<noteq> []"
  by (simp add: AppendUleb128_Nil)

lemma AppendSleb128_nonempty [simp]: "AppendSleb128 [] v \<noteq> []"
  by (simp add: AppendSleb128_Nil)

section \<open>Round trips\<close>

text \<open>What the LEB128 writers write, the readers read back, whatever bytes follow, and nothing of
  those is consumed: unsigned 32-bit values, which take at most five bytes, signed 64-bit values, and
  signed 32-bit values written through the 64-bit writer.\<close>

theorem leb128_round_trip:
  "ReadVarUint32 (WriteVarUint32 [] u @ r) = Inr (u, r) \<and> length (WriteVarUint32 [] u) \<le> 5 \<and>
   ReadVarint64 (WriteVarint64 [] x @ r) = Inr (x, r) \<and>
   ReadVarint32 (WriteVarint64 [] (scast (y :: u32)) @ r) = Inr (y, r)"
  by (simp add: length_WriteVarUint32)

text \<open>Reading an unsigned LEB128 value fails only at the end of the input, and exactly when every
  byte of the input has its continuation bit set; a value that is read comes from a prefix of the input,
  and is read the same when bytes are appended.\<close>

theorem ReadVarUint32_total:
  "(\<forall>e. ReadVarUint32 s = Inl e \<longleftrightarrow> e = EOF \<and> (\<forall>b \<in> set s. bit b 7)) \<and>
   (\<forall>v r. ReadVarUint32 s = Inr (v, r) \<longrightarrow>
      (\<exists>p. p \<noteq> [] \<and> s = p @ r) \<and> ReadVarUint32 (s @ z) = Inr (v, r @ z))"
proof -
  have "ReadVarUint32 s = Inl e \<longleftrightarrow> e = EOF \<and> (\<forall>b \<in> set s. bit b 7)" for e
    unfolding ReadVarUint32_loop_EOF [of s 0 0 0 e, symmetric]
    unfolding ReadVarUint32_def ReadVarUint32Size_def bindE_def
    by (cases "ReadVarUint32_loop s 0 0 0") (simp_all del: ReadVarUint32_loop.simps split: prod.split)
  moreover have "\<exists>p. p \<noteq> [] \<and> s = p @ r" if "ReadVarUint32 s = Inr (v, r)" for v r
    using ReadVarUint32_consumes [OF that] by auto
  ultimately show ?thesis by (simp add: ReadVarUint32_extend)
qed

theorem ReadVarUint32_total_witness:
  "ReadVarUint32 [0x80, 0x80] = Inl EOF \<and> ReadVarUint32 [0x81, 0x01, 0x05, 0x06] = Inr (129, [0x05, 0x06])"
proof -
  have e: "ReadVarUint32 [0x80, 0x80] = Inl EOF"
    by (subst ReadVarUint32_total [THEN conjunct1, THEN spec]) (simp add: bit_iff_odd)
  have "ReadVarUint32 [0x81, 0x01, 0x05] = Inr (129, [0x05])" by code_simp
  then have "ReadVarUint32 ([0x81, 0x01, 0x05] @ [0x06]) = Inr (129, [0x05] @ [0x06])"
    using ReadVarUint32_total [THEN conjunct2, THEN spec, THEN spec, THEN mp, THEN conjunct2] by blast
  with e show ?thesis by simp
qed

end
