(* ===== verification/Codec.thy ===== *)
theory Codec
  imports Leb128
begin

text \<open>
  The interface every pair of a WebAssembly reader and writer implements, as a
  locale: reading what was written, whatever follows it, returns the value and
  leaves exactly what follows.  Clients are the count-prefixed vectors every
  section of a module consists of, and the sections themselves.
\<close>

section \<open>The contract of a reader and a writer\<close>

locale codec =
  fixes rd :: "byte list \<Rightarrow> 'e + ('a \<times> byte list)"
    and wr :: "'a \<Rightarrow> byte list"
    and ok :: "'a \<Rightarrow> bool"
  assumes read_write: "ok x \<Longrightarrow> rd (wr x @ r) = Inr (x, r)"
begin

lemma unique_parse:
  assumes "ok x" "ok y" "wr x @ r = wr y @ s"
  shows "x = y \<and> r = s"
proof -
  have "Inr (x, r) = rd (wr y @ s)"
    using read_write [OF assms(1), of r] by (simp only: assms(3))
  then show ?thesis by (simp add: read_write [OF assms(2)])
qed

lemma write_inj: "ok x \<Longrightarrow> ok y \<Longrightarrow> wr x = wr y \<Longrightarrow> x = y"
  using unique_parse [of x y "[]" "[]"] by simp

lemma read_all: "ok x \<Longrightarrow> rd (wr x) = Inr (x, [])"
  using read_write [of x "[]"] by simp

end

section \<open>Vectors\<close>

text \<open>
  \<^verbatim>\<open>for i := range xs { err = xs[i].UnmarshalWASM(r); if err != nil { return err } }\<close>:
  \<open>n\<close> elements read one after the other.
\<close>

fun read_n :: "(byte list \<Rightarrow> 'e + ('a \<times> byte list)) \<Rightarrow> nat \<Rightarrow> byte list \<Rightarrow> 'e + ('a list \<times> byte list)" where
  "read_n rd 0 r = Inr ([], r)"
| "read_n rd (Suc n) r =
     bindE (rd r) (\<lambda>(x, r). bindE (read_n rd n r) (\<lambda>(xs, r). Inr (x # xs, r)))"

definition write_n :: "('a \<Rightarrow> byte list) \<Rightarrow> 'a list \<Rightarrow> byte list" where
  "write_n wr xs = concat (map wr xs)"

lemma write_n_simps [simp]:
  "write_n wr [] = []"
  "write_n wr (x # xs) = wr x @ write_n wr xs"
  by (simp_all add: write_n_def)

context codec
begin

lemma read_n_write_n:
  "(\<And>x. x \<in> set xs \<Longrightarrow> ok x) \<Longrightarrow> read_n rd (length xs) (write_n wr xs @ r) = Inr (xs, r)"
proof (induction xs)
  case Nil
  then show ?case by simp
next
  case (Cons x xs)
  then show ?case by (simp add: read_write)
qed

end

end
