(* ===== verification/WasmTypes.thy ===== *)
theory WasmTypes
  imports Codec
begin

text \<open>
  \<^verbatim>\<open>wagon/wasm/types.go\<close> and \<^verbatim>\<open>read.go\<close>: the value types, signatures, limits
  and external kinds of a WebAssembly module, each with the pair
  \<^verbatim>\<open>UnmarshalWASM\<close> / \<^verbatim>\<open>MarshalWASM\<close>.  A writer is a byte buffer, whose
  writes do not fail, so a marshaller is the list of bytes it appends.
  \<^verbatim>\<open>int8\<close> values are 8-bit words read in two's complement.
\<close>

section \<open>Errors of the package\<close>

datatype wasm_error =
    IOError io_error
  | InvalidExternalError byte
  | InvalidInitExprOpError byte
  | ErrEmptyInitExpr
  | InvalidValueTypeInitExprError
  | InvalidGlobalIndexError u32
  | InvalidFunctionIndexError u32
  | InvalidTableIndexError u32
  | InvalidLinearMemoryIndexError u32
  | DuplicateExportError "byte list"
  | ErrFunctionNoEnd
  | InvalidSectionIDError byte
  | MissingSectionError byte
  | ErrUnequalFunctionCode
  | ErrInvalidMagic
  | InvalidImportError "byte list" "byte list" u32
  | ErrImportMutGlobal
  | ErrNoExportsInImportedModule
  | ExportNotFoundError "byte list" "byte list"
  | KindMismatchError "byte list" "byte list" byte byte
  | ResolveError
  | WasmPanic go_error
  | InvalidValueTypePanic byte

definition liftIO :: "io_error + 'a \<Rightarrow> wasm_error + 'a" where
  "liftIO m = (case m of Inl e \<Rightarrow> Inl (IOError e) | Inr x \<Rightarrow> Inr x)"

lemma liftIO_simps [simp, go_simps]:
  "liftIO (Inl e) = Inl (IOError e)"
  "liftIO (Inr x) = Inr x"
  by (simp_all add: liftIO_def)

lemma liftIO_Inr_iff [simp]: "liftIO m = Inr x \<longleftrightarrow> m = Inr x"
  by (cases m) simp_all

section \<open>Reading bytes\<close>

definition readBytes :: "byte list \<Rightarrow> nat \<Rightarrow> wasm_error + (byte list \<times> byte list)" where
  "readBytes r n = liftIO (ReadFull n r)"

definition readString :: "byte list \<Rightarrow> nat \<Rightarrow> wasm_error + (byte list \<times> byte list)" where
  "readString r n = readBytes r n"

definition readU32 :: "byte list \<Rightarrow> wasm_error + (u32 \<times> byte list)" where
  "readU32 r = bindE (liftIO (ReadFull 4 r)) (\<lambda>(buf, r). Inr (le_get buf, r))"

definition readU64 :: "byte list \<Rightarrow> wasm_error + (u64 \<times> byte list)" where
  "readU64 r = bindE (liftIO (ReadFull 8 r)) (\<lambda>(buf, r). Inr (le_get buf, r))"

definition writeU32 :: "u32 \<Rightarrow> byte list" where
  "writeU32 n = le_put 4 n"

definition writeU64 :: "u64 \<Rightarrow> byte list" where
  "writeU64 n = le_put 8 n"

lemma readU32_writeU32 [simp]: "readU32 (writeU32 n @ r) = Inr (n, r)"
  by (simp add: readU32_def writeU32_def)

lemma readU64_writeU64 [simp]: "readU64 (writeU64 n @ r) = Inr (n, r)"
  by (simp add: readU64_def writeU64_def)

definition writeBytesUint :: "byte list \<Rightarrow> byte list" where
  "writeBytesUint p = WriteVarUint32 [] (of_nat (length p)) @ p"

definition writeStringUint :: "byte list \<Rightarrow> byte list" where
  "writeStringUint s = writeBytesUint s"

text \<open>The count or length prefix fits its 32 bits.\<close>

definition fits32 :: "nat \<Rightarrow> bool" where
  "fits32 n \<longleftrightarrow> n < 2 ^ 32"

lemma unat_of_nat_fits [simp]: "fits32 n \<Longrightarrow> unat (of_nat n :: u32) = n"
  by (simp add: fits32_def unsigned_of_nat take_bit_nat_eq_self)

section \<open>Value types\<close>

type_synonym ValueType = "8 word"
type_synonym BlockType = "8 word"

abbreviation ValueTypeI32 :: ValueType where "ValueTypeI32 \<equiv> - 0x01"
abbreviation ValueTypeI64 :: ValueType where "ValueTypeI64 \<equiv> - 0x02"
abbreviation ValueTypeF32 :: ValueType where "ValueTypeF32 \<equiv> - 0x03"
abbreviation ValueTypeF64 :: ValueType where "ValueTypeF64 \<equiv> - 0x04"
abbreviation BlockTypeEmpty :: BlockType where "BlockTypeEmpty \<equiv> - 0x40"

definition ValueType_UnmarshalWASM :: "byte list \<Rightarrow> wasm_error + (ValueType \<times> byte list)" where
  "ValueType_UnmarshalWASM r =
     bindE (liftIO (ReadVarint32 r)) (\<lambda>(v, r). Inr (ucast v, r))"

definition ValueType_MarshalWASM :: "ValueType \<Rightarrow> byte list" where
  "ValueType_MarshalWASM t = WriteVarint64 [] (scast t)"

lemma scast_scast_8: "scast (scast (t :: 8 word) :: u32) = (scast t :: u64)"
  by (rule bit_word_eqI) (auto simp: bit_simps min.assoc [symmetric])

lemma ucast_scast_8: "ucast (scast (t :: 8 word) :: u32) = t"
  by (rule bit_word_eqI) (auto simp: bit_simps)

interpretation ValueType: codec ValueType_UnmarshalWASM ValueType_MarshalWASM "\<lambda>_. True"
proof
  fix t :: ValueType and r
  show "ValueType_UnmarshalWASM (ValueType_MarshalWASM t @ r) = Inr (t, r)"
    using ReadVarint32_Write [of "scast t" r]
    by (simp add: ValueType_UnmarshalWASM_def ValueType_MarshalWASM_def scast_scast_8 ucast_scast_8)
qed

text \<open>\<^verbatim>\<open>ElemType\<close> is a Go \<^verbatim>\<open>int\<close>; the reader fills it from an \<^verbatim>\<open>int32\<close>.\<close>

type_synonym ElemType = u64

definition ElemType_UnmarshalWASM :: "byte list \<Rightarrow> wasm_error + (ElemType \<times> byte list)" where
  "ElemType_UnmarshalWASM r =
     bindE (liftIO (ReadVarint32 r)) (\<lambda>(b, r). Inr (scast b, r))"

definition ElemType_MarshalWASM :: "ElemType \<Rightarrow> byte list" where
  "ElemType_MarshalWASM t = WriteVarint64 [] t"

definition ElemType_ok :: "ElemType \<Rightarrow> bool" where
  "ElemType_ok t \<longleftrightarrow> scast (ucast t :: u32) = t"

interpretation ElemType: codec ElemType_UnmarshalWASM ElemType_MarshalWASM ElemType_ok
proof
  fix t :: ElemType and r
  assume "ElemType_ok t"
  then show "ElemType_UnmarshalWASM (ElemType_MarshalWASM t @ r) = Inr (t, r)"
    using ReadVarint32_Write [of "ucast t" r]
    by (simp add: ElemType_UnmarshalWASM_def ElemType_MarshalWASM_def ElemType_ok_def)
qed

section \<open>Function signatures\<close>

record FunctionSig =
  Form :: "8 word"
  ParamTypes :: "ValueType list"
  ReturnTypes :: "ValueType list"

definition FunctionSig_UnmarshalWASM :: "byte list \<Rightarrow> wasm_error + (FunctionSig \<times> byte list)" where
  "FunctionSig_UnmarshalWASM r =
     bindE (liftIO (ReadVarint32 r)) (\<lambda>(form, r).
     bindE (liftIO (ReadVarUint32 r)) (\<lambda>(paramCount, r).
     bindE (read_n ValueType_UnmarshalWASM (unat paramCount) r) (\<lambda>(params, r).
     bindE (liftIO (ReadVarUint32 r)) (\<lambda>(returnCount, r).
     bindE (read_n ValueType_UnmarshalWASM (unat returnCount) r) (\<lambda>(returns, r).
     Inr (\<lparr>Form = ucast form, ParamTypes = params, ReturnTypes = returns\<rparr>, r))))))"

definition FunctionSig_MarshalWASM :: "FunctionSig \<Rightarrow> byte list" where
  "FunctionSig_MarshalWASM f =
     WriteVarint64 [] (scast (Form f)) @
     WriteVarUint32 [] (of_nat (length (ParamTypes f))) @
     write_n ValueType_MarshalWASM (ParamTypes f) @
     WriteVarUint32 [] (of_nat (length (ReturnTypes f))) @
     write_n ValueType_MarshalWASM (ReturnTypes f)"

definition FunctionSig_ok :: "FunctionSig \<Rightarrow> bool" where
  "FunctionSig_ok f \<longleftrightarrow> fits32 (length (ParamTypes f)) \<and> fits32 (length (ReturnTypes f))"

lemma ReadVarint32_Write8 [simp]:
  "ReadVarint32 (WriteVarint64 [] (scast (t :: 8 word)) @ r) = Inr (scast t, r)"
  using ReadVarint32_Write [of "scast t" r] by (simp add: scast_scast_8)

interpretation FunctionSig: codec FunctionSig_UnmarshalWASM FunctionSig_MarshalWASM FunctionSig_ok
  by unfold_locales
    (simp add: FunctionSig_UnmarshalWASM_def FunctionSig_MarshalWASM_def FunctionSig_ok_def
      ValueType.read_n_write_n ucast_scast_8)

section \<open>Globals, limits, tables and memories\<close>

record GlobalVar =
  Type :: ValueType
  Mutable :: bool

definition GlobalVar_UnmarshalWASM :: "byte list \<Rightarrow> wasm_error + (GlobalVar \<times> byte list)" where
  "GlobalVar_UnmarshalWASM r =
     bindE (ValueType_UnmarshalWASM r) (\<lambda>(t, r).
     bindE (liftIO (ReadVarUint32 r)) (\<lambda>(m, r).
     Inr (\<lparr>Type = t, Mutable = (m = 1)\<rparr>, r)))"

definition GlobalVar_MarshalWASM :: "GlobalVar \<Rightarrow> byte list" where
  "GlobalVar_MarshalWASM g =
     ValueType_MarshalWASM (Type g) @ WriteVarUint32 [] (if Mutable g then 1 else 0)"

interpretation GlobalVar: codec GlobalVar_UnmarshalWASM GlobalVar_MarshalWASM "\<lambda>_. True"
  by unfold_locales
    (simp add: GlobalVar_UnmarshalWASM_def GlobalVar_MarshalWASM_def ValueType.read_write)

record ResizableLimits =
  Flags :: u32
  Initial :: u32
  Maximum :: u32

definition ResizableLimits_UnmarshalWASM ::
  "byte list \<Rightarrow> wasm_error + (ResizableLimits \<times> byte list)" where
  "ResizableLimits_UnmarshalWASM r =
     bindE (liftIO (ReadVarUint32 r)) (\<lambda>(f, r).
     bindE (liftIO (ReadVarUint32 r)) (\<lambda>(i, r).
     if f AND 1 \<noteq> 0
     then bindE (liftIO (ReadVarUint32 r)) (\<lambda>(m, r).
            Inr (\<lparr>Flags = f, Initial = i, Maximum = m\<rparr>, r))
     else Inr (\<lparr>Flags = f, Initial = i, Maximum = 0\<rparr>, r)))"

definition ResizableLimits_MarshalWASM :: "ResizableLimits \<Rightarrow> byte list" where
  "ResizableLimits_MarshalWASM lim =
     WriteVarUint32 [] (Flags lim) @ WriteVarUint32 [] (Initial lim) @
     (if Flags lim AND 1 \<noteq> 0 then WriteVarUint32 [] (Maximum lim) else [])"

text \<open>Without the flag the maximum is not written, so only a zero one survives.\<close>

definition ResizableLimits_ok :: "ResizableLimits \<Rightarrow> bool" where
  "ResizableLimits_ok lim \<longleftrightarrow> Flags lim AND 1 \<noteq> 0 \<or> Maximum lim = 0"

interpretation ResizableLimits: codec ResizableLimits_UnmarshalWASM ResizableLimits_MarshalWASM
  ResizableLimits_ok
  by unfold_locales
    (auto simp: ResizableLimits_UnmarshalWASM_def ResizableLimits_MarshalWASM_def
      ResizableLimits_ok_def)

record Table =
  ElementType :: ElemType
  TLimits :: ResizableLimits

definition Table_UnmarshalWASM :: "byte list \<Rightarrow> wasm_error + (Table \<times> byte list)" where
  "Table_UnmarshalWASM r =
     bindE (ElemType_UnmarshalWASM r) (\<lambda>(e, r).
     bindE (ResizableLimits_UnmarshalWASM r) (\<lambda>(lim, r).
     Inr (\<lparr>ElementType = e, TLimits = lim\<rparr>, r)))"

definition Table_MarshalWASM :: "Table \<Rightarrow> byte list" where
  "Table_MarshalWASM t =
     ElemType_MarshalWASM (ElementType t) @ ResizableLimits_MarshalWASM (TLimits t)"

definition Table_ok :: "Table \<Rightarrow> bool" where
  "Table_ok t \<longleftrightarrow> ElemType_ok (ElementType t) \<and> ResizableLimits_ok (TLimits t)"

interpretation Table: codec Table_UnmarshalWASM Table_MarshalWASM Table_ok
  by unfold_locales
    (simp add: Table_UnmarshalWASM_def Table_MarshalWASM_def Table_ok_def
      ElemType.read_write ResizableLimits.read_write)

record Memory =
  Limits :: ResizableLimits

definition Memory_UnmarshalWASM :: "byte list \<Rightarrow> wasm_error + (Memory \<times> byte list)" where
  "Memory_UnmarshalWASM r =
     bindE (ResizableLimits_UnmarshalWASM r) (\<lambda>(lim, r). Inr (\<lparr>Limits = lim\<rparr>, r))"

definition Memory_MarshalWASM :: "Memory \<Rightarrow> byte list" where
  "Memory_MarshalWASM m = ResizableLimits_MarshalWASM (Limits m)"

definition Memory_ok :: "Memory \<Rightarrow> bool" where
  "Memory_ok m \<longleftrightarrow> ResizableLimits_ok (Limits m)"

interpretation Memory: codec Memory_UnmarshalWASM Memory_MarshalWASM Memory_ok
  by unfold_locales
    (simp add: Memory_UnmarshalWASM_def Memory_MarshalWASM_def Memory_ok_def
      ResizableLimits.read_write)

section \<open>External kinds\<close>

type_synonym External = byte

abbreviation ExternalFunction :: External where "ExternalFunction \<equiv> 0"
abbreviation ExternalTable :: External where "ExternalTable \<equiv> 1"
abbreviation ExternalMemory :: External where "ExternalMemory \<equiv> 2"
abbreviation ExternalGlobal :: External where "ExternalGlobal \<equiv> 3"

definition External_UnmarshalWASM :: "byte list \<Rightarrow> wasm_error + (External \<times> byte list)" where
  "External_UnmarshalWASM r = bindE (readBytes r 1) (\<lambda>(bs, r). Inr (bs ! 0, r))"

definition External_MarshalWASM :: "External \<Rightarrow> byte list" where
  "External_MarshalWASM e = [e]"

interpretation External: codec External_UnmarshalWASM External_MarshalWASM "\<lambda>_. True"
  by unfold_locales
    (simp add: External_UnmarshalWASM_def External_MarshalWASM_def readBytes_def ReadFull_def)

lemma readBytes_writeBytes [simp]:
  "fits32 (length p) \<Longrightarrow>
   bindE (liftIO (ReadVarUint32 (writeBytesUint p @ r))) (\<lambda>(n, r). readBytes r (unat n)) = Inr (p, r)"
  by (simp add: writeBytesUint_def readBytes_def)

end
