(* ===== verification/Sections.thy ===== *)
theory Sections
  imports WasmTypes
begin

text \<open>
  \<^verbatim>\<open>wagon/wasm/section.go\<close>, \<^verbatim>\<open>imports.go\<close> (the import kinds) and the
  initializer expressions of \<^verbatim>\<open>init_expr.go\<close>: the payloads of the sections of a
  module, each as a reader and a writer, with the \<^verbatim>\<open>codec\<close> contract.
\<close>

section \<open>Initializer expressions\<close>

abbreviation i32Const :: byte where "i32Const \<equiv> 0x41"
abbreviation i64Const :: byte where "i64Const \<equiv> 0x42"
abbreviation f32Const :: byte where "f32Const \<equiv> 0x43"
abbreviation f64Const :: byte where "f64Const \<equiv> 0x44"
abbreviation getGlobal :: byte where "getGlobal \<equiv> 0x23"
abbreviation end_op :: byte where "end_op \<equiv> 0x0b"

text \<open>
  One instruction's immediates are skipped; the result says whether the loop goes
  on.  The bytes of an expression are those the \<^verbatim>\<open>io.TeeReader\<close> copied.
\<close>

definition initExpr_step :: "byte \<Rightarrow> byte list \<Rightarrow> wasm_error + (bool \<times> byte list)" where
  "initExpr_step b r =
     (if b = i32Const then bindE (liftIO (ReadVarint32 r)) (\<lambda>(_, r). Inr (True, r))
      else if b = i64Const then bindE (liftIO (ReadVarint64 r)) (\<lambda>(_, r). Inr (True, r))
      else if b = f32Const then bindE (readU32 r) (\<lambda>(_, r). Inr (True, r))
      else if b = f64Const then bindE (readU64 r) (\<lambda>(_, r). Inr (True, r))
      else if b = getGlobal then bindE (liftIO (ReadVarUint32 r)) (\<lambda>(_, r). Inr (True, r))
      else if b = end_op then Inr (False, r)
      else Inl (InvalidInitExprOpError b))"

lemma initExpr_step_suffix:
  assumes "initExpr_step b r = Inr (go, r')"
  shows "\<exists>xs. r = xs @ r'"
  using assms
  by (auto simp: initExpr_step_def readU32_def readU64_def ReadFull_Inr_iff
      elim!: bindE_InrE split: if_splits dest: ReadVarint32_consumes(2)
        ReadVarint64_consumes(2) ReadVarUint32_consumes(2))

lemma initExpr_step_length:
  "initExpr_step b r = Inr (go, r') \<Longrightarrow> length r' \<le> length r"
  by (drule initExpr_step_suffix) auto

function initExpr_loop :: "byte list \<Rightarrow> wasm_error + byte list" where
  "initExpr_loop [] = Inl (IOError EOF)"
| "initExpr_loop (b # r) =
     (case initExpr_step b r of
        Inl e \<Rightarrow> Inl e
      | Inr (go, r') \<Rightarrow> if go then initExpr_loop r' else Inr r')"
  by pat_completeness auto
termination
  by (relation "measure length") (auto dest: initExpr_step_length)

definition readInitExpr :: "byte list \<Rightarrow> wasm_error + (byte list \<times> byte list)" where
  "readInitExpr r =
     bindE (initExpr_loop r) (\<lambda>r'.
       let buf = take (length r - length r') r
       in if length buf = 0 then Inl ErrEmptyInitExpr else Inr (buf, r'))"

text \<open>An expression that is exactly what the reader would delimit.\<close>

definition InitExpr_ok :: "byte list \<Rightarrow> bool" where
  "InitExpr_ok e \<longleftrightarrow> readInitExpr e = Inr (e, [])"

lemma initExpr_step_extend:
  "initExpr_step b r = Inr (go, r') \<Longrightarrow> initExpr_step b (r @ s) = Inr (go, r' @ s)"
  by (auto simp: initExpr_step_def readU32_def readU64_def
      ReadFull_extend ReadVarint32_extend ReadVarint64_extend ReadVarUint32_extend
      elim!: bindE_InrE split: if_splits)

lemma initExpr_loop_extend:
  "initExpr_loop r = Inr r' \<Longrightarrow> initExpr_loop (r @ s) = Inr (r' @ s)"
proof (induction r rule: initExpr_loop.induct)
  case 1
  then show ?case by simp
next
  case (2 b r)
  then obtain go r'' where step: "initExpr_step b r = Inr (go, r'')"
    by (auto split: sum.splits)
  note ext = initExpr_step_extend [OF step, of s]
  show ?case
  proof (cases go)
    case True
    with 2 step have "initExpr_loop r'' = Inr r'" by simp
    with 2(1) [OF step refl True] ext True show ?thesis by simp
  next
    case False
    with 2 step ext show ?thesis by simp
  qed
qed

interpretation InitExpr: codec readInitExpr "\<lambda>e. e" InitExpr_ok
proof
  fix e r :: "byte list"
  assume "InitExpr_ok e"
  then have "initExpr_loop e = Inr []" "e \<noteq> []"
    unfolding InitExpr_ok_def readInitExpr_def
    by (auto elim!: bindE_InrE simp: Let_def split: if_splits)
  then show "readInitExpr (e @ r) = Inr (e, r)"
    using initExpr_loop_extend [of e "[]" r] by (simp add: readInitExpr_def Let_def)
qed

section \<open>Import entries\<close>

datatype Import =
    FuncImport u32
  | TableImport Table
  | MemoryImport Memory
  | GlobalVarImport GlobalVar

fun Import_Kind :: "Import \<Rightarrow> External" where
  "Import_Kind (FuncImport _) = ExternalFunction"
| "Import_Kind (TableImport _) = ExternalTable"
| "Import_Kind (MemoryImport _) = ExternalMemory"
| "Import_Kind (GlobalVarImport _) = ExternalGlobal"

fun Import_MarshalWASM :: "Import \<Rightarrow> byte list" where
  "Import_MarshalWASM (FuncImport f) = WriteVarUint32 [] f"
| "Import_MarshalWASM (TableImport t) = Table_MarshalWASM t"
| "Import_MarshalWASM (MemoryImport m) = Memory_MarshalWASM m"
| "Import_MarshalWASM (GlobalVarImport g) = GlobalVar_MarshalWASM g"

record ImportEntry =
  ModuleName :: "byte list"
  FieldName :: "byte list"
  IType :: Import

definition ImportEntry_UnmarshalWASM :: "byte list \<Rightarrow> wasm_error + (ImportEntry \<times> byte list)" where
  "ImportEntry_UnmarshalWASM r =
     bindE (liftIO (ReadVarUint32 r)) (\<lambda>(modLen, r).
     bindE (readString r (unat modLen)) (\<lambda>(modName, r).
     bindE (liftIO (ReadVarUint32 r)) (\<lambda>(fieldLen, r).
     bindE (readString r (unat fieldLen)) (\<lambda>(fieldName, r).
     bindE (External_UnmarshalWASM r) (\<lambda>(kind, r).
     bindE
       (if kind = ExternalFunction
        then bindE (liftIO (ReadVarUint32 r)) (\<lambda>(t, r). Inr (FuncImport t, r))
        else if kind = ExternalTable
        then bindE (Table_UnmarshalWASM r) (\<lambda>(t, r). Inr (TableImport t, r))
        else if kind = ExternalMemory
        then bindE (Memory_UnmarshalWASM r) (\<lambda>(m, r). Inr (MemoryImport m, r))
        else if kind = ExternalGlobal
        then bindE (GlobalVar_UnmarshalWASM r) (\<lambda>(g, r). Inr (GlobalVarImport g, r))
        else Inl (InvalidExternalError kind)) (\<lambda>(t, r).
     Inr (\<lparr>ModuleName = modName, FieldName = fieldName, IType = t\<rparr>, r)))))))"

definition writeImportEntry :: "ImportEntry \<Rightarrow> byte list" where
  "writeImportEntry i =
     writeStringUint (ModuleName i) @ writeStringUint (FieldName i) @
     External_MarshalWASM (Import_Kind (IType i)) @ Import_MarshalWASM (IType i)"

fun Import_ok :: "Import \<Rightarrow> bool" where
  "Import_ok (FuncImport _) = True"
| "Import_ok (TableImport t) = Table_ok t"
| "Import_ok (MemoryImport m) = Memory_ok m"
| "Import_ok (GlobalVarImport _) = True"

definition ImportEntry_ok :: "ImportEntry \<Rightarrow> bool" where
  "ImportEntry_ok i \<longleftrightarrow>
     fits32 (length (ModuleName i)) \<and> fits32 (length (FieldName i)) \<and> Import_ok (IType i)"

lemma readString_prefix [simp]:
  "readString (p @ r) (length p) = Inr (p, r)"
  by (simp add: readString_def readBytes_def)

interpretation ImportEntry: codec ImportEntry_UnmarshalWASM writeImportEntry ImportEntry_ok
proof
  fix i :: ImportEntry and r
  assume "ImportEntry_ok i"
  then show "ImportEntry_UnmarshalWASM (writeImportEntry i @ r) = Inr (i, r)"
    by (cases i; cases "IType i")
      (auto simp: ImportEntry_UnmarshalWASM_def writeImportEntry_def ImportEntry_ok_def
        writeStringUint_def writeBytesUint_def External.read_write Table.read_write
        Memory.read_write GlobalVar.read_write)
qed

section \<open>Entries of the other sections\<close>

record GlobalEntry =
  GType :: GlobalVar
  Init :: "byte list"

definition GlobalEntry_UnmarshalWASM :: "byte list \<Rightarrow> wasm_error + (GlobalEntry \<times> byte list)" where
  "GlobalEntry_UnmarshalWASM r =
     bindE (GlobalVar_UnmarshalWASM r) (\<lambda>(t, r).
     bindE (readInitExpr r) (\<lambda>(e, r). Inr (\<lparr>GType = t, Init = e\<rparr>, r)))"

definition GlobalEntry_MarshalWASM :: "GlobalEntry \<Rightarrow> byte list" where
  "GlobalEntry_MarshalWASM g = GlobalVar_MarshalWASM (GType g) @ Init g"

interpretation GlobalEntry: codec GlobalEntry_UnmarshalWASM GlobalEntry_MarshalWASM
  "\<lambda>g. InitExpr_ok (Init g)"
  by unfold_locales
    (simp add: GlobalEntry_UnmarshalWASM_def GlobalEntry_MarshalWASM_def
      GlobalVar.read_write InitExpr.read_write)

record ExportEntry =
  FieldStr :: "byte list"
  Kind :: External
  Index :: u32

definition ExportEntry_UnmarshalWASM :: "byte list \<Rightarrow> wasm_error + (ExportEntry \<times> byte list)" where
  "ExportEntry_UnmarshalWASM r =
     bindE (liftIO (ReadVarUint32 r)) (\<lambda>(fieldLen, r).
     bindE (readString r (unat fieldLen)) (\<lambda>(field, r).
     bindE (External_UnmarshalWASM r) (\<lambda>(kind, r).
     bindE (liftIO (ReadVarUint32 r)) (\<lambda>(index, r).
     Inr (\<lparr>FieldStr = field, Kind = kind, Index = index\<rparr>, r)))))"

definition ExportEntry_MarshalWASM :: "ExportEntry \<Rightarrow> byte list" where
  "ExportEntry_MarshalWASM e =
     writeStringUint (FieldStr e) @ External_MarshalWASM (Kind e) @ WriteVarUint32 [] (Index e)"

definition ExportEntry_ok :: "ExportEntry \<Rightarrow> bool" where
  "ExportEntry_ok e \<longleftrightarrow> fits32 (length (FieldStr e))"

interpretation ExportEntry: codec ExportEntry_UnmarshalWASM ExportEntry_MarshalWASM ExportEntry_ok
  by unfold_locales
    (simp add: ExportEntry_UnmarshalWASM_def ExportEntry_MarshalWASM_def ExportEntry_ok_def
      writeStringUint_def writeBytesUint_def External.read_write)

record ElementSegment =
  EIndex :: u32
  EOffset :: "byte list"
  Elems :: "u32 list"

definition ReadVarUint32_w :: "byte list \<Rightarrow> wasm_error + (u32 \<times> byte list)" where
  "ReadVarUint32_w r = liftIO (ReadVarUint32 r)"

interpretation VarUint32: codec ReadVarUint32_w "WriteVarUint32 []" "\<lambda>_. True"
  by unfold_locales (simp add: ReadVarUint32_w_def)

definition ElementSegment_UnmarshalWASM ::
  "byte list \<Rightarrow> wasm_error + (ElementSegment \<times> byte list)" where
  "ElementSegment_UnmarshalWASM r =
     bindE (liftIO (ReadVarUint32 r)) (\<lambda>(i, r).
     bindE (readInitExpr r) (\<lambda>(off, r).
     bindE (liftIO (ReadVarUint32 r)) (\<lambda>(numElems, r).
     bindE (read_n ReadVarUint32_w (unat numElems) r) (\<lambda>(elems, r).
     Inr (\<lparr>EIndex = i, EOffset = off, Elems = elems\<rparr>, r)))))"

definition ElementSegment_MarshalWASM :: "ElementSegment \<Rightarrow> byte list" where
  "ElementSegment_MarshalWASM s =
     WriteVarUint32 [] (EIndex s) @ EOffset s @
     WriteVarUint32 [] (of_nat (length (Elems s))) @ write_n (WriteVarUint32 []) (Elems s)"

definition ElementSegment_ok :: "ElementSegment \<Rightarrow> bool" where
  "ElementSegment_ok s \<longleftrightarrow> InitExpr_ok (EOffset s) \<and> fits32 (length (Elems s))"

interpretation ElementSegment: codec ElementSegment_UnmarshalWASM ElementSegment_MarshalWASM
  ElementSegment_ok
  by unfold_locales
    (simp add: ElementSegment_UnmarshalWASM_def ElementSegment_MarshalWASM_def
      ElementSegment_ok_def InitExpr.read_write VarUint32.read_n_write_n)

record DataSegment =
  DIndex :: u32
  DOffset :: "byte list"
  Data :: "byte list"

definition DataSegment_UnmarshalWASM :: "byte list \<Rightarrow> wasm_error + (DataSegment \<times> byte list)" where
  "DataSegment_UnmarshalWASM r =
     bindE (liftIO (ReadVarUint32 r)) (\<lambda>(i, r).
     bindE (readInitExpr r) (\<lambda>(off, r).
     bindE (liftIO (ReadVarUint32 r)) (\<lambda>(sz, r).
     bindE (readBytes r (unat sz)) (\<lambda>(d, r).
     Inr (\<lparr>DIndex = i, DOffset = off, Data = d\<rparr>, r)))))"

definition DataSegment_MarshalWASM :: "DataSegment \<Rightarrow> byte list" where
  "DataSegment_MarshalWASM s =
     WriteVarUint32 [] (DIndex s) @ DOffset s @ writeBytesUint (Data s)"

definition DataSegment_ok :: "DataSegment \<Rightarrow> bool" where
  "DataSegment_ok s \<longleftrightarrow> InitExpr_ok (DOffset s) \<and> fits32 (length (Data s))"

interpretation DataSegment: codec DataSegment_UnmarshalWASM DataSegment_MarshalWASM DataSegment_ok
  by unfold_locales
    (simp add: DataSegment_UnmarshalWASM_def DataSegment_MarshalWASM_def DataSegment_ok_def
      InitExpr.read_write writeBytesUint_def readBytes_def)

section \<open>Function bodies\<close>

record LocalEntry =
  Count :: u32
  LType :: ValueType

definition LocalEntry_UnmarshalWASM :: "byte list \<Rightarrow> wasm_error + (LocalEntry \<times> byte list)" where
  "LocalEntry_UnmarshalWASM r =
     bindE (liftIO (ReadVarUint32 r)) (\<lambda>(c, r).
     bindE (ValueType_UnmarshalWASM r) (\<lambda>(t, r). Inr (\<lparr>Count = c, LType = t\<rparr>, r)))"

definition LocalEntry_MarshalWASM :: "LocalEntry \<Rightarrow> byte list" where
  "LocalEntry_MarshalWASM l = WriteVarUint32 [] (Count l) @ ValueType_MarshalWASM (LType l)"

interpretation LocalEntry: codec LocalEntry_UnmarshalWASM LocalEntry_MarshalWASM "\<lambda>_. True"
  by unfold_locales
    (simp add: LocalEntry_UnmarshalWASM_def LocalEntry_MarshalWASM_def ValueType.read_write)

text \<open>
  The back pointer of a body to its module is not kept.  Reading the last byte of
  an empty code slice is an index out of range, a panic and not an error.
\<close>

record FunctionBody =
  Locals :: "LocalEntry list"
  Code :: "byte list"

definition FunctionBody_UnmarshalWASM :: "byte list \<Rightarrow> wasm_error + (FunctionBody \<times> byte list)" where
  "FunctionBody_UnmarshalWASM r =
     bindE (liftIO (ReadVarUint32 r)) (\<lambda>(bodySize, r).
     bindE (liftIO (ReadFull (unat bodySize) r)) (\<lambda>(body, r).
     bindE (liftIO (ReadVarUint32 body)) (\<lambda>(localCount, body).
     bindE (read_n LocalEntry_UnmarshalWASM (unat localCount) body) (\<lambda>(locals, code).
     if code = [] then Inl (WasmPanic IndexOutOfRange)
     else if last code \<noteq> end_op then Inl ErrFunctionNoEnd
     else Inr (\<lparr>Locals = locals, Code = butlast code\<rparr>, r)))))"

definition FunctionBody_MarshalWASM :: "FunctionBody \<Rightarrow> byte list" where
  "FunctionBody_MarshalWASM f =
     writeBytesUint
       (WriteVarUint32 [] (of_nat (length (Locals f))) @
        write_n LocalEntry_MarshalWASM (Locals f) @ Code f @ [end_op])"

definition FunctionBody_ok :: "FunctionBody \<Rightarrow> bool" where
  "FunctionBody_ok f \<longleftrightarrow>
     fits32 (length (Locals f)) \<and>
     fits32 (length (WriteVarUint32 [] (of_nat (length (Locals f))) @
        write_n LocalEntry_MarshalWASM (Locals f) @ Code f @ [end_op]))"

interpretation FunctionBody: codec FunctionBody_UnmarshalWASM FunctionBody_MarshalWASM FunctionBody_ok
proof
  fix f :: FunctionBody and r
  assume "FunctionBody_ok f"
  let ?body = "WriteVarUint32 [] (of_nat (length (Locals f))) @
    write_n LocalEntry_MarshalWASM (Locals f) @ Code f @ [end_op]"
  have w: "FunctionBody_MarshalWASM f @ r = WriteVarUint32 [] (of_nat (length ?body)) @ ?body @ r"
    by (simp add: FunctionBody_MarshalWASM_def writeBytesUint_def)
  have len: "unat (of_nat (length ?body) :: u32) = length ?body"
    using \<open>FunctionBody_ok f\<close> by (intro unat_of_nat_fits) (simp add: FunctionBody_ok_def)
  have full: "ReadFull (length ?body) (?body @ r) = Inr (?body, r)"
    by (rule ReadFull_append) simp
  have ls: "fits32 (length (Locals f))" using \<open>FunctionBody_ok f\<close> by (simp add: FunctionBody_ok_def)
  show "FunctionBody_UnmarshalWASM (FunctionBody_MarshalWASM f @ r) = Inr (f, r)"
    unfolding w FunctionBody_UnmarshalWASM_def
    by (simp only: ReadVarUint32_Write liftIO_simps bindE_simps prod.case len full)
      (simp add: LocalEntry.read_n_write_n ls)
qed

end
