(* ===== verification/Payloads.thy ===== *)
theory Payloads
  imports Sections
begin

text \<open>
  The \<^verbatim>\<open>ReadPayload\<close> / \<^verbatim>\<open>WritePayload\<close> pair of every section of
  \<^verbatim>\<open>wagon/wasm/section.go\<close>: a count followed by that many entries, a map of
  exports, or one index.  The counted vectors share one contract, \<open>vector\<close>, an
  extension of nothing but the \<open>codec\<close> of their entries.
\<close>

section \<open>Counted vectors\<close>

definition read_vec ::
  "(byte list \<Rightarrow> wasm_error + ('a \<times> byte list)) \<Rightarrow> byte list \<Rightarrow> wasm_error + ('a list \<times> byte list)" where
  "read_vec rd r = bindE (liftIO (ReadVarUint32 r)) (\<lambda>(count, r). read_n rd (unat count) r)"

definition write_vec :: "('a \<Rightarrow> byte list) \<Rightarrow> 'a list \<Rightarrow> byte list" where
  "write_vec wr xs = WriteVarUint32 [] (of_nat (length xs)) @ write_n wr xs"

definition vec_ok :: "('a \<Rightarrow> bool) \<Rightarrow> 'a list \<Rightarrow> bool" where
  "vec_ok ok xs \<longleftrightarrow> fits32 (length xs) \<and> list_all ok xs"

locale vector = codec rd wr ok
  for rd :: "byte list \<Rightarrow> wasm_error + ('a \<times> byte list)" and wr ok
begin

lemma read_vec_write_vec: "vec_ok ok xs \<Longrightarrow> read_vec rd (write_vec wr xs @ r) = Inr (xs, r)"
  by (simp add: read_vec_def write_vec_def vec_ok_def list_all_iff read_n_write_n)

end

sublocale vector \<subseteq> vec: codec "read_vec rd" "write_vec wr" "vec_ok ok"
  by unfold_locales (rule read_vec_write_vec)

section \<open>Sections\<close>

type_synonym SectionID = byte

abbreviation SectionIDCustom :: SectionID where "SectionIDCustom \<equiv> 0"
abbreviation SectionIDType :: SectionID where "SectionIDType \<equiv> 1"
abbreviation SectionIDImport :: SectionID where "SectionIDImport \<equiv> 2"
abbreviation SectionIDFunction :: SectionID where "SectionIDFunction \<equiv> 3"
abbreviation SectionIDTable :: SectionID where "SectionIDTable \<equiv> 4"
abbreviation SectionIDMemory :: SectionID where "SectionIDMemory \<equiv> 5"
abbreviation SectionIDGlobal :: SectionID where "SectionIDGlobal \<equiv> 6"
abbreviation SectionIDExport :: SectionID where "SectionIDExport \<equiv> 7"
abbreviation SectionIDStart :: SectionID where "SectionIDStart \<equiv> 8"
abbreviation SectionIDElement :: SectionID where "SectionIDElement \<equiv> 9"
abbreviation SectionIDCode :: SectionID where "SectionIDCode \<equiv> 10"
abbreviation SectionIDData :: SectionID where "SectionIDData \<equiv> 11"

definition SectionID_String :: "SectionID \<Rightarrow> string" where
  "SectionID_String s =
     (case map_of
        [(SectionIDCustom, ''custom''), (SectionIDType, ''type''), (SectionIDImport, ''import''),
         (SectionIDFunction, ''function''), (SectionIDTable, ''table''),
         (SectionIDMemory, ''memory''), (SectionIDGlobal, ''global''),
         (SectionIDExport, ''export''), (SectionIDStart, ''start''),
         (SectionIDElement, ''element''), (SectionIDCode, ''code''), (SectionIDData, ''data'')] s
      of None \<Rightarrow> ''unknown'' | Some n \<Rightarrow> n)"

record RawSection =
  Start :: int
  End :: int
  ID :: SectionID
  PayloadLen :: u32
  Name :: "byte list"
  Bytes :: "byte list"

definition RawSection_zero :: RawSection where
  "RawSection_zero = \<lparr>Start = 0, End = 0, ID = 0, PayloadLen = 0, Name = [], Bytes = []\<rparr>"

definition RawSection_ReadPayload ::
  "RawSection \<Rightarrow> byte list \<Rightarrow> wasm_error + (byte list \<times> byte list)" where
  "RawSection_ReadPayload s r = liftIO (ReadFull (unat (PayloadLen s)) r)"

definition RawSection_WritePayload :: "RawSection \<Rightarrow> byte list" where
  "RawSection_WritePayload s = Bytes s"

text \<open>Every other section embeds a \<^verbatim>\<open>RawSection\<close> and has one field of its own.\<close>

record 'a sect =
  Raw :: RawSection
  Entries :: 'a

type_synonym SectionTypes = "FunctionSig list sect"
type_synonym SectionImports = "ImportEntry list sect"
type_synonym SectionFunctions = "u32 list sect"
type_synonym SectionTables = "Table list sect"
type_synonym SectionMemories = "Memory list sect"
type_synonym SectionGlobals = "GlobalEntry list sect"
type_synonym export_map = "byte list \<Rightarrow> ExportEntry option"
type_synonym SectionExports = "export_map sect"
type_synonym SectionStartFunction = "u32 sect"
type_synonym SectionElements = "ElementSegment list sect"
type_synonym SectionCode = "FunctionBody list sect"
type_synonym SectionData = "DataSegment list sect"

section \<open>Payloads that are one vector\<close>

definition SectionTypes_ReadPayload :: "byte list \<Rightarrow> wasm_error + (FunctionSig list \<times> byte list)" where
  "SectionTypes_ReadPayload = read_vec FunctionSig_UnmarshalWASM"

definition SectionTypes_WritePayload :: "FunctionSig list \<Rightarrow> byte list" where
  "SectionTypes_WritePayload = write_vec FunctionSig_MarshalWASM"

definition SectionImports_ReadPayload :: "byte list \<Rightarrow> wasm_error + (ImportEntry list \<times> byte list)" where
  "SectionImports_ReadPayload = read_vec ImportEntry_UnmarshalWASM"

definition SectionImports_WritePayload :: "ImportEntry list \<Rightarrow> byte list" where
  "SectionImports_WritePayload = write_vec writeImportEntry"

definition SectionFunctions_ReadPayload :: "byte list \<Rightarrow> wasm_error + (u32 list \<times> byte list)" where
  "SectionFunctions_ReadPayload = read_vec ReadVarUint32_w"

definition SectionFunctions_WritePayload :: "u32 list \<Rightarrow> byte list" where
  "SectionFunctions_WritePayload = write_vec (WriteVarUint32 [])"

definition SectionTables_ReadPayload :: "byte list \<Rightarrow> wasm_error + (Table list \<times> byte list)" where
  "SectionTables_ReadPayload = read_vec Table_UnmarshalWASM"

definition SectionTables_WritePayload :: "Table list \<Rightarrow> byte list" where
  "SectionTables_WritePayload = write_vec Table_MarshalWASM"

definition SectionMemories_ReadPayload :: "byte list \<Rightarrow> wasm_error + (Memory list \<times> byte list)" where
  "SectionMemories_ReadPayload = read_vec Memory_UnmarshalWASM"

definition SectionMemories_WritePayload :: "Memory list \<Rightarrow> byte list" where
  "SectionMemories_WritePayload = write_vec Memory_MarshalWASM"

definition SectionGlobals_ReadPayload :: "byte list \<Rightarrow> wasm_error + (GlobalEntry list \<times> byte list)" where
  "SectionGlobals_ReadPayload = read_vec GlobalEntry_UnmarshalWASM"

definition SectionGlobals_WritePayload :: "GlobalEntry list \<Rightarrow> byte list" where
  "SectionGlobals_WritePayload = write_vec GlobalEntry_MarshalWASM"

definition SectionElements_ReadPayload ::
  "byte list \<Rightarrow> wasm_error + (ElementSegment list \<times> byte list)" where
  "SectionElements_ReadPayload = read_vec ElementSegment_UnmarshalWASM"

definition SectionElements_WritePayload :: "ElementSegment list \<Rightarrow> byte list" where
  "SectionElements_WritePayload = write_vec ElementSegment_MarshalWASM"

definition SectionCode_ReadPayload :: "byte list \<Rightarrow> wasm_error + (FunctionBody list \<times> byte list)" where
  "SectionCode_ReadPayload = read_vec FunctionBody_UnmarshalWASM"

definition SectionCode_WritePayload :: "FunctionBody list \<Rightarrow> byte list" where
  "SectionCode_WritePayload = write_vec FunctionBody_MarshalWASM"

definition SectionData_ReadPayload :: "byte list \<Rightarrow> wasm_error + (DataSegment list \<times> byte list)" where
  "SectionData_ReadPayload = read_vec DataSegment_UnmarshalWASM"

definition SectionData_WritePayload :: "DataSegment list \<Rightarrow> byte list" where
  "SectionData_WritePayload = write_vec DataSegment_MarshalWASM"

interpretation FunctionSigs: vector FunctionSig_UnmarshalWASM FunctionSig_MarshalWASM FunctionSig_ok
  by (rule vector.intro) (rule FunctionSig.codec_axioms)

interpretation ImportEntries: vector ImportEntry_UnmarshalWASM writeImportEntry ImportEntry_ok
  by (rule vector.intro) (rule ImportEntry.codec_axioms)

interpretation VarUint32s: vector ReadVarUint32_w "WriteVarUint32 []" "\<lambda>_. True"
  by (rule vector.intro) (rule VarUint32.codec_axioms)

interpretation Tables: vector Table_UnmarshalWASM Table_MarshalWASM Table_ok
  by (rule vector.intro) (rule Table.codec_axioms)

interpretation Memories: vector Memory_UnmarshalWASM Memory_MarshalWASM Memory_ok
  by (rule vector.intro) (rule Memory.codec_axioms)

interpretation GlobalEntries: vector GlobalEntry_UnmarshalWASM GlobalEntry_MarshalWASM
  "\<lambda>g. InitExpr_ok (Init g)"
  by (rule vector.intro) (rule GlobalEntry.codec_axioms)

interpretation ElementSegments: vector ElementSegment_UnmarshalWASM ElementSegment_MarshalWASM
  ElementSegment_ok
  by (rule vector.intro) (rule ElementSegment.codec_axioms)

interpretation FunctionBodies: vector FunctionBody_UnmarshalWASM FunctionBody_MarshalWASM
  FunctionBody_ok
  by (rule vector.intro) (rule FunctionBody.codec_axioms)

interpretation DataSegments: vector DataSegment_UnmarshalWASM DataSegment_MarshalWASM DataSegment_ok
  by (rule vector.intro) (rule DataSegment.codec_axioms)

section \<open>The start function\<close>

definition SectionStartFunction_ReadPayload :: "byte list \<Rightarrow> wasm_error + (u32 \<times> byte list)" where
  "SectionStartFunction_ReadPayload = ReadVarUint32_w"

definition SectionStartFunction_WritePayload :: "u32 \<Rightarrow> byte list" where
  "SectionStartFunction_WritePayload i = WriteVarUint32 [] i"

section \<open>Exports\<close>

text \<open>
  The entries are a Go map from names: a second entry with a name already there is
  an error.  The loop over the remaining count is recursion on it.
\<close>

fun readExports :: "nat \<Rightarrow> export_map \<Rightarrow> byte list \<Rightarrow> wasm_error + (export_map \<times> byte list)" where
  "readExports 0 m r = Inr (m, r)"
| "readExports (Suc n) m r =
     bindE (ExportEntry_UnmarshalWASM r) (\<lambda>(entry, r).
       if m (FieldStr entry) \<noteq> None then Inl (DuplicateExportError (FieldStr entry))
       else readExports n (m(FieldStr entry \<mapsto> entry)) r)"

definition SectionExports_ReadPayload :: "byte list \<Rightarrow> wasm_error + (export_map \<times> byte list)" where
  "SectionExports_ReadPayload r =
     bindE (liftIO (ReadVarUint32 r)) (\<lambda>(count, r). readExports (unat count) Map.empty r)"

text \<open>
  The writer ranges over the map in an order Go leaves unspecified and sorts the
  entries by index with a sort that is not stable, so the list it writes is any
  enumeration of the map's values, ascending in the index.
\<close>

definition export_enumeration :: "export_map \<Rightarrow> ExportEntry list \<Rightarrow> bool" where
  "export_enumeration m es \<longleftrightarrow>
     sorted (map Index es) \<and>
     (\<exists>ks. distinct ks \<and> set ks = dom m \<and> es = map (\<lambda>k. the (m k)) ks)"

definition SectionExports_WritePayload :: "ExportEntry list \<Rightarrow> byte list" where
  "SectionExports_WritePayload es = write_vec ExportEntry_MarshalWASM es"

text \<open>A map of exports as the reader builds it: each entry under its own name.\<close>

definition exports_ok :: "export_map \<Rightarrow> bool" where
  "exports_ok m \<longleftrightarrow>
     finite (dom m) \<and> fits32 (card (dom m)) \<and>
     (\<forall>k e. m k = Some e \<longrightarrow> FieldStr e = k \<and> ExportEntry_ok e)"

lemma readExports_write:
  assumes "distinct (map FieldStr es)" "\<And>e. e \<in> set es \<Longrightarrow> ExportEntry_ok e \<and> m (FieldStr e) = None"
  shows "readExports (length es) m (write_n ExportEntry_MarshalWASM es @ r) =
           Inr (m ++ map_of (rev (map (\<lambda>e. (FieldStr e, e)) es)), r)"
  using assms
proof (induction es arbitrary: m)
  case Nil
  then show ?case by simp
next
  case (Cons e es)
  have "readExports (length es) (m(FieldStr e \<mapsto> e)) (write_n ExportEntry_MarshalWASM es @ r) =
      Inr (m(FieldStr e \<mapsto> e) ++ map_of (rev (map (\<lambda>e. (FieldStr e, e)) es)), r)"
    using Cons.prems by (intro Cons.IH) (auto simp: image_iff)
  moreover have "m (FieldStr e) = None" "ExportEntry_ok e" using Cons.prems(2) by auto
  ultimately show ?case
    by (simp add: ExportEntry.read_write map_of_append map_add_assoc)
qed

lemma readExports_keys:
  assumes "readExports n m r = Inr (m', r')" "\<And>k e. m k = Some e \<Longrightarrow> FieldStr e = k"
  shows "(\<forall>k e. m' k = Some e \<longrightarrow> FieldStr e = k) \<and> finite (dom m' - dom m) \<and>
    card (dom m' - dom m) = n \<and> dom m \<subseteq> dom m'"
  using assms
proof (induction n arbitrary: m r)
  case 0
  then show ?case by simp
next
  case (Suc n)
  obtain e r1 where u: "ExportEntry_UnmarshalWASM r = Inr (e, r1)"
    using Suc.prems(1) by (cases "ExportEntry_UnmarshalWASM r") (simp, metis surj_pair)
  have e: "m (FieldStr e) = None" and rest: "readExports n (m(FieldStr e \<mapsto> e)) r1 = Inr (m', r')"
    using Suc.prems(1) by (simp_all add: u split: if_splits)
  have IH: "(\<forall>k e. m' k = Some e \<longrightarrow> FieldStr e = k) \<and>
      finite (dom m' - dom (m(FieldStr e \<mapsto> e))) \<and>
      card (dom m' - dom (m(FieldStr e \<mapsto> e))) = n \<and> dom (m(FieldStr e \<mapsto> e)) \<subseteq> dom m'"
    using Suc.prems(2) by (intro Suc.IH [OF rest]) (auto split: if_splits)
  have new: "FieldStr e \<notin> dom m" "FieldStr e \<in> dom m'" using e IH by auto
  let ?A = "dom m' - dom (m(FieldStr e \<mapsto> e))"
  have eq: "dom m' - dom m = insert (FieldStr e) ?A" using new by auto
  have "FieldStr e \<notin> ?A" by simp
  moreover have fin: "finite ?A" and "card ?A = n" using IH by blast+
  ultimately have "card (insert (FieldStr e) ?A) = Suc n" by (metis card_insert_disjoint)
  moreover have "dom m \<subseteq> dom m'" using IH by auto
  moreover have "\<forall>k e. m' k = Some e \<longrightarrow> FieldStr e = k" using IH by blast
  ultimately show ?case unfolding eq using fin by (simp only: finite_insert simp_thms)
qed

lemma SectionExports_read_write:
  assumes m: "exports_ok m" and es: "export_enumeration m es"
  shows "SectionExports_ReadPayload (SectionExports_WritePayload es @ r) = Inr (m, r)"
proof -
  obtain ks where ks: "distinct ks" "set ks = dom m" "es = map (\<lambda>k. the (m k)) ks"
    using es by (auto simp: export_enumeration_def)
  have key: "FieldStr (the (m k)) = k \<and> ExportEntry_ok (the (m k))" if "k \<in> set ks" for k
    using that m ks(2) by (auto simp: exports_ok_def)
  have names: "map FieldStr es = ks"
    using key by (simp add: ks(3) comp_def map_idI)
  have len: "fits32 (length es)"
    using m ks by (simp add: exports_ok_def distinct_card [symmetric])
  have "readExports (length es) Map.empty (write_n ExportEntry_MarshalWASM es @ r) =
      Inr (Map.empty ++ map_of (rev (map (\<lambda>e. (FieldStr e, e)) es)), r)"
    using names ks key by (intro readExports_write) auto
  moreover have "map_of (rev (map (\<lambda>e. (FieldStr e, e)) es)) = m"
  proof
    fix k
    have d: "distinct (map fst (rev (map (\<lambda>e. (FieldStr e, e)) es)))"
      using names ks(1) by (simp add: comp_def flip: rev_map)
    show "map_of (rev (map (\<lambda>e. (FieldStr e, e)) es)) k = m k"
    proof (cases "m k")
      case None
      then have "k \<notin> set (map FieldStr es)" using ks(2) names by auto
      then show ?thesis using None by (simp add: map_of_eq_None_iff image_image)
    next
      case (Some e)
      then have "k \<in> set ks" using ks(2) by auto
      then have "(k, e) \<in> set (rev (map (\<lambda>e. (FieldStr e, e)) es))"
        using Some key [of k] ks(3) by (auto simp: image_iff intro!: bexI [of _ k])
      then show ?thesis using Some map_of_is_SomeI [OF d] by simp
    qed
  qed
  ultimately show ?thesis
    by (simp add: SectionExports_ReadPayload_def SectionExports_WritePayload_def write_vec_def len)
qed

section \<open>The payloads as codecs\<close>

interpretation Types_payload: codec SectionTypes_ReadPayload SectionTypes_WritePayload
  "vec_ok FunctionSig_ok"
  by unfold_locales
    (simp add: SectionTypes_ReadPayload_def SectionTypes_WritePayload_def FunctionSigs.read_vec_write_vec)

interpretation Import_payload: codec SectionImports_ReadPayload SectionImports_WritePayload
  "vec_ok ImportEntry_ok"
  by unfold_locales
    (simp add: SectionImports_ReadPayload_def SectionImports_WritePayload_def ImportEntries.read_vec_write_vec)

interpretation Function_payload: codec SectionFunctions_ReadPayload SectionFunctions_WritePayload
  "vec_ok (\<lambda>_. True)"
  by unfold_locales
    (simp add: SectionFunctions_ReadPayload_def SectionFunctions_WritePayload_def VarUint32s.read_vec_write_vec)

interpretation Table_payload: codec SectionTables_ReadPayload SectionTables_WritePayload
  "vec_ok Table_ok"
  by unfold_locales
    (simp add: SectionTables_ReadPayload_def SectionTables_WritePayload_def Tables.read_vec_write_vec)

interpretation Memory_payload: codec SectionMemories_ReadPayload SectionMemories_WritePayload
  "vec_ok Memory_ok"
  by unfold_locales
    (simp add: SectionMemories_ReadPayload_def SectionMemories_WritePayload_def Memories.read_vec_write_vec)

interpretation Global_payload: codec SectionGlobals_ReadPayload SectionGlobals_WritePayload
  "vec_ok (\<lambda>g. InitExpr_ok (Init g))"
  by unfold_locales
    (simp add: SectionGlobals_ReadPayload_def SectionGlobals_WritePayload_def GlobalEntries.read_vec_write_vec)

interpretation Start_payload: codec SectionStartFunction_ReadPayload SectionStartFunction_WritePayload
  "\<lambda>_. True"
  by unfold_locales
    (simp add: SectionStartFunction_ReadPayload_def SectionStartFunction_WritePayload_def
      VarUint32.read_write)

interpretation Elements_payload: codec SectionElements_ReadPayload SectionElements_WritePayload
  "vec_ok ElementSegment_ok"
  by unfold_locales
    (simp add: SectionElements_ReadPayload_def SectionElements_WritePayload_def ElementSegments.read_vec_write_vec)

interpretation Code_payload: codec SectionCode_ReadPayload SectionCode_WritePayload
  "vec_ok FunctionBody_ok"
  by unfold_locales
    (simp add: SectionCode_ReadPayload_def SectionCode_WritePayload_def FunctionBodies.read_vec_write_vec)

interpretation Data_payload: codec SectionData_ReadPayload SectionData_WritePayload
  "vec_ok DataSegment_ok"
  by unfold_locales
    (simp add: SectionData_ReadPayload_def SectionData_WritePayload_def DataSegments.read_vec_write_vec)

end
