(* ===== verification/WasmModule.thy ===== *)
theory WasmModule
  imports Payloads
begin

text \<open>
  \<^verbatim>\<open>wagon/wasm/module.go\<close>, \<^verbatim>\<open>encode.go\<close>, \<^verbatim>\<open>internal/readpos\<close> and
  \<^verbatim>\<open>(*Module).readSection\<close> of \<^verbatim>\<open>section.go\<close>: the module record, the decoder that
  reads a binary section by section, and the encoder.  A decoded module holds the
  same contents as the encoded one (\<open>contents\<close> forgets the positions and raw
  bytes a section was read from).
\<close>

section \<open>Positions\<close>

record ReadPos =
  R :: "byte list"
  CurPos :: int

text \<open>Every read of the decoder goes through \<^verbatim>\<open>(*ReadPos).Read\<close>, which counts its bytes.\<close>

definition ReadPos_Read :: "ReadPos \<Rightarrow> nat \<Rightarrow> byte list \<times> ReadPos" where
  "ReadPos_Read p n =
     (take n (R p), \<lparr>R = drop n (R p), CurPos = CurPos p + int (length (take n (R p)))\<rparr>)"

text \<open>\<^verbatim>\<open>ReadByte\<close> reads one byte and leaves the count as it was.\<close>

definition ReadPos_ReadByte :: "ReadPos \<Rightarrow> io_error + (byte \<times> ReadPos)" where
  "ReadPos_ReadByte p =
     (case R p of [] \<Rightarrow> Inl EOF | b # r \<Rightarrow> Inr (b, p\<lparr>R := r\<rparr>))"

definition advance :: "ReadPos \<Rightarrow> byte list \<Rightarrow> ReadPos" where
  "advance p rest = snd (ReadPos_Read p (length (R p) - length rest))"

section \<open>Modules\<close>

record Function =
  Sig :: "FunctionSig option"
  Body :: "FunctionBody option"
  Host :: "nat option"

definition IsHost :: "Function \<Rightarrow> bool" where
  "IsHost fct \<longleftrightarrow> Host fct \<noteq> None"

record imports_counts =
  ifuncs :: "u32 list"
  iglobals :: nat
  itables :: nat
  imemories :: nat

record Module =
  m_Version :: u32
  m_Types :: "SectionTypes option"
  m_Import :: "SectionImports option"
  m_Function :: "SectionFunctions option"
  m_Table :: "SectionTables option"
  m_Memory :: "SectionMemories option"
  m_Global :: "SectionGlobals option"
  m_Export :: "SectionExports option"
  m_Start :: "SectionStartFunction option"
  m_Elements :: "SectionElements option"
  m_Code :: "SectionCode option"
  m_Data :: "SectionData option"
  FunctionIndexSpace :: "Function list"
  GlobalIndexSpace :: "GlobalEntry list"
  TableIndexSpace :: "u32 list list"
  LinearMemoryIndexSpace :: "byte list list"
  m_Other :: "RawSection list"
  m_imports :: imports_counts

definition Module_zero :: Module where
  "Module_zero =
     \<lparr>m_Version = 0, m_Types = None, m_Import = None, m_Function = None, m_Table = None,
      m_Memory = None, m_Global = None, m_Export = None, m_Start = None, m_Elements = None,
      m_Code = None, m_Data = None, FunctionIndexSpace = [], GlobalIndexSpace = [],
      TableIndexSpace = [], LinearMemoryIndexSpace = [], m_Other = [],
      m_imports = \<lparr>ifuncs = [], iglobals = 0, itables = 0, imemories = 0\<rparr>\<rparr>"

definition empty_section :: "'a \<Rightarrow> 'a sect" where
  "empty_section x = \<lparr>Raw = RawSection_zero, Entries = x\<rparr>"

definition NewModule :: Module where
  "NewModule =
     Module_zero\<lparr>m_Types := Some (empty_section []), m_Import := Some (empty_section []),
       m_Table := Some (empty_section []), m_Memory := Some (empty_section []),
       m_Global := Some (empty_section []), m_Export := Some (empty_section Map.empty),
       m_Start := Some (empty_section 0), m_Elements := Some (empty_section []),
       m_Data := Some (empty_section [])\<rparr>"

section \<open>Decoding\<close>

abbreviation Magic :: u32 where "Magic \<equiv> 0x6d736100"
abbreviation currentVersion :: u32 where "currentVersion \<equiv> 0x01"

text \<open>
  The payload is read through a limit of its declared length and copied by a tee:
  the section keeps the bytes its reader consumed, and bytes of the payload it did
  not consume stay in the stream.
\<close>

definition readPayload ::
  "(byte list \<Rightarrow> wasm_error + ('a \<times> byte list)) \<Rightarrow> RawSection \<Rightarrow> ReadPos \<Rightarrow>
   wasm_error + ('a sect \<times> ReadPos)" where
  "readPayload rd s p =
     (let payload = take (unat (PayloadLen s)) (R p)
      in bindE (rd payload) (\<lambda>(x, rest).
           let (bs, p') = ReadPos_Read p (length payload - length rest)
           in Inr (\<lparr>Raw = s\<lparr>End := CurPos p', Bytes := bs\<rparr>, Entries = x\<rparr>, p')))"

definition checkCode :: "Module \<Rightarrow> FunctionBody list \<Rightarrow> wasm_error + unit" where
  "checkCode m bodies =
     (case m_Function m of
        None \<Rightarrow> Inl (MissingSectionError SectionIDFunction)
      | Some f \<Rightarrow>
          if length (Entries f) = 0 then Inl (MissingSectionError SectionIDFunction)
          else if length (Entries f) \<noteq> length bodies then Inl ErrUnequalFunctionCode
          else if m_Types m = None then Inl (MissingSectionError SectionIDType)
          else Inr ())"

definition readSectionBody :: "Module \<Rightarrow> RawSection \<Rightarrow> ReadPos \<Rightarrow> wasm_error + (Module \<times> ReadPos)" where
  "readSectionBody m s p =
     (if ID s = SectionIDCustom then
        bindE (readPayload (RawSection_ReadPayload s) s p) (\<lambda>(sec, p).
          Inr (m\<lparr>m_Other := m_Other m @ [Raw sec]\<rparr>, p))
      else if ID s = SectionIDType then
        bindE (readPayload SectionTypes_ReadPayload s p) (\<lambda>(sec, p). Inr (m\<lparr>m_Types := Some sec\<rparr>, p))
      else if ID s = SectionIDImport then
        bindE (readPayload SectionImports_ReadPayload s p) (\<lambda>(sec, p). Inr (m\<lparr>m_Import := Some sec\<rparr>, p))
      else if ID s = SectionIDFunction then
        bindE (readPayload SectionFunctions_ReadPayload s p) (\<lambda>(sec, p).
          Inr (m\<lparr>m_Function := Some sec\<rparr>, p))
      else if ID s = SectionIDTable then
        bindE (readPayload SectionTables_ReadPayload s p) (\<lambda>(sec, p). Inr (m\<lparr>m_Table := Some sec\<rparr>, p))
      else if ID s = SectionIDMemory then
        bindE (readPayload SectionMemories_ReadPayload s p) (\<lambda>(sec, p).
          Inr (m\<lparr>m_Memory := Some sec\<rparr>, p))
      else if ID s = SectionIDGlobal then
        bindE (readPayload SectionGlobals_ReadPayload s p) (\<lambda>(sec, p). Inr (m\<lparr>m_Global := Some sec\<rparr>, p))
      else if ID s = SectionIDExport then
        bindE (readPayload SectionExports_ReadPayload s p) (\<lambda>(sec, p). Inr (m\<lparr>m_Export := Some sec\<rparr>, p))
      else if ID s = SectionIDStart then
        bindE (readPayload SectionStartFunction_ReadPayload s p) (\<lambda>(sec, p).
          Inr (m\<lparr>m_Start := Some sec\<rparr>, p))
      else if ID s = SectionIDElement then
        bindE (readPayload SectionElements_ReadPayload s p) (\<lambda>(sec, p).
          Inr (m\<lparr>m_Elements := Some sec\<rparr>, p))
      else if ID s = SectionIDCode then
        bindE (readPayload SectionCode_ReadPayload s p) (\<lambda>(sec, p).
        bindE (checkCode m (Entries sec)) (\<lambda>_. Inr (m\<lparr>m_Code := Some sec\<rparr>, p)))
      else if ID s = SectionIDData then
        bindE (readPayload SectionData_ReadPayload s p) (\<lambda>(sec, p). Inr (m\<lparr>m_Data := Some sec\<rparr>, p))
      else Inl (InvalidSectionIDError (ID s)))"

text \<open>
  The first component is true when the module has been read to its end.  A failure
  to read the payload length is not reported: the code returns \<^verbatim>\<open>false, nil\<close>.
\<close>

definition readSection :: "Module \<Rightarrow> ReadPos \<Rightarrow> wasm_error + (bool \<times> Module \<times> ReadPos)" where
  "readSection m p =
     (case ReadVarUint32 (R p) of
        Inl e \<Rightarrow> if e = EOF then Inr (True, m, advance p []) else Inl (IOError e)
      | Inr (sid, r) \<Rightarrow>
          (case ReadVarUint32 r of
             Inl e \<Rightarrow> Inr (False, m, advance p [])
           | Inr (len, r') \<Rightarrow>
               (let p' = advance p r';
                    s = RawSection_zero\<lparr>ID := ucast sid, PayloadLen := len, Start := CurPos p'\<rparr>
                in bindE (readSectionBody m s p') (\<lambda>(m', p''). Inr (False, m', p'')))))"

lemma R_ReadPos_Read [simp]: "R (snd (ReadPos_Read p n)) = drop n (R p)"
  by (simp add: ReadPos_Read_def)

lemma advance_suffix:
  "R p = xs @ r \<Longrightarrow> advance p r = \<lparr>R = r, CurPos = CurPos p + int (length xs)\<rparr>"
  by (simp add: advance_def ReadPos_Read_def)

lemma advance_Nil [simp]: "R (advance p []) = []"
  by (simp add: advance_def)

lemma readPayload_rest:
  assumes "readPayload rd s p = Inr (sec, p')"
  shows "length (R p') \<le> length (R p)"
  using assms
  by (auto simp: readPayload_def ReadPos_Read_def Let_def elim!: bindE_InrE)

lemma readSectionBody_rest:
  assumes "readSectionBody m s p = Inr (m', p')"
  shows "length (R p') \<le> length (R p)"
  using assms unfolding readSectionBody_def
  by (auto elim!: bindE_InrE dest: readPayload_rest split: if_splits)

lemma ReadVarUint32_rest: "ReadVarUint32 r = Inr (v, r') \<Longrightarrow> \<exists>xs. xs \<noteq> [] \<and> r = xs @ r'"
  using ReadVarUint32_consumes [of r v r'] by auto

lemma readSection_shrinks:
  assumes "readSection m p = Inr (False, m', p')"
  shows "length (R p') < length (R p)"
proof (cases "ReadVarUint32 (R p)")
  case (Inl e)
  with assms show ?thesis by (auto simp: readSection_def split: if_splits)
next
  case (Inr x)
  obtain sid r where x: "x = (sid, r)" by (cases x)
  obtain xs where xs: "xs \<noteq> []" "R p = xs @ r"
    using ReadVarUint32_rest Inr x by blast
  show ?thesis
  proof (cases "ReadVarUint32 r")
    case (Inl e)
    with assms Inr x xs show ?thesis by (auto simp: readSection_def)
  next
    case inr: (Inr y)
    obtain len r' where y: "y = (len, r')" by (cases y)
    obtain ys where "r = ys @ r'" using ReadVarUint32_rest inr y by blast
    then have "length (R (advance p r')) < length (R p)"
      using xs by (simp add: advance_def)
    moreover have "length (R p') \<le> length (R (advance p r'))"
      using assms Inr x inr y
      by (auto simp: readSection_def Let_def elim!: bindE_InrE dest: readSectionBody_rest)
    ultimately show ?thesis by simp
  qed
qed

function readSections :: "Module \<Rightarrow> ReadPos \<Rightarrow> wasm_error + Module" where
  "readSections m p =
     (case readSection m p of
        Inl e \<Rightarrow> Inl e
      | Inr (done, m', p') \<Rightarrow> if done then Inr m' else readSections m' p')"
  by pat_completeness auto
termination
  by (relation "measure (\<lambda>(m, p). length (R p))") (auto dest: readSection_shrinks)

declare readSections.simps [simp del]

definition DecodeModule :: "byte list \<Rightarrow> wasm_error + Module" where
  "DecodeModule r =
     bindE (readU32 r) (\<lambda>(magic, r').
     if magic \<noteq> Magic then Inl ErrInvalidMagic
     else bindE (readU32 r') (\<lambda>(version, r'').
     readSections (Module_zero\<lparr>m_Version := version\<rparr>) (advance \<lparr>R = r, CurPos = 0\<rparr> r'')))"

section \<open>Encoding\<close>

definition opt_section :: "SectionID \<Rightarrow> ('a \<Rightarrow> byte list) \<Rightarrow> 'a sect option \<Rightarrow> (SectionID \<times> byte list) list" where
  "opt_section i wr s = (case s of None \<Rightarrow> [] | Some sec \<Rightarrow> [(i, wr (Entries sec))])"

text \<open>
  The sections in the order of the binary format, each with its identifier and
  payload.  \<open>order\<close> is the enumeration of the export map the writer sorts out of
  Go's map iteration.
\<close>

definition encode_sections ::
  "(export_map \<Rightarrow> ExportEntry list) \<Rightarrow> Module \<Rightarrow> (SectionID \<times> byte list) list" where
  "encode_sections order m =
     opt_section SectionIDType SectionTypes_WritePayload (m_Types m) @
     opt_section SectionIDImport SectionImports_WritePayload (m_Import m) @
     opt_section SectionIDFunction SectionFunctions_WritePayload (m_Function m) @
     opt_section SectionIDTable SectionTables_WritePayload (m_Table m) @
     opt_section SectionIDMemory SectionMemories_WritePayload (m_Memory m) @
     opt_section SectionIDGlobal SectionGlobals_WritePayload (m_Global m) @
     opt_section SectionIDExport (\<lambda>e. SectionExports_WritePayload (order e)) (m_Export m) @
     opt_section SectionIDStart SectionStartFunction_WritePayload (m_Start m) @
     opt_section SectionIDElement SectionElements_WritePayload (m_Elements m) @
     opt_section SectionIDCode SectionCode_WritePayload (m_Code m) @
     opt_section SectionIDData SectionData_WritePayload (m_Data m) @
     map (\<lambda>s. (ID s, RawSection_WritePayload s)) (m_Other m)"

definition encode_section :: "SectionID \<times> byte list \<Rightarrow> byte list" where
  "encode_section s =
     WriteVarUint32 [] (ucast (fst s)) @ WriteVarUint32 [] (of_nat (length (snd s))) @ snd s"

definition EncodeModule :: "(export_map \<Rightarrow> ExportEntry list) \<Rightarrow> Module \<Rightarrow> byte list" where
  "EncodeModule order m =
     writeU32 Magic @ writeU32 currentVersion @
     concat (map encode_section (encode_sections order m))"

section \<open>Decoding what was encoded\<close>

text \<open>What a module's sections say, without the bytes and positions they came from.\<close>

definition contents where
  "contents m =
     (map_option Entries (m_Types m), map_option Entries (m_Import m),
      map_option Entries (m_Function m), map_option Entries (m_Table m),
      map_option Entries (m_Memory m), map_option Entries (m_Global m),
      map_option Entries (m_Export m), map_option Entries (m_Start m),
      map_option Entries (m_Elements m), map_option Entries (m_Code m),
      map_option Entries (m_Data m), map Bytes (m_Other m))"

definition opt_ok :: "('a \<Rightarrow> bool) \<Rightarrow> 'a sect option \<Rightarrow> bool" where
  "opt_ok ok s = (case s of None \<Rightarrow> True | Some sec \<Rightarrow> ok (Entries sec))"

definition Code_ok :: "Module \<Rightarrow> bool" where
  "Code_ok m = (case m_Code m of None \<Rightarrow> True | Some sec \<Rightarrow> checkCode m (Entries sec) = Inr ())"

definition Module_ok :: "(export_map \<Rightarrow> ExportEntry list) \<Rightarrow> Module \<Rightarrow> bool" where
  "Module_ok order m \<longleftrightarrow>
     opt_ok (vec_ok FunctionSig_ok) (m_Types m) \<and> opt_ok (vec_ok ImportEntry_ok) (m_Import m) \<and>
     opt_ok (vec_ok (\<lambda>_. True)) (m_Function m) \<and> opt_ok (vec_ok Table_ok) (m_Table m) \<and>
     opt_ok (vec_ok Memory_ok) (m_Memory m) \<and>
     opt_ok (vec_ok (\<lambda>g. InitExpr_ok (Init g))) (m_Global m) \<and>
     opt_ok (\<lambda>e. exports_ok e \<and> export_enumeration e (order e)) (m_Export m) \<and>
     opt_ok (vec_ok ElementSegment_ok) (m_Elements m) \<and>
     opt_ok (vec_ok FunctionBody_ok) (m_Code m) \<and> Code_ok m \<and>
     opt_ok (vec_ok DataSegment_ok) (m_Data m) \<and>
     list_all (\<lambda>s. ID s = SectionIDCustom) (m_Other m) \<and>
     list_all (\<lambda>(i, b). fits32 (length b)) (encode_sections order m)"

lemma readSection_encode:
  assumes "R p = encode_section (i, b) @ r" "fits32 (length b)"
  obtains s p' where "readSection m p =
      bindE (readSectionBody m s p') (\<lambda>(m', p''). Inr (False, m', p''))"
    and "ID s = i" and "unat (PayloadLen s) = length b" and "R p' = b @ r"
proof -
  have "ucast (ucast i :: u32) = i" by (rule bit_word_eqI) (auto simp: bit_simps)
  moreover have "R (advance p (b @ r)) = b @ r"
    using assms by (subst advance_suffix) (simp_all add: encode_section_def)
  ultimately show thesis
    using assms
    by (intro that [where p' = "advance p (b @ r)" and s = "RawSection_zero\<lparr>ID := i,
        PayloadLen := of_nat (length b), Start := CurPos (advance p (b @ r))\<rparr>"])
      (simp_all add: readSection_def encode_section_def Let_def RawSection_zero_def)
qed

lemma readPayload_write:
  assumes "rd b = Inr (x, [])" "unat (PayloadLen s) = length b" "R p = b @ r"
  obtains sec p' where "readPayload rd s p = Inr (sec, p')"
    and "Entries sec = x" and "Bytes (Raw sec) = b" and "R p' = r"
  using assms
  by (intro that [where p' = "\<lparr>R = r, CurPos = CurPos p + int (length b)\<rparr>"
        and sec = "\<lparr>Raw = s\<lparr>End := CurPos p + int (length b), Bytes := b\<rparr>, Entries = x\<rparr>"])
    (simp_all add: readPayload_def ReadPos_Read_def Let_def)

lemma readSections_step:
  "readSection m p = Inr (False, m', p') \<Longrightarrow> readSections m p = readSections m' p'"
  by (subst readSections.simps) simp

lemma opt_section_step:
  assumes p: "R p = concat (map encode_section (opt_section i wr s)) @ r"
    and len: "list_all (\<lambda>(i, b). fits32 (length b)) (opt_section i wr s)"
    and rd: "\<And>sec. s = Some sec \<Longrightarrow> rd (wr (Entries sec)) = Inr (Entries sec, [])"
    and none: "upd None m = m"
    and body: "\<And>raw p sec' p' sec. ID raw = i \<Longrightarrow> s = Some sec \<Longrightarrow>
      readPayload rd raw p = Inr (sec', p') \<Longrightarrow> Entries sec' = Entries sec \<Longrightarrow>
      readSectionBody m raw p = Inr (upd (Some sec') m, p')"
  obtains s' p' where "readSections m p = readSections (upd s' m) p'"
    and "map_option Entries s' = map_option Entries s" and "R p' = r"
proof (cases s)
  case None
  with that [of None p] p none show thesis by (simp add: opt_section_def)
next
  case (Some sec)
  then obtain raw q where q: "readSection m p =
      bindE (readSectionBody m raw q) (\<lambda>(m', p''). Inr (False, m', p''))"
    "ID raw = i" "unat (PayloadLen raw) = length (wr (Entries sec))" "R q = wr (Entries sec) @ r"
    using readSection_encode [of p i "wr (Entries sec)" r m] p len by (auto simp: opt_section_def)
  obtain sec' p' where s': "readPayload rd raw q = Inr (sec', p')" "Entries sec' = Entries sec" "R p' = r"
    using readPayload_write [of rd, OF rd [OF Some] q(3,4)] by blast
  have "readSection m p = Inr (False, upd (Some sec') m, p')"
    unfolding q(1) body [OF q(2) Some s'(1,2)] by simp
  with that [of "Some sec'" p'] s' Some show thesis by (simp add: readSections_step)
qed

lemma custom_sections_step:
  assumes "R p = concat (map encode_section (map (\<lambda>s. (ID s, RawSection_WritePayload s)) os))"
    and "list_all (\<lambda>s. ID s = SectionIDCustom) os" "list_all (\<lambda>s. fits32 (length (Bytes s))) os"
  shows "\<exists>os'. readSections m p = Inr (m\<lparr>m_Other := m_Other m @ os'\<rparr>) \<and> map Bytes os' = map Bytes os"
  using assms
proof (induction os arbitrary: m p)
  case Nil
  then have "readSection m p = Inr (True, m, advance p [])"
    by (simp add: readSection_def ReadVarUint32_def ReadVarUint32Size_def)
  then show ?case by (subst readSections.simps) (auto intro!: exI [of _ "[]"])
next
  case (Cons s os)
  let ?rest = "concat (map encode_section (map (\<lambda>s. (ID s, RawSection_WritePayload s)) os))"
  obtain raw q where q: "readSection m p =
      bindE (readSectionBody m raw q) (\<lambda>(m', p''). Inr (False, m', p''))"
    "ID raw = SectionIDCustom" "unat (PayloadLen raw) = length (Bytes s)" "R q = Bytes s @ ?rest"
    using readSection_encode [of p SectionIDCustom "Bytes s" ?rest m] Cons.prems
    by (auto simp: RawSection_WritePayload_def)
  have "RawSection_ReadPayload raw (Bytes s) = Inr (Bytes s, [])"
    by (simp add: RawSection_ReadPayload_def q(3) ReadFull_def)
  then obtain sec' p' where s': "readPayload (RawSection_ReadPayload raw) raw q = Inr (sec', p')"
    "Bytes (Raw sec') = Bytes s" "R p' = ?rest"
    using readPayload_write [of "RawSection_ReadPayload raw", OF _ q(3,4)] by blast
  then have "readSection m p = Inr (False, m\<lparr>m_Other := m_Other m @ [Raw sec']\<rparr>, p')"
    by (simp add: q readSectionBody_def)
  then have step: "readSections m p = readSections (m\<lparr>m_Other := m_Other m @ [Raw sec']\<rparr>) p'"
    by (rule readSections_step)
  obtain os' where "readSections (m\<lparr>m_Other := m_Other m @ [Raw sec']\<rparr>) p' =
      Inr (m\<lparr>m_Other := m_Other m @ [Raw sec'] @ os'\<rparr>)" "map Bytes os' = map Bytes os"
    using Cons.IH [OF s'(3), of "m\<lparr>m_Other := m_Other m @ [Raw sec']\<rparr>"] Cons.prems by auto
  with step s'(2) show ?case by (intro exI [of _ "Raw sec' # os'"]) simp
qed

lemma decode_types_to_table:
  assumes p: "R p = concat (map encode_section (
      opt_section SectionIDType SectionTypes_WritePayload (m_Types m) @
      opt_section SectionIDImport SectionImports_WritePayload (m_Import m) @
      opt_section SectionIDFunction SectionFunctions_WritePayload (m_Function m) @
      opt_section SectionIDTable SectionTables_WritePayload (m_Table m))) @ r"
    and len: "list_all (\<lambda>(i, b). fits32 (length b)) (
      opt_section SectionIDType SectionTypes_WritePayload (m_Types m) @
      opt_section SectionIDImport SectionImports_WritePayload (m_Import m) @
      opt_section SectionIDFunction SectionFunctions_WritePayload (m_Function m) @
      opt_section SectionIDTable SectionTables_WritePayload (m_Table m))"
    and ok: "Module_ok order m"
  obtains ty im fu ta p' where
    "readSections (Module_zero\<lparr>m_Version := v\<rparr>) p = readSections (Module_zero\<lparr>m_Version := v,
        m_Types := ty,
        m_Import := im,
        m_Function := fu,
        m_Table := ta\<rparr>) p'"
    and "map_option Entries ty = map_option Entries (m_Types m)"
    and "map_option Entries im = map_option Entries (m_Import m)"
    and "map_option Entries fu = map_option Entries (m_Function m)"
    and "map_option Entries ta = map_option Entries (m_Table m)"
    and "R p' = r"
proof -
  let ?secs = "\<lambda>xs. concat (map encode_section xs)"
  let ?s0 = "opt_section SectionIDType SectionTypes_WritePayload (m_Types m)"
  let ?s1 = "opt_section SectionIDImport SectionImports_WritePayload (m_Import m)"
  let ?s2 = "opt_section SectionIDFunction SectionFunctions_WritePayload (m_Function m)"
  let ?s3 = "opt_section SectionIDTable SectionTables_WritePayload (m_Table m)"
  have rd0: "SectionTypes_ReadPayload (SectionTypes_WritePayload (Entries sec)) = Inr (Entries sec, [])"
    if "m_Types m = Some sec" for sec
    using ok that by (intro Types_payload.read_all) (simp add: Module_ok_def opt_ok_def)
  have p0: "R p = ?secs ?s0 @ ?secs ?s1 @ ?secs ?s2 @ ?secs ?s3 @ r" using p by simp
  obtain ty p1 where ty: "readSections (Module_zero\<lparr>m_Version := v\<rparr>) p =
        readSections (Module_zero\<lparr>m_Version := v, m_Types := ty\<rparr>) p1"
      "map_option Entries ty = map_option Entries (m_Types m)" and p1: "R p1 = ?secs ?s1 @ ?secs ?s2 @ ?secs ?s3 @ r"
    by (rule opt_section_step [OF p0 _ rd0, where upd = "\<lambda>s m. m\<lparr>m_Types := s\<rparr>"
        and m = "Module_zero\<lparr>m_Version := v\<rparr>"])
      (use len in simp, assumption, simp add: Module_zero_def, simp add: readSectionBody_def,
       rule that, assumption+)
  have rd1: "SectionImports_ReadPayload (SectionImports_WritePayload (Entries sec)) = Inr (Entries sec, [])"
    if "m_Import m = Some sec" for sec
    using ok that by (intro Import_payload.read_all) (simp add: Module_ok_def opt_ok_def)
  obtain im p2 where im: "readSections (Module_zero\<lparr>m_Version := v, m_Types := ty\<rparr>) p1 =
        readSections (Module_zero\<lparr>m_Version := v, m_Types := ty, m_Import := im\<rparr>) p2"
      "map_option Entries im = map_option Entries (m_Import m)" and p2: "R p2 = ?secs ?s2 @ ?secs ?s3 @ r"
    by (rule opt_section_step [OF p1 _ rd1, where upd = "\<lambda>s m. m\<lparr>m_Import := s\<rparr>"
        and m = "Module_zero\<lparr>m_Version := v, m_Types := ty\<rparr>"])
      (use len in simp, assumption, simp add: Module_zero_def, simp add: readSectionBody_def,
       rule that, assumption+)
  have rd2: "SectionFunctions_ReadPayload (SectionFunctions_WritePayload (Entries sec)) = Inr (Entries sec, [])"
    if "m_Function m = Some sec" for sec
    using ok that by (intro Function_payload.read_all) (simp add: Module_ok_def opt_ok_def)
  obtain fu p3 where fu: "readSections (Module_zero\<lparr>m_Version := v, m_Types := ty, m_Import := im\<rparr>) p2 =
        readSections (Module_zero\<lparr>m_Version := v, m_Types := ty, m_Import := im, m_Function := fu\<rparr>) p3"
      "map_option Entries fu = map_option Entries (m_Function m)" and p3: "R p3 = ?secs ?s3 @ r"
    by (rule opt_section_step [OF p2 _ rd2, where upd = "\<lambda>s m. m\<lparr>m_Function := s\<rparr>"
        and m = "Module_zero\<lparr>m_Version := v, m_Types := ty, m_Import := im\<rparr>"])
      (use len in simp, assumption, simp add: Module_zero_def, simp add: readSectionBody_def,
       rule that, assumption+)
  have rd3: "SectionTables_ReadPayload (SectionTables_WritePayload (Entries sec)) = Inr (Entries sec, [])"
    if "m_Table m = Some sec" for sec
    using ok that by (intro Table_payload.read_all) (simp add: Module_ok_def opt_ok_def)
  obtain ta p4 where ta: "readSections (Module_zero\<lparr>m_Version := v, m_Types := ty, m_Import := im, m_Function := fu\<rparr>) p3 =
        readSections (Module_zero\<lparr>m_Version := v, m_Types := ty, m_Import := im, m_Function := fu, m_Table := ta\<rparr>) p4"
      "map_option Entries ta = map_option Entries (m_Table m)" and p4: "R p4 = r"
    by (rule opt_section_step [OF p3 _ rd3, where upd = "\<lambda>s m. m\<lparr>m_Table := s\<rparr>"
        and m = "Module_zero\<lparr>m_Version := v, m_Types := ty, m_Import := im, m_Function := fu\<rparr>"])
      (use len in simp, assumption, simp add: Module_zero_def, simp add: readSectionBody_def,
       rule that, assumption+)
  show thesis by (rule that [OF _ ty(2) im(2) fu(2) ta(2) p4]) (simp only: ty(1) im(1) fu(1) ta(1))
qed

lemma decode_memory_to_start:
  assumes p: "R p = concat (map encode_section (
      opt_section SectionIDMemory SectionMemories_WritePayload (m_Memory m) @
      opt_section SectionIDGlobal SectionGlobals_WritePayload (m_Global m) @
      opt_section SectionIDExport (\<lambda>e. SectionExports_WritePayload (order e)) (m_Export m) @
      opt_section SectionIDStart SectionStartFunction_WritePayload (m_Start m))) @ r"
    and len: "list_all (\<lambda>(i, b). fits32 (length b)) (
      opt_section SectionIDMemory SectionMemories_WritePayload (m_Memory m) @
      opt_section SectionIDGlobal SectionGlobals_WritePayload (m_Global m) @
      opt_section SectionIDExport (\<lambda>e. SectionExports_WritePayload (order e)) (m_Export m) @
      opt_section SectionIDStart SectionStartFunction_WritePayload (m_Start m))"
    and ok: "Module_ok order m"
  obtains me gl ex st p' where
    "readSections (Module_zero\<lparr>m_Version := v, m_Types := ty, m_Import := im, m_Function := fu, m_Table := ta\<rparr>) p = readSections (Module_zero\<lparr>m_Version := v, m_Types := ty, m_Import := im, m_Function := fu, m_Table := ta,
        m_Memory := me,
        m_Global := gl,
        m_Export := ex,
        m_Start := st\<rparr>) p'"
    and "map_option Entries me = map_option Entries (m_Memory m)"
    and "map_option Entries gl = map_option Entries (m_Global m)"
    and "map_option Entries ex = map_option Entries (m_Export m)"
    and "map_option Entries st = map_option Entries (m_Start m)"
    and "R p' = r"
proof -
  let ?secs = "\<lambda>xs. concat (map encode_section xs)"
  let ?s4 = "opt_section SectionIDMemory SectionMemories_WritePayload (m_Memory m)"
  let ?s5 = "opt_section SectionIDGlobal SectionGlobals_WritePayload (m_Global m)"
  let ?s6 = "opt_section SectionIDExport (\<lambda>e. SectionExports_WritePayload (order e)) (m_Export m)"
  let ?s7 = "opt_section SectionIDStart SectionStartFunction_WritePayload (m_Start m)"
  have rd4: "SectionMemories_ReadPayload (SectionMemories_WritePayload (Entries sec)) = Inr (Entries sec, [])"
    if "m_Memory m = Some sec" for sec
    using ok that by (intro Memory_payload.read_all) (simp add: Module_ok_def opt_ok_def)
  have p4: "R p = ?secs ?s4 @ ?secs ?s5 @ ?secs ?s6 @ ?secs ?s7 @ r" using p by simp
  obtain me p5 where me: "readSections (Module_zero\<lparr>m_Version := v, m_Types := ty, m_Import := im, m_Function := fu, m_Table := ta\<rparr>) p =
        readSections (Module_zero\<lparr>m_Version := v, m_Types := ty, m_Import := im, m_Function := fu, m_Table := ta, m_Memory := me\<rparr>) p5"
      "map_option Entries me = map_option Entries (m_Memory m)" and p5: "R p5 = ?secs ?s5 @ ?secs ?s6 @ ?secs ?s7 @ r"
    by (rule opt_section_step [OF p4 _ rd4, where upd = "\<lambda>s m. m\<lparr>m_Memory := s\<rparr>"
        and m = "Module_zero\<lparr>m_Version := v, m_Types := ty, m_Import := im, m_Function := fu, m_Table := ta\<rparr>"])
      (use len in simp, assumption, simp add: Module_zero_def, simp add: readSectionBody_def,
       rule that, assumption+)
  have rd5: "SectionGlobals_ReadPayload (SectionGlobals_WritePayload (Entries sec)) = Inr (Entries sec, [])"
    if "m_Global m = Some sec" for sec
    using ok that by (intro Global_payload.read_all) (simp add: Module_ok_def opt_ok_def)
  obtain gl p6 where gl: "readSections (Module_zero\<lparr>m_Version := v, m_Types := ty, m_Import := im, m_Function := fu, m_Table := ta, m_Memory := me\<rparr>) p5 =
        readSections (Module_zero\<lparr>m_Version := v, m_Types := ty, m_Import := im, m_Function := fu, m_Table := ta, m_Memory := me, m_Global := gl\<rparr>) p6"
      "map_option Entries gl = map_option Entries (m_Global m)" and p6: "R p6 = ?secs ?s6 @ ?secs ?s7 @ r"
    by (rule opt_section_step [OF p5 _ rd5, where upd = "\<lambda>s m. m\<lparr>m_Global := s\<rparr>"
        and m = "Module_zero\<lparr>m_Version := v, m_Types := ty, m_Import := im, m_Function := fu, m_Table := ta, m_Memory := me\<rparr>"])
      (use len in simp, assumption, simp add: Module_zero_def, simp add: readSectionBody_def,
       rule that, assumption+)
  have rd6: "SectionExports_ReadPayload (SectionExports_WritePayload (order (Entries sec))) =
      Inr (Entries sec, [])" if "m_Export m = Some sec" for sec
    using ok that SectionExports_read_write [where r = "[]"] by (simp add: Module_ok_def opt_ok_def)
  obtain ex p7 where ex: "readSections (Module_zero\<lparr>m_Version := v, m_Types := ty, m_Import := im, m_Function := fu, m_Table := ta, m_Memory := me, m_Global := gl\<rparr>) p6 =
        readSections (Module_zero\<lparr>m_Version := v, m_Types := ty, m_Import := im, m_Function := fu, m_Table := ta, m_Memory := me, m_Global := gl, m_Export := ex\<rparr>) p7"
      "map_option Entries ex = map_option Entries (m_Export m)" and p7: "R p7 = ?secs ?s7 @ r"
    by (rule opt_section_step [OF p6 _ rd6, where upd = "\<lambda>s m. m\<lparr>m_Export := s\<rparr>"
        and m = "Module_zero\<lparr>m_Version := v, m_Types := ty, m_Import := im, m_Function := fu, m_Table := ta, m_Memory := me, m_Global := gl\<rparr>"])
      (use len in simp, assumption, simp add: Module_zero_def, simp add: readSectionBody_def,
       rule that, assumption+)
  have rd7: "SectionStartFunction_ReadPayload (SectionStartFunction_WritePayload (Entries sec)) = Inr (Entries sec, [])"
    if "m_Start m = Some sec" for sec
    using ok that by (intro Start_payload.read_all) (simp add: Module_ok_def opt_ok_def)
  obtain st p8 where st: "readSections (Module_zero\<lparr>m_Version := v, m_Types := ty, m_Import := im, m_Function := fu, m_Table := ta, m_Memory := me, m_Global := gl, m_Export := ex\<rparr>) p7 =
        readSections (Module_zero\<lparr>m_Version := v, m_Types := ty, m_Import := im, m_Function := fu, m_Table := ta, m_Memory := me, m_Global := gl, m_Export := ex, m_Start := st\<rparr>) p8"
      "map_option Entries st = map_option Entries (m_Start m)" and p8: "R p8 = r"
    by (rule opt_section_step [OF p7 _ rd7, where upd = "\<lambda>s m. m\<lparr>m_Start := s\<rparr>"
        and m = "Module_zero\<lparr>m_Version := v, m_Types := ty, m_Import := im, m_Function := fu, m_Table := ta, m_Memory := me, m_Global := gl, m_Export := ex\<rparr>"])
      (use len in simp, assumption, simp add: Module_zero_def, simp add: readSectionBody_def,
       rule that, assumption+)
  show thesis by (rule that [OF _ me(2) gl(2) ex(2) st(2) p8]) (simp only: me(1) gl(1) ex(1) st(1))
qed

lemma decode_elements_to_data:
  assumes p: "R p = concat (map encode_section (
      opt_section SectionIDElement SectionElements_WritePayload (m_Elements m) @
      opt_section SectionIDCode SectionCode_WritePayload (m_Code m) @
      opt_section SectionIDData SectionData_WritePayload (m_Data m))) @ r"
    and len: "list_all (\<lambda>(i, b). fits32 (length b)) (
      opt_section SectionIDElement SectionElements_WritePayload (m_Elements m) @
      opt_section SectionIDCode SectionCode_WritePayload (m_Code m) @
      opt_section SectionIDData SectionData_WritePayload (m_Data m))"
    and ok: "Module_ok order m"
    and same: "map_option Entries ty = map_option Entries (m_Types m)"
      "map_option Entries fu = map_option Entries (m_Function m)"
  obtains el co da p' where
    "readSections (Module_zero\<lparr>m_Version := v, m_Types := ty, m_Import := im, m_Function := fu, m_Table := ta, m_Memory := me, m_Global := gl, m_Export := ex, m_Start := st\<rparr>) p = readSections (Module_zero\<lparr>m_Version := v, m_Types := ty, m_Import := im, m_Function := fu, m_Table := ta, m_Memory := me, m_Global := gl, m_Export := ex, m_Start := st,
        m_Elements := el,
        m_Code := co,
        m_Data := da\<rparr>) p'"
    and "map_option Entries el = map_option Entries (m_Elements m)"
    and "map_option Entries co = map_option Entries (m_Code m)"
    and "map_option Entries da = map_option Entries (m_Data m)"
    and "R p' = r"
proof -
  let ?secs = "\<lambda>xs. concat (map encode_section xs)"
  let ?s8 = "opt_section SectionIDElement SectionElements_WritePayload (m_Elements m)"
  let ?s9 = "opt_section SectionIDCode SectionCode_WritePayload (m_Code m)"
  let ?s10 = "opt_section SectionIDData SectionData_WritePayload (m_Data m)"
  have rd8: "SectionElements_ReadPayload (SectionElements_WritePayload (Entries sec)) = Inr (Entries sec, [])"
    if "m_Elements m = Some sec" for sec
    using ok that by (intro Elements_payload.read_all) (simp add: Module_ok_def opt_ok_def)
  have p8: "R p = ?secs ?s8 @ ?secs ?s9 @ ?secs ?s10 @ r" using p by simp
  obtain el p9 where el: "readSections (Module_zero\<lparr>m_Version := v, m_Types := ty, m_Import := im, m_Function := fu, m_Table := ta, m_Memory := me, m_Global := gl, m_Export := ex, m_Start := st\<rparr>) p =
        readSections (Module_zero\<lparr>m_Version := v, m_Types := ty, m_Import := im, m_Function := fu, m_Table := ta, m_Memory := me, m_Global := gl, m_Export := ex, m_Start := st, m_Elements := el\<rparr>) p9"
      "map_option Entries el = map_option Entries (m_Elements m)" and p9: "R p9 = ?secs ?s9 @ ?secs ?s10 @ r"
    by (rule opt_section_step [OF p8 _ rd8, where upd = "\<lambda>s m. m\<lparr>m_Elements := s\<rparr>"
        and m = "Module_zero\<lparr>m_Version := v, m_Types := ty, m_Import := im, m_Function := fu, m_Table := ta, m_Memory := me, m_Global := gl, m_Export := ex, m_Start := st\<rparr>"])
      (use len in simp, assumption, simp add: Module_zero_def, simp add: readSectionBody_def,
       rule that, assumption+)
  have rd9: "SectionCode_ReadPayload (SectionCode_WritePayload (Entries sec)) = Inr (Entries sec, [])"
    if "m_Code m = Some sec" for sec
    using ok that by (intro Code_payload.read_all) (simp add: Module_ok_def opt_ok_def)
  obtain co p10 where co: "readSections (Module_zero\<lparr>m_Version := v, m_Types := ty, m_Import := im, m_Function := fu, m_Table := ta, m_Memory := me, m_Global := gl, m_Export := ex, m_Start := st, m_Elements := el\<rparr>) p9 =
        readSections (Module_zero\<lparr>m_Version := v, m_Types := ty, m_Import := im, m_Function := fu, m_Table := ta, m_Memory := me, m_Global := gl, m_Export := ex, m_Start := st, m_Elements := el, m_Code := co\<rparr>) p10"
      "map_option Entries co = map_option Entries (m_Code m)" and p10: "R p10 = ?secs ?s10 @ r"
  proof (rule opt_section_step [OF p9 _ rd9, where upd = "\<lambda>s m. m\<lparr>m_Code := s\<rparr>"
        and m = "Module_zero\<lparr>m_Version := v, m_Types := ty, m_Import := im, m_Function := fu, m_Table := ta, m_Memory := me, m_Global := gl, m_Export := ex, m_Start := st, m_Elements := el\<rparr>"])
    fix raw p sec' p' sec
    assume a: "ID raw = SectionIDCode" "m_Code m = Some sec"
      "readPayload SectionCode_ReadPayload raw p = Inr (sec', p')" "Entries sec' = Entries sec"
    obtain fs ts where "m_Function m = Some fs" "m_Types m = Some ts"
      and f: "Entries fs \<noteq> []" "length (Entries fs) = length (Entries sec)"
      using ok a(2)
      by (auto simp: Module_ok_def Code_ok_def checkCode_def split: option.splits if_splits)
    then obtain fs' ts' where "fu = Some fs'" "Entries fs' = Entries fs" "ty = Some ts'"
      using same by (auto simp: map_option_eq_Some)
    moreover have "Entries sec \<noteq> []" using f by auto
    ultimately show "readSectionBody (Module_zero\<lparr>m_Version := v, m_Types := ty, m_Import := im, m_Function := fu, m_Table := ta, m_Memory := me, m_Global := gl, m_Export := ex, m_Start := st, m_Elements := el\<rparr>) raw p =
        Inr (Module_zero\<lparr>m_Version := v, m_Types := ty, m_Import := im, m_Function := fu, m_Table := ta, m_Memory := me, m_Global := gl, m_Export := ex, m_Start := st, m_Elements := el\<rparr>\<lparr>m_Code := Some sec'\<rparr>, p')"
      using a f by (simp add: readSectionBody_def checkCode_def)
  qed (use len in simp, assumption, simp add: Module_zero_def, rule that, assumption+)
  have rd10: "SectionData_ReadPayload (SectionData_WritePayload (Entries sec)) = Inr (Entries sec, [])"
    if "m_Data m = Some sec" for sec
    using ok that by (intro Data_payload.read_all) (simp add: Module_ok_def opt_ok_def)
  obtain da p11 where da: "readSections (Module_zero\<lparr>m_Version := v, m_Types := ty, m_Import := im, m_Function := fu, m_Table := ta, m_Memory := me, m_Global := gl, m_Export := ex, m_Start := st, m_Elements := el, m_Code := co\<rparr>) p10 =
        readSections (Module_zero\<lparr>m_Version := v, m_Types := ty, m_Import := im, m_Function := fu, m_Table := ta, m_Memory := me, m_Global := gl, m_Export := ex, m_Start := st, m_Elements := el, m_Code := co, m_Data := da\<rparr>) p11"
      "map_option Entries da = map_option Entries (m_Data m)" and p11: "R p11 = r"
    by (rule opt_section_step [OF p10 _ rd10, where upd = "\<lambda>s m. m\<lparr>m_Data := s\<rparr>"
        and m = "Module_zero\<lparr>m_Version := v, m_Types := ty, m_Import := im, m_Function := fu, m_Table := ta, m_Memory := me, m_Global := gl, m_Export := ex, m_Start := st, m_Elements := el, m_Code := co\<rparr>"])
      (use len in simp, assumption, simp add: Module_zero_def, simp add: readSectionBody_def,
       rule that, assumption+)
  show thesis by (rule that [OF _ el(2) co(2) da(2) p11]) (simp only: el(1) co(1) da(1))
qed

text \<open>C1 A module whose parts fit the binary format is decoded, from the bytes the encoder
  writes for it, to a module with the same contents: whatever order the map of exports was
  enumerated in, every section and every entry of it comes back.\<close>

theorem DecodeModule_EncodeModule:
  assumes ok: "Module_ok order m"
  shows "\<exists>m'. DecodeModule (EncodeModule order m) = Inr m' \<and> contents m' = contents m \<and>
    m_Version m' = currentVersion"
proof -
  let ?secs = "\<lambda>xs. concat (map encode_section xs)"
  let ?A = "opt_section SectionIDType SectionTypes_WritePayload (m_Types m) @
    opt_section SectionIDImport SectionImports_WritePayload (m_Import m) @
    opt_section SectionIDFunction SectionFunctions_WritePayload (m_Function m) @
    opt_section SectionIDTable SectionTables_WritePayload (m_Table m)"
  let ?B = "opt_section SectionIDMemory SectionMemories_WritePayload (m_Memory m) @
    opt_section SectionIDGlobal SectionGlobals_WritePayload (m_Global m) @
    opt_section SectionIDExport (\<lambda>e. SectionExports_WritePayload (order e)) (m_Export m) @
    opt_section SectionIDStart SectionStartFunction_WritePayload (m_Start m)"
  let ?C = "opt_section SectionIDElement SectionElements_WritePayload (m_Elements m) @
    opt_section SectionIDCode SectionCode_WritePayload (m_Code m) @
    opt_section SectionIDData SectionData_WritePayload (m_Data m)"
  let ?O = "map (\<lambda>s. (ID s, RawSection_WritePayload s)) (m_Other m)"
  let ?m0 = "Module_zero\<lparr>m_Version := currentVersion\<rparr>"
  let ?p0 = "advance \<lparr>R = EncodeModule order m, CurPos = 0\<rparr> (?secs (encode_sections order m))"
  have split: "encode_sections order m = ?A @ ?B @ ?C @ ?O"
    by (simp add: encode_sections_def)
  have len: "list_all (\<lambda>(i, b). fits32 (length b)) (?A @ ?B @ ?C @ ?O)"
    using ok unfolding split [symmetric] by (simp add: Module_ok_def)
  have custom: "list_all (\<lambda>s. ID s = SectionIDCustom) (m_Other m)"
    "list_all (\<lambda>s. fits32 (length (Bytes s))) (m_Other m)"
    using ok len by (simp_all add: Module_ok_def list.pred_map comp_def RawSection_WritePayload_def)
  have start: "DecodeModule (EncodeModule order m) = readSections ?m0 ?p0"
    by (simp add: DecodeModule_def EncodeModule_def)
  have "R ?p0 = ?secs (encode_sections order m)"
    by (subst advance_suffix [where xs = "writeU32 Magic @ writeU32 currentVersion"])
      (simp_all add: EncodeModule_def)
  then have p0: "R ?p0 = ?secs ?A @ ?secs (?B @ ?C @ ?O)"
    unfolding split by (simp only: map_append concat_append)
  obtain ty im fu ta p1 where a: "readSections ?m0 ?p0 = readSections (Module_zero\<lparr>m_Version := currentVersion, m_Types := ty, m_Import := im, m_Function := fu, m_Table := ta\<rparr>) p1"
      "map_option Entries ty = map_option Entries (m_Types m)"
      "map_option Entries im = map_option Entries (m_Import m)"
      "map_option Entries fu = map_option Entries (m_Function m)"
      "map_option Entries ta = map_option Entries (m_Table m)"
    and p1: "R p1 = ?secs ?B @ ?secs (?C @ ?O)"
    by (rule decode_types_to_table [OF p0 _ ok, where v = currentVersion])
      (use len in \<open>simp only: list_all_append map_append concat_append\<close>)+
  obtain me gl ex st p2 where b: "readSections (Module_zero\<lparr>m_Version := currentVersion, m_Types := ty, m_Import := im, m_Function := fu, m_Table := ta\<rparr>) p1 = readSections (Module_zero\<lparr>m_Version := currentVersion, m_Types := ty, m_Import := im, m_Function := fu, m_Table := ta, m_Memory := me, m_Global := gl, m_Export := ex, m_Start := st\<rparr>) p2"
      "map_option Entries me = map_option Entries (m_Memory m)"
      "map_option Entries gl = map_option Entries (m_Global m)"
      "map_option Entries ex = map_option Entries (m_Export m)"
      "map_option Entries st = map_option Entries (m_Start m)"
    and p2: "R p2 = ?secs ?C @ ?secs ?O"
    by (rule decode_memory_to_start [OF p1 _ ok, where v = currentVersion and ty = ty and im = im and fu = fu and ta = ta])
      (use len in \<open>simp only: list_all_append map_append concat_append\<close>)+
  obtain el co da p3 where c: "readSections (Module_zero\<lparr>m_Version := currentVersion, m_Types := ty, m_Import := im, m_Function := fu, m_Table := ta, m_Memory := me, m_Global := gl, m_Export := ex, m_Start := st\<rparr>) p2 = readSections (Module_zero\<lparr>m_Version := currentVersion, m_Types := ty, m_Import := im, m_Function := fu, m_Table := ta, m_Memory := me, m_Global := gl, m_Export := ex, m_Start := st, m_Elements := el, m_Code := co, m_Data := da\<rparr>) p3"
      "map_option Entries el = map_option Entries (m_Elements m)"
      "map_option Entries co = map_option Entries (m_Code m)"
      "map_option Entries da = map_option Entries (m_Data m)"
    and p3: "R p3 = ?secs ?O"
    by (rule decode_elements_to_data [OF p2 _ ok a(2,4), where v = currentVersion and im = im and ta = ta and me = me and gl = gl and ex = ex and st = st])
      (use len in \<open>simp only: list_all_append map_append concat_append\<close>)+
  let ?m = "Module_zero\<lparr>m_Version := currentVersion, m_Types := ty, m_Import := im, m_Function := fu, m_Table := ta, m_Memory := me, m_Global := gl, m_Export := ex, m_Start := st, m_Elements := el, m_Code := co, m_Data := da\<rparr>"
  obtain os where "readSections ?m p3 = Inr (?m\<lparr>m_Other := m_Other ?m @ os\<rparr>)"
      "map Bytes os = map Bytes (m_Other m)"
    using custom_sections_step [OF p3 custom(1,2), of ?m] by blast
  then have "DecodeModule (EncodeModule order m) = Inr (?m\<lparr>m_Other := m_Other ?m @ os\<rparr>)"
      "contents (?m\<lparr>m_Other := m_Other ?m @ os\<rparr>) = contents m"
    using a(2-) b(2-) c(2-) by (simp_all only: start a(1) b(1) c(1))
      (simp add: contents_def Module_zero_def)
  moreover have "m_Version (?m\<lparr>m_Other := m_Other ?m @ os\<rparr>) = currentVersion" by simp
  ultimately show ?thesis by blast
qed

text \<open>A module with one exported function, a memory and a data segment.\<close>

definition sample_export :: ExportEntry where
  "sample_export = \<lparr>FieldStr = [0x66], Kind = ExternalFunction, Index = 0\<rparr>"

definition sample_module :: Module where
  "sample_module =
     Module_zero\<lparr>
       m_Types := Some (empty_section [\<lparr>Form = 0x60, ParamTypes = [ValueTypeI32], ReturnTypes = [ValueTypeI32]\<rparr>]),
       m_Function := Some (empty_section [0]),
       m_Memory := Some (empty_section [\<lparr>Limits = \<lparr>Flags = 1, Initial = 1, Maximum = 300\<rparr>\<rparr>]),
       m_Export := Some (empty_section [[0x66] \<mapsto> sample_export]),
       m_Code := Some (empty_section [\<lparr>Locals = [\<lparr>Count = 1, LType = ValueTypeI64\<rparr>], Code = [0x20, 0x00]\<rparr>]),
       m_Data := Some (empty_section [\<lparr>DIndex = 0, DOffset = [0x41, 0x08, 0x0b], Data = [1, 2, 3]\<rparr>])\<rparr>"

definition sample_order :: "export_map \<Rightarrow> ExportEntry list" where
  "sample_order m = (case m [0x66] of None \<Rightarrow> [] | Some e \<Rightarrow> [e])"

lemma sample_module_ok: "Module_ok sample_order sample_module"
proof -
  have "InitExpr_ok [0x41, 0x08, 0x0b]" unfolding InitExpr_ok_def by code_simp
  moreover have "exports_ok [[0x66] \<mapsto> sample_export]"
    by (simp add: exports_ok_def fits32_def ExportEntry_ok_def sample_export_def)
  moreover have "export_enumeration [[0x66] \<mapsto> sample_export] [sample_export]"
    unfolding export_enumeration_def by (auto intro!: exI [of _ "[[0x66]]"])
  moreover have "length (ValueType_MarshalWASM ValueTypeI64) < 10" by code_simp
  then have "FunctionBody_ok \<lparr>Locals = [\<lparr>Count = 1, LType = ValueTypeI64\<rparr>], Code = [0x20, 0x00]\<rparr>"
    using length_WriteVarUint32 [of 1]
    by (simp add: FunctionBody_ok_def fits32_def LocalEntry_MarshalWASM_def)
  moreover have "list_all (\<lambda>(i, b). length b < 100) (encode_sections sample_order sample_module)"
    by code_simp
  then have "list_all (\<lambda>(i, b). fits32 (length b)) (encode_sections sample_order sample_module)"
    by (rule list.pred_mono_strong) (auto simp: fits32_def)
  ultimately show ?thesis
    by (simp add: Module_ok_def sample_module_def sample_order_def Module_zero_def empty_section_def
        opt_ok_def vec_ok_def fits32_def FunctionSig_ok_def Memory_ok_def ResizableLimits_ok_def
        Code_ok_def checkCode_def DataSegment_ok_def)
qed

theorem DecodeModule_EncodeModule_witness:
  "\<exists>m'. DecodeModule (EncodeModule sample_order sample_module) = Inr m' \<and>
     contents m' = contents sample_module \<and> m_Version m' = currentVersion"
  by (rule DecodeModule_EncodeModule [OF sample_module_ok])

end
