(* ===== verification/WasmIndex.thy ===== *)
theory WasmIndex
  imports WasmModule
begin

text \<open>
  \<^verbatim>\<open>wagon/wasm/index.go\<close>, \<^verbatim>\<open>resolveImports\<close> of \<^verbatim>\<open>imports.go\<close>,
  \<^verbatim>\<open>ExecInitExpr\<close> of \<^verbatim>\<open>init_expr.go\<close> and \<^verbatim>\<open>ReadModule\<close> of
  \<^verbatim>\<open>module.go\<close>: the index spaces of a module, filled from its sections and its
  imports.  Slices shared with an imported module are copied: a write through the
  alias to the other module is not followed.
\<close>

section \<open>Evaluating initializer expressions\<close>

datatype init_value = InitI32 u32 | InitI64 u64 | InitF32 u32 | InitF64 u64

definition GetFunction :: "Module \<Rightarrow> int \<Rightarrow> Function option" where
  "GetFunction m i =
     (if i \<ge> int (length (FunctionIndexSpace m)) \<or> i < 0 then None
      else Some (FunctionIndexSpace m ! nat i))"

definition GetGlobal :: "Module \<Rightarrow> int \<Rightarrow> GlobalEntry option" where
  "GetGlobal m i =
     (if i \<ge> int (length (GlobalIndexSpace m)) \<or> i < 0 then None
      else Some (GlobalIndexSpace m ! nat i))"

text \<open>
  One operator: the stack, the type of the last value and the rest of the
  expression.  \<^verbatim>\<open>get_global\<close> sets the type and pushes nothing; the \<^verbatim>\<open>break\<close>
  of \<^verbatim>\<open>end\<close> leaves the switch only, so reading goes on.
\<close>

definition execInitExpr_step ::
  "Module \<Rightarrow> byte \<Rightarrow> byte list \<Rightarrow> u64 list \<Rightarrow> ValueType \<Rightarrow>
   wasm_error + (u64 list \<times> ValueType \<times> byte list)" where
  "execInitExpr_step m b r stk lastVal =
     (if b = i32Const then
        bindE (liftIO (ReadVarint32 r)) (\<lambda>(i, r). Inr (stk @ [scast i], ValueTypeI32, r))
      else if b = i64Const then
        bindE (liftIO (ReadVarint64 r)) (\<lambda>(i, r). Inr (stk @ [i], ValueTypeI64, r))
      else if b = f32Const then
        bindE (readU32 r) (\<lambda>(i, r). Inr (stk @ [ucast i], ValueTypeF32, r))
      else if b = f64Const then
        bindE (readU64 r) (\<lambda>(i, r). Inr (stk @ [i], ValueTypeF64, r))
      else if b = getGlobal then
        bindE (liftIO (ReadVarUint32 r)) (\<lambda>(index, r).
          case GetGlobal m (uint index) of
            None \<Rightarrow> Inl (InvalidGlobalIndexError index)
          | Some g \<Rightarrow> Inr (stk, Type (GType g), r))
      else if b = end_op then Inr (stk, lastVal, r)
      else Inl (InvalidInitExprOpError b))"

lemma execInitExpr_step_length:
  "execInitExpr_step m b r stk lv = Inr (stk', lv', r') \<Longrightarrow> length r' \<le> length r"
  by (auto simp: execInitExpr_step_def readU32_def readU64_def ReadFull_Inr_iff
      elim!: bindE_InrE split: if_splits option.splits dest!: ReadVarint32_consumes(2)
        ReadVarint64_consumes(2) ReadVarUint32_consumes(2))

function execInitExpr_loop ::
  "Module \<Rightarrow> byte list \<Rightarrow> u64 list \<Rightarrow> ValueType \<Rightarrow> wasm_error + (u64 list \<times> ValueType)" where
  "execInitExpr_loop m [] stk lv = Inr (stk, lv)"
| "execInitExpr_loop m (b # r) stk lv =
     (case execInitExpr_step m b r stk lv of
        Inl e \<Rightarrow> Inl e
      | Inr (stk', lv', r') \<Rightarrow> execInitExpr_loop m r' stk' lv')"
  by pat_completeness auto
termination
  by (relation "measure (\<lambda>(m, r, stk, lv). length r)") (auto dest: execInitExpr_step_length)

definition ExecInitExpr :: "Module \<Rightarrow> byte list \<Rightarrow> wasm_error + init_value option" where
  "ExecInitExpr m expr =
     (if expr = [] then Inl ErrEmptyInitExpr
      else bindE (execInitExpr_loop m expr [] 0) (\<lambda>(stk, lastVal).
        if stk = [] then Inr None
        else let v = last stk
          in if lastVal = ValueTypeI32 then Inr (Some (InitI32 (ucast v)))
             else if lastVal = ValueTypeI64 then Inr (Some (InitI64 v))
             else if lastVal = ValueTypeF32 then Inr (Some (InitF32 (ucast v)))
             else if lastVal = ValueTypeF64 then Inr (Some (InitF64 v))
             else Inl (InvalidValueTypePanic lastVal)))"

text \<open>The offset of a segment: \<^verbatim>\<open>val.(int32)\<close>.\<close>

definition segment_offset :: "Module \<Rightarrow> byte list \<Rightarrow> wasm_error + int" where
  "segment_offset m expr =
     bindE (ExecInitExpr m expr) (\<lambda>val.
       case val of Some (InitI32 w) \<Rightarrow> Inr (sint w) | _ \<Rightarrow> Inl InvalidValueTypeInitExprError)"

section \<open>Filling the index spaces\<close>

fun populateFunctions_loop ::
  "FunctionSig list \<Rightarrow> SectionCode option \<Rightarrow> u32 list \<Rightarrow> nat \<Rightarrow> Function list \<Rightarrow>
   wasm_error + Function list" where
  "populateFunctions_loop types cd [] codeIndex fns = Inr fns"
| "populateFunctions_loop types cd (typeIndex # ts) codeIndex fns =
     (if unat typeIndex \<ge> length types then Inl (InvalidFunctionIndexError typeIndex)
      else case cd of
        None \<Rightarrow> Inl (WasmPanic NilDereference)
      | Some sec \<Rightarrow>
          if codeIndex \<ge> length (Entries sec) then Inl (WasmPanic IndexOutOfRange)
          else populateFunctions_loop types cd ts (codeIndex + 1)
            (fns @ [\<lparr>Sig = Some (types ! unat typeIndex), Body = Some (Entries sec ! codeIndex),
                     Host = None\<rparr>]))"

definition populateFunctions :: "Module \<Rightarrow> wasm_error + Module" where
  "populateFunctions m =
     (case (m_Types m, m_Function m) of
        (Some types, Some fs) \<Rightarrow>
          bindE (populateFunctions_loop (Entries types) (m_Code m) (Entries fs) 0
                   (FunctionIndexSpace m)) (\<lambda>fns.
            Inr (m\<lparr>FunctionIndexSpace := fns,
                   m_Function := Some (fs\<lparr>Entries := ifuncs (m_imports m) @ Entries fs\<rparr>)\<rparr>))
      | _ \<Rightarrow> Inr m)"

definition populateGlobals :: "Module \<Rightarrow> wasm_error + Module" where
  "populateGlobals m =
     (case m_Global m of
        None \<Rightarrow> Inr m
      | Some g \<Rightarrow> Inr (m\<lparr>GlobalIndexSpace := GlobalIndexSpace m @ Entries g\<rparr>))"

text \<open>
  The body both segment loops share: a segment that ends past the end of the table
  or memory makes a new slice, into which the segment is copied first and the old
  contents after it.
\<close>

definition placeSegment :: "int \<Rightarrow> 'a::zero list \<Rightarrow> 'a list \<Rightarrow> wasm_error + 'a list" where
  "placeSegment off seg tbl =
     (if off + int (length seg) > int (length tbl) then
        if off < 0 then Inl (WasmPanic SliceOutOfRange)
        else Inr (go_copy (go_copy_at (nat off) (replicate (nat off + length seg) 0) seg) tbl)
      else if off < 0 then Inl (WasmPanic SliceOutOfRange)
      else Inr (go_copy_at (nat off) tbl seg))"

fun populateTables_loop :: "Module \<Rightarrow> ElementSegment list \<Rightarrow> wasm_error + Module" where
  "populateTables_loop m [] = Inr m"
| "populateTables_loop m (elem # es) =
     (if unat (EIndex elem) \<ge> length (TableIndexSpace m)
      then Inl (InvalidTableIndexError (EIndex elem))
      else bindE (segment_offset m (EOffset elem)) (\<lambda>off.
        bindE (placeSegment off (Elems elem) (TableIndexSpace m ! unat (EIndex elem))) (\<lambda>tbl.
          populateTables_loop
            (m\<lparr>TableIndexSpace := (TableIndexSpace m)[unat (EIndex elem) := tbl]\<rparr>) es)))"

definition populateTables :: "Module \<Rightarrow> wasm_error + Module" where
  "populateTables m =
     (case (m_Table m, m_Elements m) of
        (Some t, Some e) \<Rightarrow>
          if length (Entries t) = 0 \<or> length (Entries e) = 0 then Inr m
          else populateTables_loop m (Entries e)
      | _ \<Rightarrow> Inr m)"

definition GetTableElement :: "Module \<Rightarrow> int \<Rightarrow> wasm_error + u32" where
  "GetTableElement m index =
     (case TableIndexSpace m of
        [] \<Rightarrow> Inl (WasmPanic IndexOutOfRange)
      | tbl # _ \<Rightarrow>
          if index \<ge> int (length tbl) then Inl (InvalidTableIndexError (of_int index))
          else if index < 0 then Inl (WasmPanic IndexOutOfRange)
          else Inr (tbl ! nat index))"

fun populateLinearMemory_loop :: "Module \<Rightarrow> DataSegment list \<Rightarrow> wasm_error + Module" where
  "populateLinearMemory_loop m [] = Inr m"
| "populateLinearMemory_loop m (entry # es) =
     (if DIndex entry \<noteq> 0 then Inl (InvalidLinearMemoryIndexError (DIndex entry))
      else bindE (segment_offset m (DOffset entry)) (\<lambda>off.
        case LinearMemoryIndexSpace m of
          [] \<Rightarrow> Inl (WasmPanic IndexOutOfRange)
        | memory # rest \<Rightarrow>
            bindE (placeSegment off (Data entry) memory) (\<lambda>memory'.
              populateLinearMemory_loop (m\<lparr>LinearMemoryIndexSpace := memory' # rest\<rparr>) es)))"

definition populateLinearMemory :: "Module \<Rightarrow> wasm_error + Module" where
  "populateLinearMemory m =
     (case m_Data m of
        None \<Rightarrow> Inr m
      | Some d \<Rightarrow> if length (Entries d) = 0 then Inr m else populateLinearMemory_loop m (Entries d))"

definition GetLinearMemoryData :: "Module \<Rightarrow> int \<Rightarrow> wasm_error + byte" where
  "GetLinearMemoryData m index =
     (case LinearMemoryIndexSpace m of
        [] \<Rightarrow> Inl (WasmPanic IndexOutOfRange)
      | memory # _ \<Rightarrow>
          if index \<ge> int (length memory) then Inl (InvalidLinearMemoryIndexError (of_int index))
          else if index < 0 then Inl (WasmPanic IndexOutOfRange)
          else Inr (memory ! nat index))"

section \<open>Resolving imports\<close>

text \<open>
  \<open>resolve\<close> is the caller's \<^verbatim>\<open>ResolveFunc\<close>; \<open>modules\<close> caches what it returned.
  The two loops that compare a signature with the declared one, run when the
  lengths agree, are the two list inequalities.
\<close>

definition importFunction ::
  "Module \<Rightarrow> ImportEntry \<Rightarrow> u32 \<Rightarrow> Module \<Rightarrow> u32 \<Rightarrow> u32 \<Rightarrow> wasm_error + Module" where
  "importFunction im entry index m importIndex funcs =
     (case GetFunction im (uint index) of
        None \<Rightarrow> Inl (InvalidFunctionIndexError index)
      | Some fn \<Rightarrow>
          (case (Sig fn, m_Types m) of
             (Some sig, Some types) \<Rightarrow>
               if unat importIndex \<ge> length (Entries types) then Inl (WasmPanic IndexOutOfRange)
               else if ReturnTypes sig \<noteq> ReturnTypes (Entries types ! unat importIndex) \<or>
                       ParamTypes sig \<noteq> ParamTypes (Entries types ! unat importIndex)
               then Inl (InvalidImportError (ModuleName entry) (FieldName entry) importIndex)
               else (case (m_Code m, Body fn) of
                  (Some cd, Some body) \<Rightarrow>
                    Inr (m\<lparr>FunctionIndexSpace := FunctionIndexSpace m @ [fn],
                           m_Code := Some (cd\<lparr>Entries := Entries cd @ [body]\<rparr>),
                           m_imports := (m_imports m)\<lparr>ifuncs := ifuncs (m_imports m) @ [funcs]\<rparr>\<rparr>)
                | _ \<Rightarrow> Inl (WasmPanic NilDereference))
           | _ \<Rightarrow> Inl (WasmPanic NilDereference)))"

definition importGlobal :: "Module \<Rightarrow> u32 \<Rightarrow> Module \<Rightarrow> wasm_error + Module" where
  "importGlobal im index m =
     (case GetGlobal im (uint index) of
        None \<Rightarrow> Inl (InvalidGlobalIndexError index)
      | Some glb \<Rightarrow>
          if Mutable (GType glb) then Inl ErrImportMutGlobal
          else Inr (m\<lparr>GlobalIndexSpace := GlobalIndexSpace m @ [glb],
                      m_imports := (m_imports m)\<lparr>iglobals := iglobals (m_imports m) + 1\<rparr>\<rparr>))"

definition importTable :: "Module \<Rightarrow> u32 \<Rightarrow> Module \<Rightarrow> wasm_error + Module" where
  "importTable im index m =
     (if unat index \<ge> length (TableIndexSpace im) then Inl (InvalidTableIndexError index)
      else if TableIndexSpace m = [] then Inl (WasmPanic IndexOutOfRange)
      else Inr (m\<lparr>TableIndexSpace := (TableIndexSpace m)[0 := TableIndexSpace im ! 0],
                  m_imports := (m_imports m)\<lparr>itables := itables (m_imports m) + 1\<rparr>\<rparr>))"

definition importMemory :: "Module \<Rightarrow> u32 \<Rightarrow> Module \<Rightarrow> wasm_error + Module" where
  "importMemory im index m =
     (if unat index \<ge> length (LinearMemoryIndexSpace im)
      then Inl (InvalidLinearMemoryIndexError index)
      else if LinearMemoryIndexSpace m = [] then Inl (WasmPanic IndexOutOfRange)
      else Inr (m\<lparr>LinearMemoryIndexSpace :=
                    (LinearMemoryIndexSpace m)[0 := LinearMemoryIndexSpace im ! 0],
                  m_imports := (m_imports m)\<lparr>imemories := imemories (m_imports m) + 1\<rparr>\<rparr>))"

fun FuncImport_Type :: "Import \<Rightarrow> wasm_error + u32" where
  "FuncImport_Type (FuncImport t) = Inr t"
| "FuncImport_Type _ = Inl (WasmPanic BadTypeAssertion)"

definition resolveImport :: "Module \<Rightarrow> ImportEntry \<Rightarrow> Module \<times> u32 \<Rightarrow> wasm_error + (Module \<times> u32)" where
  "resolveImport im entry = (\<lambda>(m, funcs).
     case m_Export im of
       None \<Rightarrow> Inl ErrNoExportsInImportedModule
     | Some ex \<Rightarrow>
        (case Entries ex (FieldName entry) of
           None \<Rightarrow> Inl (ExportNotFoundError (ModuleName entry) (FieldName entry))
         | Some e \<Rightarrow>
             if Kind e \<noteq> Import_Kind (IType entry)
             then Inl (KindMismatchError (ModuleName entry) (FieldName entry)
                         (Import_Kind (IType entry)) (Kind e))
             else if Kind e = ExternalFunction then
               bindE (FuncImport_Type (IType entry)) (\<lambda>t.
               bindE (importFunction im entry (Index e) m t funcs) (\<lambda>m. Inr (m, funcs + 1)))
             else if Kind e = ExternalGlobal then
               bindE (importGlobal im (Index e) m) (\<lambda>m. Inr (m, funcs))
             else if Kind e = ExternalTable then
               bindE (importTable im (Index e) m) (\<lambda>m. Inr (m, funcs))
             else if Kind e = ExternalMemory then
               bindE (importMemory im (Index e) m) (\<lambda>m. Inr (m, funcs))
             else Inl (InvalidExternalError (Kind e))))"

fun resolveImports_loop ::
  "(byte list \<Rightarrow> wasm_error + Module) \<Rightarrow> (byte list \<Rightarrow> Module option) \<Rightarrow> ImportEntry list \<Rightarrow>
   Module \<times> u32 \<Rightarrow> wasm_error + (Module \<times> u32)" where
  "resolveImports_loop resolve modules [] s = Inr s"
| "resolveImports_loop resolve modules (entry # es) s =
     bindE (case modules (ModuleName entry) of Some im \<Rightarrow> Inr im | None \<Rightarrow> resolve (ModuleName entry)) (\<lambda>im.
     bindE (resolveImport im entry s) (\<lambda>s.
       resolveImports_loop resolve (modules(ModuleName entry \<mapsto> im)) es s))"

definition resolveImports :: "(byte list \<Rightarrow> wasm_error + Module) \<Rightarrow> Module \<Rightarrow> wasm_error + Module" where
  "resolveImports resolve m =
     (case m_Import m of
        None \<Rightarrow> Inr m
      | Some i \<Rightarrow>
          bindE (resolveImports_loop resolve Map.empty (Entries i) (m, 0)) (\<lambda>(m, _). Inr m))"

section \<open>Reading a module\<close>

definition initSpaces :: "Module \<Rightarrow> Module" where
  "initSpaces m =
     (case m_Table m of
        None \<Rightarrow> m\<lparr>LinearMemoryIndexSpace := [[]]\<rparr>
      | Some t \<Rightarrow> m\<lparr>LinearMemoryIndexSpace := [[]],
                    TableIndexSpace := replicate (length (Entries t)) []\<rparr>)"

definition ReadModule ::
  "byte list \<Rightarrow> (byte list \<Rightarrow> wasm_error + Module) option \<Rightarrow> wasm_error + Module" where
  "ReadModule r resolvePath =
     bindE (DecodeModule r) (\<lambda>m.
     bindE (case resolvePath of
              None \<Rightarrow> Inr (initSpaces m)
            | Some resolve \<Rightarrow> if m_Import m = None then Inr (initSpaces m)
                              else resolveImports resolve (initSpaces m)) (\<lambda>m.
     bindE (populateGlobals m) (\<lambda>m.
     bindE (populateFunctions m) (\<lambda>m.
     bindE (populateTables m) populateLinearMemory))))"

section \<open>Properties of the index spaces\<close>

lemma placeSegment_length:
  assumes "0 \<le> off" "placeSegment off seg tbl = Inr tbl'"
  shows "length tbl' = max (length tbl) (nat off + length seg)"
  using assms by (auto simp: placeSegment_def split: if_splits)

text \<open>Placing a segment at a non-negative offset always succeeds; the result is as long as the
  longer of the table and the segment's end, and holds the segment where the segment fits the old
  table or lies past it.  Where a segment reaches past the end it overlaps the old contents with,
  the old contents win, because they are copied over it.\<close>

theorem placeSegment_spec:
  assumes "0 \<le> off"
  shows "\<exists>tbl'. placeSegment off seg tbl = Inr tbl' \<and>
    length tbl' = max (length tbl) (nat off + length seg) \<and>
    (\<forall>i < length tbl'. tbl' ! i =
       (if nat off \<le> i \<and> i < nat off + length seg \<and>
           (nat off + length seg \<le> length tbl \<or> length tbl \<le> i)
        then seg ! (i - nat off)
        else if i < length tbl then tbl ! i else 0))"
proof (cases "off + int (length seg) > int (length tbl)")
  case True
  with assms show ?thesis
    by (auto simp: placeSegment_def nth_go_copy nth_go_copy_at)
next
  case False
  with assms show ?thesis
    by (auto simp: placeSegment_def nth_go_copy_at)
qed

theorem placeSegment_spec_witness:
  "\<exists>tbl'. placeSegment 1 [7, 8] [1, 2 :: byte] = Inr tbl' \<and> length tbl' = 3 \<and>
     tbl' ! 1 = 2 \<and> tbl' ! 2 = 8"
  using placeSegment_spec [of 1 "[7, 8]" "[1, 2]"] by auto

lemma populateFunctions_loop_spec:
  assumes "populateFunctions_loop types cd ts k fns = Inr fns'"
  shows "\<exists>news. fns' = fns @ news \<and> length news = length ts \<and>
    (\<forall>i < length ts. unat (ts ! i) < length types \<and>
      (\<exists>sec. cd = Some sec \<and> k + i < length (Entries sec) \<and>
        news ! i =
          \<lparr>Sig = Some (types ! unat (ts ! i)), Body = Some (Entries sec ! (k + i)), Host = None\<rparr>))"
  using assms
proof (induction ts arbitrary: k fns)
  case Nil
  then show ?case by simp
next
  case (Cons t ts)
  let ?f = "\<lambda>sec. \<lparr>Sig = Some (types ! unat t), Body = Some (Entries sec ! k), Host = None\<rparr>"
  obtain sec where sec: "cd = Some sec" "unat t < length types" "k < length (Entries sec)"
    and rest: "populateFunctions_loop types cd ts (k + 1) (fns @ [?f sec]) = Inr fns'"
    using Cons.prems by (auto split: if_splits option.splits)
  obtain news where news: "fns' = fns @ ?f sec # news" "length news = length ts"
    "\<forall>i < length ts. unat (ts ! i) < length types \<and>
      (\<exists>sec. cd = Some sec \<and> k + 1 + i < length (Entries sec) \<and>
        news ! i =
          \<lparr>Sig = Some (types ! unat (ts ! i)), Body = Some (Entries sec ! (k + 1 + i)), Host = None\<rparr>)"
    using Cons.IH [OF rest] by auto
  then show ?case
    using sec by (intro exI [of _ "?f sec # news"]) (auto simp: less_Suc_eq_0_disj)
qed

text \<open>Every entry of the function section becomes a function of the index space: its signature
  is the declared type, its body the entry of the code section at the same position.\<close>

theorem populateFunctions_spec:
  assumes "populateFunctions m = Inr m'" "m_Types m = Some types" "m_Function m = Some fs"
  shows "\<exists>news. FunctionIndexSpace m' = FunctionIndexSpace m @ news \<and>
    length news = length (Entries fs) \<and>
    (\<forall>i < length (Entries fs).
      unat (Entries fs ! i) < length (Entries types) \<and>
      (\<exists>cd. m_Code m = Some cd \<and> i < length (Entries cd) \<and>
        news ! i = \<lparr>Sig = Some (Entries types ! unat (Entries fs ! i)),
          Body = Some (Entries cd ! i), Host = None\<rparr>))"
proof -
  obtain fns where "populateFunctions_loop (Entries types) (m_Code m) (Entries fs) 0
      (FunctionIndexSpace m) = Inr fns" "FunctionIndexSpace m' = fns"
    using assms by (auto simp: populateFunctions_def elim!: bindE_InrE)
  from populateFunctions_loop_spec [OF this(1)] this(2) show ?thesis by simp
qed

theorem populateFunctions_spec_witness:
  "case populateFunctions sample_module of
     Inl e \<Rightarrow> False
   | Inr m' \<Rightarrow> length (FunctionIndexSpace m') = 1"
proof -
  let ?f = "\<lparr>Sig = Some \<lparr>Form = 0x60, ParamTypes = [ValueTypeI32], ReturnTypes = [ValueTypeI32]\<rparr>,
    Body = Some \<lparr>Locals = [\<lparr>Count = 1, LType = ValueTypeI64\<rparr>], Code = [0x20, 0x00]\<rparr>, Host = None\<rparr>"
  have "populateFunctions sample_module = Inr (sample_module\<lparr>FunctionIndexSpace := [?f]\<rparr>)"
    by (simp add: populateFunctions_def sample_module_def empty_section_def Module_zero_def)
  with populateFunctions_spec [OF this, of "the (m_Types sample_module)" "the (m_Function sample_module)"]
  show ?thesis by (simp add: sample_module_def empty_section_def Module_zero_def)
qed

lemma populateLinearMemory_loop_length:
  "populateLinearMemory_loop m es = Inr m' \<Longrightarrow>
   length (LinearMemoryIndexSpace m') = length (LinearMemoryIndexSpace m)"
proof (induction es arbitrary: m)
  case Nil
  then show ?case by simp
next
  case (Cons e es)
  then show ?case by (force elim!: bindE_InrE split: if_splits list.splits)
qed

lemma populateTables_loop_memory:
  "populateTables_loop m es = Inr m' \<Longrightarrow>
   LinearMemoryIndexSpace m' = LinearMemoryIndexSpace m \<and>
   length (TableIndexSpace m') = length (TableIndexSpace m)"
proof (induction es arbitrary: m)
  case Nil
  then show ?case by simp
next
  case (Cons e es)
  then show ?case by (force elim!: bindE_InrE split: if_splits)
qed

lemma resolveImport_memory:
  assumes "resolveImport im e (m, k) = Inr (m', k')"
  shows "length (LinearMemoryIndexSpace m') = length (LinearMemoryIndexSpace m)"
  using assms
  by (auto simp: resolveImport_def importFunction_def importGlobal_def importTable_def
      importMemory_def elim!: bindE_InrE split: if_splits option.splits)

lemma resolveImports_loop_memory:
  assumes "resolveImports_loop resolve mods es (m, k) = Inr (m', k')"
  shows "length (LinearMemoryIndexSpace m') = length (LinearMemoryIndexSpace m)"
  using assms
proof (induction es arbitrary: mods m k)
  case Nil
  then show ?case by simp
next
  case (Cons e es)
  from Cons.prems obtain im m1 k1 where "resolveImport im e (m, k) = Inr (m1, k1)"
      "resolveImports_loop resolve (mods(ModuleName e \<mapsto> im)) es (m1, k1) = Inr (m', k')"
    by (auto elim!: bindE_InrE)
  with Cons.IH resolveImport_memory show ?case by metis
qed

text \<open>A module that was read has exactly one linear memory, whatever it imports and whatever its
  data segments do.\<close>

theorem ReadModule_one_memory:
  assumes "ReadModule r resolve = Inr m"
  shows "length (LinearMemoryIndexSpace m) = 1"
proof -
  have g: "populateGlobals m = Inr m' \<Longrightarrow> LinearMemoryIndexSpace m' = LinearMemoryIndexSpace m" for m m'
    by (auto simp: populateGlobals_def split: option.splits)
  have f: "populateFunctions m = Inr m' \<Longrightarrow> LinearMemoryIndexSpace m' = LinearMemoryIndexSpace m" for m m'
    by (auto simp: populateFunctions_def elim!: bindE_InrE split: option.splits)
  have t: "populateTables m = Inr m' \<Longrightarrow> LinearMemoryIndexSpace m' = LinearMemoryIndexSpace m" for m m'
    by (auto simp: populateTables_def dest: populateTables_loop_memory split: option.splits if_splits)
  have l: "populateLinearMemory m = Inr m' \<Longrightarrow>
      length (LinearMemoryIndexSpace m') = length (LinearMemoryIndexSpace m)" for m m'
    by (auto simp: populateLinearMemory_def dest: populateLinearMemory_loop_length
        split: option.splits if_splits)
  have i: "resolveImports rs m = Inr m' \<Longrightarrow>
      length (LinearMemoryIndexSpace m') = length (LinearMemoryIndexSpace m)" for rs m m'
    by (auto simp: resolveImports_def elim!: bindE_InrE dest: resolveImports_loop_memory
        split: option.splits)
  obtain m0 where "DecodeModule r = Inr m0"
    using assms by (cases "DecodeModule r") (simp_all add: ReadModule_def)
  moreover have one: "length (LinearMemoryIndexSpace (initSpaces m0)) = 1"
    by (simp add: initSpaces_def split: option.split)
  ultimately obtain m2 m3 m4 m5 where
    "length (LinearMemoryIndexSpace m2) = length (LinearMemoryIndexSpace (initSpaces m0))"
    "populateGlobals m2 = Inr m3" "populateFunctions m3 = Inr m4" "populateTables m4 = Inr m5"
    "populateLinearMemory m5 = Inr m"
    using assms by (auto simp: ReadModule_def elim!: bindE_InrE dest!: i split: option.splits if_splits)
  with g f t l one show ?thesis by metis
qed

theorem ReadModule_one_memory_witness:
  "\<exists>m. ReadModule [0x00, 0x61, 0x73, 0x6d, 0x01, 0, 0, 0] None = Inr m \<and>
     length (LinearMemoryIndexSpace m) = 1"
proof -
  have "case ReadModule [0x00, 0x61, 0x73, 0x6d, 0x01, 0, 0, 0] None of Inl _ \<Rightarrow> False | Inr _ \<Rightarrow> True"
    by code_simp
  then obtain m where "ReadModule [0x00, 0x61, 0x73, 0x6d, 0x01, 0, 0, 0] None = Inr m"
    by (auto split: sum.splits)
  with ReadModule_one_memory [OF this] show ?thesis by blast
qed

lemma execInitExpr_step_follows:
  assumes "initExpr_step b r = Inr (go, r')"
  shows "(\<exists>stk' lv'. execInitExpr_step m b r stk lv = Inr (stk', lv', r')) \<or>
    (\<exists>i. execInitExpr_step m b r stk lv = Inl (InvalidGlobalIndexError i))"
  using assms
  by (auto simp: initExpr_step_def execInitExpr_step_def elim!: bindE_InrE
      split: if_splits option.splits)

lemma execInitExpr_loop_follows:
  assumes "initExpr_loop e = Inr []"
  shows "(\<exists>x. execInitExpr_loop m e stk lv = Inr x) \<or>
    (\<exists>i. execInitExpr_loop m e stk lv = Inl (InvalidGlobalIndexError i))"
  using assms
proof (induction e arbitrary: stk lv rule: initExpr_loop.induct)
  case 1
  then show ?case by simp
next
  case (2 b r)
  then obtain go r' where step: "initExpr_step b r = Inr (go, r')"
    by (auto split: sum.splits)
  consider stk' lv' where "execInitExpr_step m b r stk lv = Inr (stk', lv', r')"
    | i where "execInitExpr_step m b r stk lv = Inl (InvalidGlobalIndexError i)"
    using execInitExpr_step_follows [OF step] by blast
  then show ?case
  proof cases
    case 1
    show ?thesis
    proof (cases go)
      case True
      with 2(2) step have "initExpr_loop r' = Inr []" by simp
      with 2(1) [OF step refl True] 1 show ?thesis by simp
    next
      case False
      with 2(2) step 1 show ?thesis by simp
    qed
  next
    case 2
    then show ?thesis by simp
  qed
qed

text \<open>An initializer expression that the reader delimits is evaluated to its end: the only errors
  left are an unknown global and a value type outside the four.\<close>

theorem ExecInitExpr_of_readInitExpr:
  assumes "InitExpr_ok e"
  shows "case ExecInitExpr m e of
      Inr _ \<Rightarrow> True
    | Inl err \<Rightarrow> (\<exists>i. err = InvalidGlobalIndexError i) \<or> (\<exists>t. err = InvalidValueTypePanic t)"
proof -
  have "initExpr_loop e = Inr []" "e \<noteq> []"
    using assms unfolding InitExpr_ok_def readInitExpr_def
    by (auto elim!: bindE_InrE simp: Let_def split: if_splits)
  with execInitExpr_loop_follows [of e m "[]" 0] show ?thesis
    by (auto simp: ExecInitExpr_def Let_def)
qed


theorem ExecInitExpr_of_readInitExpr_witness:
  "InitExpr_ok [0x41, 0x7f, 0x0b] \<and>
   (case ExecInitExpr Module_zero [0x41, 0x7f, 0x0b] of
      Inr _ \<Rightarrow> True
    | Inl err \<Rightarrow> (\<exists>i. err = InvalidGlobalIndexError i) \<or> (\<exists>t. err = InvalidValueTypePanic t))"
proof -
  have "InitExpr_ok [0x41, 0x7f, 0x0b]" unfolding InitExpr_ok_def by code_simp
  with ExecInitExpr_of_readInitExpr [OF this] show ?thesis by blast
qed

end
