(* ===== verification/SeaTypes.thy ===== *)
theory SeaTypes
  imports Prelude
begin

text \<open>
  \<^verbatim>\<open>wagon/sea\<close>: the branch tables a compiled function carries
  (\<^verbatim>\<open>compile.go\<close>) and the memory contract host functions allocate from
  (\<^verbatim>\<open>memory.go\<close>).  \<^verbatim>\<open>int64\<close> addresses and counts are integers; the sizes of
  allocations are kept in a map from offsets, as in the code.
\<close>

section \<open>Branch tables\<close>

record Target =
  Addr :: int
  Discard :: int
  PreserveTop :: bool
  IsReturnTarget :: bool

record BranchTable =
  Targets :: "Target list"
  DefaultTarget :: Target
  PatchedAddrs :: "int list"
  BlocksLen :: int

record Compiled =
  cp_Code :: "byte list"
  cp_Table :: "BranchTable list"
  cp_MaxDepth :: int
  cp_TotalLocalVars :: nat

datatype sea_panic = InvalidBlockValue | InvalidMemory | SeaPanic go_error

definition isAddr :: "BranchTable \<Rightarrow> int \<Rightarrow> bool" where
  "isAddr table addr \<longleftrightarrow> addr \<in> set (PatchedAddrs table)"

definition PatchTable :: "BranchTable \<Rightarrow> int \<Rightarrow> int \<Rightarrow> sea_panic + BranchTable" where
  "PatchTable table blk addr =
     (if blk < 0 then Inl InvalidBlockValue
      else Inr (table\<lparr>
        Targets := map (\<lambda>t. if \<not> isAddr table (Addr t) \<and> Addr t = blk then t\<lparr>Addr := addr\<rparr> else t)
                     (Targets table),
        DefaultTarget := (if Addr (DefaultTarget table) = blk
                          then (DefaultTarget table)\<lparr>Addr := addr\<rparr> else DefaultTarget table),
        PatchedAddrs := PatchedAddrs table @ [addr]\<rparr>))"

section \<open>Memory of a contract\<close>

text \<open>\<^verbatim>\<open>Pos\<close> is a Go \<^verbatim>\<open>int\<close>, kept at its width.\<close>

record WavmMemory =
  WMemory :: "byte list"
  Pos :: u64
  Size :: "u64 \<Rightarrow> nat option"

definition NewWavmMemory :: WavmMemory where
  "NewWavmMemory = \<lparr>WMemory = [], Pos = 0, Size = Map.empty\<rparr>"

text \<open>
  The bounds the code checks are the size alone; the slice expression
  \<^verbatim>\<open>m.Memory[offset:offset+size]\<close> checks the rest, with the sum taken at 64 bits.
\<close>

definition WavmMemory_Set ::
  "WavmMemory \<Rightarrow> u64 \<Rightarrow> u64 \<Rightarrow> byte list \<Rightarrow> sea_panic + WavmMemory" where
  "WavmMemory_Set m offset sz value =
     (if unat sz > length (WMemory m) then Inl InvalidMemory
      else if sz > 0 then
        if unat (offset + sz) > length (WMemory m) \<or> offset > offset + sz
        then Inl (SeaPanic SliceOutOfRange)
        else Inr (m\<lparr>WMemory := go_copy_at (unat offset) (WMemory m) (take (unat sz) value),
                    Size := (Size m)(offset \<mapsto> length value),
                    Pos := Pos m + sz\<rparr>)
      else Inr (m\<lparr>Size := (Size m)(offset \<mapsto> 0), Pos := Pos m + 1\<rparr>))"

definition WavmMemory_Len :: "WavmMemory \<Rightarrow> u64" where
  "WavmMemory_Len m = Pos m"

definition WavmMemory_SetBytes :: "WavmMemory \<Rightarrow> byte list \<Rightarrow> sea_panic + (u64 \<times> WavmMemory)" where
  "WavmMemory_SetBytes m value =
     (let offset = WavmMemory_Len m
      in bindE (WavmMemory_Set m offset (of_nat (length value)) value) (\<lambda>m. Inr (offset, m)))"

text \<open>\<^verbatim>\<open>size - uint64(m.Len())\<close> is not negative on this branch.\<close>

definition WavmMemory_Resize :: "WavmMemory \<Rightarrow> u64 \<Rightarrow> WavmMemory" where
  "WavmMemory_Resize m sz =
     (if WavmMemory_Len m < sz
      then m\<lparr>WMemory := WMemory m @ replicate (unat (sz - WavmMemory_Len m)) 0\<rparr>
      else m)"

text \<open>
  A pointer is read as 32 bits; a negative one counts from the end of the memory.
\<close>

definition wavm_ptr :: "WavmMemory \<Rightarrow> u64 \<Rightarrow> u64" where
  "wavm_ptr m offset =
     (let ptr = (ucast offset :: u32)
      in if sint ptr < 0 then ucast (of_nat (length (WMemory m)) + ptr :: u32) else ucast ptr)"

definition wavm_slice :: "WavmMemory \<Rightarrow> u64 \<Rightarrow> nat \<Rightarrow> sea_panic + byte list" where
  "wavm_slice m offset sz =
     (if unat offset + sz > length (WMemory m) then Inl (SeaPanic SliceOutOfRange)
      else Inr (take sz (drop (unat offset) (WMemory m))))"

text \<open>A nil slice is \<open>None\<close>.\<close>

definition WavmMemory_Get :: "WavmMemory \<Rightarrow> u64 \<Rightarrow> sea_panic + byte list option" where
  "WavmMemory_Get m off =
     (let offset = wavm_ptr m off
      in case Size m offset of
           None \<Rightarrow> Inr None
         | Some sz \<Rightarrow>
             if sz = 0 then Inr None
             else if length (WMemory m) > unat offset then
               bindE (wavm_slice m offset sz) (\<lambda>bs. Inr (Some (go_copy (replicate sz 0) bs)))
             else Inr None)"

definition WavmMemory_GetPtr :: "WavmMemory \<Rightarrow> u64 \<Rightarrow> sea_panic + byte list option" where
  "WavmMemory_GetPtr m off =
     (let offset = wavm_ptr m off
      in case Size m offset of
           None \<Rightarrow> Inr None
         | Some sz \<Rightarrow>
             if sz = 0 then Inr None
             else if length (WMemory m) > unat offset
             then bindE (wavm_slice m offset sz) (\<lambda>bs. Inr (Some bs))
             else Inr None)"

definition WavmMemory_MemSize :: "WavmMemory \<Rightarrow> nat" where
  "WavmMemory_MemSize m = length (WMemory m)"

definition WavmMemory_Data :: "WavmMemory \<Rightarrow> byte list" where
  "WavmMemory_Data m = WMemory m"

end
