(* ===== verification/VmState.thy ===== *)
theory VmState
  imports WasmIndex SeaTypes
begin

text \<open>
  \<^verbatim>\<open>wagon/exec/vm.go\<close>: the state of the virtual machine and the operations its
  instructions are built from.  A method of \<^verbatim>\<open>*VM\<close> is a function of the state that
  returns a value or a panic together with the state it leaves, also on a panic.
  Bytes of the debug callbacks are not modelled.
\<close>

section \<open>Functions and state\<close>

record compiledFunction =
  cf_code :: "byte list"
  cf_branchTables :: "BranchTable list"
  cf_maxDepth :: nat
  cf_totalLocalVars :: nat
  cf_args :: nat
  cf_returns :: bool

text \<open>The kinds of \<^verbatim>\<open>reflect\<close> a host function's parameters and results have.\<close>

datatype kind = KFloat64 | KFloat32 | KUint32 | KUint64 | KInt32 | KInt64 | KPtr | KOther

datatype host_value =
    HFloat64 u64 | HFloat32 u32 | HUint32 u32 | HUint64 u64 | HInt32 u32 | HInt64 u64 | HOther

text \<open>A host function is known by a handle; what it does is a parameter of the model.\<close>

datatype "function" =
    CompiledFunction compiledFunction
  | GoFunction "kind list" nat
  | ContractFunction nat "kind list" nat

record vm_context =
  c_stack :: "u64 list"
  c_locals :: "u64 list"
  c_code :: "byte list"
  c_pc :: int
  c_curFunc :: int

record VM =
  ctx :: vm_context
  v_module :: Module
  globals :: "u64 list"
  memory :: "byte list"
  funcs :: "function list"
  RecoverPanic :: bool
  abort :: bool
  recursiveCallDepth :: int

abbreviation wasmPageSize :: nat where "wasmPageSize \<equiv> 65536"

text \<open>
  \<open>ResliceBeyondLength\<close> stands for \<^verbatim>\<open>s[:len(s)+k]\<close> with a positive \<open>k\<close>, which
  reveals stale elements of the backing array or panics, as its capacity has it;
  \<open>OutOfFuel\<close> belongs to the model alone.
\<close>

datatype vm_panic =
    GoPanic go_error
  | ErrOutOfBoundsMemoryAccess
  | ErrUnreachable
  | ErrSignatureMismatch
  | ErrUndefinedElementIndex
  | RecursiveCallLimit
  | NotCompiledFunction int
  | HostFirstArgument
  | HostInvalidArgKind nat
  | HostInvalidReturnKind nat
  | HostPanic nat
  | ResliceBeyondLength
  | OutOfFuel

section \<open>Sequencing\<close>

type_synonym 'a vm = "VM \<Rightarrow> (vm_panic + 'a) \<times> VM"

definition ret :: "'a \<Rightarrow> 'a vm" where
  "ret x = (\<lambda>s. (Inr x, s))"

definition panic :: "vm_panic \<Rightarrow> 'a vm" where
  "panic e = (\<lambda>s. (Inl e, s))"

definition bindV :: "'a vm \<Rightarrow> ('a \<Rightarrow> 'b vm) \<Rightarrow> 'b vm" where
  "bindV m f = (\<lambda>s. case m s of (Inl e, s') \<Rightarrow> (Inl e, s') | (Inr x, s') \<Rightarrow> f x s')"

definition thenV :: "'a vm \<Rightarrow> 'b vm \<Rightarrow> 'b vm" where
  "thenV m k = bindV m (\<lambda>_. k)"

definition gets :: "(VM \<Rightarrow> 'a) \<Rightarrow> 'a vm" where
  "gets f = (\<lambda>s. (Inr (f s), s))"

definition modifyCtx :: "(vm_context \<Rightarrow> vm_context) \<Rightarrow> unit vm" where
  "modifyCtx f = (\<lambda>s. (Inr (), s\<lparr>ctx := f (ctx s)\<rparr>))"

definition modifyGlobals :: "(u64 list \<Rightarrow> u64 list) \<Rightarrow> unit vm" where
  "modifyGlobals f = (\<lambda>s. (Inr (), s\<lparr>globals := f (globals s)\<rparr>))"

definition modifyMemory :: "(byte list \<Rightarrow> byte list) \<Rightarrow> unit vm" where
  "modifyMemory f = (\<lambda>s. (Inr (), s\<lparr>memory := f (memory s)\<rparr>))"

lemmas vm_defs [go_simps] = ret_def panic_def bindV_def thenV_def gets_def
  modifyCtx_def modifyGlobals_def modifyMemory_def

section \<open>Fetching immediates\<close>

definition fetchInt8 :: "byte vm" where
  "fetchInt8 =
     bindV (gets ctx) (\<lambda>c.
       if c_pc c < 0 \<or> c_pc c \<ge> int (length (c_code c)) then panic (GoPanic IndexOutOfRange)
       else thenV (modifyCtx (\<lambda>c. c\<lparr>c_pc := c_pc c + 1\<rparr>)) (ret (c_code c ! nat (c_pc c))))"

definition fetchBool :: "bool vm" where
  "fetchBool = bindV fetchInt8 (\<lambda>b. ret (b \<noteq> 0))"

text \<open>\<^verbatim>\<open>endianess.UintN(vm.ctx.code[vm.ctx.pc:])\<close>: the slice, then its first bytes.\<close>

definition peekCode :: "nat \<Rightarrow> byte list vm" where
  "peekCode n =
     bindV (gets ctx) (\<lambda>c.
       if c_pc c < 0 \<or> c_pc c > int (length (c_code c)) then panic (GoPanic SliceOutOfRange)
       else if length (c_code c) - nat (c_pc c) < n then panic (GoPanic IndexOutOfRange)
       else ret (take n (drop (nat (c_pc c)) (c_code c))))"

definition fetchUint32 :: "u32 vm" where
  "fetchUint32 =
     bindV (peekCode 4) (\<lambda>bs.
     thenV (modifyCtx (\<lambda>c. c\<lparr>c_pc := c_pc c + 4\<rparr>)) (ret (le_get bs)))"

definition fetchInt32 :: "u32 vm" where
  "fetchInt32 = fetchUint32"

definition fetchFloat32 :: "u32 vm" where
  "fetchFloat32 = fetchUint32"

definition fetchUint64 :: "u64 vm" where
  "fetchUint64 =
     bindV (peekCode 8) (\<lambda>bs.
     thenV (modifyCtx (\<lambda>c. c\<lparr>c_pc := c_pc c + 8\<rparr>)) (ret (le_get bs)))"

definition fetchInt64 :: "int vm" where
  "fetchInt64 = bindV fetchUint64 (\<lambda>w. ret (sint w))"

definition fetchFloat64 :: "u64 vm" where
  "fetchFloat64 = fetchUint64"

section \<open>The operand stack\<close>

text \<open>
  The stack is bottom first.  \<^verbatim>\<open>int32\<close> and \<^verbatim>\<open>float32\<close> values are 32-bit words: a
  signed one is read with \<open>sint\<close>, a float is its IEEE bit pattern, which
  \<^verbatim>\<open>math.Float32bits\<close> and \<^verbatim>\<open>math.Float32frombits\<close> leave as it is.
\<close>

definition popUint64 :: "u64 vm" where
  "popUint64 =
     bindV (gets (\<lambda>s. c_stack (ctx s))) (\<lambda>stk.
       if stk = [] then panic (GoPanic IndexOutOfRange)
       else thenV (modifyCtx (\<lambda>c. c\<lparr>c_stack := butlast (c_stack c)\<rparr>)) (ret (last stk)))"

definition popInt64 :: "u64 vm" where
  "popInt64 = popUint64"

definition popFloat64 :: "u64 vm" where
  "popFloat64 = popUint64"

definition popUint32 :: "u32 vm" where
  "popUint32 = bindV popUint64 (\<lambda>w. ret (ucast w))"

definition popInt32 :: "u32 vm" where
  "popInt32 = popUint32"

definition popFloat32 :: "u32 vm" where
  "popFloat32 = popUint32"

definition pushUint64 :: "u64 \<Rightarrow> unit vm" where
  "pushUint64 i = modifyCtx (\<lambda>c. c\<lparr>c_stack := c_stack c @ [i]\<rparr>)"

definition pushInt64 :: "u64 \<Rightarrow> unit vm" where
  "pushInt64 i = pushUint64 i"

definition pushFloat64 :: "u64 \<Rightarrow> unit vm" where
  "pushFloat64 f = pushUint64 f"

definition pushUint32 :: "u32 \<Rightarrow> unit vm" where
  "pushUint32 i = pushUint64 (ucast i)"

text \<open>\<^verbatim>\<open>uint64(i)\<close> of an \<^verbatim>\<open>int32\<close> extends the sign.\<close>

definition pushInt32 :: "u32 \<Rightarrow> unit vm" where
  "pushInt32 i = pushUint64 (scast i)"

definition pushFloat32 :: "u32 \<Rightarrow> unit vm" where
  "pushFloat32 f = pushUint32 f"

definition pushBool :: "bool \<Rightarrow> unit vm" where
  "pushBool v = (if v then pushUint64 1 else pushUint64 0)"

definition topUint64 :: "u64 vm" where
  "topUint64 =
     bindV (gets (\<lambda>s. c_stack (ctx s))) (\<lambda>stk.
       if stk = [] then panic (GoPanic IndexOutOfRange) else ret (last stk))"

text \<open>\<^verbatim>\<open>vm.ctx.stack = vm.ctx.stack[:len(vm.ctx.stack)-int(n)]\<close>.\<close>

definition discardStack :: "int \<Rightarrow> unit vm" where
  "discardStack n =
     bindV (gets (\<lambda>s. c_stack (ctx s))) (\<lambda>stk.
       if n > int (length stk) then panic (GoPanic SliceOutOfRange)
       else if n < 0 then panic ResliceBeyondLength
       else modifyCtx (\<lambda>c. c\<lparr>c_stack := take (length stk - nat n) (c_stack c)\<rparr>))"

section \<open>Unwinding preserves the top\<close>

text \<open>What a branch does to the stack, shared by \<^verbatim>\<open>jmpnz\<close> and \<^verbatim>\<open>br_table\<close>.\<close>

definition unwind :: "bool \<Rightarrow> int \<Rightarrow> unit vm" where
  "unwind preserveTop n =
     (if preserveTop then bindV topUint64 (\<lambda>top. thenV (discardStack n) (pushUint64 top))
      else discardStack n)"

section \<open>Frames\<close>

text \<open>
  \<open>keeps R m\<close>: whatever \<open>m\<close> does, panics included, relates the state before to the
  state after.  The locale collects what a relation needs so that every method of
  the machine keeps it: it ignores the context, and it is kept by the three ways
  the machine writes globals and memory.
\<close>

definition keeps :: "(VM \<Rightarrow> VM \<Rightarrow> bool) \<Rightarrow> 'a vm \<Rightarrow> bool" where
  "keeps Q m \<longleftrightarrow> (\<forall>s. Q s (snd (m s)))"

named_theorems keeps_intros \<open>methods of the machine keep a frame relation\<close>

locale vm_frame =
  fixes Q :: "VM \<Rightarrow> VM \<Rightarrow> bool"
  assumes Q_refl: "Q s s"
    and Q_trans: "Q s t \<Longrightarrow> Q t u \<Longrightarrow> Q s u"
    and Q_ctx: "Q s (s\<lparr>ctx := c\<rparr>)"
    and Q_global: "Q s (s\<lparr>globals := (globals s)[i := x]\<rparr>)"
    and Q_store: "length mem = length (memory s) \<Longrightarrow> Q s (s\<lparr>memory := mem\<rparr>)"
    and Q_grow: "Q s (s\<lparr>memory := memory s @ replicate (n * wasmPageSize) 0\<rparr>)"
    and Q_call: "Q (s\<lparr>recursiveCallDepth := recursiveCallDepth s + 1\<rparr>) t \<Longrightarrow>
      Q s (t\<lparr>recursiveCallDepth := recursiveCallDepth t - 1\<rparr>)"
begin

lemma keeps_ret [keeps_intros]: "keeps Q (ret x)"
  by (simp add: keeps_def ret_def Q_refl)

lemma keeps_panic [keeps_intros]: "keeps Q (panic e)"
  by (simp add: keeps_def panic_def Q_refl)

lemma keeps_gets [keeps_intros]: "keeps Q (gets f)"
  by (simp add: keeps_def gets_def Q_refl)

lemma keeps_bindV [keeps_intros]: "keeps Q m \<Longrightarrow> (\<And>x. keeps Q (f x)) \<Longrightarrow> keeps Q (bindV m f)"
  unfolding keeps_def bindV_def
  by (auto split: prod.split sum.split) (metis Q_trans snd_conv)+

lemma keeps_thenV [keeps_intros]: "keeps Q m \<Longrightarrow> keeps Q k \<Longrightarrow> keeps Q (thenV m k)"
  unfolding thenV_def by (rule keeps_bindV)

lemma keeps_modifyCtx [keeps_intros]: "keeps Q (modifyCtx f)"
  by (simp add: keeps_def modifyCtx_def Q_ctx)

lemma keeps_setGlobal [keeps_intros]: "keeps Q (modifyGlobals (\<lambda>g. g[i := x]))"
  by (simp add: keeps_def modifyGlobals_def Q_global)

lemma keeps_store [keeps_intros]:
  "(\<And>mem. length (f mem) = length mem) \<Longrightarrow> keeps Q (modifyMemory f)"
  by (simp add: keeps_def modifyMemory_def Q_store)

lemma keeps_grow [keeps_intros]: "keeps Q (modifyMemory (\<lambda>mem. mem @ replicate (n * wasmPageSize) 0))"
  by (simp add: keeps_def modifyMemory_def Q_grow)

lemma keeps_if [keeps_intros]: "keeps Q a \<Longrightarrow> keeps Q b \<Longrightarrow> keeps Q (if c then a else b)"
  by simp

lemma keeps_fetch [keeps_intros]:
  "keeps Q fetchInt8" "keeps Q fetchBool" "keeps Q (peekCode n)" "keeps Q fetchUint32"
  "keeps Q fetchInt32" "keeps Q fetchFloat32" "keeps Q fetchUint64" "keeps Q fetchInt64"
  "keeps Q fetchFloat64"
  unfolding fetchInt8_def fetchBool_def peekCode_def fetchUint32_def fetchInt32_def
    fetchFloat32_def fetchUint64_def fetchInt64_def fetchFloat64_def
  by (intro keeps_intros)+

lemma keeps_stack [keeps_intros]:
  "keeps Q popUint64" "keeps Q popInt64" "keeps Q popFloat64" "keeps Q popUint32"
  "keeps Q popInt32" "keeps Q popFloat32" "keeps Q (pushUint64 i)" "keeps Q (pushInt64 i)"
  "keeps Q (pushFloat64 i)" "keeps Q (pushUint32 j)" "keeps Q (pushInt32 j)"
  "keeps Q (pushFloat32 j)" "keeps Q (pushBool b)" "keeps Q topUint64" "keeps Q (discardStack n)"
  "keeps Q (unwind b n)"
  unfolding popUint64_def popInt64_def popFloat64_def popUint32_def popInt32_def popFloat32_def
    pushUint64_def pushInt64_def pushFloat64_def pushUint32_def pushInt32_def pushFloat32_def
    pushBool_def topUint64_def discardStack_def unwind_def
  by (intro keeps_intros)+

end

end
