(* ===== verification/VmNum.thy ===== *)
theory VmNum
  imports VmState "HOL-Library.Signed_Division"
begin

text \<open>
  \<^verbatim>\<open>wagon/exec/num.go\<close>, \<^verbatim>\<open>conv.go\<close> and \<^verbatim>\<open>reinterp.go\<close>: the arithmetic
  instructions, one definition per method.  \<open>binop\<close> is a method that pops \<open>v2\<close>, then
  \<open>v1\<close>; \<open>binop12\<close> is one that pops both operands inside one expression, so that the
  first operand of the Go operator is the top of the stack.  The rounding arithmetic
  of IEEE floats and the conversions between floats and integers are the parameter
  \<open>float_ops\<close>; sign manipulation and comparison act on the bit pattern.
\<close>

section \<open>The library functions used\<close>

text \<open>\<^verbatim>\<open>math/bits\<close> at the width of the argument.\<close>

definition LeadingZeros :: "'a::len word \<Rightarrow> nat" where
  "LeadingZeros w = length (takeWhile (\<lambda>i. \<not> bit w i) (rev [0..<LENGTH('a)]))"

definition TrailingZeros :: "'a::len word \<Rightarrow> nat" where
  "TrailingZeros w = length (takeWhile (\<lambda>i. \<not> bit w i) [0..<LENGTH('a)])"

definition OnesCount :: "'a::len word \<Rightarrow> nat" where
  "OnesCount w = length (filter (\<lambda>i. bit w i) [0..<LENGTH('a)])"

definition RotateLeft :: "'a::len word \<Rightarrow> int \<Rightarrow> 'a word" where
  "RotateLeft x k =
     (let n = LENGTH('a); s = nat (k mod int n)
      in push_bit s x OR drop_bit (n - s) x)"

text \<open>Go's signed division truncates towards zero and wraps on overflow.\<close>

definition go_div :: "'a::len word \<Rightarrow> 'a word \<Rightarrow> 'a word" where
  "go_div v1 v2 = word_of_int (sint v1 sdiv sint v2)"

definition go_rem :: "'a::len word \<Rightarrow> 'a word \<Rightarrow> 'a word" where
  "go_rem v1 v2 = word_of_int (sint v1 smod sint v2)"

section \<open>Floats\<close>

record float_ops =
  f32_add :: "u32 \<Rightarrow> u32 \<Rightarrow> u32"
  f32_sub :: "u32 \<Rightarrow> u32 \<Rightarrow> u32"
  f32_mul :: "u32 \<Rightarrow> u32 \<Rightarrow> u32"
  f32_div :: "u32 \<Rightarrow> u32 \<Rightarrow> u32"
  f64_add :: "u64 \<Rightarrow> u64 \<Rightarrow> u64"
  f64_sub :: "u64 \<Rightarrow> u64 \<Rightarrow> u64"
  f64_mul :: "u64 \<Rightarrow> u64 \<Rightarrow> u64"
  f64_div :: "u64 \<Rightarrow> u64 \<Rightarrow> u64"
  f64_min :: "u64 \<Rightarrow> u64 \<Rightarrow> u64"
  f64_max :: "u64 \<Rightarrow> u64 \<Rightarrow> u64"
  f64_ceil :: "u64 \<Rightarrow> u64"
  f64_floor :: "u64 \<Rightarrow> u64"
  f64_trunc :: "u64 \<Rightarrow> u64"
  f64_sqrt :: "u64 \<Rightarrow> u64"
  f64_promote :: "u32 \<Rightarrow> u64"
  f64_demote :: "u64 \<Rightarrow> u32"
  f32_of_int :: "int \<Rightarrow> u32"
  f64_of_int :: "int \<Rightarrow> u64"
  f32_to_s32 :: "u32 \<Rightarrow> u32"
  f64_to_s32 :: "u64 \<Rightarrow> u32"
  f64_to_u32 :: "u64 \<Rightarrow> u32"
  f64_to_s64 :: "u64 \<Rightarrow> u64"
  f64_to_u64 :: "u64 \<Rightarrow> u64"

definition f64_abs :: "u64 \<Rightarrow> u64" where
  "f64_abs x = x AND mask 63"

definition f64_neg :: "u64 \<Rightarrow> u64" where
  "f64_neg x = x XOR push_bit 63 1"

definition f32_neg :: "u32 \<Rightarrow> u32" where
  "f32_neg x = x XOR push_bit 31 1"

text \<open>\<^verbatim>\<open>math.Copysign(f, sign)\<close>: the magnitude of the first, the sign of the second.\<close>

definition f64_copysign :: "u64 \<Rightarrow> u64 \<Rightarrow> u64" where
  "f64_copysign f sg = (f AND mask 63) OR (sg AND push_bit 63 1)"

abbreviation f64_half :: u64 where "f64_half \<equiv> 0x3fe0000000000000"

definition f32_isnan :: "u32 \<Rightarrow> bool" where
  "f32_isnan x \<longleftrightarrow> x AND mask 31 > 0x7f800000"

definition f64_isnan :: "u64 \<Rightarrow> bool" where
  "f64_isnan x \<longleftrightarrow> x AND mask 63 > 0x7ff0000000000000"

text \<open>Bit patterns other than NaN are ordered as sign and magnitude, with one zero.\<close>

definition f32_key :: "u32 \<Rightarrow> int" where
  "f32_key x = (if bit x 31 then - uint (x AND mask 31) else uint (x AND mask 31))"

definition f64_key :: "u64 \<Rightarrow> int" where
  "f64_key x = (if bit x 63 then - uint (x AND mask 63) else uint (x AND mask 63))"

definition f32_eq :: "u32 \<Rightarrow> u32 \<Rightarrow> bool" where
  "f32_eq a b \<longleftrightarrow> \<not> f32_isnan a \<and> \<not> f32_isnan b \<and> f32_key a = f32_key b"

definition f32_lt :: "u32 \<Rightarrow> u32 \<Rightarrow> bool" where
  "f32_lt a b \<longleftrightarrow> \<not> f32_isnan a \<and> \<not> f32_isnan b \<and> f32_key a < f32_key b"

definition f32_le :: "u32 \<Rightarrow> u32 \<Rightarrow> bool" where
  "f32_le a b \<longleftrightarrow> \<not> f32_isnan a \<and> \<not> f32_isnan b \<and> f32_key a \<le> f32_key b"

definition f64_eq :: "u64 \<Rightarrow> u64 \<Rightarrow> bool" where
  "f64_eq a b \<longleftrightarrow> \<not> f64_isnan a \<and> \<not> f64_isnan b \<and> f64_key a = f64_key b"

definition f64_lt :: "u64 \<Rightarrow> u64 \<Rightarrow> bool" where
  "f64_lt a b \<longleftrightarrow> \<not> f64_isnan a \<and> \<not> f64_isnan b \<and> f64_key a < f64_key b"

definition f64_le :: "u64 \<Rightarrow> u64 \<Rightarrow> bool" where
  "f64_le a b \<longleftrightarrow> \<not> f64_isnan a \<and> \<not> f64_isnan b \<and> f64_key a \<le> f64_key b"

section \<open>Shapes of methods\<close>

definition unop :: "'a vm \<Rightarrow> ('b \<Rightarrow> unit vm) \<Rightarrow> ('a \<Rightarrow> 'b) \<Rightarrow> unit vm" where
  "unop pop push f = bindV pop (\<lambda>v. push (f v))"

definition binop :: "'a vm \<Rightarrow> ('b \<Rightarrow> unit vm) \<Rightarrow> ('a \<Rightarrow> 'a \<Rightarrow> 'b) \<Rightarrow> unit vm" where
  "binop pop push f = bindV pop (\<lambda>v2. bindV pop (\<lambda>v1. push (f v1 v2)))"

definition binop12 :: "'a vm \<Rightarrow> ('b \<Rightarrow> unit vm) \<Rightarrow> ('a \<Rightarrow> 'a \<Rightarrow> 'b) \<Rightarrow> unit vm" where
  "binop12 pop push f = bindV pop (\<lambda>a. bindV pop (\<lambda>b. push (f a b)))"

definition divop :: "'a::zero vm \<Rightarrow> ('a \<Rightarrow> unit vm) \<Rightarrow> ('a \<Rightarrow> 'a \<Rightarrow> 'a) \<Rightarrow> unit vm" where
  "divop pop push f =
     bindV pop (\<lambda>v2. bindV pop (\<lambda>v1.
       if v2 = 0 then panic (GoPanic DivideByZero) else push (f v1 v2)))"

section \<open>Integer and float instructions\<close>

definition i32Clz :: "unit vm" where
  "i32Clz = unop popUint32 pushUint64 (\<lambda>v. of_nat (LeadingZeros v))"

definition i32Ctz :: "unit vm" where
  "i32Ctz = unop popUint32 pushUint64 (\<lambda>v. of_nat (TrailingZeros v))"

definition i32Popcnt :: "unit vm" where
  "i32Popcnt = unop popUint32 pushUint64 (\<lambda>v. of_nat (OnesCount v))"

definition i32Add :: "unit vm" where
  "i32Add = binop12 popUint32 pushUint32 (\<lambda>a b. a + b)"

definition i32Sub :: "unit vm" where
  "i32Sub = binop popUint32 pushUint32 (\<lambda>v1 v2. v1 - v2)"

definition i32Mul :: "unit vm" where
  "i32Mul = binop12 popUint32 pushUint32 (\<lambda>a b. a * b)"

definition i32DivS :: "unit vm" where
  "i32DivS = divop popInt32 pushInt32 go_div"

definition i32DivU :: "unit vm" where
  "i32DivU = divop popUint32 pushUint32 (\<lambda>v1 v2. v1 div v2)"

definition i32RemS :: "unit vm" where
  "i32RemS = divop popInt32 pushInt32 go_rem"

definition i32RemU :: "unit vm" where
  "i32RemU = divop popUint32 pushUint32 (\<lambda>v1 v2. v1 mod v2)"

definition i32And :: "unit vm" where
  "i32And = binop12 popUint32 pushUint32 (\<lambda>a b. a AND b)"

definition i32Or :: "unit vm" where
  "i32Or = binop12 popUint32 pushUint32 (\<lambda>a b. a OR b)"

definition i32Xor :: "unit vm" where
  "i32Xor = binop12 popUint32 pushUint32 (\<lambda>a b. a XOR b)"

definition i32Shl :: "unit vm" where
  "i32Shl = binop popUint32 pushUint32 (\<lambda>v1 v2. push_bit (unat v2) v1)"

definition i32ShrU :: "unit vm" where
  "i32ShrU = binop popUint32 pushUint32 (\<lambda>v1 v2. drop_bit (unat v2) v1)"

definition i32ShrS :: "unit vm" where
  "i32ShrS = binop popUint32 pushInt32 (\<lambda>v1 v2. signed_drop_bit (unat v2) v1)"

definition i32Rotl :: "unit vm" where
  "i32Rotl = binop popUint32 pushUint32 (\<lambda>v1 v2. RotateLeft v1 (uint v2))"

definition i32Rotr :: "unit vm" where
  "i32Rotr = binop popUint32 pushUint32 (\<lambda>v1 v2. RotateLeft v1 (- uint v2))"

definition i32Eqz :: "unit vm" where
  "i32Eqz = unop popUint32 pushBool (\<lambda>v. v = 0)"

definition i32Eq :: "unit vm" where
  "i32Eq = binop12 popUint32 pushBool (\<lambda>a b. a = b)"

definition i32Ne :: "unit vm" where
  "i32Ne = binop12 popUint32 pushBool (\<lambda>a b. a \<noteq> b)"

definition i32LtS :: "unit vm" where
  "i32LtS = binop popInt32 pushBool (\<lambda>v1 v2. sint v1 < sint v2)"

definition i32LtU :: "unit vm" where
  "i32LtU = binop popUint32 pushBool (\<lambda>v1 v2. v1 < v2)"

definition i32LeS :: "unit vm" where
  "i32LeS = binop popInt32 pushBool (\<lambda>v1 v2. sint v1 \<le> sint v2)"

definition i32LeU :: "unit vm" where
  "i32LeU = binop popUint32 pushBool (\<lambda>v1 v2. v1 \<le> v2)"

definition i32GtS :: "unit vm" where
  "i32GtS = binop popInt32 pushBool (\<lambda>v1 v2. sint v1 > sint v2)"

definition i32GtU :: "unit vm" where
  "i32GtU = binop popUint32 pushBool (\<lambda>v1 v2. v1 > v2)"

definition i32GeS :: "unit vm" where
  "i32GeS = binop popInt32 pushBool (\<lambda>v1 v2. sint v1 \<ge> sint v2)"

definition i32GeU :: "unit vm" where
  "i32GeU = binop popUint32 pushBool (\<lambda>v1 v2. v1 \<ge> v2)"

definition i64Clz :: "unit vm" where
  "i64Clz = unop popUint64 pushUint64 (\<lambda>v. of_nat (LeadingZeros v))"

definition i64Ctz :: "unit vm" where
  "i64Ctz = unop popUint64 pushUint64 (\<lambda>v. of_nat (TrailingZeros v))"

definition i64Popcnt :: "unit vm" where
  "i64Popcnt = unop popUint64 pushUint64 (\<lambda>v. of_nat (OnesCount v))"

definition i64Add :: "unit vm" where
  "i64Add = binop12 popUint64 pushUint64 (\<lambda>a b. a + b)"

definition i64Sub :: "unit vm" where
  "i64Sub = binop popUint64 pushUint64 (\<lambda>v1 v2. v1 - v2)"

definition i64Mul :: "unit vm" where
  "i64Mul = binop12 popUint64 pushUint64 (\<lambda>a b. a * b)"

definition i64DivS :: "unit vm" where
  "i64DivS = divop popInt64 pushInt64 go_div"

definition i64DivU :: "unit vm" where
  "i64DivU = divop popUint64 pushUint64 (\<lambda>v1 v2. v1 div v2)"

definition i64RemS :: "unit vm" where
  "i64RemS = divop popInt64 pushInt64 go_rem"

definition i64RemU :: "unit vm" where
  "i64RemU = divop popUint64 pushUint64 (\<lambda>v1 v2. v1 mod v2)"

definition i64And :: "unit vm" where
  "i64And = binop12 popUint64 pushUint64 (\<lambda>a b. a AND b)"

definition i64Or :: "unit vm" where
  "i64Or = binop12 popUint64 pushUint64 (\<lambda>a b. a OR b)"

definition i64Xor :: "unit vm" where
  "i64Xor = binop12 popUint64 pushUint64 (\<lambda>a b. a XOR b)"

definition i64Shl :: "unit vm" where
  "i64Shl = binop popUint64 pushUint64 (\<lambda>v1 v2. push_bit (unat v2) v1)"

definition i64ShrU :: "unit vm" where
  "i64ShrU = binop popUint64 pushUint64 (\<lambda>v1 v2. drop_bit (unat v2) v1)"

definition i64ShrS :: "unit vm" where
  "i64ShrS = binop popUint64 pushInt64 (\<lambda>v1 v2. signed_drop_bit (unat v2) v1)"

definition i64Rotl :: "unit vm" where
  "i64Rotl = binop popUint64 pushUint64 (\<lambda>v1 v2. RotateLeft v1 (sint v2))"

definition i64Rotr :: "unit vm" where
  "i64Rotr = binop popUint64 pushUint64 (\<lambda>v1 v2. RotateLeft v1 (- sint v2))"

definition i64Eqz :: "unit vm" where
  "i64Eqz = unop popUint64 pushBool (\<lambda>v. v = 0)"

definition i64Eq :: "unit vm" where
  "i64Eq = binop12 popUint64 pushBool (\<lambda>a b. a = b)"

definition i64Ne :: "unit vm" where
  "i64Ne = binop12 popUint64 pushBool (\<lambda>a b. a \<noteq> b)"

definition i64LtS :: "unit vm" where
  "i64LtS = binop popInt64 pushBool (\<lambda>v1 v2. sint v1 < sint v2)"

definition i64LtU :: "unit vm" where
  "i64LtU = binop popUint64 pushBool (\<lambda>v1 v2. v1 < v2)"

definition i64LeS :: "unit vm" where
  "i64LeS = binop popInt64 pushBool (\<lambda>v1 v2. sint v1 \<le> sint v2)"

definition i64LeU :: "unit vm" where
  "i64LeU = binop popUint64 pushBool (\<lambda>v1 v2. v1 \<le> v2)"

definition i64GtS :: "unit vm" where
  "i64GtS = binop popInt64 pushBool (\<lambda>v1 v2. sint v1 > sint v2)"

definition i64GtU :: "unit vm" where
  "i64GtU = binop popUint64 pushBool (\<lambda>v1 v2. v1 > v2)"

definition i64GeS :: "unit vm" where
  "i64GeS = binop popInt64 pushBool (\<lambda>v1 v2. sint v1 \<ge> sint v2)"

definition i64GeU :: "unit vm" where
  "i64GeU = binop popUint64 pushBool (\<lambda>v1 v2. v1 \<ge> v2)"

definition f32Abs :: "float_ops \<Rightarrow> unit vm" where
  "f32Abs F = unop popFloat32 pushFloat32 (\<lambda>v. f64_demote F (f64_abs (f64_promote F v)))"

definition f64Abs :: "unit vm" where
  "f64Abs = unop popFloat64 pushFloat64 (\<lambda>v. f64_abs v)"

definition f32Ceil :: "float_ops \<Rightarrow> unit vm" where
  "f32Ceil F = unop popFloat32 pushFloat32 (\<lambda>v. f64_demote F (f64_ceil F (f64_promote F v)))"

definition f64Ceil :: "float_ops \<Rightarrow> unit vm" where
  "f64Ceil F = unop popFloat64 pushFloat64 (\<lambda>v. f64_ceil F v)"

definition f32Floor :: "float_ops \<Rightarrow> unit vm" where
  "f32Floor F = unop popFloat32 pushFloat32 (\<lambda>v. f64_demote F (f64_floor F (f64_promote F v)))"

definition f64Floor :: "float_ops \<Rightarrow> unit vm" where
  "f64Floor F = unop popFloat64 pushFloat64 (\<lambda>v. f64_floor F v)"

definition f32Trunc :: "float_ops \<Rightarrow> unit vm" where
  "f32Trunc F = unop popFloat32 pushFloat32 (\<lambda>v. f64_demote F (f64_trunc F (f64_promote F v)))"

definition f64Trunc :: "float_ops \<Rightarrow> unit vm" where
  "f64Trunc F = unop popFloat64 pushFloat64 (\<lambda>v. f64_trunc F v)"

definition f32Sqrt :: "float_ops \<Rightarrow> unit vm" where
  "f32Sqrt F = unop popFloat32 pushFloat32 (\<lambda>v. f64_demote F (f64_sqrt F (f64_promote F v)))"

definition f64Sqrt :: "float_ops \<Rightarrow> unit vm" where
  "f64Sqrt F = unop popFloat64 pushFloat64 (\<lambda>v. f64_sqrt F v)"

definition f32Neg :: "unit vm" where
  "f32Neg = unop popFloat32 pushFloat32 f32_neg"

definition f64Neg :: "unit vm" where
  "f64Neg = unop popFloat64 pushFloat64 f64_neg"

definition f32Nearest :: "float_ops \<Rightarrow> unit vm" where
  "f32Nearest F = unop popFloat32 pushFloat32
       (\<lambda>f. f32_of_int F (sint (f32_to_s32 F
         (f32_add F f (f64_demote F (f64_copysign f64_half (f64_promote F f)))))))"

definition f64Nearest :: "float_ops \<Rightarrow> unit vm" where
  "f64Nearest F = unop popFloat64 pushFloat64
       (\<lambda>f. f64_of_int F (sint (f64_to_s64 F (f64_add F f (f64_copysign f64_half f)))))"

definition f32Add :: "float_ops \<Rightarrow> unit vm" where
  "f32Add F = binop12 popFloat32 pushFloat32 (f32_add F)"

definition f32Sub :: "float_ops \<Rightarrow> unit vm" where
  "f32Sub F = binop popFloat32 pushFloat32 (f32_sub F)"

definition f32Mul :: "float_ops \<Rightarrow> unit vm" where
  "f32Mul F = binop12 popFloat32 pushFloat32 (f32_mul F)"

definition f32Div :: "float_ops \<Rightarrow> unit vm" where
  "f32Div F = binop popFloat32 pushFloat32 (f32_div F)"

definition f32Min :: "float_ops \<Rightarrow> unit vm" where
  "f32Min F = binop12 popFloat32 pushFloat32
       (\<lambda>a b. f64_demote F (f64_min F (f64_promote F a) (f64_promote F b)))"

definition f32Max :: "float_ops \<Rightarrow> unit vm" where
  "f32Max F = binop12 popFloat32 pushFloat32
       (\<lambda>a b. f64_demote F (f64_max F (f64_promote F a) (f64_promote F b)))"

definition f32Copysign :: "float_ops \<Rightarrow> unit vm" where
  "f32Copysign F = binop12 popFloat32 pushFloat32
       (\<lambda>a b. f64_demote F (f64_copysign (f64_promote F a) (f64_promote F b)))"

definition f32Eq :: "unit vm" where
  "f32Eq = binop12 popFloat32 pushBool (\<lambda>a b. f32_eq a b)"

definition f32Ne :: "unit vm" where
  "f32Ne = binop12 popFloat32 pushBool (\<lambda>a b. \<not> f32_eq a b)"

definition f32Lt :: "unit vm" where
  "f32Lt = binop popFloat32 pushBool (\<lambda>v1 v2. f32_lt v1 v2)"

definition f32Gt :: "unit vm" where
  "f32Gt = binop popFloat32 pushBool (\<lambda>v1 v2. f32_lt v2 v1)"

definition f32Le :: "unit vm" where
  "f32Le = binop popFloat32 pushBool (\<lambda>v1 v2. f32_le v1 v2)"

definition f32Ge :: "unit vm" where
  "f32Ge = binop popFloat32 pushBool (\<lambda>v1 v2. f32_le v2 v1)"

definition f64Add :: "float_ops \<Rightarrow> unit vm" where
  "f64Add F = binop12 popFloat64 pushFloat64 (f64_add F)"

definition f64Sub :: "float_ops \<Rightarrow> unit vm" where
  "f64Sub F = binop popFloat64 pushFloat64 (f64_sub F)"

definition f64Mul :: "float_ops \<Rightarrow> unit vm" where
  "f64Mul F = binop12 popFloat64 pushFloat64 (f64_mul F)"

definition f64Div :: "float_ops \<Rightarrow> unit vm" where
  "f64Div F = binop popFloat64 pushFloat64 (f64_div F)"

definition f64Min :: "float_ops \<Rightarrow> unit vm" where
  "f64Min F = binop12 popFloat64 pushFloat64 (f64_min F)"

definition f64Max :: "float_ops \<Rightarrow> unit vm" where
  "f64Max F = binop12 popFloat64 pushFloat64 (f64_max F)"

definition f64Copysign :: "unit vm" where
  "f64Copysign = binop12 popFloat64 pushFloat64 (f64_copysign)"

definition f64Eq :: "unit vm" where
  "f64Eq = binop12 popFloat64 pushBool (\<lambda>a b. f64_eq a b)"

definition f64Ne :: "unit vm" where
  "f64Ne = binop12 popFloat64 pushBool (\<lambda>a b. \<not> f64_eq a b)"

definition f64Lt :: "unit vm" where
  "f64Lt = binop popFloat64 pushBool (\<lambda>v1 v2. f64_lt v1 v2)"

definition f64Gt :: "unit vm" where
  "f64Gt = binop popFloat64 pushBool (\<lambda>v1 v2. f64_lt v2 v1)"

definition f64Le :: "unit vm" where
  "f64Le = binop popFloat64 pushBool (\<lambda>v1 v2. f64_le v1 v2)"

definition f64Ge :: "unit vm" where
  "f64Ge = binop popFloat64 pushBool (\<lambda>v1 v2. f64_le v2 v1)"

section \<open>Conversions\<close>

definition i32Wrapi64 :: "unit vm" where
  "i32Wrapi64 = unop popUint64 pushUint32 ucast"

definition i32TruncSF32 :: "float_ops \<Rightarrow> unit vm" where
  "i32TruncSF32 F = unop popFloat32 pushInt32 (\<lambda>v. f64_to_s32 F (f64_trunc F (f64_promote F v)))"

definition i32TruncUF32 :: "float_ops \<Rightarrow> unit vm" where
  "i32TruncUF32 F = unop popFloat32 pushUint32 (\<lambda>v. f64_to_u32 F (f64_trunc F (f64_promote F v)))"

definition i32TruncSF64 :: "float_ops \<Rightarrow> unit vm" where
  "i32TruncSF64 F = unop popFloat64 pushInt32 (\<lambda>v. f64_to_s32 F (f64_trunc F v))"

definition i32TruncUF64 :: "float_ops \<Rightarrow> unit vm" where
  "i32TruncUF64 F = unop popFloat64 pushUint32 (\<lambda>v. f64_to_u32 F (f64_trunc F v))"

definition i64ExtendSI32 :: "unit vm" where
  "i64ExtendSI32 = unop popInt32 pushInt64 scast"

definition i64ExtendUI32 :: "unit vm" where
  "i64ExtendUI32 = unop popUint32 pushUint64 ucast"

definition i64TruncSF32 :: "float_ops \<Rightarrow> unit vm" where
  "i64TruncSF32 F = unop popFloat32 pushInt64 (\<lambda>v. f64_to_s64 F (f64_trunc F (f64_promote F v)))"

definition i64TruncUF32 :: "float_ops \<Rightarrow> unit vm" where
  "i64TruncUF32 F = unop popFloat32 pushUint64 (\<lambda>v. f64_to_u64 F (f64_trunc F (f64_promote F v)))"

definition i64TruncSF64 :: "float_ops \<Rightarrow> unit vm" where
  "i64TruncSF64 F = unop popFloat64 pushInt64 (\<lambda>v. f64_to_s64 F (f64_trunc F v))"

definition i64TruncUF64 :: "float_ops \<Rightarrow> unit vm" where
  "i64TruncUF64 F = unop popFloat64 pushUint64 (\<lambda>v. f64_to_u64 F (f64_trunc F v))"

definition f32ConvertSI32 :: "float_ops \<Rightarrow> unit vm" where
  "f32ConvertSI32 F = unop popInt32 pushFloat32 (\<lambda>v. f32_of_int F (sint v))"

definition f32ConvertUI32 :: "float_ops \<Rightarrow> unit vm" where
  "f32ConvertUI32 F = unop popUint32 pushFloat32 (\<lambda>v. f32_of_int F (uint v))"

definition f32ConvertSI64 :: "float_ops \<Rightarrow> unit vm" where
  "f32ConvertSI64 F = unop popInt64 pushFloat32 (\<lambda>v. f32_of_int F (sint v))"

definition f32ConvertUI64 :: "float_ops \<Rightarrow> unit vm" where
  "f32ConvertUI64 F = unop popUint64 pushFloat32 (\<lambda>v. f32_of_int F (uint v))"

definition f64ConvertSI32 :: "float_ops \<Rightarrow> unit vm" where
  "f64ConvertSI32 F = unop popInt32 pushFloat64 (\<lambda>v. f64_of_int F (sint v))"

definition f64ConvertUI32 :: "float_ops \<Rightarrow> unit vm" where
  "f64ConvertUI32 F = unop popUint32 pushFloat64 (\<lambda>v. f64_of_int F (uint v))"

definition f64ConvertSI64 :: "float_ops \<Rightarrow> unit vm" where
  "f64ConvertSI64 F = unop popInt64 pushFloat64 (\<lambda>v. f64_of_int F (sint v))"

definition f64ConvertUI64 :: "float_ops \<Rightarrow> unit vm" where
  "f64ConvertUI64 F = unop popUint64 pushFloat64 (\<lambda>v. f64_of_int F (uint v))"

definition f32DemoteF64 :: "float_ops \<Rightarrow> unit vm" where
  "f32DemoteF64 F = unop popFloat64 pushFloat32 (f64_demote F)"

definition f64PromoteF32 :: "float_ops \<Rightarrow> unit vm" where
  "f64PromoteF32 F = unop popFloat32 pushFloat64 (f64_promote F)"

section \<open>Reinterpretations\<close>

definition i32ReinterpretF32 :: "unit vm" where
  "i32ReinterpretF32 = unop popFloat32 pushUint32 (\<lambda>v. v)"

definition i64ReinterpretF64 :: "unit vm" where
  "i64ReinterpretF64 = unop popFloat64 pushUint64 (\<lambda>v. v)"

definition f32ReinterpretI32 :: "unit vm" where
  "f32ReinterpretI32 = unop popUint32 pushFloat32 (\<lambda>v. v)"

definition f64ReinterpretI64 :: "unit vm" where
  "f64ReinterpretI64 = unop popUint64 pushFloat64 (\<lambda>v. v)"

section \<open>Frames\<close>

context vm_frame
begin

lemma keeps_shapes [keeps_intros]:
  assumes "keeps Q pop" and "\<And>x. keeps Q (push x)"
  shows "keeps Q (unop pop push f)" "keeps Q (binop pop push g)" "keeps Q (binop12 pop push g)"
  unfolding unop_def binop_def binop12_def by (intro keeps_intros assms)+

lemma keeps_divop [keeps_intros]:
  assumes "keeps Q pop" and "\<And>x. keeps Q (push x)"
  shows "keeps Q (divop pop push f)"
  unfolding divop_def by (intro keeps_intros assms)

lemma keeps_num [keeps_intros]:
  "keeps Q i32Clz" "keeps Q i32Ctz" "keeps Q i32Popcnt"
  "keeps Q i32Add" "keeps Q i32Sub" "keeps Q i32Mul"
  "keeps Q i32DivS" "keeps Q i32DivU" "keeps Q i32RemS"
  "keeps Q i32RemU" "keeps Q i32And" "keeps Q i32Or"
  "keeps Q i32Xor" "keeps Q i32Shl" "keeps Q i32ShrU"
  "keeps Q i32ShrS" "keeps Q i32Rotl" "keeps Q i32Rotr"
  "keeps Q i32Eqz" "keeps Q i32Eq" "keeps Q i32Ne"
  "keeps Q i32LtS" "keeps Q i32LtU" "keeps Q i32LeS"
  "keeps Q i32LeU" "keeps Q i32GtS" "keeps Q i32GtU"
  "keeps Q i32GeS" "keeps Q i32GeU" "keeps Q i64Clz"
  "keeps Q i64Ctz" "keeps Q i64Popcnt" "keeps Q i64Add"
  "keeps Q i64Sub" "keeps Q i64Mul" "keeps Q i64DivS"
  "keeps Q i64DivU" "keeps Q i64RemS" "keeps Q i64RemU"
  "keeps Q i64And" "keeps Q i64Or" "keeps Q i64Xor"
  "keeps Q i64Shl" "keeps Q i64ShrU" "keeps Q i64ShrS"
  "keeps Q i64Rotl" "keeps Q i64Rotr" "keeps Q i64Eqz"
  "keeps Q i64Eq" "keeps Q i64Ne" "keeps Q i64LtS"
  "keeps Q i64LtU" "keeps Q i64LeS" "keeps Q i64LeU"
  "keeps Q i64GtS" "keeps Q i64GtU" "keeps Q i64GeS"
  "keeps Q i64GeU" "keeps Q (f32Abs F)" "keeps Q f64Abs"
  "keeps Q (f32Ceil F)" "keeps Q (f64Ceil F)" "keeps Q (f32Floor F)"
  "keeps Q (f64Floor F)" "keeps Q (f32Trunc F)" "keeps Q (f64Trunc F)"
  "keeps Q (f32Sqrt F)" "keeps Q (f64Sqrt F)" "keeps Q f32Neg"
  "keeps Q f64Neg" "keeps Q (f32Nearest F)" "keeps Q (f64Nearest F)"
  "keeps Q (f32Add F)" "keeps Q (f32Sub F)" "keeps Q (f32Mul F)"
  "keeps Q (f32Div F)" "keeps Q (f32Min F)" "keeps Q (f32Max F)"
  "keeps Q (f32Copysign F)" "keeps Q f32Eq" "keeps Q f32Ne"
  "keeps Q f32Lt" "keeps Q f32Gt" "keeps Q f32Le"
  "keeps Q f32Ge" "keeps Q (f64Add F)" "keeps Q (f64Sub F)"
  "keeps Q (f64Mul F)" "keeps Q (f64Div F)" "keeps Q (f64Min F)"
  "keeps Q (f64Max F)" "keeps Q f64Copysign" "keeps Q f64Eq"
  "keeps Q f64Ne" "keeps Q f64Lt" "keeps Q f64Gt"
  "keeps Q f64Le" "keeps Q f64Ge" "keeps Q i32Wrapi64"
  "keeps Q (i32TruncSF32 F)" "keeps Q (i32TruncUF32 F)" "keeps Q (i32TruncSF64 F)"
  "keeps Q (i32TruncUF64 F)" "keeps Q i64ExtendSI32" "keeps Q i64ExtendUI32"
  "keeps Q (i64TruncSF32 F)" "keeps Q (i64TruncUF32 F)" "keeps Q (i64TruncSF64 F)"
  "keeps Q (i64TruncUF64 F)" "keeps Q (f32ConvertSI32 F)" "keeps Q (f32ConvertUI32 F)"
  "keeps Q (f32ConvertSI64 F)" "keeps Q (f32ConvertUI64 F)" "keeps Q (f64ConvertSI32 F)"
  "keeps Q (f64ConvertUI32 F)" "keeps Q (f64ConvertSI64 F)" "keeps Q (f64ConvertUI64 F)"
  "keeps Q (f32DemoteF64 F)" "keeps Q (f64PromoteF32 F)" "keeps Q i32ReinterpretF32"
  "keeps Q i64ReinterpretF64" "keeps Q f32ReinterpretI32" "keeps Q f64ReinterpretI64"
  unfolding
    i32Clz_def i32Ctz_def i32Popcnt_def i32Add_def i32Sub_def i32Mul_def i32DivS_def
    i32DivU_def i32RemS_def i32RemU_def i32And_def i32Or_def i32Xor_def i32Shl_def i32ShrU_def
    i32ShrS_def i32Rotl_def i32Rotr_def i32Eqz_def i32Eq_def i32Ne_def i32LtS_def i32LtU_def
    i32LeS_def i32LeU_def i32GtS_def i32GtU_def i32GeS_def i32GeU_def i64Clz_def i64Ctz_def
    i64Popcnt_def i64Add_def i64Sub_def i64Mul_def i64DivS_def i64DivU_def i64RemS_def
    i64RemU_def i64And_def i64Or_def i64Xor_def i64Shl_def i64ShrU_def i64ShrS_def i64Rotl_def
    i64Rotr_def i64Eqz_def i64Eq_def i64Ne_def i64LtS_def i64LtU_def i64LeS_def i64LeU_def
    i64GtS_def i64GtU_def i64GeS_def i64GeU_def f32Abs_def f64Abs_def f32Ceil_def f64Ceil_def
    f32Floor_def f64Floor_def f32Trunc_def f64Trunc_def f32Sqrt_def f64Sqrt_def f32Neg_def
    f64Neg_def f32Nearest_def f64Nearest_def f32Add_def f32Sub_def f32Mul_def f32Div_def
    f32Min_def f32Max_def f32Copysign_def f32Eq_def f32Ne_def f32Lt_def f32Gt_def f32Le_def
    f32Ge_def f64Add_def f64Sub_def f64Mul_def f64Div_def f64Min_def f64Max_def
    f64Copysign_def f64Eq_def f64Ne_def f64Lt_def f64Gt_def f64Le_def f64Ge_def i32Wrapi64_def
    i32TruncSF32_def i32TruncUF32_def i32TruncSF64_def i32TruncUF64_def i64ExtendSI32_def
    i64ExtendUI32_def i64TruncSF32_def i64TruncUF32_def i64TruncSF64_def i64TruncUF64_def
    f32ConvertSI32_def f32ConvertUI32_def f32ConvertSI64_def f32ConvertUI64_def
    f64ConvertSI32_def f64ConvertUI32_def f64ConvertSI64_def f64ConvertUI64_def
    f32DemoteF64_def f64PromoteF32_def i32ReinterpretF32_def i64ReinterpretF64_def
    f32ReinterpretI32_def f64ReinterpretI64_def
  by (intro keeps_intros)+

end

end
