(* ===== verification/VmInstr.thy ===== *)
theory VmInstr
  imports VmNum
begin

text \<open>
  \<^verbatim>\<open>wagon/exec/const.go\<close>, \<^verbatim>\<open>parametric.go\<close>, \<^verbatim>\<open>var.go\<close>, \<^verbatim>\<open>control.go\<close>
  and \<^verbatim>\<open>memory.go\<close>: constants, stack and variable access, and the loads and
  stores of linear memory.
\<close>

section \<open>Constants, stack and control\<close>

definition i32Const_op :: "unit vm" where
  "i32Const_op = bindV fetchUint32 pushUint32"

definition i64Const_op :: "unit vm" where
  "i64Const_op = bindV fetchUint64 pushUint64"

definition f32Const_op :: "unit vm" where
  "f32Const_op = bindV fetchFloat32 pushFloat32"

definition f64Const_op :: "unit vm" where
  "f64Const_op = bindV fetchFloat64 pushFloat64"

definition drop_op :: "unit vm" where
  "drop_op = discardStack 1"

definition selectOp :: "unit vm" where
  "selectOp =
     bindV popUint32 (\<lambda>c. bindV popUint64 (\<lambda>val2. bindV popUint64 (\<lambda>val1.
       if c \<noteq> 0 then pushUint64 val1 else pushUint64 val2)))"

definition unreachable :: "unit vm" where
  "unreachable = panic ErrUnreachable"

definition nop :: "unit vm" where
  "nop = ret ()"

section \<open>Variables\<close>

definition getLocal :: "unit vm" where
  "getLocal =
     bindV fetchUint32 (\<lambda>index. bindV (gets (\<lambda>s. c_locals (ctx s))) (\<lambda>locals.
       if unat index < length locals then pushUint64 (locals ! unat index)
       else panic (GoPanic IndexOutOfRange)))"

definition writeLocal :: "u32 \<Rightarrow> u64 \<Rightarrow> unit vm" where
  "writeLocal index val =
     bindV (gets (\<lambda>s. c_locals (ctx s))) (\<lambda>locals.
       if unat index < length locals
       then modifyCtx (\<lambda>c. c\<lparr>c_locals := (c_locals c)[unat index := val]\<rparr>)
       else panic (GoPanic IndexOutOfRange))"

text \<open>The popped value is evaluated before the index is checked.\<close>

definition setLocal :: "unit vm" where
  "setLocal = bindV fetchUint32 (\<lambda>index. bindV popUint64 (writeLocal index))"

definition teeLocal :: "unit vm" where
  "teeLocal = bindV fetchUint32 (\<lambda>index. bindV topUint64 (writeLocal index))"

definition getGlobal_op :: "unit vm" where
  "getGlobal_op =
     bindV fetchUint32 (\<lambda>index. bindV (gets globals) (\<lambda>gs.
       if unat index < length gs then pushUint64 (gs ! unat index)
       else panic (GoPanic IndexOutOfRange)))"

definition setGlobal :: "unit vm" where
  "setGlobal =
     bindV fetchUint32 (\<lambda>index. bindV popUint64 (\<lambda>val. bindV (gets globals) (\<lambda>gs.
       if unat index < length gs then modifyGlobals (\<lambda>gs. gs[unat index := val])
       else panic (GoPanic IndexOutOfRange))))"

section \<open>Linear memory\<close>

text \<open>The sum of the immediate and the popped address is taken at 32 bits.\<close>

definition fetchBaseAddr :: "nat vm" where
  "fetchBaseAddr =
     bindV fetchUint32 (\<lambda>off. bindV popInt32 (\<lambda>base. ret (unat (off + base))))"

definition inBounds :: "nat \<Rightarrow> bool vm" where
  "inBounds off =
     bindV (peekCode 4) (\<lambda>bs. bindV topUint64 (\<lambda>top.
       bindV (gets memory) (\<lambda>mem.
         ret (unat (le_get bs + ucast top :: u32) + off < length mem))))"

definition checkBounds :: "nat \<Rightarrow> unit vm" where
  "checkBounds off =
     bindV (inBounds off) (\<lambda>ok. if ok then ret () else panic ErrOutOfBoundsMemoryAccess)"

text \<open>
  \<^verbatim>\<open>curMem\<close> is the memory from the fetched address on; the little-endian read or
  write of \<open>n\<close> bytes there panics when fewer are left.
\<close>

definition curMem :: "(nat \<times> byte list) vm" where
  "curMem =
     bindV fetchBaseAddr (\<lambda>addr. bindV (gets memory) (\<lambda>mem.
       if addr > length mem then panic (GoPanic SliceOutOfRange)
       else ret (addr, drop addr mem)))"

definition memBytes :: "nat \<Rightarrow> byte list vm" where
  "memBytes n =
     bindV curMem (\<lambda>(_, mem).
       if length mem < n then panic (GoPanic IndexOutOfRange) else ret (take n mem))"

definition storeBytes :: "nat \<Rightarrow> byte list \<Rightarrow> unit vm" where
  "storeBytes n bs =
     bindV curMem (\<lambda>(addr, mem).
       if length mem < n then panic (GoPanic IndexOutOfRange)
       else modifyMemory (\<lambda>m. go_copy_at addr m bs))"

definition memByte :: "byte vm" where
  "memByte =
     bindV fetchBaseAddr (\<lambda>addr. bindV (gets memory) (\<lambda>mem.
       if addr < length mem then ret (mem ! addr) else panic (GoPanic IndexOutOfRange)))"

definition storeByte :: "byte \<Rightarrow> unit vm" where
  "storeByte b =
     bindV fetchBaseAddr (\<lambda>addr. bindV (gets memory) (\<lambda>mem.
       if addr < length mem then modifyMemory (\<lambda>m. m[addr := b])
       else panic (GoPanic IndexOutOfRange)))"

definition i32Load :: "unit vm" where
  "i32Load =
     thenV (checkBounds 3) (bindV (memBytes 4) (\<lambda>bs. pushUint32 (le_get bs)))"

definition i32Load8s :: "unit vm" where
  "i32Load8s =
     thenV (checkBounds 0) (bindV memByte (\<lambda>b. pushInt32 (scast b)))"

definition i32Load8u :: "unit vm" where
  "i32Load8u =
     thenV (checkBounds 0) (bindV memByte (\<lambda>b. pushUint32 (ucast b)))"

definition i32Load16s :: "unit vm" where
  "i32Load16s =
     thenV (checkBounds 1) (bindV (memBytes 2) (\<lambda>bs. pushInt32 (scast (le_get bs :: u16))))"

definition i32Load16u :: "unit vm" where
  "i32Load16u =
     thenV (checkBounds 1) (bindV (memBytes 2) (\<lambda>bs. pushUint32 (ucast (le_get bs :: u16))))"

definition i64Load :: "unit vm" where
  "i64Load =
     thenV (checkBounds 7) (bindV (memBytes 8) (\<lambda>bs. pushUint64 (le_get bs)))"

definition i64Load8s :: "unit vm" where
  "i64Load8s =
     thenV (checkBounds 0) (bindV memByte (\<lambda>b. pushInt64 (scast b)))"

definition i64Load8u :: "unit vm" where
  "i64Load8u =
     thenV (checkBounds 0) (bindV memByte (\<lambda>b. pushUint64 (ucast b)))"

definition i64Load16s :: "unit vm" where
  "i64Load16s =
     thenV (checkBounds 1) (bindV (memBytes 2) (\<lambda>bs. pushInt64 (scast (le_get bs :: u16))))"

definition i64Load16u :: "unit vm" where
  "i64Load16u =
     thenV (checkBounds 1) (bindV (memBytes 2) (\<lambda>bs. pushUint64 (ucast (le_get bs :: u16))))"

definition i64Load32s :: "unit vm" where
  "i64Load32s =
     thenV (checkBounds 3) (bindV (memBytes 4) (\<lambda>bs. pushInt64 (scast (le_get bs :: u32))))"

definition i64Load32u :: "unit vm" where
  "i64Load32u =
     thenV (checkBounds 3) (bindV (memBytes 4) (\<lambda>bs. pushUint64 (ucast (le_get bs :: u32))))"

definition f32Load :: "unit vm" where
  "f32Load =
     thenV (checkBounds 3) (bindV (memBytes 4) (\<lambda>bs. pushFloat32 (le_get bs)))"

definition f64Load :: "unit vm" where
  "f64Load =
     thenV (checkBounds 7) (bindV (memBytes 8) (\<lambda>bs. pushFloat64 (le_get bs)))"

definition f32Store :: "unit vm" where
  "f32Store =
     bindV popFloat32 (\<lambda>v. thenV (checkBounds 3) (storeBytes 4 (le_put 4 v)))"

definition f64Store :: "unit vm" where
  "f64Store =
     bindV popFloat64 (\<lambda>v. thenV (checkBounds 7) (storeBytes 8 (le_put 8 v)))"

definition i32Store :: "unit vm" where
  "i32Store =
     bindV popUint32 (\<lambda>v. thenV (checkBounds 3) (storeBytes 4 (le_put 4 v)))"

definition i32Store8 :: "unit vm" where
  "i32Store8 =
     bindV popUint32 (\<lambda>v. thenV (checkBounds 0) (storeByte (ucast v)))"

definition i32Store16 :: "unit vm" where
  "i32Store16 =
     bindV popUint32 (\<lambda>v. thenV (checkBounds 1) (storeBytes 2 (le_put 2 (ucast v :: u16))))"

definition i64Store :: "unit vm" where
  "i64Store =
     bindV popUint64 (\<lambda>v. thenV (checkBounds 7) (storeBytes 8 (le_put 8 v)))"

definition i64Store8 :: "unit vm" where
  "i64Store8 =
     bindV popUint64 (\<lambda>v. thenV (checkBounds 0) (storeByte (ucast v)))"

definition i64Store16 :: "unit vm" where
  "i64Store16 =
     bindV popUint64 (\<lambda>v. thenV (checkBounds 1) (storeBytes 2 (le_put 2 (ucast v :: u16))))"

definition i64Store32 :: "unit vm" where
  "i64Store32 =
     bindV popUint64 (\<lambda>v. thenV (checkBounds 3) (storeBytes 4 (le_put 4 (ucast v :: u32))))"

definition currentMemory :: "unit vm" where
  "currentMemory =
     bindV fetchInt8 (\<lambda>_. bindV (gets memory) (\<lambda>mem.
       pushInt32 (of_nat (length mem div wasmPageSize))))"

text \<open>
  \<^verbatim>\<open>make([]byte, n*wasmPageSize)\<close> with the product taken as an \<^verbatim>\<open>int32\<close>: a
  negative one panics.  The product is a multiple of the page size whatever \<open>n\<close> is.
\<close>

definition appendBytes :: "u32 \<Rightarrow> unit vm" where
  "appendBytes n = modifyMemory (\<lambda>m. m @ replicate (unat n) 0)"

definition growMemory :: "unit vm" where
  "growMemory =
     bindV fetchInt8 (\<lambda>_. bindV (gets memory) (\<lambda>mem. bindV popInt32 (\<lambda>n.
       if sint (n * 65536 :: u32) < 0 then panic (GoPanic MakeSliceLen)
       else thenV (appendBytes (n * 65536)) (pushInt32 (of_nat (length mem div wasmPageSize))))))"

section \<open>Frames\<close>

lemma unat_page_product: "\<exists>k. unat (n * 65536 :: u32) = k * 65536"
proof -
  have "unat (n * 65536 :: u32) = (unat n * 65536) mod 2 ^ 32"
    by (simp add: unat_word_ariths)
  also have "\<dots> = (unat n * 65536) mod (65536 * 65536)" by simp
  also have "\<dots> = unat n mod 65536 * 65536" by (simp add: mult_mod_left)
  finally show ?thesis by blast
qed

context vm_frame
begin

lemma keeps_access [keeps_intros]:
  "keeps Q i32Const_op" "keeps Q i64Const_op" "keeps Q f32Const_op" "keeps Q f64Const_op"
  "keeps Q drop_op" "keeps Q selectOp" "keeps Q unreachable" "keeps Q nop" "keeps Q getLocal"
  "keeps Q (writeLocal i v)" "keeps Q setLocal" "keeps Q teeLocal" "keeps Q getGlobal_op"
  "keeps Q setGlobal" "keeps Q fetchBaseAddr" "keeps Q (inBounds k)" "keeps Q (checkBounds k)"
  "keeps Q curMem" "keeps Q memByte" "keeps Q (storeByte b)"
  unfolding i32Const_op_def i64Const_op_def f32Const_op_def f64Const_op_def drop_op_def
    selectOp_def unreachable_def nop_def getLocal_def writeLocal_def setLocal_def teeLocal_def
    getGlobal_op_def setGlobal_def fetchBaseAddr_def inBounds_def checkBounds_def curMem_def
    memByte_def storeByte_def
  by (intro keeps_intros | simp)+

lemma keeps_mem [keeps_intros]: "keeps Q (memBytes n)" "keeps Q (storeBytes n bs)"
  unfolding memBytes_def storeBytes_def case_prod_unfold
  by (intro keeps_intros | simp)+

lemma keeps_memory_instr [keeps_intros]:
  "keeps Q i32Load" "keeps Q i32Load8s" "keeps Q i32Load8u" "keeps Q i32Load16s"
  "keeps Q i32Load16u" "keeps Q i64Load" "keeps Q i64Load8s" "keeps Q i64Load8u"
  "keeps Q i64Load16s" "keeps Q i64Load16u" "keeps Q i64Load32s" "keeps Q i64Load32u"
  "keeps Q f32Load" "keeps Q f64Load" "keeps Q f32Store" "keeps Q f64Store"
  "keeps Q i32Store" "keeps Q i32Store8" "keeps Q i32Store16" "keeps Q i64Store"
  "keeps Q i64Store8" "keeps Q i64Store16" "keeps Q i64Store32" "keeps Q currentMemory"
  unfolding
    i32Load_def i32Load8s_def i32Load8u_def i32Load16s_def i32Load16u_def i64Load_def
    i64Load8s_def i64Load8u_def i64Load16s_def i64Load16u_def i64Load32s_def i64Load32u_def
    f32Load_def f64Load_def f32Store_def f64Store_def i32Store_def i32Store8_def
    i32Store16_def i64Store_def i64Store8_def i64Store16_def i64Store32_def currentMemory_def
  by (intro keeps_intros)+

lemma keeps_growMemory [keeps_intros]: "keeps Q growMemory"
proof -
  have "keeps Q (appendBytes (n * 65536))" for n
  proof -
    obtain k where k: "unat (n * 65536 :: u32) = k * 65536" using unat_page_product by blast
    show ?thesis unfolding appendBytes_def k by (rule keeps_grow)
  qed
  note grow = this
  show ?thesis unfolding growMemory_def by (intro grow keeps_intros)
qed

end

end
