(* ===== verification/Operators.thy ===== *)
theory Operators
  imports WasmTypes
begin

text \<open>
  \<^verbatim>\<open>wagon/wasm/operators\<close>: the table of WebAssembly operators.  Each opcode is
  a byte constant; each file's \<^verbatim>\<open>var\<close> block registers its operators with
  \<^verbatim>\<open>newOp\<close>, \<^verbatim>\<open>newPolymorphicOp\<close> or \<^verbatim>\<open>newConversionOp\<close>, which panic on an
  opcode that is taken.  \<open>New\<close> looks an opcode up.
\<close>

section \<open>Opcodes\<close>


abbreviation Call :: byte where "Call \<equiv> 0x10"
abbreviation CallIndirect :: byte where "CallIndirect \<equiv> 0x11"
abbreviation I32Eqz :: byte where "I32Eqz \<equiv> 0x45"
abbreviation I32Eq :: byte where "I32Eq \<equiv> 0x46"
abbreviation I32Ne :: byte where "I32Ne \<equiv> 0x47"
abbreviation I32LtS :: byte where "I32LtS \<equiv> 0x48"
abbreviation I32LtU :: byte where "I32LtU \<equiv> 0x49"
abbreviation I32GtS :: byte where "I32GtS \<equiv> 0x4a"
abbreviation I32GtU :: byte where "I32GtU \<equiv> 0x4b"
abbreviation I32LeS :: byte where "I32LeS \<equiv> 0x4c"
abbreviation I32LeU :: byte where "I32LeU \<equiv> 0x4d"
abbreviation I32GeS :: byte where "I32GeS \<equiv> 0x4e"
abbreviation I32GeU :: byte where "I32GeU \<equiv> 0x4f"
abbreviation I64Eqz :: byte where "I64Eqz \<equiv> 0x50"
abbreviation I64Eq :: byte where "I64Eq \<equiv> 0x51"
abbreviation I64Ne :: byte where "I64Ne \<equiv> 0x52"
abbreviation I64LtS :: byte where "I64LtS \<equiv> 0x53"
abbreviation I64LtU :: byte where "I64LtU \<equiv> 0x54"
abbreviation I64GtS :: byte where "I64GtS \<equiv> 0x55"
abbreviation I64GtU :: byte where "I64GtU \<equiv> 0x56"
abbreviation I64LeS :: byte where "I64LeS \<equiv> 0x57"
abbreviation I64LeU :: byte where "I64LeU \<equiv> 0x58"
abbreviation I64GeS :: byte where "I64GeS \<equiv> 0x59"
abbreviation I64GeU :: byte where "I64GeU \<equiv> 0x5a"
abbreviation F32Eq :: byte where "F32Eq \<equiv> 0x5b"
abbreviation F32Ne :: byte where "F32Ne \<equiv> 0x5c"
abbreviation F32Lt :: byte where "F32Lt \<equiv> 0x5d"
abbreviation F32Gt :: byte where "F32Gt \<equiv> 0x5e"
abbreviation F32Le :: byte where "F32Le \<equiv> 0x5f"
abbreviation F32Ge :: byte where "F32Ge \<equiv> 0x60"
abbreviation F64Eq :: byte where "F64Eq \<equiv> 0x61"
abbreviation F64Ne :: byte where "F64Ne \<equiv> 0x62"
abbreviation F64Lt :: byte where "F64Lt \<equiv> 0x63"
abbreviation F64Gt :: byte where "F64Gt \<equiv> 0x64"
abbreviation F64Le :: byte where "F64Le \<equiv> 0x65"
abbreviation F64Ge :: byte where "F64Ge \<equiv> 0x66"
abbreviation I32Const :: byte where "I32Const \<equiv> 0x41"
abbreviation I64Const :: byte where "I64Const \<equiv> 0x42"
abbreviation F32Const :: byte where "F32Const \<equiv> 0x43"
abbreviation F64Const :: byte where "F64Const \<equiv> 0x44"
abbreviation Unreachable :: byte where "Unreachable \<equiv> 0x00"
abbreviation Nop :: byte where "Nop \<equiv> 0x01"
abbreviation Block :: byte where "Block \<equiv> 0x02"
abbreviation Loop :: byte where "Loop \<equiv> 0x03"
abbreviation If :: byte where "If \<equiv> 0x04"
abbreviation Else :: byte where "Else \<equiv> 0x05"
abbreviation End :: byte where "End \<equiv> 0x0b"
abbreviation Br :: byte where "Br \<equiv> 0x0c"
abbreviation BrIf :: byte where "BrIf \<equiv> 0x0d"
abbreviation BrTable :: byte where "BrTable \<equiv> 0x0e"
abbreviation Return :: byte where "Return \<equiv> 0x0f"
abbreviation I32WrapI64 :: byte where "I32WrapI64 \<equiv> 0xa7"
abbreviation I32TruncSF32 :: byte where "I32TruncSF32 \<equiv> 0xa8"
abbreviation I32TruncUF32 :: byte where "I32TruncUF32 \<equiv> 0xa9"
abbreviation I32TruncSF64 :: byte where "I32TruncSF64 \<equiv> 0xaa"
abbreviation I32TruncUF64 :: byte where "I32TruncUF64 \<equiv> 0xab"
abbreviation I64ExtendSI32 :: byte where "I64ExtendSI32 \<equiv> 0xac"
abbreviation I64ExtendUI32 :: byte where "I64ExtendUI32 \<equiv> 0xad"
abbreviation I64TruncSF32 :: byte where "I64TruncSF32 \<equiv> 0xae"
abbreviation I64TruncUF32 :: byte where "I64TruncUF32 \<equiv> 0xaf"
abbreviation I64TruncSF64 :: byte where "I64TruncSF64 \<equiv> 0xb0"
abbreviation I64TruncUF64 :: byte where "I64TruncUF64 \<equiv> 0xb1"
abbreviation F32ConvertSI32 :: byte where "F32ConvertSI32 \<equiv> 0xb2"
abbreviation F32ConvertUI32 :: byte where "F32ConvertUI32 \<equiv> 0xb3"
abbreviation F32ConvertSI64 :: byte where "F32ConvertSI64 \<equiv> 0xb4"
abbreviation F32ConvertUI64 :: byte where "F32ConvertUI64 \<equiv> 0xb5"
abbreviation F32DemoteF64 :: byte where "F32DemoteF64 \<equiv> 0xb6"
abbreviation F64ConvertSI32 :: byte where "F64ConvertSI32 \<equiv> 0xb7"
abbreviation F64ConvertUI32 :: byte where "F64ConvertUI32 \<equiv> 0xb8"
abbreviation F64ConvertSI64 :: byte where "F64ConvertSI64 \<equiv> 0xb9"
abbreviation F64ConvertUI64 :: byte where "F64ConvertUI64 \<equiv> 0xba"
abbreviation F64PromoteF32 :: byte where "F64PromoteF32 \<equiv> 0xbb"
abbreviation I32Load :: byte where "I32Load \<equiv> 0x28"
abbreviation I64Load :: byte where "I64Load \<equiv> 0x29"
abbreviation F32Load :: byte where "F32Load \<equiv> 0x2a"
abbreviation F64Load :: byte where "F64Load \<equiv> 0x2b"
abbreviation I32Load8s :: byte where "I32Load8s \<equiv> 0x2c"
abbreviation I32Load8u :: byte where "I32Load8u \<equiv> 0x2d"
abbreviation I32Load16s :: byte where "I32Load16s \<equiv> 0x2e"
abbreviation I32Load16u :: byte where "I32Load16u \<equiv> 0x2f"
abbreviation I64Load8s :: byte where "I64Load8s \<equiv> 0x30"
abbreviation I64Load8u :: byte where "I64Load8u \<equiv> 0x31"
abbreviation I64Load16s :: byte where "I64Load16s \<equiv> 0x32"
abbreviation I64Load16u :: byte where "I64Load16u \<equiv> 0x33"
abbreviation I64Load32s :: byte where "I64Load32s \<equiv> 0x34"
abbreviation I64Load32u :: byte where "I64Load32u \<equiv> 0x35"
abbreviation I32Store :: byte where "I32Store \<equiv> 0x36"
abbreviation I64Store :: byte where "I64Store \<equiv> 0x37"
abbreviation F32Store :: byte where "F32Store \<equiv> 0x38"
abbreviation F64Store :: byte where "F64Store \<equiv> 0x39"
abbreviation I32Store8 :: byte where "I32Store8 \<equiv> 0x3a"
abbreviation I32Store16 :: byte where "I32Store16 \<equiv> 0x3b"
abbreviation I64Store8 :: byte where "I64Store8 \<equiv> 0x3c"
abbreviation I64Store16 :: byte where "I64Store16 \<equiv> 0x3d"
abbreviation I64Store32 :: byte where "I64Store32 \<equiv> 0x3e"
abbreviation CurrentMemory :: byte where "CurrentMemory \<equiv> 0x3f"
abbreviation GrowMemory :: byte where "GrowMemory \<equiv> 0x40"
abbreviation I32Clz :: byte where "I32Clz \<equiv> 0x67"
abbreviation I32Ctz :: byte where "I32Ctz \<equiv> 0x68"
abbreviation I32Popcnt :: byte where "I32Popcnt \<equiv> 0x69"
abbreviation I32Add :: byte where "I32Add \<equiv> 0x6a"
abbreviation I32Sub :: byte where "I32Sub \<equiv> 0x6b"
abbreviation I32Mul :: byte where "I32Mul \<equiv> 0x6c"
abbreviation I32DivS :: byte where "I32DivS \<equiv> 0x6d"
abbreviation I32DivU :: byte where "I32DivU \<equiv> 0x6e"
abbreviation I32RemS :: byte where "I32RemS \<equiv> 0x6f"
abbreviation I32RemU :: byte where "I32RemU \<equiv> 0x70"
abbreviation I32And :: byte where "I32And \<equiv> 0x71"
abbreviation I32Or :: byte where "I32Or \<equiv> 0x72"
abbreviation I32Xor :: byte where "I32Xor \<equiv> 0x73"
abbreviation I32Shl :: byte where "I32Shl \<equiv> 0x74"
abbreviation I32ShrS :: byte where "I32ShrS \<equiv> 0x75"
abbreviation I32ShrU :: byte where "I32ShrU \<equiv> 0x76"
abbreviation I32Rotl :: byte where "I32Rotl \<equiv> 0x77"
abbreviation I32Rotr :: byte where "I32Rotr \<equiv> 0x78"
abbreviation I64Clz :: byte where "I64Clz \<equiv> 0x79"
abbreviation I64Ctz :: byte where "I64Ctz \<equiv> 0x7a"
abbreviation I64Popcnt :: byte where "I64Popcnt \<equiv> 0x7b"
abbreviation I64Add :: byte where "I64Add \<equiv> 0x7c"
abbreviation I64Sub :: byte where "I64Sub \<equiv> 0x7d"
abbreviation I64Mul :: byte where "I64Mul \<equiv> 0x7e"
abbreviation I64DivS :: byte where "I64DivS \<equiv> 0x7f"
abbreviation I64DivU :: byte where "I64DivU \<equiv> 0x80"
abbreviation I64RemS :: byte where "I64RemS \<equiv> 0x81"
abbreviation I64RemU :: byte where "I64RemU \<equiv> 0x82"
abbreviation I64And :: byte where "I64And \<equiv> 0x83"
abbreviation I64Or :: byte where "I64Or \<equiv> 0x84"
abbreviation I64Xor :: byte where "I64Xor \<equiv> 0x85"
abbreviation I64Shl :: byte where "I64Shl \<equiv> 0x86"
abbreviation I64ShrS :: byte where "I64ShrS \<equiv> 0x87"
abbreviation I64ShrU :: byte where "I64ShrU \<equiv> 0x88"
abbreviation I64Rotl :: byte where "I64Rotl \<equiv> 0x89"
abbreviation I64Rotr :: byte where "I64Rotr \<equiv> 0x8a"
abbreviation F32Abs :: byte where "F32Abs \<equiv> 0x8b"
abbreviation F32Neg :: byte where "F32Neg \<equiv> 0x8c"
abbreviation F32Ceil :: byte where "F32Ceil \<equiv> 0x8d"
abbreviation F32Floor :: byte where "F32Floor \<equiv> 0x8e"
abbreviation F32Trunc :: byte where "F32Trunc \<equiv> 0x8f"
abbreviation F32Nearest :: byte where "F32Nearest \<equiv> 0x90"
abbreviation F32Sqrt :: byte where "F32Sqrt \<equiv> 0x91"
abbreviation F32Add :: byte where "F32Add \<equiv> 0x92"
abbreviation F32Sub :: byte where "F32Sub \<equiv> 0x93"
abbreviation F32Mul :: byte where "F32Mul \<equiv> 0x94"
abbreviation F32Div :: byte where "F32Div \<equiv> 0x95"
abbreviation F32Min :: byte where "F32Min \<equiv> 0x96"
abbreviation F32Max :: byte where "F32Max \<equiv> 0x97"
abbreviation F32Copysign :: byte where "F32Copysign \<equiv> 0x98"
abbreviation F64Abs :: byte where "F64Abs \<equiv> 0x99"
abbreviation F64Neg :: byte where "F64Neg \<equiv> 0x9a"
abbreviation F64Ceil :: byte where "F64Ceil \<equiv> 0x9b"
abbreviation F64Floor :: byte where "F64Floor \<equiv> 0x9c"
abbreviation F64Trunc :: byte where "F64Trunc \<equiv> 0x9d"
abbreviation F64Nearest :: byte where "F64Nearest \<equiv> 0x9e"
abbreviation F64Sqrt :: byte where "F64Sqrt \<equiv> 0x9f"
abbreviation F64Add :: byte where "F64Add \<equiv> 0xa0"
abbreviation F64Sub :: byte where "F64Sub \<equiv> 0xa1"
abbreviation F64Mul :: byte where "F64Mul \<equiv> 0xa2"
abbreviation F64Div :: byte where "F64Div \<equiv> 0xa3"
abbreviation F64Min :: byte where "F64Min \<equiv> 0xa4"
abbreviation F64Max :: byte where "F64Max \<equiv> 0xa5"
abbreviation F64Copysign :: byte where "F64Copysign \<equiv> 0xa6"
abbreviation Drop :: byte where "Drop \<equiv> 0x1a"
abbreviation Select :: byte where "Select \<equiv> 0x1b"
abbreviation I32ReinterpretF32 :: byte where "I32ReinterpretF32 \<equiv> 0xbc"
abbreviation I64ReinterpretF64 :: byte where "I64ReinterpretF64 \<equiv> 0xbd"
abbreviation F32ReinterpretI32 :: byte where "F32ReinterpretI32 \<equiv> 0xbe"
abbreviation F64ReinterpretI64 :: byte where "F64ReinterpretI64 \<equiv> 0xbf"
abbreviation GetLocal :: byte where "GetLocal \<equiv> 0x20"
abbreviation SetLocal :: byte where "SetLocal \<equiv> 0x21"
abbreviation TeeLocal :: byte where "TeeLocal \<equiv> 0x22"
abbreviation GetGlobal :: byte where "GetGlobal \<equiv> 0x23"
abbreviation SetGlobal :: byte where "SetGlobal \<equiv> 0x24"

section \<open>Operators\<close>

record Op =
  op_Code :: byte
  op_Name :: string
  op_Polymorphic :: bool
  op_Args :: "ValueType list"
  op_Returns :: ValueType

abbreviation noReturn :: ValueType where "noReturn \<equiv> BlockTypeEmpty"

text \<open>The array of operators, empty entries being those without a name.\<close>

type_synonym op_table = "byte \<rightharpoonup> Op"

definition IsValid :: "Op \<Rightarrow> bool" where
  "IsValid op \<longleftrightarrow> op_Name op \<noteq> []"

datatype operator_panic = AlreadyAssigned byte | NotAConversion string | InvalidValueTypeString string

definition newOp ::
  "byte \<Rightarrow> string \<Rightarrow> ValueType list \<Rightarrow> ValueType \<Rightarrow> op_table \<Rightarrow> operator_panic + op_table" where
  "newOp code name args returns ops =
     (if ops code \<noteq> None then Inl (AlreadyAssigned code)
      else Inr (ops(code \<mapsto> \<lparr>op_Code = code, op_Name = name, op_Polymorphic = False,
                            op_Args = args, op_Returns = returns\<rparr>)))"

definition newPolymorphicOp :: "byte \<Rightarrow> string \<Rightarrow> op_table \<Rightarrow> operator_panic + op_table" where
  "newPolymorphicOp code name ops =
     (if ops code \<noteq> None then Inl (AlreadyAssigned code)
      else Inr (ops(code \<mapsto> \<lparr>op_Code = code, op_Name = name, op_Polymorphic = True,
                            op_Args = [], op_Returns = 0\<rparr>)))"

text \<open>
  The names of conversion operators have the form \<open>result.verb/param\<close>; the regular
  expression \<^verbatim>\<open>(.+)\.(?:[a-z]|\_)+\/(.+)\<close> takes them apart.
\<close>

definition valType :: "string \<Rightarrow> operator_panic + ValueType" where
  "valType s =
     (if s = ''i32'' then Inr ValueTypeI32
      else if s = ''i64'' then Inr ValueTypeI64
      else if s = ''f32'' then Inr ValueTypeF32
      else if s = ''f64'' then Inr ValueTypeF64
      else Inl (InvalidValueTypeString s))"

definition is_verb_char :: "char \<Rightarrow> bool" where
  "is_verb_char c \<longleftrightarrow>
     ((of_char (CHR ''a'') :: nat) \<le> of_char c \<and> (of_char c :: nat) \<le> of_char (CHR ''z''))
     \<or> c = CHR ''_''"

definition match_conversion :: "string \<Rightarrow> (string \<times> string) option" where
  "match_conversion name =
     (let ret = takeWhile (\<lambda>c. c \<noteq> CHR ''.'') name;
          rest = drop (length ret + 1) name;
          verb = takeWhile is_verb_char rest;
          param = drop (length verb + 1) rest
      in if ret \<noteq> [] \<and> verb \<noteq> [] \<and> param \<noteq> [] \<and> rest ! length verb = CHR ''/''
         then Some (ret, param) else None)"

definition newConversionOp :: "byte \<Rightarrow> string \<Rightarrow> op_table \<Rightarrow> operator_panic + op_table" where
  "newConversionOp code name ops =
     (case match_conversion name of
        None \<Rightarrow> Inl (NotAConversion name)
      | Some (m1, m2) \<Rightarrow>
          bindE (valType m1) (\<lambda>returns.
          bindE (valType m2) (\<lambda>param. newOp code name [param] returns ops)))"

section \<open>The registrations, file by file\<close>

datatype registration =
    RegOp byte string "ValueType list" ValueType
  | RegPolymorphic byte string
  | RegConversion byte string

fun register :: "registration \<Rightarrow> op_table \<Rightarrow> operator_panic + op_table" where
  "register (RegOp code name args returns) = newOp code name args returns"
| "register (RegPolymorphic code name) = newPolymorphicOp code name"
| "register (RegConversion code name) = newConversionOp code name"

definition ops_call :: "registration list" where
  "ops_call = [
    RegPolymorphic Call ''call'',
    RegPolymorphic CallIndirect ''call_indirect'']"

definition ops_comp :: "registration list" where
  "ops_comp = [
    RegOp I32Eqz ''i32.eqz'' [ValueTypeI32] ValueTypeI32,
    RegOp I32Eq ''i32.eq'' [ValueTypeI32, ValueTypeI32] ValueTypeI32,
    RegOp I32Ne ''i32.ne'' [ValueTypeI32, ValueTypeI32] ValueTypeI32,
    RegOp I32LtS ''i32.lt_s'' [ValueTypeI32, ValueTypeI32] ValueTypeI32,
    RegOp I32LtU ''i32.lt_u'' [ValueTypeI32, ValueTypeI32] ValueTypeI32,
    RegOp I32GtS ''i32.gt_s'' [ValueTypeI32, ValueTypeI32] ValueTypeI32,
    RegOp I32GtU ''i32.gt_u'' [ValueTypeI32, ValueTypeI32] ValueTypeI32,
    RegOp I32LeS ''i32.le_s'' [ValueTypeI32, ValueTypeI32] ValueTypeI32,
    RegOp I32LeU ''i32.le_u'' [ValueTypeI32, ValueTypeI32] ValueTypeI32,
    RegOp I32GeS ''i32.ge_s'' [ValueTypeI32, ValueTypeI32] ValueTypeI32,
    RegOp I32GeU ''i32.ge_u'' [ValueTypeI32, ValueTypeI32] ValueTypeI32,
    RegOp I64Eqz ''i64.eqz'' [ValueTypeI64] ValueTypeI32,
    RegOp I64Eq ''i64.eq'' [ValueTypeI64, ValueTypeI64] ValueTypeI32,
    RegOp I64Ne ''i64.ne'' [ValueTypeI64, ValueTypeI64] ValueTypeI32,
    RegOp I64LtS ''i64.lt_s'' [ValueTypeI64, ValueTypeI64] ValueTypeI32,
    RegOp I64LtU ''i64.lt_u'' [ValueTypeI64, ValueTypeI64] ValueTypeI32,
    RegOp I64GtS ''i64.gt_s'' [ValueTypeI64, ValueTypeI64] ValueTypeI32,
    RegOp I64GtU ''i64.gt_u'' [ValueTypeI64, ValueTypeI64] ValueTypeI32,
    RegOp I64LeS ''i64.le_s'' [ValueTypeI64, ValueTypeI64] ValueTypeI32,
    RegOp I64LeU ''i64.le_u'' [ValueTypeI64, ValueTypeI64] ValueTypeI32,
    RegOp I64GeS ''i64.ge_s'' [ValueTypeI64, ValueTypeI64] ValueTypeI32,
    RegOp I64GeU ''i64.ge_u'' [ValueTypeI64, ValueTypeI64] ValueTypeI32,
    RegOp F32Eq ''f32.eq'' [ValueTypeF32, ValueTypeF32] ValueTypeI32,
    RegOp F32Ne ''f32.ne'' [ValueTypeF32, ValueTypeF32] ValueTypeI32,
    RegOp F32Lt ''f32.lt'' [ValueTypeF32, ValueTypeF32] ValueTypeI32,
    RegOp F32Gt ''f32.gt'' [ValueTypeF32, ValueTypeF32] ValueTypeI32,
    RegOp F32Le ''f32.le'' [ValueTypeF32, ValueTypeF32] ValueTypeI32,
    RegOp F32Ge ''f32.ge'' [ValueTypeF32, ValueTypeF32] ValueTypeI32,
    RegOp F64Eq ''f64.eq'' [ValueTypeF64, ValueTypeF64] ValueTypeI32,
    RegOp F64Ne ''f64.ne'' [ValueTypeF64, ValueTypeF64] ValueTypeI32,
    RegOp F64Lt ''f64.lt'' [ValueTypeF64, ValueTypeF64] ValueTypeI32,
    RegOp F64Gt ''f64.gt'' [ValueTypeF64, ValueTypeF64] ValueTypeI32,
    RegOp F64Le ''f64.le'' [ValueTypeF64, ValueTypeF64] ValueTypeI32,
    RegOp F64Ge ''f64.ge'' [ValueTypeF64, ValueTypeF64] ValueTypeI32]"

definition ops_const :: "registration list" where
  "ops_const = [
    RegOp I32Const ''i32.const'' [] ValueTypeI32,
    RegOp I64Const ''i64.const'' [] ValueTypeI64,
    RegOp F32Const ''f32.const'' [] ValueTypeF32,
    RegOp F64Const ''f64.const'' [] ValueTypeF64]"

definition ops_control :: "registration list" where
  "ops_control = [
    RegOp Unreachable ''unreachable'' [] noReturn,
    RegOp Nop ''nop'' [] noReturn,
    RegOp Block ''block'' [] noReturn,
    RegOp Loop ''loop'' [] noReturn,
    RegOp If ''if'' [ValueTypeI32] noReturn,
    RegOp Else ''else'' [] noReturn,
    RegOp End ''end'' [] noReturn,
    RegPolymorphic Br ''br'',
    RegOp BrIf ''br_if'' [ValueTypeI32] noReturn,
    RegPolymorphic BrTable ''br_table'',
    RegPolymorphic Return ''return'']"

definition ops_conv :: "registration list" where
  "ops_conv = [
    RegConversion I32WrapI64 ''i32.wrap/i64'',
    RegConversion I32TruncSF32 ''i32.trunc_s/f32'',
    RegConversion I32TruncUF32 ''i32.trunc_u/f32'',
    RegConversion I32TruncSF64 ''i32.trunc_s/f64'',
    RegConversion I32TruncUF64 ''i32.trunc_u/f64'',
    RegConversion I64ExtendSI32 ''i64.extend_s/i32'',
    RegConversion I64ExtendUI32 ''i64.extend_u/i32'',
    RegConversion I64TruncSF32 ''i64.trunc_s/f32'',
    RegConversion I64TruncUF32 ''i64.trunc_u/f32'',
    RegConversion I64TruncSF64 ''i64.trunc_s/f64'',
    RegConversion I64TruncUF64 ''i64.trunc_u/f64'',
    RegConversion F32ConvertSI32 ''f32.convert_s/i32'',
    RegConversion F32ConvertUI32 ''f32.convert_u/i32'',
    RegConversion F32ConvertSI64 ''f32.convert_s/i64'',
    RegConversion F32ConvertUI64 ''f32.convert_u/i64'',
    RegConversion F32DemoteF64 ''f32.demote/f64'',
    RegConversion F64ConvertSI32 ''f64.convert_s/i32'',
    RegConversion F64ConvertUI32 ''f64.convert_u/i32'',
    RegConversion F64ConvertSI64 ''f64.convert_s/i64'',
    RegConversion F64ConvertUI64 ''f64.convert_u/i64'',
    RegConversion F64PromoteF32 ''f64.promote/f32'']"

definition ops_memory :: "registration list" where
  "ops_memory = [
    RegOp I32Load ''i32.load'' [ValueTypeI32] ValueTypeI32,
    RegOp I64Load ''i64.load'' [ValueTypeI32] ValueTypeI64,
    RegOp F32Load ''f32.load'' [ValueTypeI32] ValueTypeF32,
    RegOp F64Load ''f64.load'' [ValueTypeI32] ValueTypeF64,
    RegOp I32Load8s ''i32.load8_s'' [ValueTypeI32] ValueTypeI32,
    RegOp I32Load8u ''i32.load8_u'' [ValueTypeI32] ValueTypeI32,
    RegOp I32Load16s ''i32.load16_s'' [ValueTypeI32] ValueTypeI32,
    RegOp I32Load16u ''i32.load16_u'' [ValueTypeI32] ValueTypeI32,
    RegOp I64Load8s ''i64.load8_s'' [ValueTypeI32] ValueTypeI64,
    RegOp I64Load8u ''i64.load8_u'' [ValueTypeI32] ValueTypeI64,
    RegOp I64Load16s ''i64.load16_s'' [ValueTypeI32] ValueTypeI64,
    RegOp I64Load16u ''i64.load16_u'' [ValueTypeI32] ValueTypeI64,
    RegOp I64Load32s ''i64.load32_s'' [ValueTypeI32] ValueTypeI64,
    RegOp I64Load32u ''i64.load32_u'' [ValueTypeI32] ValueTypeI64,
    RegOp I32Store ''i32.store'' [ValueTypeI32, ValueTypeI32] noReturn,
    RegOp I64Store ''i64.store'' [ValueTypeI64, ValueTypeI32] noReturn,
    RegOp F32Store ''f32.store'' [ValueTypeF32, ValueTypeI32] noReturn,
    RegOp F64Store ''f64.store'' [ValueTypeF64, ValueTypeI32] noReturn,
    RegOp I32Store8 ''i32.store8'' [ValueTypeI32, ValueTypeI32] noReturn,
    RegOp I32Store16 ''i32.store16'' [ValueTypeI32, ValueTypeI32] noReturn,
    RegOp I64Store8 ''i64.store8'' [ValueTypeI64, ValueTypeI32] noReturn,
    RegOp I64Store16 ''i64.store16'' [ValueTypeI64, ValueTypeI32] noReturn,
    RegOp I64Store32 ''i64.store32'' [ValueTypeI64, ValueTypeI32] noReturn,
    RegOp CurrentMemory ''current_memory'' [] ValueTypeI32,
    RegOp GrowMemory ''grow_memory'' [ValueTypeI32] ValueTypeI32]"

definition ops_num :: "registration list" where
  "ops_num = [
    RegOp I32Clz ''i32.clz'' [ValueTypeI32] ValueTypeI32,
    RegOp I32Ctz ''i32.ctz'' [ValueTypeI32] ValueTypeI32,
    RegOp I32Popcnt ''i32.popcnt'' [ValueTypeI32] ValueTypeI32,
    RegOp I32Add ''i32.add'' [ValueTypeI32, ValueTypeI32] ValueTypeI32,
    RegOp I32Sub ''i32.sub'' [ValueTypeI32, ValueTypeI32] ValueTypeI32,
    RegOp I32Mul ''i32.mul'' [ValueTypeI32, ValueTypeI32] ValueTypeI32,
    RegOp I32DivS ''i32.div_s'' [ValueTypeI32, ValueTypeI32] ValueTypeI32,
    RegOp I32DivU ''i32.div_u'' [ValueTypeI32, ValueTypeI32] ValueTypeI32,
    RegOp I32RemS ''i32.rem_s'' [ValueTypeI32, ValueTypeI32] ValueTypeI32,
    RegOp I32RemU ''i32.rem_u'' [ValueTypeI32, ValueTypeI32] ValueTypeI32,
    RegOp I32And ''i32.and'' [ValueTypeI32, ValueTypeI32] ValueTypeI32,
    RegOp I32Or ''i32.or'' [ValueTypeI32, ValueTypeI32] ValueTypeI32,
    RegOp I32Xor ''i32.xor'' [ValueTypeI32, ValueTypeI32] ValueTypeI32,
    RegOp I32Shl ''i32.shl'' [ValueTypeI32, ValueTypeI32] ValueTypeI32,
    RegOp I32ShrS ''i32.shr_s'' [ValueTypeI32, ValueTypeI32] ValueTypeI32,
    RegOp I32ShrU ''i32.shr_u'' [ValueTypeI32, ValueTypeI32] ValueTypeI32,
    RegOp I32Rotl ''i32.rotl'' [ValueTypeI32, ValueTypeI32] ValueTypeI32,
    RegOp I32Rotr ''i32.rotr'' [ValueTypeI32, ValueTypeI32] ValueTypeI32,
    RegOp I64Clz ''i64.clz'' [ValueTypeI64] ValueTypeI64,
    RegOp I64Ctz ''i64.ctz'' [ValueTypeI64] ValueTypeI64,
    RegOp I64Popcnt ''i64.popcnt'' [ValueTypeI64] ValueTypeI64,
    RegOp I64Add ''i64.add'' [ValueTypeI64, ValueTypeI64] ValueTypeI64,
    RegOp I64Sub ''i64.sub'' [ValueTypeI64, ValueTypeI64] ValueTypeI64,
    RegOp I64Mul ''i64.mul'' [ValueTypeI64, ValueTypeI64] ValueTypeI64,
    RegOp I64DivS ''i64.div_s'' [ValueTypeI64, ValueTypeI64] ValueTypeI64,
    RegOp I64DivU ''i64.div_u'' [ValueTypeI64, ValueTypeI64] ValueTypeI64,
    RegOp I64RemS ''i64.div_u'' [ValueTypeI64, ValueTypeI64] ValueTypeI64,
    RegOp I64RemU ''i64.rem_u'' [ValueTypeI64, ValueTypeI64] ValueTypeI64,
    RegOp I64And ''i64.and'' [ValueTypeI64, ValueTypeI64] ValueTypeI64,
    RegOp I64Or ''i64.or'' [ValueTypeI64, ValueTypeI64] ValueTypeI64,
    RegOp I64Xor ''i64.xor'' [ValueTypeI64, ValueTypeI64] ValueTypeI64,
    RegOp I64Shl ''i64.shl'' [ValueTypeI64, ValueTypeI64] ValueTypeI64,
    RegOp I64ShrS ''i64.shr_s'' [ValueTypeI64, ValueTypeI64] ValueTypeI64,
    RegOp I64ShrU ''i64.shr_u'' [ValueTypeI64, ValueTypeI64] ValueTypeI64,
    RegOp I64Rotl ''i64.rotl'' [ValueTypeI64, ValueTypeI64] ValueTypeI64,
    RegOp I64Rotr ''i64.rotr'' [ValueTypeI64, ValueTypeI64] ValueTypeI64,
    RegOp F32Abs ''f32.abs'' [ValueTypeF32] ValueTypeF32,
    RegOp F32Neg ''f32.neg'' [ValueTypeF32] ValueTypeF32,
    RegOp F32Ceil ''f32.ceil'' [ValueTypeF32] ValueTypeF32,
    RegOp F32Floor ''f32.floor'' [ValueTypeF32] ValueTypeF32,
    RegOp F32Trunc ''f32.trunc'' [ValueTypeF32] ValueTypeF32,
    RegOp F32Nearest ''f32.nearest'' [ValueTypeF32] ValueTypeF32,
    RegOp F32Sqrt ''f32.sqrt'' [ValueTypeF32] ValueTypeF32,
    RegOp F32Add ''f32.add'' [ValueTypeF32, ValueTypeF32] ValueTypeF32,
    RegOp F32Sub ''f32.sub'' [ValueTypeF32, ValueTypeF32] ValueTypeF32,
    RegOp F32Mul ''f32.mul'' [ValueTypeF32, ValueTypeF32] ValueTypeF32,
    RegOp F32Div ''f32.div'' [ValueTypeF32, ValueTypeF32] ValueTypeF32,
    RegOp F32Min ''f32.min'' [ValueTypeF32, ValueTypeF32] ValueTypeF32,
    RegOp F32Max ''f32.max'' [ValueTypeF32, ValueTypeF32] ValueTypeF32,
    RegOp F32Copysign ''f32.copysign'' [ValueTypeF32, ValueTypeF32] ValueTypeF32,
    RegOp F64Abs ''f64.abs'' [ValueTypeF64] ValueTypeF64,
    RegOp F64Neg ''f64.neg'' [ValueTypeF64] ValueTypeF64,
    RegOp F64Ceil ''f64.ceil'' [ValueTypeF64] ValueTypeF64,
    RegOp F64Floor ''f64.floor'' [ValueTypeF64] ValueTypeF64,
    RegOp F64Trunc ''f64.trunc'' [ValueTypeF64] ValueTypeF64,
    RegOp F64Nearest ''f64.nearest'' [ValueTypeF64] ValueTypeF64,
    RegOp F64Sqrt ''f64.sqrt'' [ValueTypeF64] ValueTypeF64,
    RegOp F64Add ''f64.add'' [ValueTypeF64, ValueTypeF64] ValueTypeF64,
    RegOp F64Sub ''f64.sub'' [ValueTypeF64, ValueTypeF64] ValueTypeF64,
    RegOp F64Mul ''f64.mul'' [ValueTypeF64, ValueTypeF64] ValueTypeF64,
    RegOp F64Div ''f64.div'' [ValueTypeF64, ValueTypeF64] ValueTypeF64,
    RegOp F64Min ''f64.min'' [ValueTypeF64, ValueTypeF64] ValueTypeF64,
    RegOp F64Max ''f64.max'' [ValueTypeF64, ValueTypeF64] ValueTypeF64,
    RegOp F64Copysign ''f64.copysign'' [ValueTypeF64, ValueTypeF64] ValueTypeF64]"

definition ops_parametric :: "registration list" where
  "ops_parametric = [
    RegPolymorphic Drop ''drop'',
    RegPolymorphic Select ''select'']"

definition ops_reinterp :: "registration list" where
  "ops_reinterp = [
    RegOp I32ReinterpretF32 ''i32.reinterpret/f32'' [ValueTypeF32] ValueTypeI32,
    RegOp I64ReinterpretF64 ''i64.reinterpret/f64'' [ValueTypeF64] ValueTypeI64,
    RegOp F32ReinterpretI32 ''f32.reinterpret/i32'' [ValueTypeI32] ValueTypeF32,
    RegOp F64ReinterpretI64 ''f64.reinterpret/i64'' [ValueTypeI64] ValueTypeF64]"

definition ops_var :: "registration list" where
  "ops_var = [
    RegPolymorphic GetLocal ''get_local'',
    RegPolymorphic SetLocal ''set_local'',
    RegPolymorphic TeeLocal ''tee_local'',
    RegPolymorphic GetGlobal ''get_global'',
    RegPolymorphic SetGlobal ''set_global'']"

text \<open>Go initialises the variables of a package in the order of its files.\<close>

definition op_registrations :: "registration list" where
  "op_registrations =
     ops_call @ ops_comp @ ops_const @ ops_control @ ops_conv @ ops_memory @ ops_num @
     ops_parametric @ ops_reinterp @ ops_var"

fun run_registrations :: "registration list \<Rightarrow> op_table \<Rightarrow> operator_panic + op_table" where
  "run_registrations [] ops = Inr ops"
| "run_registrations (f # fs) ops = bindE (register f ops) (run_registrations fs)"

definition ops :: op_table where
  "ops = (case run_registrations op_registrations Map.empty of Inl _ \<Rightarrow> Map.empty | Inr t \<Rightarrow> t)"

definition New :: "byte \<Rightarrow> byte + Op" where
  "New code =
     (case ops code of
        None \<Rightarrow> Inl code
      | Some op \<Rightarrow> if IsValid op then Inr op else Inl code)"

section \<open>The table after initialisation\<close>

text \<open>The operator a registration enters, when its name is well formed.\<close>

definition conversion_op :: "byte \<Rightarrow> string \<Rightarrow> Op option" where
  "conversion_op code name =
     (case match_conversion name of
        None \<Rightarrow> None
      | Some (m1, m2) \<Rightarrow>
          (case (valType m1, valType m2) of
             (Inr returns, Inr param) \<Rightarrow>
               Some \<lparr>op_Code = code, op_Name = name, op_Polymorphic = False,
                     op_Args = [param], op_Returns = returns\<rparr>
           | _ \<Rightarrow> None))"

fun op_of :: "registration \<Rightarrow> Op option" where
  "op_of (RegOp code name args returns) =
     Some \<lparr>op_Code = code, op_Name = name, op_Polymorphic = False,
           op_Args = args, op_Returns = returns\<rparr>"
| "op_of (RegPolymorphic code name) =
     Some \<lparr>op_Code = code, op_Name = name, op_Polymorphic = True,
           op_Args = [], op_Returns = 0\<rparr>"
| "op_of (RegConversion code name) = conversion_op code name"

lemma register_fresh:
  assumes "op_of f = Some op" and "t (op_Code op) = None"
  shows "register f t = Inr (t(op_Code op \<mapsto> op))"
  using assms
  by (cases f)
    (auto simp: newOp_def newPolymorphicOp_def newConversionOp_def conversion_op_def
      split: option.splits sum.splits prod.splits)

lemma run_registrations_fresh:
  assumes "map op_of fs = map Some os" and "distinct (map op_Code os)"
    and "\<And>op. op \<in> set os \<Longrightarrow> t (op_Code op) = None"
  shows "run_registrations fs t = Inr (t ++ map_of (map (\<lambda>op. (op_Code op, op)) os))"
  using assms
proof (induction fs arbitrary: os t)
  case Nil
  then show ?case by simp
next
  case (Cons f fs)
  from Cons.prems(1) obtain op os' where os: "os = op # os'" and f: "op_of f = Some op"
    and fs: "map op_of fs = map Some os'" by (cases os) auto
  have reg: "register f t = Inr (t(op_Code op \<mapsto> op))"
    by (rule register_fresh [OF f]) (use Cons.prems(3) os in auto)
  have "run_registrations fs (t(op_Code op \<mapsto> op)) =
      Inr (t(op_Code op \<mapsto> op) ++ map_of (map (\<lambda>op. (op_Code op, op)) os'))"
  proof (rule Cons.IH [OF fs])
    show "distinct (map op_Code os')" using Cons.prems(2) os by simp
    fix o'
    assume "o' \<in> set os'"
    then have "op_Code o' \<in> op_Code ` set os'" by (rule imageI)
    with Cons.prems(2) os have "op_Code o' \<noteq> op_Code op" by auto
    with Cons.prems(3) [of o'] os \<open>o' \<in> set os'\<close>
    show "(t(op_Code op \<mapsto> op)) (op_Code o') = None" by simp
  qed
  moreover have "map_of (map (\<lambda>op. (op_Code op, op)) os') (op_Code op) = None"
    using Cons.prems(2) os by (force simp: map_of_eq_None_iff)
  ultimately show ?case
    by (simp add: reg os map_add_upd_left fun_eq_iff map_add_def split: option.splits)
qed

definition op_list :: "Op list" where
  "op_list = map (\<lambda>f. the (op_of f)) op_registrations"

lemma op_registrations_wf:
  "list_all (\<lambda>f. op_of f \<noteq> None) op_registrations"
  "distinct (map op_Code op_list)"
  by code_simp+

lemma run_op_registrations:
  "run_registrations op_registrations Map.empty =
     Inr (map_of (map (\<lambda>op. (op_Code op, op)) op_list))"
proof -
  have "map op_of op_registrations = map Some op_list"
    using op_registrations_wf(1) unfolding op_list_def list_all_iff by simp
  from run_registrations_fresh [OF this op_registrations_wf(2), of Map.empty]
  show ?thesis by simp
qed

lemma ops_eq: "ops = map_of (map (\<lambda>op. (op_Code op, op)) op_list)"
  by (simp add: ops_def run_op_registrations)

text \<open>Evaluation looks the registration up first.\<close>

fun reg_code :: "registration \<Rightarrow> byte" where
  "reg_code (RegOp code name args returns) = code"
| "reg_code (RegPolymorphic code name) = code"
| "reg_code (RegConversion code name) = code"

lemma op_of_code: "op_of f = Some op \<Longrightarrow> op_Code op = reg_code f"
  by (cases f) (auto simp: conversion_op_def split: option.splits sum.splits)

lemma map_of_find:
  assumes "list_all (\<lambda>f. op_of f \<noteq> None) fs"
  shows "map_of (map (\<lambda>op. (op_Code op, op)) (map (\<lambda>f. the (op_of f)) fs)) c =
    Option.bind (find (\<lambda>f. reg_code f = c) fs) op_of"
  using assms by (induction fs) (auto simp: op_of_code)

lemma ops_find [code]: "ops = (\<lambda>c. Option.bind (find (\<lambda>f. reg_code f = c) op_registrations) op_of)"
  unfolding ops_eq op_list_def by (rule ext) (rule map_of_find [OF op_registrations_wf(1)])

text \<open>Initialising the operator table never panics: no opcode is registered twice and every
  conversion operator has a name of the expected form.  Afterwards \<open>New\<close> returns, for each of the 172
  opcodes registered, the operator registered under it, and the error for every other byte.\<close>

theorem operators_init:
  "run_registrations op_registrations Map.empty = Inr ops \<and> card (dom ops) = 172 \<and>
   New code = (case ops code of Some op \<Rightarrow> Inr op | None \<Rightarrow> Inl code) \<and>
   pred_option (\<lambda>op. op_Code op = code) (ops code)"
proof -
  have r: "run_registrations op_registrations Map.empty = Inr ops"
    by (simp add: ops_def run_op_registrations)
  have "dom ops = set (map op_Code op_list)" by (simp add: ops_eq dom_map_of_conv_image_fst image_image)
  moreover have "length op_list = 172" by code_simp
  ultimately have c: "card (dom ops) = 172"
    using op_registrations_wf(2) by (simp add: distinct_card del: set_map)
  have "list_all (\<lambda>op. IsValid op) op_list" by code_simp
  moreover have m: "op \<in> set op_list \<and> op_Code op = code" if "ops code = Some op" for op
    using that unfolding ops_eq by (auto dest!: map_of_SomeD)
  ultimately have v: "IsValid op" if "ops code = Some op" for op
    using that by (auto simp: list_all_iff)
  show ?thesis using r c v m by (auto simp: New_def pred_option_def split: option.split)
qed

end
