(* ===== verification/VmExec.thy ===== *)
theory VmExec
  imports VmInstr Operators
begin

text \<open>
  \<^verbatim>\<open>wagon/exec/func.go\<close>, \<^verbatim>\<open>contract_func.go\<close>, \<^verbatim>\<open>call.go\<close>,
  \<^verbatim>\<open>func_table.go\<close> and the interpreter loop of \<^verbatim>\<open>vm.go\<close>: calls, the dispatch
  table, \<^verbatim>\<open>execCode\<close>, \<^verbatim>\<open>ExecCode\<close> and the memory access of host functions.
  A program may loop for ever, so \<open>execCode\<close> takes fuel: one unit per instruction,
  and a call runs its callee on what is left.  More fuel never changes an outcome
  other than \<open>OutOfFuel\<close>.
\<close>

section \<open>Host functions\<close>

text \<open>
  \<^verbatim>\<open>fn.val.Call\<close> runs Go code outside the repository: what a handle does with its
  arguments and the machine is the field \<open>he_call\<close> of the environment.
\<close>

record host_env =
  he_float :: float_ops
  he_call :: "nat \<Rightarrow> host_value list \<Rightarrow> VM \<Rightarrow> (vm_panic + host_value list) \<times> VM"

text \<open>
  A raw operand as a value of the parameter's kind: \<^verbatim>\<open>SetFloat\<close> takes the operand's
  64-bit float pattern also for a \<^verbatim>\<open>float32\<close> parameter.
\<close>

definition goArg :: "float_ops \<Rightarrow> nat \<Rightarrow> kind \<Rightarrow> u64 \<Rightarrow> host_value vm" where
  "goArg F i k raw =
     (case k of
        KFloat64 \<Rightarrow> ret (HFloat64 raw)
      | KFloat32 \<Rightarrow> ret (HFloat32 (f64_demote F raw))
      | KUint32 \<Rightarrow> ret (HUint32 (ucast raw))
      | KUint64 \<Rightarrow> ret (HUint64 raw)
      | KInt32 \<Rightarrow> ret (HInt32 (ucast raw))
      | KInt64 \<Rightarrow> ret (HInt64 raw)
      | _ \<Rightarrow> panic (HostInvalidArgKind i))"

fun popGoArgs :: "float_ops \<Rightarrow> kind list \<Rightarrow> nat \<Rightarrow> host_value list \<Rightarrow> host_value list vm" where
  "popGoArgs F ks 0 acc = ret acc"
| "popGoArgs F ks (Suc i) acc =
     bindV popUint64 (\<lambda>raw. bindV (goArg F (Suc i) (ks ! Suc i) raw) (\<lambda>v.
       popGoArgs F ks i (v # acc)))"

fun pushResult :: "float_ops \<Rightarrow> nat \<Rightarrow> host_value \<Rightarrow> unit vm" where
  "pushResult F i (HFloat64 w) = pushFloat64 w"
| "pushResult F i (HFloat32 w) = pushFloat64 (f64_promote F w)"
| "pushResult F i (HUint32 w) = pushUint64 (ucast w)"
| "pushResult F i (HUint64 w) = pushUint64 w"
| "pushResult F i (HInt32 w) = pushInt64 (scast w)"
| "pushResult F i (HInt64 w) = pushInt64 w"
| "pushResult F i HOther = panic (HostInvalidReturnKind i)"

fun pushResults :: "float_ops \<Rightarrow> nat \<Rightarrow> host_value list \<Rightarrow> unit vm" where
  "pushResults F i [] = ret ()"
| "pushResults F i (v # vs) = thenV (pushResult F i v) (pushResults F (i + 1) vs)"

definition goFunction_call :: "host_env \<Rightarrow> kind list \<Rightarrow> nat \<Rightarrow> unit vm" where
  "goFunction_call E ks h =
     (case ks of
        [] \<Rightarrow> panic (GoPanic IndexOutOfRange)
      | k # _ \<Rightarrow>
          if k \<noteq> KPtr then panic HostFirstArgument
          else bindV (popGoArgs (he_float E) ks (length ks - 1) []) (\<lambda>args.
               bindV (he_call E h args) (pushResults (he_float E) 0)))"

fun popRawArgs :: "nat \<Rightarrow> host_value list \<Rightarrow> host_value list vm" where
  "popRawArgs 0 acc = ret acc"
| "popRawArgs (Suc i) acc = bindV popUint64 (\<lambda>raw. popRawArgs i (HUint64 raw # acc))"

definition contractFunction_call :: "host_env \<Rightarrow> nat \<Rightarrow> kind list \<Rightarrow> nat \<Rightarrow> unit vm" where
  "contractFunction_call E sig ks h =
     (case ks of
        [] \<Rightarrow> panic (GoPanic IndexOutOfRange)
      | k # _ \<Rightarrow>
          if k \<noteq> KPtr then panic HostFirstArgument
          else bindV (popRawArgs sig []) (\<lambda>args.
               bindV (he_call E h args) (pushResults (he_float E) 0)))"

section \<open>Calls\<close>

text \<open>\<^verbatim>\<open>vm.recursiveCallDepth++; defer func() { vm.recursiveCallDepth-- }()\<close>.\<close>

definition withDepth :: "'a vm \<Rightarrow> 'a vm" where
  "withDepth m = (\<lambda>s.
     let (r, t) = m (s\<lparr>recursiveCallDepth := recursiveCallDepth s + 1\<rparr>)
     in (r, t\<lparr>recursiveCallDepth := recursiveCallDepth t - 1\<rparr>))"

text \<open>The arguments, the last one on top, into the first locals.\<close>

fun popLocals :: "nat \<Rightarrow> u64 list \<Rightarrow> u64 list vm" where
  "popLocals 0 locals = ret locals"
| "popLocals (Suc i) locals =
     bindV popUint64 (\<lambda>v.
       if i < length locals then popLocals i (locals[i := v])
       else panic (GoPanic IndexOutOfRange))"

definition compiledFunction_call ::
  "(compiledFunction \<Rightarrow> u64 vm) \<Rightarrow> compiledFunction \<Rightarrow> int \<Rightarrow> unit vm" where
  "compiledFunction_call exec compiled index =
     withDepth
       (bindV (popLocals (cf_args compiled) (replicate (cf_totalLocalVars compiled) 0)) (\<lambda>locals.
        bindV (gets ctx) (\<lambda>prevCtxt.
        thenV (modifyCtx (\<lambda>_. \<lparr>c_stack = replicate (cf_maxDepth compiled) 0, c_locals = locals,
                 c_code = cf_code compiled, c_pc = 0, c_curFunc = index\<rparr>))
          (bindV (exec compiled) (\<lambda>rtrn.
           thenV (modifyCtx (\<lambda>_. prevCtxt))
             (if cf_returns compiled then pushUint64 rtrn else ret ()))))))"

definition callFunction ::
  "(compiledFunction \<Rightarrow> u64 vm) \<Rightarrow> host_env \<Rightarrow> u32 \<Rightarrow> unit vm" where
  "callFunction exec E index =
     bindV (gets funcs) (\<lambda>fs.
       if unat index < length fs then
         (case fs ! unat index of
            CompiledFunction c \<Rightarrow> compiledFunction_call exec c (uint index)
          | GoFunction ks h \<Rightarrow> goFunction_call E ks h
          | ContractFunction sig ks h \<Rightarrow> contractFunction_call E sig ks h)
       else panic (GoPanic IndexOutOfRange))"

definition call :: "(compiledFunction \<Rightarrow> u64 vm) \<Rightarrow> host_env \<Rightarrow> unit vm" where
  "call exec E = bindV fetchUint32 (callFunction exec E)"

text \<open>The type a \<^verbatim>\<open>call_indirect\<close> names, or the panic of a missing section or entry.\<close>

definition expectedType :: "u32 \<Rightarrow> FunctionSig vm" where
  "expectedType index =
     bindV (gets (\<lambda>s. m_Types (v_module s))) (\<lambda>types.
       case types of
         None \<Rightarrow> panic (GoPanic NilDereference)
       | Some ts \<Rightarrow>
           if unat index < length (Entries ts) then ret (Entries ts ! unat index)
           else panic (GoPanic IndexOutOfRange))"

definition tableElement :: "u32 \<Rightarrow> u32 vm" where
  "tableElement tableIndex =
     bindV (gets (\<lambda>s. TableIndexSpace (v_module s))) (\<lambda>tables.
       case tables of
         [] \<Rightarrow> panic (GoPanic IndexOutOfRange)
       | tbl # _ \<Rightarrow>
           if unat tableIndex \<ge> length tbl then panic ErrUndefinedElementIndex
           else ret (tbl ! unat tableIndex))"

definition actualType :: "u32 \<Rightarrow> FunctionSig vm" where
  "actualType elemIndex =
     bindV (gets (\<lambda>s. FunctionIndexSpace (v_module s))) (\<lambda>fns.
       if unat elemIndex < length fns then
         (case Sig (fns ! unat elemIndex) of
            None \<Rightarrow> panic (GoPanic NilDereference)
          | Some sig \<Rightarrow> ret sig)
       else panic (GoPanic IndexOutOfRange))"

definition callIndirect :: "(compiledFunction \<Rightarrow> u64 vm) \<Rightarrow> host_env \<Rightarrow> unit vm" where
  "callIndirect exec E =
     bindV fetchUint32 (\<lambda>index.
     bindV (expectedType index) (\<lambda>fnExpect.
     bindV fetchUint32 (\<lambda>_.
     bindV popUint32 (\<lambda>tableIndex.
     bindV (tableElement tableIndex) (\<lambda>elemIndex.
     bindV (actualType elemIndex) (\<lambda>fnActual.
       if ParamTypes fnExpect \<noteq> ParamTypes fnActual \<or> ReturnTypes fnExpect \<noteq> ReturnTypes fnActual
       then panic ErrSignatureMismatch
       else callFunction exec E elemIndex))))))"

section \<open>Dispatch\<close>

definition newFuncTable :: "float_ops \<Rightarrow> unit vm \<Rightarrow> unit vm \<Rightarrow> (byte \<times> unit vm) list" where
  "newFuncTable F call_op callIndirect_op = [
    (I32Clz, i32Clz), (I32Ctz, i32Ctz), (I32Popcnt, i32Popcnt), (I32Add, i32Add),
    (I32Sub, i32Sub), (I32Mul, i32Mul), (I32DivS, i32DivS), (I32DivU, i32DivU),
    (I32RemS, i32RemS), (I32RemU, i32RemU), (I32And, i32And), (I32Or, i32Or), (I32Xor, i32Xor),
    (I32Shl, i32Shl), (I32ShrS, i32ShrS), (I32ShrU, i32ShrU), (I32Rotl, i32Rotl),
    (I32Rotr, i32Rotr), (I32Eqz, i32Eqz), (I32Eq, i32Eq), (I32Ne, i32Ne), (I32LtS, i32LtS),
    (I32LtU, i32LtU), (I32GtS, i32GtS), (I32GtU, i32GtU), (I32LeS, i32LeS), (I32LeU, i32LeU),
    (I32GeS, i32GeS), (I32GeU, i32GeU), (I64Clz, i64Clz), (I64Ctz, i64Ctz),
    (I64Popcnt, i64Popcnt), (I64Add, i64Add), (I64Sub, i64Sub), (I64Mul, i64Mul),
    (I64DivS, i64DivS), (I64DivU, i64DivU), (I64RemS, i64RemS), (I64RemU, i64RemU),
    (I64And, i64And), (I64Or, i64Or), (I64Xor, i64Xor), (I64Shl, i64Shl), (I64ShrS, i64ShrS),
    (I64ShrU, i64ShrU), (I64Rotl, i64Rotl), (I64Rotr, i64Rotr), (I64Eqz, i64Eqz),
    (I64Eq, i64Eq), (I64Ne, i64Ne), (I64LtS, i64LtS), (I64LtU, i64LtU), (I64GtS, i64GtS),
    (I64GtU, i64GtU), (I64LeS, i64LeS), (I64LeU, i64LeU), (I64GeS, i64GeS), (I64GeU, i64GeU),
    (F32Eq, f32Eq), (F32Ne, f32Ne), (F32Lt, f32Lt), (F32Gt, f32Gt), (F32Le, f32Le),
    (F32Ge, f32Ge), (F32Abs, f32Abs F), (F32Neg, f32Neg), (F32Ceil, f32Ceil F),
    (F32Floor, f32Floor F), (F32Trunc, f32Trunc F), (F32Nearest, f32Nearest F),
    (F32Sqrt, f32Sqrt F), (F32Add, f32Add F), (F32Sub, f32Sub F), (F32Mul, f32Mul F),
    (F32Div, f32Div F), (F32Min, f32Min F), (F32Max, f32Max F), (F32Copysign, f32Copysign F),
    (F64Eq, f64Eq), (F64Ne, f64Ne), (F64Lt, f64Lt), (F64Gt, f64Gt), (F64Le, f64Le),
    (F64Ge, f64Ge), (F64Abs, f64Abs), (F64Neg, f64Neg), (F64Ceil, f64Ceil F),
    (F64Floor, f64Floor F), (F64Trunc, f64Trunc F), (F64Nearest, f64Nearest F),
    (F64Sqrt, f64Sqrt F), (F64Add, f64Add F), (F64Sub, f64Sub F), (F64Mul, f64Mul F),
    (F64Div, f64Div F), (F64Min, f64Min F), (F64Max, f64Max F), (F64Copysign, f64Copysign),
    (I32Const, i32Const_op), (I64Const, i64Const_op), (F32Const, f32Const_op),
    (F64Const, f64Const_op), (I32ReinterpretF32, i32ReinterpretF32),
    (I64ReinterpretF64, i64ReinterpretF64), (F32ReinterpretI32, f32ReinterpretI32),
    (F64ReinterpretI64, f64ReinterpretI64), (I32WrapI64, i32Wrapi64),
    (I32TruncSF32, i32TruncSF32 F), (I32TruncUF32, i32TruncUF32 F),
    (I32TruncSF64, i32TruncSF64 F), (I32TruncUF64, i32TruncUF64 F),
    (I64ExtendSI32, i64ExtendSI32), (I64ExtendUI32, i64ExtendUI32),
    (I64TruncSF32, i64TruncSF32 F), (I64TruncUF32, i64TruncUF32 F),
    (I64TruncSF64, i64TruncSF64 F), (I64TruncUF64, i64TruncUF64 F),
    (F32ConvertSI32, f32ConvertSI32 F), (F32ConvertUI32, f32ConvertUI32 F),
    (F32ConvertSI64, f32ConvertSI64 F), (F32ConvertUI64, f32ConvertUI64 F),
    (F32DemoteF64, f32DemoteF64 F), (F64ConvertSI32, f64ConvertSI32 F),
    (F64ConvertUI32, f64ConvertUI32 F), (F64ConvertSI64, f64ConvertSI64 F),
    (F64ConvertUI64, f64ConvertUI64 F), (F64PromoteF32, f64PromoteF32 F), (I32Load, i32Load),
    (I64Load, i64Load), (F32Load, f32Load), (F64Load, f64Load), (I32Load8s, i32Load8s),
    (I32Load8u, i32Load8u), (I32Load16s, i32Load16s), (I32Load16u, i32Load16u),
    (I64Load8s, i64Load8s), (I64Load8u, i64Load8u), (I64Load16s, i64Load16s),
    (I64Load16u, i64Load16u), (I64Load32s, i64Load32s), (I64Load32u, i64Load32u),
    (I32Store, i32Store), (I64Store, i64Store), (F32Store, f32Store), (F64Store, f64Store),
    (I32Store8, i32Store8), (I32Store16, i32Store16), (I64Store8, i64Store8),
    (I64Store16, i64Store16), (I64Store32, i64Store32), (CurrentMemory, currentMemory),
    (GrowMemory, growMemory), (Drop, drop_op), (Select, selectOp), (GetLocal, getLocal),
    (SetLocal, setLocal), (TeeLocal, teeLocal), (GetGlobal, getGlobal_op),
    (SetGlobal, setGlobal), (Unreachable, unreachable), (Nop, nop), (Call, call_op),
    (CallIndirect, callIndirect_op)]"

text \<open>Calling an entry that was not set is a call of a nil function.\<close>

definition dispatch :: "(byte \<times> unit vm) list \<Rightarrow> byte \<Rightarrow> unit vm" where
  "dispatch tbl op =
     (case map_of tbl op of None \<Rightarrow> panic (GoPanic NilDereference) | Some h \<Rightarrow> h)"

abbreviation OpJmp :: byte where "OpJmp \<equiv> 0x0c"
abbreviation OpJmpZ :: byte where "OpJmpZ \<equiv> 0x03"
abbreviation OpJmpNz :: byte where "OpJmpNz \<equiv> 0x0d"
abbreviation OpDiscard :: byte where "OpDiscard \<equiv> 0x0b"
abbreviation OpDiscardPreserveTop :: byte where "OpDiscardPreserveTop \<equiv> 0x05"

definition setPc :: "int \<Rightarrow> unit vm" where
  "setPc target = modifyCtx (\<lambda>c. c\<lparr>c_pc := target\<rparr>)"

text \<open>One instruction; the result says whether the loop is left.\<close>

definition exec_jmpz :: "bool vm" where
  "exec_jmpz =
     bindV fetchInt64 (\<lambda>target. bindV popUint32 (\<lambda>v.
       if v = 0 then thenV (setPc target) (ret False) else ret False))"

definition exec_jmpnz :: "bool vm" where
  "exec_jmpnz =
     bindV fetchInt64 (\<lambda>target. bindV fetchBool (\<lambda>preserveTop. bindV fetchInt64 (\<lambda>dis.
     bindV popUint32 (\<lambda>v.
       if v \<noteq> 0 then thenV (setPc target) (thenV (unwind preserveTop dis) (ret False))
       else ret False))))"

definition branchTable :: "int \<Rightarrow> BranchTable vm" where
  "branchTable index =
     bindV (gets (\<lambda>s. (funcs s, c_curFunc (ctx s)))) (\<lambda>(fs, cur).
       if cur < 0 \<or> cur \<ge> int (length fs) then panic (GoPanic IndexOutOfRange)
       else case fs ! nat cur of
         CompiledFunction cf \<Rightarrow>
           if index < 0 \<or> index \<ge> int (length (cf_branchTables cf))
           then panic (GoPanic IndexOutOfRange)
           else ret (cf_branchTables cf ! nat index)
       | _ \<Rightarrow> panic (NotCompiledFunction cur))"

definition selectTarget :: "BranchTable \<Rightarrow> u32 \<Rightarrow> Target" where
  "selectTarget table label =
     (if sint label \<ge> 0 \<and> sint label < int (length (Targets table))
      then Targets table ! nat (sint label) else DefaultTarget table)"

definition exec_brtable :: "bool vm" where
  "exec_brtable =
     bindV fetchInt64 (\<lambda>index. bindV popInt32 (\<lambda>label. bindV (branchTable index) (\<lambda>table.
       let target = selectTarget table label
       in if IsReturnTarget target then ret True
          else thenV (setPc (Addr target))
                 (thenV (unwind (PreserveTop target) (Discard target)) (ret False)))))"

definition exec_instr :: "(byte \<times> unit vm) list \<Rightarrow> byte \<Rightarrow> bool vm" where
  "exec_instr tbl op =
     (if op = Return then ret True
      else if op = OpJmp then bindV fetchInt64 (\<lambda>target. thenV (setPc target) (ret False))
      else if op = OpJmpZ then exec_jmpz
      else if op = OpJmpNz then exec_jmpnz
      else if op = BrTable then exec_brtable
      else if op = OpDiscard then bindV fetchInt64 (\<lambda>place. thenV (discardStack place) (ret False))
      else if op = OpDiscardPreserveTop then
        bindV topUint64 (\<lambda>top. bindV fetchInt64 (\<lambda>place.
          thenV (discardStack place) (thenV (pushUint64 top) (ret False))))
      else thenV (dispatch tbl op) (ret False))"

definition exec_result :: "compiledFunction \<Rightarrow> u64 vm" where
  "exec_result compiled = (if cf_returns compiled then topUint64 else ret 0)"

section \<open>The loop\<close>

definition running :: "VM \<Rightarrow> bool" where
  "running s \<longleftrightarrow> c_pc (ctx s) < int (length (c_code (ctx s))) \<and> \<not> abort s"

fun execCode :: "nat \<Rightarrow> host_env \<Rightarrow> compiledFunction \<Rightarrow> u64 vm" where
  "execCode 0 E compiled = panic OutOfFuel"
| "execCode (Suc n) E compiled =
     bindV (gets running) (\<lambda>go.
       if \<not> go then exec_result compiled
       else bindV (gets recursiveCallDepth) (\<lambda>depth.
         if depth > 1024 then panic RecursiveCallLimit
         else bindV fetchInt8 (\<lambda>op.
           bindV (exec_instr
                    (newFuncTable (he_float E) (call (execCode n E) E) (callIndirect (execCode n E) E)) op)
             (\<lambda>stop. if stop then exec_result compiled else execCode n E compiled))))"

section \<open>Entry points\<close>

datatype exec_value = VI32 u32 | VI64 u64 | VF32 u32 | VF64 u64

datatype exec_error =
    InvalidFunctionIndex int
  | ErrInvalidArgumentCount
  | InvalidReturnType ValueType
  | RecoveredPanic vm_panic

text \<open>\<^verbatim>\<open>defer func() { recover() }()\<close> when \<^verbatim>\<open>vm.RecoverPanic\<close> is set.\<close>

definition recovering :: "(exec_error + 'a) vm \<Rightarrow> (exec_error + 'a) vm" where
  "recovering m = (\<lambda>s.
     case m s of
       (Inl p, t) \<Rightarrow>
         if RecoverPanic s \<and> p \<noteq> OutOfFuel then (Inr (Inl (RecoveredPanic p)), t) else (Inl p, t)
     | (Inr r, t) \<Rightarrow> (Inr r, t))"

text \<open>\<^verbatim>\<open>vm.module.GetFunction(int(fnIndex)).Sig\<close>.\<close>

definition functionSig :: "int \<Rightarrow> FunctionSig vm" where
  "functionSig fnIndex =
     bindV (gets v_module) (\<lambda>m.
       case GetFunction m fnIndex of
         None \<Rightarrow> panic (GoPanic NilDereference)
       | Some fn \<Rightarrow> (case Sig fn of None \<Rightarrow> panic (GoPanic NilDereference) | Some sig \<Rightarrow> ret sig))"

definition compiledAt :: "int \<Rightarrow> compiledFunction vm" where
  "compiledAt fnIndex =
     bindV (gets funcs) (\<lambda>fs.
       if fnIndex < 0 \<or> fnIndex \<ge> int (length fs) then panic (GoPanic IndexOutOfRange)
       else case fs ! nat fnIndex of
         CompiledFunction c \<Rightarrow> ret c
       | _ \<Rightarrow> panic (NotCompiledFunction fnIndex))"

text \<open>The context a call from outside starts in: a stack that is long enough is kept.\<close>

definition enter :: "compiledFunction \<Rightarrow> int \<Rightarrow> unit vm" where
  "enter compiled fnIndex =
     modifyCtx (\<lambda>c.
       \<lparr>c_stack = (if length (c_stack c) < cf_maxDepth compiled then [] else c_stack c),
        c_locals = replicate (cf_totalLocalVars compiled) 0,
        c_code = cf_code compiled, c_pc = 0, c_curFunc = fnIndex\<rparr>)"

definition storeArgs :: "u64 list \<Rightarrow> unit vm" where
  "storeArgs args =
     bindV (gets (\<lambda>s. c_locals (ctx s))) (\<lambda>locals.
       if length args > length locals
       then thenV (modifyCtx (\<lambda>c. c\<lparr>c_locals := take (length locals) args\<rparr>))
              (panic (GoPanic IndexOutOfRange))
       else modifyCtx (\<lambda>c. c\<lparr>c_locals := args @ drop (length args) (c_locals c)\<rparr>))"

definition execBody ::
  "nat \<Rightarrow> host_env \<Rightarrow> int \<Rightarrow> u64 list \<Rightarrow> (exec_error + (compiledFunction \<times> u64)) vm" where
  "execBody n E fnIndex args =
     bindV (gets funcs) (\<lambda>fs.
       if fnIndex > int (length fs) then ret (Inl (InvalidFunctionIndex fnIndex))
       else bindV (functionSig fnIndex) (\<lambda>sig.
         if length (ParamTypes sig) \<noteq> length args then ret (Inl ErrInvalidArgumentCount)
         else bindV (compiledAt fnIndex) (\<lambda>compiled.
           thenV (enter compiled fnIndex)
             (thenV (storeArgs args)
               (bindV (execCode n E compiled) (\<lambda>res. ret (Inr (compiled, res))))))))"

definition execReturn ::
  "int \<Rightarrow> exec_error + (compiledFunction \<times> u64) \<Rightarrow> (exec_error + exec_value option) vm" where
  "execReturn fnIndex r =
     (case r of
        Inl e \<Rightarrow> ret (Inl e)
      | Inr (compiled, res) \<Rightarrow>
          if cf_returns compiled then
            bindV (functionSig fnIndex) (\<lambda>sig.
              case ReturnTypes sig of
                [] \<Rightarrow> panic (GoPanic IndexOutOfRange)
              | t # _ \<Rightarrow>
                  if t = ValueTypeI32 then ret (Inr (Some (VI32 (ucast res))))
                  else if t = ValueTypeI64 then ret (Inr (Some (VI64 res)))
                  else if t = ValueTypeF32 then ret (Inr (Some (VF32 (ucast res))))
                  else if t = ValueTypeF64 then ret (Inr (Some (VF64 res)))
                  else ret (Inl (InvalidReturnType t)))
          else ret (Inr None))"

definition ExecCode ::
  "nat \<Rightarrow> host_env \<Rightarrow> int \<Rightarrow> u64 list \<Rightarrow> (exec_error + exec_value option) vm" where
  "ExecCode n E fnIndex args =
     recovering (bindV (execBody n E fnIndex args) (execReturn fnIndex))"

definition ExecContractCode :: "nat \<Rightarrow> host_env \<Rightarrow> int \<Rightarrow> u64 list \<Rightarrow> (exec_error + u64) vm" where
  "ExecContractCode n E fnIndex args =
     recovering (bindV (execBody n E fnIndex args) (\<lambda>r. ret (map_sum id snd r)))"

definition ResetContext :: "unit vm" where
  "ResetContext =
     modifyCtx (\<lambda>_. \<lparr>c_stack = [], c_locals = [], c_code = [], c_pc = 0, c_curFunc = 0\<rparr>)"

section \<open>What host functions reach\<close>

datatype short_error = ErrShortBuffer | ErrShortWrite

text \<open>The bytes copied into the caller's buffer of \<open>n\<close> bytes, their number and the error.\<close>

definition access_length :: "byte list \<Rightarrow> nat \<Rightarrow> int \<Rightarrow> int" where
  "access_length mem n off =
     (if int (length mem) < int n + off then int (length mem) - off else int n)"

definition Process_ReadAt :: "nat \<Rightarrow> int \<Rightarrow> (byte list \<times> short_error option) vm" where
  "Process_ReadAt n off =
     bindV (gets memory) (\<lambda>mem.
       let len = access_length mem n off
       in if off < 0 \<or> len < 0 then panic (GoPanic SliceOutOfRange)
          else ret (take (nat len) (drop (nat off) mem),
                    if len < int n then Some ErrShortBuffer else None))"

definition Process_WriteAt :: "byte list \<Rightarrow> int \<Rightarrow> (nat \<times> short_error option) vm" where
  "Process_WriteAt p off =
     bindV (gets memory) (\<lambda>mem.
       let len = access_length mem (length p) off
       in if off < 0 \<or> len < 0 then panic (GoPanic SliceOutOfRange)
          else thenV (modifyMemory (\<lambda>m. go_copy_at (nat off) m (take (nat len) p)))
                 (ret (nat len, if len < int (length p) then Some ErrShortWrite else None)))"

definition Process_Terminate :: "unit vm" where
  "Process_Terminate = (\<lambda>s. (Inr (), s\<lparr>abort := True\<rparr>))"

end
