(* ===== verification/VmFrame.thy ===== *)
theory VmFrame
  imports VmExec
begin

text \<open>
  What running code cannot change: the frame relations of the machine.  Inside the
  locale every method up to \<^verbatim>\<open>execCode\<close> keeps the relation, given that the host
  functions do; three interpretations follow.
\<close>

section \<open>Every method keeps a frame\<close>

definition host_keeps :: "(VM \<Rightarrow> VM \<Rightarrow> bool) \<Rightarrow> host_env \<Rightarrow> bool" where
  "host_keeps Q E \<longleftrightarrow> (\<forall>h args. keeps Q (he_call E h args))"

lemma keeps_dispatch:
  assumes "list_all (\<lambda>(op, h). keeps Q h) tbl" and "keeps Q (panic (GoPanic NilDereference) :: unit vm)"
  shows "keeps Q (dispatch tbl op)"
proof (cases "map_of tbl op")
  case None
  with assms(2) show ?thesis by (simp add: dispatch_def)
next
  case (Some h)
  then have "(op, h) \<in> set tbl" by (rule map_of_SomeD)
  with assms(1) Some show ?thesis by (auto simp: dispatch_def list_all_iff)
qed

context vm_frame
begin

lemma keeps_withDepth [keeps_intros]: "keeps Q m \<Longrightarrow> keeps Q (withDepth m)"
  unfolding keeps_def withDepth_def Let_def
  by (auto simp: case_prod_unfold intro: Q_call)

lemma keeps_goArg [keeps_intros]: "keeps Q (goArg F i k raw)"
  by (cases k) (simp_all add: goArg_def keeps_ret keeps_panic)

lemma keeps_popGoArgs [keeps_intros]: "keeps Q (popGoArgs F ks i acc)"
  by (induction i arbitrary: acc) (simp_all, intro keeps_intros, simp_all add: keeps_intros)

lemma keeps_pushResult [keeps_intros]: "keeps Q (pushResult F i v)"
  by (cases v) (simp_all add: keeps_intros)

lemma keeps_pushResults [keeps_intros]: "keeps Q (pushResults F i vs)"
  by (induction vs arbitrary: i) (simp_all add: keeps_intros)

lemma keeps_popRawArgs [keeps_intros]: "keeps Q (popRawArgs i acc)"
  by (induction i arbitrary: acc) (simp_all add: keeps_intros)

lemma keeps_popLocals [keeps_intros]: "keeps Q (popLocals i ls)"
  by (induction i arbitrary: ls) (simp_all add: keeps_intros)

lemma keeps_host_calls [keeps_intros]:
  assumes "host_keeps Q E"
  shows "keeps Q (goFunction_call E ks h)" "keeps Q (contractFunction_call E sig ks h)"
  using assms unfolding goFunction_call_def contractFunction_call_def host_keeps_def
  by (cases ks; simp add: keeps_intros)+

lemma keeps_callFunction [keeps_intros]:
  assumes "\<And>c. keeps Q (exec c)" "host_keeps Q E"
  shows "keeps Q (callFunction exec E index)"
proof -
  have "keeps Q (case f of
      CompiledFunction c \<Rightarrow> compiledFunction_call exec c (uint index)
    | GoFunction ks h \<Rightarrow> goFunction_call E ks h
    | ContractFunction sig ks h \<Rightarrow> contractFunction_call E sig ks h)" for f
    using assms
    by (cases f) (simp_all add: compiledFunction_call_def keeps_intros)
  then show ?thesis unfolding callFunction_def by (intro keeps_intros)
qed

lemma keeps_call [keeps_intros]:
  assumes "\<And>c. keeps Q (exec c)" "host_keeps Q E"
  shows "keeps Q (call exec E)" "keeps Q (callIndirect exec E)"
proof -
  show "keeps Q (call exec E)"
    unfolding call_def by (intro keeps_intros assms)
  have "keeps Q (expectedType i)" "keeps Q (tableElement i)" "keeps Q (actualType i)" for i
    unfolding expectedType_def tableElement_def actualType_def
    by (intro keeps_intros; simp add: keeps_intros split: option.split list.split)+
  note types = this
  show "keeps Q (callIndirect exec E)"
    unfolding callIndirect_def by (intro keeps_intros types assms)
qed

lemma keeps_newFuncTable:
  assumes "keeps Q c" "keeps Q i"
  shows "list_all (\<lambda>(op, h). keeps Q h) (newFuncTable F c i)"
  unfolding newFuncTable_def list.pred_inject(2) prod.case
  by (intro conjI list.pred_inject(1) assms keeps_intros)

lemma keeps_exec_instr [keeps_intros]:
  assumes "list_all (\<lambda>(op, h). keeps Q h) tbl"
  shows "keeps Q (exec_instr tbl op)"
proof -
  have bt: "keeps Q (branchTable i)" for i
  proof -
    have "keeps Q (case f of CompiledFunction cf \<Rightarrow>
        if i < 0 \<or> i \<ge> int (length (cf_branchTables cf)) then panic (GoPanic IndexOutOfRange)
        else ret (cf_branchTables cf ! nat i) | _ \<Rightarrow> panic (NotCompiledFunction cur))" for f cur
      by (cases f) (simp_all add: keeps_intros)
    then show ?thesis unfolding branchTable_def case_prod_unfold by (intro keeps_intros)
  qed
  have pc: "keeps Q (setPc t)" for t
    unfolding setPc_def by (rule keeps_modifyCtx)
  note d = keeps_dispatch [OF assms keeps_panic]
  show ?thesis
    unfolding exec_instr_def exec_jmpz_def exec_jmpnz_def exec_brtable_def Let_def
    by (intro keeps_intros bt pc d)
qed

lemma keeps_execCode:
  assumes "host_keeps Q E"
  shows "keeps Q (execCode n E c)"
proof (induction n arbitrary: c)
  case 0
  show ?case by (simp add: keeps_intros)
next
  case (Suc n)
  have r: "keeps Q (exec_result c)" for c
    unfolding exec_result_def by (intro keeps_intros)
  show ?case
    unfolding execCode.simps
    by (intro keeps_intros keeps_newFuncTable Suc r assms)
qed

end

section \<open>Three relations\<close>

text \<open>The nesting depth of calls is what it was, also after a panic.\<close>

definition same_depth :: "VM \<Rightarrow> VM \<Rightarrow> bool" where
  "same_depth s t \<longleftrightarrow> recursiveCallDepth t = recursiveCallDepth s"

interpretation depth: vm_frame same_depth
  by unfold_locales (simp_all add: same_depth_def)

text \<open>Memory never shrinks and grows by pages.\<close>

definition pages_grow :: "VM \<Rightarrow> VM \<Rightarrow> bool" where
  "pages_grow s t \<longleftrightarrow> (\<exists>k. length (memory t) = length (memory s) + k * wasmPageSize)"

interpretation pages: vm_frame pages_grow
proof
  fix s t u :: VM
  assume "pages_grow s t" "pages_grow t u"
  then obtain k j where "length (memory t) = length (memory s) + k * wasmPageSize"
      "length (memory u) = length (memory t) + j * wasmPageSize"
    by (auto simp: pages_grow_def)
  then have "length (memory u) = length (memory s) + (k + j) * wasmPageSize"
    by (simp add: algebra_simps)
  then show "pages_grow s u" unfolding pages_grow_def by blast
qed (auto simp: pages_grow_def)

text \<open>The code, the module and the number of globals are fixed.\<close>

definition same_program :: "VM \<Rightarrow> VM \<Rightarrow> bool" where
  "same_program s t \<longleftrightarrow>
     funcs t = funcs s \<and> v_module t = v_module s \<and> RecoverPanic t = RecoverPanic s \<and>
     length (globals t) = length (globals s)"

interpretation program: vm_frame same_program
  by unfold_locales (auto simp: same_program_def)

section \<open>Running code keeps them\<close>

text \<open>An environment for examples: host functions that return nothing, and no floats.\<close>

definition null_floats :: float_ops where
  "null_floats =
     \<lparr>f32_add = \<lambda>_ _. 0, f32_sub = \<lambda>_ _. 0, f32_mul = \<lambda>_ _. 0, f32_div = \<lambda>_ _. 0,
      f64_add = \<lambda>_ _. 0, f64_sub = \<lambda>_ _. 0, f64_mul = \<lambda>_ _. 0, f64_div = \<lambda>_ _. 0,
      f64_min = \<lambda>_ _. 0, f64_max = \<lambda>_ _. 0, f64_ceil = id, f64_floor = id, f64_trunc = id,
      f64_sqrt = id, f64_promote = \<lambda>_. 0, f64_demote = \<lambda>_. 0, f32_of_int = \<lambda>_. 0,
      f64_of_int = \<lambda>_. 0, f32_to_s32 = \<lambda>_. 0, f64_to_s32 = \<lambda>_. 0, f64_to_u32 = \<lambda>_. 0,
      f64_to_s64 = \<lambda>_. 0, f64_to_u64 = \<lambda>_. 0\<rparr>"

definition silent_host :: host_env where
  "silent_host = \<lparr>he_float = null_floats, he_call = \<lambda>_ _. ret []\<rparr>"

lemma silent_host_keeps:
  "host_keeps same_depth silent_host" "host_keeps pages_grow silent_host"
  "host_keeps same_program silent_host"
  by (simp_all add: host_keeps_def silent_host_def depth.keeps_ret pages.keeps_ret program.keeps_ret)

text \<open>A function that grows the memory by one page, and a machine about to run it.\<close>

definition grow_fn :: compiledFunction where
  "grow_fn = \<lparr>cf_code = [0x41, 1, 0, 0, 0, 0x40, 0], cf_branchTables = [], cf_maxDepth = 1,
     cf_totalLocalVars = 0, cf_args = 0, cf_returns = True\<rparr>"

definition grow_vm :: VM where
  "grow_vm = \<lparr>ctx = \<lparr>c_stack = [], c_locals = [], c_code = cf_code grow_fn, c_pc = 0, c_curFunc = 0\<rparr>,
     v_module = Module_zero, globals = [7], memory = [], funcs = [CompiledFunction grow_fn],
     RecoverPanic = True, abort = False, recursiveCallDepth = 3\<rparr>"

text \<open>C6 Running code leaves the recursion depth of the machine as it was, however it ends: by a
  result, a panic at any nesting of calls or a want of fuel, provided the host functions leave it.\<close>

theorem execCode_call_depth:
  assumes "host_keeps same_depth E"
  shows "recursiveCallDepth (snd (execCode n E c s)) = recursiveCallDepth s"
  using depth.keeps_execCode [OF assms] by (simp add: keeps_def same_depth_def)

theorem execCode_call_depth_witness:
  "recursiveCallDepth (snd (execCode 9 silent_host grow_fn grow_vm)) = 3"
  using execCode_call_depth [OF silent_host_keeps(1), of 9 grow_fn grow_vm] by (simp add: grow_vm_def)

text \<open>C7 Linear memory never shrinks and only grows by whole pages of 65536 bytes, whatever code
  runs and however it ends, so a memory that was a whole number of pages stays one.\<close>

theorem execCode_memory_pages:
  assumes "host_keeps pages_grow E"
  shows "\<exists>k. length (memory (snd (execCode n E c s))) = length (memory s) + k * wasmPageSize"
  using pages.keeps_execCode [OF assms, of n c] unfolding keeps_def pages_grow_def by blast

theorem execCode_memory_pages_witness:
  "wasmPageSize dvd length (memory (snd (execCode 9 silent_host grow_fn grow_vm)))"
  using execCode_memory_pages [OF silent_host_keeps(2), of 9 grow_fn grow_vm] by (auto simp: grow_vm_def)

text \<open>C8 Running code changes neither the functions, the module nor the recovery mode of the machine,
  and neither adds nor removes a global.\<close>

theorem execCode_program_fixed:
  assumes "host_keeps same_program E"
  shows "same_program s (snd (execCode n E c s))"
  using program.keeps_execCode [OF assms] by (simp add: keeps_def)

theorem execCode_program_fixed_witness:
  "same_program grow_vm (snd (execCode 9 silent_host grow_fn grow_vm)) \<and>
   length (globals (snd (execCode 9 silent_host grow_fn grow_vm))) = 1"
  using execCode_program_fixed [OF silent_host_keeps(3), of grow_vm 9 grow_fn]
  by (simp add: same_program_def) (simp add: grow_vm_def)

end
