(* ===== verification/VmFuel.thy ===== *)
theory VmFuel
  imports VmFrame
begin

text \<open>
  Fuel: an outcome other than \<open>OutOfFuel\<close> is the outcome with any more fuel.
  \<open>approx m m'\<close> says that \<open>m\<close> either runs out of fuel or does what \<open>m'\<close> does.
\<close>

definition approx :: "'a vm \<Rightarrow> 'a vm \<Rightarrow> bool" where
  "approx m m' \<longleftrightarrow> (\<forall>s. fst (m s) = Inl OutOfFuel \<or> m s = m' s)"

named_theorems approx_intros \<open>the methods of the machine are monotone in what they call\<close>

lemma approx_refl [approx_intros]: "approx m m"
  by (simp add: approx_def)

lemma approx_bindV [approx_intros]:
  assumes "approx m m'" "\<And>x. approx (f x) (f' x)"
  shows "approx (bindV m f) (bindV m' f')"
  unfolding approx_def
proof
  fix s :: VM
  show "fst (bindV m f s) = Inl OutOfFuel \<or> bindV m f s = bindV m' f' s"
  proof (cases "fst (m s) = Inl OutOfFuel")
    case True
    then show ?thesis by (auto simp: bindV_def split: prod.split)
  next
    case False
    then have "m s = m' s" using assms(1) by (auto simp: approx_def)
    then show ?thesis
      using assms(2) by (auto simp: bindV_def approx_def split: prod.split sum.split)
  qed
qed

lemma approx_thenV [approx_intros]: "approx m m' \<Longrightarrow> approx k k' \<Longrightarrow> approx (thenV m k) (thenV m' k')"
  unfolding thenV_def by (rule approx_bindV)

lemma approx_if [approx_intros]:
  "approx a a' \<Longrightarrow> approx b b' \<Longrightarrow> approx (if c then a else b) (if c then a' else b')"
  by simp

lemma approx_withDepth [approx_intros]: "approx m m' \<Longrightarrow> approx (withDepth m) (withDepth m')"
  unfolding approx_def
proof
  fix s :: VM
  let ?s = "s\<lparr>recursiveCallDepth := recursiveCallDepth s + 1\<rparr> :: VM"
  assume "\<forall>s. fst (m s) = Inl OutOfFuel \<or> m s = m' s"
  then have "fst (m ?s) = Inl OutOfFuel \<or> m ?s = m' ?s" by blast
  then show "fst (withDepth m s) = Inl OutOfFuel \<or> withDepth m s = withDepth m' s"
    by (auto simp: withDepth_def Let_def case_prod_unfold)
qed

lemma approx_callFunction [approx_intros]:
  assumes "\<And>c. approx (exec c) (exec' c)"
  shows "approx (callFunction exec E i) (callFunction exec' E i)"
proof -
  have "approx
      (case f of CompiledFunction c \<Rightarrow> compiledFunction_call exec c (uint i)
       | GoFunction ks h \<Rightarrow> goFunction_call E ks h
       | ContractFunction sig ks h \<Rightarrow> contractFunction_call E sig ks h)
      (case f of CompiledFunction c \<Rightarrow> compiledFunction_call exec' c (uint i)
       | GoFunction ks h \<Rightarrow> goFunction_call E ks h
       | ContractFunction sig ks h \<Rightarrow> contractFunction_call E sig ks h)" for f
    by (cases f) (simp_all add: compiledFunction_call_def assms approx_intros)
  then show ?thesis unfolding callFunction_def by (intro approx_intros)
qed

lemma approx_call:
  assumes "\<And>c. approx (exec c) (exec' c)"
  shows "approx (call exec E) (call exec' E)" "approx (callIndirect exec E) (callIndirect exec' E)"
  unfolding call_def callIndirect_def by (intro approx_intros assms)+

lemma approx_dispatch:
  assumes "list_all2 (\<lambda>(o1, h) (o2, h'). o1 = o2 \<and> approx h h') t t'"
  shows "approx (dispatch t op) (dispatch t' op)"
  using assms
proof (induction rule: list_all2_induct)
  case Nil
  then show ?case by (rule approx_refl)
next
  case (Cons x t y t')
  then show ?case by (cases x; cases y) (auto simp: dispatch_def)
qed

lemma approx_newFuncTable:
  assumes "approx c c'" "approx i i'"
  shows "list_all2 (\<lambda>(o1, h) (o2, h'). o1 = o2 \<and> approx h h')
    (newFuncTable F c i) (newFuncTable F c' i')"
  unfolding newFuncTable_def list.rel_inject(2) prod.case
  by (intro conjI list.rel_inject(1) refl assms approx_refl)

lemma approx_execCode: "approx (execCode n E c) (execCode (n + k) E c)"
proof (induction n arbitrary: c)
  case 0
  show ?case by (simp add: approx_def panic_def)
next
  case (Suc n)
  have "approx (exec_instr (newFuncTable F (call (execCode n E) E) (callIndirect (execCode n E) E)) op)
      (exec_instr (newFuncTable F (call (execCode (n + k) E) E) (callIndirect (execCode (n + k) E) E)) op)"
    for F op
    unfolding exec_instr_def
    by (intro approx_intros approx_dispatch approx_newFuncTable approx_call Suc)
  then show ?case
    unfolding execCode.simps add_Suc by (intro approx_intros Suc)
qed

text \<open>Fuel bounds the length of a run and nothing else: a run that ends within some fuel ends
  in the same outcome and the same state with any more.\<close>

theorem execCode_fuel_mono:
  assumes "fst (execCode n E c s) \<noteq> Inl OutOfFuel" "n \<le> m"
  shows "execCode m E c s = execCode n E c s"
  using approx_execCode [of n E c "m - n"] assms by (auto simp: approx_def)

end
