(* ===== verification/VmEval.thy ===== *)
theory VmEval
  imports VmFuel
begin

text \<open>
  Closed forms of the machine's operations, for the functional properties and for
  running small programs: what each primitive does to a state that is known.
\<close>

definition setStack :: "u64 list \<Rightarrow> VM \<Rightarrow> VM" where
  "setStack xs s = s\<lparr>ctx := (ctx s)\<lparr>c_stack := xs\<rparr>\<rparr>"

definition addPc :: "int \<Rightarrow> VM \<Rightarrow> VM" where
  "addPc n s = s\<lparr>ctx := (ctx s)\<lparr>c_pc := c_pc (ctx s) + n\<rparr>\<rparr>"

lemma setStack_simps [simp]:
  "ctx (setStack xs s) = (ctx s)\<lparr>c_stack := xs\<rparr>"
  "memory (setStack xs s) = memory s" "globals (setStack xs s) = globals s"
  "funcs (setStack xs s) = funcs s" "v_module (setStack xs s) = v_module s"
  "abort (setStack xs s) = abort s" "recursiveCallDepth (setStack xs s) = recursiveCallDepth s"
  "RecoverPanic (setStack xs s) = RecoverPanic s"
  "setStack xs (setStack ys s) = setStack xs s"
  by (simp_all add: setStack_def)

lemma addPc_simps [simp]:
  "ctx (addPc n s) = (ctx s)\<lparr>c_pc := c_pc (ctx s) + n\<rparr>"
  "memory (addPc n s) = memory s" "globals (addPc n s) = globals s"
  "funcs (addPc n s) = funcs s" "v_module (addPc n s) = v_module s"
  "abort (addPc n s) = abort s" "recursiveCallDepth (addPc n s) = recursiveCallDepth s"
  "RecoverPanic (addPc n s) = RecoverPanic s"
  "addPc n (setStack xs s) = setStack xs (addPc n s)"
  "addPc n (addPc k s) = addPc (k + n) s"
  by (simp_all add: addPc_def setStack_def)

section \<open>Sequencing\<close>

lemma vm_run:
  "ret x s = (Inr x, s)" "panic e s = (Inl e, s)"
  "bindV m f s = (case m s of (Inl e, s') \<Rightarrow> (Inl e, s') | (Inr x, s') \<Rightarrow> f x s')"
  "thenV m k s = (case m s of (Inl e, s') \<Rightarrow> (Inl e, s') | (Inr _, s') \<Rightarrow> k s')"
  "gets g s = (Inr (g s), s)"
  "modifyCtx h s = (Inr (), s\<lparr>ctx := h (ctx s)\<rparr>)"
  "modifyGlobals hg s = (Inr (), s\<lparr>globals := hg (globals s)\<rparr>)"
  "modifyMemory hm s = (Inr (), s\<lparr>memory := hm (memory s)\<rparr>)"
  by (simp_all add: vm_defs)

lemma bindV_Inr: "m s = (Inr x, t) \<Longrightarrow> bindV m f s = f x t"
  by (simp add: vm_run)

lemma bindV_Inl: "m s = (Inl e, t) \<Longrightarrow> bindV m f s = (Inl e, t)"
  by (simp add: vm_run)

lemma thenV_Inr: "m s = (Inr x, t) \<Longrightarrow> thenV m k s = k t"
  by (simp add: vm_run)

section \<open>Primitives\<close>

lemma popUint64_snoc:
  "c_stack (ctx s) = xs @ [a] \<Longrightarrow> popUint64 s = (Inr a, setStack xs s)"
  by (simp add: popUint64_def vm_run setStack_def)

lemma popUint32_snoc:
  "c_stack (ctx s) = xs @ [a] \<Longrightarrow> popUint32 s = (Inr (ucast a), setStack xs s)"
  by (simp add: popUint32_def vm_run popUint64_snoc)

lemma topUint64_snoc: "c_stack (ctx s) = xs @ [a] \<Longrightarrow> topUint64 s = (Inr a, s)"
  by (simp add: topUint64_def vm_run)

lemma pushUint64_eq: "pushUint64 v s = (Inr (), setStack (c_stack (ctx s) @ [v]) s)"
  by (simp add: pushUint64_def vm_run setStack_def)

lemma push_eqs:
  "pushUint32 w s = (Inr (), setStack (c_stack (ctx s) @ [ucast w]) s)"
  "pushInt32 w s = (Inr (), setStack (c_stack (ctx s) @ [scast w]) s)"
  "pushInt64 v s = (Inr (), setStack (c_stack (ctx s) @ [v]) s)"
  "pushFloat32 w s = (Inr (), setStack (c_stack (ctx s) @ [ucast w]) s)"
  "pushFloat64 v s = (Inr (), setStack (c_stack (ctx s) @ [v]) s)"
  "pushBool b s = (Inr (), setStack (c_stack (ctx s) @ [if b then 1 else 0]) s)"
  by (simp_all add: pushUint32_def pushInt32_def pushInt64_def pushFloat32_def pushFloat64_def
      pushBool_def pushUint64_eq)

text \<open>The bytes of the immediate at the program counter.\<close>

definition imm_at :: "VM \<Rightarrow> nat \<Rightarrow> byte list \<Rightarrow> bool" where
  "imm_at s n bs \<longleftrightarrow>
     0 \<le> c_pc (ctx s) \<and> nat (c_pc (ctx s)) + n \<le> length (c_code (ctx s)) \<and>
     bs = take n (drop (nat (c_pc (ctx s))) (c_code (ctx s)))"

lemma peekCode_imm: "imm_at s n bs \<Longrightarrow> peekCode n s = (Inr bs, s)"
  by (auto simp: peekCode_def vm_run imm_at_def)

lemma fetchUint32_imm: "imm_at s 4 bs \<Longrightarrow> fetchUint32 s = (Inr (le_get bs), addPc 4 s)"
  by (simp add: fetchUint32_def vm_run peekCode_imm addPc_def)

lemma fetchUint64_imm: "imm_at s 8 bs \<Longrightarrow> fetchUint64 s = (Inr (le_get bs), addPc 8 s)"
  by (simp add: fetchUint64_def vm_run peekCode_imm addPc_def)

lemma fetchInt64_imm: "imm_at s 8 bs \<Longrightarrow> fetchInt64 s = (Inr (sint (le_get bs :: u64)), addPc 8 s)"
  by (simp add: fetchInt64_def vm_run fetchUint64_imm)

lemma fetchInt8_eq:
  "0 \<le> c_pc (ctx s) \<Longrightarrow> c_pc (ctx s) < int (length (c_code (ctx s))) \<Longrightarrow>
   fetchInt8 s = (Inr (c_code (ctx s) ! nat (c_pc (ctx s))), addPc 1 s)"
  by (auto simp: fetchInt8_def vm_run addPc_def)

lemma imm_at_setStack [simp]: "imm_at (setStack xs s) n bs = imm_at s n bs"
  by (simp add: imm_at_def)

section \<open>Shapes\<close>

lemma unop_snoc:
  assumes "pop s = (Inr x, t)"
  shows "unop pop push f s = push (f x) t"
  by (simp add: unop_def vm_run assms)

lemma binop_snoc:
  assumes "pop s = (Inr x2, t)" "pop t = (Inr x1, u)"
  shows "binop pop push f s = push (f x1 x2) u"
    and "binop12 pop push f s = push (f x2 x1) u"
  by (simp_all add: binop_def binop12_def vm_run assms)

lemma divop_snoc:
  assumes "pop s = (Inr x2, t)" "pop t = (Inr x1, u)"
  shows "divop pop push f s = (if x2 = 0 then (Inl (GoPanic DivideByZero), u) else push (f x1 x2) u)"
  by (simp add: divop_def vm_run assms)

lemma pop2_snoc:
  assumes "c_stack (ctx s) = xs @ [a, b]"
  shows "popUint64 s = (Inr b, setStack (xs @ [a]) s)"
    and "popUint64 (setStack (xs @ [a]) s) = (Inr a, setStack xs s)"
    and "popUint32 s = (Inr (ucast b), setStack (xs @ [a]) s)"
    and "popUint32 (setStack (xs @ [a]) s) = (Inr (ucast a), setStack xs s)"
  using popUint64_snoc [of s "xs @ [a]" b] popUint32_snoc [of s "xs @ [a]" b] assms
  by (simp_all add: popUint64_snoc popUint32_snoc)

section \<open>Steps of the loop\<close>

lemma execCode_step:
  assumes "running s" "recursiveCallDepth s \<le> 1024" "0 \<le> c_pc (ctx s)"
    and "exec_instr (newFuncTable (he_float E) (call (execCode n E) E) (callIndirect (execCode n E) E))
           (c_code (ctx s) ! nat (c_pc (ctx s))) (addPc 1 s) = (Inr False, t)"
  shows "execCode (Suc n) E c s = execCode n E c t"
  using assms by (simp add: vm_run fetchInt8_eq running_def)

lemma execCode_done:
  "\<not> running s \<Longrightarrow> execCode (Suc n) E c s = exec_result c s"
  by (simp add: vm_run)

lemma execCode_limit:
  "running s \<Longrightarrow> recursiveCallDepth s > 1024 \<Longrightarrow>
   execCode (Suc n) E c s = (Inl RecursiveCallLimit, s)"
  by (simp add: vm_run)

definition plain_op :: "byte \<Rightarrow> bool" where
  "plain_op op \<longleftrightarrow>
     op \<notin> {Return, OpJmp, OpJmpZ, OpJmpNz, BrTable, OpDiscard, OpDiscardPreserveTop}"

lemma exec_instr_plain:
  assumes "plain_op op" "dispatch tbl op s = (Inr (), t)"
  shows "exec_instr tbl op s = (Inr False, t)"
  using assms by (simp add: exec_instr_def plain_op_def vm_run)

end
