(* ===== verification/VmNumProps.thy ===== *)
theory VmNumProps
  imports VmEval
begin

text \<open>
  The integer instructions against what WebAssembly defines for them: the word
  operation on the operands, traps of division, shift counts, rotations and the bit
  counts of \<^verbatim>\<open>math/bits\<close>; and \<^verbatim>\<open>copysign\<close>.
\<close>

section \<open>Binary instructions\<close>

definition i32_binops :: "(unit vm \<times> (u32 \<Rightarrow> u32 \<Rightarrow> u32)) list" where
  "i32_binops =
     [(i32Add, \<lambda>x y. x + y), (i32Sub, \<lambda>x y. x - y), (i32Mul, \<lambda>x y. x * y),
      (i32And, \<lambda>x y. x AND y), (i32Or, \<lambda>x y. x OR y), (i32Xor, \<lambda>x y. x XOR y),
      (i32Rotl, \<lambda>x y. word_rotl (unat y) x), (i32Rotr, \<lambda>x y. word_rotr (unat y) x)]"

definition i64_binops :: "(unit vm \<times> (u64 \<Rightarrow> u64 \<Rightarrow> u64)) list" where
  "i64_binops =
     [(i64Add, \<lambda>x y. x + y), (i64Sub, \<lambda>x y. x - y), (i64Mul, \<lambda>x y. x * y),
      (i64And, \<lambda>x y. x AND y), (i64Or, \<lambda>x y. x OR y), (i64Xor, \<lambda>x y. x XOR y),
      (i64Rotl, \<lambda>x y. word_rotl (unat y) x), (i64Rotr, \<lambda>x y. word_rotr (unat y) x)]"

definition i32_relops :: "(unit vm \<times> (u32 \<Rightarrow> u32 \<Rightarrow> bool)) list" where
  "i32_relops =
     [(i32Eq, \<lambda>x y. x = y), (i32Ne, \<lambda>x y. x \<noteq> y), (i32LtS, \<lambda>x y. x <s y), (i32LtU, \<lambda>x y. x < y),
      (i32GtS, \<lambda>x y. y <s x), (i32GtU, \<lambda>x y. y < x), (i32LeS, \<lambda>x y. x \<le>s y), (i32LeU, \<lambda>x y. x \<le> y),
      (i32GeS, \<lambda>x y. y \<le>s x), (i32GeU, \<lambda>x y. y \<le> x)]"

lemma bit_RotateLeft:
  fixes x :: "'a::len word"
  assumes "i < LENGTH('a)"
  shows "bit (RotateLeft x k) i \<longleftrightarrow> bit x (nat ((int i - k) mod int LENGTH('a)))"
proof -
  let ?n = "LENGTH('a)"
  let ?s = "nat (k mod int ?n)"
  have s: "int ?s = k mod int ?n" "?s < ?n" by (simp_all add: nat_less_iff)
  have m: "(int i - k) mod int ?n = (int i - int ?s) mod int ?n"
    unfolding s(1) by (simp add: mod_diff_right_eq)
  show ?thesis
  proof (cases "?s \<le> i")
    case True
    then have "(int i - int ?s) mod int ?n = int (i - ?s) mod int ?n" by (simp only: of_nat_diff)
    also have "\<dots> = int (i - ?s)" using assms by simp
    finally have "(int i - int ?s) mod int ?n = int (i - ?s)" .
    then have "nat ((int i - k) mod int ?n) = i - ?s" using m by simp
    moreover have "\<not> bit x (?n - ?s + i)" using True s(2) by (auto dest: bit_imp_le_length)
    ultimately show ?thesis
      using True assms by (auto simp: RotateLeft_def Let_def bit_simps)
  next
    case False
    then have "(int i - int ?s) mod int ?n = int i - int ?s + int ?n"
      using s(2) assms by (intro mod_pos_pos_trivial [THEN trans [rotated], OF _ _ mod_add_self2 [symmetric]]) simp_all
    then have "nat ((int i - k) mod int ?n) = ?n - ?s + i" using m False s(2) by simp
    then show ?thesis
      using False s(2) assms by (auto simp: RotateLeft_def Let_def bit_simps)
  qed
qed

lemma RotateLeft_roti: "RotateLeft x k = word_roti (- k) x"
  by (rule bit_word_eqI) (simp add: bit_RotateLeft bit_word_roti_iff del: word_roti_eq_word_rotr_word_rotl)

lemma word_roti_cong_rotr:
  fixes x :: "'a::len word"
  assumes "k mod int LENGTH('a) = int m mod int LENGTH('a)"
  shows "word_roti k x = word_rotr m x"
proof (rule bit_word_eqI)
  fix i
  have "(int i + k) mod int LENGTH('a) = (int i + int m) mod int LENGTH('a)"
    using assms by (metis mod_add_right_eq)
  then have "nat ((int i + k) mod int LENGTH('a)) = (i + m) mod LENGTH('a)"
    by (metis nat_int of_nat_add zmod_int)
  then show "bit (word_roti k x) i = bit (word_rotr m x) i"
    by (simp add: bit_word_roti_iff bit_word_rotr_iff del: word_roti_eq_word_rotr_word_rotl)
qed

lemma sint_mod_64: "sint (v :: u64) mod 64 = int (unat v) mod 64"
proof -
  have "int (unat v) = sint v mod 2 ^ 64"
    by (simp add: uint_sint take_bit_eq_mod flip: uint_nat)
  moreover have "sint v mod 2 ^ 64 mod 64 = sint v mod 64"
    by (rule mod_mod_cancel) simp
  ultimately show ?thesis by simp
qed

lemma rotl_roti: "word_rotl m x = word_roti (- int m) x"
  by (rule bit_word_eqI)
    (simp add: bit_word_rotl_iff bit_word_rotr_iff)
lemma word_roti_cong:
  fixes x :: "'a::len word"
  assumes "k mod int LENGTH('a) = j mod int LENGTH('a)"
  shows "word_roti k x = word_roti j x"
  using word_roti_cong_rotr [of k "nat (j mod int LENGTH('a))" x]
    word_roti_cong_rotr [of j "nat (j mod int LENGTH('a))" x] assms by simp

lemma RotateLeft_words:
  "RotateLeft x (uint (y :: u32)) = word_rotl (unat y) x"
  "RotateLeft x (- uint y) = word_rotr (unat y) x"
  "RotateLeft z (sint (v :: u64)) = word_rotl (unat v) z"
  "RotateLeft z (- sint v) = word_rotr (unat v) z"
  for x :: u32 and z :: u64
proof -
  show "RotateLeft x (uint y) = word_rotl (unat y) x"
    by (simp only: RotateLeft_roti rotl_roti) simp
  show "RotateLeft x (- uint y) = word_rotr (unat y) x"
    unfolding RotateLeft_roti by (rule word_roti_cong_rotr) simp
  show "RotateLeft z (- sint v) = word_rotr (unat v) z"
    unfolding RotateLeft_roti by (rule word_roti_cong_rotr) (simp add: sint_mod_64)
  have "- sint v mod int LENGTH(64) = - int (unat v) mod int LENGTH(64)"
    using sint_mod_64 [of v] by (simp, metis mod_minus_eq)
  then show "RotateLeft z (sint v) = word_rotl (unat v) z"
    unfolding RotateLeft_roti rotl_roti by (rule word_roti_cong)
qed

lemma integer_binops:
  assumes "c_stack (ctx s) = xs @ [a, b]"
  shows "list_all (\<lambda>(h, f). h s = (Inr (), setStack (xs @ [ucast (f (ucast a) (ucast b))]) s)) i32_binops"
    and "list_all (\<lambda>(h, f). h s = (Inr (), setStack (xs @ [f a b]) s)) i64_binops"
proof -
  note pops = pop2_snoc [OF assms]
  note b32 = binop_snoc [OF pops(3,4)] and b64 = binop_snoc [OF pops(1,2)]
  show "list_all (\<lambda>(h, f). h s = (Inr (), setStack (xs @ [ucast (f (ucast a) (ucast b))]) s)) i32_binops"
    by (simp add: i32_binops_def i32Add_def i32Sub_def i32Mul_def i32And_def i32Or_def i32Xor_def
        i32Rotl_def i32Rotr_def b32 push_eqs RotateLeft_words ac_simps)
  show "list_all (\<lambda>(h, f). h s = (Inr (), setStack (xs @ [f a b]) s)) i64_binops"
    by (simp add: i64_binops_def i64Add_def i64Sub_def i64Mul_def i64And_def i64Or_def i64Xor_def
        i64Rotl_def i64Rotr_def popInt64_def b64 push_eqs pushUint64_eq RotateLeft_words ac_simps)
qed

text \<open>Addition, subtraction, multiplication, the bitwise operations and the rotations replace
  the two operands on top of the stack by the 32-bit or 64-bit result WebAssembly defines, and touch
  nothing else.\<close>

theorem integer_binops_spec:
  assumes "c_stack (ctx s) = xs @ [a, b]"
  shows "list_all (\<lambda>(h, f). h s = (Inr (), setStack (xs @ [ucast (f (ucast a) (ucast b))]) s)) i32_binops \<and>
    list_all (\<lambda>(h, f). h s = (Inr (), setStack (xs @ [f a b]) s)) i64_binops"
  using integer_binops [OF assms] by blast

definition arith_vm :: "u64 list \<Rightarrow> VM" where
  "arith_vm xs = setStack xs grow_vm"

lemma arith_vm_stack [simp]: "c_stack (ctx (arith_vm xs)) = xs"
  by (simp add: arith_vm_def)

theorem integer_binops_spec_witness:
  "i32Sub (arith_vm [9, 5, 7]) = (Inr (), setStack [9, ucast (5 - 7 :: u32)] (arith_vm [9, 5, 7]))"
  using integer_binops_spec [of "arith_vm [9, 5, 7]" "[9]" 5 7] by (simp add: i32_binops_def)

section \<open>Shifts\<close>

text \<open>WebAssembly takes a shift count modulo the width.\<close>

definition wasm_shl :: "'a::len word \<Rightarrow> 'a word \<Rightarrow> 'a word" where
  "wasm_shl x y = push_bit (unat y mod LENGTH('a)) x"

definition wasm_shr_u :: "'a::len word \<Rightarrow> 'a word \<Rightarrow> 'a word" where
  "wasm_shr_u x y = drop_bit (unat y mod LENGTH('a)) x"

definition wasm_shr_s :: "'a::len word \<Rightarrow> 'a word \<Rightarrow> 'a word" where
  "wasm_shr_s x y = signed_drop_bit (unat y mod LENGTH('a)) x"

lemma shift_out:
  fixes x :: "'a::len word"
  assumes "LENGTH('a) \<le> n"
  shows "push_bit n x = 0" "drop_bit n x = 0" "signed_drop_bit n x = (if sint x < 0 then - 1 else 0)"
proof -
  show "push_bit n x = 0" "drop_bit n x = 0"
    using assms by (auto intro!: bit_word_eqI simp: bit_simps dest: bit_imp_le_length)
  have "bit x (LENGTH('a) - Suc 0) \<longleftrightarrow> sint x < 0"
    by (simp add: not_le bit_last_iff)
  then show "signed_drop_bit n x = (if sint x < 0 then - 1 else 0)"
    using assms by (auto intro!: bit_word_eqI simp: bit_signed_drop_bit_iff)
qed

lemma i32_shifts:
  assumes "c_stack (ctx s) = xs @ [a, b]"
  defines "x \<equiv> ucast a :: u32" and "y \<equiv> ucast b :: u32"
  shows "i32Shl s = (Inr (), setStack (xs @ [ucast (if unat y < 32 then wasm_shl x y else 0)]) s)"
    and "i32ShrU s = (Inr (), setStack (xs @ [ucast (if unat y < 32 then wasm_shr_u x y else 0)]) s)"
    and "i32ShrS s = (Inr (), setStack (xs @
           [scast (if unat y < 32 then wasm_shr_s x y else if sint x < 0 then - 1 else 0)]) s)"
proof -
  note pops = pop2_snoc [OF assms(1)]
  note b32 = binop_snoc [OF pops(3,4)]
  have out: "32 \<le> unat y" if "\<not> unat y < 32" using that by simp
  show "i32Shl s = (Inr (), setStack (xs @ [ucast (if unat y < 32 then wasm_shl x y else 0)]) s)"
    "i32ShrU s = (Inr (), setStack (xs @ [ucast (if unat y < 32 then wasm_shr_u x y else 0)]) s)"
    using shift_out(1,2) [of "unat y" x] out
    by (auto simp: i32Shl_def i32ShrU_def b32 push_eqs wasm_shl_def wasm_shr_u_def x_def y_def)
  show "i32ShrS s = (Inr (), setStack (xs @
           [scast (if unat y < 32 then wasm_shr_s x y else if sint x < 0 then - 1 else 0)]) s)"
    using shift_out(3) [of "unat y" x] out
    by (auto simp: i32ShrS_def b32 push_eqs wasm_shr_s_def x_def y_def)
qed

text \<open>A shift by less than the width is the WebAssembly shift.  A shift by the width or more is
  not: WebAssembly reduces the count, the machine shifts every bit out, leaving zero, or the sign in
  every bit for an arithmetic shift.\<close>

theorem i32_shifts_spec:
  assumes "c_stack (ctx s) = xs @ [a, b]" and "x = (ucast a :: u32)" "y = (ucast b :: u32)"
  shows "i32Shl s = (Inr (), setStack (xs @ [ucast (if unat y < 32 then wasm_shl x y else 0)]) s) \<and>
    i32ShrU s = (Inr (), setStack (xs @ [ucast (if unat y < 32 then wasm_shr_u x y else 0)]) s) \<and>
    i32ShrS s = (Inr (), setStack (xs @
      [scast (if unat y < 32 then wasm_shr_s x y else if sint x < 0 then - 1 else 0)]) s)"
  using i32_shifts [OF assms(1)] unfolding assms(2,3) by blast

theorem i32_shifts_spec_witness:
  "i32Shl (arith_vm [1, 33]) = (Inr (), setStack [0] (arith_vm [1, 33])) \<and>
   wasm_shl (1 :: u32) 33 = 2"
  using i32_shifts_spec [of "arith_vm [1, 33]" "[]" 1 33 1 33] by (simp add: wasm_shl_def)

section \<open>Division\<close>

text \<open>The one quotient that does not fit: the least integer by minus one.\<close>

definition div_overflow :: "'a::len word \<Rightarrow> 'a word \<Rightarrow> bool" where
  "div_overflow v1 v2 \<longleftrightarrow> sint v1 = - (2 ^ (LENGTH('a) - 1)) \<and> sint v2 = - 1"

lemma sint_of_int_range:
  "- (2 ^ (LENGTH('a) - 1)) \<le> k \<Longrightarrow> k < 2 ^ (LENGTH('a) - 1) \<Longrightarrow>
   sint (word_of_int k :: 'a::len word) = k"
  by (simp add: signed_of_int signed_take_bit_int_eq_self)

lemma sint_range:
  "- (2 ^ (LENGTH('a) - 1)) \<le> sint (v :: 'a::len word)" "sint v < 2 ^ (LENGTH('a) - 1)"
  using sint_ge [of v] sint_lt [of v] by simp_all

lemma go_div_sdiv:
  fixes v1 v2 :: "'a::len word"
  assumes "\<not> div_overflow v1 v2"
  shows "sint (go_div v1 v2) = sint v1 sdiv sint v2"
proof -
  let ?q = "sint v1 sdiv sint v2" and ?m = "2 ^ (LENGTH('a) - 1) :: int"
  have q: "- \<bar>sint v1\<bar> \<le> ?q" "?q \<le> \<bar>sint v1\<bar>"
    using sdiv_int_range [of "sint v1" "sint v2"] by simp_all
  note r = sint_range [of v1]
  have "?q \<noteq> ?m"
  proof
    assume eq: "?q = ?m"
    with q r have v: "sint v1 = - ?m" by linarith
    then have "sint v1 \<noteq> 0" by simp
    then have "sint v2 = - 1" using eq v int_sdiv_negated_is_minus1 [of "sint v1" "sint v2"] by simp
    with v assms show False by (simp add: div_overflow_def)
  qed
  moreover have "- ?m \<le> ?q" "?q \<le> ?m" using q r by linarith+
  ultimately show ?thesis unfolding go_div_def by (intro sint_of_int_range) simp_all
qed

lemma go_div_overflow:
  fixes v1 v2 :: "'a::len word"
  assumes "div_overflow v1 v2"
  shows "go_div v1 v2 = v1"
proof -
  let ?m = "2 ^ (LENGTH('a) - 1) :: int"
  have s: "sint v1 = - ?m" "sint v2 = - 1" using assms by (simp_all add: div_overflow_def)
  have "(2 :: int) ^ LENGTH('a) = ?m + ?m"
    by (metis One_nat_def Suc_pred len_gt_0 mult_2 power_Suc)
  then have "(word_of_int ?m :: 'a word) + word_of_int ?m = 0"
    by (metis of_int_add word_of_int_2p_len)
  then have "(word_of_int ?m :: 'a word) = - word_of_int ?m" by (simp add: eq_neg_iff_add_eq_0)
  moreover have "v1 = - word_of_int ?m"
  proof -
    have "v1 = word_of_int (sint v1)" unfolding scast_eq [symmetric] by simp
    then show ?thesis unfolding s(1) by simp
  qed
  ultimately show ?thesis by (simp add: go_div_def s)
qed

lemma go_rem_smod:
  fixes v1 v2 :: "'a::len word"
  assumes "v2 \<noteq> 0"
  shows "sint (go_rem v1 v2) = sint v1 smod sint v2"
proof -
  have "sint v2 \<noteq> 0" using assms signed_word_eqI [of v2 0] by auto
  from smod_int_range [OF this, of "sint v1"] show ?thesis
    unfolding go_rem_def using sint_range [of v2] by (intro sint_of_int_range) auto
qed

lemma i32_signed_division:
  assumes "c_stack (ctx s) = xs @ [a, b]"
  defines "x \<equiv> ucast a :: u32" and "y \<equiv> ucast b :: u32"
  shows "y = 0 \<Longrightarrow> i32DivS s = (Inl (GoPanic DivideByZero), setStack xs s) \<and>
      i32RemS s = (Inl (GoPanic DivideByZero), setStack xs s)"
    and "y \<noteq> 0 \<Longrightarrow> \<exists>q r. i32DivS s = (Inr (), setStack (xs @ [scast q]) s) \<and>
      i32RemS s = (Inr (), setStack (xs @ [scast r]) s) \<and> sint (r :: u32) = sint x smod sint y \<and>
      (if div_overflow x y then q = x else sint q = sint x sdiv sint y)"
proof -
  note pops = pop2_snoc [OF assms(1)]
  note d = divop_snoc [where pop = popUint32, OF pops(3,4)]
  show "y = 0 \<Longrightarrow> i32DivS s = (Inl (GoPanic DivideByZero), setStack xs s) \<and>
      i32RemS s = (Inl (GoPanic DivideByZero), setStack xs s)"
    by (simp add: i32DivS_def i32RemS_def popInt32_def d y_def)
  assume "y \<noteq> 0"
  then have "i32DivS s = (Inr (), setStack (xs @ [scast (go_div x y)]) s)"
    "i32RemS s = (Inr (), setStack (xs @ [scast (go_rem x y)]) s)"
    by (simp_all add: i32DivS_def i32RemS_def popInt32_def d push_eqs x_def y_def)
  then show "\<exists>q r. i32DivS s = (Inr (), setStack (xs @ [scast q]) s) \<and>
      i32RemS s = (Inr (), setStack (xs @ [scast r]) s) \<and> sint (r :: u32) = sint x smod sint y \<and>
      (if div_overflow x y then q = x else sint q = sint x sdiv sint y)"
    using go_rem_smod [OF \<open>y \<noteq> 0\<close>, of x] go_div_sdiv [of x y] go_div_overflow [of x y] by metis
qed

text \<open>Signed division of 32-bit operands: a zero divisor is a run-time panic; otherwise the
  quotient and the remainder of truncating division are pushed, except that the least integer
  divided by minus one gives itself, where WebAssembly traps.\<close>

theorem i32_signed_division_spec:
  assumes "c_stack (ctx s) = xs @ [a, b]" and "x = (ucast a :: u32)" "y = (ucast b :: u32)"
  shows "if y = 0
    then i32DivS s = (Inl (GoPanic DivideByZero), setStack xs s) \<and>
      i32RemS s = (Inl (GoPanic DivideByZero), setStack xs s)
    else \<exists>q r. i32DivS s = (Inr (), setStack (xs @ [scast q]) s) \<and>
      i32RemS s = (Inr (), setStack (xs @ [scast r]) s) \<and> sint (r :: u32) = sint x smod sint y \<and>
      (if div_overflow x y then q = x else sint q = sint x sdiv sint y)"
  using i32_signed_division [OF assms(1)] unfolding assms(2,3) by simp

theorem i32_signed_division_spec_witness:
  "\<exists>q r. i32DivS (arith_vm [- 7, 2]) = (Inr (), setStack [scast (q :: u32)] (arith_vm [- 7, 2])) \<and>
     i32RemS (arith_vm [- 7, 2]) = (Inr (), setStack [scast (r :: u32)] (arith_vm [- 7, 2])) \<and>
     sint r = - 1 \<and> sint q = - 3"
proof -
  have st: "c_stack (ctx (arith_vm [- 7, 2])) = [] @ [- 7, 2]" by simp
  have ops: "(ucast (- 7 :: u64) :: u32) = - 7" "(ucast (2 :: u64) :: u32) = 2" by simp_all
  have no: "\<not> div_overflow (- 7 :: u32) 2" by (simp add: div_overflow_def)
  show ?thesis
    using i32_signed_division_spec [OF st refl refl, unfolded ops if_not_P [OF no]] by simp
qed

section \<open>Counting bits\<close>

lemma bits_finite: "finite {i. bit (w :: 'a::len word) i}"
  by (rule finite_subset [of _ "{..<LENGTH('a)}"]) (auto dest: bit_imp_le_length)

lemma bits_empty: "{i. bit (w :: 'a::len word) i} = {} \<longleftrightarrow> w = 0"
  by (auto intro: bit_word_eqI)

lemma upt_split: "m < n \<Longrightarrow> [0..<n] = [0..<m] @ m # [Suc m..<n]"
  using upt_add_eq_append [of 0 m "n - m"] by (simp add: upt_conv_Cons)

lemma takeWhile_all: "takeWhile (\<lambda>_. True) xs = xs"
  by (induction xs) simp_all

lemma LeadingZeros_Max:
  fixes w :: "'a::len word"
  assumes "w \<noteq> 0"
  shows "LeadingZeros w = LENGTH('a) - Suc (Max {i. bit w i})"
proof -
  define m where "m = Max {i. bit w i}"
  have "m \<in> {i. bit w i}"
    unfolding m_def using assms bits_finite bits_empty by (intro Max_in) auto
  then have m: "bit w m" by simp
  then have "m < LENGTH('a)" by (rule bit_imp_le_length)
  then have "[0..<LENGTH('a)] = [0..<m] @ m # [Suc m..<LENGTH('a)]" by (rule upt_split)
  then have l: "rev [0..<LENGTH('a)] = rev [Suc m..<LENGTH('a)] @ m # rev [0..<m]" by simp
  have "\<not> bit w i" if "i \<in> set (rev [Suc m..<LENGTH('a)])" for i
  proof
    assume "bit w i"
    then have "i \<le> m" unfolding m_def by (intro Max_ge bits_finite CollectI)
    with that show False by simp
  qed
  then have "takeWhile (\<lambda>i. \<not> bit w i) (rev [0..<LENGTH('a)]) = rev [Suc m..<LENGTH('a)]"
    unfolding l using m by (subst takeWhile_append2) simp_all
  then show ?thesis by (simp add: LeadingZeros_def m_def)
qed

lemma TrailingZeros_Min:
  fixes w :: "'a::len word"
  assumes "w \<noteq> 0"
  shows "TrailingZeros w = Min {i. bit w i}"
proof -
  define m where "m = Min {i. bit w i}"
  have "m \<in> {i. bit w i}"
    unfolding m_def using assms bits_finite bits_empty by (intro Min_in) auto
  then have m: "bit w m" by simp
  then have "m < LENGTH('a)" by (rule bit_imp_le_length)
  then have l: "[0..<LENGTH('a)] = [0..<m] @ m # [Suc m..<LENGTH('a)]" by (rule upt_split)
  have "\<not> bit w i" if "i \<in> set [0..<m]" for i
  proof
    assume "bit w i"
    then have "m \<le> i" unfolding m_def by (intro Min_le bits_finite CollectI)
    with that show False by simp
  qed
  then have "takeWhile (\<lambda>i. \<not> bit w i) [0..<LENGTH('a)] = [0..<m]"
    unfolding l using m by (subst takeWhile_append2) simp_all
  then show ?thesis by (simp add: TrailingZeros_def m_def)
qed

lemma bit_counts:
  fixes w :: "'a::len word"
  shows "LeadingZeros w = LENGTH('a) - (if w = 0 then 0 else Suc (Max {i. bit w i}))"
    and "TrailingZeros w = (if w = 0 then LENGTH('a) else Min {i. bit w i})"
    and "OnesCount w = card {i. bit w i}"
proof -
  show "LeadingZeros w = LENGTH('a) - (if w = 0 then 0 else Suc (Max {i. bit w i}))"
    using LeadingZeros_Max [of w] by (simp add: LeadingZeros_def [of 0] takeWhile_all)
  show "TrailingZeros w = (if w = 0 then LENGTH('a) else Min {i. bit w i})"
    using TrailingZeros_Min [of w] by (simp add: TrailingZeros_def [of 0] takeWhile_all)
  have "OnesCount w = card (set (filter (\<lambda>i. bit w i) [0..<LENGTH('a)]))"
    unfolding OnesCount_def by (rule distinct_card [symmetric]) simp
  also have "set (filter (\<lambda>i. bit w i) [0..<LENGTH('a)]) = {i. bit w i}"
    by (auto dest: bit_imp_le_length)
  finally show "OnesCount w = card {i. bit w i}" .
qed

definition clz :: "'a::len word \<Rightarrow> nat" where
  "clz w = LENGTH('a) - (if w = 0 then 0 else Suc (Max {i. bit w i}))"

definition ctz :: "'a::len word \<Rightarrow> nat" where
  "ctz w = (if w = 0 then LENGTH('a) else Min {i. bit w i})"

definition popcnt :: "'a::len word \<Rightarrow> nat" where
  "popcnt w = card {i. bit w i}"

text \<open>The counting instructions replace the operand by the number of zeros above its highest set
  bit, of zeros below its lowest one, and of set bits, all zeros counting as the width, at 32 and 64
  bits.\<close>

theorem bit_counts_spec:
  assumes "c_stack (ctx s) = xs @ [a]"
  shows "list_all (\<lambda>(h, n). h s = (Inr (), setStack (xs @ [of_nat n]) s))
    [(i32Clz, clz (ucast a :: u32)), (i32Ctz, ctz (ucast a :: u32)), (i32Popcnt, popcnt (ucast a :: u32)),
     (i64Clz, clz a), (i64Ctz, ctz a), (i64Popcnt, popcnt a)]"
  by (simp add: i32Clz_def i32Ctz_def i32Popcnt_def i64Clz_def i64Ctz_def i64Popcnt_def
      unop_snoc [where pop = popUint64, OF popUint64_snoc [OF assms]]
      unop_snoc [where pop = popUint32, OF popUint32_snoc [OF assms]] push_eqs
      pushUint64_eq bit_counts clz_def ctz_def popcnt_def)

theorem bit_counts_spec_witness:
  "i32Ctz (arith_vm [3, 40]) = (Inr (), setStack [3, 3] (arith_vm [3, 40]))"
proof -
  have "ctz (ucast (40 :: u64) :: u32) = 3"
    unfolding ctz_def bit_counts(2) [symmetric] by code_simp
  with bit_counts_spec [of "arith_vm [3, 40]" "[3]" 40] show ?thesis by simp
qed

section \<open>Sign of a float\<close>

text \<open>\<^verbatim>\<open>f64.copysign\<close> takes the magnitude of the operand on top of the stack and the sign of
  the one below it; WebAssembly takes them the other way round.\<close>

theorem f64Copysign_swapped:
  assumes "c_stack (ctx s) = xs @ [z1, z2]"
  shows "f64Copysign s = (Inr (), setStack (xs @ [f64_copysign z2 z1]) s)"
  by (simp add: f64Copysign_def popFloat64_def push_eqs binop_snoc(2) [OF pop2_snoc(1,2) [OF assms]])

theorem f64Copysign_swapped_witness:
  "f64Copysign (arith_vm [0x3ff0000000000000, 0xc000000000000000]) =
     (Inr (), setStack [0x4000000000000000] (arith_vm [0x3ff0000000000000, 0xc000000000000000])) \<and>
   f64_copysign 0x3ff0000000000000 0xc000000000000000 = 0xbff0000000000000"
proof -
  have "f64_copysign 0xc000000000000000 0x3ff0000000000000 = 0x4000000000000000"
    "f64_copysign 0x3ff0000000000000 0xc000000000000000 = 0xbff0000000000000"
    by code_simp+
  with f64Copysign_swapped [of "arith_vm [0x3ff0000000000000, 0xc000000000000000]" "[]"]
  show ?thesis by simp
qed

end
