(* ===== verification/VmMemProps.thy ===== *)
theory VmMemProps
  imports VmNumProps
begin

text \<open>
  Linear memory: what every load and store does at its effective address, in and out
  of bounds; storing and loading back; growing; and the accesses of host functions.
\<close>

section \<open>Effective addresses\<close>

text \<open>The address of an access: immediate offset plus base, modulo \<open>2 ^ 32\<close>.\<close>

definition eff_addr :: "byte list \<Rightarrow> u64 \<Rightarrow> nat" where
  "eff_addr imm base = unat (le_get imm + ucast base :: u32)"

definition setMemory :: "byte list \<Rightarrow> VM \<Rightarrow> VM" where
  "setMemory m s = s\<lparr>memory := m\<rparr>"

lemma setMemory_same: "setMemory (memory s) s = s"
  by (simp add: setMemory_def)

lemma checkBounds_eq:
  assumes "imm_at s 4 imm" "c_stack (ctx s) = xs @ [a]"
  shows "checkBounds k s =
    (if eff_addr imm a + k < length (memory s) then (Inr (), s) else (Inl ErrOutOfBoundsMemoryAccess, s))"
  using assms
  by (simp add: checkBounds_def inBounds_def vm_run peekCode_imm topUint64_snoc eff_addr_def)

lemma fetchBaseAddr_eq:
  assumes "imm_at s 4 imm" "c_stack (ctx s) = xs @ [a]"
  shows "fetchBaseAddr s = (Inr (eff_addr imm a), setStack xs (addPc 4 s))"
  using assms popUint32_snoc [of "addPc 4 s" xs a]
  by (simp add: fetchBaseAddr_def vm_run fetchUint32_imm popInt32_def eff_addr_def)

lemma memBytes_eq:
  assumes "imm_at s 4 imm" "c_stack (ctx s) = xs @ [a]" "eff_addr imm a + n \<le> length (memory s)"
  shows "memBytes n s = (Inr (take n (drop (eff_addr imm a) (memory s))), setStack xs (addPc 4 s))"
  using assms by (auto simp: memBytes_def curMem_def vm_run fetchBaseAddr_eq)

lemma memByte_eq:
  assumes "imm_at s 4 imm" "c_stack (ctx s) = xs @ [a]" "eff_addr imm a < length (memory s)"
  shows "memByte s = (Inr (memory s ! eff_addr imm a), setStack xs (addPc 4 s))"
  using assms by (simp add: memByte_def vm_run fetchBaseAddr_eq)

lemma storeBytes_eq:
  assumes "imm_at s 4 imm" "c_stack (ctx s) = xs @ [a]" "eff_addr imm a + n \<le> length (memory s)"
  shows "storeBytes n bs s =
    (Inr (), setMemory (go_copy_at (eff_addr imm a) (memory s) bs) (setStack xs (addPc 4 s)))"
  using assms by (auto simp: storeBytes_def curMem_def vm_run fetchBaseAddr_eq setMemory_def)

lemma storeByte_eq:
  assumes "imm_at s 4 imm" "c_stack (ctx s) = xs @ [a]" "eff_addr imm a < length (memory s)"
  shows "storeByte b s =
    (Inr (), setMemory (go_copy_at (eff_addr imm a) (memory s) [b]) (setStack xs (addPc 4 s)))"
proof -
  have "(memory s)[eff_addr imm a := b] = go_copy_at (eff_addr imm a) (memory s) [b]"
    using assms(3) by (auto intro!: nth_equalityI simp: nth_go_copy_at nth_list_update)
  with assms show ?thesis
    by (simp add: storeByte_def vm_run fetchBaseAddr_eq setMemory_def)
qed

section \<open>Loads and stores\<close>

text \<open>Each load with its width and the operand it pushes for the bytes it reads.\<close>

definition loads :: "(unit vm \<times> nat \<times> (byte list \<Rightarrow> u64)) list" where
  "loads =
     [(i32Load, 4, \<lambda>bs. ucast (le_get bs :: u32)),
      (i32Load8s, 1, \<lambda>bs. scast (scast (hd bs) :: u32)),
      (i32Load8u, 1, \<lambda>bs. ucast (ucast (hd bs) :: u32)),
      (i32Load16s, 2, \<lambda>bs. scast (scast (le_get bs :: u16) :: u32)),
      (i32Load16u, 2, \<lambda>bs. ucast (ucast (le_get bs :: u16) :: u32)),
      (i64Load, 8, \<lambda>bs. le_get bs),
      (i64Load8s, 1, \<lambda>bs. scast (hd bs)),
      (i64Load8u, 1, \<lambda>bs. ucast (hd bs)),
      (i64Load16s, 2, \<lambda>bs. scast (le_get bs :: u16)),
      (i64Load16u, 2, \<lambda>bs. ucast (le_get bs :: u16)),
      (i64Load32s, 4, \<lambda>bs. scast (le_get bs :: u32)),
      (i64Load32u, 4, \<lambda>bs. ucast (le_get bs :: u32)),
      (f32Load, 4, \<lambda>bs. ucast (le_get bs :: u32)),
      (f64Load, 8, \<lambda>bs. le_get bs)]"

text \<open>Each store with its width and the bytes it writes for the operand it pops.\<close>

definition stores :: "(unit vm \<times> nat \<times> (u64 \<Rightarrow> byte list)) list" where
  "stores =
     [(i32Store, 4, \<lambda>v. le_put 4 (ucast v :: u32)),
      (i32Store8, 1, \<lambda>v. le_put 1 (ucast v :: u32)),
      (i32Store16, 2, \<lambda>v. le_put 2 (ucast (ucast v :: u32) :: u16)),
      (i64Store, 8, \<lambda>v. le_put 8 v),
      (i64Store8, 1, \<lambda>v. le_put 1 v),
      (i64Store16, 2, \<lambda>v. le_put 2 (ucast v :: u16)),
      (i64Store32, 4, \<lambda>v. le_put 4 (ucast v :: u32)),
      (f32Store, 4, \<lambda>v. le_put 4 (ucast v :: u32)),
      (f64Store, 8, \<lambda>v. le_put 8 v)]"

lemma load_bytes:
  assumes "imm_at s 4 imm" "c_stack (ctx s) = xs @ [a]" "n = Suc k"
  shows "thenV (checkBounds k) (bindV (memBytes n) push) s =
    (if eff_addr imm a + n \<le> length (memory s)
     then push (take n (drop (eff_addr imm a) (memory s))) (setStack xs (addPc 4 s))
     else (Inl ErrOutOfBoundsMemoryAccess, s))"
  using memBytes_eq [OF assms(1,2), of n] assms(3)
  by (auto simp: vm_run checkBounds_eq [OF assms(1,2)])

lemma load_byte:
  assumes "imm_at s 4 imm" "c_stack (ctx s) = xs @ [a]"
  shows "thenV (checkBounds 0) (bindV memByte push) s =
    (if eff_addr imm a + 1 \<le> length (memory s)
     then push (hd (take 1 (drop (eff_addr imm a) (memory s)))) (setStack xs (addPc 4 s))
     else (Inl ErrOutOfBoundsMemoryAccess, s))"
  using memByte_eq [OF assms] by (auto simp: vm_run checkBounds_eq [OF assms] hd_drop_conv_nth)

lemma store_bytes:
  assumes "imm_at s 4 imm" "c_stack (ctx s) = xs @ [a, v]" "n = Suc k"
  shows "bindV popUint64 (\<lambda>v. thenV (checkBounds k) (storeBytes n (conv v))) s =
    (if eff_addr imm a + n \<le> length (memory s)
     then (Inr (), setMemory (go_copy_at (eff_addr imm a) (memory s) (conv v)) (setStack xs (addPc 4 s)))
     else (Inl ErrOutOfBoundsMemoryAccess, setStack (xs @ [a]) s))"
proof -
  let ?t = "setStack (xs @ [a]) s"
  have t: "imm_at ?t 4 imm" "c_stack (ctx ?t) = xs @ [a]" using assms(1) by simp_all
  show ?thesis
    using storeBytes_eq [OF t, of n "conv v"] assms(3)
    by (auto simp: vm_run pop2_snoc(1) [OF assms(2)] checkBounds_eq [OF t])
qed

lemma store_byte:
  assumes "imm_at s 4 imm" "c_stack (ctx s) = xs @ [a, v]"
  shows "bindV popUint64 (\<lambda>v. thenV (checkBounds 0) (storeByte (conv v))) s =
    (if eff_addr imm a + 1 \<le> length (memory s)
     then (Inr (), setMemory (go_copy_at (eff_addr imm a) (memory s) [conv v]) (setStack xs (addPc 4 s)))
     else (Inl ErrOutOfBoundsMemoryAccess, setStack (xs @ [a]) s))"
proof -
  let ?t = "setStack (xs @ [a]) s"
  have t: "imm_at ?t 4 imm" "c_stack (ctx ?t) = xs @ [a]" using assms(1) by simp_all
  show ?thesis
    using storeByte_eq [OF t, of "conv v"]
    by (auto simp: vm_run pop2_snoc(1) [OF assms(2)] checkBounds_eq [OF t])
qed

text \<open>A 32-bit pop before the store is a conversion of the 64-bit operand.\<close>

lemma bindV_popUint32: "bindV popUint32 f = bindV popUint64 (\<lambda>v. f (ucast v))"
  by (rule ext) (simp add: vm_run popUint32_def split: prod.split sum.split)

text \<open>The address WebAssembly computes: the sum of offset and base, which needs 33 bits.\<close>

definition wasm_addr :: "byte list \<Rightarrow> u64 \<Rightarrow> nat" where
  "wasm_addr imm a = unat (le_get imm :: u32) + unat (ucast a :: u32)"

lemma eff_addr_wasm: "eff_addr imm a = (if wasm_addr imm a < 2 ^ 32 then wasm_addr imm a else wasm_addr imm a - 2 ^ 32)"
proof -
  have b: "unat (le_get imm :: u32) < 2 ^ 32" "unat (ucast a :: u32) < 2 ^ 32"
    using unsigned_less [of "le_get imm :: u32"] unsigned_less [of "ucast a :: u32"] by simp_all
  have "eff_addr imm a = (unat (le_get imm :: u32) + unat (ucast a :: u32)) mod 2 ^ 32"
    by (simp add: eff_addr_def unat_word_ariths)
  then show ?thesis using b by (simp add: wasm_addr_def mod_if)
qed

text \<open>A load of \<open>n\<close> bytes at an address: the operand they make, or the trap.\<close>

definition load_at :: "nat \<Rightarrow> nat \<Rightarrow> (byte list \<Rightarrow> u64) \<Rightarrow> u64 list \<Rightarrow> VM \<Rightarrow> (vm_panic + unit) \<times> VM" where
  "load_at addr n val xs s =
     (if addr + n \<le> length (memory s)
      then (Inr (), setStack (xs @ [val (take n (drop addr (memory s)))]) (addPc 4 s))
      else (Inl ErrOutOfBoundsMemoryAccess, s))"

text \<open>C4 A load of \<open>n\<close> bytes computes its address in 32 bits.  Where the sum of offset and base
  does not pass 4 GiB this is the address WebAssembly defines: if the \<open>n\<close> bytes there lie in memory they
  become the operand the opcode defines for them and the machine moves past the immediate, otherwise the
  load traps and leaves the machine as it was.  Where the sum passes 4 GiB the specification, and the
  \<^verbatim>\<open>address.wast\<close> tests kept under \<^verbatim>\<open>exec/testdata/spec\<close>, ask for a trap: the code then reads at the
  address less \<open>2 ^ 32\<close> instead.  No load panics in any other way.\<close>

theorem loads_spec:
  assumes "imm_at s 4 imm" "c_stack (ctx s) = xs @ [a]"
  shows "list_all (\<lambda>(h, n, val).
      h s = load_at (if wasm_addr imm a < 2 ^ 32 then wasm_addr imm a else wasm_addr imm a - 2 ^ 32) n val xs s) loads"
  unfolding eff_addr_wasm [symmetric] load_at_def
  by (simp add: loads_def i32Load_def i32Load8s_def i32Load8u_def i32Load16s_def i32Load16u_def
      i64Load_def i64Load8s_def i64Load8u_def i64Load16s_def i64Load16u_def i64Load32s_def
      i64Load32u_def f32Load_def f64Load_def load_bytes [OF assms] load_byte [OF assms] push_eqs
      pushUint64_eq)

text \<open>C5 Every store of \<open>n\<close> bytes, at an address whose \<open>n\<close> bytes lie in memory, overwrites exactly
  those bytes with the little-endian operand and pops both operands; at any other address it traps
  and memory is unchanged.  The address is the 32-bit sum the loads use.\<close>

theorem stores_spec:
  assumes "imm_at s 4 imm" "c_stack (ctx s) = xs @ [a, v]"
  shows "list_all (\<lambda>(h, n, bytes). h s =
    (if eff_addr imm a + n \<le> length (memory s)
     then (Inr (), setMemory (go_copy_at (eff_addr imm a) (memory s) (bytes v)) (setStack xs (addPc 4 s)))
     else (Inl ErrOutOfBoundsMemoryAccess, setStack (xs @ [a]) s))) stores"
  by (simp add: stores_def i32Store_def i32Store8_def i32Store16_def i64Store_def i64Store8_def
      i64Store16_def i64Store32_def f32Store_def f64Store_def popFloat32_def popFloat64_def
      bindV_popUint32 store_bytes [OF assms] store_byte [OF assms])

text \<open>A machine whose next immediate is all ones, with four bytes of memory.\<close>

definition mem_vm :: "u64 list \<Rightarrow> VM" where
  "mem_vm xs = setMemory [0x11, 0x22, 0x33, 0x44]
     (grow_vm\<lparr>ctx := \<lparr>c_stack = xs, c_locals = [], c_code = [255, 255, 255, 255], c_pc = 0, c_curFunc = 0\<rparr>\<rparr>)"

lemma mem_vm_facts:
  "imm_at (mem_vm xs) 4 [255, 255, 255, 255]" "c_stack (ctx (mem_vm xs)) = xs"
  "memory (mem_vm xs) = [0x11, 0x22, 0x33, 0x44]"
  by (simp_all add: mem_vm_def setMemory_def imm_at_def)

lemma eff_addr_wraps: "eff_addr [255, 255, 255, 255] 1 = 0" "eff_addr [255, 255, 255, 255] 0 = 4294967295"
  by (simp_all add: eff_addr_def)

theorem loads_spec_witness:
  "i32Load8u (mem_vm [1]) = (Inr (), setStack [0x11] (addPc 4 (mem_vm [1]))) \<and>
   i32Load8u (mem_vm [0]) = (Inl ErrOutOfBoundsMemoryAccess, mem_vm [0])"
proof -
  have w: "wasm_addr [255, 255, 255, 255] 1 = 2 ^ 32" "wasm_addr [255, 255, 255, 255] 0 = 2 ^ 32 - 1"
    by (simp_all add: wasm_addr_def)
  show ?thesis
    using loads_spec [OF mem_vm_facts(1), of "[1]" "[]" 1] loads_spec [OF mem_vm_facts(1), of "[0]" "[]" 0]
    by (simp add: mem_vm_facts w loads_def load_at_def)
qed

theorem stores_spec_witness:
  "i32Store16 (mem_vm [2, 0xabcd]) =
     (Inr (), setMemory [0x11, 0xcd, 0xab, 0x44] (setStack [] (addPc 4 (mem_vm [2, 0xabcd]))))"
proof -
  have "eff_addr [255, 255, 255, 255] 2 = 1" by (simp add: eff_addr_def)
  moreover have "le_put 2 (ucast (ucast (0xabcd :: u64) :: u32) :: u16) = [0xcd, 0xab]" by code_simp
  ultimately show ?thesis
    using stores_spec [OF mem_vm_facts(1), of "[2, 0xabcd]" "[]" 2 "0xabcd"]
    by (simp add: mem_vm_facts stores_def go_copy_at_def go_copy_def)
qed

section \<open>Storing and loading back\<close>

lemma take_drop_go_copy_at:
  assumes "off + length bs \<le> length m"
  shows "take (length bs) (drop off (go_copy_at off m bs)) = bs"
  using assms by (simp add: go_copy_at_def go_copy_def)

text \<open>What a 64-bit store wrote is what a 64-bit load of the same address reads, also when other
  code in between changed everything but the memory.\<close>

theorem i64_store_load:
  assumes "imm_at s 4 imm" "c_stack (ctx s) = xs @ [a, v]" "eff_addr imm a + 8 \<le> length (memory s)"
    and "imm_at t 4 imm'" "c_stack (ctx t) = ys @ [b]" "eff_addr imm' b = eff_addr imm a"
    and "memory t = memory (snd (i64Store s))"
  shows "i64Load t = (Inr (), setStack (ys @ [v]) (addPc 4 t))"
proof -
  have "memory t = go_copy_at (eff_addr imm a) (memory s) (le_put 8 v)"
    using assms(3,7) by (simp add: i64Store_def store_bytes [OF assms(1,2)] setMemory_def)
  moreover from this have "take 8 (drop (eff_addr imm' b) (memory t)) = le_put 8 v"
    using take_drop_go_copy_at [of "eff_addr imm a" "le_put 8 v" "memory s"] assms(3,6) by simp
  ultimately show ?thesis
    using assms(3,6) by (simp add: i64Load_def load_bytes [OF assms(4,5)] pushUint64_eq)
qed

definition wide_vm :: "u64 list \<Rightarrow> VM" where
  "wide_vm xs = setMemory (replicate 9 0) (mem_vm xs)"

lemma wide_vm_facts:
  "imm_at (wide_vm xs) 4 [255, 255, 255, 255]" "c_stack (ctx (wide_vm xs)) = xs"
  "length (memory (wide_vm xs)) = 9"
  using mem_vm_facts [of xs] by (simp_all add: wide_vm_def setMemory_def imm_at_def)

theorem i64_store_load_witness:
  "i64Load (setMemory (memory (snd (i64Store (wide_vm [1, 77])))) (wide_vm [1])) =
     (Inr (), setStack [77] (addPc 4 (setMemory (memory (snd (i64Store (wide_vm [1, 77])))) (wide_vm [1]))))"
proof -
  let ?t = "setMemory (memory (snd (i64Store (wide_vm [1, 77])))) (wide_vm [1])"
  have "imm_at ?t 4 [255, 255, 255, 255]" "c_stack (ctx ?t) = [] @ [1]"
    "memory ?t = memory (snd (i64Store (wide_vm [1, 77])))"
    using wide_vm_facts [of "[1]"] by (simp_all add: setMemory_def imm_at_def)
  from i64_store_load [OF wide_vm_facts(1) _ _ this(1,2) refl this(3), of "[]"]
  show ?thesis using wide_vm_facts by (simp add: eff_addr_wraps)
qed

section \<open>Growing\<close>

lemma page_product: "unat (n * 65536 :: u32) = (unat n mod 65536) * 65536"
proof -
  have "unat (n * 65536 :: u32) = (unat n * 65536) mod (65536 * 65536)"
    by (simp add: unat_word_ariths)
  then show ?thesis by (simp add: mult_mod_left)
qed

lemma sint_negative: "sint (w :: u32) < 0 \<longleftrightarrow> 2 ^ 31 \<le> unat w"
proof -
  have u: "uint w < 4294967296" "0 \<le> uint w" using unsigned_less [of w, where 'a = int] by simp_all
  have "sint w = signed_take_bit 31 (uint w)" by (simp add: sint_uint)
  then have "sint w = (uint w + 2147483648) mod 4294967296 - 2147483648"
    by (simp add: signed_take_bit_eq_take_bit_shift take_bit_eq_mod)
  moreover have "(uint w + 2147483648) mod 4294967296 =
      (if uint w < 2147483648 then uint w + 2147483648 else uint w - 2147483648)"
    using u mod_add_self2 [of "uint w - 2147483648" 4294967296] by (auto simp: add.commute)
  ultimately have "sint w < 0 \<longleftrightarrow> 2147483648 \<le> uint w" using u by auto
  then show ?thesis by (simp add: uint_nat [symmetric] nat_le_iff flip: zle_int uint_nat)
qed

lemma page_product_negative: "sint (n * 65536 :: u32) < 0 \<longleftrightarrow> 32768 \<le> unat n mod 65536"
  unfolding sint_negative page_product by simp

text \<open>\<^verbatim>\<open>grow_memory\<close> reads its page count modulo 65536: of the counts below 32768 the memory
  gains exactly that many zeroed pages and the old size is pushed; any other count panics, except that
  a multiple of 65536 reports success and grows nothing.  The declared maximum is never looked at.\<close>

theorem growMemory_spec:
  assumes "0 \<le> c_pc (ctx s)" "c_pc (ctx s) < int (length (c_code (ctx s)))"
    and "c_stack (ctx s) = xs @ [n]"
  defines "k \<equiv> unat (ucast n :: u32) mod 65536"
  shows "growMemory s =
    (if 32768 \<le> k then (Inl (GoPanic MakeSliceLen), setStack xs (addPc 1 s))
     else (Inr (), setStack (xs @ [scast (of_nat (length (memory s) div wasmPageSize) :: u32)])
            (setMemory (memory s @ replicate (k * wasmPageSize) 0) (addPc 1 s))))"
proof -
  have pop: "popInt32 (addPc 1 s) = (Inr (ucast n), setStack xs (addPc 1 s))"
    unfolding popInt32_def using assms(3) by (intro popUint32_snoc) simp
  show ?thesis
    by (simp add: growMemory_def vm_run fetchInt8_eq [OF assms(1,2)] pop page_product_negative
        appendBytes_def page_product push_eqs setMemory_def setStack_def k_def)
qed

theorem growMemory_spec_witness:
  "growMemory (mem_vm [65536]) = (Inr (), setStack [0] (addPc 1 (mem_vm [65536])))"
proof -
  have "0 \<le> c_pc (ctx (mem_vm [65536]))"
    "c_pc (ctx (mem_vm [65536])) < int (length (c_code (ctx (mem_vm [65536]))))"
    by (simp_all add: mem_vm_def setMemory_def)
  from growMemory_spec [OF this, of "[]" 65536] show ?thesis
    using setMemory_same [of "addPc 1 (mem_vm [65536])"] by (simp add: mem_vm_facts)
qed

section \<open>Host access\<close>

text \<open>What a host function writes into memory within bounds, it reads back, and bytes outside the
  range it wrote are untouched.\<close>

theorem Process_write_read:
  assumes "0 \<le> off" "nat off + length p \<le> length (memory s)"
  shows "\<exists>t. Process_WriteAt p off s = (Inr (length p, None), t) \<and>
    Process_ReadAt (length p) off t = (Inr (p, None), t) \<and>
    (\<forall>i < length (memory s). i < nat off \<or> nat off + length p \<le> i \<longrightarrow> memory t ! i = memory s ! i)"
proof -
  let ?t = "setMemory (go_copy_at (nat off) (memory s) p) s"
  have l: "access_length m (length p) off = int (length p)" if "length m = length (memory s)" for m :: "byte list"
    using assms that by (simp add: access_length_def)
  have "Process_WriteAt p off s = (Inr (length p, None), ?t)"
    using assms(1) by (simp add: Process_WriteAt_def vm_run l Let_def setMemory_def)
  moreover have "Process_ReadAt (length p) off ?t = (Inr (p, None), ?t)"
    using assms take_drop_go_copy_at [OF assms(2)]
    by (simp add: Process_ReadAt_def vm_run l Let_def setMemory_def)
  moreover have "\<forall>i < length (memory s). i < nat off \<or> nat off + length p \<le> i \<longrightarrow>
      memory ?t ! i = memory s ! i"
    by (auto simp: setMemory_def nth_go_copy_at)
  ultimately show ?thesis by blast
qed

theorem Process_write_read_witness:
  "\<exists>t. Process_WriteAt [9, 8] 1 (mem_vm []) = (Inr (length [9, 8 :: byte], None), t) \<and>
     Process_ReadAt (length [9, 8 :: byte]) 1 t = (Inr ([9, 8], None), t) \<and> memory t ! 3 = 0x44"
proof -
  have "\<exists>t. Process_WriteAt [9, 8] 1 (mem_vm []) = (Inr (length [9, 8 :: byte], None), t) \<and>
    Process_ReadAt (length [9, 8 :: byte]) 1 t = (Inr ([9, 8], None), t) \<and>
    (\<forall>i < length (memory (mem_vm [])).
       i < nat 1 \<or> nat 1 + length [9, 8 :: byte] \<le> i \<longrightarrow> memory t ! i = memory (mem_vm []) ! i)"
    by (rule Process_write_read) (simp_all add: mem_vm_facts)
  moreover have "memory (mem_vm []) ! 3 = 0x44" "3 < length (memory (mem_vm []))"
    "nat 1 + length [9, 8 :: byte] \<le> 3"
    by (simp_all add: mem_vm_facts)
  ultimately show ?thesis by metis
qed

end
