(* ===== verification/VmCalls.thy ===== *)
theory VmCalls
  imports VmMemProps
begin

text \<open>
  Calls and entry points: how \<open>compiledFunction_call\<close> passes arguments and results, what a
  branch table selects, where recursion is cut off, and what \<open>ExecCode\<close> promises its caller.
\<close>

section \<open>Calls between compiled functions\<close>

definition callee_state :: "compiledFunction \<Rightarrow> int \<Rightarrow> u64 list \<Rightarrow> u64 list \<Rightarrow> VM \<Rightarrow> VM" where
  "callee_state c index args xs s = s\<lparr>
     ctx := \<lparr>c_stack = replicate (cf_maxDepth c) 0,
             c_locals = args @ replicate (cf_totalLocalVars c - length args) 0,
             c_code = cf_code c, c_pc = 0, c_curFunc = index\<rparr>,
     recursiveCallDepth := recursiveCallDepth s + 1\<rparr>"

definition caller_result :: "compiledFunction \<Rightarrow> u64 list \<Rightarrow> VM \<Rightarrow> u64 \<Rightarrow> VM \<Rightarrow> VM" where
  "caller_result c xs s r t = t\<lparr>
     ctx := (ctx s)\<lparr>c_stack := (if cf_returns c then xs @ [r] else xs)\<rparr>,
     recursiveCallDepth := recursiveCallDepth t - 1\<rparr>"

lemma popLocals_spec:
  assumes "c_stack (ctx s) = xs @ args" "length args \<le> length locals"
  shows "popLocals (length args) locals s = (Inr (args @ drop (length args) locals), setStack xs s)"
  using assms
proof (induction args arbitrary: s locals rule: rev_induct)
  case Nil
  then show ?case by (simp add: vm_run setStack_def)
next
  case (snoc a args)
  let ?l = "locals[length args := a]"
  have l: "length args < length locals" using snoc.prems by simp
  have d: "drop (length args) ?l = a # drop (Suc (length args)) locals"
    using l by (simp add: Cons_nth_drop_Suc [symmetric])
  have "popUint64 s = (Inr a, setStack (xs @ args) s)"
    using snoc.prems by (simp add: popUint64_snoc)
  moreover have "popLocals (length args) ?l (setStack (xs @ args) s) =
      (Inr (args @ drop (length args) ?l), setStack xs s)"
    using snoc.IH [of "setStack (xs @ args) s" ?l] l by simp
  ultimately show ?case using l d by (simp add: vm_run)
qed

lemma compiledFunction_call_run:
  assumes "c_stack (ctx s) = xs @ args" "length args = cf_args c" "cf_args c \<le> cf_totalLocalVars c"
  shows "compiledFunction_call exec c index s =
    (case exec c (callee_state c index args xs s) of
       (Inr r, t) \<Rightarrow> (Inr (), caller_result c xs s r t)
     | (Inl e, t) \<Rightarrow> (Inl e, t\<lparr>recursiveCallDepth := recursiveCallDepth t - 1\<rparr>))"
proof -
  let ?s = "s\<lparr>recursiveCallDepth := recursiveCallDepth s + 1\<rparr>"
  have p: "popLocals (cf_args c) (replicate (cf_totalLocalVars c) 0) ?s =
      (Inr (args @ replicate (cf_totalLocalVars c - length args) 0), setStack xs ?s)"
    using popLocals_spec [of ?s xs args "replicate (cf_totalLocalVars c) 0"] assms by simp
  have q: "(setStack xs ?s)\<lparr>ctx := \<lparr>c_stack = replicate (cf_maxDepth c) 0,
         c_locals = args @ replicate (cf_totalLocalVars c - length args) 0,
         c_code = cf_code c, c_pc = 0, c_curFunc = index\<rparr>\<rparr> = callee_state c index args xs s"
    by (simp add: callee_state_def setStack_def)
  show ?thesis
    unfolding compiledFunction_call_def withDepth_def Let_def vm_run p prod.case sum.case q
    by (auto simp: vm_run pushUint64_eq caller_result_def setStack_def split: prod.split sum.split)
qed

text \<open>C2 A call of a compiled function takes its arguments off the caller's stack into the first
  locals, in order, the other locals being zero, and runs the callee on a stack of its own.  When the
  callee returns, the caller goes on where it was, with its locals and the result pushed if there is
  one; a panic goes up.  Either way the recursion depth is counted down again.\<close>

theorem compiledFunction_call_spec:
  assumes "c_stack (ctx s) = xs @ args" "length args = cf_args c" "cf_args c \<le> cf_totalLocalVars c"
  shows "compiledFunction_call exec c index s =
    (case exec c (callee_state c index args xs s) of
       (Inr r, t) \<Rightarrow> (Inr (), caller_result c xs s r t)
     | (Inl e, t) \<Rightarrow> (Inl e, t\<lparr>recursiveCallDepth := recursiveCallDepth t - 1\<rparr>))"
  by (rule compiledFunction_call_run [OF assms])

definition sub_fn :: compiledFunction where
  "sub_fn = \<lparr>cf_code = [], cf_branchTables = [], cf_maxDepth = 1,
     cf_totalLocalVars = 3, cf_args = 2, cf_returns = True\<rparr>"

theorem compiledFunction_call_spec_witness:
  "compiledFunction_call (\<lambda>_. bindV (gets (\<lambda>s. c_locals (ctx s))) (\<lambda>l. ret (l ! 0 - l ! 1)))
     sub_fn 0 (setStack [5, 9, 2] grow_vm) = (Inr (), setStack [5, 7] grow_vm)"
proof -
  have "c_stack (ctx (setStack [5, 9, 2] grow_vm)) = [5] @ [9, 2]" by simp
  from compiledFunction_call_spec [OF this, of sub_fn _ 0] show ?thesis
    by (simp add: sub_fn_def vm_run callee_state_def caller_result_def setStack_def grow_vm_def)
qed

section \<open>Branch tables\<close>

lemma sint_small: "sint l = int (unat l)" if "unat (l :: u32) < 2147483648"
proof -
  have u: "int (unat l) = uint l" by simp
  then have "uint l < 2147483648" using that by linarith
  moreover have "0 \<le> uint l" by simp
  ultimately have "- 2147483648 \<le> uint l \<and> uint l < 2147483648" by linarith
  with u show ?thesis by (simp add: sint_uint signed_take_bit_int_eq_self_iff)
qed

lemma sint_large: "sint l < 0" if "\<not> unat (l :: u32) < 2147483648"
proof -
  have u: "int (unat l) = uint l" by simp
  then have "2147483648 \<le> uint l" using that by linarith
  moreover have "uint l < 2 ^ 32" using uint_lt2p [of l] by simp
  ultimately have "uint l div 2 ^ 31 = 1" by simp
  then have "bit (uint l) 31" by (simp add: bit_iff_odd)
  then show ?thesis by (simp add: sint_uint)
qed

lemma selectTarget_eq:
  "selectTarget tbl label =
    (if unat label < length (Targets tbl) \<and> unat label < 2 ^ 31 then Targets tbl ! unat label
     else DefaultTarget tbl)"
proof (cases "unat label < 2147483648")
  case True
  then show ?thesis unfolding selectTarget_def sint_small [OF True] of_nat_less_iff by simp
next
  case False
  then show ?thesis using sint_large [OF False] unfolding selectTarget_def by simp
qed

text \<open>A stack cut back to a branch target.\<close>

lemma unwind_run:
  assumes "c_stack (ctx s) = zs"
  shows "unwind p d s =
    (if p \<and> zs = [] then (Inl (GoPanic IndexOutOfRange), s)
     else if int (length zs) < d then (Inl (GoPanic SliceOutOfRange), s)
     else if d < 0 then (Inl ResliceBeyondLength, s)
     else (Inr (), setStack (take (length zs - nat d) zs @ (if p then [last zs] else [])) s))"
  using assms by (auto simp: unwind_def topUint64_def discardStack_def vm_run pushUint64_eq setStack_def)

text \<open>C10 \<^verbatim>\<open>br_table\<close> pops its operand and goes to the target it numbers, or to the default target when the
  operand is not below the number of targets as an unsigned number, or is negative as a signed one.
  At a return target it leaves the function.  At any other it jumps, drops as many operands as the target
  says, none included, and puts the top one back if the target keeps it.  It panics with an index out of
  range when there is no top to keep, with a slice out of range when fewer operands are left than are to
  be dropped, and in no other way (a negative number of operands, which the compiler makes for no target,
  would reslice the stack beyond its length).\<close>

theorem exec_brtable_spec:
  assumes "imm_at s 8 bs" "sint (le_get bs :: u64) = int i"
    and "0 \<le> c_curFunc (ctx s)" "nat (c_curFunc (ctx s)) < length (funcs s)"
    and "funcs s ! nat (c_curFunc (ctx s)) = CompiledFunction cf" "i < length (cf_branchTables cf)"
    and "c_stack (ctx s) = zs @ [label]"
    and tgt: "tgt = (let tbl = cf_branchTables cf ! i; k = unat (ucast label :: u32)
                     in if k < length (Targets tbl) \<and> k < 2 ^ 31 then Targets tbl ! k
                        else DefaultTarget tbl)"
    and jmp: "jumped = s\<lparr>ctx := (ctx s)\<lparr>c_pc := Addr tgt, c_stack := zs\<rparr>\<rparr>"
  shows "exec_brtable s =
    (if IsReturnTarget tgt then (Inr True, setStack zs (addPc 8 s))
     else if PreserveTop tgt \<and> zs = [] then (Inl (GoPanic IndexOutOfRange), jumped)
     else if int (length zs) < Discard tgt then (Inl (GoPanic SliceOutOfRange), jumped)
     else if Discard tgt < 0 then (Inl ResliceBeyondLength, jumped)
     else (Inr False, setStack (take (length zs - nat (Discard tgt)) zs @ (if PreserveTop tgt then [last zs] else [])) jumped))"
proof -
  let ?tbl = "cf_branchTables cf ! i" and ?l = "ucast label :: u32"
  have f: "fetchInt64 s = (Inr (int i), addPc 8 s)"
    using fetchInt64_imm [OF assms(1)] assms(2) by simp
  have p: "popInt32 (addPc 8 s) = (Inr ?l, setStack zs (addPc 8 s))"
    using popUint32_snoc [of "addPc 8 s" zs label] assms(7) by (simp add: popInt32_def)
  let ?u = "setStack zs (addPc 8 s)"
  have b: "branchTable (int i) ?u = (Inr ?tbl, ?u)"
    using assms(3-6) by (simp add: branchTable_def vm_run)
  have t: "selectTarget ?tbl ?l = tgt" by (simp add: tgt selectTarget_eq Let_def)
  have o: "(ctx s)\<lparr>c_stack := zs, c_pc := Addr tgt\<rparr> = (ctx s)\<lparr>c_pc := Addr tgt, c_stack := zs\<rparr>" by (cases "ctx s") simp
  have e: "exec_brtable s = (if IsReturnTarget tgt then (Inr True, ?u)
      else bindV (unwind (PreserveTop tgt) (Discard tgt)) (\<lambda>_. ret False) jumped)"
    by (simp only: exec_brtable_def vm_run(3) [of fetchInt64] vm_run(3) [of popInt32]
        vm_run(3) [of "branchTable (int i)"] f p b t Let_def prod.case sum.case)
      (simp add: vm_run(1,4,6) setPc_def thenV_def [of _ "ret False"] jmp setStack_def addPc_def o)
  have "c_stack (ctx jumped) = zs" by (simp add: jmp)
  from unwind_run [OF this] show ?thesis unfolding e by (simp add: vm_run(1,3))
qed

text \<open>A machine at a branch table with one target, which keeps the top of two operands.\<close>

definition table_fn :: compiledFunction where
  "table_fn = \<lparr>cf_code = [], cf_branchTables = [\<lparr>
       Targets = [\<lparr>Addr = 3, Discard = 2, PreserveTop = True, IsReturnTarget = False\<rparr>],
       DefaultTarget = \<lparr>Addr = 0, Discard = 0, PreserveTop = False, IsReturnTarget = True\<rparr>,
       PatchedAddrs = [], BlocksLen = 0\<rparr>],
     cf_maxDepth = 3, cf_totalLocalVars = 0, cf_args = 0, cf_returns = False\<rparr>"

definition table_vm :: "u64 \<Rightarrow> VM" where
  "table_vm label = grow_vm\<lparr>funcs := [CompiledFunction table_fn],
     ctx := \<lparr>c_stack = [4, 5, 6, label], c_locals = [], c_code = replicate 8 0, c_pc = 0, c_curFunc = 0\<rparr>\<rparr>"

lemma le_get_zeros: "le_get (replicate n (0 :: byte)) = (0 :: 'a::len word)"
  by (induction n) simp_all

lemma table_vm_facts:
  "imm_at (table_vm l) 8 (replicate 8 0)" "c_curFunc (ctx (table_vm l)) = 0"
  "funcs (table_vm l) = [CompiledFunction table_fn]" "c_stack (ctx (table_vm l)) = [4, 5, 6, l]"
  by (simp_all add: table_vm_def imm_at_def)

theorem exec_brtable_spec_witness:
  "exec_brtable (table_vm 0) =
     (Inr False, (table_vm 0)\<lparr>ctx := (ctx (table_vm 0))\<lparr>c_pc := 3, c_stack := [4, 6]\<rparr>\<rparr>)"
proof -
  have "[4, 5, 6, 0] = [4, 5, 6] @ [0 :: u64]" by simp
  note s = exec_brtable_spec [where s = "table_vm 0" and i = 0 and cf = table_fn and label = 0 and bs = "replicate 8 0" and zs = "[4, 5, 6]", OF _ _ _ _ _ _ _ refl refl]
  show ?thesis
    by (subst s) (simp_all only: table_vm_facts le_get_zeros, simp_all add: table_fn_def setStack_def)
qed

end
