(* ===== verification/VmEntry.thy ===== *)
theory VmEntry
  imports VmCalls
begin

text \<open>
  The entry points of \<^verbatim>\<open>wagon/exec/vm.go\<close>: what \<open>ExecCode\<close> makes of its arguments and of the
  result or panic of the code it runs, and where a recursion without end is cut off.
\<close>

section \<open>Checks of the index\<close>

lemma functionSig_None:
  "GetFunction (v_module s) i = None \<Longrightarrow> functionSig i s = (Inl (GoPanic NilDereference), s)"
  by (simp add: functionSig_def vm_run)

text \<open>An index above the number of functions is an error value.  The index that equals the
  number of functions, and every negative one, is a nil dereference instead, which only a machine
  that recovers panics turns into an error.\<close>

theorem ExecCode_bad_index:
  assumes "length (FunctionIndexSpace (v_module s)) = length (funcs s)"
    and "i < 0 \<or> i \<ge> int (length (funcs s))"
  shows "ExecCode n E i args s =
    (if i > int (length (funcs s)) then Inr (Inl (InvalidFunctionIndex i))
     else if RecoverPanic s then Inr (Inl (RecoveredPanic (GoPanic NilDereference)))
     else Inl (GoPanic NilDereference), s)"
proof -
  have "GetFunction (v_module s) i = None" using assms by (auto simp: GetFunction_def)
  from functionSig_None [OF this] show ?thesis
    by (simp add: ExecCode_def execBody_def execReturn_def recovering_def vm_run)
qed

theorem ExecCode_bad_index_witness:
  "fst (ExecCode 9 silent_host 1 [] (grow_vm\<lparr>v_module := Module_zero\<lparr>FunctionIndexSpace := [\<lparr>Sig = None, Body = None, Host = None\<rparr>]\<rparr>\<rparr>)) =
     Inr (Inl (RecoveredPanic (GoPanic NilDereference)))"
  by (subst ExecCode_bad_index) (simp_all add: grow_vm_def)

section \<open>A call from outside\<close>

definition entry_state :: "compiledFunction \<Rightarrow> int \<Rightarrow> u64 list \<Rightarrow> VM \<Rightarrow> VM" where
  "entry_state c i args s = s\<lparr>
     ctx := \<lparr>c_stack = (if length (c_stack (ctx s)) < cf_maxDepth c then [] else c_stack (ctx s)),
             c_locals = args @ replicate (cf_totalLocalVars c - length args) 0,
             c_code = cf_code c, c_pc = 0, c_curFunc = i\<rparr>\<rparr>"

definition typed_result :: "ValueType \<Rightarrow> u64 \<Rightarrow> exec_error + exec_value option" where
  "typed_result t r =
     (if t = ValueTypeI32 then Inr (Some (VI32 (ucast r)))
      else if t = ValueTypeI64 then Inr (Some (VI64 r))
      else if t = ValueTypeF32 then Inr (Some (VF32 (ucast r)))
      else if t = ValueTypeF64 then Inr (Some (VF64 r))
      else Inl (InvalidReturnType t))"

lemma enter_storeArgs:
  assumes "length args \<le> cf_totalLocalVars c"
  shows "thenV (enter c i) (storeArgs args) s = (Inr (), entry_state c i args s)"
  using assms by (simp add: enter_def storeArgs_def vm_run entry_state_def drop_replicate)

lemma functionSig_cong: "v_module t = v_module s \<Longrightarrow> functionSig i s = (Inr sig, s) \<Longrightarrow> functionSig i t = (Inr sig, t)"
  by (cases "GetFunction (v_module s) i") (simp_all add: functionSig_def vm_run split: option.splits)

lemma execBody_run:
  assumes "0 \<le> i" "i < int (length (funcs s))" "funcs s ! nat i = CompiledFunction c"
    and "functionSig i s = (Inr sig, s)" "length (ParamTypes sig) = length args"
    and "length args \<le> cf_totalLocalVars c"
  shows "execBody n E i args s =
    (case execCode n E c (entry_state c i args s) of
       (Inl p, t) \<Rightarrow> (Inl p, t) | (Inr r, t) \<Rightarrow> (Inr (Inr (c, r)), t))"
proof -
  have "compiledAt i s = (Inr c, s)" using assms(1-3) by (simp add: compiledAt_def vm_run)
  moreover have "thenV (enter c i) (thenV (storeArgs args) k) s = k (entry_state c i args s)" for k :: "(exec_error + (compiledFunction \<times> u64)) vm"
    using assms(6) by (simp add: enter_def storeArgs_def vm_run entry_state_def drop_replicate)
  ultimately show ?thesis
    using assms(1,2,4,5) by (simp add: execBody_def vm_run(1-3,5) split: prod.split sum.split)
qed

lemma ExecCode_run:
  assumes "0 \<le> i" "i < int (length (funcs s))" "funcs s ! nat i = CompiledFunction c"
    and "functionSig i s = (Inr sig, s)" "length (ParamTypes sig) = length args"
    and "length args \<le> cf_totalLocalVars c" "cf_returns c \<Longrightarrow> ReturnTypes sig \<noteq> []"
    and "execCode n E c (entry_state c i args s) = (x, t)" "v_module t = v_module s"
  shows "ExecCode n E i args s =
    (case x of
       Inl p \<Rightarrow> (if RecoverPanic s \<and> p \<noteq> OutOfFuel then Inr (Inl (RecoveredPanic p)) else Inl p, t)
     | Inr r \<Rightarrow> (Inr (if cf_returns c then typed_result (hd (ReturnTypes sig)) r else Inr None), t))"
proof -
  from functionSig_cong [OF assms(9,4)] have f: "functionSig i t = (Inr sig, t)" .
  have "execReturn i (Inr (c, r)) t =
      (Inr (if cf_returns c then typed_result (hd (ReturnTypes sig)) r else Inr None), t)" for r
    using assms(7) f
    by (cases "ReturnTypes sig") (auto simp: execReturn_def typed_result_def vm_run)
  then show ?thesis
    unfolding ExecCode_def recovering_def vm_run(3) execBody_run [OF assms(1-6)] assms(8)
    by (cases x) simp_all
qed

text \<open>C3 For an index of a compiled function and as many arguments as its signature has parameters,
  \<open>ExecCode\<close> runs the function on those arguments as its first locals, the others zero.  A value
  comes back with the type the signature declares; a function without result gives none; a panic is
  an error value exactly when the machine recovers panics.\<close>

theorem ExecCode_spec:
  assumes "0 \<le> i" "i < int (length (funcs s))" "funcs s ! nat i = CompiledFunction c"
    and "functionSig i s = (Inr sig, s)" "length (ParamTypes sig) = length args"
    and "length args \<le> cf_totalLocalVars c" "cf_returns c \<Longrightarrow> ReturnTypes sig \<noteq> []"
    and "host_keeps same_program E"
  shows "ExecCode n E i args s =
    (case execCode n E c (entry_state c i args s) of
       (Inl p, t) \<Rightarrow> (if RecoverPanic s \<and> p \<noteq> OutOfFuel then Inr (Inl (RecoveredPanic p)) else Inl p, t)
     | (Inr r, t) \<Rightarrow>
         (Inr (if cf_returns c then typed_result (hd (ReturnTypes sig)) r else Inr None), t))"
proof -
  obtain x t where e: "execCode n E c (entry_state c i args s) = (x, t)" by fastforce
  have "same_program (entry_state c i args s) t"
    using program.keeps_execCode [OF assms(8), of n c] e unfolding keeps_def by (metis snd_conv)
  then have "v_module t = v_module s" by (simp add: same_program_def entry_state_def)
  from ExecCode_run [OF assms(1-7) e this] e show ?thesis by (simp split: sum.split)
qed

text \<open>A module of one function of two parameters that returns the first one: its only instruction
  reads the local 0.\<close>

definition first_fn :: compiledFunction where
  "first_fn = \<lparr>cf_code = [0x20, 0, 0, 0, 0], cf_branchTables = [], cf_maxDepth = 1,
     cf_totalLocalVars = 2, cf_args = 2, cf_returns = True\<rparr>"

definition first_vm :: VM where
  "first_vm = grow_vm\<lparr>
     v_module := Module_zero\<lparr>FunctionIndexSpace := [\<lparr>
       Sig = Some \<lparr>Form = 0x60, ParamTypes = [ValueTypeI32, ValueTypeI32], ReturnTypes = [ValueTypeI32]\<rparr>,
       Body = None, Host = None\<rparr>]\<rparr>,
     funcs := [CompiledFunction first_fn]\<rparr>"

lemma dispatch_GetLocal: "dispatch (newFuncTable F c d) 0x20 = getLocal"
  by (simp add: dispatch_def newFuncTable_def)

lemma fetchUint32_zeros:
  "c_code (ctx s) = b # replicate 4 0 \<Longrightarrow> c_pc (ctx s) = 1 \<Longrightarrow> fetchUint32 s = (Inr 0, addPc 4 s)"
  using fetchUint32_imm [of s "replicate 4 0"] by (simp add: imm_at_def le_get_zeros)

lemma first_fn_run:
  assumes "\<not> abort s" "recursiveCallDepth s \<le> 1024"
  shows "execCode (Suc (Suc n)) E first_fn (entry_state first_fn i [a, b] s) =
    (Inr a, setStack (c_stack (ctx (entry_state first_fn i [a, b] s)) @ [a])
              (addPc 5 (entry_state first_fn i [a, b] s)))"
    (is "_ = (_, ?t)")
proof -
  let ?s = "entry_state first_fn i [a, b] s"
  have code: "c_code (ctx ?s) = 0x20 # replicate 4 0" "c_pc (ctx ?s) = 0"
    "c_locals (ctx ?s) = [a, b]" "abort ?s = abort s" "recursiveCallDepth ?s = recursiveCallDepth s"
    by (simp_all add: entry_state_def first_fn_def numeral_eq_Suc)
  have "fetchUint32 (addPc 1 ?s) = (Inr 0, addPc 5 ?s)"
    using fetchUint32_zeros [of "addPc 1 ?s" "0x20"] code by simp
  then have "getLocal (addPc 1 ?s) = (Inr (), ?t)"
    using code by (simp add: getLocal_def vm_run pushUint64_eq)
  then have "exec_instr (newFuncTable (he_float E) (call (execCode (Suc n) E) E) (callIndirect (execCode (Suc n) E) E))
      (c_code (ctx ?s) ! nat (c_pc (ctx ?s))) (addPc 1 ?s) = (Inr False, ?t)"
    using code by (intro exec_instr_plain) (simp_all add: dispatch_GetLocal plain_op_def)
  then have "execCode (Suc (Suc n)) E first_fn ?s = execCode (Suc n) E first_fn ?t"
    using code assms by (intro execCode_step) (simp_all add: running_def)
  also have "\<dots> = exec_result first_fn ?t"
    using code by (intro execCode_done) (simp add: running_def)
  also have "\<dots> = (Inr a, ?t)"
    by (simp add: exec_result_def first_fn_def topUint64_def vm_run)
  finally show ?thesis .
qed

theorem ExecCode_spec_witness:
  "fst (ExecCode 2 silent_host 0 [7, 9] first_vm) = Inr (Inr (Some (VI32 7)))"
proof -
  let ?sig = "\<lparr>Form = 0x60, ParamTypes = [ValueTypeI32, ValueTypeI32], ReturnTypes = [ValueTypeI32]\<rparr>"
  have f: "functionSig 0 first_vm = (Inr ?sig, first_vm)"
    by (simp add: functionSig_def first_vm_def GetFunction_def vm_run)
  have r: "execCode 2 silent_host first_fn (entry_state first_fn 0 [7, 9] first_vm) =
      (Inr 7, setStack (c_stack (ctx (entry_state first_fn 0 [7, 9] first_vm)) @ [7])
              (addPc 5 (entry_state first_fn 0 [7, 9] first_vm)))"
    using first_fn_run [of first_vm 0] by (simp add: first_vm_def grow_vm_def numeral_2_eq_2)
  have "ExecCode 2 silent_host 0 [7, 9] first_vm =
    (case execCode 2 silent_host first_fn (entry_state first_fn 0 [7, 9] first_vm) of
       (Inl p, t) \<Rightarrow> (if RecoverPanic first_vm \<and> p \<noteq> OutOfFuel
                      then Inr (Inl (RecoveredPanic p)) else Inl p, t)
     | (Inr r, t) \<Rightarrow>
         (Inr (if cf_returns first_fn then typed_result (hd (ReturnTypes ?sig)) r else Inr None), t))"
    by (rule ExecCode_spec [OF _ _ _ f])
      (simp_all add: first_vm_def first_fn_def silent_host_keeps)
  then show ?thesis unfolding r prod.case sum.case by (simp add: first_fn_def typed_result_def)
qed

theorem execCode_fuel_mono_witness:
  "execCode 9 silent_host first_fn (entry_state first_fn 0 [7, 9] first_vm) =
   execCode 2 silent_host first_fn (entry_state first_fn 0 [7, 9] first_vm)"
  by (rule execCode_fuel_mono)
    (use first_fn_run [of first_vm 0] in \<open>simp_all add: first_vm_def grow_vm_def numeral_2_eq_2\<close>)

section \<open>Nested calls\<close>

text \<open>What the interpreter does for the next instruction, given the executor of called functions.\<close>

definition next_instr :: "(compiledFunction \<Rightarrow> u64 vm) \<Rightarrow> host_env \<Rightarrow> bool vm" where
  "next_instr exec E = (\<lambda>s.
     exec_instr (newFuncTable (he_float E) (call exec E) (callIndirect exec E))
       (c_code (ctx s) ! nat (c_pc (ctx s))) (addPc 1 s))"

text \<open>The next instruction stays in the function: it does the same whatever called functions would do.\<close>

definition stays :: "host_env \<Rightarrow> VM \<Rightarrow> VM \<Rightarrow> bool" where
  "stays E s t \<longleftrightarrow> running s \<and> 0 \<le> c_pc (ctx s) \<and> recursiveCallDepth t = recursiveCallDepth s \<and>
     (\<forall>exec. next_instr exec E s = (Inr False, t))"

text \<open>The next instruction calls the compiled function \<open>c\<close>, directly or through the table, which then starts in \<open>t\<close>.\<close>

definition enters :: "host_env \<Rightarrow> VM \<Rightarrow> compiledFunction \<Rightarrow> VM \<Rightarrow> bool" where
  "enters E s c t \<longleftrightarrow> running s \<and> 0 \<le> c_pc (ctx s) \<and>
     (\<exists>u i xs args. recursiveCallDepth u = recursiveCallDepth s \<and>
        (\<forall>exec. next_instr exec E s = thenV (compiledFunction_call exec c i) (ret False) u) \<and>
        c_stack (ctx u) = xs @ args \<and> length args = cf_args c \<and> cf_args c \<le> cf_totalLocalVars c \<and>
        t = callee_state c i args xs u)"

text \<open>From \<open>s\<close> in the function \<open>c\<close>, \<open>k\<close> instructions lead to \<open>t\<close> in \<open>d\<close>, \<open>m\<close> of them calls that have not returned.
  The recursion limit plays no part in this.\<close>

inductive nested :: "host_env \<Rightarrow> nat \<Rightarrow> nat \<Rightarrow> compiledFunction \<Rightarrow> VM \<Rightarrow> compiledFunction \<Rightarrow> VM \<Rightarrow> bool" for E where
  nested_here: "nested E 0 0 c s c s"
| nested_stay: "stays E s t \<Longrightarrow> nested E m k c t d u \<Longrightarrow> nested E m (Suc k) c s d u"
| nested_call: "enters E s c' t \<Longrightarrow> nested E m k c' t d u \<Longrightarrow> nested E (Suc m) (Suc k) c s d u"

lemma execCode_next:
  assumes "running s" "0 \<le> c_pc (ctx s)" "recursiveCallDepth s \<le> 1024"
  shows "execCode (Suc n) E c s = bindV (next_instr (execCode n E) E)
    (\<lambda>stop. if stop then exec_result c else execCode n E c) s"
  using assms by (simp add: vm_run fetchInt8_eq running_def next_instr_def)

lemma stays_run:
  assumes "stays E s t" "recursiveCallDepth s \<le> 1024"
  shows "execCode (Suc n) E c s = execCode n E c t"
  using assms execCode_next [of s n E c] by (simp add: stays_def vm_run del: execCode.simps)

lemma enters_run:
  assumes "enters E s c' t" "recursiveCallDepth s \<le> 1024" "fst (execCode n E c' t) = Inl e"
  shows "fst (execCode (Suc n) E c s) = Inl e"
proof -
  from assms(1) obtain u i xs args where s: "running s" "0 \<le> c_pc (ctx s)"
    and n: "next_instr (execCode n E) E s = thenV (compiledFunction_call (execCode n E) c' i) (ret False) u"
    and a: "c_stack (ctx u) = xs @ args" "length args = cf_args c'" "cf_args c' \<le> cf_totalLocalVars c'"
    and t: "t = callee_state c' i args xs u" unfolding enters_def by blast
  obtain v where "execCode n E c' t = (Inl e, v)" using assms(3) by (metis prod.collapse)
  then show ?thesis using n compiledFunction_call_run [OF a] t
    by (simp add: execCode_next [OF s assms(2)] vm_run del: execCode.simps)
qed

lemma nested_depth: "nested E m k c s d t \<Longrightarrow> recursiveCallDepth t = recursiveCallDepth s + int m"
  by (induction rule: nested.induct) (auto simp: stays_def enters_def callee_state_def)

lemma nested_panic:
  assumes "nested E m k c s d t" "recursiveCallDepth s + int m \<le> 1024" "fst (execCode n E d t) = Inl e"
  shows "fst (execCode (k + n) E c s) = Inl e"
  using assms
proof (induction rule: nested.induct)
  case (nested_stay s t m k c d u)
  then have "recursiveCallDepth t + int m \<le> 1024" "recursiveCallDepth s \<le> 1024" by (auto simp: stays_def)
  then show ?case using nested_stay stays_run [OF nested_stay(1)] by (simp del: execCode.simps)
next
  case (nested_call s c' t m k d u c)
  then have "recursiveCallDepth t + int m \<le> 1024" "recursiveCallDepth s \<le> 1024"
    by (auto simp: enters_def callee_state_def)
  then show ?case using nested_call enters_run [OF nested_call(1)] by (simp del: execCode.simps)
qed simp

lemma nested_limit:
  assumes "nested E m k c s d t" "running t" "recursiveCallDepth s + int m > 1024" "k < n"
  shows "fst (execCode n E c s) = Inl RecursiveCallLimit"
  using assms
proof (induction arbitrary: n rule: nested.induct)
  case (nested_here c s)
  then obtain j where "n = Suc j" by (cases n) auto
  then show ?case using nested_here execCode_limit by (simp del: execCode.simps)
next
  case (nested_stay s t m k c d u)
  obtain j where j: "n = Suc j" "k < j" using nested_stay.prems by (cases n) auto
  show ?case
  proof (cases "recursiveCallDepth s > 1024")
    case True
    then show ?thesis using nested_stay(1) j by (simp del: execCode.simps add: execCode_limit stays_def)
  next
    case False
    then show ?thesis using nested_stay j stays_run [OF nested_stay(1), of j c] by (simp del: execCode.simps add: stays_def)
  qed
next
  case (nested_call s c' t m k d u c)
  obtain j where j: "n = Suc j" "k < j" using nested_call.prems by (cases n) auto
  show ?case
  proof (cases "recursiveCallDepth s > 1024")
    case True
    then show ?thesis using nested_call(1) j by (simp del: execCode.simps add: execCode_limit enters_def)
  next
    case False
    have "fst (execCode j E c' t) = Inl RecursiveCallLimit"
      using nested_call j by (auto simp: enters_def callee_state_def simp del: execCode.simps)
    then show ?thesis using enters_run [OF nested_call(1)] False j by simp
  qed
qed

text \<open>C9 The recursion limit.  For a chain of calls of any functions, direct or through the table, made after any
  instructions that stay in their function: if it reaches a depth above 1024 the execution ends in the
  panic of the recursion limit, never in a result and never for want of fuel; if it reaches at most 1024
  it is executed to its innermost function, so that a panic there is the panic of the whole.\<close>

theorem recursion_limit:
  assumes "nested E m k c s d t" "running t"
  shows "if recursiveCallDepth s + int m \<le> 1024
    then \<forall>n e. fst (execCode n E d t) = Inl e \<longrightarrow> fst (execCode (k + n) E c s) = Inl e
    else \<forall>n > k. fst (execCode n E c s) = Inl RecursiveCallLimit"
  using nested_panic [OF assms(1)] nested_limit [OF assms] by simp

text \<open>A function that does nothing and then calls itself.\<close>

definition loop_fn :: compiledFunction where
  "loop_fn = \<lparr>cf_code = [Nop, Call, 0, 0, 0, 0], cf_branchTables = [], cf_maxDepth = 0,
     cf_totalLocalVars = 0, cf_args = 0, cf_returns = False\<rparr>"

definition loop_start :: "VM \<Rightarrow> bool" where
  "loop_start s \<longleftrightarrow> c_code (ctx s) = cf_code loop_fn \<and> c_pc (ctx s) = 0 \<and> \<not> abort s \<and> funcs s = [CompiledFunction loop_fn]"

lemma dispatch_Call: "dispatch (newFuncTable F c d) Call = c"
  by (simp add: dispatch_def newFuncTable_def)

lemma loop_stays: "loop_start s \<Longrightarrow> stays E s (addPc 1 s)"
  by (simp add: stays_def loop_start_def running_def next_instr_def loop_fn_def exec_instr_def dispatch_def newFuncTable_def nop_def vm_run)

lemma loop_enters:
  assumes "loop_start s"
  shows "enters E (addPc 1 s) loop_fn (callee_state loop_fn 0 [] (c_stack (ctx s)) (addPc 6 s))"
proof -
  have i: "imm_at (addPc 2 s) 4 [0, 0, 0, 0]" using assms by (simp add: imm_at_def loop_start_def loop_fn_def)
  have "next_instr exec E (addPc 1 s) = thenV (compiledFunction_call exec loop_fn 0) (ret False) (addPc 6 s)" for exec
    using assms fetchUint32_imm [OF i]
    by (simp add: next_instr_def loop_start_def loop_fn_def exec_instr_def dispatch_Call call_def callFunction_def vm_run)
  then show ?thesis using assms unfolding enters_def
    by (auto simp: running_def loop_start_def loop_fn_def intro!: exI [of _ "addPc 6 s"] exI [of _ 0])
qed

lemma loop_nested: "loop_start s \<Longrightarrow> \<exists>t. nested E m (2 * m) loop_fn s loop_fn t \<and> loop_start t"
proof (induction m arbitrary: s)
  case 0
  then show ?case using nested_here by auto
next
  case (Suc m)
  let ?t = "callee_state loop_fn 0 [] (c_stack (ctx s)) (addPc 6 s)"
  have "loop_start ?t" using Suc.prems by (simp add: loop_start_def callee_state_def)
  from Suc.IH [OF this] obtain u where "nested E m (2 * m) loop_fn ?t loop_fn u" "loop_start u" by blast
  from nested_stay [OF loop_stays [OF Suc.prems] nested_call [OF loop_enters [OF Suc.prems] this(1)], of loop_fn] this(2)
  show ?case by auto
qed

theorem recursion_limit_witness:
  "fst (execCode 2051 silent_host loop_fn (entry_state loop_fn 0 [] (first_vm\<lparr>funcs := [CompiledFunction loop_fn], recursiveCallDepth := 0\<rparr>))) =
     Inl RecursiveCallLimit"
proof -
  let ?s = "entry_state loop_fn 0 [] (first_vm\<lparr>funcs := [CompiledFunction loop_fn], recursiveCallDepth := 0\<rparr>)"
  have s: "loop_start ?s" "recursiveCallDepth ?s = 0"
    by (simp_all add: loop_start_def entry_state_def loop_fn_def first_vm_def grow_vm_def)
  obtain t where t: "nested silent_host 1025 (2 * 1025) loop_fn ?s loop_fn t" "loop_start t" using loop_nested [OF s(1)] by blast
  have "running t" using t(2) by (simp add: running_def loop_start_def loop_fn_def)
  from recursion_limit [OF t(1) this] show ?thesis by (simp add: s(2) del: execCode.simps)
qed

end
