(* ===== verification/WStack.thy ===== *)
theory WStack
  imports Prelude
begin

text \<open>
  \<^verbatim>\<open>wagon/internal/stack/stack.go\<close>: the growable stack of unsigned 64-bit values
  the disassembler keeps its stack depths and block indices on.  The slice is
  kept bottom first, as in the code, so \<open>Get i\<close> indexes from the bottom; the
  operations that index an empty or too short slice panic.
\<close>

record stack =
  slice :: "u64 list"

definition Push :: "stack \<Rightarrow> u64 \<Rightarrow> stack" where
  "Push s b = s\<lparr>slice := slice s @ [b]\<rparr>"

definition Top :: "stack \<Rightarrow> go_error + u64" where
  "Top s = (if slice s = [] then Inl IndexOutOfRange else Inr (slice s ! (length (slice s) - 1)))"

definition Pop :: "stack \<Rightarrow> go_error + (u64 \<times> stack)" where
  "Pop s = bindE (Top s) (\<lambda>v. Inr (v, s\<lparr>slice := take (length (slice s) - 1) (slice s)\<rparr>))"

definition SetTop :: "stack \<Rightarrow> u64 \<Rightarrow> go_error + stack" where
  "SetTop s v =
     (if slice s = [] then Inl IndexOutOfRange
      else Inr (s\<lparr>slice := (slice s)[length (slice s) - 1 := v]\<rparr>))"

definition Get :: "stack \<Rightarrow> int \<Rightarrow> go_error + u64" where
  "Get s i =
     (if 0 \<le> i \<and> i < int (length (slice s)) then Inr (slice s ! nat i)
      else Inl IndexOutOfRange)"

definition Set :: "stack \<Rightarrow> int \<Rightarrow> u64 \<Rightarrow> go_error + stack" where
  "Set s i v =
     (if 0 \<le> i \<and> i < int (length (slice s)) then Inr (s\<lparr>slice := (slice s)[nat i := v]\<rparr>)
      else Inl IndexOutOfRange)"

definition Len :: "stack \<Rightarrow> nat" where
  "Len s = length (slice s)"

lemmas stack_defs = Push_def Top_def Pop_def SetTop_def Get_def Set_def Len_def

end
