(* ===== verification/Disasm.thy ===== *)
theory Disasm
  imports WasmIndex Operators WStack
begin

text \<open>
  \<^verbatim>\<open>wagon/disasm\<close>: the disassembler (\<^verbatim>\<open>disasm.go\<close>), which turns the byte code of
  a function into instructions annotated with the operands to drop where a block ends or a branch
  leaves it, and the assembler (\<^verbatim>\<open>asm.go\<close>).  Instructions that were read sit in the state
  in a list; the pointers \<^verbatim>\<open>NewStack\<close> and \<^verbatim>\<open>Block\<close> of an instruction are options,
  and an update through \<^verbatim>\<open>disas.Code[i].Block\<close> updates the list.
\<close>

section \<open>Instructions\<close>

text \<open>The dynamic types of \<^verbatim>\<open>Immediates\<close>; a float is its bit pattern.\<close>

datatype immediate =
    ImmU32 u32 | ImmI32 u32 | ImmI64 u64 | ImmF32 u32 | ImmF64 u64
  | ImmBlockType BlockType | ImmU8 byte

record StackInfo =
  StackTopDiff :: int
  si_PreserveTop :: bool
  si_IsReturn :: bool

definition StackInfo_zero :: StackInfo where
  "StackInfo_zero = \<lparr>StackTopDiff = 0, si_PreserveTop = False, si_IsReturn = False\<rparr>"

record BlockInfo =
  bi_Start :: bool
  Signature :: BlockType
  IfElseIndex :: nat
  ElseIfIndex :: nat
  EndIndex :: nat
  BlockStartIndex :: nat

definition BlockInfo_zero :: BlockInfo where
  "BlockInfo_zero = \<lparr>bi_Start = False, Signature = 0, IfElseIndex = 0, ElseIfIndex = 0,
     EndIndex = 0, BlockStartIndex = 0\<rparr>"

record Instr =
  i_Op :: Op
  Immediates :: "immediate list"
  NewStack :: "StackInfo option"
  i_Block :: "BlockInfo option"
  i_Unreachable :: bool
  IsReturn :: bool
  Branches :: "StackInfo list"

definition new_instr :: "Op \<Rightarrow> bool \<Rightarrow> Instr" where
  "new_instr op unreachable = \<lparr>i_Op = op, Immediates = [], NewStack = None, i_Block = None,
     i_Unreachable = unreachable, IsReturn = False, Branches = []\<rparr>"

definition add_imm :: "immediate \<Rightarrow> Instr \<Rightarrow> Instr" where
  "add_imm v i = i\<lparr>Immediates := Immediates i @ [v]\<rparr>"

record Disassembly =
  d_Code :: "Instr list"
  MaxDepth :: int

section \<open>The state of the disassembler\<close>

text \<open>The variables of \<^verbatim>\<open>Disassemble\<close> that live across instructions.\<close>

record dstate =
  disas :: Disassembly
  blockPolymorphicOps :: "nat list list"
  stackDepths :: stack
  blockIndices :: stack
  curIndex :: nat
  lastOpReturn :: bool

definition dstate_init :: dstate where
  "dstate_init = \<lparr>disas = \<lparr>d_Code = [], MaxDepth = 0\<rparr>, blockPolymorphicOps = [[]],
     stackDepths = Push \<lparr>slice = []\<rparr> 0, blockIndices = \<lparr>slice = []\<rparr>, curIndex = 0,
     lastOpReturn = False\<rparr>"

datatype disasm_error =
    DisasmIO io_error
  | InvalidOpcodeError byte
  | ErrStackUnderflow
  | ErrMissingTypes
  | DisasmPanic go_error

text \<open>A panic, and a LEB128 read, inside the disassembler.\<close>

definition goD :: "go_error + 'a \<Rightarrow> disasm_error + 'a" where
  "goD m = (case m of Inl e \<Rightarrow> Inl (DisasmPanic e) | Inr x \<Rightarrow> Inr x)"

definition ioD :: "io_error + 'a \<Rightarrow> disasm_error + 'a" where
  "ioD m = (case m of Inl e \<Rightarrow> Inl (DisasmIO e) | Inr x \<Rightarrow> Inr x)"

lemma liftD_simps [simp]:
  "goD (Inl e) = Inl (DisasmPanic e)" "goD (Inr x) = Inr x"
  "ioD (Inl e') = Inl (DisasmIO e')" "ioD (Inr y) = Inr y"
  by (simp_all add: goD_def ioD_def)

lemma liftD_Inr_iff [simp]: "goD m = Inr x \<longleftrightarrow> m = Inr x" "ioD m' = Inr y \<longleftrightarrow> m' = Inr y"
  by (cases m; cases m'; simp)+

definition checkMaxDepth :: "Disassembly \<Rightarrow> int \<Rightarrow> Disassembly" where
  "checkMaxDepth d depth = (if depth > MaxDepth d then d\<lparr>MaxDepth := depth\<rparr> else d)"

definition checkDepth :: "int \<Rightarrow> dstate \<Rightarrow> dstate" where
  "checkDepth depth st = st\<lparr>disas := checkMaxDepth (disas st) depth\<rparr>"

definition pushPolymorphicOp :: "nat list list \<Rightarrow> nat \<Rightarrow> go_error + nat list list" where
  "pushPolymorphicOp indexStack index =
     (if indexStack = [] then Inl IndexOutOfRange
      else Inr (indexStack[length indexStack - 1 := last indexStack @ [index]]))"

definition isInstrReachable :: "nat list list \<Rightarrow> go_error + bool" where
  "isInstrReachable indexStack =
     (if indexStack = [] then Inl IndexOutOfRange else Inr (last indexStack = []))"

definition markPolymorphic :: "dstate \<Rightarrow> disasm_error + dstate" where
  "markPolymorphic st =
     bindE (goD (pushPolymorphicOp (blockPolymorphicOps st) (curIndex st))) (\<lambda>ps.
       Inr (st\<lparr>blockPolymorphicOps := ps\<rparr>))"

definition depthTop :: "dstate \<Rightarrow> disasm_error + u64" where
  "depthTop st = goD (Top (stackDepths st))"

definition setDepth :: "u64 \<Rightarrow> dstate \<Rightarrow> disasm_error + dstate" where
  "setDepth v st = bindE (goD (SetTop (stackDepths st) v)) (\<lambda>s. Inr (st\<lparr>stackDepths := s\<rparr>))"

text \<open>\<^verbatim>\<open>stackDepths.SetTop(stackDepths.Top() - k)\<close>.\<close>

definition dropDepth :: "u64 \<Rightarrow> dstate \<Rightarrow> disasm_error + dstate" where
  "dropDepth k st = bindE (depthTop st) (\<lambda>top. setDepth (top - k) st)"

definition codeAt :: "u64 \<Rightarrow> dstate \<Rightarrow> disasm_error + Instr" where
  "codeAt i st = goD (idx (d_Code (disas st)) (unat i))"

text \<open>\<^verbatim>\<open>disas.Code[i].Block\<close>, dereferenced.\<close>

definition blockAt :: "u64 \<Rightarrow> dstate \<Rightarrow> disasm_error + BlockInfo" where
  "blockAt i st =
     bindE (codeAt i st) (\<lambda>ins.
       case i_Block ins of None \<Rightarrow> Inl (DisasmPanic NilDereference) | Some b \<Rightarrow> Inr b)"

definition updateCode :: "u64 \<Rightarrow> (Instr \<Rightarrow> Instr) \<Rightarrow> dstate \<Rightarrow> dstate" where
  "updateCode i f st =
     st\<lparr>disas := (disas st)\<lparr>d_Code := (d_Code (disas st))[unat i := f (d_Code (disas st) ! unat i)]\<rparr>\<rparr>"

definition updateBlock :: "u64 \<Rightarrow> (BlockInfo \<Rightarrow> BlockInfo) \<Rightarrow> dstate \<Rightarrow> dstate" where
  "updateBlock i f = updateCode i (\<lambda>ins. ins\<lparr>i_Block := map_option f (i_Block ins)\<rparr>)"

section \<open>One instruction\<close>

text \<open>
  Each step takes the instruction under construction, the state and the bytes after the opcode.
\<close>

type_synonym step_result = "disasm_error + (Instr \<times> dstate \<times> byte list)"

text \<open>Operands and results of an operator whose signature is fixed.\<close>

definition fixedEffect :: "Op \<Rightarrow> dstate \<Rightarrow> disasm_error + dstate" where
  "fixedEffect op st =
     bindE (depthTop st) (\<lambda>top0.
       let top = top0 - of_nat (length (op_Args op))
       in bindE (setDepth top st) (\<lambda>st.
         if sint top < - 1 then Inl ErrStackUnderflow
         else if op_Returns op \<noteq> BlockTypeEmpty
         then bindE (setDepth (top + 1) st) (\<lambda>st. Inr (checkDepth (sint (top + 1)) st))
         else Inr (checkDepth (sint top) st)))"

definition isUnreachable :: "byte \<Rightarrow> dstate \<Rightarrow> disasm_error + bool" where
  "isUnreachable op st =
     (if op = End \<or> op = Else
      then Inr (int (Len (blockIndices st)) \<noteq> int (length (blockPolymorphicOps st)) - 1)
      else bindE (goD (isInstrReachable (blockPolymorphicOps st))) (\<lambda>b. Inr (\<not> b)))"

text \<open>The stack of an \<^verbatim>\<open>end\<close> or \<^verbatim>\<open>else\<close>: what the block leaves above its parent's operands.\<close>

definition blockEndStack :: "dstate \<Rightarrow> u64 \<Rightarrow> u64 \<Rightarrow> BlockType \<Rightarrow> disasm_error + StackInfo" where
  "blockEndStack st curDepth prevDepth blockSig =
     (if \<not> lastOpReturn st then
        let elemsDiscard = sint (curDepth - prevDepth)
        in if elemsDiscard < - 1 then Inl ErrStackUnderflow
           else Inr (StackInfo_zero\<lparr>StackTopDiff := elemsDiscard,
                       si_PreserveTop := blockSig \<noteq> BlockTypeEmpty\<rparr>)
      else Inr StackInfo_zero)"

text \<open>Leaving the block: its stack, its unreachable marks and, for \<^verbatim>\<open>else\<close>, the next block.\<close>

definition closeBlock :: "bool \<Rightarrow> bool \<Rightarrow> dstate \<Rightarrow> disasm_error + dstate" where
  "closeBlock isElse unreachable st =
     bindE (if unreachable then Inr st
            else if blockPolymorphicOps st = [] then Inl (DisasmPanic SliceOutOfRange)
            else Inr (st\<lparr>blockPolymorphicOps := butlast (blockPolymorphicOps st)\<rparr>)) (\<lambda>st.
     bindE (goD (Pop (stackDepths st))) (\<lambda>(_, s).
       let st = st\<lparr>stackDepths := s\<rparr>
       in if isElse then
            Inr (st\<lparr>stackDepths := Push (stackDepths st) 0,
                    blockIndices := Push (blockIndices st) (of_nat (curIndex st)),
                    blockPolymorphicOps := (if unreachable then blockPolymorphicOps st
                                            else blockPolymorphicOps st @ [[]])\<rparr>)
          else Inr st))"

definition linkBlock :: "bool \<Rightarrow> u64 \<Rightarrow> dstate \<Rightarrow> dstate" where
  "linkBlock isElse start st =
     (if isElse then updateBlock start (\<lambda>b. b\<lparr>IfElseIndex := unat start\<rparr>) st
      else updateBlock start (\<lambda>b. b\<lparr>EndIndex := curIndex st\<rparr>) st)"

definition blockEndInfo :: "bool \<Rightarrow> u64 \<Rightarrow> BlockType \<Rightarrow> BlockInfo" where
  "blockEndInfo isElse start sig =
     (if isElse then BlockInfo_zero\<lparr>Signature := sig, ElseIfIndex := unat start\<rparr>
      else BlockInfo_zero\<lparr>Signature := sig, BlockStartIndex := unat start\<rparr>)"

text \<open>The result of a block is one more operand of its parent.\<close>

definition pushBlockResult :: "bool \<Rightarrow> bool \<Rightarrow> BlockType \<Rightarrow> int \<Rightarrow> u64 \<Rightarrow> dstate \<Rightarrow> disasm_error + dstate" where
  "pushBlockResult isElse unreachable sig prevIndex prevDepth st =
     (if \<not> isElse \<and> sig \<noteq> BlockTypeEmpty \<and> \<not> unreachable then
        bindE (goD (Set (stackDepths st) prevIndex (prevDepth + 1))) (\<lambda>s.
          Inr (checkDepth (sint (prevDepth + 1)) (st\<lparr>stackDepths := s\<rparr>)))
      else Inr st)"

definition disasm_end :: "Instr \<Rightarrow> dstate \<Rightarrow> byte list \<Rightarrow> step_result" where
  "disasm_end ins st r =
     (let isElse = (op_Code (i_Op ins) = Else)
      in bindE (depthTop st) (\<lambda>curDepth.
         bindE (goD (Pop (blockIndices st))) (\<lambda>(start, bi).
         bindE (blockAt start st) (\<lambda>b.
         let sig = Signature b;
             ins = ins\<lparr>i_Block := Some (blockEndInfo isElse start sig)\<rparr>;
             st = linkBlock isElse start (st\<lparr>blockIndices := bi\<rparr>);
             prevIndex = int (Len (stackDepths st)) - 2
         in bindE (goD (Get (stackDepths st) prevIndex)) (\<lambda>prevDepth.
            bindE (pushBlockResult isElse (i_Unreachable ins) sig prevIndex prevDepth st) (\<lambda>st.
            bindE (blockEndStack st curDepth prevDepth sig) (\<lambda>ns.
            bindE (closeBlock isElse (i_Unreachable ins)
                     (updateCode start (\<lambda>i. i\<lparr>NewStack := Some ns\<rparr>) st)) (\<lambda>st.
              Inr (ins\<lparr>NewStack := Some ns\<rparr>, st, r)))))))))"

definition disasm_block :: "Instr \<Rightarrow> dstate \<Rightarrow> byte list \<Rightarrow> step_result" where
  "disasm_block ins st r =
     bindE (ioD (ReadVarint32 r)) (\<lambda>(sig, r).
     bindE (depthTop st) (\<lambda>top.
       let bt = (ucast sig :: BlockType)
       in Inr (add_imm (ImmBlockType bt)
                 (ins\<lparr>i_Block := Some (BlockInfo_zero\<lparr>bi_Start := True, Signature := bt\<rparr>)\<rparr>),
               st\<lparr>stackDepths := Push (stackDepths st) top,
                  blockPolymorphicOps := (if i_Unreachable ins then blockPolymorphicOps st
                                          else blockPolymorphicOps st @ [[]]),
                  blockIndices := Push (blockIndices st) (of_nat (curIndex st))\<rparr>, r)))"

text \<open>What a branch to the label unwinds, or that it returns.\<close>

definition branchInfo :: "u32 \<Rightarrow> dstate \<Rightarrow> disasm_error + StackInfo" where
  "branchInfo depth st =
     (if unat depth = Len (blockIndices st) then Inr (StackInfo_zero\<lparr>si_IsReturn := True\<rparr>)
      else bindE (depthTop st) (\<lambda>curDepth.
           bindE (goD (Get (stackDepths st) (int (Len (stackDepths st)) - 2 - uint depth))) (\<lambda>prevDepth.
             let elemsDiscard = sint (curDepth - prevDepth)
             in if elemsDiscard < 0 then Inl ErrStackUnderflow
                else bindE (goD (Get (blockIndices st) (int (Len (blockIndices st)) - 1 - uint depth))) (\<lambda>index.
                     bindE (blockAt index st) (\<lambda>b.
                       Inr (StackInfo_zero\<lparr>StackTopDiff := elemsDiscard,
                              si_PreserveTop := Signature b \<noteq> BlockTypeEmpty\<rparr>))))))"

definition disasm_br :: "Instr \<Rightarrow> dstate \<Rightarrow> byte list \<Rightarrow> step_result" where
  "disasm_br ins st r =
     bindE (ioD (ReadVarUint32 r)) (\<lambda>(depth, r).
     bindE (branchInfo depth st) (\<lambda>info.
       let ins = add_imm (ImmU32 depth) ins;
           ins = (if si_IsReturn info then ins\<lparr>IsReturn := True\<rparr> else ins\<lparr>NewStack := Some info\<rparr>)
       in bindE (if op_Code (i_Op ins) = Br then markPolymorphic st else Inr st) (\<lambda>st.
          Inr (ins, st, r))))"

fun disasm_targets :: "nat \<Rightarrow> Instr \<Rightarrow> dstate \<Rightarrow> byte list \<Rightarrow> disasm_error + (Instr \<times> byte list)" where
  "disasm_targets 0 ins st r = Inr (ins, r)"
| "disasm_targets (Suc n) ins st r =
     bindE (ioD (ReadVarUint32 r)) (\<lambda>(entry, r).
     bindE (branchInfo entry st) (\<lambda>info.
       disasm_targets n ((add_imm (ImmU32 entry) ins)\<lparr>Branches := Branches ins @ [info]\<rparr>) st r))"

definition disasm_brtable :: "Instr \<Rightarrow> dstate \<Rightarrow> byte list \<Rightarrow> step_result" where
  "disasm_brtable ins st r =
     bindE (if i_Unreachable ins then Inr st else dropDepth 1 st) (\<lambda>st.
     bindE (ioD (ReadVarUint32 r)) (\<lambda>(targetCount, r).
     bindE (disasm_targets (unat targetCount) (add_imm (ImmU32 targetCount) ins) st r) (\<lambda>(ins, r).
     bindE (disasm_targets 1 ins st r) (\<lambda>(ins, r).
     bindE (markPolymorphic st) (\<lambda>st. Inr (ins, st, r))))))"

definition callSig :: "Module \<Rightarrow> byte \<Rightarrow> u32 \<Rightarrow> disasm_error + FunctionSig" where
  "callSig m op index =
     (if op = CallIndirect then
        (case m_Types m of
           None \<Rightarrow> Inl ErrMissingTypes
         | Some types \<Rightarrow> goD (idx (Entries types) (unat index)))
      else case GetFunction m (uint index) of
             None \<Rightarrow> Inl (DisasmPanic NilDereference)
           | Some fn \<Rightarrow> (case Sig fn of
                          None \<Rightarrow> Inl (DisasmPanic NilDereference)
                        | Some sig \<Rightarrow> Inr sig))"

definition disasm_call :: "Module \<Rightarrow> Instr \<Rightarrow> dstate \<Rightarrow> byte list \<Rightarrow> step_result" where
  "disasm_call m ins st r =
     (let op = op_Code (i_Op ins)
      in bindE (ioD (ReadVarUint32 r)) (\<lambda>(index, r).
         let ins = add_imm (ImmU32 index) ins
         in bindE (if op = CallIndirect
                   then bindE (ioD (ReadVarUint32 r)) (\<lambda>(reserved, r). Inr (add_imm (ImmU32 reserved) ins, r))
                   else Inr (ins, r)) (\<lambda>(ins, r).
            if i_Unreachable ins then Inr (ins, st, r)
            else bindE (depthTop st) (\<lambda>top.
                 bindE (callSig m op index) (\<lambda>sig.
                   let top = (if op = CallIndirect then top - 1 else top)
                             - of_nat (length (ParamTypes sig)) + of_nat (length (ReturnTypes sig))
                   in bindE (setDepth top st) (\<lambda>st. Inr (ins, checkDepth (sint top) st, r)))))))"

definition disasm_var :: "Instr \<Rightarrow> dstate \<Rightarrow> byte list \<Rightarrow> step_result" where
  "disasm_var ins st r =
     bindE (ioD (ReadVarUint32 r)) (\<lambda>(index, r).
       let ins = add_imm (ImmU32 index) ins; op = op_Code (i_Op ins)
       in if i_Unreachable ins then Inr (ins, st, r)
          else bindE (depthTop st) (\<lambda>top.
            if op = GetLocal \<or> op = Operators.GetGlobal then
              bindE (setDepth (top + 1) st) (\<lambda>st. Inr (ins, checkDepth (sint (top + 1)) st, r))
            else if op = SetLocal \<or> op = SetGlobal then
              bindE (setDepth (top - 1) st) (\<lambda>st. Inr (ins, st, r))
            else Inr (ins, st, r)))"

definition disasm_const :: "Instr \<Rightarrow> dstate \<Rightarrow> byte list \<Rightarrow> step_result" where
  "disasm_const ins st r =
     (let op = op_Code (i_Op ins)
      in if op = I32Const then bindE (ioD (ReadVarint32 r)) (\<lambda>(i, r). Inr (add_imm (ImmI32 i) ins, st, r))
         else if op = I64Const then bindE (ioD (ReadVarint64 r)) (\<lambda>(i, r). Inr (add_imm (ImmI64 i) ins, st, r))
         else if op = F32Const then
           bindE (ioD (ReadFull 4 r)) (\<lambda>(b, r). Inr (add_imm (ImmF32 (le_get b)) ins, st, r))
         else bindE (ioD (ReadFull 8 r)) (\<lambda>(b, r). Inr (add_imm (ImmF64 (le_get b)) ins, st, r)))"

definition memory_ops :: "byte list" where
  "memory_ops = [I32Load, I64Load, F32Load, F64Load, I32Load8s, I32Load8u, I32Load16s, I32Load16u,
     I64Load8s, I64Load8u, I64Load16s, I64Load16u, I64Load32s, I64Load32u, I32Store, I64Store,
     F32Store, F64Store, I32Store8, I32Store16, I64Store8, I64Store16, I64Store32]"

definition disasm_memory :: "Instr \<Rightarrow> dstate \<Rightarrow> byte list \<Rightarrow> step_result" where
  "disasm_memory ins st r =
     bindE (ioD (ReadVarUint32 r)) (\<lambda>(flags, r).
     bindE (ioD (ReadVarUint32 r)) (\<lambda>(offset, r).
       Inr (add_imm (ImmU32 offset) (add_imm (ImmU32 flags) ins), st, r)))"

definition disasm_memsize :: "Instr \<Rightarrow> dstate \<Rightarrow> byte list \<Rightarrow> step_result" where
  "disasm_memsize ins st r =
     bindE (ioD (ReadVarUint32 r)) (\<lambda>(res, r). Inr (add_imm (ImmU8 (ucast res)) ins, st, r))"

definition disasm_return :: "Function \<Rightarrow> Instr \<Rightarrow> dstate \<Rightarrow> byte list \<Rightarrow> step_result" where
  "disasm_return fn ins st r =
     bindE (if i_Unreachable ins then Inr st
            else case Sig fn of
                   None \<Rightarrow> Inl (DisasmPanic NilDereference)
                 | Some sig \<Rightarrow> dropDepth (of_nat (length (ReturnTypes sig))) st) (\<lambda>st.
     bindE (markPolymorphic st) (\<lambda>st. Inr (ins, st\<lparr>lastOpReturn := True\<rparr>, r)))"

definition disasm_op :: "Function \<Rightarrow> Module \<Rightarrow> Instr \<Rightarrow> dstate \<Rightarrow> byte list \<Rightarrow> step_result" where
  "disasm_op fn m ins st r =
     (let op = op_Code (i_Op ins)
      in if op = Unreachable then bindE (markPolymorphic st) (\<lambda>st. Inr (ins, st, r))
         else if op = Drop then
           bindE (if i_Unreachable ins then Inr st else dropDepth 1 st) (\<lambda>st. Inr (ins, st, r))
         else if op = Select then
           bindE (if i_Unreachable ins then Inr st else dropDepth 2 st) (\<lambda>st. Inr (ins, st, r))
         else if op = Return then disasm_return fn ins st r
         else if op = End \<or> op = Else then disasm_end ins st r
         else if op = Block \<or> op = Loop \<or> op = Operators.If then disasm_block ins st r
         else if op = Br \<or> op = BrIf then disasm_br ins st r
         else if op = BrTable then disasm_brtable ins st r
         else if op = Call \<or> op = CallIndirect then disasm_call m ins st r
         else if op \<in> {GetLocal, SetLocal, TeeLocal, Operators.GetGlobal, SetGlobal} then disasm_var ins st r
         else if op \<in> {I32Const, I64Const, F32Const, F64Const} then disasm_const ins st r
         else if op \<in> set memory_ops then disasm_memory ins st r
         else if op = CurrentMemory \<or> op = GrowMemory then disasm_memsize ins st r
         else Inr (ins, st, r))"

text \<open>One turn of the loop, after the opcode was read.\<close>

definition disasm_step :: "Function \<Rightarrow> Module \<Rightarrow> byte \<Rightarrow> dstate \<Rightarrow> byte list \<Rightarrow> disasm_error + (dstate \<times> byte list)" where
  "disasm_step fn m b st r =
     bindE (depthTop st) (\<lambda>_.
     bindE (case New b of Inl c \<Rightarrow> Inl (InvalidOpcodeError c) | Inr op \<Rightarrow> Inr op) (\<lambda>op.
     bindE (isUnreachable b st) (\<lambda>unreachable.
     bindE (if \<not> op_Polymorphic op \<and> \<not> unreachable then fixedEffect op st else Inr st) (\<lambda>st.
     bindE (disasm_op fn m (new_instr op unreachable) st r) (\<lambda>(ins, st, r).
       Inr (st\<lparr>lastOpReturn := (if b \<noteq> Return then False else lastOpReturn st),
               disas := (disas st)\<lparr>d_Code := d_Code (disas st) @ [ins]\<rparr>,
               curIndex := curIndex st + 1\<rparr>, r))))))"

section \<open>The loop\<close>

lemma ReadFull_rest: "ReadFull n r = Inr (b, r') \<Longrightarrow> length r' \<le> length r"
  by (auto simp: ReadFull_def split: if_splits)

lemma leb_rest:
  "ReadVarUint32 r = Inr (u, r') \<Longrightarrow> length r' \<le> length r"
  "ReadVarint32 r = Inr (i, r') \<Longrightarrow> length r' \<le> length r"
  "ReadVarint64 r = Inr (l, r') \<Longrightarrow> length r' \<le> length r"
  by (auto dest: ReadVarUint32_consumes(1) ReadVarint32_consumes(1) ReadVarint64_consumes(1))

lemma disasm_targets_rest:
  "disasm_targets n ins st r = Inr (ins', r') \<Longrightarrow> length r' \<le> length r"
proof (induction n ins st r rule: disasm_targets.induct)
  case (2 n ins st r)
  from "2.prems" obtain entry r1 info where
    r: "ReadVarUint32 r = Inr (entry, r1)" and "branchInfo entry st = Inr info"
    and "disasm_targets n ((add_imm (ImmU32 entry) ins)\<lparr>Branches := Branches ins @ [info]\<rparr>) st r1 = Inr (ins', r')"
    by (auto elim!: bindE_InrE)
  with "2.IH" have "length r' \<le> length r1" by simp
  with leb_rest(1) [OF r] show ?case by simp
qed simp

lemma disasm_call_rest:
  "disasm_call m ins st r = Inr (ins', st', r') \<Longrightarrow> length r' \<le> length r"
  unfolding disasm_call_def Let_def
  by (force elim!: bindE_InrE dest!: leb_rest split: if_splits)

lemma disasm_op_rest:
  assumes "disasm_op fn m ins st r = Inr (ins', st', r')"
  shows "length r' \<le> length r"
  using assms unfolding disasm_op_def Let_def
  by (auto simp: disasm_return_def disasm_end_def disasm_block_def disasm_br_def disasm_brtable_def
      disasm_var_def disasm_const_def disasm_memory_def disasm_memsize_def Let_def
      elim!: bindE_InrE dest!: leb_rest disasm_targets_rest disasm_call_rest ReadFull_rest
      split: if_splits)

lemma disasm_step_rest:
  "disasm_step fn m b st r = Inr (st', r') \<Longrightarrow> length r' \<le> length r"
  unfolding disasm_step_def by (auto elim!: bindE_InrE dest!: disasm_op_rest)

function Disassemble_loop :: "Function \<Rightarrow> Module \<Rightarrow> dstate \<Rightarrow> byte list \<Rightarrow> disasm_error + Disassembly" where
  "Disassemble_loop fn m st [] = Inr (disas st)"
| "Disassemble_loop fn m st (b # r) =
     bindE (disasm_step fn m b st r) (\<lambda>(st, r). Disassemble_loop fn m st r)"
  by pat_completeness auto
termination
  by (relation "measure (\<lambda>(fn, m, st, r). length r)") (auto dest: disasm_step_rest)

definition Disassemble :: "Function \<Rightarrow> Module \<Rightarrow> disasm_error + Disassembly" where
  "Disassemble fn m =
     (case Body fn of
        None \<Rightarrow> Inl (DisasmPanic NilDereference)
      | Some body \<Rightarrow> Disassemble_loop fn m dstate_init (Code body))"

section \<open>The assembler\<close>

text \<open>\<^verbatim>\<open>ins.Immediates[k].(uint32)\<close>: an index out of range or a failed assertion panics.\<close>

definition immediate_at :: "Instr \<Rightarrow> nat \<Rightarrow> (immediate \<Rightarrow> 'a option) \<Rightarrow> go_error + 'a" where
  "immediate_at ins k f =
     bindE (idx (Immediates ins) k) (\<lambda>v. case f v of None \<Rightarrow> Inl BadTypeAssertion | Some x \<Rightarrow> Inr x)"

fun as_u32 :: "immediate \<Rightarrow> u32 option" where
  "as_u32 (ImmU32 v) = Some v" | "as_u32 _ = None"

fun as_i32 :: "immediate \<Rightarrow> u32 option" where
  "as_i32 (ImmI32 v) = Some v" | "as_i32 _ = None"

fun as_i64 :: "immediate \<Rightarrow> u64 option" where
  "as_i64 (ImmI64 v) = Some v" | "as_i64 _ = None"

fun as_f32 :: "immediate \<Rightarrow> u32 option" where
  "as_f32 (ImmF32 v) = Some v" | "as_f32 _ = None"

fun as_f64 :: "immediate \<Rightarrow> u64 option" where
  "as_f64 (ImmF64 v) = Some v" | "as_f64 _ = None"

fun as_u8 :: "immediate \<Rightarrow> byte option" where
  "as_u8 (ImmU8 v) = Some v" | "as_u8 _ = None"

definition put_u32 :: "Instr \<Rightarrow> nat \<Rightarrow> go_error + byte list" where
  "put_u32 ins k = bindE (immediate_at ins k as_u32) (\<lambda>v. Inr (WriteVarUint32 [] v))"

text \<open>The immediates \<open>k\<close> to \<open>k + n - 1\<close>.\<close>

fun put_u32s :: "Instr \<Rightarrow> nat \<Rightarrow> nat \<Rightarrow> go_error + byte list" where
  "put_u32s ins k 0 = Inr []"
| "put_u32s ins k (Suc n) = bindE (put_u32 ins k) (\<lambda>b. bindE (put_u32s ins (k + 1) n) (\<lambda>bs. Inr (b @ bs)))"

definition asm_immediates :: "Instr \<Rightarrow> go_error + byte list" where
  "asm_immediates ins =
     (let op = op_Code (i_Op ins)
      in if op = Block \<or> op = Loop \<or> op = Operators.If then
           (case i_Block ins of
              None \<Rightarrow> Inl NilDereference
            | Some b \<Rightarrow> Inr (WriteVarint64 [] (scast (Signature b))))
         else if op = Br \<or> op = BrIf then put_u32 ins 0
         else if op = BrTable then
           bindE (immediate_at ins 0 as_u32) (\<lambda>cnt.
           bindE (put_u32s ins 1 (unat cnt)) (\<lambda>bs.
           bindE (put_u32 ins (unat (1 + cnt))) (\<lambda>d. Inr (WriteVarUint32 [] cnt @ bs @ d))))
         else if op = Call then put_u32 ins 0
         else if op = CallIndirect then put_u32s ins 0 2
         else if op \<in> {GetLocal, SetLocal, TeeLocal, Operators.GetGlobal, SetGlobal} then put_u32 ins 0
         else if op = I32Const then
           bindE (immediate_at ins 0 as_i32) (\<lambda>v. Inr (WriteVarint64 [] (scast v)))
         else if op = I64Const then bindE (immediate_at ins 0 as_i64) (\<lambda>v. Inr (WriteVarint64 [] v))
         else if op = F32Const then bindE (immediate_at ins 0 as_f32) (\<lambda>v. Inr (le_put 4 v))
         else if op = F64Const then bindE (immediate_at ins 0 as_f64) (\<lambda>v. Inr (le_put 8 v))
         else if op \<in> set memory_ops then put_u32s ins 0 2
         else if op = CurrentMemory \<or> op = GrowMemory then
           bindE (immediate_at ins 0 as_u8) (\<lambda>v. Inr (WriteVarUint32 [] (ucast v)))
         else Inr [])"

fun Assemble :: "Instr list \<Rightarrow> go_error + byte list" where
  "Assemble [] = Inr []"
| "Assemble (ins # inss) =
     bindE (asm_immediates ins) (\<lambda>bs. bindE (Assemble inss) (\<lambda>rest.
       Inr (op_Code (i_Op ins) # bs @ rest)))"

end
