(* ===== verification/Compile.thy ===== *)
theory Compile
  imports Disasm SeaTypes VmExec "HOL-Library.AList"
begin

text \<open>
  \<^verbatim>\<open>wagon/exec/internal/compile/compile.go\<close>: rewriting a disassembly into code without
  blocks.  The map from nesting depths to blocks is an association list.  A branch table is shared,
  as a pointer, by the list of tables and the blocks around its instruction: the tables are kept in
  one list, and a block holds indices into it.
\<close>

section \<open>State\<close>

record cblock =
  cb_offset :: int
  cb_ifBlock :: bool
  cb_elseAddrOffset :: int
  cb_loopBlock :: bool
  cb_patchOffsets :: "int list"
  cb_discard :: StackInfo
  cb_branchTables :: "nat list"

definition cblock_zero :: cblock where
  "cblock_zero = \<lparr>cb_offset = 0, cb_ifBlock = False, cb_elseAddrOffset = 0, cb_loopBlock = False,
     cb_patchOffsets = [], cb_discard = StackInfo_zero, cb_branchTables = []\<rparr>"

record cstate =
  cs_buffer :: "byte list"
  cs_tables :: "BranchTable list"
  curBlockDepth :: int
  cs_blocks :: "(int \<times> cblock) list"

definition cstate_init :: cstate where
  "cstate_init = \<lparr>cs_buffer = [], cs_tables = [], curBlockDepth = - 1, cs_blocks = [(- 1, cblock_zero)]\<rparr>"

text \<open>The compiler returns no errors: it panics.\<close>

datatype compile_panic = CompilePanic go_error | TablePanic sea_panic

definition goC :: "go_error + 'a \<Rightarrow> compile_panic + 'a" where
  "goC m = (case m of Inl e \<Rightarrow> Inl (CompilePanic e) | Inr x \<Rightarrow> Inr x)"

lemma goC_simps [simp]: "goC (Inl e) = Inl (CompilePanic e)" "goC (Inr x) = Inr x"
  by (simp_all add: goC_def)

lemma goC_Inr_iff [simp]: "goC m = Inr x \<longleftrightarrow> m = Inr x"
  by (cases m) simp_all

section \<open>Writing\<close>

definition emit :: "byte list \<Rightarrow> cstate \<Rightarrow> cstate" where
  "emit bs st = st\<lparr>cs_buffer := cs_buffer st @ bs\<rparr>"

definition int64_bytes :: "int \<Rightarrow> byte list" where
  "int64_bytes n = le_put 8 (word_of_int n :: u64)"

fun imm_bytes :: "immediate \<Rightarrow> byte list" where
  "imm_bytes (ImmU32 v) = le_put 4 v"
| "imm_bytes (ImmI32 v) = le_put 4 v"
| "imm_bytes (ImmI64 v) = le_put 8 v"
| "imm_bytes (ImmF32 v) = le_put 4 v"
| "imm_bytes (ImmF64 v) = le_put 8 v"
| "imm_bytes (ImmBlockType v) = [v]"
| "imm_bytes (ImmU8 v) = [v]"

text \<open>\<^verbatim>\<open>code[start+i] = byte(addr >> shift)\<close> for the last \<open>n\<close> of the eight bytes.\<close>

fun patch_loop :: "nat \<Rightarrow> int \<Rightarrow> u64 \<Rightarrow> byte list \<Rightarrow> go_error + byte list" where
  "patch_loop 0 start addr code = Inr code"
| "patch_loop (Suc n) start addr code =
     (let i = start + int (7 - n)
      in if i < 0 \<or> i \<ge> int (length code) then Inl IndexOutOfRange
         else patch_loop n start addr (code[nat i := ucast (signed_drop_bit (8 * (7 - n)) addr)]))"

definition patchOffset :: "byte list \<Rightarrow> int \<Rightarrow> int \<Rightarrow> go_error + byte list" where
  "patchOffset code start addr = patch_loop 8 start (word_of_int addr) code"

definition patch :: "int \<Rightarrow> int \<Rightarrow> cstate \<Rightarrow> compile_panic + cstate" where
  "patch start addr st =
     bindE (goC (patchOffset (cs_buffer st) start addr)) (\<lambda>b. Inr (st\<lparr>cs_buffer := b\<rparr>))"

fun patch_all :: "int list \<Rightarrow> int \<Rightarrow> cstate \<Rightarrow> compile_panic + cstate" where
  "patch_all [] addr st = Inr st"
| "patch_all (o1 # os) addr st = bindE (patch o1 addr st) (\<lambda>st. patch_all os addr st)"

definition bufferLen :: "cstate \<Rightarrow> int" where
  "bufferLen st = int (length (cs_buffer st))"

section \<open>Blocks\<close>

text \<open>A missing key gives a nil pointer, whose use panics.\<close>

definition blockOf :: "int \<Rightarrow> cstate \<Rightarrow> compile_panic + cblock" where
  "blockOf d st =
     (case map_of (cs_blocks st) d of None \<Rightarrow> Inl (CompilePanic NilDereference) | Some b \<Rightarrow> Inr b)"

definition setBlock :: "int \<Rightarrow> cblock \<Rightarrow> cstate \<Rightarrow> cstate" where
  "setBlock d b st = st\<lparr>cs_blocks := AList.update d b (cs_blocks st)\<rparr>"

definition addPatch :: "int \<Rightarrow> int \<Rightarrow> cstate \<Rightarrow> compile_panic + cstate" where
  "addPatch d off st =
     bindE (blockOf d st) (\<lambda>b. Inr (setBlock d (b\<lparr>cb_patchOffsets := cb_patchOffsets b @ [off]\<rparr>) st))"

definition openBlock :: "cblock \<Rightarrow> cstate \<Rightarrow> cstate" where
  "openBlock b st = setBlock (curBlockDepth st + 1) b (st\<lparr>curBlockDepth := curBlockDepth st + 1\<rparr>)"

definition newStackOf :: "Instr \<Rightarrow> compile_panic + StackInfo" where
  "newStackOf ins = (case NewStack ins of None \<Rightarrow> Inl (CompilePanic NilDereference) | Some s \<Rightarrow> Inr s)"

definition imm_u32 :: "Instr \<Rightarrow> nat \<Rightarrow> compile_panic + u32" where
  "imm_u32 ins k = goC (immediate_at ins k as_u32)"

text \<open>The discard instruction for a stack that shrinks.\<close>

definition emit_discard :: "StackInfo \<Rightarrow> cstate \<Rightarrow> cstate" where
  "emit_discard s st =
     (if StackTopDiff s \<noteq> 0
      then emit ((if si_PreserveTop s then OpDiscardPreserveTop else OpDiscard) #
                 int64_bytes (StackTopDiff s)) st
      else st)"

definition emit_discard_opt :: "StackInfo option \<Rightarrow> cstate \<Rightarrow> cstate" where
  "emit_discard_opt so st = (case so of None \<Rightarrow> st | Some s \<Rightarrow> emit_discard s st)"

section \<open>Instructions\<close>

definition compile_if :: "cstate \<Rightarrow> compile_panic + cstate" where
  "compile_if st =
     (let st = emit [OpJmpZ] (st\<lparr>curBlockDepth := curBlockDepth st + 1\<rparr>);
          b = cblock_zero\<lparr>cb_ifBlock := True, cb_elseAddrOffset := bufferLen st\<rparr>
      in Inr (emit (int64_bytes 0) (setBlock (curBlockDepth st) b st)))"

definition compile_loop :: "Instr \<Rightarrow> cstate \<Rightarrow> compile_panic + cstate" where
  "compile_loop ins st =
     bindE (newStackOf ins) (\<lambda>s.
       Inr (openBlock (cblock_zero\<lparr>cb_offset := bufferLen st, cb_loopBlock := True, cb_discard := s\<rparr>) st))"

definition compile_block :: "Instr \<Rightarrow> cstate \<Rightarrow> compile_panic + cstate" where
  "compile_block ins st =
     bindE (newStackOf ins) (\<lambda>s. Inr (openBlock (cblock_zero\<lparr>cb_discard := s\<rparr>) st))"

definition compile_else :: "Instr list \<Rightarrow> Instr \<Rightarrow> cstate \<Rightarrow> compile_panic + cstate" where
  "compile_else code ins st =
     bindE (case i_Block ins of None \<Rightarrow> Inl (CompilePanic NilDereference) | Some b \<Rightarrow> Inr b) (\<lambda>info.
     bindE (goC (idx code (ElseIfIndex info))) (\<lambda>ifInstr.
       let st = emit [OpJmp] (emit_discard_opt (NewStack ifInstr) st);
           ifBlockEndOffset = bufferLen st;
           st = emit (int64_bytes 0) st;
           curOffset = bufferLen st
       in bindE (blockOf (curBlockDepth st) st) (\<lambda>b.
          bindE (patch (cb_elseAddrOffset b) curOffset st) (\<lambda>st.
            Inr (setBlock (curBlockDepth st)
                   (b\<lparr>cb_ifBlock := False,
                      cb_patchOffsets := cb_patchOffsets b @ [ifBlockEndOffset]\<rparr>) st)))))"

fun patch_tables :: "nat list \<Rightarrow> int \<Rightarrow> int \<Rightarrow> cstate \<Rightarrow> compile_panic + cstate" where
  "patch_tables [] depth addr st = Inr st"
| "patch_tables (k # ks) depth addr st =
     (let t = cs_tables st ! k
      in case PatchTable t (BlocksLen t - depth - 1) addr of
           Inl e \<Rightarrow> Inl (TablePanic e)
         | Inr t' \<Rightarrow> patch_tables ks depth addr (st\<lparr>cs_tables := (cs_tables st)[k := t']\<rparr>))"

text \<open>A block that is not a loop continues at its end, which an \<^verbatim>\<open>if\<close> without
  \<^verbatim>\<open>else\<close> also jumps to.\<close>

definition end_offset :: "cblock \<Rightarrow> cstate \<Rightarrow> compile_panic + (int \<times> cstate)" where
  "end_offset b st =
     (if cb_loopBlock b then Inr (cb_offset b, st)
      else bindE (if cb_ifBlock b then patch (cb_elseAddrOffset b) (bufferLen st) st else Inr st)
             (\<lambda>st'. Inr (bufferLen st, st')))"

definition compile_end :: "Instr \<Rightarrow> cstate \<Rightarrow> compile_panic + cstate" where
  "compile_end ins st =
     (let depth = curBlockDepth st
      in bindE (newStackOf ins) (\<lambda>s.
           let st = emit_discard s st
           in bindE (blockOf depth st) (\<lambda>b.
              bindE (end_offset b st) (\<lambda>(offset, st).
              bindE (patch_all (cb_patchOffsets b) offset st) (\<lambda>st.
              bindE (patch_tables (cb_branchTables b) depth offset st) (\<lambda>st.
                Inr (st\<lparr>cs_blocks := AList.delete depth (cs_blocks st),
                        curBlockDepth := depth - 1\<rparr>)))))))"

definition compile_br :: "Instr \<Rightarrow> cstate \<Rightarrow> compile_panic + cstate" where
  "compile_br ins st =
     (let st = emit [OpJmp] (emit_discard_opt (NewStack ins) st)
      in bindE (imm_u32 ins 0) (\<lambda>label.
         bindE (addPatch (curBlockDepth st - uint label) (bufferLen st) st) (\<lambda>st.
           Inr (emit (int64_bytes 0) st))))"

definition compile_brif :: "Instr \<Rightarrow> cstate \<Rightarrow> compile_panic + cstate" where
  "compile_brif ins st =
     (let st = emit [OpJmpNz] st
      in bindE (imm_u32 ins 0) (\<lambda>label.
         bindE (addPatch (curBlockDepth st - uint label) (bufferLen st) st) (\<lambda>st.
           let (preserve, diff) =
             (case NewStack ins of
                None \<Rightarrow> (0, 0)
              | Some s \<Rightarrow> if \<not> si_PreserveTop s \<or> StackTopDiff s = 0 then (0, 0)
                          else (1, StackTopDiff s))
           in Inr (emit (int64_bytes 0 @ [preserve] @ int64_bytes diff) st))))"

definition branch_target :: "Instr \<Rightarrow> nat \<Rightarrow> u32 \<Rightarrow> compile_panic + Target" where
  "branch_target ins k label =
     bindE (goC (idx (Branches ins) k)) (\<lambda>br.
       Inr \<lparr>Addr = uint label, Discard = StackTopDiff br, PreserveTop = si_PreserveTop br,
            IsReturnTarget = si_IsReturn br\<rparr>)"

text \<open>The targets \<open>k\<close> to \<open>k + n - 1\<close>; the immediate of target \<open>k\<close> is the one at \<open>k + 1\<close>.\<close>

fun branch_targets :: "Instr \<Rightarrow> nat \<Rightarrow> nat \<Rightarrow> compile_panic + Target list" where
  "branch_targets ins k 0 = Inr []"
| "branch_targets ins k (Suc n) =
     bindE (imm_u32 ins (k + 1)) (\<lambda>label. bindE (branch_target ins k label) (\<lambda>t.
       bindE (branch_targets ins (k + 1) n) (\<lambda>ts. Inr (t # ts))))"

definition compile_brtable :: "Instr \<Rightarrow> cstate \<Rightarrow> compile_panic + cstate" where
  "compile_brtable ins st =
     bindE (imm_u32 ins 0) (\<lambda>targetCount.
     bindE (branch_targets ins 0 (unat targetCount)) (\<lambda>ts.
     bindE (imm_u32 ins (length (Immediates ins) - 1)) (\<lambda>defaultLabel.
     bindE (branch_target ins (unat targetCount) defaultLabel) (\<lambda>d.
       let t = \<lparr>Targets = ts, DefaultTarget = d, PatchedAddrs = [],
                BlocksLen = int (length (cs_blocks st)) - 1\<rparr>;
           k = length (cs_tables st);
           st = st\<lparr>cs_tables := cs_tables st @ [t],
                   cs_blocks := map (\<lambda>(d, b). (d, b\<lparr>cb_branchTables := cb_branchTables b @ [k]\<rparr>)) (cs_blocks st)\<rparr>
       in Inr (emit (BrTable # int64_bytes (int k)) st)))))"

text \<open>The operator and its immediates, as they are.\<close>

definition emit_instr :: "byte \<Rightarrow> immediate list \<Rightarrow> cstate \<Rightarrow> cstate" where
  "emit_instr op vs st = emit (op # concat (map imm_bytes vs)) st"

definition compile_instr :: "Instr list \<Rightarrow> Instr \<Rightarrow> cstate \<Rightarrow> compile_panic + cstate" where
  "compile_instr code ins st =
     (let op = op_Code (i_Op ins)
      in if i_Unreachable ins then Inr st
         else if op \<in> set memory_ops then
           bindE (imm_u32 ins 1) (\<lambda>v. Inr (emit_instr op [ImmU32 v] st))
         else if op = Operators.If then compile_if st
         else if op = Loop then compile_loop ins st
         else if op = Block then compile_block ins st
         else if op = Else then compile_else code ins st
         else if op = End then compile_end ins st
         else if op = Br then compile_br ins st
         else if op = BrIf then compile_brif ins st
         else if op = BrTable then
           bindE (compile_brtable ins st) (\<lambda>st. Inr (emit_instr op (Immediates ins) st))
         else Inr (emit_instr op (Immediates ins) st))"

fun compile_all :: "Instr list \<Rightarrow> Instr list \<Rightarrow> cstate \<Rightarrow> compile_panic + cstate" where
  "compile_all code [] st = Inr st"
| "compile_all code (ins # inss) st =
     bindE (compile_instr code ins st) (\<lambda>st. compile_all code inss st)"

definition Compile :: "Instr list \<Rightarrow> compile_panic + (byte list \<times> BranchTable list)" where
  "Compile code =
     bindE (compile_all code code cstate_init) (\<lambda>st.
       let addr = bufferLen st; st = emit [Nop] st
       in bindE (blockOf (- 1) st) (\<lambda>root.
          bindE (patch_all (cb_patchOffsets root) addr st) (\<lambda>st.
            Inr (cs_buffer st, map (\<lambda>t. t\<lparr>PatchedAddrs := []\<rparr>) (cs_tables st)))))"

end
