(* ===== verification/DisasmProps.thy ===== *)
theory DisasmProps
  imports Disasm
begin

text \<open>
  What the disassembler keeps of the code: assembling and disassembling are inverse on the
  instructions' operators and immediates.
\<close>

section \<open>What the assembler sees of an instruction\<close>

definition is_block_op :: "byte \<Rightarrow> bool" where
  "is_block_op op \<longleftrightarrow> op = Block \<or> op = Loop \<or> op = Operators.If"

definition view :: "Instr \<Rightarrow> Op \<times> immediate list \<times> BlockType option" where
  "view ins = (i_Op ins, Immediates ins,
     if is_block_op (op_Code (i_Op ins)) then map_option Signature (i_Block ins) else None)"

definition code_view :: "dstate \<Rightarrow> (Op \<times> immediate list \<times> BlockType option) list" where
  "code_view st = map view (d_Code (disas st))"

lemma put_u32_cong: "Immediates i = Immediates j \<Longrightarrow> put_u32 i k = put_u32 j k"
  by (simp add: put_u32_def immediate_at_def)

lemma put_u32s_cong: "Immediates i = Immediates j \<Longrightarrow> put_u32s i k n = put_u32s j k n"
proof (induction n arbitrary: k)
  case (Suc n)
  then show ?case using put_u32_cong [OF Suc.prems, of k] by simp
qed simp

lemma asm_immediates_view:
  assumes "view i = view j"
  shows "asm_immediates i = asm_immediates j"
proof -
  have v: "i_Op i = i_Op j" "Immediates i = Immediates j"
    "is_block_op (op_Code (i_Op j)) \<Longrightarrow> map_option Signature (i_Block i) = map_option Signature (i_Block j)"
    using assms by (auto simp: view_def split: if_splits)
  show ?thesis
  proof (cases "is_block_op (op_Code (i_Op j))")
    case True
    then have "(case i_Block i of None \<Rightarrow> Inl NilDereference
         | Some b \<Rightarrow> Inr (WriteVarint64 [] (scast (Signature b)))) =
       (case i_Block j of None \<Rightarrow> Inl NilDereference
         | Some b \<Rightarrow> Inr (WriteVarint64 [] (scast (Signature b))))"
      using v(3) by (cases "i_Block i"; cases "i_Block j") auto
    then show ?thesis using True v(1) by (simp add: asm_immediates_def is_block_op_def)
  next
    case False
    then have "op_Code (i_Op j) \<noteq> Block \<and> op_Code (i_Op j) \<noteq> Loop \<and> op_Code (i_Op j) \<noteq> Operators.If"
      by (simp add: is_block_op_def)
    then show ?thesis
      unfolding asm_immediates_def v(1) immediate_at_def v(2) put_u32_cong [OF v(2)]
        put_u32s_cong [OF v(2)] Let_def by simp
  qed
qed

lemma Assemble_view: "map view is = map view js \<Longrightarrow> Assemble is = Assemble js"
proof (induction "is" arbitrary: js)
  case (Cons i "is")
  then obtain j js' where js: "js = j # js'" "view i = view j" "map view is = map view js'" by auto
  have "i_Op i = i_Op j" using js(2) by (simp add: view_def)
  then show ?case using Cons.IH [OF js(3)] asm_immediates_view [OF js(2)] js(1) by simp
qed simp

section \<open>Instructions that were read stay as they are\<close>

lemma code_view_simps [simp]:
  "code_view (st\<lparr>stackDepths := a\<rparr>) = code_view st"
  "code_view (st\<lparr>blockIndices := b\<rparr>) = code_view st"
  "code_view (st\<lparr>blockPolymorphicOps := c\<rparr>) = code_view st"
  "code_view (st\<lparr>lastOpReturn := d\<rparr>) = code_view st"
  "code_view (checkDepth n st) = code_view st"
  by (simp_all add: code_view_def checkDepth_def checkMaxDepth_def)

lemma code_view_updateCode:
  assumes "\<And>i. view (f i) = view i"
  shows "code_view (updateCode k f st) = code_view st"
proof (cases "unat k < length (d_Code (disas st))")
  case True
  then show ?thesis using assms by (simp add: code_view_def updateCode_def map_update list_update_same_conv)
next
  case False
  then show ?thesis by (simp add: code_view_def updateCode_def list_update_beyond)
qed

lemma view_NewStack [simp]: "view (i\<lparr>NewStack := n\<rparr>) = view i"
  by (simp add: view_def)

lemma code_view_linkBlock [simp]: "code_view (linkBlock e k st) = code_view st"
  unfolding linkBlock_def updateBlock_def
  by (auto intro!: code_view_updateCode simp: view_def option.map_comp comp_def)

lemma setDepth_view: "setDepth v st = Inr st' \<Longrightarrow> code_view st' = code_view st"
  by (auto simp: setDepth_def elim!: bindE_InrE)

lemma dropDepth_view: "dropDepth k st = Inr st' \<Longrightarrow> code_view st' = code_view st"
  by (auto simp: dropDepth_def elim!: bindE_InrE dest: setDepth_view)

lemma markPolymorphic_view: "markPolymorphic st = Inr st' \<Longrightarrow> code_view st' = code_view st"
  by (auto simp: markPolymorphic_def elim!: bindE_InrE)

lemma fixedEffect_view: "fixedEffect op st = Inr st' \<Longrightarrow> code_view st' = code_view st"
  by (auto simp: fixedEffect_def Let_def elim!: bindE_InrE dest!: setDepth_view split: if_splits)

lemma pushBlockResult_view: "pushBlockResult e u sig i d st = Inr st' \<Longrightarrow> code_view st' = code_view st"
  by (auto simp: pushBlockResult_def elim!: bindE_InrE split: if_splits)

lemma closeBlock_view: "closeBlock e u st = Inr st' \<Longrightarrow> code_view st' = code_view st"
  by (auto simp: closeBlock_def Let_def elim!: bindE_InrE split: if_splits)

lemmas step_views = setDepth_view dropDepth_view markPolymorphic_view fixedEffect_view
  pushBlockResult_view closeBlock_view

lemma disasm_end_view: "disasm_end ins st r = Inr (ins', st', r') \<Longrightarrow> code_view st' = code_view st"
  unfolding disasm_end_def Let_def
  by (auto elim!: bindE_InrE dest!: step_views simp: code_view_updateCode)

lemma disasm_call_view: "disasm_call m ins st r = Inr (ins', st', r') \<Longrightarrow> code_view st' = code_view st"
  unfolding disasm_call_def Let_def
  by (force elim!: bindE_InrE dest!: step_views split: if_splits)

lemma disasm_op_view:
  assumes "disasm_op fn m ins st r = Inr (ins', st', r')"
  shows "code_view st' = code_view st"
  using assms unfolding disasm_op_def Let_def
  by (auto simp: disasm_return_def disasm_block_def disasm_br_def disasm_brtable_def
      disasm_var_def disasm_const_def disasm_memory_def disasm_memsize_def Let_def
      elim!: bindE_InrE dest!: step_views disasm_end_view disasm_call_view
      split: if_splits option.splits)

section \<open>Reading back what was assembled\<close>

text \<open>An instruction with the immediates the disassembler gives its operator.\<close>

definition one_u32 :: "immediate list \<Rightarrow> bool" where
  "one_u32 vs \<longleftrightarrow> (\<exists>a. vs = [ImmU32 a])"

definition two_u32 :: "immediate list \<Rightarrow> bool" where
  "two_u32 vs \<longleftrightarrow> (\<exists>a b. vs = [ImmU32 a, ImmU32 b])"

definition table_imms :: "immediate list \<Rightarrow> bool" where
  "table_imms vs \<longleftrightarrow>
     (\<exists>ls d. vs = ImmU32 (of_nat (length ls)) # map ImmU32 (ls @ [d]) \<and> fits32 (Suc (length ls)))"

definition imms_ok :: "Instr \<Rightarrow> bool" where
  "imms_ok ins \<longleftrightarrow>
     (let op = op_Code (i_Op ins); vs = Immediates ins
      in if is_block_op op then \<exists>b. i_Block ins = Some b \<and> vs = [ImmBlockType (Signature b)]
         else if op \<in> {Br, BrIf, Call, GetLocal, SetLocal, TeeLocal, Operators.GetGlobal, SetGlobal}
         then one_u32 vs
         else if op = BrTable then table_imms vs
         else if op = CallIndirect \<or> op \<in> set memory_ops then two_u32 vs
         else if op = I32Const then \<exists>v. vs = [ImmI32 v]
         else if op = I64Const then \<exists>v. vs = [ImmI64 v]
         else if op = F32Const then \<exists>v. vs = [ImmF32 v]
         else if op = F64Const then \<exists>v. vs = [ImmF64 v]
         else if op = CurrentMemory \<or> op = GrowMemory then \<exists>v. vs = [ImmU8 v]
         else vs = [])"

definition instr_ok :: "Instr \<Rightarrow> bool" where
  "instr_ok ins \<longleftrightarrow> New (op_Code (i_Op ins)) = Inr (i_Op ins) \<and> imms_ok ins"

lemma immediate_at_Cons:
  "immediate_at ins k f = (if k < length (Immediates ins)
     then (case f (Immediates ins ! k) of None \<Rightarrow> Inl BadTypeAssertion | Some x \<Rightarrow> Inr x)
     else Inl IndexOutOfRange)"
  by (simp add: immediate_at_def idx_def)

lemma put_u32s_map:
  assumes "Immediates ins = pre @ map ImmU32 ls @ post"
  shows "put_u32s ins (length pre) (length ls) = Inr (concat (map (WriteVarUint32 []) ls))"
  using assms
proof (induction ls arbitrary: pre)
  case (Cons l ls)
  have "put_u32s ins (length (pre @ [ImmU32 l])) (length ls) = Inr (concat (map (WriteVarUint32 []) ls))"
    by (rule Cons.IH) (simp add: Cons.prems)
  moreover have "put_u32 ins (length pre) = Inr (WriteVarUint32 [] l)"
    using Cons.prems by (simp add: put_u32_def immediate_at_Cons)
  ultimately show ?case by simp
qed simp

lemma disasm_targets_back:
  assumes "disasm_targets (length ls) ins st (concat (map (WriteVarUint32 []) ls) @ r) = Inr (ins', r')"
  shows "r' = r \<and> i_Op ins' = i_Op ins \<and> Immediates ins' = Immediates ins @ map ImmU32 ls"
  using assms
proof (induction ls arbitrary: ins)
  case (Cons l ls)
  from Cons.prems obtain info where
    "disasm_targets (length ls) ((add_imm (ImmU32 l) ins)\<lparr>Branches := Branches ins @ [info]\<rparr>) st
      (concat (map (WriteVarUint32 []) ls) @ r) = Inr (ins', r')"
    by (auto elim!: bindE_InrE)
  from Cons.IH [OF this] show ?case by (simp add: add_imm_def)
qed simp

text \<open>The immediates of an instruction are read back from their assembly.\<close>

definition reads_back :: "Instr \<Rightarrow> Instr \<Rightarrow> byte list \<Rightarrow> byte list \<Rightarrow> bool" where
  "reads_back ins ins' r r' \<longleftrightarrow> r' = r \<and> view ins' = view ins"

lemma table_back:
  assumes "table_imms (Immediates ins)" "op_Code (i_Op ins) = BrTable"
    and "asm_immediates ins = Inr bs"
    and "disasm_brtable (new_instr (i_Op ins) u) st (bs @ r) = Inr (ins', st', r')"
  shows "reads_back ins ins' r r'"
proof -
  obtain ls d where vs: "Immediates ins = ImmU32 (of_nat (length ls)) # map ImmU32 (ls @ [d])"
    and len: "fits32 (Suc (length ls))" using assms(1) by (auto simp: table_imms_def)
  let ?n = "of_nat (length ls) :: u32"
  have "fits32 (length ls)" using len by (simp add: fits32_def)
  then have n: "unat ?n = length ls" by (rule unat_of_nat_fits)
  have n1: "unat (1 + ?n) = Suc (length ls)"
    using unat_of_nat_fits [OF len] by simp
  have "put_u32s ins 1 (length ls) = Inr (concat (map (WriteVarUint32 []) ls))"
    using put_u32s_map [of ins "[ImmU32 ?n]" ls "[ImmU32 d]"] vs by simp
  moreover have "put_u32 ins (Suc (length ls)) = Inr (WriteVarUint32 [] d)"
    using vs by (simp add: put_u32_def immediate_at_Cons nth_append)
  moreover have "immediate_at ins 0 as_u32 = Inr ?n" using vs by (simp add: immediate_at_Cons)
  ultimately have bs: "bs = WriteVarUint32 [] ?n @ concat (map (WriteVarUint32 []) ls) @ WriteVarUint32 [] d"
    using assms(2,3) n n1 by (simp add: asm_immediates_def)
  let ?i = "add_imm (ImmU32 ?n) (new_instr (i_Op ins) u)"
  from assms(4) obtain st1 i1 r1 i2 r2 where
    a: "disasm_targets (length ls) ?i st1 (concat (map (WriteVarUint32 []) ls) @ WriteVarUint32 [] d @ r) = Inr (i1, r1)"
    and b: "disasm_targets (Suc 0) i1 st1 r1 = Inr (i2, r2)" and c: "ins' = i2" "r' = r2"
    unfolding disasm_brtable_def bs by (auto simp: n elim!: bindE_InrE split: if_splits)
  from disasm_targets_back [OF a] have i1: "r1 = WriteVarUint32 [] d @ r" "i_Op i1 = i_Op ins"
    "Immediates i1 = ImmU32 ?n # map ImmU32 ls" by (simp_all add: add_imm_def new_instr_def)
  from disasm_targets_back [of "[d]" i1 st1 r] b i1(1)
  have "r2 = r" "i_Op i2 = i_Op i1" "Immediates i2 = Immediates i1 @ [ImmU32 d]" by simp_all
  then show ?thesis
    using c i1 vs assms(2) by (simp add: reads_back_def view_def is_block_op_def)
qed

lemma ReadVarint32_byte:
  "ReadVarint32 (WriteVarint64 [] (scast (w :: 8 word)) @ r) = Inr (scast w, r)"
proof -
  have "min 7 (min 31 n) = min 7 n" for n :: nat by simp
  then have "(scast w :: u64) = scast (scast w :: u32)"
    by (intro bit_word_eqI) (auto simp: bit_simps simp del: min.assoc)
  then show ?thesis by simp
qed

lemma ucast_scast_byte: "ucast (scast (w :: 8 word) :: u32) = w"
  by (rule bit_word_eqI) (auto simp: bit_simps)

lemma ucast_ucast_byte: "ucast (ucast (w :: 8 word) :: u32) = w"
  by (rule bit_word_eqI) (auto simp: bit_simps)

lemma block_back:
  assumes "is_block_op (op_Code (i_Op ins))" "i_Block ins = Some b"
    and "Immediates ins = [ImmBlockType (Signature b)]" "asm_immediates ins = Inr bs"
    and "disasm_block (new_instr (i_Op ins) u) st (bs @ r) = Inr (ins', st', r')"
  shows "reads_back ins ins' r r'"
proof -
  have bs: "bs = WriteVarint64 [] (scast (Signature b))"
    using assms(1,2,4) by (auto simp: asm_immediates_def is_block_op_def)
  show ?thesis
    using assms(5) assms(1-3) unfolding bs disasm_block_def ReadVarint32_byte
    by (auto simp: Let_def ucast_scast_byte add_imm_def new_instr_def reads_back_def view_def
        elim!: bindE_InrE)
qed

lemma one_u32_put:
  "Immediates ins = [ImmU32 a] \<Longrightarrow> put_u32 ins 0 = Inr (WriteVarUint32 [] a)"
  by (simp add: put_u32_def immediate_at_Cons)

lemma two_u32_put:
  "Immediates ins = [ImmU32 a, ImmU32 b] \<Longrightarrow>
   put_u32s ins 0 2 = Inr (WriteVarUint32 [] a @ WriteVarUint32 [] b)"
  by (simp add: put_u32_def immediate_at_Cons numeral_2_eq_2)

lemma branch_back:
  assumes "op_Code (i_Op ins) = Br \<or> op_Code (i_Op ins) = BrIf" "Immediates ins = [ImmU32 a]"
    and "disasm_br (new_instr (i_Op ins) u) st (WriteVarUint32 [] a @ r) = Inr (ins', st', r')"
  shows "reads_back ins ins' r r'"
  using assms
  by (auto simp: disasm_br_def Let_def add_imm_def new_instr_def reads_back_def view_def is_block_op_def
      elim!: bindE_InrE split: if_splits)

lemma call_back:
  assumes "disasm_call m (new_instr (i_Op ins) u) st (bs @ r) = Inr (ins', st', r')"
    and "if op_Code (i_Op ins) = CallIndirect
         then Immediates ins = [ImmU32 a, ImmU32 b] \<and> bs = WriteVarUint32 [] a @ WriteVarUint32 [] b
         else op_Code (i_Op ins) = Call \<and> Immediates ins = [ImmU32 a] \<and> bs = WriteVarUint32 [] a"
  shows "reads_back ins ins' r r'"
  using assms
  by (auto simp: disasm_call_def Let_def add_imm_def new_instr_def reads_back_def view_def is_block_op_def
      elim!: bindE_InrE split: if_splits)

lemma var_back:
  assumes "op_Code (i_Op ins) \<in> {GetLocal, SetLocal, TeeLocal, Operators.GetGlobal, SetGlobal}"
    and "Immediates ins = [ImmU32 a]"
    and "disasm_var (new_instr (i_Op ins) u) st (WriteVarUint32 [] a @ r) = Inr (ins', st', r')"
  shows "reads_back ins ins' r r'"
  using assms
  by (auto simp: disasm_var_def Let_def add_imm_def new_instr_def reads_back_def view_def is_block_op_def
      elim!: bindE_InrE split: if_splits)

lemma memory_back:
  assumes "Immediates ins = [ImmU32 a, ImmU32 b]" "\<not> is_block_op (op_Code (i_Op ins))"
    and "disasm_memory (new_instr (i_Op ins) u) st ((WriteVarUint32 [] a @ WriteVarUint32 [] b) @ r) = Inr (ins', st', r')"
  shows "reads_back ins ins' r r'"
  using assms
  by (auto simp: disasm_memory_def add_imm_def new_instr_def reads_back_def view_def)

lemma const_back:
  assumes "asm_immediates ins = Inr bs" "imms_ok ins"
    and "op_Code (i_Op ins) \<in> {I32Const, I64Const, F32Const, F64Const}"
    and "disasm_const (new_instr (i_Op ins) u) st (bs @ r) = Inr (ins', st', r')"
  shows "reads_back ins ins' r r'"
proof -
  have rf: "ReadFull 4 (le_put 4 (v :: u32) @ r) = Inr (le_put 4 v, r)"
    "ReadFull 8 (le_put 8 (w :: u64) @ r) = Inr (le_put 8 w, r)" for v w
    by (simp_all add: ReadFull_def)
  note unf = asm_immediates_def imms_ok_def is_block_op_def memory_ops_def immediate_at_Cons Let_def
  note fin = disasm_const_def add_imm_def new_instr_def reads_back_def view_def is_block_op_def rf
  consider "op_Code (i_Op ins) = I32Const" | "op_Code (i_Op ins) = I64Const"
    | "op_Code (i_Op ins) = F32Const" | "op_Code (i_Op ins) = F64Const"
    using assms(3) by auto
  then show ?thesis
  proof cases
    case 1
    with assms(2) obtain v where v: "Immediates ins = [ImmI32 v]" by (auto simp: unf)
    with 1 assms(1) have "bs = WriteVarint64 [] (scast v)" by (simp add: unf)
    with assms(4) 1 v show ?thesis by (auto simp: fin)
  next
    case 2
    with assms(2) obtain v where v: "Immediates ins = [ImmI64 v]" by (auto simp: unf)
    with 2 assms(1) have "bs = WriteVarint64 [] v" by (simp add: unf)
    with assms(4) 2 v show ?thesis by (auto simp: fin)
  next
    case 3
    with assms(2) obtain v where v: "Immediates ins = [ImmF32 v]" by (auto simp: unf)
    with 3 assms(1) have "bs = le_put 4 v" by (simp add: unf)
    with assms(4) 3 v show ?thesis by (auto simp: fin)
  next
    case 4
    with assms(2) obtain v where v: "Immediates ins = [ImmF64 v]" by (auto simp: unf)
    with 4 assms(1) have "bs = le_put 8 v" by (simp add: unf)
    with assms(4) 4 v show ?thesis by (auto simp: fin)
  qed
qed

lemma memsize_back:
  assumes "op_Code (i_Op ins) = CurrentMemory \<or> op_Code (i_Op ins) = GrowMemory"
    and "Immediates ins = [ImmU8 v]"
    and "disasm_memsize (new_instr (i_Op ins) u) st (WriteVarUint32 [] (ucast v) @ r) = Inr (ins', st', r')"
  shows "reads_back ins ins' r r'"
  using assms
  by (auto simp: disasm_memsize_def ucast_ucast_byte add_imm_def new_instr_def reads_back_def view_def
      is_block_op_def)

lemma memory_ops_facts:
  "op \<in> set memory_ops \<Longrightarrow> \<not> is_block_op op \<and>
    op \<notin> {Unreachable, Drop, Select, Return, End, Else, Br, BrIf, BrTable, Call, CallIndirect, GetLocal,
      SetLocal, TeeLocal, Operators.GetGlobal, SetGlobal, I32Const, I64Const, F32Const, F64Const}"
  by (auto simp: memory_ops_def is_block_op_def)

text \<open>Operators without immediates.\<close>

lemma plain_back:
  assumes "Immediates ins = []" "\<not> is_block_op (op_Code (i_Op ins))" "i_Op ins' = i_Op ins"
    "Immediates ins' = []" "r' = r"
  shows "reads_back ins ins' r r'"
  using assms by (simp add: reads_back_def view_def)

lemma end_back:
  assumes "op_Code (i_Op ins) = End \<or> op_Code (i_Op ins) = Else" "Immediates ins = []"
    and "disasm_end (new_instr (i_Op ins) u) st r = Inr (ins', st', r')"
  shows "reads_back ins ins' r r'"
  using assms(3) unfolding disasm_end_def Let_def
  by (intro plain_back)
    (use assms(1,2) in \<open>auto simp: is_block_op_def new_instr_def elim!: bindE_InrE\<close>)

lemma disasm_op_back:
  assumes "imms_ok ins" "asm_immediates ins = Inr bs"
    and "disasm_op fn m (new_instr (i_Op ins) u) st (bs @ r) = Inr (ins', st', r')"
  shows "reads_back ins ins' r r'"
proof -
  let ?op = "op_Code (i_Op ins)"
  have op: "op_Code (i_Op (new_instr (i_Op ins) u)) = ?op" by (simp add: new_instr_def)
  note unf = asm_immediates_def imms_ok_def Let_def
  note run = assms(3) [unfolded disasm_op_def op Let_def]
  consider (block) "is_block_op ?op" | (branch) "?op = Br \<or> ?op = BrIf" | (tbl) "?op = BrTable"
    | (cl) "?op = Call" | (ind) "?op = CallIndirect"
    | (var) "?op \<in> {GetLocal, SetLocal, TeeLocal, Operators.GetGlobal, SetGlobal}"
    | (cst) "?op \<in> {I32Const, I64Const, F32Const, F64Const}" | (mem) "?op \<in> set memory_ops"
    | (size) "?op = CurrentMemory \<or> ?op = GrowMemory" | (blockend) "?op = End \<or> ?op = Else"
    | (plain) "\<not> is_block_op ?op" "?op \<notin> {Br, BrIf, BrTable, Call, CallIndirect, GetLocal, SetLocal,
        TeeLocal, Operators.GetGlobal, SetGlobal, I32Const, I64Const, F32Const, F64Const,
        CurrentMemory, GrowMemory, End, Else}" "?op \<notin> set memory_ops"
    by blast
  then show ?thesis
  proof cases
    case block
    with assms(1) obtain b where b: "i_Block ins = Some b" "Immediates ins = [ImmBlockType (Signature b)]"
      by (auto simp: unf)
    from run block have "disasm_block (new_instr (i_Op ins) u) st (bs @ r) = Inr (ins', st', r')"
      by (auto simp: is_block_op_def)
    from block_back [OF block b assms(2) this] show ?thesis .
  next
    case branch
    with assms(1) obtain a where a: "Immediates ins = [ImmU32 a]"
      by (auto simp: unf one_u32_def is_block_op_def)
    with branch assms(2) one_u32_put [OF a] have "bs = WriteVarUint32 [] a" by (auto simp: unf)
    with run branch have "disasm_br (new_instr (i_Op ins) u) st (WriteVarUint32 [] a @ r) = Inr (ins', st', r')"
      by auto
    from branch_back [OF branch a this] show ?thesis .
  next
    case tbl
    with assms(1) have "table_imms (Immediates ins)" by (auto simp: unf is_block_op_def)
    moreover from run tbl have "disasm_brtable (new_instr (i_Op ins) u) st (bs @ r) = Inr (ins', st', r')"
      by simp
    ultimately show ?thesis using tbl assms(2) by (intro table_back)
  next
    case cl
    with assms(1) obtain a where a: "Immediates ins = [ImmU32 a]"
      by (auto simp: unf one_u32_def is_block_op_def)
    with cl assms(2) one_u32_put [OF a] have "bs = WriteVarUint32 [] a" by (simp add: unf)
    with run cl a show ?thesis by (intro call_back [where a = a]) simp_all
  next
    case ind
    with assms(1) obtain a b where a: "Immediates ins = [ImmU32 a, ImmU32 b]"
      by (auto simp: unf two_u32_def is_block_op_def)
    with ind assms(2) two_u32_put [OF a] have "bs = WriteVarUint32 [] a @ WriteVarUint32 [] b"
      by (simp add: unf)
    with run ind a show ?thesis by (intro call_back [where a = a and b = b]) simp_all
  next
    case var
    with assms(1) obtain a where a: "Immediates ins = [ImmU32 a]"
      by (auto simp: unf one_u32_def is_block_op_def)
    with var assms(2) one_u32_put [OF a] have "bs = WriteVarUint32 [] a" by (auto simp: unf)
    with run var have "disasm_var (new_instr (i_Op ins) u) st (WriteVarUint32 [] a @ r) = Inr (ins', st', r')"
      by auto
    from var_back [OF var a this] show ?thesis .
  next
    case cst
    with run have "disasm_const (new_instr (i_Op ins) u) st (bs @ r) = Inr (ins', st', r')" by auto
    from const_back [OF assms(2,1) cst this] show ?thesis .
  next
    case mem
    note f = memory_ops_facts [OF mem]
    from assms(1) mem f obtain a b where a: "Immediates ins = [ImmU32 a, ImmU32 b]"
      by (auto simp: unf two_u32_def)
    with mem f assms(2) two_u32_put [OF a] have "bs = WriteVarUint32 [] a @ WriteVarUint32 [] b"
      by (simp add: unf is_block_op_def)
    with run mem f have "disasm_memory (new_instr (i_Op ins) u) st
        ((WriteVarUint32 [] a @ WriteVarUint32 [] b) @ r) = Inr (ins', st', r')"
      by (simp add: is_block_op_def)
    from memory_back [OF a _ this] f show ?thesis by simp
  next
    case size
    then have no: "?op \<notin> set memory_ops" by (auto simp: memory_ops_def)
    from assms(1) size no obtain v where v: "Immediates ins = [ImmU8 v]"
      by (auto simp: unf is_block_op_def)
    with size no assms(2) have "bs = WriteVarUint32 [] (ucast v)"
      by (auto simp: unf immediate_at_Cons)
    with run size no have "disasm_memsize (new_instr (i_Op ins) u) st
        (WriteVarUint32 [] (ucast v) @ r) = Inr (ins', st', r')" by auto
    from memsize_back [OF size v this] show ?thesis .
  next
    case blockend
    then have no: "?op \<notin> set memory_ops" by (auto simp: memory_ops_def)
    with assms(1,2) blockend have "Immediates ins = []" "bs = []"
      by (auto simp: unf is_block_op_def)
    with run blockend show ?thesis by (intro end_back) auto
  next
    case plain
    then have "Immediates ins = []" "bs = []"
      using assms(1,2) by (auto simp: unf is_block_op_def)
    with run plain show ?thesis
      by (intro plain_back)
        (auto simp: is_block_op_def disasm_return_def new_instr_def elim!: bindE_InrE split: if_splits)
  qed
qed

lemma disasm_step_back:
  assumes "instr_ok ins" "asm_immediates ins = Inr bs"
    and "disasm_step fn m (op_Code (i_Op ins)) st (bs @ r) = Inr (st', r')"
  shows "r' = r \<and> code_view st' = code_view st @ [view ins]"
proof -
  have new: "New (op_Code (i_Op ins)) = Inr (i_Op ins)" using assms(1) by (simp add: instr_ok_def)
  from assms(3) obtain u st1 st2 ins' where
    a: "(if \<not> op_Polymorphic (i_Op ins) \<and> \<not> u then fixedEffect (i_Op ins) st else Inr st) = Inr st1"
    and b: "disasm_op fn m (new_instr (i_Op ins) u) st1 (bs @ r) = Inr (ins', st2, r')"
    and c: "st' = st2\<lparr>lastOpReturn := (if op_Code (i_Op ins) \<noteq> Return then False else lastOpReturn st2),
              disas := (disas st2)\<lparr>d_Code := d_Code (disas st2) @ [ins']\<rparr>, curIndex := curIndex st2 + 1\<rparr>"
    unfolding disasm_step_def new by (auto elim!: bindE_InrE)
  have "reads_back ins ins' r r'"
    by (rule disasm_op_back [OF _ assms(2) b]) (use assms(1) in \<open>simp add: instr_ok_def\<close>)
  moreover have "code_view st1 = code_view st" using a by (auto dest: fixedEffect_view split: if_splits)
  moreover note disasm_op_view [OF b]
  ultimately show ?thesis by (simp add: reads_back_def c code_view_def)
qed

lemma Disassemble_loop_back:
  assumes "list_all instr_ok inss" "Assemble inss = Inr bs" "Disassemble_loop fn m st bs = Inr d"
  shows "map view (d_Code d) = code_view st @ map view inss"
  using assms
proof (induction inss arbitrary: st bs)
  case Nil
  then show ?case by (simp add: code_view_def)
next
  case (Cons ins inss)
  from Cons.prems(2) obtain b1 b2 where a: "asm_immediates ins = Inr b1" "Assemble inss = Inr b2"
    and bs: "bs = op_Code (i_Op ins) # b1 @ b2" by (auto elim!: bindE_InrE)
  from Cons.prems(3) [unfolded bs] obtain st1 r1 where
    s: "disasm_step fn m (op_Code (i_Op ins)) st (b1 @ b2) = Inr (st1, r1)"
    and l: "Disassemble_loop fn m st1 r1 = Inr d" by (auto elim!: bindE_InrE)
  from disasm_step_back [OF _ a(1) s] Cons.prems(1)
  have "r1 = b2" "code_view st1 = code_view st @ [view ins]" by simp_all
  then show ?case using Cons.IH [OF _ a(2), of st1] l Cons.prems(1) by simp
qed

text \<open>C11 Disassembling what the assembler wrote gives the instructions back: the same operators with
  the same immediates, and the same block signatures, in the same order, whatever the disassembler
  adds about stacks and blocks; and assembling its result gives the same bytes.  The instructions are
  those with the immediates their operators take.\<close>

theorem Disassemble_Assemble:
  assumes "list_all instr_ok inss" "Assemble inss = Inr (Code body)" "Body fn = Some body"
    and "Disassemble fn m = Inr d"
  shows "map view (d_Code d) = map view inss \<and> Assemble (d_Code d) = Inr (Code body)"
proof -
  have "Disassemble_loop fn m dstate_init (Code body) = Inr d"
    using assms(3,4) by (simp add: Disassemble_def)
  from Disassemble_loop_back [OF assms(1,2) this] have "map view (d_Code d) = map view inss"
    by (simp add: code_view_def dstate_init_def)
  then show ?thesis using Assemble_view assms(2) by metis
qed

definition op_at :: "byte \<Rightarrow> Op" where
  "op_at c = (case New c of Inr op \<Rightarrow> op | Inl _ \<Rightarrow> \<lparr>op_Code = c, op_Name = [], op_Polymorphic = False, op_Args = [], op_Returns = 0\<rparr>)"

definition plain_instr :: "byte \<Rightarrow> immediate list \<Rightarrow> Instr" where
  "plain_instr c vs = (new_instr (op_at c) False)\<lparr>Immediates := vs\<rparr>"

definition block_instr :: "byte \<Rightarrow> BlockType \<Rightarrow> Instr" where
  "block_instr c sig = (plain_instr c [ImmBlockType sig])\<lparr>i_Block := Some (BlockInfo_zero\<lparr>bi_Start := True, Signature := sig\<rparr>)\<rparr>"

text \<open>A block that stores a constant in a local and leaves by a branch.\<close>

definition sample_instrs :: "Instr list" where
  "sample_instrs = [block_instr Block BlockTypeEmpty, plain_instr I32Const [ImmI32 300],
     plain_instr SetLocal [ImmU32 0], plain_instr Br [ImmU32 0], plain_instr End []]"

definition sample_body :: "FunctionBody" where
  "sample_body = \<lparr>Locals = [], Code = (case Assemble sample_instrs of Inr bs \<Rightarrow> bs | Inl _ \<Rightarrow> [])\<rparr>"

definition sample_fn :: Function where
  "sample_fn = \<lparr>Sig = None, Body = Some sample_body, Host = None\<rparr>"

lemma sample_assembles: "Assemble sample_instrs = Inr (Code sample_body)"
proof -
  have "case Assemble sample_instrs of Inl _ \<Rightarrow> False | Inr _ \<Rightarrow> True" by code_simp
  then show ?thesis by (simp add: sample_body_def split: sum.splits)
qed

lemma sample_ok: "list_all instr_ok sample_instrs"
proof -
  have ops: "New Block = Inr (op_at Block)" "New I32Const = Inr (op_at I32Const)"
    "New SetLocal = Inr (op_at SetLocal)" "New Br = Inr (op_at Br)" "New End = Inr (op_at End)"
    by code_simp+
  have codes: "op_Code (op_at Block) = Block" "op_Code (op_at I32Const) = I32Const"
    "op_Code (op_at SetLocal) = SetLocal" "op_Code (op_at Br) = Br" "op_Code (op_at End) = End"
    by code_simp+
  show ?thesis
    by (simp add: sample_instrs_def plain_instr_def block_instr_def new_instr_def instr_ok_def
        imms_ok_def Let_def ops codes is_block_op_def one_u32_def memory_ops_def)
qed

theorem Disassemble_Assemble_witness:
  "case Disassemble sample_fn Module_zero of
     Inr d \<Rightarrow> map Immediates (d_Code d) = [[ImmBlockType BlockTypeEmpty], [ImmI32 300], [ImmU32 0], [ImmU32 0], []]
   | Inl _ \<Rightarrow> False"
proof -
  have "case Disassemble sample_fn Module_zero of Inl _ \<Rightarrow> False | Inr _ \<Rightarrow> True" by code_simp
  then obtain d where d: "Disassemble sample_fn Module_zero = Inr d" by (auto split: sum.splits)
  have "map view (d_Code d) = map view sample_instrs"
    using Disassemble_Assemble [OF sample_ok sample_assembles _ d] by (simp add: sample_fn_def)
  then have "map (fst \<circ> snd) (map view (d_Code d)) = map (fst \<circ> snd) (map view sample_instrs)" by simp
  then have "map Immediates (d_Code d) = map Immediates sample_instrs" by (simp add: view_def comp_def)
  then show ?thesis
    by (simp add: d sample_instrs_def plain_instr_def block_instr_def new_instr_def)
qed

end
