(* ===== verification/CompileProps.thy ===== *)
theory CompileProps
  imports Compile DisasmProps
begin

text \<open>
  What the compiler makes of control structures: the layout of the code for
  \<^verbatim>\<open>if\<close>, \<^verbatim>\<open>else\<close> and loops, and that patching an address touches nothing else.
\<close>

section \<open>Patching\<close>

lemma length_int64_bytes [simp]: "length (int64_bytes n) = 8"
  by (simp add: int64_bytes_def)

lemma nth_le_put:
  "i < n \<Longrightarrow> n \<le> 8 \<Longrightarrow> le_put n (w :: u64) ! i = ucast (signed_drop_bit (8 * i) w)"
proof -
  have "le_put n (w :: u64) ! i = ucast (drop_bit (8 * i) w)" if "i < n" for n i w
    using that
  proof (induction n arbitrary: w i)
    case (Suc n)
    then show ?case by (cases i) (simp_all add: drop_bit_drop_bit ac_simps)
  qed simp
  moreover have "(ucast (drop_bit (8 * i) w) :: byte) = ucast (signed_drop_bit (8 * i) w)" if "i < 8"
    using that by (intro bit_word_eqI) (auto simp: bit_simps)
  ultimately show "i < n \<Longrightarrow> n \<le> 8 \<Longrightarrow> le_put n (w :: u64) ! i = ucast (signed_drop_bit (8 * i) w)" by simp
qed

lemma patch_loop_eq:
  assumes "n \<le> 8" "start + 8 \<le> length code"
  shows "patch_loop n (int start) addr code =
    Inr (take (start + (8 - n)) code @ drop (8 - n) (le_put 8 addr) @ drop (start + 8) code)"
  using assms
proof (induction n arbitrary: code)
  case 0
  then show ?case by simp
next
  case (Suc n)
  let ?i = "start + (7 - n)" and ?b = "ucast (signed_drop_bit (8 * (7 - n)) addr) :: byte"
  have s: "8 - n = Suc (7 - n)" using Suc.prems(1) by simp
  have i: "nat (int start + (7 - int n)) = start + 7 - n" using Suc.prems(1) by simp
  have d: "drop (7 - n) (le_put 8 addr) = ?b # drop (8 - n) (le_put 8 addr)"
    using Suc.prems(1) nth_le_put [of "7 - n" 8 addr]
      Cons_nth_drop_Suc [of "7 - n" "le_put 8 addr", symmetric]
    unfolding s by simp
  have "patch_loop (Suc n) (int start) addr code = patch_loop n (int start) addr (code[?i := ?b])"
    using Suc.prems by (simp add: i)
  also have "\<dots> = Inr (take (start + (8 - n)) (code[?i := ?b]) @ drop (8 - n) (le_put 8 addr) @
      drop (start + 8) (code[?i := ?b]))"
    using Suc.prems by (intro Suc.IH) simp_all
  also have "drop (start + 8) (code[?i := ?b]) = drop (start + 8) code"
    using Suc.prems(1) by (simp add: drop_update_cancel)
  also have "take (start + (8 - n)) (code[?i := ?b]) = take ?i code @ [?b]"
    unfolding s using Suc.prems by (simp add: take_Suc_conv_app_nth)
  finally show ?case using d by simp
qed

lemma patchOffset_eq:
  assumes "0 \<le> start" "nat start + 8 \<le> length code"
  shows "patchOffset code start addr =
    Inr (take (nat start) code @ int64_bytes addr @ drop (nat start + 8) code)"
  using patch_loop_eq [of 8 "nat start" code "word_of_int addr"] assms
  by (simp add: patchOffset_def int64_bytes_def)

lemma patchOffset_hole:
  "patchOffset (xs @ int64_bytes a @ ys) (int (length xs)) b = Inr (xs @ int64_bytes b @ ys)"
  by (subst patchOffset_eq) simp_all

lemma patch_loop_out_of_range:
  assumes "n \<le> 8" "start + int (8 - n) < 0 \<or> start + 8 > int (length code)" "0 < n"
  shows "patch_loop n start addr code = Inl IndexOutOfRange"
  using assms
proof (induction n arbitrary: code)
  case (Suc n)
  show ?case
  proof (cases "start + int (7 - n) < 0 \<or> start + int (7 - n) \<ge> int (length code)")
    case False
    then have "start + 8 > int (length code)" "0 < n"
      using Suc.prems by (auto simp: of_nat_diff not_less)
    then show ?thesis using Suc.IH Suc.prems(1) False by simp
  qed simp
qed simp

text \<open>C13 Patching an address writes its eight bytes, least significant first, at the given offset and
  leaves every other byte as it was; the machine reads the patched address back there, at any value
  of 64 bits; an offset where eight bytes do not fit panics.\<close>

theorem patchOffset_spec:
  "patchOffset code start addr =
    (if 0 \<le> start \<and> start + 8 \<le> int (length code)
     then Inr (take (nat start) code @ int64_bytes addr @ drop (nat start + 8) code)
     else Inl IndexOutOfRange) \<and>
   sint (le_get (int64_bytes (sint w)) :: u64) = sint (w :: u64)"
proof -
  have "patchOffset code start addr = Inl IndexOutOfRange"
    if "\<not> (0 \<le> start \<and> start + 8 \<le> int (length code))"
    using that patch_loop_out_of_range [of 8 start code "word_of_int addr"] by (auto simp: patchOffset_def)
  moreover have "sint (le_get (int64_bytes (sint w)) :: u64) = sint w" by (simp add: int64_bytes_def)
  ultimately show ?thesis using patchOffset_eq [of start code addr] by auto
qed

section \<open>Straight-line code\<close>

definition control_ops :: "byte list" where
  "control_ops = [Operators.If, Loop, Block, Else, End, Br, BrIf, BrTable]"

text \<open>A reachable instruction that neither opens nor closes a block nor branches.\<close>

definition straight :: "Instr \<Rightarrow> bool" where
  "straight ins \<longleftrightarrow> \<not> i_Unreachable ins \<and> op_Code (i_Op ins) \<notin> set control_ops \<and>
     (op_Code (i_Op ins) \<in> set memory_ops \<longrightarrow> (\<exists>a b. Immediates ins = [ImmU32 a, ImmU32 b]))"

definition ins_bytes :: "Instr \<Rightarrow> byte list" where
  "ins_bytes ins = op_Code (i_Op ins) #
     (if op_Code (i_Op ins) \<in> set memory_ops then imm_bytes (Immediates ins ! 1)
      else concat (map imm_bytes (Immediates ins)))"

definition code_bytes :: "Instr list \<Rightarrow> byte list" where
  "code_bytes inss = concat (map ins_bytes inss)"

lemma emit_simps [simp]:
  "cs_buffer (emit bs st) = cs_buffer st @ bs" "cs_tables (emit bs st) = cs_tables st"
  "curBlockDepth (emit bs st) = curBlockDepth st" "cs_blocks (emit bs st) = cs_blocks st"
  "emit [] st = st" "emit cs (emit bs st) = emit (bs @ cs) st"
  by (simp_all add: emit_def)

lemma compile_straight:
  assumes "straight ins"
  shows "compile_instr code ins st = Inr (emit (ins_bytes ins) st)"
proof (cases "op_Code (i_Op ins) \<in> set memory_ops")
  case True
  then show ?thesis
    using assms by (auto simp: straight_def compile_instr_def ins_bytes_def emit_instr_def imm_u32_def
        immediate_at_Cons)
next
  case False
  then show ?thesis
    using assms by (simp add: straight_def compile_instr_def ins_bytes_def emit_instr_def control_ops_def)
qed

lemma compile_all_append:
  "compile_all code (xs @ ys) st = bindE (compile_all code xs st) (\<lambda>st. compile_all code ys st)"
proof (induction xs arbitrary: st)
  case (Cons x xs)
  then show ?case by (cases "compile_instr code x st") simp_all
qed simp

lemma compile_straights:
  "list_all straight inss \<Longrightarrow> compile_all code inss st = Inr (emit (code_bytes inss) st)"
proof (induction inss arbitrary: st)
  case Nil
  then show ?case by (simp add: code_bytes_def)
next
  case (Cons ins inss)
  then show ?case using compile_straight [of ins code st] by (simp add: code_bytes_def)
qed

text \<open>Code without blocks and branches is compiled to the opcodes and immediates in order, loads and
  stores losing their alignment, followed by the \<^verbatim>\<open>nop\<close> that a return jumps to.\<close>

theorem Compile_straight:
  assumes "list_all straight code"
  shows "Compile code = Inr (code_bytes code @ [Nop], [])"
  using compile_straights [OF assms, of code cstate_init]
  by (simp add: Compile_def cstate_init_def blockOf_def cblock_zero_def)

section \<open>Control structures\<close>

text \<open>What remains of a stack when a block ends.\<close>

definition discard_bytes :: "StackInfo option \<Rightarrow> byte list" where
  "discard_bytes so =
     (case so of None \<Rightarrow> []
      | Some s \<Rightarrow> if StackTopDiff s = 0 then []
                 else (if si_PreserveTop s then OpDiscardPreserveTop else OpDiscard) #
                      int64_bytes (StackTopDiff s))"

lemma emit_discard_opt_bytes: "emit_discard_opt so st = emit (discard_bytes so) st"
  by (simp add: emit_discard_opt_def emit_discard_def discard_bytes_def split: option.split)

lemma emit_discard_bytes: "emit_discard s st = emit (discard_bytes (Some s)) st"
  by (simp add: emit_discard_def discard_bytes_def)

definition control :: "byte \<Rightarrow> Instr \<Rightarrow> bool" where
  "control op ins \<longleftrightarrow> op_Code (i_Op ins) = op \<and> \<not> i_Unreachable ins"

lemma compile_control:
  "control Operators.If ins \<Longrightarrow> compile_instr code ins st = compile_if st"
  "control Loop ins \<Longrightarrow> compile_instr code ins st = compile_loop ins st"
  "control Block ins \<Longrightarrow> compile_instr code ins st = compile_block ins st"
  "control Else ins \<Longrightarrow> compile_instr code ins st = compile_else code ins st"
  "control End ins \<Longrightarrow> compile_instr code ins st = compile_end ins st"
  "control Br ins \<Longrightarrow> compile_instr code ins st = compile_br ins st"
  "control BrIf ins \<Longrightarrow> compile_instr code ins st = compile_brif ins st"
  by (simp_all add: control_def compile_instr_def memory_ops_def)

text \<open>Blocks are numbered without gaps, so that the next depth is free.\<close>

definition next_free :: "cstate \<Rightarrow> bool" where
  "next_free st \<longleftrightarrow> map_of (cs_blocks st) (curBlockDepth st + 1) = None"

lemma delete_update_fresh:
  "map_of al k = None \<Longrightarrow> AList.delete k (AList.update k v al) = al"
  by (induction al) (auto simp: AList.delete_eq split: if_splits)

lemma update_update: "AList.update k w (AList.update k v al) = AList.update k w al"
  by (induction al) auto

lemma map_of_update_same [simp]: "map_of (AList.update k v al) k = Some v"
  by (simp add: update_conv)

text \<open>A state in which only the code, the depth and the blocks differ.\<close>

definition at :: "cstate \<Rightarrow> byte list \<Rightarrow> int \<Rightarrow> (int \<times> cblock) list \<Rightarrow> cstate" where
  "at st buf d bl = st\<lparr>cs_buffer := buf, curBlockDepth := d, cs_blocks := bl\<rparr>"

lemma at_simps [simp]:
  "cs_buffer (at st buf d bl) = buf" "curBlockDepth (at st buf d bl) = d"
  "cs_blocks (at st buf d bl) = bl" "cs_tables (at st buf d bl) = cs_tables st"
  "bufferLen (at st buf d bl) = int (length buf)"
  "emit bs (at st buf d bl) = at st (buf @ bs) d bl"
  "setBlock k b (at st buf d bl) = at st buf d (AList.update k b bl)"
  "(at st buf d bl)\<lparr>cs_buffer := buf'\<rparr> = at st buf' d bl"
  "(at st buf d bl)\<lparr>curBlockDepth := d'\<rparr> = at st buf d' bl"
  "(at st buf d bl)\<lparr>cs_blocks := bl', curBlockDepth := d'\<rparr> = at st buf d' bl'"
  by (simp_all add: at_def emit_def setBlock_def bufferLen_def)

lemma at_self: "at st (cs_buffer st) (curBlockDepth st) (cs_blocks st) = st"
  by (simp add: at_def)

lemma emit_at: "emit bs st = at st (cs_buffer st @ bs) (curBlockDepth st) (cs_blocks st)"
  by (simp add: at_def emit_def)

definition if_else_bytes :: "nat \<Rightarrow> byte list \<Rightarrow> byte list \<Rightarrow> byte list" where
  "if_else_bytes pos bx by =
     (let a = pos + 9 + length bx + 9; b = a + length by
      in OpJmpZ # int64_bytes (int a) @ bx @ OpJmp # int64_bytes (int b) @ by)"

lemma compile_if_at:
  "compile_if (at st buf d bl) = Inr (at st (buf @ OpJmpZ # int64_bytes 0) (d + 1)
     (AList.update (d + 1) (cblock_zero\<lparr>cb_ifBlock := True, cb_elseAddrOffset := int (length buf + 1)\<rparr>) bl))"
  by (simp add: compile_if_def)

lemma blockOf_at: "blockOf k (at st buf d (AList.update k b bl)) = Inr b"
  by (simp add: blockOf_def)

lemma patch_at:
  "buf = xs @ int64_bytes a @ ys \<Longrightarrow>
   patch (int (length xs)) b (at st buf d bl) = Inr (at st (xs @ int64_bytes b @ ys) d bl)"
  by (simp add: patch_def patchOffset_hole)

lemma compile_else_at:
  assumes "i_Block e = Some info" "idx code (ElseIfIndex info) = Inr i"
    and "cb_elseAddrOffset b = int (length xs)" "cb_patchOffsets b = []"
  shows "compile_else code e (at st (xs @ int64_bytes a @ ys) d (AList.update d b bl)) =
    (let bd = ys @ discard_bytes (NewStack i); a' = length xs + 8 + length bd + 9
     in Inr (at st (xs @ int64_bytes (int a') @ bd @ OpJmp # int64_bytes 0) d
          (AList.update d (b\<lparr>cb_ifBlock := False,
             cb_patchOffsets := [int (length xs + 8 + length bd + 1)]\<rparr>) bl)))"
proof -
  let ?bd = "ys @ discard_bytes (NewStack i)"
  let ?buf = "xs @ int64_bytes a @ ?bd @ OpJmp # int64_bytes 0"
  have "patch (int (length xs)) (int (length ?buf)) (at st ?buf d (AList.update d b bl)) =
      Inr (at st (xs @ int64_bytes (int (length ?buf)) @ ?bd @ OpJmp # int64_bytes 0) d (AList.update d b bl))"
    by (rule patch_at [OF refl])
  then show ?thesis
    by (simp add: compile_else_def assms emit_discard_opt_bytes blockOf_at update_update Let_def add_ac)
qed

lemma compile_end_at:
  assumes "NewStack n = Some s" "\<not> cb_loopBlock b" "\<not> cb_ifBlock b" "cb_branchTables b = []"
    and "cb_patchOffsets b = [int (length xs)]" "map_of bl d = None"
  shows "compile_end n (at st (xs @ int64_bytes a @ ys) d (AList.update d b bl)) =
    (let yd = ys @ discard_bytes (Some s)
     in Inr (at st (xs @ int64_bytes (int (length xs + 8 + length yd)) @ yd) (d - 1) bl))"
proof -
  let ?buf = "xs @ int64_bytes a @ ys @ discard_bytes (Some s)"
  have "patch (int (length xs)) (int (length ?buf)) (at st ?buf d (AList.update d b bl)) =
      Inr (at st (xs @ int64_bytes (int (length ?buf)) @ ys @ discard_bytes (Some s)) d (AList.update d b bl))"
    by (rule patch_at [OF refl])
  then show ?thesis
    using assms
    by (simp add: compile_end_def newStackOf_def emit_discard_bytes blockOf_at end_offset_def
        delete_update_fresh Let_def add_ac)
qed

text \<open>An \<^verbatim>\<open>if\<close> with straight-line branches compiles to a jump that is taken when the condition is
  zero, the first branch with its discard, a jump over the second branch, and the second branch with
  its discard: the first jump goes to the start of the second branch, the second jump right behind it.
  The blocks and tables of the compiler are as before.\<close>

theorem compile_if_else:
  assumes "control Operators.If i" "control Else e" "control End n" "list_all straight xs" "list_all straight ys"
    and "i_Block e = Some info" "idx code (ElseIfIndex info) = Inr i" "NewStack n = Some s" "next_free st"
  shows "compile_all code ([i] @ xs @ [e] @ ys @ [n]) st =
    Inr (emit (if_else_bytes (length (cs_buffer st))
                 (code_bytes xs @ discard_bytes (NewStack i)) (code_bytes ys @ discard_bytes (Some s))) st)"
proof -
  let ?buf = "cs_buffer st" and ?d = "curBlockDepth st + 1" and ?bl = "cs_blocks st"
  let ?b0 = "cblock_zero\<lparr>cb_ifBlock := True, cb_elseAddrOffset := int (length ?buf + 1)\<rparr>"
  let ?xs = "?buf @ [OpJmpZ]" and ?bx = "code_bytes xs @ discard_bytes (NewStack i)"
  let ?a = "length ?xs + 8 + length ?bx + 9"
  let ?zs = "?xs @ int64_bytes (int ?a) @ ?bx @ [OpJmp]"
  let ?b1 = "?b0\<lparr>cb_ifBlock := False, cb_patchOffsets := [int (length ?zs)]\<rparr>"
  have "compile_all code ([i] @ xs) (at st ?buf (curBlockDepth st) ?bl) =
      Inr (at st (?xs @ int64_bytes 0 @ code_bytes xs) ?d (AList.update ?d ?b0 ?bl))"
    using assms(1) by (simp add: compile_control compile_if_at compile_straights [OF assms(4)])
  moreover have "compile_else code e (at st (?xs @ int64_bytes 0 @ code_bytes xs) ?d (AList.update ?d ?b0 ?bl)) =
      Inr (at st (?zs @ int64_bytes 0) ?d (AList.update ?d ?b1 ?bl))"
    using compile_else_at [OF assms(6,7), of ?b0 ?xs st 0 "code_bytes xs" ?d ?bl]
    by (simp add: Let_def cblock_zero_def add_ac)
  moreover have "compile_end n (at st (?zs @ int64_bytes 0 @ code_bytes ys) ?d (AList.update ?d ?b1 ?bl)) =
      Inr (at st (?zs @ int64_bytes (int (length ?zs + 8 + length (code_bytes ys @ discard_bytes (Some s)))) @
        code_bytes ys @ discard_bytes (Some s)) (curBlockDepth st) ?bl)"
    using compile_end_at [OF assms(8), of ?b1 ?zs ?bl ?d st 0 "code_bytes ys"] assms(9)
    by (simp add: Let_def cblock_zero_def next_free_def add_ac)
  ultimately have "compile_all code (([i] @ xs) @ [e] @ ys @ [n]) (at st ?buf (curBlockDepth st) ?bl) =
      Inr (at st (?zs @ int64_bytes (int (length ?zs + 8 + length (code_bytes ys @ discard_bytes (Some s)))) @
        code_bytes ys @ discard_bytes (Some s)) (curBlockDepth st) ?bl)"
    unfolding compile_all_append [of code "[i] @ xs"]
    using assms(2,3) by (simp add: compile_control compile_all_append compile_straights [OF assms(5)])
  then show ?thesis
    by (simp add: at_self emit_at if_else_bytes_def Let_def add_ac)
qed

section \<open>Loops\<close>

text \<open>The flag and the count of a conditional branch.\<close>

definition branch_bytes :: "StackInfo option \<Rightarrow> byte list" where
  "branch_bytes so =
     (case so of None \<Rightarrow> 0 # int64_bytes 0
      | Some s \<Rightarrow> if si_PreserveTop s \<and> StackTopDiff s \<noteq> 0 then 1 # int64_bytes (StackTopDiff s)
                 else 0 # int64_bytes 0)"

lemma compile_brif_at:
  assumes "Immediates br = [ImmU32 0]"
  shows "compile_brif br (at st buf d (AList.update d b bl)) =
    Inr (at st (buf @ OpJmpNz # int64_bytes 0 @ branch_bytes (NewStack br)) d
      (AList.update d (b\<lparr>cb_patchOffsets := cb_patchOffsets b @ [int (length buf) + 1]\<rparr>) bl))"
  by (simp add: compile_brif_def imm_u32_def immediate_at_Cons assms addPatch_def blockOf_at
      update_update branch_bytes_def Let_def add_ac split: option.split)

lemma compile_end_loop_at:
  assumes "NewStack n = Some s" "cb_loopBlock b" "cb_branchTables b = []"
    and "cb_patchOffsets b = [int (length xs)]" "map_of bl d = None"
  shows "compile_end n (at st (xs @ int64_bytes a @ ys) d (AList.update d b bl)) =
    Inr (at st (xs @ int64_bytes (cb_offset b) @ ys @ discard_bytes (Some s)) (d - 1) bl)"
proof -
  have "patch (int (length xs)) (cb_offset b)
      (at st (xs @ int64_bytes a @ ys @ discard_bytes (Some s)) d (AList.update d b bl)) =
    Inr (at st (xs @ int64_bytes (cb_offset b) @ ys @ discard_bytes (Some s)) d (AList.update d b bl))"
    by (rule patch_at [OF refl])
  then show ?thesis
    using assms
    by (simp add: compile_end_def newStackOf_def emit_discard_bytes blockOf_at end_offset_def
        delete_update_fresh Let_def)
qed

text \<open>A loop of straight-line code with a conditional branch back to it compiles to that code with a
  jump, taken when the operand is not zero, to the offset at which the loop starts, and the discard of
  the loop's end after the rest.\<close>

theorem compile_loop_back:
  assumes "control Loop l" "control BrIf br" "control End n" "list_all straight xs" "list_all straight ys"
    and "NewStack l = Some s" "Immediates br = [ImmU32 0]" "NewStack n = Some t" "next_free st"
  shows "compile_all code ([l] @ xs @ [br] @ ys @ [n]) st =
    Inr (emit (code_bytes xs @ OpJmpNz # int64_bytes (int (length (cs_buffer st))) @
           branch_bytes (NewStack br) @ code_bytes ys @ discard_bytes (Some t)) st)"
proof -
  let ?buf = "cs_buffer st" and ?d = "curBlockDepth st + 1" and ?bl = "cs_blocks st"
  let ?b0 = "cblock_zero\<lparr>cb_offset := int (length ?buf), cb_loopBlock := True, cb_discard := s\<rparr>"
  let ?zs = "?buf @ code_bytes xs @ [OpJmpNz]"
  let ?b1 = "?b0\<lparr>cb_patchOffsets := [int (length ?zs)]\<rparr>"
  have "compile_loop l (at st ?buf (curBlockDepth st) ?bl) = Inr (at st ?buf ?d (AList.update ?d ?b0 ?bl))"
    by (simp add: compile_loop_def newStackOf_def assms(6) openBlock_def)
  then have "compile_all code ([l] @ xs) (at st ?buf (curBlockDepth st) ?bl) =
      Inr (at st (?buf @ code_bytes xs) ?d (AList.update ?d ?b0 ?bl))"
    using assms(1) by (simp add: compile_control compile_straights [OF assms(4)])
  moreover have "compile_brif br (at st (?buf @ code_bytes xs) ?d (AList.update ?d ?b0 ?bl)) =
      Inr (at st (?zs @ int64_bytes 0 @ branch_bytes (NewStack br)) ?d (AList.update ?d ?b1 ?bl))"
    using compile_brif_at [OF assms(7), of st "?buf @ code_bytes xs" ?d ?b0 ?bl]
    by (simp add: cblock_zero_def add_ac)
  moreover have "compile_end n (at st (?zs @ int64_bytes 0 @ branch_bytes (NewStack br) @ code_bytes ys) ?d
        (AList.update ?d ?b1 ?bl)) =
      Inr (at st (?zs @ int64_bytes (int (length ?buf)) @ (branch_bytes (NewStack br) @ code_bytes ys) @
        discard_bytes (Some t)) (curBlockDepth st) ?bl)"
    using compile_end_loop_at [OF assms(8), of ?b1 ?zs ?bl ?d st 0 "branch_bytes (NewStack br) @ code_bytes ys"]
      assms(9) by (simp add: cblock_zero_def next_free_def)
  ultimately have "compile_all code (([l] @ xs) @ [br] @ ys @ [n]) (at st ?buf (curBlockDepth st) ?bl) =
      Inr (at st (?zs @ int64_bytes (int (length ?buf)) @ (branch_bytes (NewStack br) @ code_bytes ys) @
        discard_bytes (Some t)) (curBlockDepth st) ?bl)"
    unfolding compile_all_append [of code "[l] @ xs"]
    using assms(2,3) by (simp add: compile_control compile_all_append compile_straights [OF assms(5)])
  then show ?thesis by (simp add: at_self emit_at)
qed

section \<open>Witnesses\<close>

definition stack_instr :: "byte \<Rightarrow> immediate list \<Rightarrow> int \<Rightarrow> Instr" where
  "stack_instr c vs n = (plain_instr c vs)\<lparr>NewStack := Some (StackInfo_zero\<lparr>StackTopDiff := n\<rparr>),
     i_Block := Some BlockInfo_zero\<rparr>"

lemma op_codes: "op_Code (op_at I32Const) = I32Const" "op_Code (op_at Nop) = Nop"
  "op_Code (op_at Drop) = Drop" "op_Code (op_at Operators.If) = Operators.If"
  "op_Code (op_at Else) = Else" "op_Code (op_at End) = End" "op_Code (op_at Loop) = Loop"
  "op_Code (op_at BrIf) = BrIf" "op_Code (op_at I32Load) = I32Load"
  by code_simp+

lemma put_words: "le_put 4 (0 :: u32) = [0, 0, 0, 0]" "le_put 4 (1 :: u32) = [1, 0, 0, 0]"
  "le_put 4 (7 :: u32) = [7, 0, 0, 0]"
  by code_simp+

lemmas instr_defs = stack_instr_def plain_instr_def new_instr_def op_codes

theorem Compile_straight_witness:
  "Compile [plain_instr I32Const [ImmI32 1], plain_instr I32Load [ImmU32 2, ImmU32 7]] =
     Inr ([0x41, 1, 0, 0, 0, 0x28, 7, 0, 0, 0, 0x01], [])"
proof -
  have "list_all straight [plain_instr I32Const [ImmI32 1], plain_instr I32Load [ImmU32 2, ImmU32 7]]"
    by (simp add: instr_defs straight_def control_ops_def memory_ops_def)
  from Compile_straight [OF this] show ?thesis
    by (simp add: instr_defs code_bytes_def ins_bytes_def memory_ops_def put_words)
qed

theorem compile_if_else_witness:
  "compile_all [stack_instr Operators.If [] 0]
     ([stack_instr Operators.If [] 0] @ [plain_instr Nop []] @ [stack_instr Else [] 0] @
      [plain_instr Nop []] @ [stack_instr End [] 0]) cstate_init =
   Inr (emit ([OpJmpZ] @ int64_bytes 19 @ [Nop, OpJmp] @ int64_bytes 20 @ [Nop]) cstate_init)"
proof -
  have "compile_all [stack_instr Operators.If [] 0]
     ([stack_instr Operators.If [] 0] @ [plain_instr Nop []] @ [stack_instr Else [] 0] @
      [plain_instr Nop []] @ [stack_instr End [] 0]) cstate_init =
    Inr (emit (if_else_bytes (length (cs_buffer cstate_init))
      (code_bytes [plain_instr Nop []] @ discard_bytes (NewStack (stack_instr Operators.If [] 0)))
      (code_bytes [plain_instr Nop []] @ discard_bytes (Some StackInfo_zero))) cstate_init)"
    by (rule compile_if_else [where info = BlockInfo_zero])
      (simp_all add: instr_defs control_def straight_def control_ops_def memory_ops_def next_free_def
        cstate_init_def BlockInfo_zero_def StackInfo_zero_def idx_def)
  moreover have "if_else_bytes (length (cs_buffer cstate_init))
      (code_bytes [plain_instr Nop []] @ discard_bytes (NewStack (stack_instr Operators.If [] 0)))
      (code_bytes [plain_instr Nop []] @ discard_bytes (Some StackInfo_zero)) =
    [OpJmpZ] @ int64_bytes 19 @ [Nop, OpJmp] @ int64_bytes 20 @ [Nop]"
    by (simp add: instr_defs code_bytes_def ins_bytes_def memory_ops_def discard_bytes_def
        if_else_bytes_def StackInfo_zero_def cstate_init_def)
  ultimately show ?thesis by (simp only:)
qed

theorem compile_loop_back_witness:
  "compile_all [] ([stack_instr Loop [] 0] @ [plain_instr I32Const [ImmI32 0]] @
      [plain_instr BrIf [ImmU32 0]] @ [] @ [stack_instr End [] 0]) cstate_init =
   Inr (emit ([0x41, 0, 0, 0, 0, OpJmpNz] @ int64_bytes 0 @ [0] @ int64_bytes 0) cstate_init)"
proof -
  have "compile_all [] ([stack_instr Loop [] 0] @ [plain_instr I32Const [ImmI32 0]] @
      [plain_instr BrIf [ImmU32 0]] @ [] @ [stack_instr End [] 0]) cstate_init =
    Inr (emit (code_bytes [plain_instr I32Const [ImmI32 0]] @ OpJmpNz #
      int64_bytes (int (length (cs_buffer cstate_init))) @
      branch_bytes (NewStack (plain_instr BrIf [ImmU32 0])) @ code_bytes [] @
      discard_bytes (Some StackInfo_zero)) cstate_init)"
    by (rule compile_loop_back [where s = StackInfo_zero])
      (simp_all add: instr_defs control_def straight_def control_ops_def memory_ops_def next_free_def
        cstate_init_def StackInfo_zero_def)
  moreover have "code_bytes [plain_instr I32Const [ImmI32 0]] @ OpJmpNz #
      int64_bytes (int (length (cs_buffer cstate_init))) @
      branch_bytes (NewStack (plain_instr BrIf [ImmU32 0])) @ code_bytes [] @
      discard_bytes (Some StackInfo_zero) =
    [0x41, 0, 0, 0, 0, OpJmpNz] @ int64_bytes 0 @ [0] @ int64_bytes 0"
    by (simp add: instr_defs code_bytes_def ins_bytes_def memory_ops_def discard_bytes_def
        branch_bytes_def StackInfo_zero_def cstate_init_def put_words)
  ultimately show ?thesis by (simp only:)
qed

end
