(* ===== verification/DisasmBlocks.thy ===== *)
theory DisasmBlocks
  imports DisasmProps
begin

text \<open>
  The block structure the disassembler records: every \<^verbatim>\<open>end\<close> knows the instruction that
  opened its block and is known to it.  The invariant relates the stack of open blocks to the
  instructions read so far.
\<close>

section \<open>Steps that keep the blocks\<close>

definition same_blocks :: "dstate \<Rightarrow> dstate \<Rightarrow> bool" where
  "same_blocks st st' \<longleftrightarrow> d_Code (disas st') = d_Code (disas st) \<and>
     blockIndices st' = blockIndices st \<and> curIndex st' = curIndex st \<and>
     length (blockPolymorphicOps st') = length (blockPolymorphicOps st) \<and>
     (last (blockPolymorphicOps st') = [] \<longrightarrow> last (blockPolymorphicOps st) = [])"

lemma same_blocks_simps [simp]:
  "same_blocks st st"
  "same_blocks st (st'\<lparr>stackDepths := a\<rparr>) = same_blocks st st'"
  "same_blocks st (st'\<lparr>lastOpReturn := d\<rparr>) = same_blocks st st'"
  "same_blocks st (checkDepth n st') = same_blocks st st'"
  "blockPolymorphicOps (checkDepth n st') = blockPolymorphicOps st'"
  by (auto simp: same_blocks_def checkDepth_def checkMaxDepth_def)

lemma same_blocks_trans: "same_blocks st st' \<Longrightarrow> same_blocks st' st'' \<Longrightarrow> same_blocks st st''"
  by (simp add: same_blocks_def)

lemma setDepth_blocks: "setDepth v st = Inr st' \<Longrightarrow> same_blocks st st'"
  by (auto simp: setDepth_def elim!: bindE_InrE)

lemma dropDepth_blocks: "dropDepth k st = Inr st' \<Longrightarrow> same_blocks st st'"
  by (auto simp: dropDepth_def elim!: bindE_InrE dest: setDepth_blocks)

lemma markPolymorphic_blocks: "markPolymorphic st = Inr st' \<Longrightarrow> same_blocks st st'"
  by (auto simp: markPolymorphic_def pushPolymorphicOp_def same_blocks_def last_list_update
      elim!: bindE_InrE split: if_splits)

lemma fixedEffect_blocks:
  assumes "fixedEffect op st = Inr st'"
  shows "same_blocks st st'"
proof -
  from assms obtain top st1 where a: "setDepth top st = Inr st1"
    and b: "(if sint top < - 1 then Inl ErrStackUnderflow
      else if op_Returns op \<noteq> BlockTypeEmpty
      then bindE (setDepth (top + 1) st1) (\<lambda>st. Inr (checkDepth (sint (top + 1)) st))
      else Inr (checkDepth (sint top) st1)) = Inr st'"
    unfolding fixedEffect_def Let_def by (auto elim!: bindE_InrE)
  have "same_blocks st1 st'"
    using b by (auto elim!: bindE_InrE dest!: setDepth_blocks split: if_splits)
  with setDepth_blocks [OF a] show ?thesis by (rule same_blocks_trans)
qed

lemmas step_blocks = setDepth_blocks dropDepth_blocks markPolymorphic_blocks

lemma disasm_targets_op: "disasm_targets n ins st r = Inr (ins', r') \<Longrightarrow> i_Op ins' = i_Op ins"
  by (induction n ins st r rule: disasm_targets.induct) (auto simp: add_imm_def elim!: bindE_InrE)

lemma disasm_brtable_blocks:
  assumes "disasm_brtable ins st r = Inr (ins', st', r')"
  shows "same_blocks st st' \<and> i_Op ins' = i_Op ins"
proof -
  from assms obtain st1 r1 c i1 r2 where
    a: "(if i_Unreachable ins then Inr st else dropDepth 1 st) = Inr st1"
    and b: "disasm_targets (unat c) (add_imm (ImmU32 c) ins) st1 r1 = Inr (i1, r2)"
      "disasm_targets 1 i1 st1 r2 = Inr (ins', r')"
    and c: "markPolymorphic st1 = Inr st'"
    unfolding disasm_brtable_def by (auto elim!: bindE_InrE)
  have "same_blocks st st1" using a by (auto dest: dropDepth_blocks split: if_splits)
  with markPolymorphic_blocks [OF c] b [THEN disasm_targets_op] show ?thesis
    by (auto simp: add_imm_def intro: same_blocks_trans)
qed

lemma disasm_call_blocks:
  assumes "disasm_call m ins st r = Inr (ins', st', r')"
  shows "same_blocks st st' \<and> i_Op ins' = i_Op ins"
  using assms unfolding disasm_call_def Let_def
  by (force simp: add_imm_def elim!: bindE_InrE dest!: step_blocks split: if_splits)

lemma disasm_op_blocks:
  assumes "disasm_op fn m ins st r = Inr (ins', st', r')"
    and "op_Code (i_Op ins) \<notin> {End, Else, Block, Loop, Operators.If}"
  shows "same_blocks st st' \<and> i_Op ins' = i_Op ins"
  using assms unfolding disasm_op_def Let_def
  by (auto simp: disasm_return_def disasm_br_def disasm_var_def disasm_const_def disasm_memory_def
      disasm_memsize_def Let_def add_imm_def
      elim!: bindE_InrE dest!: step_blocks disasm_brtable_blocks disasm_call_blocks
      split: if_splits option.splits intro: same_blocks_trans)

section \<open>Steps that open or close a block\<close>

lemma disasm_block_opens:
  assumes "disasm_block ins st r = Inr (ins', st', r')"
  shows "d_Code (disas st') = d_Code (disas st) \<and> curIndex st' = curIndex st \<and> i_Op ins' = i_Op ins \<and>
    NewStack ins' = NewStack ins \<and> i_Block ins' \<noteq> None \<and> slice (blockIndices st') = slice (blockIndices st) @ [of_nat (curIndex st)]"
  using assms by (auto simp: disasm_block_def Let_def add_imm_def Push_def elim!: bindE_InrE)

lemma linkBlock_stackDepths [simp]: "stackDepths (linkBlock e k st) = stackDepths st"
  by (simp add: linkBlock_def updateBlock_def updateCode_def)

lemma Pop_snoc: "Pop s = Inr (v, s') \<Longrightarrow> slice s = slice s' @ [v]"
  by (cases "slice s" rule: rev_cases) (auto simp: Pop_def Top_def)

lemma pushBlockResult_blocks:
  "pushBlockResult e u sig i d st = Inr st' \<Longrightarrow>
    same_blocks st st' \<and> blockPolymorphicOps st' = blockPolymorphicOps st"
  by (auto simp: pushBlockResult_def elim!: bindE_InrE split: if_splits)

lemma closeBlock_blocks:
  assumes "closeBlock e u st = Inr st'"
  shows "d_Code (disas st') = d_Code (disas st) \<and> curIndex st' = curIndex st \<and>
    slice (blockIndices st') = slice (blockIndices st) @ (if e then [of_nat (curIndex st)] else []) \<and>
    (u \<or> blockPolymorphicOps st \<noteq> []) \<and>
    blockPolymorphicOps st' = (if u then blockPolymorphicOps st
      else butlast (blockPolymorphicOps st) @ (if e then [[]] else []))"
  using assms by (auto simp: closeBlock_def Let_def Push_def elim!: bindE_InrE split: if_splits)

text \<open>Closing updates the opening instruction and records it in the closing one.\<close>

lemma disasm_end_closes:
  assumes "disasm_end ins st r = Inr (ins', st', r')"
  defines "e \<equiv> op_Code (i_Op ins) = Else"
  obtains start b ns b' bs where
    "slice (blockIndices st) = bs @ [start]" "unat start < length (d_Code (disas st))"
    "i_Block (d_Code (disas st) ! unat start) = Some b"
    "Signature b' = Signature b" "\<not> e \<Longrightarrow> EndIndex b' = curIndex st" "e \<Longrightarrow> IfElseIndex b' = unat start"
    "ElseIfIndex b' = ElseIfIndex b"
    "ins' = ins\<lparr>i_Block := Some (blockEndInfo e start (Signature b)), NewStack := Some ns\<rparr>"
    "d_Code (disas st') = (d_Code (disas st))[unat start :=
       (d_Code (disas st) ! unat start)\<lparr>i_Block := Some b', NewStack := Some ns\<rparr>]"
    "curIndex st' = curIndex st"
    "slice (blockIndices st') = bs @ (if e then [of_nat (curIndex st)] else [])"
    "i_Unreachable ins \<or> blockPolymorphicOps st \<noteq> []"
    "blockPolymorphicOps st' = (if i_Unreachable ins then blockPolymorphicOps st
       else butlast (blockPolymorphicOps st) @ (if e then [[]] else []))"
proof -
  from assms(1) obtain start bi b prevDepth st1 ns where
    p: "Pop (blockIndices st) = Inr (start, bi)" and b: "blockAt start st = Inr b"
    and q: "pushBlockResult e (i_Unreachable ins) (Signature b) (int (Len (stackDepths st)) - 2) prevDepth
      (linkBlock e start (st\<lparr>blockIndices := bi\<rparr>)) = Inr st1"
    and c: "closeBlock e (i_Unreachable ins) (updateCode start (\<lambda>i. i\<lparr>NewStack := Some ns\<rparr>) st1) = Inr st'"
    and ins': "ins' = ins\<lparr>i_Block := Some (blockEndInfo e start (Signature b)), NewStack := Some ns\<rparr>"
    unfolding disasm_end_def Let_def e_def by (auto elim!: bindE_InrE)
  let ?code = "d_Code (disas st)"
  let ?b = "if e then b\<lparr>IfElseIndex := unat start\<rparr> else b\<lparr>EndIndex := curIndex st\<rparr>"
  have sl: "slice (blockIndices st) = slice bi @ [start]" by (rule Pop_snoc [OF p])
  from b have lt: "unat start < length ?code" and ib: "i_Block (?code ! unat start) = Some b"
    by (auto simp: blockAt_def codeAt_def idx_def elim!: bindE_InrE split: option.splits if_splits)
  from pushBlockResult_blocks [OF q] lt ib
  have st1: "d_Code (disas st1) = ?code[unat start := (?code ! unat start)\<lparr>i_Block := Some ?b\<rparr>]"
    "blockIndices st1 = bi" "curIndex st1 = curIndex st" "blockPolymorphicOps st1 = blockPolymorphicOps st"
    by (auto simp: same_blocks_def linkBlock_def updateBlock_def updateCode_def)
  from closeBlock_blocks [OF c] st1 lt
  have "d_Code (disas st') = ?code[unat start := (?code ! unat start)\<lparr>i_Block := Some ?b, NewStack := Some ns\<rparr>]"
    "curIndex st' = curIndex st" "slice (blockIndices st') = slice bi @ (if e then [of_nat (curIndex st)] else [])"
    "i_Unreachable ins \<or> blockPolymorphicOps st \<noteq> []"
    "blockPolymorphicOps st' = (if i_Unreachable ins then blockPolymorphicOps st
       else butlast (blockPolymorphicOps st) @ (if e then [[]] else []))"
    by (simp_all add: updateCode_def)
  note st' = this
  have "Signature ?b = Signature b" "\<not> e \<Longrightarrow> EndIndex ?b = curIndex st" "e \<Longrightarrow> IfElseIndex ?b = unat start"
    "ElseIfIndex ?b = ElseIfIndex b" by auto
  then show thesis using that [OF sl lt ib, of ?b ns] st' ins' by blast
qed

section \<open>The invariant\<close>

definition opener :: "Instr \<Rightarrow> bool" where
  "opener ins \<longleftrightarrow> op_Code (i_Op ins) \<in> {Block, Loop, Operators.If, Else} \<and> i_Block ins \<noteq> None"

text \<open>The instruction \<open>j\<close> opens the block that \<open>k\<close> ends, or whose first part the \<^verbatim>\<open>else\<close> at \<open>k\<close> ends.  An \<^verbatim>\<open>end\<close> and its
  opener record each other and the same stack; an \<^verbatim>\<open>else\<close> records its \<^verbatim>\<open>if\<close>, which records its own index.\<close>

definition closer :: "Instr \<Rightarrow> bool" where
  "closer ins \<longleftrightarrow> op_Code (i_Op ins) \<in> {End, Else}"

definition linked :: "Instr list \<Rightarrow> nat \<Rightarrow> nat \<Rightarrow> bool" where
  "linked code j k \<longleftrightarrow> j < k \<and> opener (code ! j) \<and> NewStack (code ! j) \<noteq> None \<and>
     (\<exists>b b'. i_Block (code ! j) = Some b \<and> i_Block (code ! k) = Some b' \<and> Signature b' = Signature b \<and>
       (if op_Code (i_Op (code ! k)) = End
        then BlockStartIndex b' = j \<and> EndIndex b = k \<and> NewStack (code ! j) = NewStack (code ! k)
        else ElseIfIndex b' = j \<and> IfElseIndex b = j))"

text \<open>Of the open blocks, innermost last, and of the blocks that were closed.\<close>

definition ends_ok :: "Instr list \<Rightarrow> nat list \<Rightarrow> bool" where
  "ends_ok code os \<longleftrightarrow>
     (\<forall>k < length code. closer (code ! k) \<longrightarrow> (\<exists>j. j \<notin> set os \<and> linked code j k))"

definition starts_ok :: "Instr list \<Rightarrow> bool" where
  "starts_ok code \<longleftrightarrow>
     (\<forall>j < length code. op_Code (i_Op (code ! j)) \<in> {Block, Loop, Operators.If} \<and> NewStack (code ! j) \<noteq> None \<longrightarrow>
        (\<exists>k < length code. closer (code ! k) \<and> linked code j k))"

definition blocks_ok :: "Instr list \<Rightarrow> nat list \<Rightarrow> bool" where
  "blocks_ok code os \<longleftrightarrow> sorted_wrt (<) os \<and> (\<forall>j \<in> set os. j < length code \<and> opener (code ! j)) \<and>
     ends_ok code os \<and> starts_ok code"

definition dstate_ok :: "dstate \<Rightarrow> bool" where
  "dstate_ok st \<longleftrightarrow> curIndex st = length (d_Code (disas st)) \<and>
     blocks_ok (d_Code (disas st)) (map unat (slice (blockIndices st)))"

lemma linked_append: "linked code j k \<Longrightarrow> k < length code \<Longrightarrow> linked (code @ [ins]) j k"
  by (auto simp: linked_def nth_append split: if_splits)

lemma ends_ok_append:
  assumes "ends_ok code os"
    and "closer ins \<Longrightarrow> \<exists>j. j \<notin> set os \<and> linked (code @ [ins]) j (length code)"
  shows "ends_ok (code @ [ins]) os"
  unfolding ends_ok_def
proof (intro allI impI)
  fix k
  assume k: "k < length (code @ [ins])" "closer ((code @ [ins]) ! k)"
  show "\<exists>j. j \<notin> set os \<and> linked (code @ [ins]) j k"
  proof (cases "k = length code")
    case True
    then show ?thesis using assms(2) k by simp
  next
    case False
    with k have "k < length code" "closer (code ! k)" by (auto simp: nth_append)
    with assms(1) linked_append show ?thesis unfolding ends_ok_def by blast
  qed
qed

lemma starts_ok_append:
  assumes "starts_ok code" "op_Code (i_Op ins) \<in> {Block, Loop, Operators.If} \<Longrightarrow> NewStack ins = None"
  shows "starts_ok (code @ [ins])"
  unfolding starts_ok_def
proof (intro allI impI)
  fix j
  assume j: "j < length (code @ [ins])" "op_Code (i_Op ((code @ [ins]) ! j)) \<in> {Block, Loop, Operators.If} \<and> NewStack ((code @ [ins]) ! j) \<noteq> None"
  then have "j < length code" using assms(2) by (cases "j = length code") (auto simp: nth_append)
  with j assms(1) obtain k where "k < length code" "closer (code ! k)" "linked code j k"
    by (auto simp: starts_ok_def nth_append)
  then show "\<exists>k < length (code @ [ins]). closer ((code @ [ins]) ! k) \<and> linked (code @ [ins]) j k"
    using linked_append by (auto simp: nth_append intro!: exI [of _ k])
qed

lemma blocks_ok_plain:
  assumes "blocks_ok code os" "\<not> closer ins" "op_Code (i_Op ins) \<notin> {Block, Loop, Operators.If}"
  shows "blocks_ok (code @ [ins]) os"
  using assms ends_ok_append [of code os ins] starts_ok_append [of code ins] unfolding blocks_ok_def
  by (auto simp: nth_append)

lemma ends_ok_new: "ends_ok code os \<Longrightarrow> ends_ok code (os @ [length code - 1])" if "\<And>k. k < length code \<Longrightarrow> closer (code ! k) \<Longrightarrow> \<not> linked code (length code - 1) k"
  using that unfolding ends_ok_def by (metis Un_iff empty_iff insert_iff list.set set_append)

lemma not_linked_last: "k < length code \<Longrightarrow> \<not> linked code (length code - 1) k"
  by (auto simp: linked_def)

text \<open>The instruction that was appended last is the innermost open block.\<close>

lemma blocks_ok_push:
  assumes "blocks_ok (code @ [ins]) os" "\<forall>j \<in> set os. j < length code" "opener ins"
  shows "blocks_ok (code @ [ins]) (os @ [length code])"
  using assms ends_ok_new [of "code @ [ins]" os] not_linked_last [of _ "code @ [ins]"]
  unfolding blocks_ok_def by (auto simp: nth_append sorted_wrt_append)

lemma blocks_ok_open:
  assumes "blocks_ok code os" "opener ins" "op_Code (i_Op ins) \<in> {Block, Loop, Operators.If}" "NewStack ins = None"
  shows "blocks_ok (code @ [ins]) (os @ [length code])"
proof (rule blocks_ok_push)
  have "\<not> closer ins" using assms(3) by (auto simp: closer_def)
  then show "blocks_ok (code @ [ins]) os"
    using assms ends_ok_append [of code os ins] starts_ok_append [of code ins] unfolding blocks_ok_def
    by (auto simp: nth_append)
  show "\<forall>j \<in> set os. j < length code" using assms(1) by (simp add: blocks_ok_def)
qed (rule assms(2))

text \<open>The update of the opening instruction leaves the other links alone.\<close>

lemma linked_update:
  assumes "linked code j k" "k < length code" "i < length code" "j \<noteq> i" "i_Block (code ! i) = Some b0"
    and "Signature b = Signature b0" "ElseIfIndex b = ElseIfIndex b0" "opener (code ! i)"
  shows "linked (code[i := (code ! i)\<lparr>i_Block := Some b, NewStack := ns\<rparr>]) j k"
  using assms by (cases "k = i") (auto simp: linked_def opener_def split: if_splits)

lemma blocks_ok_close:
  assumes ok: "blocks_ok code (os @ [j])" and x: "x = (code ! j)\<lparr>i_Block := Some b, NewStack := Some ns\<rparr>"
    and b: "i_Block (code ! j) = Some b0" "Signature b = Signature b0" "ElseIfIndex b = ElseIfIndex b0"
    and l: "closer ins" "j < length code \<Longrightarrow> opener (code ! j) \<Longrightarrow> linked (code[j := x] @ [ins]) j (length code)"
  shows "blocks_ok (code[j := x] @ [ins]) os"
proof -
  have j: "j < length code" "opener (code ! j)" "j \<notin> set os"
    using ok by (auto simp: blocks_ok_def sorted_wrt_append)
  note l = l(1) l(2) [OF j(1,2)]
  have op: "i_Op ((code[j := x]) ! k) = i_Op (code ! k)" if "k < length code" for k
    using that by (cases "k = j") (simp_all add: x)
  have cl: "closer ((code[j := x]) ! k) = closer (code ! k)" if "k < length code" for k
    using op [OF that] by (simp add: closer_def)
  have lk: "linked (code[j := x]) i k" if "linked code i k" "k < length code" "i \<noteq> j" for i k
    unfolding x by (rule linked_update [OF that(1,2) j(1) that(3) b j(2)])
  have "ends_ok (code[j := x]) os"
    unfolding ends_ok_def
  proof (intro allI impI)
    fix k
    assume k: "k < length (code[j := x])" "closer ((code[j := x]) ! k)"
    then have k': "k < length code" by simp
    with k cl ok obtain i where "i \<notin> set (os @ [j])" "linked code i k"
      unfolding blocks_ok_def ends_ok_def by blast
    then show "\<exists>i. i \<notin> set os \<and> linked (code[j := x]) i k" using lk k' by auto
  qed
  then have e: "ends_ok (code[j := x] @ [ins]) os"
    by (rule ends_ok_append) (use l(2) j in auto)
  have s: "starts_ok (code[j := x] @ [ins])"
    unfolding starts_ok_def
  proof (intro allI impI)
    fix i
    assume i: "i < length (code[j := x] @ [ins])"
      "op_Code (i_Op ((code[j := x] @ [ins]) ! i)) \<in> {Block, Loop, Operators.If} \<and> NewStack ((code[j := x] @ [ins]) ! i) \<noteq> None"
    show "\<exists>k < length (code[j := x] @ [ins]). closer ((code[j := x] @ [ins]) ! k) \<and> linked (code[j := x] @ [ins]) i k"
    proof (cases "i = j")
      case True
      then show ?thesis using l by (intro exI [of _ "length code"]) (simp add: nth_append)
    next
      case False
      have i': "i < length code" using i l(1) by (cases "i = length code") (auto simp: closer_def nth_append)
      then have "op_Code (i_Op (code ! i)) \<in> {Block, Loop, Operators.If}" "NewStack (code ! i) \<noteq> None"
        using i False by (auto simp: nth_append)
      with ok i' obtain k where k: "k < length code" "closer (code ! k)" "linked code i k"
        unfolding blocks_ok_def starts_ok_def by blast
      from linked_append [OF lk [OF k(3,1) False], of ins] k cl show ?thesis
        by (intro exI [of _ k]) (simp add: nth_append)
    qed
  qed
  have "opener ((code[j := x]) ! i)" if "i \<in> set os" for i
    using ok j that by (auto simp: blocks_ok_def nth_list_update)
  then show ?thesis
    using ok e s unfolding blocks_ok_def by (auto simp: sorted_wrt_append nth_append)
qed

lemma dstate_ok_init: "dstate_ok dstate_init"
  by (simp add: dstate_ok_def blocks_ok_def ends_ok_def starts_ok_def dstate_init_def)

lemma unat_of_nat_index: "k < 2 ^ 63 \<Longrightarrow> unat (of_nat k :: u64) = k"
  by (simp add: unsigned_of_nat take_bit_nat_eq_self)

lemma disasm_op_ok:
  assumes "disasm_op fn m ins st r = Inr (ins', st', r')" "dstate_ok st" "curIndex st < 2 ^ 63" "NewStack ins = None"
  shows "curIndex st' = curIndex st \<and> length (d_Code (disas st')) = length (d_Code (disas st)) \<and>
    blocks_ok (d_Code (disas st') @ [ins']) (map unat (slice (blockIndices st')))"
proof -
  let ?op = "op_Code (i_Op ins)" and ?code = "d_Code (disas st)"
  have len: "curIndex st = length ?code" and ok: "blocks_ok ?code (map unat (slice (blockIndices st)))"
    using assms(2) by (simp_all add: dstate_ok_def)
  note k = unat_of_nat_index [OF assms(3)]
  consider (plain) "?op \<notin> {End, Else, Block, Loop, Operators.If}"
    | (block) "?op \<in> {Block, Loop, Operators.If}" | (close) "?op = End \<or> ?op = Else" by blast
  then show ?thesis
  proof cases
    case plain
    from disasm_op_blocks [OF assms(1) plain] plain ok show ?thesis
      by (auto simp: same_blocks_def closer_def intro: blocks_ok_plain)
  next
    case block
    then have "disasm_block ins st r = Inr (ins', st', r')"
      using assms(1) by (auto simp: disasm_op_def)
    from disasm_block_opens [OF this] block ok k len assms(4) show ?thesis
      by (auto simp: opener_def intro!: blocks_ok_open)
  next
    case close
    then have "disasm_end ins st r = Inr (ins', st', r')" using assms(1) by (auto simp: disasm_op_def)
    then show ?thesis
    proof (rule disasm_end_closes)
      fix start :: u64 and b ns b' bs
      let ?j = "unat start" and ?x = "(?code ! unat start)\<lparr>i_Block := Some b', NewStack := Some ns\<rparr>"
      assume sl: "slice (blockIndices st) = bs @ [start]" and j: "?j < length ?code" "i_Block (?code ! ?j) = Some b"
        and b': "Signature b' = Signature b" "?op \<noteq> Else \<Longrightarrow> EndIndex b' = curIndex st" "?op = Else \<Longrightarrow> IfElseIndex b' = ?j"
          "ElseIfIndex b' = ElseIfIndex b"
        and ins': "ins' = ins\<lparr>i_Block := Some (blockEndInfo (?op = Else) start (Signature b)), NewStack := Some ns\<rparr>"
        and st': "d_Code (disas st') = ?code[?j := ?x]" "curIndex st' = curIndex st"
          "slice (blockIndices st') = bs @ (if ?op = Else then [of_nat (curIndex st)] else [])"
      have o: "blocks_ok ?code (map unat bs @ [?j])" using ok sl by simp
      have "linked (?code[?j := ?x] @ [ins']) ?j (length ?code)" if "opener (?code ! ?j)"
        using that j b' ins' len close
        by (auto simp: linked_def nth_append opener_def blockEndInfo_def BlockInfo_zero_def)
      then have c: "blocks_ok (?code[?j := ?x] @ [ins']) (map unat bs)"
        using close ins' by (intro blocks_ok_close [OF o refl j(2) b'(1,4)]) (auto simp: closer_def)
      show ?thesis
      proof (cases "?op = Else")
        case True
        have "\<forall>i \<in> set (map unat bs). i < length (?code[?j := ?x])" using o by (auto simp: blocks_ok_def)
        moreover have "opener ins'" using True ins' by (simp add: opener_def)
        ultimately show ?thesis using blocks_ok_push [OF c] True st' k len by simp
      qed (use c st' in simp)
    qed
  qed
qed

lemma disasm_step_cases:
  assumes "disasm_step fn m c st r = Inr (st', r')"
  obtains u op st1 st2 ins where "New c = Inr op" "isUnreachable c st = Inr u"
    "(if \<not> op_Polymorphic op \<and> \<not> u then fixedEffect op st else Inr st) = Inr st1"
    "disasm_op fn m (new_instr op u) st1 r = Inr (ins, st2, r')"
    "st' = st2\<lparr>lastOpReturn := (if c \<noteq> Return then False else lastOpReturn st2),
       disas := (disas st2)\<lparr>d_Code := d_Code (disas st2) @ [ins]\<rparr>, curIndex := curIndex st2 + 1\<rparr>"
  using assms unfolding disasm_step_def
  by (auto elim!: bindE_InrE split: sum.splits)

lemma disasm_step_ok:
  assumes "disasm_step fn m c st r = Inr (st', r')" "dstate_ok st" "curIndex st < 2 ^ 63"
  shows "dstate_ok st' \<and> curIndex st' = Suc (curIndex st)"
proof -
  from assms(1) obtain u op st1 st2 ins where
    f: "(if \<not> op_Polymorphic op \<and> \<not> u then fixedEffect op st else Inr st) = Inr st1"
    and o: "disasm_op fn m (new_instr op u) st1 r = Inr (ins, st2, r')"
    and st': "st' = st2\<lparr>lastOpReturn := (if c \<noteq> Return then False else lastOpReturn st2),
       disas := (disas st2)\<lparr>d_Code := d_Code (disas st2) @ [ins]\<rparr>, curIndex := curIndex st2 + 1\<rparr>"
    by (rule disasm_step_cases)
  have "same_blocks st st1" using f by (auto dest: fixedEffect_blocks split: if_splits)
  then have ok: "dstate_ok st1" "curIndex st1 = curIndex st"
    using assms(2) by (auto simp: dstate_ok_def same_blocks_def)
  from disasm_op_ok [OF o ok(1)] ok assms(3) new_instr_def show ?thesis
    by (simp add: st' dstate_ok_def)
qed

lemma Disassemble_loop_ok:
  assumes "Disassemble_loop fn m st r = Inr d" "dstate_ok st" "curIndex st + length r < 2 ^ 63"
  shows "\<exists>os. blocks_ok (d_Code d) os"
  using assms
proof (induction fn m st r rule: Disassemble_loop.induct)
  case (1 fn m st)
  then show ?case by (auto simp: dstate_ok_def)
next
  case (2 fn m st c r)
  from "2.prems"(1) obtain st1 r1 where s: "disasm_step fn m c st r = Inr (st1, r1)"
    and l: "Disassemble_loop fn m st1 r1 = Inr d" by (auto elim!: bindE_InrE)
  have "curIndex st < 2 ^ 63" using "2.prems"(3) by simp
  from disasm_step_ok [OF s "2.prems"(2) this] disasm_step_rest [OF s]
  show ?case using "2.IH" [OF s refl l] "2.prems"(3) by simp
qed

lemma Disassemble_blocks:
  assumes "Disassemble fn m = Inr d" "Body fn = Some body" "length (Code body) < 2 ^ 63"
  shows "\<exists>os. blocks_ok (d_Code d) os"
proof -
  have "Disassemble_loop fn m dstate_init (Code body) = Inr d"
    using assms(1,2) by (simp add: Disassemble_def)
  from Disassemble_loop_ok [OF this dstate_ok_init] assms(3)
  show ?thesis by (auto simp: dstate_init_def)
qed



section \<open>The depth an else starts with\<close>

lemma block_ends: "New Else = Inr (op_at Else)" "New End = Inr (op_at End)"
  "op_Code (op_at Else) = Else" "op_Code (op_at End) = End"
  "op_Args (op_at Else) = []" "op_Args (op_at End) = []"
  "op_Returns (op_at Else) = BlockTypeEmpty" "op_Returns (op_at End) = BlockTypeEmpty"
  by code_simp+

lemma fixedEffect_nothing:
  assumes "op_Args op = []" "op_Returns op = BlockTypeEmpty" "slice (stackDepths st) = ds @ [n]"
  shows "fixedEffect op st = (if sint n < - 1 then Inl ErrStackUnderflow else Inr (checkDepth (sint n) st))"
proof -
  have "stackDepths st\<lparr>slice := ds @ [n]\<rparr> = stackDepths st" using assms(3) by (metis stack.surjective stack.update_convs(1))
  then have "setDepth n st = Inr st"
    using assms(3) by (simp add: setDepth_def SetTop_def)
  then show ?thesis
    using assms by (simp add: fixedEffect_def depthTop_def Top_def)
qed

lemma else_depths:
  assumes "disasm_end ins st r = Inr (ins', st', r')" "op_Code (i_Op ins) = Else"
    and "slice (stackDepths st) = ds @ [n, k]"
  shows "slice (stackDepths st') = ds @ [n, 0]"
  using assms
  by (auto simp: disasm_end_def Let_def pushBlockResult_def closeBlock_def Push_def Pop_def Top_def
      updateCode_def linkBlock_def updateBlock_def butlast_append butlast_conv_take [symmetric]
      elim!: bindE_InrE split: if_splits)

lemma sint_minus_depth:
  assumes "2 \<le> sint (n :: u64)"
  shows "sint (0 - n) = - sint n"
proof -
  have "- (2 ^ 63) \<le> - sint n" "- sint n < 2 ^ 63"
    using assms sint_lt [of n] by simp_all
  then have "signed_take_bit 63 (- sint n) = - sint n" by (simp add: signed_take_bit_int_eq_self)
  moreover have "sint (- n) = signed_take_bit 63 (- sint n)"
    by (simp add: sint_word_ariths(4))
  ultimately show ?thesis by simp
qed

lemma else_then_end:
  assumes code: "curIndex st = Suc c" "c < length (d_Code (disas st))" "c < 2 ^ 63"
      "i_Block (d_Code (disas st) ! c) = Some b"
    and opn: "slice (blockIndices st) = bs @ [of_nat c]"
    and dep: "slice (stackDepths st) = ds @ [n, 0]" "2 \<le> sint n" "\<not> lastOpReturn st"
  shows "disasm_step fn m End st r = Inl ErrStackUnderflow"
proof -
  obtain u where u: "isUnreachable End st = Inr u" by (simp add: isUnreachable_def)
  define st1 where "st1 = (if \<not> op_Polymorphic (op_at End) \<and> \<not> u then checkDepth 0 st else st)"
  have f: "(if \<not> op_Polymorphic (op_at End) \<and> \<not> u then fixedEffect (op_at End) st else Inr st) = Inr st1"
    using fixedEffect_nothing [of "op_at End" st "ds @ [n]" 0] dep by (simp add: block_ends st1_def)
  have st1: "blockIndices st1 = blockIndices st" "stackDepths st1 = stackDepths st"
    "lastOpReturn st1 = lastOpReturn st" "d_Code (disas st1) = d_Code (disas st)"
    by (simp_all add: st1_def checkDepth_def checkMaxDepth_def)
  have pop: "Pop (blockIndices st1) = Inr (of_nat c, blockIndices st1\<lparr>slice := bs\<rparr>)"
    using opn st1 by (simp add: Pop_def Top_def)
  have b: "blockAt (of_nat c) st1 = Inr b"
    using code st1 by (simp add: blockAt_def codeAt_def idx_def unat_of_nat_index)
  let ?st2 = "linkBlock False (of_nat c) (st1\<lparr>blockIndices := blockIndices st1\<lparr>slice := bs\<rparr>\<rparr>)"
  have get: "Get (stackDepths ?st2) (int (Len (stackDepths ?st2)) - 2) = Inr n"
    using dep st1 by (simp add: Get_def Len_def nth_append)
  have last: "lastOpReturn ?st2 = lastOpReturn st1"
    by (simp add: linkBlock_def updateBlock_def updateCode_def)
  obtain st3 where p: "pushBlockResult False u (Signature b) (int (Len (stackDepths ?st2)) - 2) n ?st2 = Inr st3"
    "lastOpReturn st3 = lastOpReturn st1"
    using dep st1 last
    by (cases "Signature b \<noteq> BlockTypeEmpty \<and> \<not> u")
      (auto simp: pushBlockResult_def Set_def Len_def checkDepth_def)
  have e: "blockEndStack st3 0 n (Signature b) = Inl ErrStackUnderflow"
    using p(2) st1 dep(2,3) sint_minus_depth [OF dep(2)] by (simp add: blockEndStack_def)
  have "disasm_end (new_instr (op_at End) u) st1 r = Inl ErrStackUnderflow"
    using dep st1 pop b get p e
    by (simp add: disasm_end_def new_instr_def block_ends depthTop_def Top_def nth_append Let_def)
  then have "disasm_op fn m (new_instr (op_at End) u) st1 r = Inl ErrStackUnderflow"
    by (simp add: disasm_op_def new_instr_def block_ends)
  then show ?thesis
    using dep f u by (simp add: disasm_step_def depthTop_def Top_def block_ends)
qed

text \<open>An \<^verbatim>\<open>else\<close> starts its block at depth zero instead of the depth of the block around it:
  where two or more operands lie below an \<^verbatim>\<open>if\<close>, an \<^verbatim>\<open>else\<close> that is followed by its
  \<^verbatim>\<open>end\<close> at once makes the disassembler report a stack underflow, although such code is valid.\<close>

theorem else_forgets_depth:
  assumes "disasm_step fn m Else st r = Inr (st1, r1)" "dstate_ok st" "curIndex st < 2 ^ 63"
    and "slice (stackDepths st) = ds @ [n, k]" "2 \<le> sint n"
  shows "disasm_step fn m End st1 r2 = Inl ErrStackUnderflow"
proof -
  from assms(1) obtain u op st0 st2 ins where n: "New Else = Inr op"
    and f': "(if \<not> op_Polymorphic op \<and> \<not> u then fixedEffect op st else Inr st) = Inr st0"
    and o': "disasm_op fn m (new_instr op u) st0 r = Inr (ins, st2, r1)"
    and st1': "st1 = st2\<lparr>lastOpReturn := (if Else \<noteq> Return then False else lastOpReturn st2),
       disas := (disas st2)\<lparr>d_Code := d_Code (disas st2) @ [ins]\<rparr>, curIndex := curIndex st2 + 1\<rparr>"
    by (rule disasm_step_cases)
  have op: "op = op_at Else" using n block_ends(1) by simp
  note f = f' [unfolded op] and o = o' [unfolded op]
  have st1: "st1 = st2\<lparr>lastOpReturn := False,
       disas := (disas st2)\<lparr>d_Code := d_Code (disas st2) @ [ins]\<rparr>, curIndex := curIndex st2 + 1\<rparr>"
    using st1' by simp
  have st0: "slice (stackDepths st0) = ds @ [n, k]" "curIndex st0 = curIndex st"
    "length (d_Code (disas st0)) = curIndex st"
    using f fixedEffect_nothing [of "op_at Else" st "ds @ [n]" k] assms(2,4)
    by (auto simp: block_ends checkDepth_def checkMaxDepth_def dstate_ok_def split: if_splits)
  have e: "disasm_end (new_instr (op_at Else) u) st0 r = Inr (ins, st2, r1)"
    using o by (simp add: disasm_op_def new_instr_def block_ends)
  have c: "op_Code (i_Op (new_instr (op_at Else) u)) = Else" by (simp add: new_instr_def block_ends)
  have d: "slice (stackDepths st2) = ds @ [n, 0]" by (rule else_depths [OF e c st0(1)])
  from e show ?thesis
  proof (rule disasm_end_closes)
    fix start :: u64 and b ns b' bs
    assume "ins = (new_instr (op_at Else) u)\<lparr>i_Block := Some (blockEndInfo
          (op_Code (i_Op (new_instr (op_at Else) u)) = Else) start (Signature b)), NewStack := Some ns\<rparr>"
      and code: "d_Code (disas st2) = (d_Code (disas st0))[unat start :=
         (d_Code (disas st0) ! unat start)\<lparr>i_Block := Some b', NewStack := Some ns\<rparr>]"
      and cur: "curIndex st2 = curIndex st0"
      and bl: "slice (blockIndices st2) = bs @ (if op_Code (i_Op (new_instr (op_at Else) u)) = Else
         then [of_nat (curIndex st0)] else [])"
    then obtain b1 where "i_Block ins = Some b1" by simp
    moreover have "length (d_Code (disas st2)) = curIndex st" using code st0 by simp
    ultimately show ?thesis
      using assms(3,5) d bl cur st0 c
      by (intro else_then_end [where c = "curIndex st" and b = b1 and bs = bs and ds = ds and n = n])
        (simp_all add: st1 nth_append)
  qed
qed

text \<open>Two constants, a condition and an empty if-else, whose operands are then dropped.\<close>

definition else_state :: dstate where
  "else_state = dstate_init\<lparr>
     disas := \<lparr>d_Code = [plain_instr I32Const [ImmI32 1], plain_instr I32Const [ImmI32 2],
       plain_instr I32Const [ImmI32 1], block_instr Operators.If BlockTypeEmpty], MaxDepth = 3\<rparr>,
     blockPolymorphicOps := [[], []], stackDepths := \<lparr>slice = [2, 2]\<rparr>, blockIndices := \<lparr>slice = [3]\<rparr>,
     curIndex := 4\<rparr>"

definition else_fn :: Function where
  "else_fn = \<lparr>Sig = None, Body = Some \<lparr>Locals = [],
     Code = [0x41, 1, 0x41, 2, 0x41, 1, 0x04, 0x40, 0x05, 0x0b, 0x1a, 0x1a]\<rparr>, Host = None\<rparr>"

lemma else_state_ok: "dstate_ok else_state"
proof -
  have codes: "op_Code (op_at I32Const) = I32Const" "op_Code (op_at Operators.If) = Operators.If"
    by code_simp+
  show ?thesis
    by (simp add: dstate_ok_def blocks_ok_def ends_ok_def starts_ok_def closer_def opener_def else_state_def plain_instr_def
        block_instr_def new_instr_def codes nth_Cons split: nat.split)
qed

theorem else_forgets_depth_witness:
  "(case disasm_step else_fn Module_zero Else else_state [0x0b] of
      Inr (st1, _) \<Rightarrow> disasm_step else_fn Module_zero End st1 [] = Inl ErrStackUnderflow
    | Inl _ \<Rightarrow> False) \<and>
   Disassemble else_fn Module_zero = Inl ErrStackUnderflow"
proof
  have "case disasm_step else_fn Module_zero Else else_state [0x0b] of Inl _ \<Rightarrow> False | Inr _ \<Rightarrow> True"
    by code_simp
  then obtain st1 r1 where s: "disasm_step else_fn Module_zero Else else_state [0x0b] = Inr (st1, r1)"
    by (cases "disasm_step else_fn Module_zero Else else_state [0x0b]") auto
  have "disasm_step else_fn Module_zero End st1 [] = Inl ErrStackUnderflow"
    by (rule else_forgets_depth [OF s else_state_ok, where ds = "[]" and n = 2 and k = 2])
      (simp_all add: else_state_def)
  then show "case disasm_step else_fn Module_zero Else else_state [0x0b] of
      Inr (st1, _) \<Rightarrow> disasm_step else_fn Module_zero End st1 [] = Inl ErrStackUnderflow
    | Inl _ \<Rightarrow> False" by (simp add: s)
  show "Disassemble else_fn Module_zero = Inl ErrStackUnderflow"
  proof -
    have "case Disassemble else_fn Module_zero of Inl ErrStackUnderflow \<Rightarrow> True | _ \<Rightarrow> False" by code_simp
    then show ?thesis by (auto split: sum.splits disasm_error.splits)
  qed
qed

end
