(* ===== verification/CompileSafe.thy ===== *)
theory CompileSafe
  imports CompileProps DisasmBlocks
begin

text \<open>
  The compiler does not panic on what the disassembler returns: the blocks nest, branches stay
  inside the function, immediates are there, and every address that was left open is inside the
  code when it is filled in.
\<close>

section \<open>Nesting\<close>

definition has_u32 :: "Instr \<Rightarrow> nat \<Rightarrow> bool" where
  "has_u32 ins k \<longleftrightarrow> (\<exists>v. immediate_at ins k as_u32 = Inr v)"

definition label_below :: "Instr \<Rightarrow> nat \<Rightarrow> bool" where
  "label_below ins n \<longleftrightarrow> (\<exists>l. immediate_at ins 0 as_u32 = Inr l \<and> unat l \<le> n)"

definition table_ok :: "Instr \<Rightarrow> bool" where
  "table_ok ins \<longleftrightarrow>
     (\<exists>n. immediate_at ins 0 as_u32 = Inr n \<and> unat n < length (Branches ins) \<and>
       (\<forall>k \<in> {1..unat n}. has_u32 ins k) \<and> has_u32 ins (length (Immediates ins) - 1))"

text \<open>How many blocks are open after an instruction, if it may stand there.\<close>

definition nest_step :: "nat \<Rightarrow> Instr \<Rightarrow> nat \<Rightarrow> nat option" where
  "nest_step len ins n =
     (let op = op_Code (i_Op ins)
      in if i_Unreachable ins then Some n
         else if op \<in> set memory_ops then (if has_u32 ins 1 then Some n else None)
         else if op = Operators.If \<or> op = Loop \<or> op = Block then Some (Suc n)
         else if op = Else then
           (if pred_option (\<lambda>b. ElseIfIndex b < len) (i_Block ins) \<and> i_Block ins \<noteq> None then Some n else None)
         else if op = End then (if NewStack ins \<noteq> None \<and> 0 < n then Some (n - 1) else None)
         else if op = Br \<or> op = BrIf then (if label_below ins n then Some n else None)
         else if op = BrTable then (if table_ok ins then Some n else None)
         else Some n)"

fun nest :: "nat \<Rightarrow> Instr list \<Rightarrow> nat \<Rightarrow> nat option" where
  "nest len [] n = Some n"
| "nest len (ins # inss) n = Option.bind (nest_step len ins n) (nest len inss)"

text \<open>The disassembler gave a reachable block or loop its stack: it came to the block's end, or to an \<^verbatim>\<open>else\<close> in its place.\<close>

definition block_closed :: "Instr \<Rightarrow> bool" where
  "block_closed ins \<longleftrightarrow> i_Unreachable ins \<or> op_Code (i_Op ins) \<notin> {Block, Loop} \<or> NewStack ins \<noteq> None"

section \<open>The invariant of the compiler\<close>

text \<open>Eight bytes of code at an offset.\<close>

definition slot :: "nat \<Rightarrow> int \<Rightarrow> bool" where
  "slot len off \<longleftrightarrow> 0 \<le> off \<and> off + 8 \<le> int len"

definition block_ok :: "nat \<Rightarrow> BranchTable list \<Rightarrow> int \<Rightarrow> cblock \<Rightarrow> bool" where
  "block_ok len ts d b \<longleftrightarrow> (\<forall>off \<in> set (cb_patchOffsets b). slot len off) \<and>
     (slot len (cb_elseAddrOffset b) \<or> \<not> cb_ifBlock b \<and> cb_elseAddrOffset b = 0) \<and>
     (\<forall>k \<in> set (cb_branchTables b). k < length ts \<and> d + 1 \<le> BlocksLen (ts ! k))"

text \<open>The depths \<open>-1\<close> to \<open>n - 1\<close>.\<close>

definition ckeys :: "nat \<Rightarrow> int list" where
  "ckeys n = map (\<lambda>i. int i - 1) [0..<Suc n]"

definition cinv :: "cstate \<Rightarrow> nat \<Rightarrow> bool" where
  "cinv st n \<longleftrightarrow> curBlockDepth st = int n - 1 \<and> map fst (cs_blocks st) = ckeys n \<and>
     (\<forall>d b. map_of (cs_blocks st) d = Some b \<longrightarrow> block_ok (length (cs_buffer st)) (cs_tables st) d b)"

lemma ckeys_Suc: "ckeys (Suc n) = ckeys n @ [int n]"
  by (simp add: ckeys_def)

lemma set_ckeys: "d \<in> set (ckeys n) \<longleftrightarrow> - 1 \<le> d \<and> d < int n"
proof
  assume "- 1 \<le> d \<and> d < int n"
  then show "d \<in> set (ckeys n)"
    unfolding ckeys_def set_map by (intro image_eqI [of _ _ "nat (d + 1)"]) auto
qed (auto simp: ckeys_def)

lemma cinv_block:
  assumes "cinv st n" "- 1 \<le> d" "d < int n"
  obtains b where "map_of (cs_blocks st) d = Some b" "blockOf d st = Inr b"
    "block_ok (length (cs_buffer st)) (cs_tables st) d b"
proof -
  have "d \<in> fst ` set (cs_blocks st)"
    using assms set_ckeys [of d n] by (metis cinv_def list.set_map)
  then obtain b where "map_of (cs_blocks st) d = Some b"
    by (metis map_of_eq_None_iff not_None_eq)
  with assms(1) that show thesis by (simp add: blockOf_def cinv_def)
qed

lemma block_ok_mono: "block_ok len ts d b \<Longrightarrow> len \<le> len' \<Longrightarrow> block_ok len' ts d b"
  by (force simp: block_ok_def slot_def)

lemma emit_inv: "cinv st n \<Longrightarrow> cinv (emit bs st) n"
  using block_ok_mono [of "length (cs_buffer st)" "cs_tables st" _ _ "length (cs_buffer st) + length bs"]
  by (simp add: cinv_def emit_def)

lemma emit_discard_inv: "cinv st n \<Longrightarrow> cinv (emit_discard s st) n"
  by (simp add: emit_discard_def emit_inv)

lemma emit_discard_opt_inv: "cinv st n \<Longrightarrow> cinv (emit_discard_opt so st) n"
  by (simp add: emit_discard_opt_def emit_discard_inv split: option.split)

text \<open>A patch inside the code changes the code only.\<close>

definition same_shape :: "cstate \<Rightarrow> cstate \<Rightarrow> bool" where
  "same_shape st st' \<longleftrightarrow> curBlockDepth st' = curBlockDepth st \<and> cs_blocks st' = cs_blocks st \<and>
     cs_tables st' = cs_tables st \<and> length (cs_buffer st') = length (cs_buffer st)"

lemma same_shape_inv: "same_shape st st' \<Longrightarrow> cinv st n \<Longrightarrow> cinv st' n"
  by (simp add: same_shape_def cinv_def)

lemma patch_slot:
  assumes "slot (length (cs_buffer st)) off"
  shows "\<exists>st'. patch off addr st = Inr st' \<and> same_shape st st'"
  using assms patchOffset_eq [of off "cs_buffer st" addr]
  by (auto simp: patch_def slot_def same_shape_def)

lemma patch_all_slots:
  assumes "\<forall>off \<in> set os. slot (length (cs_buffer st)) off"
  shows "\<exists>st'. patch_all os addr st = Inr st' \<and> same_shape st st'"
  using assms
proof (induction os arbitrary: st)
  case Nil
  then show ?case by (simp add: same_shape_def)
next
  case (Cons off os)
  from patch_slot [of st off addr] Cons.prems obtain st1 where
    1: "patch off addr st = Inr st1" "same_shape st st1" by auto
  then have "\<forall>off \<in> set os. slot (length (cs_buffer st1)) off"
    using Cons.prems by (simp add: same_shape_def)
  from Cons.IH [OF this] 1 show ?case by (auto simp: same_shape_def)
qed

lemma PatchTable_ok:
  assumes "0 \<le> blk"
  shows "\<exists>t'. PatchTable t blk addr = Inr t' \<and> BlocksLen t' = BlocksLen t"
  using assms by (simp add: PatchTable_def)

lemma patch_tables_ok:
  assumes "\<forall>k \<in> set ks. k < length (cs_tables st) \<and> d + 1 \<le> BlocksLen (cs_tables st ! k)"
  shows "\<exists>st' ts. patch_tables ks d addr st = Inr st' \<and> st' = st\<lparr>cs_tables := ts\<rparr> \<and>
    map BlocksLen ts = map BlocksLen (cs_tables st)"
  using assms
proof (induction ks arbitrary: st)
  case Nil
  then show ?case by (auto intro: exI [of _ "cs_tables st"])
next
  case (Cons k ks)
  let ?t = "cs_tables st ! k"
  obtain t' where t': "PatchTable ?t (BlocksLen ?t - d - 1) addr = Inr t'" "BlocksLen t' = BlocksLen ?t"
    using PatchTable_ok [of "BlocksLen ?t - d - 1" ?t addr] Cons.prems by auto
  let ?st = "st\<lparr>cs_tables := (cs_tables st)[k := t']\<rparr>"
  have l: "map BlocksLen (cs_tables ?st) = map BlocksLen (cs_tables st)"
    using t'(2) Cons.prems by (simp add: map_update list_update_same_conv)
  then have "length (cs_tables ?st) = length (cs_tables st)"
    "\<And>j. j < length (cs_tables st) \<Longrightarrow> BlocksLen (cs_tables ?st ! j) = BlocksLen (cs_tables st ! j)"
    by (metis length_map, metis length_map nth_map)
  then have "\<forall>k \<in> set ks. k < length (cs_tables ?st) \<and> d + 1 \<le> BlocksLen (cs_tables ?st ! k)"
    using Cons.prems by simp
  from Cons.IH [OF this] t' l show ?case by (auto simp: Let_def)
qed

lemma block_ok_tables:
  assumes "block_ok len ts d b" "map BlocksLen ts' = map BlocksLen ts"
  shows "block_ok len ts' d b"
proof -
  have "length ts' = length ts" "\<And>k. k < length ts \<Longrightarrow> BlocksLen (ts' ! k) = BlocksLen (ts ! k)"
    using assms(2) by (metis length_map, metis length_map nth_map)
  then show ?thesis using assms(1) by (simp add: block_ok_def)
qed


section \<open>Changing the blocks\<close>

lemma update_new: "k \<notin> fst ` set al \<Longrightarrow> AList.update k v al = al @ [(k, v)]"
  by (induction al) auto

lemma open_inv:
  assumes "cinv st n" "block_ok (length (cs_buffer st)) (cs_tables st) (int n) b"
  shows "cinv (openBlock b st) (Suc n)"
proof -
  have "int n \<notin> fst ` set (cs_blocks st)"
    using assms(1) set_ckeys [of "int n" n] by (metis cinv_def less_irrefl list.set_map)
  with update_new [OF this, of b] assms show ?thesis
    using update_conv' [of "int n" b "cs_blocks st"]
    by (auto simp: cinv_def openBlock_def setBlock_def ckeys_Suc split: if_splits)
qed

lemma set_inv:
  assumes "cinv st n" "- 1 \<le> d" "d < int n" "block_ok (length (cs_buffer st)) (cs_tables st) d b"
  shows "cinv (setBlock d b st) n"
proof -
  have k: "d \<in> set (ckeys n)" using assms(2,3) by (simp add: set_ckeys)
  then show ?thesis
    using assms(1,4) update_keys [of d b "cs_blocks st"]
    by (auto simp: cinv_def setBlock_def update_conv' split: if_splits)
qed

lemma removeAll_notin: "x \<notin> set xs \<Longrightarrow> removeAll x xs = xs"
  by (induction xs) auto

lemma close_inv:
  assumes "cinv st (Suc n)"
  shows "cinv (st\<lparr>cs_blocks := AList.delete (int n) (cs_blocks st), curBlockDepth := int n - 1\<rparr>) n"
proof -
  have "int n \<notin> set (ckeys n)" by (simp add: set_ckeys)
  then show ?thesis
    using assms by (auto simp: cinv_def delete_keys ckeys_Suc removeAll_notin delete_conv' split: if_splits)
qed

section \<open>One instruction\<close>

lemma compile_if_ok:
  assumes "cinv st n"
  shows "\<exists>st'. compile_if st = Inr st' \<and> cinv st' (Suc n)"
proof -
  let ?st = "emit (int64_bytes 0) (emit [OpJmpZ] st)"
  let ?b = "cblock_zero\<lparr>cb_ifBlock := True, cb_elseAddrOffset := bufferLen st + 1\<rparr>"
  have "compile_if st = Inr (openBlock ?b ?st)"
    by (simp add: compile_if_def openBlock_def setBlock_def emit_def bufferLen_def Let_def add_ac)
  moreover have "block_ok (length (cs_buffer ?st)) (cs_tables ?st) (int n) ?b"
    by (simp add: block_ok_def slot_def cblock_zero_def emit_def bufferLen_def)
  ultimately show ?thesis using open_inv [of ?st n] emit_inv assms by blast
qed

lemma compile_loop_block_ok:
  assumes "cinv st n" "NewStack ins = Some s"
  shows "\<exists>st'. compile_loop ins st = Inr st' \<and> cinv st' (Suc n)"
    "\<exists>st'. compile_block ins st = Inr st' \<and> cinv st' (Suc n)"
  using assms(2) by (auto simp: compile_loop_def compile_block_def newStackOf_def cblock_zero_def
      block_ok_def intro!: open_inv [OF assms(1)])

lemma compile_else_ok:
  assumes "cinv st n" "i_Block ins = Some info" "ElseIfIndex info < length code"
  shows "\<exists>st'. compile_else code ins st = Inr st' \<and> cinv st' n"
proof -
  let ?st1 = "emit [OpJmp] (emit_discard_opt (NewStack (code ! ElseIfIndex info)) st)"
  let ?st2 = "emit (int64_bytes 0) ?st1"
  have c2: "cinv ?st2 n" using assms(1) by (intro emit_inv emit_discard_opt_inv)
  then have d: "- 1 \<le> curBlockDepth ?st2" "curBlockDepth ?st2 < int n" by (simp_all add: cinv_def)
  obtain b where b: "blockOf (curBlockDepth ?st2) ?st2 = Inr b"
    "block_ok (length (cs_buffer ?st2)) (cs_tables ?st2) (curBlockDepth ?st2) b"
    by (rule cinv_block [OF c2 d])
  have len: "length (cs_buffer ?st2) = length (cs_buffer ?st1) + 8" "0 < length (cs_buffer ?st1)"
    by (simp_all add: emit_def)
  then have "slot (length (cs_buffer ?st2)) (cb_elseAddrOffset b)"
    using b(2) by (auto simp: block_ok_def slot_def)
  from patch_slot [OF this, of "bufferLen ?st2"] obtain st3 where
    p: "patch (cb_elseAddrOffset b) (bufferLen ?st2) ?st2 = Inr st3" and sh: "same_shape ?st2 st3" by blast
  let ?b = "b\<lparr>cb_ifBlock := False, cb_patchOffsets := cb_patchOffsets b @ [bufferLen ?st1]\<rparr>"
  have c3: "cinv st3 n" by (rule same_shape_inv [OF sh c2])
  have "block_ok (length (cs_buffer ?st2)) (cs_tables ?st2) (curBlockDepth ?st2) ?b"
    using b(2) len by (auto simp: block_ok_def slot_def bufferLen_def)
  then have "cinv (setBlock (curBlockDepth st3) ?b st3) n"
    using set_inv [OF c3, of "curBlockDepth st3" ?b] d sh by (simp add: same_shape_def)
  moreover have "compile_else code ins st = Inr (setBlock (curBlockDepth st3) ?b st3)"
    using assms(2,3) b(1) p by (simp add: compile_else_def idx_def Let_def)
  ultimately show ?thesis by blast
qed

lemma end_offset_ok:
  assumes "block_ok (length (cs_buffer st)) (cs_tables st) d b"
  shows "\<exists>off st'. end_offset b st = Inr (off, st') \<and> same_shape st st'"
proof (cases "\<not> cb_loopBlock b \<and> cb_ifBlock b")
  case True
  then have "slot (length (cs_buffer st)) (cb_elseAddrOffset b)" using assms by (simp add: block_ok_def)
  from patch_slot [OF this, of "bufferLen st"] True show ?thesis by (auto simp: end_offset_def)
next
  case False
  then show ?thesis by (auto simp: end_offset_def same_shape_def)
qed

lemma compile_end_ok:
  assumes "cinv st (Suc n)" "NewStack ins = Some s"
  shows "\<exists>st'. compile_end ins st = Inr st' \<and> cinv st' n"
proof -
  let ?st = "emit_discard s st" and ?d = "int n"
  have c: "cinv ?st (Suc n)" and cur: "curBlockDepth st = ?d"
    using assms(1) emit_discard_inv by (blast, simp add: cinv_def)
  obtain b where b: "blockOf ?d ?st = Inr b" "block_ok (length (cs_buffer ?st)) (cs_tables ?st) ?d b"
    by (rule cinv_block [OF c, of ?d]) auto
  from end_offset_ok [OF b(2)] obtain off st1 where
    1: "end_offset b ?st = Inr (off, st1)" "same_shape ?st st1" by blast
  have "\<forall>o1 \<in> set (cb_patchOffsets b). slot (length (cs_buffer st1)) o1"
    using b(2) 1(2) by (simp add: block_ok_def same_shape_def)
  from patch_all_slots [OF this, of off] obtain st2 where
    2: "patch_all (cb_patchOffsets b) off st1 = Inr st2" "same_shape st1 st2" by blast
  have "\<forall>k \<in> set (cb_branchTables b). k < length (cs_tables st2) \<and> ?d + 1 \<le> BlocksLen (cs_tables st2 ! k)"
    using b(2) 1(2) 2(2) by (simp add: block_ok_def same_shape_def)
  from patch_tables_ok [OF this, of off] obtain ts where
    3: "patch_tables (cb_branchTables b) ?d off st2 = Inr (st2\<lparr>cs_tables := ts\<rparr>)"
    and ts: "map BlocksLen ts = map BlocksLen (cs_tables st2)" by blast
  have c2: "cinv st2 (Suc n)" using c 1(2) 2(2) same_shape_inv by blast
  then have "cinv (st2\<lparr>cs_tables := ts\<rparr>) (Suc n)" using block_ok_tables [OF _ ts] by (simp add: cinv_def)
  note c3 = close_inv [OF this]
  have "compile_end ins st = Inr (st2\<lparr>cs_tables := ts, cs_blocks := AList.delete ?d (cs_blocks st2),
    curBlockDepth := ?d - 1\<rparr>)"
    using assms(2) b(1) 1(1) 2(1) 3 cur by (simp add: compile_end_def newStackOf_def Let_def)
  with c3 show ?thesis by simp
qed

lemma addPatch_ok:
  assumes "cinv st n" "unat label \<le> n" "slot (length (cs_buffer st)) off"
  shows "\<exists>st'. addPatch (int n - 1 - uint label) off st = Inr st' \<and> cinv st' n \<and>
    length (cs_buffer st') = length (cs_buffer st)"
proof -
  let ?d = "int n - 1 - uint label"
  have d: "- 1 \<le> ?d" "?d < int n" 
    using assms(2) uint_ge_0 [of label] unfolding unat_eq_nat_uint nat_le_iff by linarith+
  obtain b where b: "blockOf ?d st = Inr b" "block_ok (length (cs_buffer st)) (cs_tables st) ?d b"
    by (rule cinv_block [OF assms(1) d])
  let ?b = "b\<lparr>cb_patchOffsets := cb_patchOffsets b @ [off]\<rparr>"
  have "block_ok (length (cs_buffer st)) (cs_tables st) ?d ?b"
    using b(2) assms(3) by (simp add: block_ok_def)
  from set_inv [OF assms(1) d this] show ?thesis
    using b(1) by (simp add: addPatch_def setBlock_def)
qed

text \<open>The address is noted before it is written: both orders give the same state.\<close>

lemma addPatch_emit:
  "addPatch d off (emit bs st) = bindE (addPatch d off st) (\<lambda>st. Inr (emit bs st))"
  by (cases "map_of (cs_blocks st) d") (simp_all add: addPatch_def blockOf_def emit_def setBlock_def)

lemma jump_ok:
  assumes "cinv st n" "unat label \<le> n"
  shows "\<exists>st'. addPatch (curBlockDepth st - uint label) (bufferLen st) st = Inr st' \<and>
    cinv (emit (int64_bytes 0) st') n"
proof -
  let ?st = "emit (int64_bytes 0) st"
  have "slot (length (cs_buffer ?st)) (bufferLen st)" by (simp add: slot_def emit_def bufferLen_def)
  from addPatch_ok [OF emit_inv [OF assms(1)] assms(2) this]
  obtain st' where a: "addPatch (int n - 1 - uint label) (bufferLen st) ?st = Inr st'" and c: "cinv st' n"
    by blast
  from a obtain st1 where "addPatch (int n - 1 - uint label) (bufferLen st) st = Inr st1"
    "st' = emit (int64_bytes 0) st1" unfolding addPatch_emit by (rule bindE_InrE) simp
  moreover have "curBlockDepth st = int n - 1" using assms(1) by (simp add: cinv_def)
  ultimately show ?thesis using c by simp
qed

lemma compile_br_ok:
  assumes "cinv st n" "label_below ins n"
  shows "\<exists>st'. compile_br ins st = Inr st' \<and> cinv st' n"
proof -
  obtain l where l: "imm_u32 ins 0 = Inr l" "unat l \<le> n"
    using assms(2) by (auto simp: label_below_def imm_u32_def)
  have "cinv (emit [OpJmp] (emit_discard_opt (NewStack ins) st)) n"
    using assms(1) by (intro emit_inv emit_discard_opt_inv)
  from jump_ok [OF this l(2)] l(1) show ?thesis by (auto simp: compile_br_def Let_def)
qed

lemma compile_brif_ok:
  assumes "cinv st n" "label_below ins n"
  shows "\<exists>st'. compile_brif ins st = Inr st' \<and> cinv st' n"
proof -
  obtain l where l: "imm_u32 ins 0 = Inr l" "unat l \<le> n"
    using assms(2) by (auto simp: label_below_def imm_u32_def)
  from jump_ok [OF emit_inv [OF assms(1), of "[OpJmpNz]"] l(2)] obtain st1 where
    a: "addPatch (curBlockDepth (emit [OpJmpNz] st) - uint l) (bufferLen (emit [OpJmpNz] st))
      (emit [OpJmpNz] st) = Inr st1" and c: "cinv (emit (int64_bytes 0) st1) n" by blast
  have "\<exists>p k. compile_brif ins st = Inr (emit (p # int64_bytes k) (emit (int64_bytes 0) st1))"
    using a l(1) unfolding compile_brif_def Let_def
    by (cases "NewStack ins") (auto simp: emit_def Let_def)
  with emit_inv [OF c] show ?thesis by auto
qed

lemma branch_targets_ok:
  assumes "\<forall>i \<in> {k + 1..k + m}. has_u32 ins i" "k + m \<le> length (Branches ins)"
  shows "\<exists>ts. branch_targets ins k m = Inr ts"
  using assms
proof (induction m arbitrary: k)
  case (Suc m)
  have "has_u32 ins (k + 1)" using Suc.prems(1) by simp
  then obtain l where "imm_u32 ins (k + 1) = Inr l" by (auto simp: has_u32_def imm_u32_def)
  moreover have "\<exists>ts. branch_targets ins (k + 1) m = Inr ts" using Suc.prems by (intro Suc.IH) auto
  ultimately show ?case using Suc.prems(2) by (auto simp: branch_target_def idx_def)
qed simp

lemma compile_brtable_ok:
  assumes "cinv st n" "table_ok ins"
  shows "\<exists>st'. compile_brtable ins st = Inr st' \<and> cinv st' n"
proof -
  obtain m where m: "imm_u32 ins 0 = Inr m" "unat m < length (Branches ins)"
    "\<forall>k \<in> {1..unat m}. has_u32 ins k" "has_u32 ins (length (Immediates ins) - 1)"
    using assms(2) by (auto simp: table_ok_def imm_u32_def)
  obtain l where l: "imm_u32 ins (length (Immediates ins) - 1) = Inr l"
    using m(4) by (auto simp: has_u32_def imm_u32_def)
  obtain ts where ts: "branch_targets ins 0 (unat m) = Inr ts"
    using branch_targets_ok [of 0 "unat m" ins] m by auto
  obtain d where d: "branch_target ins (unat m) l = Inr d"
    using m(2) by (auto simp: branch_target_def idx_def)
  let ?t = "\<lparr>Targets = ts, DefaultTarget = d, PatchedAddrs = [], BlocksLen = int (length (cs_blocks st)) - 1\<rparr>"
  let ?k = "length (cs_tables st)"
  let ?f = "\<lambda>b. b\<lparr>cb_branchTables := cb_branchTables b @ [?k]\<rparr>"
  let ?st = "st\<lparr>cs_tables := cs_tables st @ [?t], cs_blocks := map (\<lambda>(d, b). (d, ?f b)) (cs_blocks st)\<rparr>"
  have keys: "map fst (cs_blocks st) = ckeys n" using assms(1) by (simp add: cinv_def)
  then have len: "length (cs_blocks st) = Suc n" by (metis ckeys_def diff_zero length_map length_upt)
  have "block_ok (length (cs_buffer st)) (cs_tables st @ [?t]) dd (?f b)"
    if "map_of (cs_blocks st) dd = Some b" for dd b
  proof -
    have "dd \<in> set (ckeys n)" using that keys by (metis map_of_eq_None_iff list.set_map option.distinct(1))
    then have "dd + 1 \<le> BlocksLen ?t" using len by (simp add: set_ckeys)
    moreover have "block_ok (length (cs_buffer st)) (cs_tables st) dd b"
      using assms(1) that by (simp add: cinv_def)
    ultimately show ?thesis unfolding block_ok_def by (force simp: nth_append)
  qed
  moreover have "map_of (cs_blocks ?st) dd = map_option ?f (map_of (cs_blocks st) dd)" for dd
    by (simp add: map_of_map)
  moreover have "map fst (cs_blocks ?st) = ckeys n" using keys by (simp add: comp_def case_prod_unfold)
  ultimately have "cinv ?st n" using assms(1) unfolding cinv_def by auto
  moreover have "compile_brtable ins st = Inr (emit (BrTable # int64_bytes (int ?k)) ?st)"
    using m(1) l ts d by (simp add: compile_brtable_def Let_def)
  ultimately show ?thesis using emit_inv by blast
qed

lemma compile_instr_ok:
  assumes "cinv st n" "nest_step (length code) ins n = Some n'" "block_closed ins"
  shows "\<exists>st'. compile_instr code ins st = Inr st' \<and> cinv st' n'"
proof (cases "i_Unreachable ins")
  case True
  then show ?thesis using assms by (simp add: nest_step_def compile_instr_def Let_def)
next
  case False
  let ?op = "op_Code (i_Op ins)"
  consider (mem) "?op \<in> set memory_ops" | (if1) "?op = Operators.If" | (loop) "?op = Loop" | (block) "?op = Block"
    | (else1) "?op = Else" | (end1) "?op = End" | (br) "?op = Br" | (brif) "?op = BrIf" | (table) "?op = BrTable"
    | (plain) "?op \<notin> set memory_ops \<union> {Operators.If, Loop, Block, Else, End, Br, BrIf, BrTable}" by blast
  then show ?thesis
  proof cases
    case mem
    then show ?thesis using assms(1,2) False emit_inv [OF assms(1)]
      by (auto simp: nest_step_def compile_instr_def has_u32_def imm_u32_def emit_instr_def Let_def split: if_splits)
  next
    case if1
    with assms(2) False have "n' = Suc n" by (simp add: nest_step_def memory_ops_def)
    with compile_if_ok [OF assms(1)] if1 False show ?thesis by (simp add: compile_instr_def memory_ops_def)
  next
    case loop
    with assms(2,3) False obtain s where "n' = Suc n" "NewStack ins = Some s"
      by (auto simp: nest_step_def memory_ops_def block_closed_def)
    with compile_loop_block_ok(1) [OF assms(1)] loop False show ?thesis
      by (simp add: compile_instr_def memory_ops_def)
  next
    case block
    with assms(2,3) False obtain s where "n' = Suc n" "NewStack ins = Some s"
      by (auto simp: nest_step_def memory_ops_def block_closed_def)
    with compile_loop_block_ok(2) [OF assms(1)] block False show ?thesis
      by (simp add: compile_instr_def memory_ops_def)
  next
    case else1
    with assms(2) False obtain b where "n' = n" "i_Block ins = Some b" "ElseIfIndex b < length code"
      by (auto simp: nest_step_def memory_ops_def split: if_splits)
    with compile_else_ok [OF assms(1)] else1 False show ?thesis by (simp add: compile_instr_def memory_ops_def)
  next
    case end1
    with assms(2) False obtain s where "n = Suc n'" "NewStack ins = Some s"
      by (auto simp: nest_step_def memory_ops_def split: if_splits)
    with compile_end_ok [of st n'] assms(1) end1 False show ?thesis by (simp add: compile_instr_def memory_ops_def)
  next
    case br
    with assms(2) False have "n' = n" "label_below ins n" by (simp_all add: nest_step_def memory_ops_def split: if_splits)
    with compile_br_ok [OF assms(1)] br False show ?thesis by (simp add: compile_instr_def memory_ops_def)
  next
    case brif
    with assms(2) False have "n' = n" "label_below ins n" by (simp_all add: nest_step_def memory_ops_def split: if_splits)
    with compile_brif_ok [OF assms(1)] brif False show ?thesis by (simp add: compile_instr_def memory_ops_def)
  next
    case table
    with assms(2) False have "n' = n" "table_ok ins" by (simp_all add: nest_step_def memory_ops_def split: if_splits)
    with compile_brtable_ok [OF assms(1)] table False emit_inv show ?thesis
      by (fastforce simp: compile_instr_def memory_ops_def emit_instr_def)
  next
    case plain
    with assms(2) False have "n' = n" by (simp add: nest_step_def)
    with plain False emit_inv [OF assms(1)] show ?thesis by (simp add: compile_instr_def emit_instr_def Let_def)
  qed
qed

lemma compile_all_ok:
  assumes "cinv st n" "nest (length code) inss n = Some n'" "list_all block_closed inss"
  shows "\<exists>st'. compile_all code inss st = Inr st' \<and> cinv st' n'"
  using assms
proof (induction inss arbitrary: st n)
  case (Cons ins inss)
  then obtain n1 where 1: "nest_step (length code) ins n = Some n1" "nest (length code) inss n1 = Some n'"
    by (cases "nest_step (length code) ins n") auto
  from compile_instr_ok [OF Cons.prems(1) 1(1)] Cons.prems(3) obtain st1 where
    "compile_instr code ins st = Inr st1" "cinv st1 n1" by auto
  with Cons.IH [OF _ 1(2)] Cons.prems(3) show ?case by auto
qed simp

lemma Compile_ok:
  assumes "nest (length code) code 0 = Some n" "list_all block_closed code"
  shows "\<exists>r. Compile code = Inr r"
proof -
  have "cinv cstate_init 0"
    by (simp add: cinv_def cstate_init_def ckeys_def block_ok_def cblock_zero_def split: if_splits)
  from compile_all_ok [OF this assms] obtain st where
    st: "compile_all code code cstate_init = Inr st" "cinv st n" by blast
  have c: "cinv (emit [Nop] st) n" by (rule emit_inv [OF st(2)])
  obtain b where b: "blockOf (- 1) (emit [Nop] st) = Inr b"
    "block_ok (length (cs_buffer (emit [Nop] st))) (cs_tables (emit [Nop] st)) (- 1) b"
    by (rule cinv_block [OF c, of "- 1"]) auto
  then have "\<forall>off \<in> set (cb_patchOffsets b). slot (length (cs_buffer (emit [Nop] st))) off"
    by (simp add: block_ok_def)
  from patch_all_slots [OF this, of "bufferLen st"] b(1) st(1) show ?thesis
    by (auto simp: Compile_def Let_def)
qed

end
