(* ===== verification/CompileDisasm.thy ===== *)
theory CompileDisasm
  imports CompileSafe
begin

text \<open>
  The disassembler's output is what the compiler needs: its instructions nest, and the number of
  open reachable blocks is the number of lists of polymorphic instructions less one.
\<close>

section \<open>Nesting of longer and of updated code\<close>

lemma nest_append: "nest len (xs @ ys) n = Option.bind (nest len xs n) (nest len ys)"
proof (induction xs arbitrary: n)
  case (Cons x xs)
  then show ?case by (cases "nest_step len x n") simp_all
qed simp

lemma nest_step_else:
  "op_Code (i_Op ins) = Else \<Longrightarrow> nest_step len ins n =
    (if i_Unreachable ins \<or> pred_option (\<lambda>b. ElseIfIndex b < len) (i_Block ins) \<and> i_Block ins \<noteq> None
     then Some n else None)"
  by (simp add: nest_step_def memory_ops_def)

lemma nest_step_end:
  "op_Code (i_Op ins) = End \<Longrightarrow> nest_step len ins n =
    (if i_Unreachable ins then Some n else if NewStack ins \<noteq> None \<and> 0 < n then Some (n - 1) else None)"
  by (simp add: nest_step_def memory_ops_def)

lemma nest_step_mono:
  assumes "nest_step len ins n = Some n'" "len \<le> len'"
  shows "nest_step len' ins n = Some n'"
proof (cases "op_Code (i_Op ins) = Else")
  case True
  then show ?thesis using assms by (auto simp: nest_step_else pred_option_def split: if_splits)
next
  case False
  then have "nest_step len' ins n = nest_step len ins n" by (simp add: nest_step_def Let_def)
  with assms(1) show ?thesis by simp
qed

lemma nest_mono: "nest len xs n = Some n' \<Longrightarrow> len \<le> len' \<Longrightarrow> nest len' xs n = Some n'"
proof (induction xs arbitrary: n)
  case (Cons x xs)
  then obtain n1 where "nest_step len x n = Some n1" "nest len xs n1 = Some n'"
    by (cases "nest_step len x n") auto
  with nest_step_mono [of len x n n1 len'] Cons.IH Cons.prems(2) show ?case by simp
qed simp

lemma nest_step_update:
  assumes "nest_step len ins n = Some n'" "i_Block ins = Some b" "ElseIfIndex b' = ElseIfIndex b"
  shows "nest_step len (ins\<lparr>i_Block := Some b', NewStack := Some ns\<rparr>) n = Some n'"
proof -
  let ?ins = "ins\<lparr>i_Block := Some b', NewStack := Some ns\<rparr>"
  consider (e) "op_Code (i_Op ins) = Else" | (n) "op_Code (i_Op ins) = End"
    | (o) "op_Code (i_Op ins) \<noteq> Else" "op_Code (i_Op ins) \<noteq> End" by blast
  then show ?thesis
  proof cases
    case e
    then show ?thesis using assms by (simp add: nest_step_else split: if_splits)
  next
    case n
    then show ?thesis using assms by (simp add: nest_step_end split: if_splits)
  next
    case o
    have "has_u32 ?ins = has_u32 ins" "label_below ?ins = label_below ins" "table_ok ?ins = table_ok ins"
      by (simp_all add: fun_eq_iff has_u32_def label_below_def table_ok_def immediate_at_def)
    with o have "nest_step len ?ins n = nest_step len ins n" by (simp add: nest_step_def Let_def)
    with assms(1) show ?thesis by simp
  qed
qed

lemma nest_update:
  assumes "nest len xs n = Some n'" "k < length xs" "i_Block (xs ! k) = Some b" "ElseIfIndex b' = ElseIfIndex b"
  shows "nest len (xs[k := (xs ! k)\<lparr>i_Block := Some b', NewStack := Some ns\<rparr>]) n = Some n'"
  using assms
proof (induction xs arbitrary: n k)
  case (Cons x xs)
  from Cons.prems(1) obtain n1 where n1: "nest_step len x n = Some n1" "nest len xs n1 = Some n'"
    by (cases "nest_step len x n") auto
  show ?case
  proof (cases k)
    case 0
    with nest_step_update [OF n1(1)] n1(2) Cons.prems show ?thesis by simp
  next
    case (Suc j)
    with Cons.IH [OF n1(2)] n1(1) Cons.prems show ?thesis by simp
  qed
qed simp

section \<open>Immediates\<close>

lemma branchInfo_label:
  assumes "branchInfo d st = Inr info"
  shows "unat d \<le> Len (blockIndices st)"
proof (cases "unat d = Len (blockIndices st)")
  case False
  with assms obtain index where "Get (blockIndices st) (int (Len (blockIndices st)) - 1 - uint d) = Inr index"
    by (auto simp: branchInfo_def Let_def elim!: bindE_InrE split: if_splits)
  then have "uint d \<le> int (Len (blockIndices st))" by (simp add: Get_def Len_def split: if_splits)
  then show ?thesis unfolding unat_eq_nat_uint nat_le_iff .
qed simp

lemma disasm_targets_shape:
  assumes "disasm_targets k ins st r = Inr (ins', r')"
  shows "i_Unreachable ins' = i_Unreachable ins \<and> length (Branches ins') = length (Branches ins) + k \<and>
    (\<exists>vs. length vs = k \<and> Immediates ins' = Immediates ins @ map ImmU32 vs)"
  using assms
proof (induction k ins st r rule: disasm_targets.induct)
  case (2 k ins st r)
  from "2.prems" obtain entry r1 info where e: "ReadVarUint32 r = Inr (entry, r1)"
    and i: "branchInfo entry st = Inr info"
    and t: "disasm_targets k ((add_imm (ImmU32 entry) ins)\<lparr>Branches := Branches ins @ [info]\<rparr>) st r1 = Inr (ins', r')"
    by (auto elim!: bindE_InrE)
  from "2.IH" [OF _ refl i t] e obtain vs where
    "i_Unreachable ins' = i_Unreachable ins" "length (Branches ins') = length (Branches ins) + Suc k"
    "length vs = k" "Immediates ins' = Immediates ins @ ImmU32 entry # map ImmU32 vs"
    by (auto simp: add_imm_def)
  then show ?case by (intro conjI exI [of _ "entry # vs"]) simp_all
qed simp

lemma disasm_brtable_ok:
  assumes "disasm_brtable ins st r = Inr (ins', st', r')" "Immediates ins = []" "Branches ins = []"
  shows "table_ok ins' \<and> i_Unreachable ins' = i_Unreachable ins"
proof -
  from assms(1) obtain st1 r1 m i1 r2 where
    a: "disasm_targets (unat m) (add_imm (ImmU32 m) ins) st1 r1 = Inr (i1, r2)"
    and b: "disasm_targets 1 i1 st1 r2 = Inr (ins', r')"
    unfolding disasm_brtable_def by (auto elim!: bindE_InrE)
  from disasm_targets_shape [OF a] assms(2,3) obtain vs where
    1: "length (Branches i1) = unat m" "length vs = unat m" "Immediates i1 = ImmU32 m # map ImmU32 vs"
    "i_Unreachable i1 = i_Unreachable ins" by (auto simp: add_imm_def)
  from disasm_targets_shape [OF b] 1 obtain v where
    2: "length (Branches ins') = Suc (unat m)" "Immediates ins' = ImmU32 m # map ImmU32 (vs @ [v])"
    "i_Unreachable ins' = i_Unreachable ins" by (auto simp: length_Suc_conv)
  have "has_u32 ins' k" if "k \<le> Suc (unat m)" for k
  proof -
    have "\<exists>w. Immediates ins' ! k = ImmU32 w \<and> k < length (Immediates ins')"
      using that 2(2) 1(2) by (cases k) (auto simp del: map_append)
    then show ?thesis by (auto simp: has_u32_def immediate_at_def idx_def)
  qed
  with 1 2 show ?thesis by (auto simp: table_ok_def immediate_at_def idx_def)
qed

section \<open>Steps\<close>

lemma disasm_op_nest:
  assumes "disasm_op fn m (new_instr op u) st r = Inr (ins', st', r')"
    and "op_Code op \<notin> {End, Else, Block, Loop, Operators.If}" "\<not> u \<Longrightarrow> n = Len (blockIndices st)"
  shows "nest_step len ins' n = Some n"
proof -
  let ?op = "op_Code op" and ?ins = "new_instr op u"
  have op': "i_Op ins' = op"
    using disasm_op_blocks [OF assms(1)] assms(2) by (simp add: new_instr_def)
  consider (br) "?op = Br \<or> ?op = BrIf" | (table) "?op = BrTable" | (mem) "?op \<in> set memory_ops"
    | (plain) "?op \<notin> set memory_ops \<union> {Br, BrIf, BrTable}" by blast
  then show ?thesis
  proof cases
    case br
    then have "disasm_br ?ins st r = Inr (ins', st', r')"
      using assms(1) by (auto simp: disasm_op_def new_instr_def)
    then obtain d info where "branchInfo d st = Inr info" "Immediates ins' = [ImmU32 d]" "i_Unreachable ins' = u"
      by (auto simp: disasm_br_def new_instr_def add_imm_def Let_def elim!: bindE_InrE)
    with branchInfo_label assms(3) have "u \<or> label_below ins' n" "i_Unreachable ins' = u"
      by (auto simp: label_below_def immediate_at_def idx_def)
    with br op' show ?thesis by (auto simp: nest_step_def memory_ops_def)
  next
    case table
    then have "disasm_brtable ?ins st r = Inr (ins', st', r')"
      using assms(1) by (simp add: disasm_op_def new_instr_def)
    from disasm_brtable_ok [OF this] table op' show ?thesis
      by (simp add: nest_step_def memory_ops_def new_instr_def)
  next
    case mem
    then have "disasm_memory ?ins st r = Inr (ins', st', r')"
      using assms(1) by (auto simp: disasm_op_def new_instr_def memory_ops_def)
    then have "has_u32 ins' 1"
      by (auto simp: disasm_memory_def new_instr_def add_imm_def has_u32_def immediate_at_def idx_def
          elim!: bindE_InrE)
    with mem op' show ?thesis by (simp add: nest_step_def Let_def)
  next
    case plain
    with op' assms(2) show ?thesis by (simp add: nest_step_def Let_def)
  qed
qed

definition marks_ok :: "dstate \<Rightarrow> bool" where
  "marks_ok st \<longleftrightarrow> (let ps = blockPolymorphicOps st; ks = slice (blockIndices st); code = d_Code (disas st)
     in ps \<noteq> [] \<and> nest (length code) code 0 = Some (length ps - 1) \<and> length ps \<le> Suc (length ks) \<and>
        (last ps = [] \<longrightarrow> length ps = Suc (length ks)))"

lemma marks_ok_init: "marks_ok dstate_init"
  by (simp add: marks_ok_def dstate_init_def)

lemma marks_ok_same:
  assumes "same_blocks st st'" "marks_ok st"
  shows "marks_ok st'"
proof -
  have "blockPolymorphicOps st' \<noteq> []"
    using assms by (auto simp: same_blocks_def marks_ok_def Let_def)
  with assms show ?thesis by (auto simp: same_blocks_def marks_ok_def Let_def)
qed

text \<open>After one more instruction.\<close>

lemma marks_ok_snoc:
  assumes "nest (length (d_Code (disas st))) (d_Code (disas st)) 0 = Some n"
    and "nest_step (Suc (length (d_Code (disas st)))) ins n = Some (length (blockPolymorphicOps st) - 1)"
    and "blockPolymorphicOps st \<noteq> []" "length (blockPolymorphicOps st) \<le> Suc (length (slice (blockIndices st)))"
    and "last (blockPolymorphicOps st) = [] \<Longrightarrow> length (blockPolymorphicOps st) = Suc (length (slice (blockIndices st)))"
  shows "marks_ok (st\<lparr>lastOpReturn := b, disas := (disas st)\<lparr>d_Code := d_Code (disas st) @ [ins]\<rparr>, curIndex := k\<rparr>)"
  using assms nest_mono [OF assms(1), of "Suc (length (d_Code (disas st)))"]
  by (simp add: marks_ok_def Let_def nest_append)

lemma disasm_block_marks:
  assumes "disasm_block ins st r = Inr (ins', st', r')"
  shows "d_Code (disas st') = d_Code (disas st) \<and> i_Op ins' = i_Op ins \<and> i_Unreachable ins' = i_Unreachable ins \<and>
    length (slice (blockIndices st')) = Suc (length (slice (blockIndices st))) \<and>
    blockPolymorphicOps st' = (if i_Unreachable ins then blockPolymorphicOps st else blockPolymorphicOps st @ [[]])"
  using assms by (auto simp: disasm_block_def Let_def add_imm_def Push_def elim!: bindE_InrE)

lemma New_code: "New c = Inr op \<Longrightarrow> op_Code op = c"
  by (auto simp: New_def ops_eq dest!: map_of_SomeD split: option.splits if_splits)

lemma disasm_step_marks:
  assumes "disasm_step fn m c st r = Inr (st', r')" "marks_ok st"
  shows "marks_ok st'"
proof -
  from assms(1) obtain u op st1 st2 ins where n: "New c = Inr op" and u: "isUnreachable c st = Inr u"
    and f: "(if \<not> op_Polymorphic op \<and> \<not> u then fixedEffect op st else Inr st) = Inr st1"
    and o: "disasm_op fn m (new_instr op u) st1 r = Inr (ins, st2, r')"
    and st': "st' = st2\<lparr>lastOpReturn := (if c \<noteq> Return then False else lastOpReturn st2),
       disas := (disas st2)\<lparr>d_Code := d_Code (disas st2) @ [ins]\<rparr>, curIndex := curIndex st2 + 1\<rparr>"
    by (rule disasm_step_cases)
  note c = New_code [OF n]
  let ?ps = "blockPolymorphicOps st1" and ?ks = "slice (blockIndices st1)" and ?code = "d_Code (disas st1)"
  have same: "same_blocks st st1" using f by (auto dest: fixedEffect_blocks split: if_splits)
  from marks_ok_same [OF same assms(2)] have ok: "?ps \<noteq> []" "nest (length ?code) ?code 0 = Some (length ?ps - 1)"
    "length ?ps \<le> Suc (length ?ks)" "last ?ps = [] \<Longrightarrow> length ?ps = Suc (length ?ks)"
    by (simp_all add: marks_ok_def Let_def)
  have e: "length ?ps = Suc (length ?ks)" if "last (blockPolymorphicOps st) = []"
    using that same assms(2) by (simp add: marks_ok_def same_blocks_def Let_def)
  have l: "last ?ps = [] \<Longrightarrow> last (blockPolymorphicOps st) = []" using same by (simp add: same_blocks_def)
  have "(int (length ?ks) \<noteq> int (length ?ps) - 1) = (length ?ps \<noteq> Suc (length ?ks))" by linarith
  then have u1: "u \<longleftrightarrow> (if c = End \<or> c = Else then length ?ps \<noteq> Suc (length ?ks)
      else last (blockPolymorphicOps st) \<noteq> [])"
    using u same by (auto simp: isUnreachable_def isInstrReachable_def same_blocks_def Len_def split: if_splits)
  consider (plain) "c \<notin> {End, Else, Block, Loop, Operators.If}" | (block) "c \<in> {Block, Loop, Operators.If}"
    | (close) "c = End \<or> c = Else" by blast
  then show ?thesis
  proof cases
    case plain
    then have s2: "same_blocks st1 st2" using disasm_op_blocks [OF o] c by (simp add: new_instr_def)
    have "nest_step (Suc (length (d_Code (disas st2)))) ins (length ?ps - 1) = Some (length ?ps - 1)"
      using plain u1 e by (intro disasm_op_nest [OF o]) (auto simp: c Len_def)
    then show ?thesis unfolding st'
      by (intro marks_ok_snoc [where n = "length ?ps - 1"])
        (use s2 ok in \<open>auto simp: same_blocks_def\<close>)
  next
    case block
    then have "disasm_block (new_instr op u) st1 r = Inr (ins, st2, r')"
      using o c by (auto simp: disasm_op_def new_instr_def)
    note b = disasm_block_marks [OF this]
    have "nest_step (Suc (length ?code)) ins (length ?ps - 1) =
        Some (length (blockPolymorphicOps st2) - 1)"
      using b block c ok(1) by (auto simp: nest_step_def memory_ops_def new_instr_def)
    then show ?thesis unfolding st'
      by (intro marks_ok_snoc [where n = "length ?ps - 1"]) (use b ok e l u1 block in \<open>auto simp: new_instr_def\<close>)
  next
    case close
    then have "disasm_end (new_instr op u) st1 r = Inr (ins, st2, r')"
      using o c by (auto simp: disasm_op_def new_instr_def)
    then show ?thesis
    proof (rule disasm_end_closes)
      fix start :: u64 and b ns b' bs
      let ?j = "unat start" and ?x = "(?code ! unat start)\<lparr>i_Block := Some b', NewStack := Some ns\<rparr>"
      assume sl: "?ks = bs @ [start]" and j: "?j < length ?code" "i_Block (?code ! ?j) = Some b"
        and b': "ElseIfIndex b' = ElseIfIndex b"
        and ins: "ins = (new_instr op u)\<lparr>i_Block := Some (blockEndInfo (op_Code (i_Op (new_instr op u)) = Else)
            start (Signature b)), NewStack := Some ns\<rparr>"
        and st2: "d_Code (disas st2) = ?code[?j := ?x]"
          "slice (blockIndices st2) = bs @ (if op_Code (i_Op (new_instr op u)) = Else then [of_nat (curIndex st1)] else [])"
          "blockPolymorphicOps st2 = (if i_Unreachable (new_instr op u) then ?ps
             else butlast ?ps @ (if op_Code (i_Op (new_instr op u)) = Else then [[]] else []))"
      note st2 = st2 [unfolded new_instr_def Instr.simps c] and ins = ins [unfolded new_instr_def Instr.simps c]
      have nest: "nest (length (d_Code (disas st2))) (d_Code (disas st2)) 0 = Some (length ?ps - 1)"
        using nest_update [OF ok(2) j b'] st2(1) by simp
      have u: "u \<longleftrightarrow> length ?ps \<noteq> Suc (Suc (length bs))" using u1 close sl by auto
      have le: "length ?ps \<le> Suc (Suc (length bs))" "last ?ps = [] \<Longrightarrow> length ?ps = Suc (Suc (length bs))"
        using ok(3,4) sl by simp_all
      have ne: "blockPolymorphicOps st2 \<noteq> []"
        using st2(3) ok(1) u by (auto simp: length_Suc_conv butlast_conv_take split: if_splits)
      show ?thesis unfolding st'
      proof (rule marks_ok_snoc [OF nest _ ne])
        show "nest_step (Suc (length (d_Code (disas st2)))) ins (length ?ps - 1) =
          Some (length (blockPolymorphicOps st2) - 1)"
        proof (cases "c = Else")
          case True
          then show ?thesis using ins c st2(3) j(1) st2(1) ok(1)
            by (subst nest_step_else) (auto simp: blockEndInfo_def)
        next
          case False
          then have "c = End" using close by simp
          then show ?thesis using ins c st2(3) u
            by (subst nest_step_end) auto
        qed
        show "length (blockPolymorphicOps st2) \<le> Suc (length (slice (blockIndices st2)))"
          using st2 le u by auto
        show "length (blockPolymorphicOps st2) = Suc (length (slice (blockIndices st2)))"
          if "last (blockPolymorphicOps st2) = []"
          using that st2 le u by (auto split: if_splits)
      qed
    qed
  qed
qed

section \<open>Disassembling and compiling\<close>

lemma Disassemble_loop_marks:
  "Disassemble_loop fn m st r = Inr d \<Longrightarrow> marks_ok st \<Longrightarrow>
   \<exists>n. nest (length (d_Code d)) (d_Code d) 0 = Some n"
proof (induction fn m st r rule: Disassemble_loop.induct)
  case (1 fn m st)
  then show ?case by (auto simp: marks_ok_def Let_def)
next
  case (2 fn m st c r)
  from "2.prems"(1) obtain st1 r1 where s: "disasm_step fn m c st r = Inr (st1, r1)"
    and l: "Disassemble_loop fn m st1 r1 = Inr d" by (auto elim!: bindE_InrE)
  show ?case by (rule "2.IH" [OF s refl l disasm_step_marks [OF s "2.prems"(2)]])
qed

lemma compile_instr_closed: "compile_instr code ins st = Inr st' \<Longrightarrow> block_closed ins"
  by (auto simp: block_closed_def compile_instr_def compile_block_def compile_loop_def newStackOf_def
      memory_ops_def split: if_splits)

lemma compile_all_closed: "compile_all code inss st = Inr st' \<Longrightarrow> list_all block_closed inss"
  by (induction inss arbitrary: st) (auto elim!: bindE_InrE dest: compile_instr_closed)

lemma blocks_closed:
  assumes "blocks_ok code os"
  shows "list_all block_closed code \<longleftrightarrow>
    (\<forall>j < length code. \<not> i_Unreachable (code ! j) \<and> op_Code (i_Op (code ! j)) \<in> {Block, Loop} \<longrightarrow>
      (\<exists>k < length code. op_Code (i_Op (code ! k)) \<in> {End, Else} \<and> linked code j k))"
proof -
  have "linked code j k \<Longrightarrow> NewStack (code ! j) \<noteq> None" for j k by (simp add: linked_def)
  moreover have "starts_ok code" using assms by (simp add: blocks_ok_def)
  ultimately have "NewStack (code ! j) \<noteq> None \<longleftrightarrow> (\<exists>k < length code. closer (code ! k) \<and> linked code j k)"
    if "j < length code" "op_Code (i_Op (code ! j)) \<in> {Block, Loop}" for j
    using that unfolding starts_ok_def by blast
  then show ?thesis unfolding list_all_length block_closed_def closer_def by blast
qed

lemma Compile_iff_closed:
  assumes "Disassemble fn m = Inr d"
  shows "(\<exists>r. Compile (d_Code d) = Inr r) \<longleftrightarrow> list_all block_closed (d_Code d)"
proof
  assume "\<exists>r. Compile (d_Code d) = Inr r"
  then show "list_all block_closed (d_Code d)"
    by (auto simp: Compile_def elim!: bindE_InrE dest: compile_all_closed)
next
  obtain bs where "Disassemble_loop fn m dstate_init bs = Inr d"
    using assms by (auto simp: Disassemble_def split: option.splits)
  with Disassemble_loop_marks marks_ok_init obtain n where
    "nest (length (d_Code d)) (d_Code d) 0 = Some n" by blast
  then show "\<exists>r. Compile (d_Code d) = Inr r" if "list_all block_closed (d_Code d)"
    using Compile_ok that by blast
qed

text \<open>C14 Compiling what the disassembler returned panics in one case only: a reachable block or loop
  is linked with neither an \<^verbatim>\<open>end\<close> nor an \<^verbatim>\<open>else\<close>.  Whatever blocks, branches, branch tables and immediates the code has, every index the
  compiler uses is in range otherwise, and every address it patches lies inside the code.\<close>

theorem Compile_of_Disassemble:
  assumes "Disassemble fn m = Inr d" "Body fn = Some body" "length (Code body) < 2 ^ 63"
  shows "(\<exists>r. Compile (d_Code d) = Inr r) \<longleftrightarrow>
    (\<forall>j < length (d_Code d). \<not> i_Unreachable (d_Code d ! j) \<and> op_Code (i_Op (d_Code d ! j)) \<in> {Block, Loop} \<longrightarrow>
      (\<exists>k < length (d_Code d). op_Code (i_Op (d_Code d ! k)) \<in> {End, Else} \<and> linked (d_Code d) j k))"
  using Disassemble_blocks [OF assms] blocks_closed Compile_iff_closed [OF assms(1)] by blast

text \<open>A branch table in a loop compiles; a block without an end does not.\<close>

definition table_code :: "byte list \<Rightarrow> Function" where
  "table_code bs = \<lparr>Sig = None, Body = Some \<lparr>Locals = [], Code = bs\<rparr>, Host = None\<rparr>"

theorem Compile_of_Disassemble_witness:
  "(case Disassemble (table_code [0x03, 0x40, 0x02, 0x40, 0x41, 1, 0x0e, 1, 0, 1, 0x0b, 0x0b]) Module_zero of
      Inl _ \<Rightarrow> False | Inr d \<Rightarrow> \<exists>r. Compile (d_Code d) = Inr r) \<and>
   (case Disassemble (table_code [0x02, 0x40, 0x01]) Module_zero of
      Inl _ \<Rightarrow> False | Inr d \<Rightarrow> \<not> (\<exists>r. Compile (d_Code d) = Inr r))"
proof -
  have closed: "case Disassemble (table_code [0x03, 0x40, 0x02, 0x40, 0x41, 1, 0x0e, 1, 0, 1, 0x0b, 0x0b]) Module_zero of
      Inl _ \<Rightarrow> False | Inr d \<Rightarrow> list_all block_closed (d_Code d)"
    "case Disassemble (table_code [0x02, 0x40, 0x01]) Module_zero of
      Inl _ \<Rightarrow> False | Inr d \<Rightarrow> \<not> list_all block_closed (d_Code d)"
    by code_simp+
  have "(\<exists>r. Compile (d_Code d) = Inr r) \<longleftrightarrow> list_all block_closed (d_Code d)"
    if d: "Disassemble (table_code bs) Module_zero = Inr d" and n: "length bs < 100" for bs d
  proof -
    have b: "Body (table_code bs) = Some \<lparr>Locals = [], Code = bs\<rparr>" "length (Code \<lparr>Locals = [], Code = bs\<rparr>) < 2 ^ 63"
      using n by (simp_all add: table_code_def)
    obtain os where "blocks_ok (d_Code d) os" using Disassemble_blocks [OF d b] by blast
    then show ?thesis unfolding Compile_of_Disassemble [OF d b] by (rule blocks_closed [symmetric])
  qed
  with closed show ?thesis by (auto split: sum.splits)
qed

end
