(* ===== verification/VmNew.thy ===== *)
theory VmNew
  imports VmEntry CompileDisasm
begin

text \<open>
  Making a machine from a module: \<^verbatim>\<open>NewVM\<close> (\<^verbatim>\<open>wagon/exec/vm.go\<close>) and
  \<^verbatim>\<open>NewInterpreter\<close> with the process handed to contract functions
  (\<^verbatim>\<open>wagon/exec/interpreter.go\<close>).  The kinds of a host function's parameters, which
  \<^verbatim>\<open>reflect\<close> reads off the Go function, are the argument \<open>kinds\<close>.
\<close>

section \<open>NewVM\<close>

text \<open>A returned error, or the panic that leaves \<^verbatim>\<open>NewVM\<close>.\<close>

datatype new_error =
    ErrMultipleLinearMemories
  | NewDisasm disasm_error
  | NewCompile compile_panic
  | NewWasm wasm_error
  | NewExec exec_error
  | NewInitMem
  | NewPanic vm_panic

definition lift_new :: "('e \<Rightarrow> new_error) \<Rightarrow> 'e + 'a \<Rightarrow> new_error + 'a" where
  "lift_new f m = (case m of Inl e \<Rightarrow> Inl (f e) | Inr x \<Rightarrow> Inr x)"

lemma lift_new_simps [simp]: "lift_new f (Inl e) = Inl (f e)" "lift_new f (Inr x) = Inr x"
  by (simp_all add: lift_new_def)

lemma lift_new_Inr_iff [simp]: "lift_new f m = Inr x \<longleftrightarrow> m = Inr x"
  by (cases m) simp_all

text \<open>The linear memory of the module, or \<open>dflt\<close> when it declares none.\<close>

definition newMemory :: "byte list \<Rightarrow> Module \<Rightarrow> new_error + byte list" where
  "newMemory dflt m =
     (case m_Memory m of
        None \<Rightarrow> Inr dflt
      | Some sec \<Rightarrow>
          (case Entries sec of
             [] \<Rightarrow> Inr dflt
           | [entry] \<Rightarrow>
               (case LinearMemoryIndexSpace m of
                  [] \<Rightarrow> Inl (NewPanic (GoPanic IndexOutOfRange))
                | mem # _ \<Rightarrow> Inr (go_copy (replicate (unat (Initial (Limits entry)) * wasmPageSize) 0) mem))
           | _ \<Rightarrow> Inl ErrMultipleLinearMemories))"

definition totalLocalVars :: "FunctionSig \<Rightarrow> FunctionBody \<Rightarrow> nat" where
  "totalLocalVars sig body = length (ParamTypes sig) + sum_list (map (\<lambda>entry. unat (Count entry)) (Locals body))"

definition compileFunction :: "Module \<Rightarrow> Function \<Rightarrow> new_error + compiledFunction" where
  "compileFunction m fn =
     bindE (lift_new NewDisasm (Disassemble fn m)) (\<lambda>disassembly.
       case (Sig fn, Body fn) of
         (Some sig, Some body) \<Rightarrow>
           bindE (lift_new NewCompile (Compile (d_Code disassembly))) (\<lambda>(code, table).
             Inr \<lparr>cf_code = code, cf_branchTables = table, cf_maxDepth = nat (MaxDepth disassembly),
                  cf_totalLocalVars = totalLocalVars sig body, cf_args = length (ParamTypes sig),
                  cf_returns = (ReturnTypes sig \<noteq> [])\<rparr>)
       | _ \<Rightarrow> Inl (NewPanic (GoPanic NilDereference)))"

definition newFunction :: "(nat \<Rightarrow> kind list) \<Rightarrow> Module \<Rightarrow> Function \<Rightarrow> new_error + function" where
  "newFunction kinds m fn =
     (case Host fn of
        Some h \<Rightarrow> Inr (GoFunction (kinds h) h)
      | None \<Rightarrow> bindE (compileFunction m fn) (\<lambda>c. Inr (CompiledFunction c)))"

fun newFunctions :: "(Function \<Rightarrow> new_error + function) \<Rightarrow> Function list \<Rightarrow> new_error + function list" where
  "newFunctions mk [] = Inr []"
| "newFunctions mk (fn # fns) =
     bindE (mk fn) (\<lambda>f. bindE (newFunctions mk fns) (\<lambda>fs. Inr (f # fs)))"

text \<open>The stored form of an initial value; an expression without a value leaves the zero.\<close>

definition init_word :: "init_value option \<Rightarrow> u64" where
  "init_word v =
     (case v of
        None \<Rightarrow> 0
      | Some (InitI32 w) \<Rightarrow> scast w
      | Some (InitI64 w) \<Rightarrow> w
      | Some (InitF32 w) \<Rightarrow> ucast w
      | Some (InitF64 w) \<Rightarrow> w)"

fun newGlobals :: "Module \<Rightarrow> GlobalEntry list \<Rightarrow> new_error + u64 list" where
  "newGlobals m [] = Inr []"
| "newGlobals m (global # gs) =
     bindE (lift_new NewWasm (ExecInitExpr m (Init global))) (\<lambda>v.
     bindE (newGlobals m gs) (\<lambda>vs. Inr (init_word v # vs)))"

definition context_zero :: vm_context where
  "context_zero = \<lparr>c_stack = [], c_locals = [], c_code = [], c_pc = 0, c_curFunc = 0\<rparr>"

definition machine :: "Module \<Rightarrow> u64 list \<Rightarrow> byte list \<Rightarrow> function list \<Rightarrow> VM" where
  "machine m gs mem fs =
     \<lparr>ctx = context_zero, v_module = m, globals = gs, memory = mem, funcs = fs, RecoverPanic = False,
      abort = False, recursiveCallDepth = 0\<rparr>"

text \<open>The start function runs on the new machine, with \<open>n\<close> as its fuel.\<close>

definition runStart :: "nat \<Rightarrow> host_env \<Rightarrow> VM \<Rightarrow> new_error + VM" where
  "runStart n E vm =
     (case m_Start (v_module vm) of
        None \<Rightarrow> Inr vm
      | Some start \<Rightarrow>
          (case ExecCode n E (uint (Entries start)) [] vm of
             (Inl p, _) \<Rightarrow> Inl (NewPanic p)
           | (Inr (Inl e), _) \<Rightarrow> Inl (NewExec e)
           | (Inr (Inr _), vm') \<Rightarrow> Inr vm'))"

definition NewVM :: "nat \<Rightarrow> host_env \<Rightarrow> (nat \<Rightarrow> kind list) \<Rightarrow> Module \<Rightarrow> new_error + VM" where
  "NewVM n E kinds m =
     bindE (newMemory [] m) (\<lambda>mem.
     bindE (newFunctions (newFunction kinds m) (FunctionIndexSpace m)) (\<lambda>fs.
     bindE (newGlobals m (GlobalIndexSpace m)) (\<lambda>gs.
       runStart n E (machine m gs mem fs))))"

section \<open>NewInterpreter\<close>

text \<open>
  The contract memory starts as the same array as the machine's memory.  \<open>initMem\<close> is a callback:
  what it leaves in that array, and in the contract memory, is its result.
\<close>

record Interpreter =
  i_VM :: VM
  i_Memory :: WavmMemory
  heapPointerIndex :: int
  i_Mutable :: bool

type_synonym init_mem = "WavmMemory \<Rightarrow> Module \<Rightarrow> (byte list \<times> WavmMemory) option"

definition contractFunction_new :: "(nat \<Rightarrow> kind list) \<Rightarrow> nat \<Rightarrow> Function \<Rightarrow> new_error + function" where
  "contractFunction_new kinds h fn =
     (case Sig fn of
        None \<Rightarrow> Inl (NewPanic (GoPanic NilDereference))
      | Some sig \<Rightarrow> Inr (ContractFunction (length (ParamTypes sig)) (kinds h) h))"

definition precompiledFunction :: "Compiled list \<Rightarrow> nat \<Rightarrow> Function \<Rightarrow> new_error + compiledFunction" where
  "precompiledFunction compiled i fn =
     bindE (lift_new (\<lambda>e. NewPanic (GoPanic e)) (idx compiled i)) (\<lambda>c.
       case Sig fn of
         None \<Rightarrow> Inl (NewPanic (GoPanic NilDereference))
       | Some sig \<Rightarrow>
           Inr \<lparr>cf_code = cp_Code c, cf_branchTables = cp_Table c, cf_maxDepth = nat (cp_MaxDepth c),
                cf_totalLocalVars = cp_TotalLocalVars c, cf_args = length (ParamTypes sig),
                cf_returns = (ReturnTypes sig \<noteq> [])\<rparr>)"

fun interFunctions ::
  "(nat \<Rightarrow> kind list) \<Rightarrow> Compiled list \<Rightarrow> Module \<Rightarrow> nat \<Rightarrow> Function list \<Rightarrow> new_error + function list" where
  "interFunctions kinds compiled m i [] = Inr []"
| "interFunctions kinds compiled m i (fn # fns) =
     bindE (case Host fn of
              Some h \<Rightarrow> contractFunction_new kinds h fn
            | None \<Rightarrow>
                bindE (if compiled \<noteq> [] then precompiledFunction compiled i fn else compileFunction m fn)
                  (\<lambda>c. Inr (CompiledFunction c))) (\<lambda>f.
     bindE (interFunctions kinds compiled m (i + 1) fns) (\<lambda>fs. Inr (f # fs)))"

text \<open>\<^verbatim>\<open>strings.Contains\<close>.\<close>

fun contains :: "byte list \<Rightarrow> byte list \<Rightarrow> bool" where
  "contains [] sub = (sub = [])"
| "contains (c # cs) sub = (take (length sub) (c # cs) = sub \<or> contains cs sub)"

definition ascii :: "string \<Rightarrow> byte list" where
  "ascii s = map of_char s"

text \<open>
  The exports are visited in the order the map iteration takes, given as a list: the last one that
  names the heap pointer counts.
\<close>

fun findHeapPointer :: "u64 list \<Rightarrow> (byte list \<times> ExportEntry) list \<Rightarrow> int \<Rightarrow> u64 \<Rightarrow> new_error + (int \<times> u64)" where
  "findHeapPointer gs [] hp pos = Inr (hp, pos)"
| "findHeapPointer gs ((k, v) # es) hp pos =
     (if (contains k (ascii ''heap_pointer'') \<or> contains k (ascii ''__heap_base'')) \<and> Kind v = ExternalGlobal
      then bindE (lift_new (\<lambda>e. NewPanic (GoPanic e)) (idx gs (unat (Index v)))) (\<lambda>g.
             findHeapPointer gs es (uint (Index v)) g)
      else findHeapPointer gs es hp pos)"

definition NewInterpreter ::
  "nat \<Rightarrow> host_env \<Rightarrow> (nat \<Rightarrow> kind list) \<Rightarrow> (byte list \<times> ExportEntry) list \<Rightarrow> Module \<Rightarrow>
   Compiled list \<Rightarrow> init_mem \<Rightarrow> new_error + Interpreter" where
  "NewInterpreter n E kinds exports m compiled initMem =
     bindE (newMemory (replicate wasmPageSize 0) m) (\<lambda>arr.
     bindE (case initMem (NewWavmMemory\<lparr>WMemory := arr\<rparr>) m of
              None \<Rightarrow> Inl NewInitMem | Some r \<Rightarrow> Inr r) (\<lambda>(arr, wm).
     bindE (interFunctions kinds compiled m 0 (FunctionIndexSpace m)) (\<lambda>fs.
     bindE (newGlobals m (GlobalIndexSpace m)) (\<lambda>gs.
     bindE (if m_Export m = None then Inl (NewPanic (GoPanic NilDereference))
            else findHeapPointer gs exports (- 1) (Pos wm)) (\<lambda>(hp, pos).
     bindE (runStart n E (machine m gs arr fs)) (\<lambda>vm.
       Inr \<lparr>i_VM = vm, i_Memory = wm\<lparr>Pos := pos\<rparr>, heapPointerIndex = hp, i_Mutable = False\<rparr>))))))"

definition AddHeapPointer :: "Interpreter \<Rightarrow> u64 \<Rightarrow> go_error + Interpreter" where
  "AddHeapPointer it sz =
     (if heapPointerIndex it = - 1 then Inr it
      else let i = nat (heapPointerIndex it); vm = i_VM it
           in bindE (idx (globals vm) i) (\<lambda>res.
                Inr (it\<lparr>i_VM := vm\<lparr>globals := (globals vm)[i := res + sz]\<rparr>\<rparr>)))"

text \<open>The process of a contract function: its memory is the contract memory.\<close>

record WavmProcess =
  p_memory :: WavmMemory
  p_mutable :: bool

definition WavmProcess_ReadAt :: "WavmProcess \<Rightarrow> u64 \<Rightarrow> sea_panic + byte list option" where
  "WavmProcess_ReadAt proc off = WavmMemory_GetPtr (p_memory proc) off"

definition WavmProcess_WriteAt :: "WavmProcess \<Rightarrow> byte list \<Rightarrow> u64 \<Rightarrow> sea_panic + (nat \<times> WavmProcess)" where
  "WavmProcess_WriteAt proc p off =
     bindE (WavmMemory_Set (p_memory proc) off (of_nat (length p)) p) (\<lambda>m. Inr (0, proc\<lparr>p_memory := m\<rparr>))"

definition WavmProcess_SetBytes :: "WavmProcess \<Rightarrow> byte list \<Rightarrow> sea_panic + (u64 \<times> WavmProcess)" where
  "WavmProcess_SetBytes proc value =
     bindE (WavmMemory_SetBytes (p_memory proc) value) (\<lambda>(off, m). Inr (off, proc\<lparr>p_memory := m\<rparr>))"

section \<open>What NewVM promises\<close>

text \<open>A compiled function of the machine agrees with the signature of the module's function, and has
  room for its arguments.\<close>

definition function_ok :: "Function \<Rightarrow> function \<Rightarrow> bool" where
  "function_ok fn f \<longleftrightarrow>
     (case f of
        CompiledFunction c \<Rightarrow> \<not> IsHost fn \<and> (case Sig fn of None \<Rightarrow> False | Some sig \<Rightarrow>
          cf_args c = length (ParamTypes sig) \<and> cf_args c \<le> cf_totalLocalVars c \<and>
          cf_returns c = (ReturnTypes sig \<noteq> []))
      | _ \<Rightarrow> IsHost fn)"

definition machine_ok :: "VM \<Rightarrow> bool" where
  "machine_ok vm \<longleftrightarrow> list_all2 function_ok (FunctionIndexSpace (v_module vm)) (funcs vm) \<and>
     length (globals vm) = length (GlobalIndexSpace (v_module vm))"

lemma newFunction_ok: "newFunction kinds m fn = Inr f \<Longrightarrow> function_ok fn f"
  by (auto simp: newFunction_def function_ok_def IsHost_def compileFunction_def totalLocalVars_def
      elim!: bindE_InrE split: option.splits)

lemma newFunctions_ok:
  "newFunctions (newFunction kinds m) fns = Inr fs \<Longrightarrow> list_all2 function_ok fns fs"
  by (induction fns arbitrary: fs) (auto elim!: bindE_InrE dest: newFunction_ok)

lemma newGlobals_length: "newGlobals m gs = Inr vs \<Longrightarrow> length vs = length gs"
  by (induction gs arbitrary: vs) (auto elim!: bindE_InrE)

lemma machine_ok_program: "same_program s t \<Longrightarrow> machine_ok s \<Longrightarrow> machine_ok t"
  by (simp add: same_program_def machine_ok_def)

lemma recovering_keeps: "keeps Q m \<Longrightarrow> keeps Q (recovering m)"
  by (auto simp: keeps_def recovering_def split: prod.split sum.split) (metis snd_conv)+

context vm_frame
begin

lemma keeps_entry:
  "keeps Q (functionSig k)" "keeps Q (compiledAt k)" "keeps Q (enter c k)" "keeps Q (storeArgs args)"
proof -
  have "keeps Q (case f of CompiledFunction c \<Rightarrow> ret c | _ \<Rightarrow> panic (NotCompiledFunction k))" for f
    by (cases f) (simp_all add: keeps_intros)
  then show "keeps Q (compiledAt k)" unfolding compiledAt_def by (intro keeps_intros) simp_all
  show "keeps Q (functionSig k)" "keeps Q (enter c k)" "keeps Q (storeArgs args)"
    unfolding functionSig_def enter_def storeArgs_def
    by (intro keeps_intros; simp add: keeps_intros split: option.split)+
qed

lemma keeps_ExecCode:
  assumes "host_keeps Q E"
  shows "keeps Q (ExecCode n E i args)" "keeps Q (ExecContractCode n E i args)"
proof -
  have b: "keeps Q (execBody n E i args)"
    unfolding execBody_def by (intro keeps_intros keeps_entry keeps_execCode [OF assms])
  have r: "keeps Q (execReturn i x)" for x
    unfolding execReturn_def
    by (cases x) (auto simp: keeps_intros intro!: keeps_intros keeps_entry split: list.split)
  show "keeps Q (ExecCode n E i args)"
    unfolding ExecCode_def by (intro recovering_keeps keeps_bindV b r)
  show "keeps Q (ExecContractCode n E i args)"
    unfolding ExecContractCode_def by (intro recovering_keeps keeps_intros b)
qed

end

lemma runStart_ok:
  assumes "host_keeps same_program E" "runStart n E vm = Inr vm'"
  shows "same_program vm vm'"
proof (cases "m_Start (v_module vm)")
  case None
  then show ?thesis using assms(2) program.Q_refl by (simp add: runStart_def)
next
  case (Some start)
  then have "vm' = snd (ExecCode n E (uint (Entries start)) [] vm)"
    using assms(2) by (auto simp: runStart_def split: prod.splits sum.splits)
  then show ?thesis using program.keeps_ExecCode(1) [OF assms(1)] by (simp add: keeps_def)
qed

lemma NewVM_cases:
  assumes "NewVM n E kinds m = Inr vm"
  obtains mem fs gs where "newMemory [] m = Inr mem"
    "newFunctions (newFunction kinds m) (FunctionIndexSpace m) = Inr fs"
    "newGlobals m (GlobalIndexSpace m) = Inr gs" "runStart n E (machine m gs mem fs) = Inr vm"
  using assms by (auto simp: NewVM_def elim!: bindE_InrE)

text \<open>C15 A machine that \<^verbatim>\<open>NewVM\<close> made fits its module, also after its start function ran: it has one
  function for each of the module's, host functions where the module has them, compiled ones with the
  argument count and result of their signature and with room for their arguments among the locals, and
  one word for each global.  It does not recover panics, and running it keeps all of this.\<close>

theorem NewVM_machine_ok:
  assumes "NewVM n E kinds m = Inr vm" "host_keeps same_program E"
  shows "machine_ok vm \<and> v_module vm = m \<and> \<not> RecoverPanic vm \<and>
    machine_ok (snd (ExecCode k E i args vm))"
proof -
  from assms(1) obtain mem fs gs where
    f: "newFunctions (newFunction kinds m) (FunctionIndexSpace m) = Inr fs"
    and g: "newGlobals m (GlobalIndexSpace m) = Inr gs"
    and r: "runStart n E (machine m gs mem fs) = Inr vm"
    by (rule NewVM_cases)
  let ?vm = "machine m gs mem fs"
  have ok: "machine_ok ?vm"
    using newFunctions_ok [OF f] newGlobals_length [OF g] by (simp add: machine_ok_def machine_def)
  note s = runStart_ok [OF assms(2) r]
  have "same_program vm (snd (ExecCode k E i args vm))"
    using program.keeps_ExecCode(1) [OF assms(2)] by (simp add: keeps_def)
  with machine_ok_program [OF s ok] s show ?thesis
    by (auto simp: machine_ok_program) (simp_all add: same_program_def machine_def)
qed

text \<open>Arguments of the right number always fit into the locals of such a machine's functions.\<close>

lemma machine_ok_args:
  assumes "machine_ok vm" "0 \<le> i" "i < int (length (funcs vm))" "funcs vm ! nat i = CompiledFunction c"
    and "functionSig i vm = (Inr sig, vm)"
  shows "cf_args c = length (ParamTypes sig)" "length (ParamTypes sig) \<le> cf_totalLocalVars c"
    "cf_returns c \<longleftrightarrow> ReturnTypes sig \<noteq> []"
proof -
  have "nat i < length (FunctionIndexSpace (v_module vm))"
    using assms(1-3) by (auto simp: machine_ok_def list_all2_conv_all_nth)
  moreover then have "function_ok (FunctionIndexSpace (v_module vm) ! nat i) (CompiledFunction c)"
    using assms(1,4) by (metis list_all2_nthD machine_ok_def)
  ultimately show "cf_args c = length (ParamTypes sig)" "length (ParamTypes sig) \<le> cf_totalLocalVars c"
    "cf_returns c \<longleftrightarrow> ReturnTypes sig \<noteq> []"
    using assms(2,5)
    by (auto simp: function_ok_def functionSig_def vm_run GetFunction_def split: option.splits if_splits)
qed

end
