(* ===== verification/VmRun.thy ===== *)
theory VmRun
  imports VmNew
begin

text \<open>
  Running compiled code instruction by instruction: the effect of one turn of the loop on a machine
  whose context is known, for the instructions the examples use.
\<close>

section \<open>The context of a running function\<close>

definition frame :: "VM \<Rightarrow> byte list \<Rightarrow> int \<Rightarrow> nat \<Rightarrow> u64 list \<Rightarrow> u64 list \<Rightarrow> VM" where
  "frame s code f p stk locs =
     s\<lparr>ctx := \<lparr>c_stack = stk, c_locals = locs, c_code = code, c_pc = int p, c_curFunc = f\<rparr>\<rparr>"

definition ready :: "VM \<Rightarrow> bool" where
  "ready s \<longleftrightarrow> \<not> abort s \<and> recursiveCallDepth s \<le> 1024"

text \<open>The bytes of one instruction.\<close>

definition code_at :: "byte list \<Rightarrow> nat \<Rightarrow> byte list \<Rightarrow> bool" where
  "code_at code p bs \<longleftrightarrow> (\<exists>xs ys. code = xs @ bs @ ys \<and> length xs = p)"

lemma code_atI:
  assumes "take (length bs) (drop p code) = bs" "p \<le> length code"
  shows "code_at code p bs"
  unfolding code_at_def
  by (rule exI [of _ "take p code"], rule exI [of _ "drop (p + length bs) code"])
    (use assms in \<open>simp, metis append_take_drop_id add.commute drop_drop\<close>)

lemma code_at_Cons:
  assumes "code_at code p (b # bs)"
  shows "p < length code" "code ! p = b" "code_at code (Suc p) bs"
proof -
  from assms obtain xs ys where c: "code = xs @ (b # bs) @ ys" "length xs = p" by (auto simp: code_at_def)
  then show "p < length code" "code ! p = b" by (auto simp: nth_append)
  show "code_at code (Suc p) bs"
    unfolding code_at_def by (rule exI [of _ "xs @ [b]"]) (use c in auto)
qed

lemma code_at_append:
  assumes "code_at code p (bs @ cs)"
  shows "code_at code p bs" "code_at code (p + length bs) cs"
proof -
  from assms obtain xs ys where c: "code = xs @ (bs @ cs) @ ys" "length xs = p" by (auto simp: code_at_def)
  show "code_at code p bs" unfolding code_at_def by (rule exI [of _ xs]) (use c in auto)
  show "code_at code (p + length bs) cs" unfolding code_at_def by (rule exI [of _ "xs @ bs"]) (use c in auto)
qed

lemma imm_at_frame: "code_at code p bs \<Longrightarrow> imm_at (frame s code f p stk locs) (length bs) bs"
  by (auto simp: code_at_def imm_at_def frame_def)

lemma frame_simps [simp]:
  "ctx (frame s code f p stk locs) = \<lparr>c_stack = stk, c_locals = locs, c_code = code, c_pc = int p, c_curFunc = f\<rparr>"
  "abort (frame s code f p stk locs) = abort s"
  "recursiveCallDepth (frame s code f p stk locs) = recursiveCallDepth s"
  "v_module (frame s code f p stk locs) = v_module s" "funcs (frame s code f p stk locs) = funcs s"
  "setStack stk' (frame s code f p stk locs) = frame s code f p stk' locs"
  "addPc (int k) (frame s code f p stk locs) = frame s code f (p + k) stk locs"
  by (simp_all add: frame_def setStack_def addPc_def)

lemma addPc_frame [simp]:
  "addPc 1 (frame s code f p stk locs) = frame s code f (Suc p) stk locs"
  "addPc 4 (frame s code f p stk locs) = frame s code f (p + 4) stk locs"
  "addPc 8 (frame s code f p stk locs) = frame s code f (p + 8) stk locs"
  by (simp_all add: frame_def addPc_def)

lemma fetch32_frame:
  "code_at code p (le_put 4 (w :: u32)) \<Longrightarrow> fetchUint32 (frame s code f p stk locs) = (Inr w, frame s code f (p + 4) stk locs)"
  using fetchUint32_imm [of "frame s code f p stk locs" "le_put 4 w"] imm_at_frame [of code p "le_put 4 w"]
  by simp

lemma fetch64_frame:
  "code_at code p (int64_bytes a) \<Longrightarrow> fetchInt64 (frame s code f p stk locs) =
    (Inr (sint (word_of_int a :: u64)), frame s code f (p + 8) stk locs)"
  using fetchInt64_imm [of "frame s code f p stk locs" "int64_bytes a"] imm_at_frame [of code p "int64_bytes a"]
  by (simp add: int64_bytes_def)

lemma fetchBool_frame:
  "code_at code p (b # bs) \<Longrightarrow> fetchBool (frame s code f p stk locs) = (Inr (b \<noteq> 0), frame s code f (p + 1) stk locs)"
  using code_at_Cons [of code p b bs] by (simp add: fetchBool_def fetchInt8_eq vm_run)

lemma pop_frame:
  "popUint64 (frame s code f p (xs @ [a]) locs) = (Inr a, frame s code f p xs locs)"
  "popUint32 (frame s code f p (xs @ [a]) locs) = (Inr (ucast a), frame s code f p xs locs)"
  "topUint64 (frame s code f p (xs @ [a]) locs) = (Inr a, frame s code f p (xs @ [a]) locs)"
  by (simp_all add: popUint64_snoc popUint32_snoc topUint64_snoc)

section \<open>One instruction\<close>

lemma step_frame:
  assumes "ready s" "code_at code p (op # bs)"
    and "exec_instr (newFuncTable (he_float E) (call (execCode n E) E) (callIndirect (execCode n E) E)) op
      (frame s code f (Suc p) stk locs) = (Inr False, t)"
  shows "execCode (Suc n) E c (frame s code f p stk locs) = execCode n E c t"
  using assms code_at_Cons [OF assms(2)]
  by (intro execCode_step) (simp_all add: running_def ready_def)

lemma step_plain:
  assumes "ready s" "code_at code p (op # bs)" "plain_op op"
    and "\<And>F a b. dispatch (newFuncTable F a b) op = h"
    and "h (frame s code f (Suc p) stk locs) = (Inr (), t)"
  shows "execCode (Suc n) E c (frame s code f p stk locs) = execCode n E c t"
  using assms(3-5) by (intro step_frame [OF assms(1,2)] exec_instr_plain) simp_all

lemma dispatch_ops:
  "dispatch (newFuncTable F a b) GetLocal = getLocal" "dispatch (newFuncTable F a b) SetLocal = setLocal"
  "dispatch (newFuncTable F a b) TeeLocal = teeLocal" "dispatch (newFuncTable F a b) I32Const = i32Const_op"
  "dispatch (newFuncTable F a b) I32Add = i32Add" "dispatch (newFuncTable F a b) I32Sub = i32Sub"
  "dispatch (newFuncTable F a b) Nop = nop" "dispatch (newFuncTable F a b) Drop = drop_op"
  by (simp_all add: dispatch_def newFuncTable_def)

lemma plain_ops: "plain_op GetLocal" "plain_op SetLocal" "plain_op TeeLocal" "plain_op I32Const"
  "plain_op I32Add" "plain_op I32Sub" "plain_op Nop" "plain_op Drop"
  by (simp_all add: plain_op_def)

lemma imm_of: "code_at code p (op # le_put 4 (w :: u32)) \<Longrightarrow> code_at code (Suc p) (le_put 4 w)"
  by (rule code_at_Cons(3))

lemma run_GetLocal:
  assumes "ready s" "code_at code p (GetLocal # le_put 4 (i :: u32))" "unat i < length locs"
  shows "execCode (Suc n) E c (frame s code f p stk locs) =
    execCode n E c (frame s code f (p + 5) (stk @ [locs ! unat i]) locs)"
  by (rule step_plain [OF assms(1,2) plain_ops(1) dispatch_ops(1)])
    (use assms(3) in \<open>simp add: getLocal_def vm_run fetch32_frame [OF imm_of [OF assms(2)]] pushUint64_eq add_ac\<close>)

lemma writeLocal_frame:
  "unat i < length locs \<Longrightarrow> writeLocal i v (frame s code f p stk locs) =
    (Inr (), frame s code f p stk (locs[unat i := v]))"
  by (simp add: writeLocal_def vm_run frame_def)

lemma run_SetLocal:
  assumes "ready s" "code_at code p (SetLocal # le_put 4 (i :: u32))" "unat i < length locs"
  shows "execCode (Suc n) E c (frame s code f p (stk @ [v]) locs) =
    execCode n E c (frame s code f (p + 5) stk (locs[unat i := v]))"
  by (rule step_plain [OF assms(1,2) plain_ops(2) dispatch_ops(2)])
    (use assms(3) in \<open>simp add: setLocal_def vm_run fetch32_frame [OF imm_of [OF assms(2)]] pop_frame writeLocal_frame add_ac\<close>)

lemma run_TeeLocal:
  assumes "ready s" "code_at code p (TeeLocal # le_put 4 (i :: u32))" "unat i < length locs"
  shows "execCode (Suc n) E c (frame s code f p (stk @ [v]) locs) =
    execCode n E c (frame s code f (p + 5) (stk @ [v]) (locs[unat i := v]))"
  by (rule step_plain [OF assms(1,2) plain_ops(3) dispatch_ops(3)])
    (use assms(3) in \<open>simp add: teeLocal_def vm_run fetch32_frame [OF imm_of [OF assms(2)]] pop_frame writeLocal_frame add_ac\<close>)

lemma run_I32Const:
  assumes "ready s" "code_at code p (I32Const # le_put 4 (w :: u32))"
  shows "execCode (Suc n) E c (frame s code f p stk locs) =
    execCode n E c (frame s code f (p + 5) (stk @ [ucast w]) locs)"
  by (rule step_plain [OF assms(1,2) plain_ops(4) dispatch_ops(4)])
    (simp add: i32Const_op_def vm_run fetch32_frame [OF imm_of [OF assms(2)]] push_eqs add_ac)

lemma run_binop:
  assumes "ready s" "code_at code p [op]"
  shows "op = I32Add \<Longrightarrow> execCode (Suc n) E c (frame s code f p (stk @ [a, b]) locs) =
    execCode n E c (frame s code f (p + 1) (stk @ [ucast (ucast a + ucast b :: u32)]) locs)"
    and "op = I32Sub \<Longrightarrow> execCode (Suc n) E c (frame s code f p (stk @ [a, b]) locs) =
    execCode n E c (frame s code f (p + 1) (stk @ [ucast (ucast a - ucast b :: u32)]) locs)"
proof -
  let ?s = "frame s code f (Suc p) (stk @ [a, b]) locs"
  have pops: "popUint32 ?s = (Inr (ucast b), frame s code f (Suc p) (stk @ [a]) locs)"
    "popUint32 (frame s code f (Suc p) (stk @ [a]) locs) = (Inr (ucast a), frame s code f (Suc p) stk locs)"
    using pop_frame(2) [of s code f "Suc p" "stk @ [a]" b locs] pop_frame(2) [of s code f "Suc p" stk a locs]
    by simp_all
  show "op = I32Add \<Longrightarrow> execCode (Suc n) E c (frame s code f p (stk @ [a, b]) locs) =
    execCode n E c (frame s code f (p + 1) (stk @ [ucast (ucast a + ucast b :: u32)]) locs)"
    by (rule step_plain [OF assms(1,2), where h = i32Add])
      (simp_all add: plain_ops dispatch_ops i32Add_def binop_snoc(2) [OF pops] push_eqs add.commute)
  show "op = I32Sub \<Longrightarrow> execCode (Suc n) E c (frame s code f p (stk @ [a, b]) locs) =
    execCode n E c (frame s code f (p + 1) (stk @ [ucast (ucast a - ucast b :: u32)]) locs)"
    by (rule step_plain [OF assms(1,2), where h = i32Sub])
      (simp_all add: plain_ops dispatch_ops i32Sub_def binop_snoc(1) [OF pops] push_eqs)
qed

text \<open>A conditional jump that drops nothing.\<close>

lemma run_JmpNz:
  assumes "ready s" "code_at code p (OpJmpNz # int64_bytes a @ [0] @ int64_bytes 0)"
    and "int q = sint (word_of_int a :: u64)"
  shows "execCode (Suc n) E c (frame s code f p (stk @ [v]) locs) =
    execCode n E c (frame s code f (if (ucast v :: u32) \<noteq> 0 then q else p + 18) stk locs)"
proof (rule step_frame [OF assms(1,2)])
  note i = code_at_Cons(3) [OF assms(2)]
  note j = code_at_append [OF i] and k = code_at_append [OF code_at_append(2) [OF i]]
  have f1: "fetchInt64 (frame s code f (Suc p) (stk @ [v]) locs) = (Inr (int q), frame s code f (p + 9) (stk @ [v]) locs)"
    using fetch64_frame [OF j(1)] assms(3) by (simp add: add.commute)
  have f2: "fetchBool (frame s code f (p + 9) (stk @ [v]) locs) = (Inr False, frame s code f (p + 10) (stk @ [v]) locs)"
    using fetchBool_frame [OF k(1)] by (simp add: add.commute)
  have f3: "fetchInt64 (frame s code f (p + 10) (stk @ [v]) locs) = (Inr 0, frame s code f (p + 18) (stk @ [v]) locs)"
    using fetch64_frame [OF k(2)] by (simp add: add.commute)
  show "exec_instr (newFuncTable (he_float E) (call (execCode n E) E) (callIndirect (execCode n E) E)) OpJmpNz
     (frame s code f (Suc p) (stk @ [v]) locs) =
    (Inr False, frame s code f (if (ucast v :: u32) \<noteq> 0 then q else p + 18) stk locs)"
    by (simp add: exec_instr_def exec_jmpnz_def vm_run f1 f2 f3 pop_frame setPc_def unwind_def discardStack_def)
      (simp add: frame_def)
qed

end
