(* ===== verification/EndToEnd.thy ===== *)
theory EndToEnd
  imports VmRun
begin

text \<open>
  From the bytes of a module to the result of a call: a module is decoded, its function
  disassembled and compiled, a machine made, and a run followed to its end for every input.
\<close>

section \<open>Modules of one function\<close>

text \<open>What a module of one function becomes.\<close>

definition compiles_to :: "byte list \<Rightarrow> FunctionSig \<Rightarrow> compiledFunction \<Rightarrow> bool" where
  "compiles_to bs sig c \<longleftrightarrow>
     (case ReadModule bs None of
        Inl _ \<Rightarrow> False
      | Inr m \<Rightarrow> m_Start m = None \<and> map Sig (FunctionIndexSpace m) = [Some sig] \<and>
          newMemory [] m = Inr [] \<and> GlobalIndexSpace m = [] \<and>
          map (compileFunction m) (FunctionIndexSpace m) = [Inr c] \<and> map Host (FunctionIndexSpace m) = [None])"

lemma compiles_to_machine:
  assumes "compiles_to bs sig c"
  obtains m where "ReadModule bs None = Inr m" "NewVM j E kinds m = Inr (machine m [] [] [CompiledFunction c])"
    "functionSig 0 (machine m [] [] [CompiledFunction c]) = (Inr sig, machine m [] [] [CompiledFunction c])"
proof -
  from assms obtain m fn where m: "ReadModule bs None = Inr m" "m_Start m = None"
    "newMemory [] m = Inr []" "GlobalIndexSpace m = []" "FunctionIndexSpace m = [fn]"
    "Sig fn = Some sig" "Host fn = None" "compileFunction m fn = Inr c"
    by (auto simp: compiles_to_def split: sum.splits)
  let ?vm = "machine m [] [] [CompiledFunction c]"
  have "NewVM j E kinds m = Inr ?vm"
    using m(2-) by (simp add: NewVM_def newFunction_def runStart_def) (simp add: machine_def)
  moreover have "functionSig 0 ?vm = (Inr sig, ?vm)"
    using m(5,6) by (simp add: functionSig_def vm_run GetFunction_def machine_def)
  ultimately show thesis using that m(1) by blast
qed

text \<open>A call of that function, given how its code runs on a new machine.\<close>

lemma one_function_runs:
  assumes "compiles_to bs sig c" "length (ParamTypes sig) = length args" "length args \<le> cf_totalLocalVars c"
    and "cf_returns c \<Longrightarrow> ReturnTypes sig \<noteq> []"
    and run: "\<And>s. ready s \<Longrightarrow> \<exists>t. execCode k E c (frame s (cf_code c) 0 0 []
      (args @ replicate (cf_totalLocalVars c - length args) 0)) = (Inr r, t) \<and> v_module t = v_module s"
  shows "\<exists>m vm. ReadModule bs None = Inr m \<and> NewVM j E kinds m = Inr vm \<and>
    fst (ExecCode k E 0 args vm) = Inr (if cf_returns c then typed_result (hd (ReturnTypes sig)) r else Inr None)"
proof -
  obtain m where m: "ReadModule bs None = Inr m"
    and vm: "NewVM j E kinds m = Inr (machine m [] [] [CompiledFunction c])"
    and sig: "functionSig 0 (machine m [] [] [CompiledFunction c]) = (Inr sig, machine m [] [] [CompiledFunction c])"
    by (rule compiles_to_machine [OF assms(1)])
  let ?vm = "machine m [] [] [CompiledFunction c]"
  have e: "entry_state c 0 args ?vm =
      frame ?vm (cf_code c) 0 0 [] (args @ replicate (cf_totalLocalVars c - length args) 0)"
    by (simp add: entry_state_def frame_def machine_def context_zero_def)
  have "ready ?vm" by (simp add: ready_def machine_def)
  from run [OF this] obtain t where
    t: "execCode k E c (entry_state c 0 args ?vm) = (Inr r, t)" "v_module t = v_module ?vm"
    unfolding e by blast
  have "fst (ExecCode k E 0 args ?vm) =
      Inr (if cf_returns c then typed_result (hd (ReturnTypes sig)) r else Inr None)"
    by (subst ExecCode_run [OF _ _ _ sig assms(2-4) t]) (simp_all add: machine_def)
  with m vm show ?thesis by blast
qed

section \<open>A loop\<close>

text \<open>One exported function, which adds its argument to a local and decrements it until it is zero:
  \<^verbatim>\<open>loop get_local 1 get_local 0 i32.add set_local 1 get_local 0 i32.const 1 i32.sub tee_local 0
  br_if 0 end get_local 1\<close>.\<close>

definition sum_bytes :: "byte list" where
  "sum_bytes = [0x00, 0x61, 0x73, 0x6d, 0x01, 0x00, 0x00, 0x00,
     0x01, 0x06, 0x01, 0x60, 0x01, 0x7f, 0x01, 0x7f,
     0x03, 0x02, 0x01, 0x00,
     0x07, 0x07, 0x01, 0x03, 0x73, 0x75, 0x6d, 0x00, 0x00,
     0x0a, 0x1b, 0x01, 0x19, 0x01, 0x01, 0x7f,
     0x03, 0x40, 0x20, 0x01, 0x20, 0x00, 0x6a, 0x21, 0x01, 0x20, 0x00, 0x41, 0x01, 0x6b, 0x22, 0x00,
     0x0d, 0x00, 0x0b, 0x20, 0x01, 0x0b]"

definition sum_code :: "byte list" where
  "sum_code = GetLocal # le_put 4 (1 :: u32) @ GetLocal # le_put 4 (0 :: u32) @ [I32Add] @
     SetLocal # le_put 4 (1 :: u32) @ GetLocal # le_put 4 (0 :: u32) @ I32Const # le_put 4 (1 :: u32) @
     [I32Sub] @ TeeLocal # le_put 4 (0 :: u32) @ OpJmpNz # int64_bytes 0 @ [0] @ int64_bytes 0 @
     GetLocal # le_put 4 (1 :: u32) @ [Nop]"

definition sum_fn :: compiledFunction where
  "sum_fn = \<lparr>cf_code = sum_code, cf_branchTables = [], cf_maxDepth = 2, cf_totalLocalVars = 2,
     cf_args = 1, cf_returns = True\<rparr>"

definition sum_sig :: FunctionSig where
  "sum_sig = \<lparr>Form = 0xE0, ParamTypes = [ValueTypeI32], ReturnTypes = [ValueTypeI32]\<rparr>"

lemma sum_compiles: "compiles_to sum_bytes sum_sig sum_fn"
  by code_simp

lemma sum_layout:
  "code_at sum_code 0 (GetLocal # le_put 4 (1 :: u32))" "code_at sum_code 5 (GetLocal # le_put 4 (0 :: u32))"
  "code_at sum_code 10 [I32Add]" "code_at sum_code 11 (SetLocal # le_put 4 (1 :: u32))"
  "code_at sum_code 16 (GetLocal # le_put 4 (0 :: u32))" "code_at sum_code 21 (I32Const # le_put 4 (1 :: u32))"
  "code_at sum_code 26 [I32Sub]" "code_at sum_code 27 (TeeLocal # le_put 4 (0 :: u32))"
  "code_at sum_code 32 (OpJmpNz # int64_bytes 0 @ [0] @ int64_bytes 0)"
  "code_at sum_code 50 (GetLocal # le_put 4 (1 :: u32))" "code_at sum_code 55 [Nop]"
  by (intro code_atI; code_simp)+

lemma ucast_back: "ucast (ucast (x :: u32) :: u64) = x"
  by (intro bit_word_eqI) (auto simp: bit_simps)

lemma sum_iteration:
  assumes "ready s"
  shows "execCode (k + 9) E c (frame s sum_code f 0 [] [ucast (x :: u32), ucast (acc :: u32)]) =
    execCode k E c (frame s sum_code f (if x - 1 \<noteq> 0 then 0 else 50) [] [ucast (x - 1), ucast (acc + x)])"
proof -
  note l = sum_layout and r = assms
  have e: "k + 9 = Suc (Suc (Suc (Suc (Suc (Suc (Suc (Suc (Suc k))))))))" by simp
  note steps = run_GetLocal [OF r l(1)] run_GetLocal [OF r l(2)]
    run_binop(1) [OF r l(3) refl, where stk = "[]", simplified append_Nil]
    run_SetLocal [OF r l(4), where stk = "[]", simplified append_Nil] run_GetLocal [OF r l(5)]
    run_I32Const [OF r l(6)] run_binop(2) [OF r l(7) refl, where stk = "[]", simplified append_Nil]
    run_TeeLocal [OF r l(8), where stk = "[]", simplified append_Nil]
    run_JmpNz [OF r l(9), where stk = "[]" and q = 0, simplified append_Nil]
  show ?thesis unfolding e by (simp del: execCode.simps add: steps ucast_back add.commute)
qed

text \<open>The number of turns for an argument: zero wraps around and takes all of them.\<close>

definition sum_turns :: "u32 \<Rightarrow> nat" where
  "sum_turns n = (if n = 0 then 2 ^ 32 else unat n)"

lemma sum_turns: "0 < sum_turns n" "sum_turns n \<le> 2 ^ 32" "of_nat (sum_turns n) = n"
proof -
  have "unat n < 2 ^ 32" using unsigned_less [of n] by simp
  then show "sum_turns n \<le> 2 ^ 32" by (simp add: sum_turns_def)
  show "0 < sum_turns n" by (simp add: sum_turns_def unat_gt_0)
  have "(of_nat (2 ^ 32) :: u32) = 0" by simp
  then show "of_nat (sum_turns n) = n" unfolding sum_turns_def by simp
qed

text \<open>After \<open>n\<close> turns of the loop.\<close>

lemma sum_loop:
  assumes "ready s" "0 < n" "n \<le> 2 ^ 32"
  shows "execCode (9 * n + k) E c (frame s sum_code f 0 [] [ucast (of_nat n :: u32), ucast (acc :: u32)]) =
    execCode k E c (frame s sum_code f 50 [] [0, ucast (acc + of_nat (\<Sum>{..n}))])"
  using assms(2,3)
proof (induction n arbitrary: acc)
  case (Suc n)
  have 1: "9 * Suc n + k = (9 * n + k) + 9" by simp
  have 2: "(of_nat (Suc n) :: u32) - 1 = of_nat n" by simp
  have 3: "(of_nat n :: u32) = 0 \<longleftrightarrow> n = 0" using Suc.prems by (auto simp: word_of_nat_eq_0_iff dest: dvd_imp_le)
  have s: "\<Sum>{..Suc n} = \<Sum>{..n} + Suc n" by (simp add: atMost_Suc)
  show ?case
  proof (cases "n = 0")
    case True
    then show ?thesis unfolding 1 sum_iteration [OF assms(1)] by simp
  next
    case False
    then show ?thesis unfolding 1 sum_iteration [OF assms(1)] 2 using Suc.IH [of "acc + of_nat (Suc n)"] Suc.prems 3
      by (simp add: s add_ac)
  qed
qed simp

lemma run_Nop:
  assumes "ready s" "code_at code p [Nop]"
  shows "execCode (Suc n) E c (frame s code f p stk locs) = execCode n E c (frame s code f (p + 1) stk locs)"
  by (rule step_plain [OF assms plain_ops(7) dispatch_ops(7)]) (simp add: nop_def vm_run)

lemma sum_run:
  assumes "ready s" "9 * sum_turns n + 3 \<le> k"
  shows "\<exists>t. execCode k E sum_fn (frame s sum_code f 0 [] [ucast n, 0]) =
    (Inr (ucast (of_nat (\<Sum>{..sum_turns n}) :: u32)), t) \<and> v_module t = v_module s"
proof -
  let ?r = "ucast (of_nat (\<Sum>{..sum_turns n}) :: u32) :: u64"
  obtain r where k: "k = 9 * sum_turns n + Suc (Suc (Suc r))"
    using assms(2) by (metis add_Suc_right add.assoc le_Suc_ex numeral_3_eq_3 add_0_right add_Suc)
  have "execCode k E sum_fn (frame s sum_code f 0 [] [ucast n, 0]) =
      execCode (Suc (Suc (Suc r))) E sum_fn (frame s sum_code f 50 [] [0, ?r])"
    unfolding k using sum_loop [OF assms(1) sum_turns(1,2), of n _ E _ f 0] unfolding sum_turns(3)
    by (simp del: execCode.simps add_Suc_right)
  also have "\<dots> = execCode (Suc r) E sum_fn (frame s sum_code f 56 [?r] [0, ?r])"
    by (simp del: execCode.simps add: run_GetLocal [OF assms(1) sum_layout(10)] run_Nop [OF assms(1) sum_layout(11)])
  also have "\<dots> = (Inr ?r, frame s sum_code f 56 [?r] [0, ?r])"
  proof -
    have "length sum_code = 56" by code_simp
    then have "\<not> running (frame s sum_code f 56 [?r] [0, ?r])" by (simp add: running_def)
    from execCode_done [OF this] show ?thesis
      by (simp del: execCode.simps add: exec_result_def sum_fn_def topUint64_def vm_run)
  qed
  finally show ?thesis by simp
qed

text \<open>C16 Decoding, compiling and running fit together on the module \<open>sum_bytes\<close>: for every 32-bit argument \<open>n\<close>
  the call returns, as an \<^verbatim>\<open>i32\<close>, the sum at 32 bits of the numbers up to the number of turns of its loop, which is
  \<open>n\<close>, and \<open>2 ^ 32\<close> for zero, where the counter wraps around.  It needs \<open>9\<close> instructions a turn and \<open>3\<close> more.\<close>

theorem sum_module_runs:
  assumes "9 * sum_turns n + 3 \<le> k"
  shows "\<exists>m vm. ReadModule sum_bytes None = Inr m \<and> NewVM j E kinds m = Inr vm \<and>
    fst (ExecCode k E 0 [ucast n] vm) = Inr (Inr (Some (VI32 (of_nat (\<Sum>{..sum_turns n})))))"
proof -
  have "\<exists>t. execCode k E sum_fn (frame s (cf_code sum_fn) 0 0 []
      ([ucast n] @ replicate (cf_totalLocalVars sum_fn - length [ucast n :: u64]) 0)) =
      (Inr (ucast (of_nat (\<Sum>{..sum_turns n}) :: u32)), t) \<and> v_module t = v_module s" if "ready s" for s
    using sum_run [OF that assms, of E 0] by (simp add: sum_fn_def)
  from one_function_runs [OF sum_compiles _ _ _ this, of j kinds] show ?thesis
    by (simp add: sum_fn_def sum_sig_def typed_result_def ucast_back)
qed

theorem sum_module_runs_witness:
  "\<exists>m vm. ReadModule sum_bytes None = Inr m \<and> NewVM 0 silent_host (\<lambda>_. []) m = Inr vm \<and>
    fst (ExecCode 903 silent_host 0 [100] vm) = Inr (Inr (Some (VI32 5050)))"
proof -
  have "\<Sum>{..100 :: nat} = 5050" "sum_turns 100 = 100" by code_simp+
  with sum_module_runs [of 100 903 0 silent_host "\<lambda>_. []"] show ?thesis by simp
qed

theorem NewVM_machine_ok_witness:
  "\<exists>m vm. ReadModule sum_bytes None = Inr m \<and> NewVM 0 silent_host (\<lambda>_. []) m = Inr vm \<and>
    machine_ok vm \<and> machine_ok (snd (ExecCode 12 silent_host 0 [1] vm))"
proof (rule compiles_to_machine [OF sum_compiles, of 0 silent_host "\<lambda>_. []"])
  fix m
  let ?vm = "machine m [] [] [CompiledFunction sum_fn]"
  assume m: "ReadModule sum_bytes None = Inr m" and vm: "NewVM 0 silent_host (\<lambda>_. []) m = Inr ?vm"
  from NewVM_machine_ok [OF vm silent_host_keeps(3), of 12 0 "[1]"] m vm show ?thesis by blast
qed

section \<open>A branch out of a block\<close>

text \<open>A function of two parameters: \<^verbatim>\<open>get_local 0 block get_local 1 i32.const 1 br_if 0 drop end\<close>.\<close>

definition brif_bytes :: "byte list" where
  "brif_bytes = [0x00, 0x61, 0x73, 0x6d, 0x01, 0x00, 0x00, 0x00,
     0x01, 0x07, 0x01, 0x60, 0x02, 0x7f, 0x7f, 0x01, 0x7f,
     0x03, 0x02, 0x01, 0x00,
     0x0a, 0x10, 0x01, 0x0e, 0x00,
     0x20, 0x00, 0x02, 0x40, 0x20, 0x01, 0x41, 0x01, 0x0d, 0x00, 0x1a, 0x0b, 0x0b]"

definition brif_code :: "byte list" where
  "brif_code = GetLocal # le_put 4 (0 :: u32) @ GetLocal # le_put 4 (1 :: u32) @ I32Const # le_put 4 (1 :: u32) @
     OpJmpNz # int64_bytes 34 @ [0] @ int64_bytes 0 @ [Drop, Nop]"

definition brif_fn :: compiledFunction where
  "brif_fn = \<lparr>cf_code = brif_code, cf_branchTables = [], cf_maxDepth = 3, cf_totalLocalVars = 2,
     cf_args = 2, cf_returns = True\<rparr>"

definition brif_sig :: FunctionSig where
  "brif_sig = \<lparr>Form = 0xE0, ParamTypes = [ValueTypeI32, ValueTypeI32], ReturnTypes = [ValueTypeI32]\<rparr>"

lemma brif_compiles: "compiles_to brif_bytes brif_sig brif_fn"
  by code_simp

lemma brif_layout:
  "code_at brif_code 0 (GetLocal # le_put 4 (0 :: u32))" "code_at brif_code 5 (GetLocal # le_put 4 (1 :: u32))"
  "code_at brif_code 10 (I32Const # le_put 4 (1 :: u32))"
  "code_at brif_code 15 (OpJmpNz # int64_bytes 34 @ [0] @ int64_bytes 0)" "code_at brif_code 34 [Nop]"
  by (intro code_atI; code_simp)+

lemma brif_run:
  assumes "ready s"
  shows "execCode (k + 6) E brif_fn (frame s brif_code 0 0 [] [a, b]) =
    (Inr b, frame s brif_code 0 35 [a, b] [a, b])"
proof -
  note l = brif_layout and r = assms
  have q: "int 34 = sint (word_of_int 34 :: u64)" by code_simp
  have e: "k + 6 = Suc (Suc (Suc (Suc (Suc (Suc k)))))" by simp
  note steps = run_GetLocal [OF r l(1)] run_GetLocal [OF r l(2)] run_I32Const [OF r l(3)]
    run_JmpNz [OF r l(4) q, where stk = "[a, b]", simplified append_Cons append_Nil] run_Nop [OF r l(5)]
  have "length brif_code = 35" by code_simp
  then have "\<not> running (frame s brif_code 0 35 [a, b] [a, b])" by (simp add: running_def)
  note fin = execCode_done [OF this]
  show ?thesis unfolding e
    by (simp del: execCode.simps add: steps fin exec_result_def brif_fn_def topUint64_def vm_run)
qed

text \<open>The function above should return its first parameter, which lies below the block, but the engine
  returns the second one.\<close>

lemma brif_module_result:
  "\<exists>m vm. ReadModule brif_bytes None = Inr m \<and> NewVM j E kinds m = Inr vm \<and>
    fst (ExecCode (k + 6) E 0 [a, b] vm) = Inr (Inr (Some (VI32 (ucast b))))"
proof -
  have "\<exists>t. execCode (k + 6) E brif_fn (frame s (cf_code brif_fn) 0 0 []
      ([a, b] @ replicate (cf_totalLocalVars brif_fn - length [a, b]) 0)) = (Inr b, t) \<and> v_module t = v_module s"
    if "ready s" for s
    using brif_run [OF that, of k E a b] by (simp del: execCode.simps add: brif_fn_def)
  from one_function_runs [OF brif_compiles _ _ _ this, of j kinds] show ?thesis
    by (simp add: brif_fn_def brif_sig_def typed_result_def)
qed

lemma cs_buffer_addPatch: "addPatch d off st = Inr st' \<Longrightarrow> cs_buffer st' = cs_buffer st"
  by (auto simp: addPatch_def setBlock_def elim!: bindE_InrE)

lemma exec_jmpnz_frame:
  assumes "code_at code p (int64_bytes a @ [0] @ int64_bytes 0)" "int q = sint (word_of_int a :: u64)"
  shows "exec_jmpnz (frame s code f p (stk @ [v]) locs) =
    (Inr False, frame s code f (if (ucast v :: u32) \<noteq> 0 then q else p + 17) stk locs)"
proof -
  note j = code_at_append [OF assms(1)] and k = code_at_append [OF code_at_append(2) [OF assms(1)]]
  have f1: "fetchInt64 (frame s code f p (stk @ [v]) locs) = (Inr (int q), frame s code f (p + 8) (stk @ [v]) locs)"
    using fetch64_frame [OF j(1)] assms(2) by (simp add: add.commute)
  have f2: "fetchBool (frame s code f (p + 8) (stk @ [v]) locs) = (Inr False, frame s code f (p + 9) (stk @ [v]) locs)"
    using fetchBool_frame [OF k(1)] by (simp add: add.commute)
  have f3: "fetchInt64 (frame s code f (p + 9) (stk @ [v]) locs) = (Inr 0, frame s code f (p + 17) (stk @ [v]) locs)"
    using fetch64_frame [OF k(2)] by (simp add: add.commute)
  show ?thesis
    by (simp add: exec_jmpnz_def vm_run f1 f2 f3 pop_frame setPc_def unwind_def discardStack_def) (simp add: frame_def)
qed

text \<open>C17 A conditional branch out of a block without result leaves the operands that the block pushed.  What
  the compiler emits for any \<^verbatim>\<open>br_if\<close> whose target has no result, whatever number of operands the
  disassembler found to drop, goes, when the condition holds, to the address the compiler patches in, with every operand
  below the condition still on the stack; WebAssembly takes them off.\<close>

theorem brif_keeps_operands:
  assumes "compile_brif ins st = Inr st'" "NewStack ins = Some si" "\<not> si_PreserveTop si"
  shows "\<exists>tail. cs_buffer st' = cs_buffer st @ OpJmpNz # int64_bytes 0 @ tail \<and>
    (\<forall>s code f p q a stk v locs. code_at code p (int64_bytes a @ tail) \<and> int q = sint (word_of_int a :: u64) \<longrightarrow>
       exec_jmpnz (frame s code f p (stk @ [v]) locs) =
         (Inr False, frame s code f (if (ucast v :: u32) \<noteq> 0 then q else p + 17) stk locs))"
proof (intro exI conjI allI impI)
  show "cs_buffer st' = cs_buffer st @ OpJmpNz # int64_bytes 0 @ [0] @ int64_bytes 0"
    using assms by (auto simp: compile_brif_def Let_def emit_def dest!: cs_buffer_addPatch elim!: bindE_InrE)
qed (use exec_jmpnz_frame in auto)

definition brif_ins :: Instr where
  "brif_ins = (new_instr (op_at BrIf) False)\<lparr>Immediates := [ImmU32 0],
     NewStack := Some (StackInfo_zero\<lparr>StackTopDiff := 3, si_PreserveTop := False\<rparr>)\<rparr>"

theorem brif_keeps_operands_witness:
  "exec_jmpnz (frame grow_vm (int64_bytes 7 @ [0] @ int64_bytes 0) 0 0 [5, 6, 8, 1] []) =
     (Inr False, frame grow_vm (int64_bytes 7 @ [0] @ int64_bytes 0) 0 7 [5, 6, 8] [])"
proof -
  obtain st' where "compile_brif brif_ins cstate_init = Inr st'" "cs_buffer st' = OpJmpNz # int64_bytes 0 @ [0] @ int64_bytes 0"
  proof -
    have "case compile_brif brif_ins cstate_init of Inl _ \<Rightarrow> False
      | Inr st' \<Rightarrow> cs_buffer st' = OpJmpNz # int64_bytes 0 @ [0] @ int64_bytes 0" by code_simp
    then show thesis using that by (auto split: sum.splits)
  qed
  note st' = this
  from brif_keeps_operands [OF st'(1), of "StackInfo_zero\<lparr>StackTopDiff := 3, si_PreserveTop := False\<rparr>"]
  obtain tail where t: "cs_buffer st' = cs_buffer cstate_init @ OpJmpNz # int64_bytes 0 @ tail"
    "\<forall>s code f p q a stk v locs. code_at code p (int64_bytes a @ tail) \<and> int q = sint (word_of_int a :: u64) \<longrightarrow>
       exec_jmpnz (frame s code f p (stk @ [v]) locs) =
         (Inr False, frame s code f (if (ucast v :: u32) \<noteq> 0 then q else p + 17) stk locs)"
    by (auto simp: brif_ins_def)
  have tl: "tail = [0] @ int64_bytes 0" using t(1) st'(2) by (simp add: cstate_init_def)
  have "code_at (int64_bytes 7 @ [0] @ int64_bytes 0) 0 (int64_bytes 7 @ tail)"
    unfolding tl by (intro code_atI) code_simp+
  moreover have "int 7 = sint (word_of_int 7 :: u64)" by code_simp
  ultimately show ?thesis using t(2) [rule_format, of "int64_bytes 7 @ [0] @ int64_bytes 0" 0 7 7 grow_vm 0 "[5, 6, 8]" 1 "[]"]
    by (simp only: append_Cons append_Nil) simp
qed

end
