(* ===== verification/RlpCore.thy ===== *)
theory RlpCore
  imports Prelude
begin

text \<open>
  \<^verbatim>\<open>util/serialize/rlp\<close>: the headers of RLP values (\<^verbatim>\<open>putint\<close>,
  \<^verbatim>\<open>puthead\<close> and their sizes in \<^verbatim>\<open>encode.go\<close>) and the functions that take
  encoded values apart (\<^verbatim>\<open>raw.go\<close>).
\<close>

section \<open>Errors and kinds\<close>

datatype rlp_error =
    EOL
  | RlpEOF
  | RlpUnexpectedEOF
  | ErrExpectedString
  | ErrExpectedList
  | ErrCanonInt
  | ErrCanonSize
  | ErrElemTooLarge
  | ErrValueTooLarge
  | ErrMoreThanOneValue
  | errNotInList
  | errNotAtEOL
  | errUintOverflow
  | WrappedError rlp_error
  | InvalidBool u64
  | InputTooLong
  | InputTooShort
  | TooFewElements
  | WrongNilKind
  | NegativeBigInt
  | NotSerializable
  | StructTagError
  | RlpPanic go_error

datatype Kind = Byte | String | List

section \<open>Headers\<close>

definition be_put :: "nat \<Rightarrow> u64 \<Rightarrow> byte list" where
  "be_put n w = rev (le_put n w)"

definition be_get :: "byte list \<Rightarrow> u64" where
  "be_get bs = le_get (rev bs)"

text \<open>The bytes \<^verbatim>\<open>putint\<close> writes.\<close>

definition putint :: "u64 \<Rightarrow> byte list" where
  "putint i =
     (if i < 0x100 then be_put 1 i
      else if i < 0x10000 then be_put 2 i
      else if i < 0x1000000 then be_put 3 i
      else if i < 0x100000000 then be_put 4 i
      else if i < 0x10000000000 then be_put 5 i
      else if i < 0x1000000000000 then be_put 6 i
      else if i < 0x100000000000000 then be_put 7 i
      else be_put 8 i)"

lemma drop_bit_less: "drop_bit 8 (i :: u64) \<noteq> 0 \<Longrightarrow> unat (drop_bit 8 i) < unat i"
proof -
  assume "drop_bit 8 i \<noteq> 0"
  then have "unat (drop_bit 8 i) \<noteq> 0" by (simp add: unat_eq_0)
  then show ?thesis by (simp add: unat_drop_bit_div)
qed

function intsize :: "u64 \<Rightarrow> nat" where
  "intsize i = (let i' = drop_bit 8 i in if i' = 0 then 1 else 1 + intsize i')"
  by pat_completeness auto
termination by (relation "measure unat") (auto dest: drop_bit_less)

declare intsize.simps [simp del]

definition headsize :: "u64 \<Rightarrow> nat" where
  "headsize sz = (if sz < 56 then 1 else 1 + intsize sz)"

text \<open>The bytes \<^verbatim>\<open>puthead\<close> writes, and writing them to the start of a buffer.\<close>

definition head_bytes :: "byte \<Rightarrow> byte \<Rightarrow> u64 \<Rightarrow> byte list" where
  "head_bytes smalltag largetag sz =
     (if sz < 56 then [smalltag + ucast sz]
      else let bs = putint sz in (largetag + of_nat (length bs)) # bs)"

definition puthead :: "byte list \<Rightarrow> byte \<Rightarrow> byte \<Rightarrow> u64 \<Rightarrow> go_error + (nat \<times> byte list)" where
  "puthead buf smalltag largetag sz =
     (let bs = head_bytes smalltag largetag sz
      in if \<not> sz < 56 \<and> buf = [] then Inl SliceOutOfRange
         else if length buf < length bs then Inl IndexOutOfRange
         else Inr (length bs, bs @ drop (length bs) buf))"

lemma puthead_fits:
  "length (head_bytes s l sz) \<le> length buf \<Longrightarrow>
   puthead buf s l sz = Inr (length (head_bytes s l sz), head_bytes s l sz @ drop (length (head_bytes s l sz)) buf)"
  by (auto simp: puthead_def head_bytes_def Let_def)

definition ListSize :: "u64 \<Rightarrow> u64" where
  "ListSize contentSize = of_nat (headsize contentSize) + contentSize"

section \<open>Taking values apart\<close>

definition readSize_raw :: "byte list \<Rightarrow> nat \<Rightarrow> rlp_error + u64" where
  "readSize_raw b slen =
     (if slen > length b then Inl RlpUnexpectedEOF
      else let s = be_get (take slen b)
           in if s < 56 \<or> b ! 0 = 0 then Inl ErrCanonSize else Inr s)"

definition readKind_raw :: "byte list \<Rightarrow> rlp_error + (Kind \<times> u64 \<times> u64)" where
  "readKind_raw buf =
     (case buf of
        [] \<Rightarrow> Inl RlpUnexpectedEOF
      | b # r \<Rightarrow>
          bindE
            (if b < 0x80 then Inr (Byte, 0, 1)
             else if b < 0xB8 then
               (if ucast (b - 0x80) = (1 :: u64) \<and> length buf > 1 \<and> buf ! 1 < 128 then Inl ErrCanonSize
                else Inr (String, 1, ucast (b - 0x80)))
             else if b < 0xC0 then
               bindE (readSize_raw r (unat (b - 0xB7))) (\<lambda>sz. Inr (String, ucast (b - 0xB7) + 1, sz))
             else if b < 0xF8 then Inr (List, 1, ucast (b - 0xC0))
             else bindE (readSize_raw r (unat (b - 0xF7))) (\<lambda>sz. Inr (List, ucast (b - 0xF7) + 1, sz)))
            (\<lambda>(k, tagsize, contentsize).
               if contentsize > of_nat (length buf) - tagsize then Inl ErrValueTooLarge
               else Inr (k, tagsize, contentsize)))"

definition Split :: "byte list \<Rightarrow> rlp_error + (Kind \<times> byte list \<times> byte list)" where
  "Split b =
     bindE (readKind_raw b) (\<lambda>(k, ts, cs).
       Inr (k, take (unat cs) (drop (unat ts) b), drop (unat ts + unat cs) b))"

definition SplitString :: "byte list \<Rightarrow> rlp_error + (byte list \<times> byte list)" where
  "SplitString b =
     bindE (Split b) (\<lambda>(k, content, rest). if k = List then Inl ErrExpectedString else Inr (content, rest))"

definition SplitList :: "byte list \<Rightarrow> rlp_error + (byte list \<times> byte list)" where
  "SplitList b =
     bindE (Split b) (\<lambda>(k, content, rest). if k \<noteq> List then Inl ErrExpectedList else Inr (content, rest))"

section \<open>Numbers as bytes\<close>

lemma unat_less_bits: "unat (w :: u64) < 2 ^ k \<longleftrightarrow> (\<forall>j \<ge> k. \<not> bit w j)"
proof
  assume "unat w < 2 ^ k"
  then have "take_bit k w = w" by (simp add: word_unat_eq_iff unsigned_take_bit_eq take_bit_nat_eq_self)
  then show "\<forall>j \<ge> k. \<not> bit w j" by (metis bit_take_bit_iff not_less)
next
  assume "\<forall>j \<ge> k. \<not> bit w j"
  then have "take_bit k w = w" by (intro bit_word_eqI) (auto simp: bit_take_bit_iff not_le)
  then have "unat w = take_bit k (unat w)" by (metis unsigned_take_bit_eq)
  then show "unat w < 2 ^ k" by (metis take_bit_nat_less_exp)
qed

lemma unat_64: "unat (i :: u64) < 2 ^ 64"
  using unsigned_less [of i] by simp

lemma bit_le_get:
  "bit (le_get bs :: u64) k \<longleftrightarrow> k < 64 \<and> k div 8 < length bs \<and> bit (bs ! (k div 8)) (k mod 8)"
proof (induction bs arbitrary: k)
  case (Cons b bs)
  show ?case
  proof (cases "k < 8")
    case True
    then show ?thesis by (auto simp: bit_simps dest: bit_imp_le_length)
  next
    case False
    then obtain j where j: "k = j + 8" by (metis add.commute le_Suc_ex not_less)
    have "\<not> bit b k" using False by (auto dest: bit_imp_le_length)
    moreover have "(j + 8) div 8 = Suc (j div 8)" "(j + 8) mod 8 = j mod 8" by presburger+
    ultimately show ?thesis using j Cons.IH [of j] by (auto simp: bit_simps)
  qed
qed simp

lemma le_put_get: "length bs \<le> 8 \<Longrightarrow> le_put (length bs) (le_get bs :: u64) = bs"
proof (induction bs)
  case (Cons b bs)
  have "(ucast (le_get (b # bs) :: u64) :: byte) = b"
    by (intro bit_word_eqI) (auto simp: bit_simps)
  moreover have "drop_bit 8 (le_get (b # bs)) = (le_get bs :: u64)"
  proof (intro bit_word_eqI)
    fix n
    assume "n < LENGTH(64)"
    have "\<not> bit (le_get bs :: u64) n" if "56 \<le> n"
      using Cons.prems that by (auto simp: bit_le_get)
    moreover have "\<not> bit b (8 + n)" by (auto dest: bit_imp_le_length)
    ultimately show "bit (drop_bit 8 (le_get (b # bs)) :: u64) n = bit (le_get bs :: u64) n"
      using \<open>n < LENGTH(64)\<close> by (cases "56 \<le> n") (auto simp: bit_simps)
  qed
  ultimately show ?case using Cons by simp
qed simp

lemma be_put_get: "length bs \<le> 8 \<Longrightarrow> be_put (length bs) (be_get bs) = bs"
  using le_put_get [of "rev bs"] by (simp add: be_put_def be_get_def)

lemma be_get_put:
  assumes "unat i < 2 ^ (8 * n)"
  shows "be_get (be_put n i) = i"
proof (intro bit_word_eqI)
  fix k
  have "k < 8 * n" if "bit i k" using assms that by (metis not_le unat_less_bits)
  then show "bit (be_get (be_put n i)) k = bit i k"
    by (auto simp: be_put_def be_get_def bit_le_get_put)
qed

lemma length_be_put [simp]: "length (be_put n i) = n"
  by (simp add: be_put_def)

lemma be_get_less: "unat (be_get bs) < 2 ^ (8 * length bs)"
  unfolding unat_less_bits be_get_def by (auto simp: bit_le_get)

lemma be_get_ge:
  assumes "bs \<noteq> []" "length bs \<le> 8" "hd bs \<noteq> 0"
  shows "2 ^ (8 * (length bs - 1)) \<le> unat (be_get bs)"
proof (rule ccontr)
  let ?n = "length bs - 1"
  assume "\<not> 2 ^ (8 * ?n) \<le> unat (be_get bs)"
  then have z: "\<not> bit (be_get bs) j" if "8 * ?n \<le> j" for j
    using that by (simp add: unat_less_bits not_le)
  have "\<not> bit (hd bs) j" if "j < 8" for j
    using z [of "8 * ?n + j"] that assms(1,2) by (auto simp: be_get_def bit_le_get rev_nth hd_conv_nth)
  then have "hd bs = 0" by (intro bit_word_eqI) simp
  with assms(3) show False by simp
qed

lemma intsize_bounds: "unat i < 2 ^ (8 * intsize i) \<and> (intsize i = 1 \<or> 2 ^ (8 * (intsize i - 1)) \<le> unat i)"
proof (induction i rule: intsize.induct)
  case (1 i)
  let ?d = "drop_bit 8 i"
  have d: "unat ?d = unat i div 256" by (simp add: unat_drop_bit_div)
  show ?case
  proof (cases "?d = 0")
    case True
    then have "unat i < 256" using d by (simp add: unat_eq_0 [symmetric])
    with True show ?thesis by (subst (1 2 3) intsize.simps) simp
  next
    case False
    from "1.IH" [OF refl False] have IH: "unat ?d < 2 ^ (8 * intsize ?d)"
      "intsize ?d = 1 \<or> 2 ^ (8 * (intsize ?d - 1)) \<le> unat ?d" by auto
    have i: "intsize i = Suc (intsize ?d)" using False by (subst intsize.simps) simp
    have "unat i < 256 * 2 ^ (8 * intsize ?d)" using IH(1) unfolding d by (simp add: div_less_iff_less_mult mult.commute)
    moreover have "2 ^ (8 * intsize ?d) \<le> unat i"
    proof (cases "intsize ?d = 1")
      case True
      have "unat ?d \<noteq> 0" using False by (simp add: unat_eq_0)
      then show ?thesis using True d by simp
    next
      case F: False
      then obtain m where m: "intsize ?d = Suc m" by (cases "intsize ?d") (auto simp: intsize.simps [of ?d] Let_def split: if_splits)
      with IH(2) F have "2 ^ (8 * m) \<le> unat i div 256" using d by simp
      then have "2 ^ (8 * m) * 256 \<le> unat i" by (simp add: less_eq_div_iff_mult_less_eq)
      then show ?thesis by (simp add: m power_add)
    qed
    ultimately show ?thesis by (simp add: i power_add)
  qed
qed

lemma intsize_pos: "0 < intsize i"
  by (subst intsize.simps) (simp add: Let_def)

lemma intsize_unique:
  assumes "unat i < 2 ^ (8 * n)" "n = 1 \<or> 0 < n \<and> 2 ^ (8 * (n - 1)) \<le> unat i"
  shows "intsize i = n"
proof (rule ccontr)
  note b = intsize_bounds [of i] and p = intsize_pos [of i]
  assume "intsize i \<noteq> n"
  then consider "intsize i < n" | "n < intsize i" by linarith
  then show False
  proof cases
    case 1
    then have "(2 :: nat) ^ (8 * intsize i) \<le> 2 ^ (8 * (n - 1))" "n \<noteq> 1" using p by (auto intro: power_increasing)
    with b assms(2) show False by linarith
  next
    case 2
    then have "(2 :: nat) ^ (8 * n) \<le> 2 ^ (8 * (intsize i - 1))" "intsize i \<noteq> 1"
      using assms(2) by (auto intro: power_increasing)
    with b assms(1) show False by linarith
  qed
qed

lemma intsize_le: "intsize i \<le> 8"
proof (rule ccontr)
  assume "\<not> intsize i \<le> 8"
  then have "(2 :: nat) ^ 64 \<le> 2 ^ (8 * (intsize i - 1))" by (intro power_increasing) auto
  moreover have "unat i < 2 ^ 64" by (rule unat_64)
  ultimately show False using intsize_bounds [of i] \<open>\<not> intsize i \<le> 8\<close> by auto
qed

lemma putint_eq: "putint i = be_put (intsize i) i"
proof -
  note u = intsize_unique [of i]
  have "unat i < 2 ^ 64" by (rule unat_64)
  then show ?thesis
    using u [of 1] u [of 2] u [of 3] u [of 4] u [of 5] u [of 6] u [of 7] u [of 8]
    by (simp add: putint_def word_less_nat_alt)
qed

lemma be_get_putint [simp]: "be_get (putint i) = i"
  using intsize_bounds [of i] by (simp add: putint_eq be_get_put)

lemma length_putint [simp]: "length (putint i) = intsize i"
  by (simp add: putint_eq)

lemma putint_be_get:
  assumes "bs \<noteq> []" "length bs \<le> 8" "hd bs \<noteq> 0"
  shows "putint (be_get bs) = bs"
proof -
  have "intsize (be_get bs) = length bs"
    using be_get_less [of bs] be_get_ge [OF assms] assms(1) by (intro intsize_unique) auto
  then show ?thesis by (simp add: putint_eq be_put_get assms(2))
qed

section \<open>What Split returns\<close>

text \<open>The bytes of a value of kind \<open>k\<close> with the given content, and which contents it can have.\<close>

fun enc_value :: "Kind \<Rightarrow> byte list \<Rightarrow> byte list" where
  "enc_value Byte c = c"
| "enc_value String c = head_bytes 0x80 0xB7 (of_nat (length c)) @ c"
| "enc_value List c = head_bytes 0xC0 0xF7 (of_nat (length c)) @ c"

fun content_ok :: "Kind \<Rightarrow> byte list \<Rightarrow> bool" where
  "content_ok Byte c = (length c = 1 \<and> hd c < 0x80)"
| "content_ok String c = (\<not> (length c = 1 \<and> hd c < 0x80))"
| "content_ok List c = True"

lemma unat_length: "length bs < 2 ^ 64 \<Longrightarrow> unat (of_nat (length bs) :: u64) = length bs"
  by (simp add: unsigned_of_nat take_bit_nat_eq_self)

lemma hd_putint:
  assumes "sz \<noteq> 0"
  shows "hd (putint sz) \<noteq> 0"
proof
  let ?bs = "putint sz" and ?n = "intsize sz - 1"
  assume z: "hd ?bs = 0"
  have ne: "?bs \<noteq> []" using intsize_pos [of sz] by (metis length_putint length_greater_0_conv)
  have "\<not> bit sz j" if j: "8 * ?n \<le> j" for j
  proof
    assume b: "bit sz j"
    have "j < 8 * intsize sz" using intsize_bounds [of sz] b by (metis not_le unat_less_bits)
    then have "j div 8 = ?n" using j by auto
    moreover have "bit (le_get (rev ?bs) :: u64) j" using b be_get_putint [of sz] by (simp add: be_get_def)
    ultimately have "bit (rev ?bs ! ?n) (j mod 8)" by (simp add: bit_le_get)
    moreover have "rev ?bs ! ?n = hd ?bs" using ne intsize_pos [of sz] by (simp add: rev_nth hd_conv_nth)
    ultimately show False using z by simp
  qed
  then have "unat sz < 2 ^ (8 * ?n)" by (simp add: unat_less_bits)
  with intsize_bounds [of sz] have "unat sz < 1" by (cases "intsize sz = 1") auto
  with assms show False by (simp add: unat_eq_0)
qed

lemma readSize_raw_putint:
  assumes "56 \<le> sz"
  shows "readSize_raw (putint sz @ r) (intsize sz) = Inr sz"
proof -
  have "putint sz \<noteq> []" using intsize_pos [of sz] by (metis length_putint length_greater_0_conv)
  moreover have "sz \<noteq> 0" using assms by auto
  ultimately show ?thesis
    using assms hd_putint [of sz] intsize_pos [of sz] by (simp add: readSize_raw_def Let_def nth_append hd_conv_nth not_less)
qed

lemma readSize_raw_head:
  assumes "readSize_raw r n = Inr sz" "1 \<le> n" "n \<le> 8"
  shows "n \<le> length r" "56 \<le> sz" "putint sz = take n r"
proof -
  from assms(1) show l: "n \<le> length r" and "56 \<le> sz"
    by (auto simp: readSize_raw_def Let_def not_less split: if_splits)
  from assms(1) l have "sz = be_get (take n r)" "r ! 0 \<noteq> 0"
    by (auto simp: readSize_raw_def Let_def split: if_splits)
  moreover have "hd (take n r) = r ! 0" using assms(2) l by (cases r; cases n) auto
  moreover have "take n r \<noteq> []" "length (take n r) \<le> 8" using assms(2,3) l by auto
  ultimately show "putint sz = take n r" using putint_be_get by metis
qed

text \<open>The first byte of a long header.\<close>

lemma small_nat_cases: "1 \<le> n \<Longrightarrow> n \<le> 8 \<Longrightarrow> n \<in> {1, 2, 3, 4, 5, 6, 7, 8 :: nat}"
  by auto

lemma long_tags:
  assumes "1 \<le> n" "n \<le> 8"
  shows "0xB7 + of_nat n - 0xB7 = (of_nat n :: byte)" "unat (of_nat n :: byte) = n"
    "0xB8 \<le> 0xB7 + (of_nat n :: byte)" "0xB7 + (of_nat n :: byte) < 0xC0"
    "0xF8 \<le> 0xF7 + (of_nat n :: byte)"
    "ucast (of_nat n :: byte) + 1 = (of_nat (Suc n) :: u64)"
  using small_nat_cases [OF assms] by (auto simp: word_less_nat_alt word_le_nat_alt)

lemma tag_of:
  fixes t :: byte
  shows "0xB8 \<le> t \<Longrightarrow> t < 0xC0 \<Longrightarrow> \<exists>n. 1 \<le> n \<and> n \<le> 8 \<and> t = 0xB7 + of_nat n \<and> unat (t - 0xB7) = n"
    and "0xF8 \<le> t \<Longrightarrow> \<exists>n. 1 \<le> n \<and> n \<le> 8 \<and> t = 0xF7 + of_nat n \<and> unat (t - 0xF7) = n"
proof -
  have lt: "unat t < 256" using unsigned_less [of t] by simp
  have d: "unat (t - k) = unat t - unat k" if "k \<le> t" for k
    using that by (simp add: unat_sub)
  have e: "t = k + of_nat (unat (t - k))" for k by simp
  show "\<exists>n. 1 \<le> n \<and> n \<le> 8 \<and> t = 0xB7 + of_nat n \<and> unat (t - 0xB7) = n" if "0xB8 \<le> t" "t < 0xC0"
    using that d [of "0xB7"] e [of "0xB7"] by (intro exI [of _ "unat (t - 0xB7)"]) (auto simp: word_le_nat_alt word_less_nat_alt)
  show "\<exists>n. 1 \<le> n \<and> n \<le> 8 \<and> t = 0xF7 + of_nat n \<and> unat (t - 0xF7) = n" if "0xF8 \<le> t"
    using that lt d [of "0xF7"] e [of "0xF7"] by (intro exI [of _ "unat (t - 0xF7)"]) (auto simp: word_le_nat_alt)
qed

text \<open>A short header.\<close>

lemma short_tags:
  fixes t :: byte
  shows "0x80 \<le> t \<Longrightarrow> t < 0xB8 \<Longrightarrow> (ucast (t - 0x80) :: u64) < 56 \<and> head_bytes 0x80 0xB7 (ucast (t - 0x80)) = [t]"
    and "0xC0 \<le> t \<Longrightarrow> t < 0xF8 \<Longrightarrow> (ucast (t - 0xC0) :: u64) < 56 \<and> head_bytes 0xC0 0xF7 (ucast (t - 0xC0)) = [t]"
proof -
  have d: "unat (t - k) = unat t - unat k" if "k \<le> t" for k
    using that by (simp add: unat_sub)
  have u: "(ucast (ucast x :: u64) :: byte) = x" for x :: byte
    by (intro bit_word_eqI) (auto simp: bit_simps)
  have v: "unat (ucast x :: u64) = unat x" for x :: byte
  proof -
    have "unat x < 256" using unsigned_less [of x] by simp
    then show ?thesis by (simp add: unsigned_ucast_eq take_bit_nat_eq_self)
  qed
  have "(ucast (t - 0x80) :: u64) < 56" if "0x80 \<le> t" "t < 0xB8"
    using that d [of "0x80"] by (auto simp: word_le_nat_alt word_less_nat_alt v)
  then show "0x80 \<le> t \<Longrightarrow> t < 0xB8 \<Longrightarrow> (ucast (t - 0x80) :: u64) < 56 \<and> head_bytes 0x80 0xB7 (ucast (t - 0x80)) = [t]"
    by (simp add: head_bytes_def u)
  have "(ucast (t - 0xC0) :: u64) < 56" if "0xC0 \<le> t" "t < 0xF8"
    using that d [of "0xC0"] by (auto simp: word_le_nat_alt word_less_nat_alt v)
  then show "0xC0 \<le> t \<Longrightarrow> t < 0xF8 \<Longrightarrow> (ucast (t - 0xC0) :: u64) < 56 \<and> head_bytes 0xC0 0xF7 (ucast (t - 0xC0)) = [t]"
    by (simp add: head_bytes_def u)
qed

lemma short_tag_back:
  assumes "(sz :: u64) < 56"
  shows "0x80 \<le> 0x80 + (ucast sz :: byte)" "0x80 + (ucast sz :: byte) < 0xB8" "ucast (0x80 + (ucast sz :: byte) - 0x80) = sz"
    "0xC0 \<le> 0xC0 + (ucast sz :: byte)" "0xC0 + (ucast sz :: byte) < 0xF8" "ucast (0xC0 + (ucast sz :: byte) - 0xC0) = sz"
proof -
  have n: "unat sz < 56" using assms by (simp add: word_less_nat_alt)
  have u: "unat (ucast sz :: byte) = unat sz" using n by (simp add: unsigned_ucast_eq take_bit_nat_eq_self)
  then show "ucast (0x80 + (ucast sz :: byte) - 0x80) = sz" "ucast (0xC0 + (ucast sz :: byte) - 0xC0) = sz"
    using n by (simp_all add: word_unat_eq_iff unsigned_ucast_eq unsigned_take_bit_eq take_bit_nat_eq_self)
  have "unat (k + (ucast sz :: byte)) = unat k + unat sz" if "unat k < 200" for k
    using n u that by (simp add: unat_word_ariths)
  from this [of "0x80"] this [of "0xC0"] n
  show "0x80 \<le> 0x80 + (ucast sz :: byte)" "0x80 + (ucast sz :: byte) < 0xB8"
    "0xC0 \<le> 0xC0 + (ucast sz :: byte)" "0xC0 + (ucast sz :: byte) < 0xF8"
    by (simp_all add: word_le_nat_alt word_less_nat_alt)
qed

lemma long_head_bytes:
  assumes "56 \<le> sz"
  shows "head_bytes small large sz = (large + of_nat (intsize sz)) # putint sz"
proof -
  have "\<not> sz < 56" using assms by simp
  then show ?thesis by (simp add: head_bytes_def Let_def)
qed

text \<open>A parsed header is followed by its content.\<close>

lemma header_content:
  fixes ts cs :: u64
  assumes "b = h @ r" "unat ts = length h" "cs \<le> of_nat (length b) - ts" "length b < 2 ^ 64"
  shows "unat cs \<le> length r" "drop (unat ts) b = r" "length (take (unat cs) r) = unat cs"
proof -
  have "unat ts \<le> length b" using assms(1,2) by simp
  then have "ts \<le> of_nat (length b)" unfolding word_le_nat_alt unat_length [OF assms(4)] .
  then have "unat (of_nat (length b) - ts) = length b - unat ts" using assms(4) by (simp add: unat_sub unat_length)
  with assms(1-3) show "unat cs \<le> length r" by (simp add: word_le_nat_alt)
  then show "drop (unat ts) b = r" "length (take (unat cs) r) = unat cs" using assms(1,2) by simp_all
qed

lemma of_nat_take_unat: "unat cs \<le> length r \<Longrightarrow> of_nat (length (take (unat cs) r)) = (cs :: u64)"
  by simp

lemma readKind_raw_bound:
  assumes "readKind_raw b = Inr (k, ts, cs)"
  shows "cs \<le> of_nat (length b) - ts"
proof -
  obtain t r where b: "b = t # r" using assms by (cases b) (auto simp: readKind_raw_def)
  show ?thesis
    using assms [unfolded b readKind_raw_def list.case, folded b]
    by (elim bindE_InrE) (auto simp: word_le_nat_alt unat_gt_0 Suc_le_eq not_less split: prod.splits if_splits)
qed

lemma Split_sound:
  assumes "Split b = Inr (k, c, rest)" "length b < 2 ^ 64"
  shows "content_ok k c \<and> b = enc_value k c @ rest"
proof -
  from assms(1) obtain ts cs where r: "readKind_raw b = Inr (k, ts, cs)"
    and c: "c = take (unat cs) (drop (unat ts) b)" "rest = drop (unat ts + unat cs) b"
    by (auto simp: Split_def elim!: bindE_InrE)
  from r obtain t r0 where b: "b = t # r0" by (cases b) (auto simp: readKind_raw_def)
  note h = header_content [OF _ _ readKind_raw_bound [OF r] assms(2)]
  consider "t < 0x80" | "0x80 \<le> t" "t < 0xB8" | "0xB8 \<le> t" "t < 0xC0" | "0xC0 \<le> t" "t < 0xF8" | "0xF8 \<le> t"
    by (meson not_less)
  then show ?thesis
  proof cases
    case 1
    then have "k = Byte" "ts = 0" "cs = 1" using r by (auto simp: readKind_raw_def b elim!: bindE_InrE split: if_splits)
    then show ?thesis using c 1 by (simp add: b)
  next
    case 2
    then have k: "k = String" "ts = 1" "cs = ucast (t - 0x80)" and nc: "\<not> (cs = 1 \<and> length b > 1 \<and> b ! 1 < 128)"
      using r by (auto simp: readKind_raw_def b elim!: bindE_InrE split: if_splits)
    have l: "unat cs \<le> length r0" "drop (unat ts) b = r0" using h [of "[t]" r0] k(2) b by simp_all
    have "c = take (unat cs) r0" "rest = drop (unat cs) r0" using c l(2) k(2) by (simp_all add: b)
    moreover have "head_bytes 0x80 0xB7 (of_nat (length (take (unat cs) r0))) = [t]"
      using short_tags(1) [OF 2] k(3) unfolding of_nat_take_unat [OF l(1)] by simp
    moreover have "content_ok String (take (unat cs) r0)"
    proof -
      have "unat cs = 1 \<longleftrightarrow> cs = 1" by (simp add: word_unat_eq_iff)
      then show ?thesis using nc b l(1) by (cases r0) auto
    qed
    ultimately show ?thesis using b k(1) by simp
  next
    case 3
    from tag_of(1) [OF 3] obtain n where n: "1 \<le> n" "n \<le> 8" "t = 0xB7 + of_nat n" "unat (t - 0xB7) = n" by blast
    from 3 have "\<not> t < 0x80" "\<not> t < 0xB8" by (auto simp: word_le_nat_alt word_less_nat_alt)
    with r 3 have k: "k = String" "readSize_raw r0 n = Inr cs" "ts = ucast (t - 0xB7) + 1"
      by (auto simp: readKind_raw_def b n(4) elim!: bindE_InrE split: if_splits)
    note s = readSize_raw_head [OF k(2) n(1,2)]
    have "ts = of_nat (Suc n)" using long_tags(1,6) [OF n(1,2)] k(3) n(3) by simp
    then have ts: "unat ts = Suc n" using n(2) by (simp add: unsigned_of_nat take_bit_nat_eq_self del: of_nat_Suc)
    have h: "unat cs \<le> length (drop n r0)" "drop (unat ts) b = drop n r0"
      using h [of "t # take n r0" "drop n r0"] ts b s(1) by simp_all
    have c': "c = take (unat cs) (drop n r0)" "rest = drop (unat cs) (drop n r0)"
      using c h(2) ts by (simp_all add: b add.commute)
    have "intsize cs = n" using arg_cong [OF s(3), of length] s(1) by simp
    then have "head_bytes 0x80 0xB7 cs = t # take n r0" using long_head_bytes [OF s(2)] s(3) n(3) by simp
    then have "enc_value String c = t # take n r0 @ take (unat cs) (drop n r0)"
      using c'(1) of_nat_take_unat [OF h(1)] by simp
    moreover have "length c = unat cs" using c'(1) h(1) by simp
    moreover have "unat cs \<noteq> 1" using s(2) by (auto simp: word_le_nat_alt)
    ultimately show ?thesis using k(1) b unfolding c'(2) by (simp del: drop_drop)
  next
    case 4
    then have "\<not> t < 0x80" "\<not> t < 0xB8" "\<not> t < 0xC0" by (auto simp: word_le_nat_alt word_less_nat_alt)
    with 4 have k: "k = List" "ts = 1" "cs = ucast (t - 0xC0)"
      using r by (auto simp: readKind_raw_def b elim!: bindE_InrE split: if_splits)
    have l: "unat cs \<le> length r0" "drop (unat ts) b = r0" using h [of "[t]" r0] k(2) b by simp_all
    have "c = take (unat cs) r0" "rest = drop (unat cs) r0" using c l(2) k(2) by (simp_all add: b)
    moreover have "head_bytes 0xC0 0xF7 (of_nat (length (take (unat cs) r0))) = [t]"
      using short_tags(2) [OF 4] k(3) unfolding of_nat_take_unat [OF l(1)] by simp
    ultimately show ?thesis using b k(1) by simp
  next
    case 5
    from tag_of(2) [OF 5] obtain n where n: "1 \<le> n" "n \<le> 8" "t = 0xF7 + of_nat n" "unat (t - 0xF7) = n" by blast
    from 5 have "\<not> t < 0x80" "\<not> t < 0xB8" "\<not> t < 0xC0" "\<not> t < 0xF8" by (auto simp: word_le_nat_alt word_less_nat_alt)
    with r 5 have k: "k = List" "readSize_raw r0 n = Inr cs" "ts = ucast (t - 0xF7) + 1"
      by (auto simp: readKind_raw_def b n(4) elim!: bindE_InrE split: if_splits)
    note s = readSize_raw_head [OF k(2) n(1,2)]
    have "ts = of_nat (Suc n)" using long_tags(6) [OF n(1,2)] k(3) n(3) by simp
    then have ts: "unat ts = Suc n" using n(2) by (simp add: unsigned_of_nat take_bit_nat_eq_self del: of_nat_Suc)
    have h: "unat cs \<le> length (drop n r0)" "drop (unat ts) b = drop n r0"
      using h [of "t # take n r0" "drop n r0"] ts b s(1) by simp_all
    have c': "c = take (unat cs) (drop n r0)" "rest = drop (unat cs) (drop n r0)"
      using c h(2) ts by (simp_all add: b add.commute)
    have "intsize cs = n" using arg_cong [OF s(3), of length] s(1) by simp
    then have "head_bytes 0xC0 0xF7 cs = t # take n r0" using long_head_bytes [OF s(2)] s(3) n(3) by simp
    then show ?thesis using k(1) b of_nat_take_unat [OF h(1)] unfolding c' by (simp del: drop_drop)
  qed
qed

lemma large_content:
  fixes cs :: u64
  assumes "length (h @ c @ rest) < 2 ^ 64" "unat cs = length c" "unat ts = length h"
  shows "\<not> of_nat (length (h @ c @ rest)) - ts < cs"
proof -
  have "ts \<le> of_nat (length (h @ c @ rest))"
    unfolding word_le_nat_alt unat_length [OF assms(1)] using assms(3) by simp
  then have "unat (of_nat (length (h @ c @ rest)) - ts) = length (h @ c @ rest) - length h"
    using assms(1,3) by (simp only: unat_sub unat_length)
  then show ?thesis using assms(2) by (simp add: word_less_nat_alt)
qed

text \<open>Reading the header of a value gives the value's kind and the lengths of header and content.\<close>

lemma readKind_raw_enc:
  assumes "content_ok k c" "length (enc_value k c @ rest) < 2 ^ 64"
  shows "\<exists>h ts cs. enc_value k c = h @ c \<and> unat ts = length h \<and> unat cs = length c \<and>
    readKind_raw (enc_value k c @ rest) = Inr (k, ts, cs)"
proof (cases k)
  case Byte
  then obtain x where c: "c = [x]" "x < 0x80" using assms(1) by (cases c) auto
  have "\<not> of_nat (length (c @ rest)) - 0 < (1 :: u64)"
    using large_content [of "[]" c rest 1 0] assms(2) Byte c by simp
  then have "readKind_raw (enc_value k c @ rest) = Inr (k, 0, 1)" using Byte c by (simp add: readKind_raw_def)
  then show ?thesis using Byte c by (intro exI [of _ "[]"] exI [of _ 0] exI [of _ 1]) simp
next
  case String
  let ?sz = "of_nat (length c) :: u64" and ?b = "enc_value k c @ rest"
  have u: "unat ?sz = length c" using assms(2) String by (intro unat_length) simp
  show ?thesis
  proof (cases "?sz < 56")
    case True
    let ?t = "0x80 + ucast ?sz :: byte"
    note t = short_tag_back(1-3) [OF True]
    have nt: "\<not> ?t < 0x80" using t(1) by (auto simp: word_le_nat_alt word_less_nat_alt)
    have h: "enc_value k c = [?t] @ c" using True String by (simp add: head_bytes_def)
    have nc: "\<not> (?sz = 1 \<and> length ?b > 1 \<and> ?b ! 1 < 128)"
    proof
      assume a: "?sz = 1 \<and> length ?b > 1 \<and> ?b ! 1 < 128"
      then have "length c = 1" using u by simp
      then show False using a h assms(1) String by (cases c) auto
    qed
    have "\<not> of_nat (length ?b) - 1 < ?sz"
      using large_content [of "[?t]" c rest ?sz 1] assms(2) u h by simp
    then have "readKind_raw ?b = Inr (k, 1, ?sz)"
      using nt t nc String unfolding h by (simp add: readKind_raw_def)
    then show ?thesis using h u by (intro exI [of _ "[?t]"] exI [of _ 1] exI [of _ ?sz]) simp
  next
    case False
    let ?n = "intsize ?sz" let ?t = "0xB7 + of_nat ?n :: byte" let ?h = "?t # putint ?sz"
    have n: "1 \<le> ?n" "?n \<le> 8" "56 \<le> ?sz" using intsize_pos [of ?sz] intsize_le [of ?sz] False by auto
    note t = long_tags(1-4,6) [OF n(1,2)]
    have nt: "\<not> ?t < 0x80" "\<not> ?t < 0xB8" using t(3) by (auto simp: word_le_nat_alt word_less_nat_alt)
    have h: "enc_value k c = ?h @ c" using long_head_bytes [OF n(3)] String by simp
    have ts: "unat (of_nat (Suc ?n) :: u64) = length ?h" using n(2) by (simp add: unsigned_of_nat take_bit_nat_eq_self del: of_nat_Suc)
    have "\<not> of_nat (length (enc_value k c @ rest)) - of_nat (Suc ?n) < ?sz"
      using large_content [of ?h c rest ?sz "of_nat (Suc ?n)"] assms(2) u ts h by simp
    then have "readKind_raw ?b = Inr (k, of_nat (Suc ?n), ?sz)"
      using nt t n String unfolding h by (simp add: readKind_raw_def readSize_raw_putint del: of_nat_Suc)
    then show ?thesis using h u ts by blast
  qed
next
  case List
  let ?sz = "of_nat (length c) :: u64" and ?b = "enc_value k c @ rest"
  have u: "unat ?sz = length c" using assms(2) List by (intro unat_length) simp
  show ?thesis
  proof (cases "?sz < 56")
    case True
    let ?t = "0xC0 + ucast ?sz :: byte"
    note t = short_tag_back(4-6) [OF True]
    have nt: "\<not> ?t < 0x80" "\<not> ?t < 0xB8" "\<not> ?t < 0xC0" using t(1) by (auto simp: word_le_nat_alt word_less_nat_alt)
    have h: "enc_value k c = [?t] @ c" using True List by (simp add: head_bytes_def)
    have "\<not> of_nat (length ?b) - 1 < ?sz"
      using large_content [of "[?t]" c rest ?sz 1] assms(2) u h by simp
    then have "readKind_raw ?b = Inr (k, 1, ?sz)"
      using nt t List unfolding h by (simp add: readKind_raw_def)
    then show ?thesis using h u by (intro exI [of _ "[?t]"] exI [of _ 1] exI [of _ ?sz]) simp
  next
    case False
    let ?n = "intsize ?sz" let ?t = "0xF7 + of_nat ?n :: byte" let ?h = "?t # putint ?sz"
    have n: "1 \<le> ?n" "?n \<le> 8" "56 \<le> ?sz" using intsize_pos [of ?sz] intsize_le [of ?sz] False by auto
    note t = long_tags(2,5,6) [OF n(1,2)]
    have nt: "\<not> ?t < 0x80" "\<not> ?t < 0xB8" "\<not> ?t < 0xC0" "\<not> ?t < 0xF8"
      using t(2) by (auto simp: word_le_nat_alt word_less_nat_alt)
    have h: "enc_value k c = ?h @ c" using long_head_bytes [OF n(3)] List by simp
    have ts: "unat (of_nat (Suc ?n) :: u64) = length ?h" using n(2) by (simp add: unsigned_of_nat take_bit_nat_eq_self del: of_nat_Suc)
    have "\<not> of_nat (length (enc_value k c @ rest)) - of_nat (Suc ?n) < ?sz"
      using large_content [of ?h c rest ?sz "of_nat (Suc ?n)"] assms(2) u ts h by simp
    then have "readKind_raw ?b = Inr (k, of_nat (Suc ?n), ?sz)"
      using nt t n List unfolding h by (simp add: readKind_raw_def readSize_raw_putint del: of_nat_Suc)
    then show ?thesis using h u ts by blast
  qed
qed

lemma Split_complete:
  assumes "content_ok k c" "length (enc_value k c @ rest) < 2 ^ 64"
  shows "Split (enc_value k c @ rest) = Inr (k, c, rest)"
proof -
  from readKind_raw_enc [OF assms] obtain h ts cs where
    h: "enc_value k c = h @ c" "unat ts = length h" "unat cs = length c"
    and r: "readKind_raw (enc_value k c @ rest) = Inr (k, ts, cs)" by blast
  show ?thesis unfolding Split_def r using h by simp
qed

text \<open>
  \<open>Split\<close> accepts exactly the inputs that start with a canonically encoded value, and takes it
  apart into its kind, its content and the bytes that follow.
\<close>

lemma Split_iff:
  assumes "length b < 2 ^ 64"
  shows "Split b = Inr (k, c, rest) \<longleftrightarrow> content_ok k c \<and> b = enc_value k c @ rest"
  using Split_sound [of b k c rest] Split_complete [of k c rest] assms by auto

section \<open>Counting values\<close>

lemma readKind_raw_pos:
  assumes "readKind_raw b = Inr (k, ts, cs)"
  shows "0 < unat ts + unat cs"
proof (rule ccontr)
  assume "\<not> 0 < unat ts + unat cs"
  then have z: "ts = 0" "cs = 0" by (simp_all add: unat_eq_0)
  have nz: "ucast x + 1 \<noteq> (0 :: u64)" for x :: byte
  proof -
    have "unat x < 256" using unsigned_less [of x] by simp
    then have "unat (ucast x + 1 :: u64) = unat x + 1"
      by (simp add: unat_word_ariths unsigned_ucast_eq take_bit_nat_eq_self)
    then show ?thesis by (metis add_is_0 one_neq_zero unsigned_0)
  qed
  obtain t r where b: "b = t # r" using assms by (cases b) (auto simp: readKind_raw_def)
  show False
    using assms nz [of "t - 0xB7"] nz [of "t - 0xF7"] unfolding z
    by (auto simp: b readKind_raw_def elim!: bindE_InrE split: if_splits)
qed

function CountValues :: "byte list \<Rightarrow> rlp_error + nat" where
  "CountValues b =
     (if b = [] then Inr 0
      else bindE (readKind_raw b) (\<lambda>(k, ts, cs).
             bindE (CountValues (drop (unat ts + unat cs) b)) (\<lambda>n. Inr (Suc n))))"
  by pat_completeness auto
termination by (relation "measure length") (auto dest!: readKind_raw_pos)

declare CountValues.simps [simp del]

lemma CountValues_Nil [simp]: "CountValues [] = Inr 0"
  by (simp add: CountValues.simps)

lemma CountValues_Split:
  assumes "b \<noteq> []"
  shows "CountValues b = bindE (Split b) (\<lambda>(k, c, rest). bindE (CountValues rest) (\<lambda>n. Inr (Suc n)))"
  using assms by (subst CountValues.simps) (cases "readKind_raw b", auto simp: Split_def)

text \<open>The concatenation of a list of values, each given by its kind and its content.\<close>

definition values_ok :: "(Kind \<times> byte list) list \<Rightarrow> bool" where
  "values_ok vs = list_all (\<lambda>(k, c). content_ok k c) vs"

definition enc_values :: "(Kind \<times> byte list) list \<Rightarrow> byte list" where
  "enc_values vs = concat (map (\<lambda>(k, c). enc_value k c) vs)"

lemma values_simps [simp]:
  "values_ok [] = True"
  "values_ok ((k, c) # vs) = (content_ok k c \<and> values_ok vs)"
  "enc_values [] = []"
  "enc_values ((k, c) # vs) = enc_value k c @ enc_values vs"
  by (simp_all add: values_ok_def enc_values_def)

lemma enc_value_not_Nil: "content_ok k c \<Longrightarrow> enc_value k c \<noteq> []"
  by (cases k) (auto simp: head_bytes_def Let_def)

lemma CountValues_complete:
  "values_ok vs \<Longrightarrow> length (enc_values vs) < 2 ^ 64 \<Longrightarrow> CountValues (enc_values vs) = Inr (length vs)"
proof (induction vs)
  case (Cons v vs)
  obtain k c where v: "v = (k, c)" by fastforce
  with Cons.prems have ok: "content_ok k c" "length (enc_value k c @ enc_values vs) < 2 ^ 64" by simp_all
  have ne: "enc_value k c @ enc_values vs \<noteq> []" using enc_value_not_Nil [OF ok(1)] by simp
  show ?case
    using Cons v Split_complete [OF ok] by (simp add: CountValues_Split [OF ne] enc_value_not_Nil)
qed simp

lemma CountValues_sound:
  "CountValues b = Inr n \<Longrightarrow> length b < 2 ^ 64 \<Longrightarrow> \<exists>vs. values_ok vs \<and> length vs = n \<and> b = enc_values vs"
proof (induction "length b" arbitrary: b n rule: less_induct)
  case less
  show ?case
  proof (cases "b = []")
    case True
    then show ?thesis using less.prems by (intro exI [of _ "[]"]) simp
  next
    case False
    with less.prems obtain k c rest m where s: "Split b = Inr (k, c, rest)"
      and m: "CountValues rest = Inr m" "n = Suc m"
      by (auto simp: CountValues_Split elim!: bindE_InrE)
    have b: "content_ok k c" "b = enc_value k c @ rest" using Split_sound [OF s less.prems(2)] by simp_all
    then have "length rest < length b" "length rest < 2 ^ 64" using enc_value_not_Nil less.prems(2) by auto
    from less.hyps [OF this(1) m(1) this(2)] obtain vs where "values_ok vs" "length vs = m" "rest = enc_values vs" by blast
    then show ?thesis using b m(2) by (intro exI [of _ "(k, c) # vs"]) simp
  qed
qed

text \<open>\<open>CountValues\<close> succeeds exactly on a concatenation of canonical values, and counts them.\<close>

lemma CountValues_iff:
  assumes "length b < 2 ^ 64"
  shows "CountValues b = Inr n \<longleftrightarrow> (\<exists>vs. values_ok vs \<and> length vs = n \<and> b = enc_values vs)"
  using CountValues_sound [OF _ assms] CountValues_complete assms by blast

text \<open>\<open>ListSize\<close> is the length of the encoding of a list.\<close>

lemma length_head_bytes: "length (head_bytes s l sz) = headsize sz"
  by (simp add: head_bytes_def headsize_def Let_def)

lemma ListSize_enc:
  assumes "length (enc_value List c) < 2 ^ 64"
  shows "unat (ListSize (of_nat (length c))) = length (enc_value List c)"
proof -
  have "ListSize (of_nat (length c)) = of_nat (length (enc_value List c))"
    by (simp add: ListSize_def length_head_bytes)
  then show ?thesis using unat_length [OF assms] by simp
qed

end
