(* ===== verification/RlpEnc.thy ===== *)
theory RlpEnc
  imports RlpCore
begin

text \<open>
  The encoding buffer of \<^verbatim>\<open>util/serialize/rlp/encode.go\<close>: string data and list headers are
  kept apart while a value is written, and are merged by \<^verbatim>\<open>toBytes\<close>, by \<^verbatim>\<open>toWriter\<close> or by the
  reader of \<^verbatim>\<open>EncodeToReader\<close>.  A \<^verbatim>\<open>*listhead\<close> is its index in \<^verbatim>\<open>lheads\<close>; the scratch array
  \<^verbatim>\<open>sizebuf\<close> is always written before it is read and holds no state.
\<close>

section \<open>The buffer\<close>

record listhead =
  lh_offset :: nat
  lh_size :: int

record encbuf =
  eb_str :: "byte list"
  eb_lheads :: "listhead list"
  eb_lhsize :: int

definition new_encbuf :: encbuf where
  "new_encbuf = \<lparr>eb_str = [], eb_lheads = [], eb_lhsize = 0\<rparr>"

definition encbuf_reset :: "encbuf \<Rightarrow> encbuf" where
  "encbuf_reset w = w\<lparr>eb_lhsize := 0, eb_str := [], eb_lheads := []\<rparr>"

definition encbuf_Write :: "encbuf \<Rightarrow> byte list \<Rightarrow> encbuf \<times> nat" where
  "encbuf_Write w b = (w\<lparr>eb_str := eb_str w @ b\<rparr>, length b)"

definition append_str :: "byte list \<Rightarrow> encbuf \<Rightarrow> encbuf" where
  "append_str b w = w\<lparr>eb_str := eb_str w @ b\<rparr>"

definition listhead_encode :: "listhead \<Rightarrow> byte list" where
  "listhead_encode h = head_bytes 0xC0 0xF7 (of_int (lh_size h))"

definition encodeStringHeader :: "nat \<Rightarrow> encbuf \<Rightarrow> encbuf" where
  "encodeStringHeader n w =
     (if n < 56 then append_str [0x80 + of_nat n] w
      else let bs = putint (of_nat n) in append_str ((0xB7 + of_nat (length bs)) # bs) w)"

definition encodeString :: "byte list \<Rightarrow> encbuf \<Rightarrow> encbuf" where
  "encodeString b w =
     (if length b = 1 \<and> hd b \<le> 0x7F then append_str [hd b] w
      else append_str b (encodeStringHeader (length b) w))"

definition encbuf_size :: "encbuf \<Rightarrow> int" where
  "encbuf_size w = int (length (eb_str w)) + eb_lhsize w"

definition encbuf_list :: "encbuf \<Rightarrow> nat \<times> encbuf" where
  "encbuf_list w =
     (length (eb_lheads w),
      w\<lparr>eb_lheads := eb_lheads w @ [\<lparr>lh_offset = length (eb_str w), lh_size = eb_lhsize w\<rparr>]\<rparr>)"

definition encbuf_listEnd :: "nat \<Rightarrow> encbuf \<Rightarrow> encbuf" where
  "encbuf_listEnd i w =
     (let lh = eb_lheads w ! i;
          sz = encbuf_size w - int (lh_offset lh) - lh_size lh
      in w\<lparr>eb_lheads := (eb_lheads w)[i := lh\<lparr>lh_size := sz\<rparr>],
           eb_lhsize := eb_lhsize w + (if sz < 56 then 1 else 1 + int (intsize (of_int sz)))\<rparr>)"

section \<open>Getting the bytes out\<close>

definition go_slice :: "'a list \<Rightarrow> nat \<Rightarrow> nat \<Rightarrow> go_error + 'a list" where
  "go_slice xs i j = (if i \<le> j \<and> j \<le> length xs then Inr (take (j - i) (drop i xs)) else Inl SliceOutOfRange)"

fun toBytes_heads :: "byte list \<Rightarrow> listhead list \<Rightarrow> nat \<Rightarrow> nat \<Rightarrow> byte list \<Rightarrow> go_error + (nat \<times> nat \<times> byte list)" where
  "toBytes_heads str [] strpos pos out = Inr (strpos, pos, out)"
| "toBytes_heads str (head # heads) strpos pos out =
     (if length out < pos then Inl SliceOutOfRange
      else bindE (go_slice str strpos (lh_offset head)) (\<lambda>src.
        let n = min (length out - pos) (length src);
            out = go_copy_at pos out src;
            pos = pos + n
        in bindE (puthead (drop pos out) 0xC0 0xF7 (of_int (lh_size head))) (\<lambda>(m, tl).
             toBytes_heads str heads (strpos + n) (pos + m) (take pos out @ tl))))"

definition toBytes :: "encbuf \<Rightarrow> go_error + byte list" where
  "toBytes w =
     (if encbuf_size w < 0 then Inl MakeSliceLen
      else bindE (toBytes_heads (eb_str w) (eb_lheads w) 0 0 (replicate (nat (encbuf_size w)) 0)) (\<lambda>(strpos, pos, out).
        if length out < pos then Inl SliceOutOfRange
        else bindE (go_slice (eb_str w) strpos (length (eb_str w))) (\<lambda>src. Inr (go_copy_at pos out src))))"

text \<open>
  \<^verbatim>\<open>toWriter\<close> writes to any \<^verbatim>\<open>io.Writer\<close>: \<open>write s p\<close> is the writer's new state, the number of
  bytes taken and the error, if any.
\<close>

type_synonym ('s, 'e) writer = "'s \<Rightarrow> byte list \<Rightarrow> 's \<times> nat \<times> 'e option"

fun toWriter_heads ::
  "('s, 'e) writer \<Rightarrow> byte list \<Rightarrow> listhead list \<Rightarrow> nat \<Rightarrow> 's \<Rightarrow> go_error + ('s \<times> nat \<times> 'e option)" where
  "toWriter_heads write str [] strpos s = Inr (s, strpos, None)"
| "toWriter_heads write str (head # heads) strpos s =
     bindE
       (if strpos < lh_offset head then
          bindE (go_slice str strpos (lh_offset head)) (\<lambda>p.
            case write s p of (s, n, e) \<Rightarrow> Inr (s, strpos + n, e))
        else Inr (s, strpos, None))
       (\<lambda>(s, strpos, e).
          if e \<noteq> None then Inr (s, strpos, e)
          else case write s (listhead_encode head) of (s, n, e) \<Rightarrow>
            if e \<noteq> None then Inr (s, strpos, e)
            else toWriter_heads write str heads strpos s)"

definition toWriter :: "('s, 'e) writer \<Rightarrow> encbuf \<Rightarrow> 's \<Rightarrow> go_error + ('s \<times> 'e option)" where
  "toWriter write w s =
     bindE (toWriter_heads write (eb_str w) (eb_lheads w) 0 s) (\<lambda>(s, strpos, e).
       if e = None \<and> strpos < length (eb_str w)
       then case write s (drop strpos (eb_str w)) of (s, n, e) \<Rightarrow> Inr (s, e)
       else Inr (s, e))"

text \<open>The reader: \<open>er_buf = None\<close> when the end was reached.\<close>

record encReader =
  er_buf :: "encbuf option"
  er_lhpos :: nat
  er_strpos :: nat
  er_piece :: "byte list option"

definition new_encReader :: "encbuf \<Rightarrow> encReader" where
  "new_encReader w = \<lparr>er_buf = Some w, er_lhpos = 0, er_strpos = 0, er_piece = None\<rparr>"

definition encReader_next :: "encReader \<Rightarrow> go_error + (byte list option \<times> encReader)" where
  "encReader_next r =
     (case er_buf r of
        None \<Rightarrow> Inr (None, r)
      | Some w \<Rightarrow>
          (case er_piece r of
             Some p \<Rightarrow> Inr (Some p, r)
           | None \<Rightarrow>
               if er_lhpos r < length (eb_lheads w) then
                 let head = eb_lheads w ! er_lhpos r
                 in if er_strpos r < lh_offset head then
                      bindE (go_slice (eb_str w) (er_strpos r) (lh_offset head)) (\<lambda>p.
                        Inr (Some p, r\<lparr>er_strpos := lh_offset head\<rparr>))
                    else Inr (Some (listhead_encode head), r\<lparr>er_lhpos := er_lhpos r + 1\<rparr>)
               else if er_strpos r < length (eb_str w) then
                 Inr (Some (drop (er_strpos r) (eb_str w)), r\<lparr>er_strpos := length (eb_str w)\<rparr>)
               else Inr (None, r)))"

definition er_left :: "encReader \<Rightarrow> nat" where
  "er_left r =
     (case er_buf r of None \<Rightarrow> 0
      | Some w \<Rightarrow> 2 * (length (eb_lheads w) - er_lhpos r + (length (eb_str w) - er_strpos r)) +
                 (if er_piece r = None then 0 else 1))"

lemma encReader_next_left:
  "encReader_next r = Inr (Some p, r') \<Longrightarrow> er_left (r'\<lparr>er_piece := None\<rparr>) < er_left r"
  by (auto simp: encReader_next_def er_left_def go_slice_def Let_def split: option.splits if_splits elim!: bindE_InrE)

text \<open>\<open>Read r k out\<close>: \<open>k\<close> bytes of the caller's buffer are free, \<open>out\<close> was copied; the result is the
  bytes copied, whether \<^verbatim>\<open>io.EOF\<close> was returned, and the reader.\<close>

function (sequential) encReader_Read :: "encReader \<Rightarrow> nat \<Rightarrow> byte list \<Rightarrow> go_error + (byte list \<times> bool \<times> encReader)" where
  "encReader_Read r k out =
     bindE (encReader_next r) (\<lambda>(piece, r').
       case piece of
         None \<Rightarrow> Inr (out, True, r'\<lparr>er_piece := None, er_buf := None\<rparr>)
       | Some p \<Rightarrow>
           if k < length p then Inr (out @ take k p, False, r'\<lparr>er_piece := Some (drop k p)\<rparr>)
           else encReader_Read (r'\<lparr>er_piece := None\<rparr>) (k - length p) (out @ p))"
  by pat_completeness auto
termination by (relation "measure (\<lambda>(r, _). er_left r)") (auto dest: encReader_next_left)

declare encReader_Read.simps [simp del]

end
