(* ===== verification/RlpEncProps.thy ===== *)
theory RlpEncProps
  imports RlpEnc
begin

text \<open>
  What the encoding buffer stands for: the bytes \<open>flat\<close> of its string data with the list headers
  put in, that every way of getting the bytes out delivers exactly them, and how the operations
  that write to the buffer extend them.
\<close>

section \<open>The bytes of a buffer\<close>

fun flat :: "nat \<Rightarrow> byte list \<Rightarrow> listhead list \<Rightarrow> byte list" where
  "flat p s [] = s"
| "flat p s (h # hs) =
     take (lh_offset h - p) s @ listhead_encode h @ flat (lh_offset h) (drop (lh_offset h - p) s) hs"

fun heads_ok :: "nat \<Rightarrow> nat \<Rightarrow> listhead list \<Rightarrow> bool" where
  "heads_ok p n [] = True"
| "heads_ok p n (h # hs) =
     (p \<le> lh_offset h \<and> lh_offset h \<le> p + n \<and> heads_ok (lh_offset h) (p + n - lh_offset h) hs)"

definition heads_size :: "listhead list \<Rightarrow> nat" where
  "heads_size hs = sum_list (map (\<lambda>h. length (listhead_encode h)) hs)"

definition encbuf_ok :: "encbuf \<Rightarrow> bool" where
  "encbuf_ok w = (heads_ok 0 (length (eb_str w)) (eb_lheads w) \<and> eb_lhsize w = int (heads_size (eb_lheads w)))"

definition encbuf_bytes :: "encbuf \<Rightarrow> byte list" where
  "encbuf_bytes w = flat 0 (eb_str w) (eb_lheads w)"

lemma heads_size_simps [simp]:
  "heads_size [] = 0"
  "heads_size (h # hs) = length (listhead_encode h) + heads_size hs"
  "heads_size (hs @ hs') = heads_size hs + heads_size hs'"
  by (simp_all add: heads_size_def)

lemma length_flat: "heads_ok p (length s) hs \<Longrightarrow> length (flat p s hs) = length s + heads_size hs"
proof (induction hs arbitrary: p s)
  case (Cons h hs)
  then obtain k where k: "lh_offset h = p + k" by (auto simp: le_iff_add)
  then show ?case using Cons.prems Cons.IH [of "p + k" "drop k s"] by simp
qed simp

lemma heads_ok_mono: "heads_ok p n hs \<Longrightarrow> n \<le> n' \<Longrightarrow> heads_ok p n' hs"
  by (induction hs arbitrary: p n n') (auto simp: diff_le_mono)

lemma heads_ok_append:
  "heads_ok p n hs \<Longrightarrow> heads_ok (p + n) m hs' \<Longrightarrow> heads_ok p (n + m) (hs @ hs')"
proof (induction hs arbitrary: p n)
  case Nil
  then show ?case by (cases hs') (auto simp: add.assoc)
next
  case (Cons h hs)
  have "p + n - lh_offset h + m = p + (n + m) - lh_offset h" using Cons.prems by simp
  then show ?case using Cons.IH [of "lh_offset h" "p + n - lh_offset h"] Cons.prems by simp
qed

lemma flat_append:
  assumes "heads_ok p (length s) hs" "heads_ok (p + length s) (length s') hs'"
  shows "flat p (s @ s') (hs @ hs') = flat p s hs @ flat (p + length s) s' hs'"
  using assms
proof (induction hs arbitrary: p s)
  case Nil
  then show ?case by (cases hs') (auto simp: take_add)
next
  case (Cons h hs)
  then obtain k where k: "lh_offset h = p + k" by (auto simp: le_iff_add)
  with Cons.prems have "k \<le> length s" by simp
  then have "p + k + (length s - k) = p + length s" by simp
  then show ?case using k \<open>k \<le> length s\<close> Cons.prems Cons.IH [of "p + k" "drop k s"] by simp
qed

section \<open>Writers append\<close>

text \<open>\<open>appends w w' b\<close>: from \<open>w\<close> to \<open>w'\<close> the encoding \<open>b\<close> was written.\<close>

definition appends :: "encbuf \<Rightarrow> encbuf \<Rightarrow> byte list \<Rightarrow> bool" where
  "appends w w' b =
     (\<exists>s hs. w' = w\<lparr>eb_str := eb_str w @ s, eb_lheads := eb_lheads w @ hs,
                    eb_lhsize := eb_lhsize w + int (heads_size hs)\<rparr> \<and>
             heads_ok (length (eb_str w)) (length s) hs \<and> flat (length (eb_str w)) s hs = b)"

lemma appends_refl: "appends w w []"
  by (auto simp: appends_def intro!: exI [of _ "[]"])

lemma appends_trans:
  assumes "appends w w1 b1" "appends w1 w2 b2"
  shows "appends w w2 (b1 @ b2)"
proof -
  from assms(1) obtain s hs where 1: "w1 = w\<lparr>eb_str := eb_str w @ s, eb_lheads := eb_lheads w @ hs,
                    eb_lhsize := eb_lhsize w + int (heads_size hs)\<rparr>"
    "heads_ok (length (eb_str w)) (length s) hs" "flat (length (eb_str w)) s hs = b1"
    by (auto simp: appends_def)
  from assms(2) [unfolded appends_def 1(1)] obtain s' hs' where
    2: "w2 = w\<lparr>eb_str := eb_str w @ s @ s', eb_lheads := eb_lheads w @ hs @ hs',
                    eb_lhsize := eb_lhsize w + int (heads_size (hs @ hs'))\<rparr>"
    "heads_ok (length (eb_str w) + length s) (length s') hs'"
    "flat (length (eb_str w) + length s) s' hs' = b2"
    by (auto simp: add.assoc)
  have "heads_ok (length (eb_str w)) (length (s @ s')) (hs @ hs')"
    using heads_ok_append [OF 1(2) 2(2)] by simp
  moreover have "flat (length (eb_str w)) (s @ s') (hs @ hs') = b1 @ b2"
    using flat_append [OF 1(2) 2(2)] 1(3) 2(3) by simp
  ultimately show ?thesis unfolding appends_def using 2(1) by blast
qed

lemma appends_str: "appends w (append_str b w) b"
  unfolding appends_def append_str_def by (intro exI [of _ b] exI [of _ "[]"]) simp

lemma appends_Write: "appends w (fst (encbuf_Write w b)) b"
  using appends_str [of w b] by (simp add: encbuf_Write_def append_str_def)

lemma appends_header:
  assumes "n < 2 ^ 64"
  shows "appends w (encodeStringHeader n w) (head_bytes 0x80 0xB7 (of_nat n))"
proof (cases "n < 56")
  case True
  then have "(of_nat n :: u64) < 56" "ucast (of_nat n :: u64) = (of_nat n :: byte)"
    by (simp_all add: word_less_nat_alt unsigned_of_nat take_bit_nat_eq_self)
  then show ?thesis using True appends_str by (simp add: encodeStringHeader_def head_bytes_def)
next
  case False
  then have "\<not> (of_nat n :: u64) < 56"
    using assms by (simp add: word_less_nat_alt unsigned_of_nat take_bit_nat_eq_self)
  then show ?thesis using False appends_str by (simp add: encodeStringHeader_def head_bytes_def Let_def)
qed

definition string_kind :: "byte list \<Rightarrow> Kind" where
  "string_kind b = (if length b = 1 \<and> hd b < 0x80 then Byte else String)"

definition enc_string :: "byte list \<Rightarrow> byte list" where
  "enc_string b = enc_value (string_kind b) b"

lemma content_ok_string: "content_ok (string_kind b) b"
  by (simp add: string_kind_def)

lemma byte_le_7F: "b \<le> 0x7F \<longleftrightarrow> b < (0x80 :: byte)"
  by (auto simp: word_le_nat_alt word_less_nat_alt)

lemma appends_string:
  assumes "length b < 2 ^ 64"
  shows "appends w (encodeString b w) (enc_string b)"
proof (cases "length b = 1 \<and> hd b \<le> 0x7F")
  case True
  then have "b = [hd b]" by (cases b) auto
  then have "appends w (append_str [hd b] w) b" using appends_str [of w b] by simp
  moreover have "encodeString b w = append_str [hd b] w" using True by (simp add: encodeString_def)
  moreover have "enc_string b = b" using True by (simp add: enc_string_def string_kind_def byte_le_7F)
  ultimately show ?thesis by simp
next
  case False
  then have "encodeString b w = append_str b (encodeStringHeader (length b) w)" by (auto simp: encodeString_def)
  moreover have "enc_string b = head_bytes 0x80 0xB7 (of_nat (length b)) @ b"
    using False by (auto simp: enc_string_def string_kind_def byte_le_7F)
  ultimately show ?thesis using appends_trans [OF appends_header [OF assms] appends_str] by simp
qed

text \<open>A list: \<^verbatim>\<open>list()\<close>, its elements, \<^verbatim>\<open>listEnd()\<close>.\<close>

lemma appends_list:
  assumes l: "encbuf_list w = (i, w0)" and b: "appends w0 w1 b" and n: "length b < 2 ^ 64"
  shows "appends w (encbuf_listEnd i w1) (enc_value List b)"
proof -
  from l have i: "i = length (eb_lheads w)" "w0 = w\<lparr>eb_lheads := eb_lheads w @ [\<lparr>lh_offset = length (eb_str w), lh_size = eb_lhsize w\<rparr>]\<rparr>"
    by (auto simp: encbuf_list_def)
  from b [unfolded appends_def i(2)] obtain s hs where
    w1: "w1 = w\<lparr>eb_str := eb_str w @ s,
       eb_lheads := eb_lheads w @ \<lparr>lh_offset = length (eb_str w), lh_size = eb_lhsize w\<rparr> # hs,
       eb_lhsize := eb_lhsize w + int (heads_size hs)\<rparr>"
    and hs: "heads_ok (length (eb_str w)) (length s) hs" "flat (length (eb_str w)) s hs = b"
    by auto
  have len: "int (length b) = int (length s) + int (heads_size hs)"
    using length_flat [OF hs(1)] hs(2) by simp
  let ?h = "\<lparr>lh_offset = length (eb_str w), lh_size = int (length b)\<rparr>"
  have he: "listhead_encode ?h = head_bytes 0xC0 0xF7 (of_nat (length b))"
    by (simp add: listhead_encode_def)
  have lt: "((of_nat (length b) :: u64) < 56) = (length b < 56)"
    using n by (simp add: word_less_nat_alt unat_length)
  have "length (listhead_encode ?h) = (if length b < 56 then 1 else 1 + intsize (of_nat (length b)))"
    by (simp add: he length_head_bytes headsize_def lt)
  moreover have "encbuf_size w1 - int (length (eb_str w)) - eb_lhsize w = int (length b)"
    by (simp add: w1 encbuf_size_def len)
  moreover have "eb_lheads w1 ! i = \<lparr>lh_offset = length (eb_str w), lh_size = eb_lhsize w\<rparr>"
    by (simp add: w1 i(1) nth_append)
  ultimately have "encbuf_listEnd i w1 = w\<lparr>eb_str := eb_str w @ s, eb_lheads := eb_lheads w @ ?h # hs,
       eb_lhsize := eb_lhsize w + int (heads_size (?h # hs))\<rparr>"
    by (simp add: encbuf_listEnd_def Let_def i(1) w1 list_update_append)
  moreover have "heads_ok (length (eb_str w)) (length s) (?h # hs)" using hs(1) by simp
  moreover have "flat (length (eb_str w)) s (?h # hs) = enc_value List b" using hs(2) he by simp
  ultimately show ?thesis unfolding appends_def by blast
qed

lemma appends_new:
  assumes "appends new_encbuf w b"
  shows "encbuf_ok w" "encbuf_bytes w = b"
  using assms by (auto simp: appends_def new_encbuf_def encbuf_ok_def encbuf_bytes_def)

section \<open>toBytes\<close>

lemma go_slice_ok: "i \<le> j \<Longrightarrow> j \<le> length xs \<Longrightarrow> go_slice xs i j = Inr (take (j - i) (drop i xs))"
  by (simp add: go_slice_def)

lemma go_copy_at_fits:
  assumes "length out = length done' + m" "length src \<le> m" "take (length done') out = done'"
  shows "go_copy_at (length done') out src = done' @ src @ drop (length done' + length src) out"
  using assms by (simp add: go_copy_at_def go_copy_def add.commute)

lemma toBytes_heads_flat:
  assumes "strpos \<le> length str" "heads_ok strpos (length str - strpos) hs"
    and "length out = pos + (length str - strpos) + heads_size hs" "take pos out = done'" "length done' = pos"
  shows "\<exists>sp pos' out'. toBytes_heads str hs strpos pos out = Inr (sp, pos', out') \<and> sp \<le> length str \<and>
    length out' = pos' + (length str - sp) \<and> take pos' out' @ drop sp str = done' @ flat strpos (drop strpos str) hs"
  using assms
proof (induction hs arbitrary: strpos pos out done')
  case Nil
  then show ?case by simp
next
  case (Cons h hs)
  let ?o = "lh_offset h" and ?e = "listhead_encode h"
  let ?src = "take (?o - strpos) (drop strpos str)"
  have o: "strpos \<le> ?o" "?o \<le> length str" using Cons.prems by simp_all
  have ls: "length ?src = ?o - strpos" using o by simp
  have lo: "length out = pos + (length str - strpos) + length ?e + heads_size hs" using Cons.prems by simp
  let ?out = "go_copy_at pos out ?src" let ?p = "pos + (?o - strpos)"
  have out: "?out = done' @ ?src @ drop ?p out"
    using go_copy_at_fits [of out done' "length out - pos" ?src] Cons.prems(4,5) lo ls o by simp
  have tk: "take ?p ?out = done' @ ?src" unfolding out using Cons.prems(5) ls by simp
  have dr: "drop ?p ?out = drop ?p out" unfolding out using Cons.prems(5) ls by simp
  have fit: "length ?e \<le> length (drop ?p out)" using lo o by simp
  let ?tl = "?e @ drop (length ?e) (drop ?p out)"
  have ph: "puthead (drop ?p ?out) 0xC0 0xF7 (of_int (lh_size h)) = Inr (length ?e, ?tl)"
    unfolding dr using puthead_fits [OF fit [unfolded listhead_encode_def]] by (simp add: listhead_encode_def)
  let ?out2 = "done' @ ?src @ ?tl"
  have step: "toBytes_heads str (h # hs) strpos pos out = toBytes_heads str hs ?o (?p + length ?e) ?out2"
  proof -
    have "min (length out - pos) (length ?src) = ?o - strpos" using ls lo o by simp
    then show ?thesis using go_slice_ok [OF o] ph tk lo o(1) by (simp add: Let_def)
  qed
  have "length ?out2 = ?p + length ?e + (length str - ?o) + heads_size hs"
    using lo o ls Cons.prems(5) fit by simp
  moreover have "take (?p + length ?e) ?out2 = done' @ ?src @ ?e"
    using ls Cons.prems(5) by simp
  moreover have "heads_ok ?o (length str - ?o) hs" using Cons.prems(1,2) by simp
  moreover have "length (done' @ ?src @ ?e) = ?p + length ?e" using ls Cons.prems(5) by simp
  ultimately show ?case
    using Cons.IH [of ?o ?out2 "?p + length ?e" "done' @ ?src @ ?e"] o unfolding step by simp
qed

lemma toBytes_ok:
  assumes "encbuf_ok w"
  shows "toBytes w = Inr (encbuf_bytes w)"
proof -
  let ?s = "eb_str w" and ?hs = "eb_lheads w"
  have ok: "heads_ok 0 (length ?s) ?hs" "eb_lhsize w = int (heads_size ?hs)"
    using assms by (simp_all add: encbuf_ok_def)
  then have n: "nat (encbuf_size w) = length ?s + heads_size ?hs" "\<not> encbuf_size w < 0"
    by (simp_all add: encbuf_size_def)
  from toBytes_heads_flat [of 0 ?s ?hs "replicate (length ?s + heads_size ?hs) 0" 0 "[]"] ok
  obtain sp pos' out' where t: "toBytes_heads ?s ?hs 0 0 (replicate (length ?s + heads_size ?hs) 0) = Inr (sp, pos', out')"
    "sp \<le> length ?s" "length out' = pos' + (length ?s - sp)" "take pos' out' @ drop sp ?s = flat 0 ?s ?hs"
    by auto
  have "go_copy_at pos' out' (drop sp ?s) = take pos' out' @ drop sp ?s"
    using t(3) by (simp add: go_copy_at_def go_copy_def)
  then show ?thesis using t n go_slice_ok [of sp "length ?s" ?s] by (simp add: toBytes_def encbuf_bytes_def)
qed

section \<open>toWriter\<close>

text \<open>
  What \<^verbatim>\<open>io.Writer\<close> promises: the bytes taken are appended to what was written, and taking fewer
  bytes than offered is an error.
\<close>

locale io_writer =
  fixes wr :: "'s \<Rightarrow> byte list \<Rightarrow> 's \<times> nat \<times> 'e option"
    and written :: "'s \<Rightarrow> byte list"
  assumes write_appends: "wr s p = (s', n, e) \<Longrightarrow> written s' = written s @ take n p"
    and write_full: "wr s p = (s', n, None) \<Longrightarrow> n = length p"
    and write_le: "wr s p = (s', n, e) \<Longrightarrow> n \<le> length p"
begin

lemma toWriter_heads_flat:
  assumes "strpos \<le> length str" "heads_ok strpos (length str - strpos) hs"
  shows "\<exists>s' sp e. toWriter_heads wr str hs strpos s = Inr (s', sp, e) \<and> sp \<le> length str \<and>
    (case e of
       None \<Rightarrow> written s' @ drop sp str = written s @ flat strpos (drop strpos str) hs
     | Some _ \<Rightarrow> \<exists>more. written s @ flat strpos (drop strpos str) hs = written s' @ more)"
  using assms
proof (induction hs arbitrary: strpos s)
  case Nil
  then show ?case by simp
next
  case (Cons h hs)
  let ?o = "lh_offset h" and ?e = "listhead_encode h"
  let ?src = "take (?o - strpos) (drop strpos str)" and ?rest = "flat (lh_offset h) (drop (lh_offset h) str) hs"
  have o: "strpos \<le> ?o" "?o \<le> length str" "heads_ok ?o (length str - ?o) hs" using Cons.prems by simp_all
  have fl: "flat strpos (drop strpos str) (h # hs) = ?src @ ?e @ ?rest" using o(1) by simp
  have hd: "\<exists>s' sp e. toWriter_heads wr str (h # hs) strpos s = Inr (s', sp, e) \<and> sp \<le> length str \<and>
    (case e of
       None \<Rightarrow> written s' @ drop sp str = written s @ flat strpos (drop strpos str) (h # hs)
     | Some _ \<Rightarrow> \<exists>more. written s @ flat strpos (drop strpos str) (h # hs) = written s' @ more)"
    if w1: "written s1 = written s @ ?src"
      and step: "toWriter_heads wr str (h # hs) strpos s =
        (case wr s1 ?e of (s, n, e) \<Rightarrow> if e \<noteq> None then Inr (s, ?o, e) else toWriter_heads wr str hs ?o s)"
    for s1
  proof -
    obtain s2 n2 e2 where w2: "wr s1 ?e = (s2, n2, e2)" by (metis prod_cases3)
    note a2 = write_appends [OF w2]
    show ?thesis
    proof (cases e2)
      case None
      then have "written s2 = written s @ ?src @ ?e" using a2 w1 write_full [of s1 ?e s2 n2] w2 by simp
      then have eq: "written s @ ?src @ ?e @ ?rest = written s2 @ ?rest" by simp
      show ?thesis using Cons.IH [OF o(2,3), of s2] None unfolding fl step w2 eq by simp
    next
      case (Some x)
      have "written s @ ?src @ ?e @ ?rest = written s2 @ drop n2 ?e @ ?rest"
        unfolding a2 w1 by (metis append.assoc append_take_drop_id)
      then have "\<exists>more. written s @ ?src @ ?e @ ?rest = written s2 @ more" by blast
      then show ?thesis using Some o(2) unfolding fl step w2 by simp
    qed
  qed
  show ?case
  proof (cases "strpos < ?o")
    case False
    then have "?o = strpos" using o(1) by simp
    have "toWriter_heads wr str (h # hs) strpos s =
      (case wr s ?e of (s, n, e) \<Rightarrow> if e \<noteq> None then Inr (s, ?o, e) else toWriter_heads wr str hs ?o s)"
      unfolding \<open>?o = strpos\<close> by (simp add: \<open>?o = strpos\<close>)
    then show ?thesis using hd [of s] \<open>?o = strpos\<close> by simp
  next
    case True
    obtain s1 n1 e1 where w1: "wr s ?src = (s1, n1, e1)" by (metis prod_cases3)
    note a1 = write_appends [OF w1]
    show ?thesis
    proof (cases e1)
      case None
      then have n1: "n1 = length ?src" using w1 write_full by blast
      then have "strpos + n1 = ?o" "written s1 = written s @ ?src" using o a1 by simp_all
      moreover from this have "toWriter_heads wr str (h # hs) strpos s =
        (case wr s1 ?e of (s, n, e) \<Rightarrow> if e \<noteq> None then Inr (s, ?o, e) else toWriter_heads wr str hs ?o s)"
        using True w1 None go_slice_ok [OF o(1,2)] by simp
      ultimately show ?thesis using hd [of s1] by blast
    next
      case (Some x)
      have "toWriter_heads wr str (h # hs) strpos s = Inr (s1, strpos + n1, Some x)"
        using True w1 Some go_slice_ok [OF o(1,2)] by simp
      moreover have "strpos + n1 \<le> length str" using write_le [OF w1] o by simp
      moreover have "written s @ ?src @ ?e @ ?rest = written s1 @ drop n1 ?src @ ?e @ ?rest"
        unfolding a1 by (metis append.assoc append_take_drop_id)
      then have "\<exists>more. written s @ ?src @ ?e @ ?rest = written s1 @ more" by blast
      ultimately show ?thesis unfolding fl by simp
    qed
  qed
qed

text \<open>Without an error all bytes were written; with one, a prefix of them.\<close>

lemma toWriter_ok:
  assumes "encbuf_ok w"
  shows "\<exists>s' e. toWriter wr w s = Inr (s', e) \<and>
    (if e = None then written s' = written s @ encbuf_bytes w
     else \<exists>more. written s @ encbuf_bytes w = written s' @ more)"
proof -
  let ?str = "eb_str w"
  from toWriter_heads_flat [of 0 ?str "eb_lheads w" s, unfolded drop_0, folded encbuf_bytes_def] assms
  obtain s' sp e where t: "toWriter_heads wr ?str (eb_lheads w) 0 s = Inr (s', sp, e)" "sp \<le> length ?str"
    "case e of None \<Rightarrow> written s' @ drop sp ?str = written s @ encbuf_bytes w
     | Some _ \<Rightarrow> \<exists>more. written s @ encbuf_bytes w = written s' @ more"
    by (auto simp: encbuf_ok_def)
  show ?thesis
  proof (cases "e = None \<and> sp < length ?str")
    case False
    then show ?thesis using t by (auto simp: toWriter_def split: option.splits)
  next
    case True
    obtain s2 n2 e2 where w2: "wr s' (drop sp ?str) = (s2, n2, e2)" by (metis prod_cases3)
    have t': "written s @ encbuf_bytes w = written s' @ drop sp ?str" using t(3) True by simp
    have "written s @ encbuf_bytes w = written s2 @ drop n2 (drop sp ?str)"
      unfolding t' write_appends [OF w2] by (metis append.assoc append_take_drop_id)
    moreover have "drop n2 (drop sp ?str) = []" if "e2 = None"
      using write_full w2 that by (metis drop_all order_refl)
    moreover have "toWriter wr w s = Inr (s2, e2)" using t(1) True w2 by (simp add: toWriter_def)
    ultimately show ?thesis by auto
  qed
qed

end

text \<open>A buffer as a writer: \<^verbatim>\<open>Write\<close> takes everything and never fails.\<close>

definition encbuf_writer :: "encbuf \<Rightarrow> byte list \<Rightarrow> encbuf \<times> nat \<times> rlp_error option" where
  "encbuf_writer w b = (case encbuf_Write w b of (w', n) \<Rightarrow> (w', n, None))"

interpretation ew: io_writer encbuf_writer eb_str
  by unfold_locales (auto simp: encbuf_writer_def encbuf_Write_def)

section \<open>The reader\<close>

definition er_remaining :: "encReader \<Rightarrow> byte list" where
  "er_remaining r =
     (case er_buf r of None \<Rightarrow> []
      | Some w \<Rightarrow> (case er_piece r of None \<Rightarrow> [] | Some p \<Rightarrow> p) @
          flat (er_strpos r) (drop (er_strpos r) (eb_str w)) (drop (er_lhpos r) (eb_lheads w)))"

definition er_ok :: "encReader \<Rightarrow> bool" where
  "er_ok r =
     (case er_buf r of None \<Rightarrow> True
      | Some w \<Rightarrow> er_strpos r \<le> length (eb_str w) \<and>
          heads_ok (er_strpos r) (length (eb_str w) - er_strpos r) (drop (er_lhpos r) (eb_lheads w)) \<and>
          er_piece r \<noteq> Some [])"

lemma listhead_encode_not_Nil: "listhead_encode h \<noteq> []"
  by (simp add: listhead_encode_def head_bytes_def Let_def)

lemma encReader_next_ok:
  assumes "er_ok r"
  shows "\<exists>piece r'. encReader_next r = Inr (piece, r') \<and>
    (case piece of
       None \<Rightarrow> er_remaining r = []
     | Some p \<Rightarrow> p \<noteq> [] \<and> er_buf r' \<noteq> None \<and> er_ok (r'\<lparr>er_piece := None\<rparr>) \<and>
         er_remaining r = p @ er_remaining (r'\<lparr>er_piece := None\<rparr>))"
proof (cases "er_buf r")
  case None
  then show ?thesis by (simp add: encReader_next_def er_remaining_def)
next
  case (Some w)
  note ok = assms [unfolded er_ok_def Some option.case]
  show ?thesis
  proof (cases "er_piece r")
    case P: (Some p)
    then show ?thesis using ok Some by (simp add: encReader_next_def er_remaining_def er_ok_def)
  next
    case N: None
    show ?thesis
    proof (cases "er_lhpos r < length (eb_lheads w)")
      case L: True
      let ?h = "eb_lheads w ! er_lhpos r"
      have d: "drop (er_lhpos r) (eb_lheads w) = ?h # drop (Suc (er_lhpos r)) (eb_lheads w)"
        using L by (simp add: Cons_nth_drop_Suc)
      show ?thesis
      proof (cases "er_strpos r < lh_offset ?h")
        case True
        have o: "lh_offset ?h \<le> length (eb_str w)" using ok d by auto
        then have "er_strpos r + (length (eb_str w) - er_strpos r) - lh_offset ?h = length (eb_str w) - lh_offset ?h"
          using ok by simp
        with True o show ?thesis
          using ok d L N Some
          by (simp add: encReader_next_def er_remaining_def er_ok_def go_slice_ok Let_def)
      next
        case False
        then have "er_strpos r = lh_offset ?h" using ok d by simp
        then show ?thesis
          using ok d L N Some listhead_encode_not_Nil
          by (simp add: encReader_next_def er_remaining_def er_ok_def Let_def)
      qed
    next
      case False
      then show ?thesis
        using ok N Some by (simp add: encReader_next_def er_remaining_def er_ok_def)
    qed
  qed
qed

text \<open>
  A \<^verbatim>\<open>Read\<close> of \<open>k\<close> bytes delivers the next \<open>k\<close> bytes, or what is left with \<^verbatim>\<open>io.EOF\<close>.
\<close>

lemma encReader_Read_ok:
  "er_ok r \<Longrightarrow>
   \<exists>r'. encReader_Read r k out = Inr (out @ take k (er_remaining r), length (er_remaining r) \<le> k, r') \<and>
     er_ok r' \<and> er_remaining r' = drop k (er_remaining r)"
proof (induction "er_left r" arbitrary: r k out rule: less_induct)
  case less
  from encReader_next_ok [OF less.prems] obtain piece r' where n: "encReader_next r = Inr (piece, r')"
    and c: "case piece of None \<Rightarrow> er_remaining r = []
     | Some p \<Rightarrow> p \<noteq> [] \<and> er_buf r' \<noteq> None \<and> er_ok (r'\<lparr>er_piece := None\<rparr>) \<and>
         er_remaining r = p @ er_remaining (r'\<lparr>er_piece := None\<rparr>)" by blast
  show ?case
  proof (cases piece)
    case None
    then show ?thesis using n c
      by (subst encReader_Read.simps) (simp add: er_ok_def er_remaining_def)
  next
    case (Some p)
    with c have c: "p \<noteq> []" "er_buf r' \<noteq> None" "er_ok (r'\<lparr>er_piece := None\<rparr>)"
      "er_remaining r = p @ er_remaining (r'\<lparr>er_piece := None\<rparr>)" by simp_all
    show ?thesis
    proof (cases "k < length p")
      case True
      let ?r = "r'\<lparr>er_piece := Some (drop k p)\<rparr>"
      have "er_ok ?r" using c(2,3) True by (auto simp: er_ok_def)
      moreover have "er_remaining ?r = drop k (er_remaining r)"
        using c(2,4) True by (auto simp: er_remaining_def)
      ultimately show ?thesis using n Some True c(4)
        by (subst encReader_Read.simps) simp
    next
      case False
      have "er_left (r'\<lparr>er_piece := None\<rparr>) < er_left r" using encReader_next_left n Some by blast
      from less.hyps [OF this c(3), of "k - length p" "out @ p"] obtain r2 where
        r2: "encReader_Read (r'\<lparr>er_piece := None\<rparr>) (k - length p) (out @ p) =
          Inr ((out @ p) @ take (k - length p) (er_remaining (r'\<lparr>er_piece := None\<rparr>)),
            length (er_remaining (r'\<lparr>er_piece := None\<rparr>)) \<le> k - length p, r2)"
        "er_ok r2" "er_remaining r2 = drop (k - length p) (er_remaining (r'\<lparr>er_piece := None\<rparr>))" by blast
      have e: "encReader_Read r k out =
        encReader_Read (r'\<lparr>er_piece := None\<rparr>) (k - length p) (out @ p)"
        using n Some False by (subst encReader_Read.simps) simp
      show ?thesis unfolding e r2(1) using c(4) r2(2,3) False by auto
    qed
  qed
qed

text \<open>Reading in pieces of any sizes.\<close>

fun read_pieces :: "encReader \<Rightarrow> nat list \<Rightarrow> go_error + (byte list \<times> encReader)" where
  "read_pieces r [] = Inr ([], r)"
| "read_pieces r (k # ks) =
     bindE (encReader_Read r k []) (\<lambda>(b, eof, r').
       bindE (read_pieces r' ks) (\<lambda>(bs, r''). Inr (b @ bs, r'')))"

lemma read_pieces_ok:
  "er_ok r \<Longrightarrow> \<exists>r'. read_pieces r ks = Inr (take (sum_list ks) (er_remaining r), r') \<and>
     er_ok r' \<and> er_remaining r' = drop (sum_list ks) (er_remaining r)"
proof (induction ks arbitrary: r)
  case (Cons k ks)
  from encReader_Read_ok [OF Cons.prems, of k "[]"] obtain r' where
    r': "encReader_Read r k [] = Inr (take k (er_remaining r), length (er_remaining r) \<le> k, r')"
    "er_ok r'" "er_remaining r' = drop k (er_remaining r)" by auto
  from Cons.IH [OF r'(2)] obtain r'' where
    "read_pieces r' ks = Inr (take (sum_list ks) (er_remaining r'), r'')" "er_ok r''"
    "er_remaining r'' = drop (sum_list ks) (er_remaining r')" by blast
  then show ?case using r' by (simp add: take_add add.commute)
qed simp

lemma new_encReader_ok:
  "encbuf_ok w \<Longrightarrow> er_ok (new_encReader w) \<and> er_remaining (new_encReader w) = encbuf_bytes w"
  by (simp add: encbuf_ok_def encbuf_bytes_def er_ok_def er_remaining_def new_encReader_def)

end
