(* ===== verification/RlpStream.thy ===== *)
theory RlpStream
  imports RlpCore
begin

text \<open>
  The decoding stream of \<^verbatim>\<open>util/serialize/rlp/decode.go\<close>.  An operation takes the stream and
  returns an error or a value, with the stream it leaves; errors leave the stream changed where the
  code does.  \<open>st_input\<close> is what the reader still delivers, \<open>st_kind = None\<close> is the
  unset kind \<^verbatim>\<open>-1\<close>, and the top of \<open>st_stack\<close> is its head.
\<close>

record Stream =
  st_input :: "byte list"
  st_remaining :: u64
  st_limited :: bool
  st_kind :: "Kind option"
  st_size :: u64
  st_byteval :: byte
  st_kinderr :: "rlp_error option"
  st_stack :: "(u64 \<times> u64) list"

type_synonym 'a sop = "Stream \<Rightarrow> (rlp_error + 'a) \<times> Stream"

definition bindS :: "'a sop \<Rightarrow> ('a \<Rightarrow> 'b sop) \<Rightarrow> 'b sop" where
  "bindS m f s = (case m s of (Inl e, s') \<Rightarrow> (Inl e, s') | (Inr x, s') \<Rightarrow> f x s')"

definition failS :: "rlp_error \<Rightarrow> 'a sop" where
  "failS e s = (Inl e, s)"

definition returnS :: "'a \<Rightarrow> 'a sop" where
  "returnS x s = (Inr x, s)"

definition modifyS :: "(Stream \<Rightarrow> Stream) \<Rightarrow> unit sop" where
  "modifyS f s = (Inr (), f s)"

lemma sop_simps [simp]:
  "failS e s = (Inl e, s)" "returnS x s = (Inr x, s)" "modifyS g s = (Inr (), g s)"
  "bindS m f s = (case m s of (Inl e, s') \<Rightarrow> (Inl e, s') | (Inr x, s') \<Rightarrow> f x s')"
  by (simp_all add: failS_def returnS_def modifyS_def bindS_def)

section \<open>Reset\<close>

text \<open>\<open>memory\<close>: the reader is a \<^verbatim>\<open>bytes.Reader\<close> or a \<^verbatim>\<open>strings.Reader\<close>, whose length is known.\<close>

definition Stream_Reset :: "byte list \<Rightarrow> bool \<Rightarrow> u64 \<Rightarrow> Stream \<Rightarrow> Stream" where
  "Stream_Reset r memory inputLimit s =
     s\<lparr>st_input := r,
       st_remaining := (if inputLimit > 0 then inputLimit else if memory then of_nat (length r) else st_remaining s),
       st_limited := (inputLimit > 0 \<or> memory),
       st_kind := None, st_size := 0, st_byteval := 0, st_kinderr := None, st_stack := []\<rparr>"

definition zero_Stream :: Stream where
  "zero_Stream = \<lparr>st_input = [], st_remaining = 0, st_limited = False, st_kind = Some Byte, st_size = 0,
     st_byteval = 0, st_kinderr = None, st_stack = []\<rparr>"

definition NewStream :: "byte list \<Rightarrow> bool \<Rightarrow> u64 \<Rightarrow> Stream" where
  "NewStream r memory inputLimit = Stream_Reset r memory inputLimit zero_Stream"

definition NewListStream :: "byte list \<Rightarrow> bool \<Rightarrow> u64 \<Rightarrow> Stream" where
  "NewListStream r memory len = (NewStream r memory len)\<lparr>st_kind := Some List, st_size := len\<rparr>"

section \<open>Reading\<close>

definition willRead :: "u64 \<Rightarrow> unit sop" where
  "willRead n s =
     (let s = s\<lparr>st_kind := None\<rparr> in
      let limit = (\<lambda>s. if st_limited s
        then if n > st_remaining s then (Inl ErrValueTooLarge, s)
             else (Inr (), s\<lparr>st_remaining := st_remaining s - n\<rparr>)
        else (Inr (), s))
      in case st_stack s of
           [] \<Rightarrow> limit s
         | (pos, sz) # stack \<Rightarrow>
             if n > sz - pos then (Inl ErrElemTooLarge, s)
             else limit (s\<lparr>st_stack := (pos + n, sz) # stack\<rparr>))"

definition readByte :: "byte sop" where
  "readByte = bindS (willRead 1) (\<lambda>_ s.
     case st_input s of
       [] \<Rightarrow> (Inl RlpUnexpectedEOF, s)
     | b # bs \<Rightarrow> (Inr b, s\<lparr>st_input := bs\<rparr>))"

definition readFull :: "nat \<Rightarrow> byte list sop" where
  "readFull n = bindS (willRead (of_nat n)) (\<lambda>_ s.
     if n \<le> length (st_input s) then (Inr (take n (st_input s)), s\<lparr>st_input := drop n (st_input s)\<rparr>)
     else (Inl RlpUnexpectedEOF, s\<lparr>st_input := []\<rparr>))"

definition readUint :: "byte \<Rightarrow> u64 sop" where
  "readUint sz =
     (if sz = 0 then bindS (modifyS (\<lambda>s. s\<lparr>st_kind := None\<rparr>)) (\<lambda>_. returnS 0)
      else if sz = 1 then bindS readByte (\<lambda>b. returnS (ucast b))
      else if sz > 8 then failS (RlpPanic SliceOutOfRange)
      else bindS (readFull (unat sz)) (\<lambda>buf.
             if buf ! 0 = 0 then failS ErrCanonSize else returnS (be_get buf)))"

text \<open>\<^verbatim>\<open>readKind\<close> returns its three results also on errors, and \<^verbatim>\<open>Kind\<close> stores them.\<close>

definition readSize :: "byte \<Rightarrow> Kind \<Rightarrow> Stream \<Rightarrow> (Kind \<times> u64 \<times> rlp_error option) \<times> Stream" where
  "readSize slen k s =
     (case readUint slen s of
        (Inl e, s) \<Rightarrow> ((k, 0, Some e), s)
      | (Inr sz, s) \<Rightarrow> ((k, sz, if sz < 56 then Some ErrCanonSize else None), s))"

definition Stream_readKind :: "Stream \<Rightarrow> (Kind \<times> u64 \<times> rlp_error option) \<times> Stream" where
  "Stream_readKind s =
     (case readByte s of
        (Inl e, s) \<Rightarrow>
          ((Byte, 0, Some (if st_stack s = [] \<and> e \<in> {RlpUnexpectedEOF, ErrValueTooLarge} then RlpEOF else e)), s)
      | (Inr b, s) \<Rightarrow>
          let s = s\<lparr>st_byteval := 0\<rparr> in
          if b < 0x80 then ((Byte, 0, None), s\<lparr>st_byteval := b\<rparr>)
          else if b < 0xB8 then ((String, ucast (b - 0x80), None), s)
          else if b < 0xC0 then readSize (b - 0xB7) String s
          else if b < 0xF8 then ((List, ucast (b - 0xC0), None), s)
          else readSize (b - 0xF7) List s)"

text \<open>The checks \<^verbatim>\<open>Kind\<close> makes of a size it has read.\<close>

definition sizeError :: "u64 \<Rightarrow> Stream \<Rightarrow> rlp_error option" where
  "sizeError sz s =
     (case st_stack s of
        [] \<Rightarrow> if st_limited s \<and> sz > st_remaining s then Some ErrValueTooLarge else None
      | (pos, lsz) # _ \<Rightarrow> if sz > lsz - pos then Some ErrElemTooLarge else None)"

definition at_list_end :: "Stream \<Rightarrow> bool" where
  "at_list_end s = (case st_stack s of [] \<Rightarrow> False | (pos, lsz) # _ \<Rightarrow> pos = lsz)"

definition Stream_Kind :: "(Kind \<times> u64) sop" where
  "Stream_Kind s =
     (case st_kind s of
        Some k \<Rightarrow> (case st_kinderr s of Some e \<Rightarrow> (Inl e, s) | None \<Rightarrow> (Inr (k, st_size s), s))
      | None \<Rightarrow>
          let s = s\<lparr>st_kinderr := None\<rparr> in
          if at_list_end s then (Inl EOL, s)
          else case Stream_readKind s of ((k, sz, e), s) \<Rightarrow>
            let e = (if e = None then sizeError sz s else e);
                s = s\<lparr>st_kind := Some k, st_size := sz, st_kinderr := e\<rparr>
            in case e of Some e \<Rightarrow> (Inl e, s) | None \<Rightarrow> (Inr (k, sz), s))"

definition rearm :: "unit sop" where
  "rearm = modifyS (\<lambda>s. s\<lparr>st_kind := None\<rparr>)"

section \<open>Reading values\<close>

text \<open>The largest slice \<^verbatim>\<open>make\<close> creates.\<close>

definition maxAlloc :: u64 where
  "maxAlloc = 0x1000000000000"

definition makeBytes :: "u64 \<Rightarrow> nat sop" where
  "makeBytes n = (if n > maxAlloc then failS (RlpPanic MakeSliceLen) else returnS (unat n))"

definition Stream_Bytes :: "byte list sop" where
  "Stream_Bytes = bindS Stream_Kind (\<lambda>(kind, sz).
     case kind of
       Byte \<Rightarrow> bindS rearm (\<lambda>_ s. (Inr [st_byteval s], s))
     | String \<Rightarrow>
         bindS (makeBytes sz) (\<lambda>n. bindS (readFull n) (\<lambda>b.
           if sz = 1 \<and> b ! 0 < 128 then failS ErrCanonSize else returnS b))
     | List \<Rightarrow> failS ErrExpectedString)"

definition Stream_Raw :: "byte list sop" where
  "Stream_Raw = bindS Stream_Kind (\<lambda>(kind, sz).
     if kind = Byte then bindS rearm (\<lambda>_ s. (Inr [st_byteval s], s))
     else bindS (makeBytes (of_nat (headsize sz) + sz)) (\<lambda>n.
       if n < headsize sz then failS (RlpPanic SliceOutOfRange)
       else bindS (readFull (n - headsize sz)) (\<lambda>b.
         let buf = replicate (headsize sz) 0 @ b in
         case (if kind = String then puthead buf 0x80 0xB7 sz else puthead buf 0xC0 0xF7 sz) of
           Inl e \<Rightarrow> failS (RlpPanic e)
         | Inr (_, buf) \<Rightarrow> returnS buf)))"

definition Stream_uint :: "nat \<Rightarrow> u64 sop" where
  "Stream_uint maxbits = bindS Stream_Kind (\<lambda>(kind, sz).
     case kind of
       Byte \<Rightarrow> (\<lambda>s. if st_byteval s = 0 then (Inl ErrCanonInt, s)
                    else (Inr (ucast (st_byteval s)), s\<lparr>st_kind := None\<rparr>))
     | String \<Rightarrow>
         if sz > of_nat (maxbits div 8) then failS errUintOverflow
         else (\<lambda>s. case readUint (ucast sz) s of
                 (Inl e, s) \<Rightarrow> (Inl (if e = ErrCanonSize then ErrCanonInt else e), s)
               | (Inr v, s) \<Rightarrow> if sz > 0 \<and> v < 128 then (Inl ErrCanonSize, s) else (Inr v, s))
     | List \<Rightarrow> failS ErrExpectedString)"

definition Stream_Uint :: "u64 sop" where
  "Stream_Uint = Stream_uint 64"

definition Stream_Bool :: "bool sop" where
  "Stream_Bool = bindS (Stream_uint 8) (\<lambda>num.
     if num = 0 then returnS False else if num = 1 then returnS True else failS (InvalidBool num))"

definition Stream_List :: "u64 sop" where
  "Stream_List = bindS Stream_Kind (\<lambda>(kind, sz).
     if kind \<noteq> List then failS ErrExpectedList
     else bindS (modifyS (\<lambda>s. s\<lparr>st_stack := (0, sz) # st_stack s, st_kind := None, st_size := 0\<rparr>)) (\<lambda>_. returnS sz))"

definition Stream_ListEnd :: "unit sop" where
  "Stream_ListEnd s =
     (case st_stack s of
        [] \<Rightarrow> (Inl errNotInList, s)
      | (pos, sz) # stack \<Rightarrow>
          if pos \<noteq> sz then (Inl errNotAtEOL, s)
          else (Inr (), s\<lparr>st_stack := (case stack of [] \<Rightarrow> [] | (p, z) # stack' \<Rightarrow> (p + sz, z) # stack'),
                          st_kind := None, st_size := 0\<rparr>))"

end
