(* ===== verification/RlpStreamProps.thy ===== *)
theory RlpStreamProps
  imports RlpEncProps RlpStream
begin

text \<open>
  What the operations of the decoding stream do: each is described by the bytes it takes from the
  input and by the accounts (enclosing list, input limit) it charges for them.
\<close>

section \<open>Accounts\<close>

fun bump :: "u64 \<Rightarrow> (u64 \<times> u64) list \<Rightarrow> (u64 \<times> u64) list" where
  "bump n [] = []"
| "bump n ((pos, sz) # st) = (pos + n, sz) # st"

definition account :: "u64 \<Rightarrow> Stream \<Rightarrow> Stream" where
  "account n s = s\<lparr>st_kind := None, st_stack := bump n (st_stack s),
     st_remaining := (if st_limited s then st_remaining s - n else st_remaining s)\<rparr>"

definition advance :: "nat \<Rightarrow> Stream \<Rightarrow> Stream" where
  "advance n s = (account (of_nat n) s)\<lparr>st_input := drop n (st_input s)\<rparr>"

fun list_room :: "nat \<Rightarrow> (u64 \<times> u64) list \<Rightarrow> bool" where
  "list_room n [] = True"
| "list_room n ((pos, sz) # st) = (n \<le> unat (sz - pos))"

definition limit_room :: "nat \<Rightarrow> Stream \<Rightarrow> bool" where
  "limit_room n s = (st_limited s \<longrightarrow> n \<le> unat (st_remaining s))"

definition room :: "nat \<Rightarrow> Stream \<Rightarrow> bool" where
  "room n s = (list_room n (st_stack s) \<and> limit_room n s)"

text \<open>\<open>adv n s s'\<close>: \<open>n\<close> bytes were taken and the next value is not looked at yet.\<close>

definition adv :: "nat \<Rightarrow> Stream \<Rightarrow> Stream \<Rightarrow> bool" where
  "adv n s s' = (s' = (advance n s)\<lparr>st_size := st_size s', st_byteval := st_byteval s', st_kinderr := st_kinderr s'\<rparr>)"

lemma bump_bump [simp]: "bump m (bump n st) = bump (n + m) st"
  by (cases "(n, st)" rule: bump.cases) (simp_all add: add.assoc)

lemma bump_Nil_iff [simp]: "bump n st = [] \<longleftrightarrow> st = []"
  by (cases "(n, st)" rule: bump.cases) simp_all

lemma advance_simps [simp]:
  "st_input (advance n s) = drop n (st_input s)"
  "st_kind (advance n s) = None"
  "st_stack (advance n s) = bump (of_nat n) (st_stack s)"
  "st_limited (advance n s) = st_limited s"
  "st_remaining (advance n s) = (if st_limited s then st_remaining s - of_nat n else st_remaining s)"
  "st_size (advance n s) = st_size s"
  "st_byteval (advance n s) = st_byteval s"
  "st_kinderr (advance n s) = st_kinderr s"
  by (simp_all add: advance_def account_def)

lemma advance_advance: "advance m (advance n s) = advance (n + m) s"
  by (simp add: advance_def account_def diff_diff_add add.commute)

lemma adv_simps:
  assumes "adv n s s'"
  shows "st_input s' = drop n (st_input s)" "st_kind s' = None"
    "st_stack s' = bump (of_nat n) (st_stack s)" "st_limited s' = st_limited s"
    "st_remaining s' = (if st_limited s then st_remaining s - of_nat n else st_remaining s)"
  by (subst assms [unfolded adv_def], simp)+

lemma advI:
  assumes "st_input s' = drop n (st_input s)" "st_kind s' = None"
    "st_stack s' = bump (of_nat n) (st_stack s)" "st_limited s' = st_limited s"
    "st_remaining s' = (if st_limited s then st_remaining s - of_nat n else st_remaining s)"
  shows "adv n s s'"
  unfolding adv_def by (rule Stream.equality) (use assms in simp_all)

lemma adv_trans: "adv n s s1 \<Longrightarrow> adv m s1 s2 \<Longrightarrow> adv (n + m) s s2"
  by (rule advI) (simp_all add: adv_simps add.commute diff_diff_add)

lemma unat_sub_of_nat:
  assumes "n \<le> unat (w :: u64)"
  shows "unat (w - of_nat n) = unat w - n" "unat (of_nat n :: u64) = n"
proof -
  have "n < 2 ^ 64" using assms unat_64 [of w] by linarith
  then show u: "unat (of_nat n :: u64) = n" by (simp add: unsigned_of_nat take_bit_nat_eq_self)
  then show "unat (w - of_nat n) = unat w - n" using assms by (simp add: unat_sub word_le_nat_alt)
qed

lemma list_room_bump: "list_room (n + m) st \<Longrightarrow> list_room m (bump (of_nat n) st)"
proof (cases st)
  case (Cons a st')
  assume r: "list_room (n + m) st"
  obtain p z where a: "a = (p, z)" by fastforce
  from r a Cons have "n + m \<le> unat (z - p)" by simp
  then have "unat (z - p - of_nat n) = unat (z - p) - n" using unat_sub_of_nat [of n "z - p"] by simp
  then show ?thesis using \<open>n + m \<le> unat (z - p)\<close> a Cons by (simp add: diff_diff_add)
qed simp

lemma limit_room_advance: "limit_room (n + m) s \<Longrightarrow> limit_room m (advance n s)"
  using unat_sub_of_nat [of n "st_remaining s"] by (auto simp: limit_room_def)

lemma room_advance: "room (n + m) s \<Longrightarrow> room m (advance n s)"
  using list_room_bump [of n m] limit_room_advance [of n m s] by (simp add: room_def)

lemma list_room_mono: "list_room n st \<Longrightarrow> m \<le> n \<Longrightarrow> list_room m st"
  by (cases "(n, st)" rule: list_room.cases) auto

lemma room_mono: "room n s \<Longrightarrow> m \<le> n \<Longrightarrow> room m s"
  by (auto simp: room_def limit_room_def intro: list_room_mono)

lemma room_adv: "room (n + m) s \<Longrightarrow> adv n s s' \<Longrightarrow> room m s'"
  using room_advance [of n m s] by (simp add: room_def limit_room_def adv_simps)

lemma room_advance_back: "list_room n st \<Longrightarrow> list_room m (bump (of_nat n) st) \<Longrightarrow> list_room (n + m) st"
proof (cases st)
  case (Cons a st')
  assume r: "list_room n st" "list_room m (bump (of_nat n) st)"
  obtain p z where a: "a = (p, z)" by fastforce
  have "unat (z - p - of_nat n) = unat (z - p) - n" using unat_sub_of_nat [of n "z - p"] r(1) a Cons by simp
  then show ?thesis using r a Cons by (simp add: diff_diff_add)
qed simp

section \<open>Reading bytes\<close>

lemma list_room_word: "list_room (unat n) ((p, z) # st) \<longleftrightarrow> \<not> z - p < n"
  by (simp add: word_less_nat_alt not_less)

lemma willRead_iff: "willRead n s = (Inr (), s') \<longleftrightarrow> room (unat n) s \<and> s' = account n s"
proof -
  have e: "st_limited s \<longrightarrow> (\<not> st_remaining s < n) = (unat n \<le> unat (st_remaining s))"
    by (simp add: word_less_nat_alt not_less)
  show ?thesis
    by (cases "st_stack s")
      (auto simp: willRead_def room_def limit_room_def account_def Let_def word_less_nat_alt not_less split: if_splits)
qed

lemma willRead_cases: "willRead n s = (Inr (), account n s) \<or> (\<exists>e s'. willRead n s = (Inl e, s'))"
proof (cases "willRead n s")
  case (Pair r s')
  then show ?thesis using willRead_iff [of n s s'] by (cases r) auto
qed

lemma readByte_iff:
  "readByte s = (Inr b, s') \<longleftrightarrow> room 1 s \<and> (\<exists>r. st_input s = b # r) \<and> s' = advance 1 s"
proof (cases "room 1 s")
  case True
  then have "willRead 1 s = (Inr (), account 1 s)" by (simp add: willRead_iff)
  then show ?thesis using True
    by (auto simp: readByte_def advance_def account_def split: list.splits)
next
  case False
  then show ?thesis using willRead_iff [of 1 s] willRead_cases [of 1 s] by (auto simp: readByte_def)
qed

lemma readFull_iff:
  assumes "n < 2 ^ 64"
  shows "readFull n s = (Inr bs, s') \<longleftrightarrow>
    room n s \<and> n \<le> length (st_input s) \<and> bs = take n (st_input s) \<and> s' = advance n s"
proof -
  have u: "unat (of_nat n :: u64) = n" using assms by (simp add: unsigned_of_nat take_bit_nat_eq_self)
  show ?thesis
  proof (cases "room n s")
    case True
    then have "willRead (of_nat n) s = (Inr (), account (of_nat n) s)" by (simp add: willRead_iff u)
    then show ?thesis using True by (auto simp: readFull_def advance_def account_def)
  next
    case False
    then show ?thesis using willRead_iff [of "of_nat n" s] willRead_cases [of "of_nat n" s] u
      by (auto simp: readFull_def)
  qed
qed

section \<open>Headers\<close>

lemma be_get_single: "be_get [b] = ucast b"
  by (simp add: be_get_def)

lemma putint_ucast:
  assumes "1 \<le> (ucast (b :: byte) :: u64)"
  shows "putint (ucast b) = [b]"
proof -
  have "b \<noteq> 0" using assms by auto
  then show ?thesis using putint_be_get [of "[b]"] by (simp add: be_get_single)
qed

lemma readUint_iff:
  assumes "1 \<le> unat n" "unat n \<le> 8" "1 \<le> v"
  shows "readUint n s = (Inr v, s') \<longleftrightarrow>
    intsize v = unat n \<and> (\<exists>r. st_input s = putint v @ r) \<and> room (unat n) s \<and> s' = advance (unat n) s"
proof (cases "n = 1")
  case True
  have "(\<exists>b r. st_input s = b # r \<and> v = ucast b) \<longleftrightarrow> intsize v = 1 \<and> (\<exists>r. st_input s = putint v @ r)"
  proof
    assume "\<exists>b r. st_input s = b # r \<and> v = ucast b"
    then obtain b r where b: "st_input s = b # r" "v = ucast b" by blast
    then have "putint v = [b]" using putint_ucast assms(3) by simp
    moreover from this have "intsize v = 1" by (metis length_putint length_Cons list.size(3) One_nat_def)
    ultimately show "intsize v = 1 \<and> (\<exists>r. st_input s = putint v @ r)" using b by simp
  next
    assume a: "intsize v = 1 \<and> (\<exists>r. st_input s = putint v @ r)"
    then obtain b where b: "putint v = [b]" by (metis length_putint length_0_conv length_Suc_conv One_nat_def)
    then have "v = ucast b" by (metis be_get_putint be_get_single)
    with a b show "\<exists>b r. st_input s = b # r \<and> v = ucast b" by auto
  qed
  moreover have "readUint n s = (Inr v, s') \<longleftrightarrow> (\<exists>b. readByte s = (Inr b, s') \<and> v = ucast b)"
    using True by (auto simp: readUint_def split: prod.splits sum.splits)
  ultimately show ?thesis using True by (auto simp: readByte_iff)
next
  case False
  have n0: "n \<noteq> 0" "\<not> n > 8" using assms(1,2) by (auto simp: word_less_nat_alt)
  have n1: "unat n \<noteq> 1" using False by (metis unat_1 word_unat_eq_iff)
  let ?i = "st_input s"
  have rf: "readFull (unat n) s = (Inr bs, s') \<longleftrightarrow>
    room (unat n) s \<and> unat n \<le> length ?i \<and> bs = take (unat n) ?i \<and> s' = advance (unat n) s" for bs s'
    using assms(2) by (intro readFull_iff) simp
  have hd: "take (unat n) ?i ! 0 = hd (take (unat n) ?i)" "take (unat n) ?i \<noteq> []" if "unat n \<le> length ?i"
    using that assms(1) by (cases ?i; cases "unat n"; simp)+
  have "readUint n s = (Inr v, s') \<longleftrightarrow>
    room (unat n) s \<and> unat n \<le> length ?i \<and> hd (take (unat n) ?i) \<noteq> 0 \<and>
    v = be_get (take (unat n) ?i) \<and> s' = advance (unat n) s"
  proof (cases "room (unat n) s \<and> unat n \<le> length ?i")
    case True
    then have "readFull (unat n) s = (Inr (take (unat n) ?i), advance (unat n) s)" by (simp add: rf)
    then show ?thesis using True False n0 hd by (auto simp: readUint_def)
  next
    case F: False
    then have "\<exists>e s'. readFull (unat n) s = (Inl e, s')" using rf by (metis sum.exhaust surj_pair)
    then show ?thesis using F False n0 by (auto simp: readUint_def)
  qed
  moreover have "unat n \<le> length ?i \<and> hd (take (unat n) ?i) \<noteq> 0 \<and> v = be_get (take (unat n) ?i) \<longleftrightarrow>
    intsize v = unat n \<and> (\<exists>r. ?i = putint v @ r)"
  proof
    assume a: "unat n \<le> length ?i \<and> hd (take (unat n) ?i) \<noteq> 0 \<and> v = be_get (take (unat n) ?i)"
    then have p: "putint v = take (unat n) ?i" using putint_be_get [of "take (unat n) ?i"] hd(2) assms(2) by simp
    have "length (putint v) = unat n" unfolding p using a by simp
    then have "intsize v = unat n" by simp
    then show "intsize v = unat n \<and> (\<exists>r. ?i = putint v @ r)" using p by (metis append_take_drop_id)
  next
    assume a: "intsize v = unat n \<and> (\<exists>r. ?i = putint v @ r)"
    then have t: "take (unat n) ?i = putint v" by auto
    have "v \<noteq> 0" using assms(3) by auto
    then show "unat n \<le> length ?i \<and> hd (take (unat n) ?i) \<noteq> 0 \<and> v = be_get (take (unat n) ?i)"
      unfolding t using a hd_putint by auto
  qed
  ultimately show ?thesis by auto
qed

fun hdr :: "Kind \<Rightarrow> u64 \<Rightarrow> byte \<Rightarrow> byte list" where
  "hdr Byte sz v = [v]"
| "hdr String sz v = head_bytes 0x80 0xB7 sz"
| "hdr List sz v = head_bytes 0xC0 0xF7 sz"

fun hdr_ok :: "Kind \<Rightarrow> u64 \<Rightarrow> byte \<Rightarrow> bool" where
  "hdr_ok Byte sz v = (v < 0x80 \<and> sz = 0)"
| "hdr_ok _ sz v = (v = 0)"

lemma readSize_iff:
  assumes "1 \<le> unat n" "unat n \<le> 8"
  shows "readSize n k s = ((k', sz, None), s') \<longleftrightarrow>
    k' = k \<and> 56 \<le> sz \<and> intsize sz = unat n \<and> (\<exists>r. st_input s = putint sz @ r) \<and> room (unat n) s \<and>
    s' = advance (unat n) s"
proof -
  have "1 \<le> sz" if "56 \<le> sz" using that by (simp add: word_le_nat_alt)
  then have "56 \<le> sz \<Longrightarrow> readUint n s = (Inr sz, s') \<longleftrightarrow>
    intsize sz = unat n \<and> (\<exists>r. st_input s = putint sz @ r) \<and> room (unat n) s \<and> s' = advance (unat n) s"
    using readUint_iff [OF assms] by blast
  then show ?thesis
    by (cases "readUint n s"; cases "fst (readUint n s)") (auto simp: readSize_def not_less)
qed

lemma advance_byteval: "advance n (s\<lparr>st_byteval := v\<rparr>) = (advance n s)\<lparr>st_byteval := v\<rparr>"
  by (simp add: advance_def account_def)

lemma room_byteval [simp]: "room n (s\<lparr>st_byteval := v\<rparr>) = room n s"
  by (simp add: room_def limit_room_def)

lemma room_advance_split: "room (n + m) s \<longleftrightarrow> room n s \<and> room m (advance n s)"
proof
  assume "room (n + m) s"
  then show "room n s \<and> room m (advance n s)" using room_advance room_mono by (metis le_add1)
next
  assume r: "room n s \<and> room m (advance n s)"
  then have "limit_room (n + m) s"
    using unat_sub_of_nat [of n "st_remaining s"] by (auto simp: room_def limit_room_def)
  then show "room (n + m) s" using r room_advance_back [of n "st_stack s" m] by (simp add: room_def)
qed

text \<open>A long header is its tag and the bytes of the size.\<close>

lemma long_hdr:
  fixes b :: byte
  assumes "56 \<le> sz" "1 \<le> unat (b - tag)" "intsize sz = unat (b - tag)"
  shows "head_bytes small tag sz = b # putint sz" "length (head_bytes small tag sz) = Suc (unat (b - tag))"
proof -
  have "tag + of_nat (intsize sz) = b" using assms(3) by simp
  then show "head_bytes small tag sz = b # putint sz" using long_head_bytes [OF assms(1)] by simp
  then show "length (head_bytes small tag sz) = Suc (unat (b - tag))" using assms(3) by simp
qed

lemma tag_range:
  fixes b :: byte
  shows "0xB8 \<le> b \<Longrightarrow> b < 0xC0 \<Longrightarrow> 1 \<le> unat (b - 0xB7) \<and> unat (b - 0xB7) \<le> 8"
    and "0xF8 \<le> b \<Longrightarrow> 1 \<le> unat (b - 0xF7) \<and> unat (b - 0xF7) \<le> 8"
  using tag_of [of b] by auto

lemma readKind_sound:
  assumes "Stream_readKind s = ((k, sz, None), s')"
  shows "\<exists>v r. hdr_ok k sz v \<and> st_input s = hdr k sz v @ r \<and> room (length (hdr k sz v)) s \<and>
    s' = (advance (length (hdr k sz v)) s)\<lparr>st_byteval := v\<rparr>"
proof -
  obtain b s1 where rb: "readByte s = (Inr b, s1)"
    using assms by (cases "readByte s"; cases "fst (readByte s)") (auto simp: Stream_readKind_def)
  then obtain r where r: "st_input s = b # r" and r1: "room 1 s" and s1: "s1 = advance 1 s" by (auto simp: readByte_iff)
  let ?s = "s1\<lparr>st_byteval := 0\<rparr>"
  have i: "st_input ?s = r" by (simp add: s1 r)
  have long: "hdr_ok k sz 0 \<and> st_input s = hdr k sz 0 @ r' \<and> room (length (hdr k sz 0)) s \<and>
      s' = (advance (length (hdr k sz 0)) s)\<lparr>st_byteval := 0\<rparr>"
    if rs: "readSize (b - tag) k0 ?s = ((k, sz, None), s')" and t: "1 \<le> unat (b - tag)" "unat (b - tag) \<le> 8"
      and k0: "k0 \<noteq> Byte" "hdr k0 sz 0 = head_bytes small tag sz" "r = putint sz @ r'" for tag k0 small r'
  proof -
    have rs': "k = k0" "56 \<le> sz" "intsize sz = unat (b - tag)" "room (unat (b - tag)) ?s" "s' = advance (unat (b - tag)) ?s"
      using rs [unfolded readSize_iff [OF t]] by simp_all
    note h = long_hdr [OF rs'(2) t(1) rs'(3), of small]
    have "room (1 + unat (b - tag)) s" using r1 rs'(4) s1 unfolding room_advance_split by simp
    moreover have "s' = (advance (Suc (unat (b - tag))) s)\<lparr>st_byteval := 0\<rparr>"
      unfolding rs'(5) s1 by (simp add: advance_byteval advance_advance)
    moreover have "hdr_ok k sz 0" using k0(1) rs'(1) by (cases k) simp_all
    ultimately show ?thesis using k0 rs'(1) h r by simp
  qed
  have ex: "\<exists>r'. r = putint sz @ r'"
    if "readSize (b - tag) k0 ?s = ((k, sz, None), s')" "1 \<le> unat (b - tag)" "unat (b - tag) \<le> 8" for tag k0
    using that(1) [unfolded readSize_iff [OF that(2,3)]] i by simp
  consider "b < 0x80" | "0x80 \<le> b" "b < 0xB8" | "0xB8 \<le> b" "b < 0xC0" | "0xC0 \<le> b" "b < 0xF8" | "0xF8 \<le> b"
    by (meson not_less)
  then show ?thesis
  proof cases
    case 1
    then show ?thesis using assms rb r r1 s1 by (intro exI [of _ b]) (auto simp: Stream_readKind_def)
  next
    case 2
    then have "\<not> b < 0x80" by (auto simp: word_le_nat_alt word_less_nat_alt)
    then have "k = String" "sz = ucast (b - 0x80)" "s' = ?s" using assms rb 2 by (auto simp: Stream_readKind_def)
    then show ?thesis using short_tags(1) [OF 2] r r1 s1 by (intro exI [of _ 0]) simp
  next
    case 3
    then have n: "\<not> b < 0x80" "\<not> b < 0xB8" by (auto simp: word_le_nat_alt word_less_nat_alt)
    then have rs: "readSize (b - 0xB7) String ?s = ((k, sz, None), s')" using assms rb 3 by (auto simp: Stream_readKind_def)
    note t = tag_range(1) [OF 3]
    from ex [OF rs] t obtain r' where "r = putint sz @ r'" by blast
    from long [OF rs _ _ _ _ this, of "0x80"] t show ?thesis by auto
  next
    case 4
    then have n: "\<not> b < 0x80" "\<not> b < 0xB8" "\<not> b < 0xC0" by (auto simp: word_le_nat_alt word_less_nat_alt)
    then have "k = List" "sz = ucast (b - 0xC0)" "s' = ?s" using assms rb 4 by (auto simp: Stream_readKind_def)
    then show ?thesis using short_tags(2) [OF 4] r r1 s1 by (intro exI [of _ 0]) simp
  next
    case 5
    then have n: "\<not> b < 0x80" "\<not> b < 0xB8" "\<not> b < 0xC0" "\<not> b < 0xF8" by (auto simp: word_le_nat_alt word_less_nat_alt)
    then have rs: "readSize (b - 0xF7) List ?s = ((k, sz, None), s')" using assms rb 5 by (auto simp: Stream_readKind_def)
    note t = tag_range(2) [OF 5]
    from ex [OF rs] t obtain r' where "r = putint sz @ r'" by blast
    from long [OF rs _ _ _ _ this, of "0xC0"] t show ?thesis by auto
  qed
qed

lemma readKind_complete:
  assumes "hdr_ok k sz v" "st_input s = hdr k sz v @ r" "room (length (hdr k sz v)) s"
  shows "Stream_readKind s = ((k, sz, None), (advance (length (hdr k sz v)) s)\<lparr>st_byteval := v\<rparr>)"
proof -
  have rb: "readByte s = (Inr b, advance 1 s)" if "hdr k sz v = b # h" for b h
    using assms(2,3) that by (auto simp: readByte_iff intro: room_mono)
  have long: "readSize (of_nat (intsize sz)) k ((advance 1 s)\<lparr>st_byteval := 0\<rparr>) =
      ((k, sz, None), (advance (length (hdr k sz v)) s)\<lparr>st_byteval := 0\<rparr>)"
    if "hdr k sz v = b # putint sz" "56 \<le> sz" for b
  proof -
    have n: "unat (of_nat (intsize sz) :: byte) = intsize sz" "1 \<le> intsize sz" "intsize sz \<le> 8"
      using intsize_pos [of sz] intsize_le [of sz] long_tags(2) [of "intsize sz"] by auto
    have "room (1 + intsize sz) s" using assms(3) that(1) by simp
    then have "room (intsize sz) (advance 1 s)" by (rule room_advance)
    then show ?thesis using assms(2) that n
      by (subst readSize_iff) (simp_all add: advance_byteval advance_advance)
  qed
  show ?thesis
  proof (cases k)
    case Byte
    then show ?thesis using assms(1) rb [of v "[]"] by (simp add: Stream_readKind_def)
  next
    case String
    show ?thesis
    proof (cases "sz < 56")
      case True
      note t = short_tag_back(1-3) [OF True]
      have "\<not> 0x80 + (ucast sz :: byte) < 0x80" using t(1) by (auto simp: word_le_nat_alt word_less_nat_alt)
      then show ?thesis using True String t assms(1) rb [of "0x80 + ucast sz" "[]"]
        by (simp add: Stream_readKind_def head_bytes_def)
    next
      case False
      then have 56: "56 \<le> sz" by simp
      have h: "hdr k sz v = (0xB7 + of_nat (intsize sz)) # putint sz" using String long_head_bytes [OF 56] by simp
      have n: "1 \<le> intsize sz" "intsize sz \<le> 8" using intsize_pos [of sz] intsize_le [of sz] by auto
      note t = long_tags(1,3,4) [OF n]
      have "\<not> 0xB7 + (of_nat (intsize sz) :: byte) < 0x80" "\<not> 0xB7 + (of_nat (intsize sz) :: byte) < 0xB8"
        using t(2) by (auto simp: word_le_nat_alt word_less_nat_alt)
      then show ?thesis using t String assms(1) rb [OF h] long [OF h 56] by (simp add: Stream_readKind_def)
    qed
  next
    case List
    show ?thesis
    proof (cases "sz < 56")
      case True
      note t = short_tag_back(4-6) [OF True]
      have "\<not> 0xC0 + (ucast sz :: byte) < 0x80" "\<not> 0xC0 + (ucast sz :: byte) < 0xB8" "\<not> 0xC0 + (ucast sz :: byte) < 0xC0"
        using t(1) by (auto simp: word_le_nat_alt word_less_nat_alt)
      then show ?thesis using True List t assms(1) rb [of "0xC0 + ucast sz" "[]"]
        by (simp add: Stream_readKind_def head_bytes_def)
    next
      case False
      then have 56: "56 \<le> sz" by simp
      have h: "hdr k sz v = (0xF7 + of_nat (intsize sz)) # putint sz" using List long_head_bytes [OF 56] by simp
      have n: "1 \<le> intsize sz" "intsize sz \<le> 8" using intsize_pos [of sz] intsize_le [of sz] by auto
      note t = long_tags(5) [OF n]
      have "\<not> 0xF7 + (of_nat (intsize sz) :: byte) < 0x80" "\<not> 0xF7 + (of_nat (intsize sz) :: byte) < 0xB8"
        "\<not> 0xF7 + (of_nat (intsize sz) :: byte) < 0xC0" "\<not> 0xF7 + (of_nat (intsize sz) :: byte) < 0xF8"
        using t by (auto simp: word_le_nat_alt word_less_nat_alt)
      then show ?thesis using List assms(1) rb [OF h] long [OF h 56] by (simp add: Stream_readKind_def)
    qed
  qed
qed

section \<open>Looking at the next value\<close>

definition peeked :: "Kind \<Rightarrow> u64 \<Rightarrow> byte \<Rightarrow> Stream \<Rightarrow> Stream" where
  "peeked k sz v s = (advance (length (hdr k sz v)) s)
     \<lparr>st_byteval := v, st_kind := Some k, st_size := sz, st_kinderr := None\<rparr>"

text \<open>\<^verbatim>\<open>Kind\<close> checks the size against the enclosing list or, outside of lists, the input limit.\<close>

definition kind_room :: "nat \<Rightarrow> nat \<Rightarrow> Stream \<Rightarrow> bool" where
  "kind_room n m s = (room n s \<and>
     (if st_stack s = [] then limit_room (n + m) s else list_room (n + m) (st_stack s)))"

lemma hdr_not_Nil: "0 < length (hdr k sz v)"
  by (cases k) (simp_all add: head_bytes_def Let_def)

lemma room_kinderr [simp]: "room n (s\<lparr>st_kinderr := e\<rparr>) = room n s"
  by (simp add: room_def limit_room_def)

lemma advance_kinderr: "advance n (s\<lparr>st_kinderr := e\<rparr>) = (advance n s)\<lparr>st_kinderr := e\<rparr>"
  by (simp add: advance_def account_def)

lemma not_at_end:
  assumes "room n s" "0 < n"
  shows "\<not> at_list_end s"
  using assms by (auto simp: room_def at_list_end_def split: list.splits)

lemma kind_check:
  assumes "room n s"
  shows "sizeError sz (advance n s) = None \<longleftrightarrow> kind_room n (unat sz) s"
proof (cases "st_stack s")
  case Nil
  then show ?thesis using assms unat_sub_of_nat [of n "st_remaining s"]
    by (auto simp: sizeError_def kind_room_def room_def limit_room_def word_less_nat_alt)
next
  case (Cons a st)
  obtain p z where a: "a = (p, z)" by fastforce
  have "unat (z - (p + of_nat n)) = unat (z - p) - n" "n \<le> unat (z - p)"
    using assms a Cons unat_sub_of_nat [of n "z - p"] by (simp_all add: room_def diff_diff_add)
  then show ?thesis using assms a Cons by (auto simp: sizeError_def kind_room_def room_def word_less_nat_alt)
qed

lemma sizeError_fields [simp]:
  "sizeError sz (s\<lparr>st_byteval := v\<rparr>) = sizeError sz s"
  "sizeError sz (s\<lparr>st_kinderr := e\<rparr>) = sizeError sz s"
  "at_list_end (s\<lparr>st_kinderr := e\<rparr>) = at_list_end s"
  by (cases "st_stack s"; auto simp: sizeError_def at_list_end_def)+

lemma Kind_iff:
  assumes "st_kind s = None"
  shows "Stream_Kind s = (Inr (k, sz), s') \<longleftrightarrow>
    (\<exists>v r. hdr_ok k sz v \<and> st_input s = hdr k sz v @ r \<and> kind_room (length (hdr k sz v)) (unat sz) s \<and>
       s' = peeked k sz v s)"
proof
  let ?s = "s\<lparr>st_kinderr := None\<rparr>"
  assume a: "Stream_Kind s = (Inr (k, sz), s')"
  obtain k1 sz1 e1 s1 where rk: "Stream_readKind ?s = ((k1, sz1, e1), s1)" by (metis prod_cases3 surj_pair)
  from a assms rk have k: "e1 = None" "k1 = k" "sz1 = sz"
    "sizeError sz s1 = None"
    and s': "s' = s1\<lparr>st_kind := Some k, st_size := sz, st_kinderr := None\<rparr>"
    by (auto simp: Stream_Kind_def Let_def split: if_splits option.splits)
  from readKind_sound [OF rk [unfolded k(1-3)]] obtain v r where v: "hdr_ok k sz v" "st_input s = hdr k sz v @ r"
    "room (length (hdr k sz v)) s" "s1 = (advance (length (hdr k sz v)) ?s)\<lparr>st_byteval := v\<rparr>"
    by auto
  have "kind_room (length (hdr k sz v)) (unat sz) s"
    using kind_check [OF v(3), of sz] k(4) unfolding v(4) by (simp add: advance_kinderr)
  moreover have "s' = peeked k sz v s" unfolding s' v(4) peeked_def by (simp add: advance_kinderr)
  ultimately show "\<exists>v r. hdr_ok k sz v \<and> st_input s = hdr k sz v @ r \<and> kind_room (length (hdr k sz v)) (unat sz) s \<and>
       s' = peeked k sz v s" using v by blast
next
  let ?s = "s\<lparr>st_kinderr := None\<rparr>"
  assume "\<exists>v r. hdr_ok k sz v \<and> st_input s = hdr k sz v @ r \<and> kind_room (length (hdr k sz v)) (unat sz) s \<and>
       s' = peeked k sz v s"
  then obtain v r where v: "hdr_ok k sz v" "st_input s = hdr k sz v @ r"
    "kind_room (length (hdr k sz v)) (unat sz) s" "s' = peeked k sz v s" by blast
  have r: "room (length (hdr k sz v)) s" using v(3) by (simp add: kind_room_def)
  have rk: "Stream_readKind ?s = ((k, sz, None), (advance (length (hdr k sz v)) ?s)\<lparr>st_byteval := v\<rparr>)"
    using readKind_complete [of k sz v ?s r] v(1,2) r by simp
  have ne: "\<not> at_list_end s" using not_at_end [OF r hdr_not_Nil] .
  show "Stream_Kind s = (Inr (k, sz), s')"
    using kind_check [OF r, of sz] v(3) assms ne unfolding v(4) peeked_def
    by (simp add: Stream_Kind_def rk advance_kinderr del: advance_simps(3-5))
qed

lemma peeked_simps [simp]:
  "st_kind (peeked k sz v s) = Some k" "st_size (peeked k sz v s) = sz" "st_byteval (peeked k sz v s) = v"
  "st_kinderr (peeked k sz v s) = None" "st_input (peeked k sz v s) = drop (length (hdr k sz v)) (st_input s)"
  by (simp_all add: peeked_def)

lemma Kind_peeked [simp]: "Stream_Kind (peeked k sz v s) = (Inr (k, sz), peeked k sz v s)"
  by (simp add: Stream_Kind_def)

text \<open>Looking twice is looking once.\<close>

lemma Kind_idem: "Stream_Kind (snd (Stream_Kind s)) = Stream_Kind s"
proof (cases "st_kind s")
  case (Some k)
  then show ?thesis by (simp add: Stream_Kind_def split: option.splits)
next
  case None
  show ?thesis
  proof (cases "at_list_end s")
    case True
    then show ?thesis using None by (simp add: Stream_Kind_def)
  next
    case False
    then show ?thesis using None
      by (simp add: Stream_Kind_def Let_def split: prod.splits option.splits)
  qed
qed

end
