(* ===== verification/BigInt.thy ===== *)
theory BigInt
  imports Prelude
begin

text \<open>
  What the code uses of \<^verbatim>\<open>math/big\<close>: integers as big-endian bytes and as decimal digits, truncated
  division, the gob encoding.  A \<^verbatim>\<open>big.Int\<close> is an \<open>int\<close>.
\<close>

section \<open>Bytes\<close>

text \<open>\<^verbatim>\<open>big.Int.Bytes\<close>: the absolute value in big-endian order, without leading zeros.\<close>

fun nat_bytes :: "nat \<Rightarrow> byte list" where
  "nat_bytes n = (if n = 0 then [] else nat_bytes (n div 256) @ [of_nat n])"

declare nat_bytes.simps [simp del]

definition bytes_nat :: "byte list \<Rightarrow> nat" where
  "bytes_nat bs = foldl (\<lambda>n b. n * 256 + unat b) 0 bs"

lemma bytes_nat_snoc: "bytes_nat (bs @ [b]) = bytes_nat bs * 256 + unat b"
  by (simp add: bytes_nat_def)

lemma unat_byte: "unat (b :: byte) < 256"
  using unsigned_less [of b] by simp

lemma bytes_nat_nat_bytes: "bytes_nat (nat_bytes n) = n"
proof (induction n rule: nat_bytes.induct)
  case (1 n)
  show ?case
  proof (cases "n = 0")
    case True
    then show ?thesis by (simp add: nat_bytes.simps [of 0] bytes_nat_def)
  next
    case False
    have "unat (of_nat n :: byte) = n mod 256" by (simp add: unsigned_of_nat take_bit_eq_mod)
    then show ?thesis using 1 [OF False] False
      by (subst nat_bytes.simps) (simp add: bytes_nat_snoc div_mult_mod_eq)
  qed
qed

lemma nat_bytes_pos: "n \<noteq> 0 \<Longrightarrow> nat_bytes n \<noteq> []"
  by (subst nat_bytes.simps) simp

lemma hd_nat_bytes: "n \<noteq> 0 \<Longrightarrow> hd (nat_bytes n) \<noteq> 0"
proof (induction n rule: nat_bytes.induct)
  case (1 n)
  show ?case
  proof (cases "n div 256 = 0")
    case True
    then have "n < 256" by simp
    then have "(of_nat n :: byte) \<noteq> 0" using 1(2) by (simp add: word_of_nat_eq_0_iff dvd_imp_le nat_dvd_not_less)
    then show ?thesis using 1(2) True by (simp add: nat_bytes.simps [of n] nat_bytes.simps [of 0])
  next
    case False
    then show ?thesis using 1 nat_bytes_pos [OF False] by (simp add: nat_bytes.simps [of n])
  qed
qed

lemma bytes_nat_zero: "bytes_nat bs = 0 \<Longrightarrow> bs \<noteq> [] \<Longrightarrow> hd bs = 0"
proof (induction bs rule: rev_induct)
  case (snoc b bs)
  show ?case
  proof (cases "bs = []")
    case True
    then show ?thesis using snoc.prems by (simp add: bytes_nat_def unat_eq_0)
  next
    case False
    then show ?thesis using snoc by (simp add: bytes_nat_snoc)
  qed
qed simp

lemma nat_bytes_bytes_nat: "bs = [] \<or> hd bs \<noteq> 0 \<Longrightarrow> nat_bytes (bytes_nat bs) = bs"
proof (induction bs rule: rev_induct)
  case Nil
  then show ?case by (simp add: bytes_nat_def nat_bytes.simps)
next
  case (snoc b bs)
  then have IH: "nat_bytes (bytes_nat bs) = bs" by (cases "bs = []") auto
  have nz: "bytes_nat (bs @ [b]) \<noteq> 0" using snoc.prems bytes_nat_zero [of "bs @ [b]"] by auto
  have d: "bytes_nat (bs @ [b]) div 256 = bytes_nat bs" "bytes_nat (bs @ [b]) mod 256 = unat b"
    using unat_byte [of b] by (simp_all add: bytes_nat_snoc)
  have "(of_nat (bytes_nat (bs @ [b])) :: byte) = b"
    by (simp add: word_unat_eq_iff unsigned_of_nat take_bit_eq_mod d(2) del: of_nat_add)
  then show ?case using nz d(1) IH by (simp add: nat_bytes.simps [of "bytes_nat (bs @ [b])"])
qed

section \<open>Truncated division\<close>

text \<open>\<^verbatim>\<open>Quo\<close> and \<^verbatim>\<open>Rem\<close> round toward zero; \<^verbatim>\<open>Div\<close> and \<^verbatim>\<open>Mod\<close> by a positive number are those of HOL.\<close>

definition big_Quo :: "int \<Rightarrow> int \<Rightarrow> int" where
  "big_Quo a b = sgn a * sgn b * (\<bar>a\<bar> div \<bar>b\<bar>)"

definition big_Rem :: "int \<Rightarrow> int \<Rightarrow> int" where
  "big_Rem a b = a - b * big_Quo a b"

lemma big_Rem_eq: "b \<noteq> 0 \<Longrightarrow> big_Rem a b = sgn a * (\<bar>a\<bar> mod \<bar>b\<bar>)"
proof -
  have "b * (sgn a * sgn b * (\<bar>a\<bar> div \<bar>b\<bar>)) = sgn a * (\<bar>b\<bar> * (\<bar>a\<bar> div \<bar>b\<bar>))"
    by (simp add: abs_sgn ac_simps)
  moreover have "\<bar>b\<bar> * (\<bar>a\<bar> div \<bar>b\<bar>) = \<bar>a\<bar> - \<bar>a\<bar> mod \<bar>b\<bar>"
    by (simp add: minus_mod_eq_mult_div)
  ultimately show ?thesis by (simp add: big_Rem_def big_Quo_def right_diff_distrib mult_sgn_abs)
qed

lemma big_Rem_less: "b \<noteq> 0 \<Longrightarrow> \<bar>big_Rem a b\<bar> < \<bar>b\<bar>"
  by (simp add: big_Rem_eq abs_mult sgn_if)

lemma big_Rem_sign: "b \<noteq> 0 \<Longrightarrow> 0 \<le> a \<Longrightarrow> 0 \<le> big_Rem a b" "b \<noteq> 0 \<Longrightarrow> a \<le> 0 \<Longrightarrow> big_Rem a b \<le> 0"
  by (simp_all add: big_Rem_eq sgn_if)

lemma big_Quo_Rem: "a = b * big_Quo a b + big_Rem a b"
  by (simp add: big_Rem_def)

lemma big_Quo_pos: "0 < b \<Longrightarrow> big_Quo a b = sgn a * (\<bar>a\<bar> div b)"
  by (simp add: big_Quo_def)

section \<open>Decimal digits\<close>

definition digit_char :: "nat \<Rightarrow> char" where
  "digit_char n = char_of (48 + n)"

definition is_digit :: "char \<Rightarrow> bool" where
  "is_digit c = (48 \<le> (of_char c :: nat) \<and> (of_char c :: nat) \<le> 57)"

definition digit_val :: "char \<Rightarrow> nat" where
  "digit_val c = of_char c - 48"

fun nat_string :: "nat \<Rightarrow> string" where
  "nat_string n = (if n < 10 then [digit_char n] else nat_string (n div 10) @ [digit_char (n mod 10)])"

declare nat_string.simps [simp del]

definition big_String :: "int \<Rightarrow> string" where
  "big_String i = (if i < 0 then CHR ''-'' # nat_string (nat (- i)) else nat_string (nat i))"

definition string_nat :: "string \<Rightarrow> nat" where
  "string_nat s = foldl (\<lambda>n c. n * 10 + digit_val c) 0 s"

definition parse_digits :: "string \<Rightarrow> nat option" where
  "parse_digits s = (if s \<noteq> [] \<and> list_all is_digit s then Some (string_nat s) else None)"

text \<open>\<^verbatim>\<open>SetString(s, 10)\<close>.\<close>

definition big_SetString :: "string \<Rightarrow> int option" where
  "big_SetString s =
     (case s of
        [] \<Rightarrow> None
      | c # r \<Rightarrow>
          if c = CHR ''-'' then map_option (\<lambda>n. - int n) (parse_digits r)
          else if c = CHR ''+'' then map_option int (parse_digits r)
          else map_option int (parse_digits s))"

lemma digit_val_char [simp]: "n < 10 \<Longrightarrow> digit_val (digit_char n) = n"
  by (simp add: digit_val_def digit_char_def)

lemma is_digit_char [simp]: "n < 10 \<Longrightarrow> is_digit (digit_char n)"
  by (simp add: is_digit_def digit_char_def)

lemma digit_char_val: "is_digit c \<Longrightarrow> digit_char (digit_val c) = c"
  by (simp add: is_digit_def digit_char_def digit_val_def)

lemma digit_val_less: "is_digit c \<Longrightarrow> digit_val c < 10"
  unfolding is_digit_def digit_val_def by linarith

lemma digit_char_0 [simp]: "digit_char 0 = CHR ''0''"
  by code_simp

lemma digit_val_0: "is_digit c \<Longrightarrow> digit_val c = 0 \<longleftrightarrow> c = CHR ''0''"
  using digit_char_val [of c] by (cases "digit_val c = 0") (auto simp: digit_val_def)

lemma string_nat_Nil [simp]: "string_nat [] = 0"
  by (simp add: string_nat_def)

lemma string_nat_snoc [simp]: "string_nat (s @ [c]) = string_nat s * 10 + digit_val c"
  by (simp add: string_nat_def)

lemma string_nat_append: "string_nat (s @ t) = string_nat s * 10 ^ length t + string_nat t"
  by (induction t rule: rev_induct) (simp_all add: string_nat_def algebra_simps)

lemma string_nat_less: "list_all is_digit s \<Longrightarrow> string_nat s < 10 ^ length s"
proof (induction s rule: rev_induct)
  case (snoc c s)
  then show ?case using digit_val_less [of c] by simp
qed simp

lemma nat_string_not_Nil [simp]: "nat_string n \<noteq> []"
  by (subst nat_string.simps) simp

lemma digits_nat_string [simp]: "list_all is_digit (nat_string n)"
proof (induction n rule: nat_string.induct)
  case (1 n)
  then show ?case by (subst nat_string.simps) simp
qed

lemma string_nat_nat_string [simp]: "string_nat (nat_string n) = n"
proof (induction n rule: nat_string.induct)
  case (1 n)
  show ?case
  proof (cases "n < 10")
    case True
    then show ?thesis using string_nat_snoc [of "[]" "digit_char n"] by (subst nat_string.simps) simp
  next
    case False
    then show ?thesis using 1 by (subst nat_string.simps) simp
  qed
qed

lemma nat_string_less: "n < 10 ^ k \<Longrightarrow> 0 < k \<Longrightarrow> length (nat_string n) \<le> k"
proof (induction n arbitrary: k rule: nat_string.induct)
  case (1 n)
  show ?case
  proof (cases "n < 10")
    case True
    then show ?thesis using 1(3) by (subst nat_string.simps) simp
  next
    case False
    then obtain k' where k: "k = Suc k'" "k' \<noteq> 0" using 1(2,3) by (cases k; cases "k - 1 = 0") auto
    then have "n div 10 < 10 ^ k'" using 1(2) by (simp add: div_less_iff_less_mult)
    then have "length (nat_string (n div 10)) \<le> k'" using 1(1) False k(2) by simp
    then show ?thesis using False k by (subst nat_string.simps) simp
  qed
qed

lemma nat_string_ge: "n < 10 ^ length (nat_string n)"
  using string_nat_less [OF digits_nat_string] by simp

lemma parse_nat_string [simp]: "parse_digits (nat_string n) = Some n"
  by (simp add: parse_digits_def)

lemma sign_not_digit: "is_digit c \<Longrightarrow> c \<noteq> CHR ''-'' \<and> c \<noteq> CHR ''+'' \<and> c \<noteq> CHR ''.'' \<and> c \<noteq> CHR ''e'' \<and> c \<noteq> CHR ''E''"
  by (auto simp: is_digit_def)

lemma SetString_digits: "list_all is_digit s \<Longrightarrow> s \<noteq> [] \<Longrightarrow> big_SetString s = Some (int (string_nat s))"
  using sign_not_digit by (cases s) (auto simp: big_SetString_def parse_digits_def)

lemma SetString_neg: "list_all is_digit s \<Longrightarrow> s \<noteq> [] \<Longrightarrow> big_SetString (CHR ''-'' # s) = Some (- int (string_nat s))"
  by (auto simp: big_SetString_def parse_digits_def)

lemma SetString_String: "big_SetString (big_String i) = Some i"
  by (simp add: big_String_def SetString_digits SetString_neg)

section \<open>Gob encoding\<close>

text \<open>A version byte with the sign in its lowest bit, and the bytes of the absolute value.\<close>

definition big_GobEncode :: "int \<Rightarrow> byte list" where
  "big_GobEncode i = (if i < 0 then 3 else 2) # nat_bytes (nat \<bar>i\<bar>)"

definition big_GobDecode :: "byte list \<Rightarrow> int option" where
  "big_GobDecode buf =
     (case buf of
        [] \<Rightarrow> Some 0
      | b # bs \<Rightarrow>
          if drop_bit 1 b \<noteq> 1 then None
          else Some (if bit b 0 then - int (bytes_nat bs) else int (bytes_nat bs)))"

lemma GobDecode_Encode: "big_GobDecode (big_GobEncode i) = Some i"
  by (simp add: big_GobDecode_def big_GobEncode_def bytes_nat_nat_bytes)

end
