(* ===== verification/RlpTypes.thy ===== *)
theory RlpTypes
  imports RlpEncProps RlpStream BigInt
begin

text \<open>
  The type-directed writers and decoders of \<^verbatim>\<open>util/serialize/rlp\<close> (\<^verbatim>\<open>encode.go\<close>,
  \<^verbatim>\<open>decode.go\<close>, \<^verbatim>\<open>typecache.go\<close>).  A \<^verbatim>\<open>reflect.Type\<close> is a term of \<open>rtype\<close>, a
  \<^verbatim>\<open>reflect.Value\<close> a term of \<open>rval\<close>; the closures that \<^verbatim>\<open>makeWriter\<close> and \<^verbatim>\<open>makeDecoder\<close>
  return are \<open>write_value\<close> and \<open>decode_value\<close> at the type, and the errors they return instead are
  \<open>writerErr\<close> and \<open>decoderErr\<close>.  Values are decoded into zero values.
\<close>

section \<open>Types and values\<close>

datatype rtype =
    TUint nat
  | TBool
  | TString
  | TRawValue
  | TBigInt
  | TPtr rtype
  | TSlice rtype
  | TArray nat rtype
  | TStruct "rfield list"
  | TInterface nat
  | TOther string
and rfield = Field (fname: string) (exported: bool) (ftype: rtype) (ftag: string)

datatype rval =
    VUint u64
  | VBool bool
  | VBytes "byte list"
  | VBig int
  | VPtr "rval option"
  | VList "rval list"
  | VStruct "rval list"
  | VIface "(rtype \<times> rval) option"
  | VNone

record tags =
  nilOK :: bool
  nilKind :: Kind
  tail :: bool
  ignored :: bool

definition no_tags :: tags where
  "no_tags = \<lparr>nilOK = False, nilKind = Byte, tail = False, ignored = False\<rparr>"

fun isUint :: "rtype \<Rightarrow> bool" where
  "isUint (TUint n) = True"
| "isUint _ = False"

fun isByte :: "rtype \<Rightarrow> bool" where
  "isByte (TUint n) = (n = 8)"
| "isByte _ = False"

fun isByteArray :: "rtype \<Rightarrow> bool" where
  "isByteArray TRawValue = True"
| "isByteArray (TSlice e) = isByte e"
| "isByteArray (TArray n e) = isByte e"
| "isByteArray _ = False"

definition defaultNilKind :: "rtype \<Rightarrow> Kind" where
  "defaultNilKind t = (if isUint t \<or> t = TString \<or> t = TBool \<or> isByteArray t then String else List)"

fun isPtr :: "rtype \<Rightarrow> bool" where
  "isPtr (TPtr _) = True"
| "isPtr _ = False"

fun isSlice :: "rtype \<Rightarrow> bool" where
  "isSlice (TSlice _) = True"
| "isSlice TRawValue = True"
| "isSlice _ = False"

section \<open>Struct tags\<close>

text \<open>\<^verbatim>\<open>strings.Split(s, ",")\<close> and \<^verbatim>\<open>strings.TrimSpace\<close>.\<close>

fun split_commas :: "string \<Rightarrow> string list" where
  "split_commas [] = [[]]"
| "split_commas (c # cs) =
     (if c = CHR '','' then [] # split_commas cs
      else case split_commas cs of [] \<Rightarrow> [[c]] | t # ts \<Rightarrow> (c # t) # ts)"

definition is_space :: "char \<Rightarrow> bool" where
  "is_space c = (c \<in> set [CHR '' '', CHR 0x09, CHR 0x0A, CHR 0x0B, CHR 0x0C, CHR 0x0D])"

definition TrimSpace :: "string \<Rightarrow> string" where
  "TrimSpace s = rev (dropWhile is_space (rev (dropWhile is_space s)))"

fun ptr_elem :: "rtype \<Rightarrow> rtype" where
  "ptr_elem (TPtr t) = t"
| "ptr_elem t = t"

fun parseTags :: "rfield \<Rightarrow> bool \<Rightarrow> string list \<Rightarrow> tags \<Rightarrow> rlp_error + tags" where
  "parseTags f lastp [] ts = Inr ts"
| "parseTags f lastp (t # ws) ts =
     (let t = TrimSpace t in
      if t = [] then parseTags f lastp ws ts
      else if t = ''-'' then parseTags f lastp ws (ts\<lparr>ignored := True\<rparr>)
      else if t \<in> {''nil'', ''nilString'', ''nilList''} then
        (if \<not> isPtr (ftype f) then Inl StructTagError
         else parseTags f lastp ws (ts\<lparr>nilOK := True, nilKind :=
           (if t = ''nil'' then defaultNilKind (ptr_elem (ftype f)) else if t = ''nilString'' then String else List)\<rparr>))
      else if t = ''tail'' then
        (if \<not> lastp then Inl StructTagError
         else if \<not> isSlice (ftype f) then Inl StructTagError
         else parseTags f lastp ws (ts\<lparr>tail := True\<rparr>))
      else Inl StructTagError)"

fun lastPublicFrom :: "nat \<Rightarrow> rfield list \<Rightarrow> nat \<Rightarrow> nat" where
  "lastPublicFrom i [] lastp = lastp"
| "lastPublicFrom i (f # fs) lastp = lastPublicFrom (Suc i) fs (if exported f then i else lastp)"

definition lastPublicField :: "rfield list \<Rightarrow> nat" where
  "lastPublicField fs = lastPublicFrom 0 fs 0"

definition parseStructTag :: "rfield \<Rightarrow> nat \<Rightarrow> nat \<Rightarrow> rlp_error + tags" where
  "parseStructTag f fi lastPublic = parseTags f (fi = lastPublic) (split_commas (ftag f)) no_tags"

type_synonym sfield = "nat \<times> rtype \<times> tags"

fun structFieldsFrom :: "nat \<Rightarrow> nat \<Rightarrow> rfield list \<Rightarrow> rlp_error + sfield list" where
  "structFieldsFrom lastp i [] = Inr []"
| "structFieldsFrom lastp i (f # fs) =
     (if exported f then
        bindE (parseStructTag f i lastp) (\<lambda>ts.
          if ignored ts then structFieldsFrom lastp (Suc i) fs
          else bindE (structFieldsFrom lastp (Suc i) fs) (\<lambda>r. Inr ((i, ftype f, ts) # r)))
      else structFieldsFrom lastp (Suc i) fs)"

definition structFields :: "rfield list \<Rightarrow> rlp_error + sfield list" where
  "structFields fs = structFieldsFrom (lastPublicField fs) 0 fs"

text \<open>The types of a struct's fields are smaller than the struct.\<close>

definition fields_size :: "sfield list \<Rightarrow> nat" where
  "fields_size fs = sum_list (map (\<lambda>(i, t, ts). Suc (size t)) fs)"

lemma fields_size_simps [simp]:
  "fields_size [] = 0"
  "fields_size ((i, t, ts) # fs) = Suc (size t + fields_size fs)"
  by (simp_all add: fields_size_def)

lemma size_field: "size f = Suc (size (ftype f))"
  by (cases f) simp

lemma structFieldsFrom_size: "structFieldsFrom lastp i fs = Inr r \<Longrightarrow> fields_size r \<le> size_list size fs"
proof (induction fs arbitrary: i r)
  case (Cons f fs)
  show ?case
  proof (cases "structFieldsFrom lastp (Suc i) fs")
    case (Inr r')
    have "fields_size r' \<le> size_list size fs" using Cons.IH [OF Inr] .
    then show ?thesis
      using Cons.prems Inr size_field [of f] by (auto elim!: bindE_InrE split: if_splits)
  next
    case (Inl e)
    then show ?thesis using Cons.prems by (auto elim!: bindE_InrE split: if_splits)
  qed
qed simp

lemma structFields_size: "structFields fs = Inr r \<Longrightarrow> fields_size r < size (TStruct fs)"
  using structFieldsFrom_size [of "lastPublicField fs" 0 fs r] by (simp add: structFields_def)

section \<open>Which types can be written and decoded\<close>

text \<open>\<open>writerErr\<close> is the error of \<^verbatim>\<open>makeWriter\<close>, if any.\<close>

definition fields_err :: "(sfield \<Rightarrow> rlp_error option) \<Rightarrow> sfield list \<Rightarrow> rlp_error option" where
  "fields_err err fs = (case filter (\<lambda>f. err f \<noteq> None) fs of
     [] \<Rightarrow> None | f # _ \<Rightarrow> map_option WrappedError (err f))"

lemma fields_err_cong [fundef_cong]:
  "fs = fs' \<Longrightarrow> (\<And>f. f \<in> set fs' \<Longrightarrow> err f = err' f) \<Longrightarrow> fields_err err fs = fields_err err' fs'"
  by (auto simp: fields_err_def cong: filter_cong split: list.split) (metis filter_eq_ConsD in_set_conv_decomp)+

lemma size_in_fields: "(i, t, ts) \<in> set fs \<Longrightarrow> size t < fields_size fs"
  by (induction fs) auto

lemma structFields_smaller:
  "structFields fs = Inr r \<Longrightarrow> (i, t, ts) \<in> set r \<Longrightarrow> size t < Suc (size_list size fs)"
  using structFields_size [of fs r] size_in_fields [of i t ts r] by simp

function (sequential) writerErr :: "rtype \<Rightarrow> tags \<Rightarrow> rlp_error option" where
  "writerErr TRawValue ts = None"
| "writerErr (TPtr t) ts = (if t = TBigInt then None else writerErr t no_tags)"
| "writerErr TBigInt ts = None"
| "writerErr (TUint n) ts = None"
| "writerErr TBool ts = None"
| "writerErr TString ts = None"
| "writerErr (TSlice e) ts = (if isByte e then None else writerErr e no_tags)"
| "writerErr (TArray n e) ts = (if isByte e then None else writerErr e no_tags)"
| "writerErr (TStruct fs) ts =
     (case structFields fs of Inl e \<Rightarrow> Some e
      | Inr r \<Rightarrow> fields_err (\<lambda>(i, t, ts'). writerErr t ts') r)"
| "writerErr (TInterface n) ts = None"
| "writerErr (TOther s) ts = Some NotSerializable"
  by pat_completeness auto
termination by (relation "measure (\<lambda>(t, ts). size t)") (auto dest: structFields_smaller)

text \<open>\<open>decoderErr\<close> is the error of \<^verbatim>\<open>makeDecoder\<close>, if any.\<close>

function (sequential) decoderErr :: "rtype \<Rightarrow> tags \<Rightarrow> rlp_error option" where
  "decoderErr TRawValue ts = None"
| "decoderErr (TPtr t) ts = (if t = TBigInt then None else decoderErr t no_tags)"
| "decoderErr TBigInt ts = None"
| "decoderErr (TUint n) ts = None"
| "decoderErr TBool ts = None"
| "decoderErr TString ts = None"
| "decoderErr (TSlice e) ts = (if isByte e then None else decoderErr e no_tags)"
| "decoderErr (TArray n e) ts = (if isByte e then None else decoderErr e no_tags)"
| "decoderErr (TStruct fs) ts =
     (case structFields fs of Inl e \<Rightarrow> Some e
      | Inr r \<Rightarrow> fields_err (\<lambda>(i, t, ts'). decoderErr t ts') r)"
| "decoderErr (TInterface n) ts = None"
| "decoderErr (TOther s) ts = Some NotSerializable"
  by pat_completeness auto
termination by (relation "measure (\<lambda>(t, ts). size t)") (auto dest: structFields_smaller)

section \<open>Writers\<close>

definition writeUint :: "u64 \<Rightarrow> encbuf \<Rightarrow> encbuf" where
  "writeUint i w =
     (if i = 0 then append_str [0x80] w
      else if i < 128 then append_str [ucast i] w
      else let bs = putint i in append_str ((0x80 + of_nat (length bs)) # bs) w)"

definition writeBool :: "bool \<Rightarrow> encbuf \<Rightarrow> encbuf" where
  "writeBool b w = append_str [if b then 0x01 else 0x80] w"

definition writeString :: "byte list \<Rightarrow> encbuf \<Rightarrow> encbuf" where
  "writeString s w =
     (if length s = 1 \<and> hd s \<le> 0x7F then append_str [hd s] w
      else append_str s (encodeStringHeader (length s) w))"

definition writeBigInt :: "int \<Rightarrow> encbuf \<Rightarrow> rlp_error + encbuf" where
  "writeBigInt i w =
     (if i < 0 then Inl NegativeBigInt
      else if i = 0 then Inr (append_str [0x80] w)
      else Inr (encodeString (nat_bytes (nat i)) w))"

text \<open>A value that does not belong to the type makes \<^verbatim>\<open>reflect\<close> panic.\<close>

definition bad_value :: "rlp_error + 'a" where
  "bad_value = Inl (RlpPanic BadTypeAssertion)"

lemma size_nth_less: "i < length vs \<Longrightarrow> size (vs ! i) < size_list size vs"
proof (induction vs arbitrary: i)
  case (Cons v vs)
  then show ?case by (cases i) (auto intro: trans_less_add2 less_SucI)
qed simp

function (sequential) write_value :: "rtype \<Rightarrow> tags \<Rightarrow> rval \<Rightarrow> encbuf \<Rightarrow> rlp_error + encbuf"
  and write_elems :: "rtype \<Rightarrow> rval list \<Rightarrow> encbuf \<Rightarrow> rlp_error + encbuf"
  and write_fields :: "sfield list \<Rightarrow> rval list \<Rightarrow> encbuf \<Rightarrow> rlp_error + encbuf"
where
  "write_value TRawValue ts v w = (case v of VBytes b \<Rightarrow> Inr (append_str b w) | _ \<Rightarrow> bad_value)"
| "write_value TBigInt ts v w = (case v of VBig i \<Rightarrow> writeBigInt i w | _ \<Rightarrow> bad_value)"
| "write_value (TPtr t) ts v w =
     (case v of
        VPtr None \<Rightarrow>
          if t = TBigInt then Inr (append_str [0x80] w)
          else if (if nilOK ts then nilKind ts else defaultNilKind t) = String then Inr (append_str [0x80] w)
          else (case encbuf_list w of (lh, w) \<Rightarrow> Inr (encbuf_listEnd lh w))
      | VPtr (Some v) \<Rightarrow> write_value t no_tags v w
      | _ \<Rightarrow> bad_value)"
| "write_value (TUint n) ts v w = (case v of VUint i \<Rightarrow> Inr (writeUint i w) | _ \<Rightarrow> bad_value)"
| "write_value TBool ts v w = (case v of VBool b \<Rightarrow> Inr (writeBool b w) | _ \<Rightarrow> bad_value)"
| "write_value TString ts v w = (case v of VBytes s \<Rightarrow> Inr (writeString s w) | _ \<Rightarrow> bad_value)"
| "write_value (TSlice e) ts v w =
     (case v of
        VBytes b \<Rightarrow> if isByte e then Inr (encodeString b w) else bad_value
      | VList vs \<Rightarrow>
          if isByte e then bad_value
          else if tail ts then write_elems e vs w
          else (case encbuf_list w of (lh, w) \<Rightarrow>
                  bindE (write_elems e vs w) (\<lambda>w. Inr (encbuf_listEnd lh w)))
      | _ \<Rightarrow> bad_value)"
| "write_value (TArray n e) ts v w =
     (case v of
        VBytes b \<Rightarrow> if isByte e then Inr (encodeString b w) else bad_value
      | VList vs \<Rightarrow>
          if isByte e then bad_value
          else if tail ts then write_elems e vs w
          else (case encbuf_list w of (lh, w) \<Rightarrow>
                  bindE (write_elems e vs w) (\<lambda>w. Inr (encbuf_listEnd lh w)))
      | _ \<Rightarrow> bad_value)"
| "write_value (TStruct fs) ts v w =
     (case v of
        VStruct vs \<Rightarrow>
          bindE (structFields fs) (\<lambda>fl.
            case encbuf_list w of (lh, w) \<Rightarrow>
              bindE (write_fields fl vs w) (\<lambda>w. Inr (encbuf_listEnd lh w)))
      | _ \<Rightarrow> bad_value)"
| "write_value (TInterface n) ts v w =
     (case v of
        VIface None \<Rightarrow> Inr (append_str [0xC0] w)
      | VIface (Some (t, v)) \<Rightarrow>
          (case writerErr t no_tags of
             Some e \<Rightarrow> Inl e
           | None \<Rightarrow> write_value t no_tags v w)
      | _ \<Rightarrow> bad_value)"
| "write_value (TOther s) ts v w = Inl NotSerializable"
| "write_elems e [] w = Inr w"
| "write_elems e (v # vs) w = bindE (write_value e no_tags v w) (\<lambda>w. write_elems e vs w)"
| "write_fields [] vs w = Inr w"
| "write_fields ((i, t, ts) # fl) vs w =
     (if i < length vs
      then bindE (write_value t ts (vs ! i) w) (\<lambda>w. write_fields fl vs w)
      else bad_value)"
  by pat_completeness auto

termination
  by (relation "inv_image (less_than <*lex*> less_than)
    (\<lambda>x. case x of
       Inl (t, ts, v, w) \<Rightarrow> (size v, 0)
     | Inr (Inl (e, vs, w)) \<Rightarrow> (size_list size vs, 1)
     | Inr (Inr (fl, vs, w)) \<Rightarrow> (size_list size vs, Suc (length fl)))")
    (auto simp: size_nth_less)

text \<open>\<^verbatim>\<open>cachedWriter\<close> without its cache, \<^verbatim>\<open>EncodeToBytes\<close>, \<^verbatim>\<open>EncodeToReader\<close> and \<^verbatim>\<open>Encode\<close>.\<close>

definition encbuf_encode :: "rtype \<Rightarrow> rval \<Rightarrow> encbuf \<Rightarrow> rlp_error + encbuf" where
  "encbuf_encode t v w =
     (case writerErr t no_tags of Some e \<Rightarrow> Inl e | None \<Rightarrow> write_value t no_tags v w)"

definition liftP :: "go_error + 'a \<Rightarrow> rlp_error + 'a" where
  "liftP m = (case m of Inl e \<Rightarrow> Inl (RlpPanic e) | Inr x \<Rightarrow> Inr x)"

definition EncodeToBytes :: "rtype \<Rightarrow> rval \<Rightarrow> rlp_error + byte list" where
  "EncodeToBytes t v = bindE (encbuf_encode t v new_encbuf) (\<lambda>w. liftP (toBytes w))"

definition EncodeToReader :: "rtype \<Rightarrow> rval \<Rightarrow> rlp_error + (int \<times> encReader)" where
  "EncodeToReader t v = bindE (encbuf_encode t v new_encbuf) (\<lambda>w. Inr (encbuf_size w, new_encReader w))"

text \<open>The destination of \<^verbatim>\<open>Encode\<close>: the buffer of an outer value whose \<^verbatim>\<open>EncodeRLP\<close> method is running, or
  any other writer.  What a failing encoder wrote before its error is not kept.\<close>

datatype 's sink = Outer encbuf | Other 's

definition Encode :: "('s, 'e) writer \<Rightarrow> rtype \<Rightarrow> rval \<Rightarrow> 's sink \<Rightarrow> rlp_error + ('s sink \<times> 'e option)" where
  "Encode write t v w =
     (case w of
        Outer outer \<Rightarrow> bindE (encbuf_encode t v outer) (\<lambda>outer. Inr (Outer outer, None))
      | Other s \<Rightarrow>
          bindE (encbuf_encode t v new_encbuf) (\<lambda>eb.
            bindE (liftP (toWriter write eb s)) (\<lambda>(s, e). Inr (Other s, e))))"

section \<open>Decoders\<close>

text \<open>\<open>None\<close>: the fuel ran out before the decoder returned.\<close>

type_synonym 'a dec = "Stream \<Rightarrow> ((rlp_error + 'a) \<times> Stream) option"

definition liftD :: "'a sop \<Rightarrow> 'a dec" where
  "liftD m s = Some (m s)"

definition bindD :: "'a dec \<Rightarrow> ('a \<Rightarrow> 'b dec) \<Rightarrow> 'b dec" where
  "bindD m f s =
     (case m s of
        None \<Rightarrow> None
      | Some (Inl e, s') \<Rightarrow> Some (Inl e, s')
      | Some (Inr x, s') \<Rightarrow> f x s')"

definition mapErrD :: "(rlp_error \<Rightarrow> rlp_error) \<Rightarrow> 'a dec \<Rightarrow> 'a dec" where
  "mapErrD h m s = (case m s of Some (Inl e, s') \<Rightarrow> Some (Inl (h e), s') | r \<Rightarrow> r)"

lemma dec_simps [simp]:
  "liftD m s = Some (m s)"
  "bindD n f s = (case n s of None \<Rightarrow> None | Some (Inl e, s') \<Rightarrow> Some (Inl e, s') | Some (Inr x, s') \<Rightarrow> f x s')"
  "mapErrD h k s = (case k s of Some (Inl e, s') \<Rightarrow> Some (Inl (h e), s') | r \<Rightarrow> r)"
  by (simp_all add: liftD_def bindD_def mapErrD_def)

definition wrapStreamError :: "rlp_error \<Rightarrow> rlp_error" where
  "wrapStreamError e =
     (if e \<in> {ErrCanonInt, ErrCanonSize, ErrExpectedList, ErrExpectedString, errUintOverflow, errNotAtEOL}
      then WrappedError e else e)"

definition decodeRawValue :: "rval dec" where
  "decodeRawValue = bindD (liftD Stream_Raw) (\<lambda>r. liftD (returnS (VBytes r)))"

definition decodeUint :: "nat \<Rightarrow> rval dec" where
  "decodeUint bits = bindD (mapErrD wrapStreamError (liftD (Stream_uint bits))) (\<lambda>n. liftD (returnS (VUint n)))"

definition decodeBool :: "rval dec" where
  "decodeBool = bindD (mapErrD wrapStreamError (liftD Stream_Bool)) (\<lambda>b. liftD (returnS (VBool b)))"

definition decodeString :: "rval dec" where
  "decodeString = bindD (mapErrD wrapStreamError (liftD Stream_Bytes)) (\<lambda>b. liftD (returnS (VBytes b)))"

definition decodeByteSlice :: "rval dec" where
  "decodeByteSlice = bindD (mapErrD wrapStreamError (liftD Stream_Bytes)) (\<lambda>b. liftD (returnS (VBytes b)))"

definition decodeBigInt :: "int dec" where
  "decodeBigInt = bindD (mapErrD wrapStreamError (liftD Stream_Bytes)) (\<lambda>b.
     if b \<noteq> [] \<and> hd b = 0 then liftD (failS (wrapStreamError ErrCanonInt))
     else liftD (returnS (int (bytes_nat b))))"

definition decodeByteArray :: "nat \<Rightarrow> rval dec" where
  "decodeByteArray vlen = bindD (liftD Stream_Kind) (\<lambda>(kind, sz).
     case kind of
       Byte \<Rightarrow>
         if vlen = 0 then liftD (failS InputTooLong)
         else if vlen > 1 then liftD (failS InputTooShort)
         else (\<lambda>s. case Stream_Uint s of
                 (Inl e, s) \<Rightarrow> Some (Inr (VBytes [0]), s)
               | (Inr bv, s) \<Rightarrow> Some (Inr (VBytes [ucast bv]), s))
     | String \<Rightarrow>
         if of_nat vlen < sz then liftD (failS InputTooLong)
         else if of_nat vlen > sz then liftD (failS InputTooShort)
         else bindD (liftD (readFull vlen)) (\<lambda>slice.
           if sz = 1 \<and> slice ! 0 < 128 then liftD (failS (wrapStreamError ErrCanonSize))
           else liftD (returnS (VBytes slice)))
     | List \<Rightarrow> liftD (failS (wrapStreamError ErrExpectedString)))"

text \<open>The zero value of a type.\<close>

fun zero_value :: "rtype \<Rightarrow> rval" and zero_field :: "rfield \<Rightarrow> rval" where
  "zero_value (TUint n) = VUint 0"
| "zero_value TBool = VBool False"
| "zero_value TString = VBytes []"
| "zero_value TRawValue = VBytes []"
| "zero_value TBigInt = VBig 0"
| "zero_value (TPtr t) = VPtr None"
| "zero_value (TSlice e) = (if isByte e then VBytes [] else VList [])"
| "zero_value (TArray n e) = (if isByte e then VBytes (replicate n 0) else VList (replicate n (zero_value e)))"
| "zero_value (TStruct fs) = VStruct (map zero_field fs)"
| "zero_value (TInterface n) = VIface None"
| "zero_value (TOther s) = VNone"
| "zero_field (Field n e t g) = zero_value t"

abbreviation ifaceSlice :: rtype where
  "ifaceSlice \<equiv> TSlice (TInterface 0)"

text \<open>
  The loop of \<^verbatim>\<open>decodeSliceElems\<close> ends at the first element decoder that returns \<^verbatim>\<open>EOL\<close>;
  each turn, and each level of nested interfaces, takes one unit of fuel.
\<close>

function (sequential) decode_value :: "nat \<Rightarrow> rtype \<Rightarrow> tags \<Rightarrow> rval dec"
  and decodeSliceElems :: "nat \<Rightarrow> rtype \<Rightarrow> rval list \<Rightarrow> rval list dec"
  and decodeArrayElems :: "nat \<Rightarrow> nat \<Rightarrow> rtype \<Rightarrow> rval list \<Rightarrow> rval list dec"
  and decodeFields :: "nat \<Rightarrow> sfield list \<Rightarrow> rval list \<Rightarrow> rval list dec"
where
  "decode_value n TRawValue ts = decodeRawValue"
| "decode_value n (TPtr t) ts =
     (if t = TBigInt then bindD decodeBigInt (\<lambda>i. liftD (returnS (VPtr (Some (VBig i)))))
      else if \<not> nilOK ts then
        bindD (decode_value n t no_tags) (\<lambda>v. liftD (returnS (VPtr (Some v))))
      else
        bindD (mapErrD wrapStreamError (liftD Stream_Kind)) (\<lambda>(kind, sz).
          if kind \<noteq> Byte \<and> sz = 0 then
            (if kind \<noteq> nilKind ts then liftD (failS WrongNilKind)
             else bindD (liftD rearm) (\<lambda>_. liftD (returnS (VPtr None))))
          else bindD (decode_value n t no_tags) (\<lambda>v. liftD (returnS (VPtr (Some v))))))"
| "decode_value n TBigInt ts = bindD decodeBigInt (\<lambda>i. liftD (returnS (VBig i)))"
| "decode_value n (TUint b) ts = decodeUint b"
| "decode_value n TBool ts = decodeBool"
| "decode_value n TString ts = decodeString"
| "decode_value n (TSlice e) ts =
     (if isByte e then decodeByteSlice
      else if tail ts then bindD (decodeSliceElems n e []) (\<lambda>vs. liftD (returnS (VList vs)))
      else
        bindD (mapErrD wrapStreamError (liftD Stream_List)) (\<lambda>sz.
          if sz = 0 then bindD (liftD Stream_ListEnd) (\<lambda>_. liftD (returnS (VList [])))
          else bindD (decodeSliceElems n e []) (\<lambda>vs.
                 bindD (liftD Stream_ListEnd) (\<lambda>_. liftD (returnS (VList vs))))))"
| "decode_value n (TArray k e) ts =
     (if isByte e then decodeByteArray k
      else
        bindD (mapErrD wrapStreamError (liftD Stream_List)) (\<lambda>_.
          bindD (decodeArrayElems n k e []) (\<lambda>vs.
            bindD (mapErrD wrapStreamError (liftD Stream_ListEnd)) (\<lambda>_. liftD (returnS (VList vs))))))"
| "decode_value n (TStruct fs) ts =
     (case structFields fs of
        Inl e \<Rightarrow> liftD (failS e)
      | Inr fl \<Rightarrow>
          bindD (mapErrD wrapStreamError (liftD Stream_List)) (\<lambda>_.
            bindD (decodeFields n fl (map zero_field fs)) (\<lambda>vs.
              bindD (mapErrD wrapStreamError (liftD Stream_ListEnd)) (\<lambda>_. liftD (returnS (VStruct vs))))))"
| "decode_value n (TInterface m) ts =
     (if m \<noteq> 0 then liftD (failS NotSerializable)
      else
        bindD (liftD Stream_Kind) (\<lambda>(kind, _).
          if kind = List then
            bindD (mapErrD wrapStreamError (liftD Stream_List)) (\<lambda>sz.
              if sz = 0 then bindD (liftD Stream_ListEnd) (\<lambda>_. liftD (returnS (VIface (Some (ifaceSlice, VList [])))))
              else bindD (decodeSliceElems n (TInterface 0) []) (\<lambda>vs.
                     bindD (liftD Stream_ListEnd) (\<lambda>_. liftD (returnS (VIface (Some (ifaceSlice, VList vs)))))))
          else bindD (liftD Stream_Bytes) (\<lambda>b. liftD (returnS (VIface (Some (TSlice (TUint 8), VBytes b)))))))"
| "decode_value n (TOther s) ts = liftD (failS NotSerializable)"
| "decodeSliceElems 0 e vs = (\<lambda>s. None)"
| "decodeSliceElems (Suc n) e vs =
     (\<lambda>s. case decode_value n e no_tags s of
            None \<Rightarrow> None
          | Some (Inl err, s') \<Rightarrow> if err = EOL then Some (Inr vs, s') else Some (Inl err, s')
          | Some (Inr v, s') \<Rightarrow> decodeSliceElems n e (vs @ [v]) s')"
| "decodeArrayElems n 0 e vs = liftD (returnS vs)"
| "decodeArrayElems n (Suc k) e vs =
     (\<lambda>s. case decode_value n e no_tags s of
            None \<Rightarrow> None
          | Some (Inl err, s') \<Rightarrow> Some (Inl (if err = EOL then TooFewElements else err), s')
          | Some (Inr v, s') \<Rightarrow> decodeArrayElems n k e (vs @ [v]) s')"
| "decodeFields n [] vs = liftD (returnS vs)"
| "decodeFields n ((i, t, ts) # fl) vs =
     (\<lambda>s. case decode_value n t ts s of
            None \<Rightarrow> None
          | Some (Inl err, s') \<Rightarrow> Some (Inl (if err = EOL then TooFewElements else err), s')
          | Some (Inr v, s') \<Rightarrow> decodeFields n fl (vs[i := v]) s')"
  by pat_completeness auto

termination
  by (relation "inv_image (less_than <*lex*> less_than <*lex*> less_than)
    (\<lambda>x. case x of
       Inl (Inl (n, t, ts)) \<Rightarrow> (n, Suc (size t), case t of TInterface _ \<Rightarrow> 2 | _ \<Rightarrow> 0)
     | Inl (Inr (n, e, vs)) \<Rightarrow> (n, Suc (size e), Suc 0)
     | Inr (Inl (n, k, e, vs)) \<Rightarrow> (n, Suc (size e), k + 3)
     | Inr (Inr (n, fl, vs)) \<Rightarrow> (n, Suc (fields_size fl), 0))")
    (auto dest: structFields_size split: rtype.split)

text \<open>\<^verbatim>\<open>Stream.Decode\<close> for a non-nil pointer to a zero value, and \<^verbatim>\<open>DecodeBytes\<close>.\<close>

definition Stream_Decode :: "nat \<Rightarrow> rtype \<Rightarrow> rval dec" where
  "Stream_Decode n t =
     (case decoderErr t no_tags of Some e \<Rightarrow> liftD (failS e) | None \<Rightarrow> decode_value n t no_tags)"

definition DecodeBytes :: "nat \<Rightarrow> byte list \<Rightarrow> rtype \<Rightarrow> (rlp_error + rval) option" where
  "DecodeBytes n b t =
     (case Stream_Decode n t (NewStream b True (of_nat (length b))) of
        None \<Rightarrow> None
      | Some (Inl e, s) \<Rightarrow> Some (Inl e)
      | Some (Inr v, s) \<Rightarrow> if st_input s \<noteq> [] then Some (Inl ErrMoreThanOneValue) else Some (Inr v))"

end
