(* ===== verification/RlpOps.thy ===== *)
theory RlpOps
  imports RlpStreamProps RlpTypes
begin

text \<open>
  The value-reading operations of the stream against the encodings they read: each takes exactly
  the encoding of the value it returns, and succeeds on every encoding that fits the accounts.
\<close>

section \<open>Taking bytes\<close>

definition takes :: "byte list \<Rightarrow> Stream \<Rightarrow> Stream \<Rightarrow> bool" where
  "takes b s s' = (st_input s = b @ st_input s' \<and> adv (length b) s s')"

lemma takes_trans: "takes a s s1 \<Longrightarrow> takes b s1 s2 \<Longrightarrow> takes (a @ b) s s2"
  by (auto simp: takes_def intro: adv_trans)

lemma takesI: "st_input s = b @ r \<Longrightarrow> adv (length b) s s' \<Longrightarrow> takes b s s'"
  by (simp add: takes_def adv_simps(1))

lemma room_peeked [simp]: "room n (peeked k sz v s) = room n (advance (length (hdr k sz v)) s)"
  by (simp add: room_def limit_room_def peeked_def)

lemma adv_peeked: "adv (length (hdr k sz v) + n) s (advance n (peeked k sz v s))"
  by (rule advI) (simp_all add: peeked_def add.commute diff_diff_add)

lemma adv_rearm: "adv (length (hdr k sz v)) s ((peeked k sz v s)\<lparr>st_kind := None\<rparr>)"
  by (rule advI) (simp_all add: peeked_def)

lemma kind_roomI: "room (n + m) s \<Longrightarrow> kind_room n m s"
  by (auto simp: kind_room_def room_def limit_room_def intro: list_room_mono)

text \<open>An operation that first looks at the kind.\<close>

lemma Kind_success:
  assumes "bindS Stream_Kind f s = (Inr x, s')" "st_kind s = None"
  obtains k sz v r where "hdr_ok k sz v" "st_input s = hdr k sz v @ r" "f (k, sz) (peeked k sz v s) = (Inr x, s')"
    "kind_room (length (hdr k sz v)) (unat sz) s"
proof -
  from assms(1) obtain k sz s1 where "Stream_Kind s = (Inr (k, sz), s1)" "f (k, sz) s1 = (Inr x, s')"
    by (auto split: prod.splits sum.splits)
  with Kind_iff [OF assms(2), of k sz s1] show ?thesis using that by blast
qed

lemma Kind_then:
  assumes "hdr_ok k sz v" "st_input s = hdr k sz v @ r" "room (length (hdr k sz v) + unat sz) s" "st_kind s = None"
  shows "bindS Stream_Kind f s = f (k, sz) (peeked k sz v s)"
proof -
  have "Stream_Kind s = (Inr (k, sz), peeked k sz v s)"
    using Kind_iff [OF assms(4)] assms(1,2) kind_roomI [OF assms(3)] by blast
  then show ?thesis by simp
qed

section \<open>Strings\<close>

lemma hdr_String_ok: "hdr_ok String sz 0" "hdr_ok List sz 0"
  by simp_all

lemma enc_string_String: "\<not> (length b = 1 \<and> hd b < 0x80) \<Longrightarrow> enc_string b = hdr String (of_nat (length b)) 0 @ b"
  by (auto simp: enc_string_def string_kind_def)

lemma enc_string_Byte: "v < 0x80 \<Longrightarrow> enc_string [v] = [v]"
  by (simp add: enc_string_def string_kind_def)

lemma single_byte: "length b = 1 \<Longrightarrow> b = [hd b]"
  by (cases b) auto

lemma Bytes_sound:
  assumes "Stream_Bytes s = (Inr b, s')" "st_kind s = None"
  shows "takes (enc_string b) s s'"
  using assms(1) unfolding Stream_Bytes_def
proof (rule Kind_success [OF _ assms(2)])
  fix k sz v r
  assume k: "hdr_ok k sz v" "st_input s = hdr k sz v @ r"
    and f: "(case (k, sz) of (kind, sz) \<Rightarrow> case kind of Byte \<Rightarrow> bindS rearm (\<lambda>_ s. (Inr [st_byteval s], s))
     | String \<Rightarrow> bindS (makeBytes sz) (\<lambda>n. bindS (readFull n) (\<lambda>b.
           if sz = 1 \<and> b ! 0 < 128 then failS ErrCanonSize else returnS b))
     | List \<Rightarrow> failS ErrExpectedString) (peeked k sz v s) = (Inr b, s')"
  show ?thesis
  proof (cases k)
    case Byte
    then have "b = [v]" "s' = (peeked k sz v s)\<lparr>st_kind := None\<rparr>" "v < 0x80"
      using f k(1) by (auto simp: rearm_def)
    then show ?thesis using takesI [OF k(2)] adv_rearm [of k sz v s] Byte by (simp add: enc_string_Byte)
  next
    case String
    then have v: "v = 0" using k(1) by simp
    obtain b1 s1 where rf: "readFull (unat sz) (peeked k sz v s) = (Inr b1, s1)"
      using f String by (auto simp: makeBytes_def split: if_splits prod.splits sum.splits)
    then have b: "b = b1" "s' = s1" and nc: "\<not> (sz = 1 \<and> b1 ! 0 < 128)"
      using f String by (auto simp: makeBytes_def split: if_splits)
    note r = rf [unfolded readFull_iff [OF unat_64]]
    have l: "length b = unat sz" "b = take (unat sz) r" using r b k(2) by auto
    have "sz = of_nat (length b)" using l(1) by simp
    moreover have "\<not> (length b = 1 \<and> hd b < 0x80)"
    proof
      assume a: "length b = 1 \<and> hd b < 0x80"
      then have "sz = 1" using l(1) by (metis word_unat_eq_iff unat_1)
      moreover have "b ! 0 = hd b" using a by (cases b) auto
      ultimately show False using a nc b by simp
    qed
    ultimately have e: "enc_string b = hdr k sz v @ b" using enc_string_String String v by simp
    have "st_input s = (hdr k sz v @ b) @ drop (unat sz) r" using k(2) l(2) by simp
    moreover have "adv (length (hdr k sz v @ b)) s s'" using adv_peeked [of k sz v "unat sz" s] r b l(1) by simp
    ultimately show ?thesis unfolding e by (rule takesI)
  next
    case List
    then show ?thesis using f by simp
  qed
qed

lemma Bytes_complete:
  assumes "st_kind s = None" "st_input s = enc_string b @ r" "room (length (enc_string b)) s" "length b \<le> 2 ^ 48"
  shows "\<exists>s'. Stream_Bytes s = (Inr b, s') \<and> takes (enc_string b) s s'"
proof -
  have "\<exists>s'. Stream_Bytes s = (Inr b, s')"
  proof (cases "length b = 1 \<and> hd b < 0x80")
    case True
    then have b: "enc_string b = hdr Byte 0 (hd b)" "b = [hd b]" using single_byte [of b] enc_string_Byte [of "hd b"] by simp_all
    then have "Stream_Bytes s = bindS rearm (\<lambda>_ s. (Inr [st_byteval s], s)) (peeked Byte 0 (hd b) s)"
      using assms(2,3) True unfolding Stream_Bytes_def
      by (subst Kind_then [OF _ _ _ assms(1), of Byte 0 "hd b" r]) simp_all
    then show ?thesis using b(2) by (simp add: rearm_def)
  next
    case False
    let ?sz = "of_nat (length b) :: u64"
    have u: "unat ?sz = length b" using assms(4) by (simp add: unsigned_of_nat take_bit_nat_eq_self)
    have e: "enc_string b = hdr String ?sz 0 @ b" using enc_string_String False by blast
    have rm: "room (length (hdr String ?sz 0) + length b) s" using assms(3) e by simp
    have "readFull (length b) (peeked String ?sz 0 s) = (Inr b, advance (length b) (peeked String ?sz 0 s))"
      using assms(2,4) room_advance [OF rm] unfolding e by (subst readFull_iff) simp_all
    moreover have "\<not> maxAlloc < ?sz" using u assms(4) by (simp add: maxAlloc_def word_less_nat_alt)
    moreover have "\<not> (?sz = 1 \<and> b ! 0 < 128)"
    proof
      assume a: "?sz = 1 \<and> b ! 0 < 128"
      then have "length b = 1" using u by simp
      then show False using a False by (cases b) auto
    qed
    moreover have "Stream_Bytes s = bindS (makeBytes ?sz) (\<lambda>n. bindS (readFull n) (\<lambda>b.
           if ?sz = 1 \<and> b ! 0 < 128 then failS ErrCanonSize else returnS b)) (peeked String ?sz 0 s)"
      unfolding Stream_Bytes_def using assms(2) rm u unfolding e
      by (subst Kind_then [OF _ _ _ assms(1), of String ?sz 0 "b @ r"]) simp_all
    ultimately show ?thesis by (simp add: makeBytes_def u)
  qed
  then show ?thesis using Bytes_sound assms(1) by blast
qed

section \<open>Unsigned integers\<close>

definition uint_bytes :: "u64 \<Rightarrow> byte list" where
  "uint_bytes i = (if i = 0 then [] else putint i)"

lemma putint_single: "intsize v = 1 \<Longrightarrow> putint v = [ucast v]"
  by (simp add: putint_eq be_put_def)

lemma small_uint:
  assumes "v < 128"
  shows "intsize v = 1" "v \<noteq> 0 \<Longrightarrow> enc_string (uint_bytes v) = [ucast v]" "(ucast v :: byte) < 0x80"
    "ucast (ucast v :: byte) = v"
proof -
  have n: "unat v < 128" using assms by (simp add: word_less_nat_alt)
  then show i: "intsize v = 1" by (intro intsize_unique) simp_all
  have u: "unat (ucast v :: byte) = unat v" using n by (simp add: unsigned_ucast_eq take_bit_nat_eq_self)
  then show t: "(ucast v :: byte) < 0x80" using n by (simp add: word_less_nat_alt)
  show "ucast (ucast v :: byte) = v" using u n
    by (simp add: word_unat_eq_iff unsigned_ucast_eq unsigned_take_bit_eq take_bit_nat_eq_self)
  show "v \<noteq> 0 \<Longrightarrow> enc_string (uint_bytes v) = [ucast v]"
    using putint_single [OF i] enc_string_Byte [OF t] by (simp add: uint_bytes_def)
qed

lemma large_uint:
  assumes "128 \<le> v"
  shows "enc_string (uint_bytes v) = hdr String (of_nat (intsize v)) 0 @ putint v"
    "hdr String (of_nat (intsize v)) 0 = [0x80 + of_nat (intsize v)]"
proof -
  have v0: "v \<noteq> 0" using assms by auto
  have "\<not> (length (putint v) = 1 \<and> hd (putint v) < 0x80)"
  proof
    assume a: "length (putint v) = 1 \<and> hd (putint v) < 0x80"
    then have i: "intsize v = 1" by simp
    have "unat v < 256" using intsize_bounds [of v] i by simp
    then have "unat (ucast v :: byte) = unat v" by (simp add: unsigned_ucast_eq take_bit_nat_eq_self)
    then show False using a putint_single [OF i] assms by (simp add: word_less_nat_alt word_le_nat_alt)
  qed
  then show "enc_string (uint_bytes v) = hdr String (of_nat (intsize v)) 0 @ putint v"
    using enc_string_String [of "putint v"] v0 by (simp add: uint_bytes_def)
  have "unat (of_nat (intsize v) :: u64) = intsize v" "unat (of_nat (intsize v) :: byte) = intsize v"
    using intsize_le [of v] by (simp_all add: unsigned_of_nat take_bit_nat_eq_self)
  then have "ucast (of_nat (intsize v) :: u64) = (of_nat (intsize v) :: byte)" "(of_nat (intsize v) :: u64) < 56"
    using intsize_le [of v] by (simp_all add: word_unat_eq_iff word_less_nat_alt unsigned_ucast_eq take_bit_nat_eq_self)
  then show "hdr String (of_nat (intsize v)) 0 = [0x80 + of_nat (intsize v)]"
    by (simp add: head_bytes_def)
qed

definition uint_fits :: "nat \<Rightarrow> u64 \<Rightarrow> bool" where
  "uint_fits bits v = (v = 0 \<or> intsize v \<le> bits div 8)"

lemma enc_uint_0: "enc_string (uint_bytes 0) = hdr String 0 0"
  using enc_string_String [of "[]"] by (simp add: uint_bytes_def)

lemma uint_size:
  assumes "bits \<le> 64"
  shows "\<not> sz > of_nat (bits div 8) \<longleftrightarrow> unat (sz :: u64) \<le> bits div 8"
proof -
  have "unat (of_nat (bits div 8) :: u64) = bits div 8" using assms
    by (simp add: unsigned_of_nat take_bit_nat_eq_self)
  then show ?thesis by (simp add: word_less_nat_alt not_less)
qed

lemma unat_ucast_byte: "unat (sz :: u64) \<le> 8 \<Longrightarrow> unat (ucast sz :: byte) = unat sz"
  by (simp add: unsigned_ucast_eq take_bit_nat_eq_self)

lemma uint_sound:
  assumes "Stream_uint bits s = (Inr i, s')" "st_kind s = None" "8 \<le> bits" "bits \<le> 64"
  shows "takes (enc_string (uint_bytes i)) s s' \<and> uint_fits bits i"
  using assms(1) unfolding Stream_uint_def
proof (rule Kind_success [OF _ assms(2)])
  fix k sz v r
  assume k: "hdr_ok k sz v" "st_input s = hdr k sz v @ r"
    and f: "(case (k, sz) of (kind, sz) \<Rightarrow> case kind of Byte \<Rightarrow>
       (\<lambda>s. if st_byteval s = 0 then (Inl ErrCanonInt, s)
                    else (Inr (ucast (st_byteval s)), s\<lparr>st_kind := None\<rparr>))
     | String \<Rightarrow>
         if sz > of_nat (bits div 8) then failS errUintOverflow
         else (\<lambda>s. case readUint (ucast sz) s of
                 (Inl e, s) \<Rightarrow> (Inl (if e = ErrCanonSize then ErrCanonInt else e), s)
               | (Inr v, s) \<Rightarrow> if sz > 0 \<and> v < 128 then (Inl ErrCanonSize, s) else (Inr v, s))
     | List \<Rightarrow> failS ErrExpectedString) (peeked k sz v s) = (Inr i, s')"
  let ?p = "peeked k sz v s"
  show ?thesis
  proof (cases k)
    case Byte
    then have i: "v \<noteq> 0" "i = ucast v" "s' = ?p\<lparr>st_kind := None\<rparr>" "v < 0x80" using f k(1) by (auto split: if_splits)
    have "unat v < 128" using i(4) by (simp add: word_less_nat_alt)
    then have u: "unat i = unat v" using i(2) by (simp add: unsigned_ucast_eq take_bit_nat_eq_self)
    have i128: "i < 128" "i \<noteq> 0" using u \<open>unat v < 128\<close> i(1) by (auto simp: word_less_nat_alt word_unat_eq_iff)
    have "(ucast i :: byte) = v" using u \<open>unat v < 128\<close>
      by (simp add: word_unat_eq_iff unsigned_ucast_eq take_bit_nat_eq_self)
    then have "enc_string (uint_bytes i) = hdr k sz v" using small_uint(2) [OF i128] Byte by simp
    moreover have "uint_fits bits i" using small_uint(1) [OF i128(1)] div_le_mono [OF assms(3), of 8] by (simp add: uint_fits_def)
    ultimately show ?thesis using takesI [OF k(2)] adv_rearm [of k sz v s] i(3) by simp
  next
    case String
    then have v: "v = 0" using k(1) by simp
    have ov: "\<not> sz > of_nat (bits div 8)" using f String by auto
    then have sz: "unat sz \<le> bits div 8" by (simp only: uint_size [OF assms(4)])
    then have sz8: "unat sz \<le> 8" using assms(4) by simp
    obtain j s1 where ru: "readUint (ucast sz) ?p = (Inr j, s1)"
      using f String ov by (auto split: prod.splits sum.splits)
    then have j: "i = j" "s' = s1" "\<not> (sz > 0 \<and> j < 128)" using f String ov by (auto split: if_splits)
    show ?thesis
    proof (cases "sz = 0")
      case True
      then have "i = 0" "s' = ?p\<lparr>st_kind := None\<rparr>" using ru j by (auto simp: readUint_def)
      then show ?thesis using True takesI [OF k(2)] adv_rearm [of k sz v s] String v
        by (simp add: enc_uint_0 uint_fits_def del: hdr.simps)
    next
      case False
      then have n: "1 \<le> unat (ucast sz :: byte)" "unat (ucast sz :: byte) \<le> 8"
        using unat_ucast_byte [OF sz8] sz8 by (auto simp: unat_eq_0 Suc_le_eq unat_gt_0)
      have i128: "128 \<le> i" using j False by (auto simp: word_gt_0 not_less)
      then have "1 \<le> i" by (simp add: word_le_nat_alt)
      note ru = ru [unfolded j(1) [symmetric] readUint_iff [OF n this] unat_ucast_byte [OF sz8]]
      from ru obtain r' where r: "r = putint i @ r'" using k(2) by auto
      have sz': "sz = of_nat (intsize i)" using ru by simp
      have e: "enc_string (uint_bytes i) = hdr k sz v @ putint i" using large_uint(1) [OF i128] sz' String v by simp
      have "takes (hdr k sz v @ putint i) s s'"
        using adv_peeked [of k sz v "unat sz" s] ru j(2) k(2) r by (intro takesI [of _ _ r']) auto
      then show ?thesis using e ru sz by (simp add: uint_fits_def)
    qed
  next
    case List
    then show ?thesis using f by simp
  qed
qed

lemma uint_complete:
  assumes "st_kind s = None" "st_input s = enc_string (uint_bytes i) @ r" "room (length (enc_string (uint_bytes i))) s"
    and "uint_fits bits i" "8 \<le> bits" "bits \<le> 64"
  shows "\<exists>s'. Stream_uint bits s = (Inr i, s') \<and> takes (enc_string (uint_bytes i)) s s'"
proof -
  have "\<exists>s'. Stream_uint bits s = (Inr i, s')"
  proof -
    consider "i = 0" | "i \<noteq> 0" "i < 128" | "128 \<le> i" by fastforce
    then show ?thesis
    proof cases
      case 1
      have rm: "room (length (hdr String 0 0) + unat (0 :: u64)) s" using assms(3) 1 by (simp add: enc_uint_0 del: hdr.simps)
      have i: "st_input s = hdr String 0 0 @ r" using assms(2) 1 by (simp only: enc_uint_0)
      show ?thesis unfolding Stream_uint_def Kind_then [OF hdr_String_ok(1) i rm assms(1)]
        using 1 by (simp add: readUint_def del: hdr.simps)
    next
      case 2
      note u = small_uint [OF 2(2)]
      have e: "enc_string (uint_bytes i) = hdr Byte 0 (ucast i)" using u(2) 2(1) by simp
      have rm: "room (length (hdr Byte 0 (ucast i)) + unat (0 :: u64)) s" using assms(3) e by simp
      have ok: "hdr_ok Byte 0 (ucast i)" using u(3) by simp
      have i: "st_input s = hdr Byte 0 (ucast i) @ r" using assms(2) e by simp
      have "(ucast i :: byte) \<noteq> 0" using u(4) 2(1) by (metis ucast_0)
      then show ?thesis unfolding Stream_uint_def Kind_then [OF ok i rm assms(1)] using u(4) by simp
    next
      case 3
      let ?sz = "of_nat (intsize i) :: u64"
      have i0: "i \<noteq> 0" "1 \<le> i" using 3 by (auto simp: word_le_nat_alt)
      have u: "unat ?sz = intsize i" using intsize_le [of i] by (simp add: unsigned_of_nat take_bit_nat_eq_self)
      have n: "unat (ucast ?sz :: byte) = intsize i" using unat_ucast_byte [of ?sz] u intsize_le [of i] by simp
      have n': "1 \<le> unat (ucast ?sz :: byte)" "unat (ucast ?sz :: byte) \<le> 8"
        using n intsize_pos [of i] intsize_le [of i] by simp_all
      note e = large_uint(1) [OF 3]
      have rm: "room (length (hdr String ?sz 0) + unat ?sz) s" using assms(3) e u by simp
      have ov: "\<not> ?sz > of_nat (bits div 8)"
        unfolding uint_size [OF assms(6)] u using assms(4) i0 by (simp add: uint_fits_def)
      have "readUint (ucast ?sz) (peeked String ?sz 0 s) = (Inr i, advance (intsize i) (peeked String ?sz 0 s))"
        unfolding readUint_iff [OF n' i0(2)] n using assms(2) e room_advance [OF rm] u by simp
      moreover have i: "st_input s = hdr String ?sz 0 @ putint i @ r" using assms(2) e by simp
      ultimately show ?thesis unfolding Stream_uint_def Kind_then [OF hdr_String_ok(1) i rm assms(1)]
        using ov 3 by (simp add: not_less [symmetric])
    qed
  qed
  then show ?thesis using uint_sound assms(1,5,6) by blast
qed

section \<open>Booleans\<close>

lemma Bool_sound:
  assumes "Stream_Bool s = (Inr b, s')" "st_kind s = None"
  shows "takes (enc_string (uint_bytes (if b then 1 else 0))) s s'"
proof -
  obtain num s1 where u: "Stream_uint 8 s = (Inr num, s1)"
    using assms(1) by (cases "Stream_uint 8 s"; cases "fst (Stream_uint 8 s)") (auto simp: Stream_Bool_def)
  then have "s' = s1" "num = (if b then 1 else 0)" using assms(1) by (auto simp: Stream_Bool_def split: if_splits)
  then show ?thesis using uint_sound [OF u assms(2)] by simp
qed

lemma Bool_complete:
  assumes "st_kind s = None" "st_input s = enc_string (uint_bytes (if b then 1 else 0)) @ r"
    "room (length (enc_string (uint_bytes (if b then 1 else 0)))) s"
  shows "\<exists>s'. Stream_Bool s = (Inr b, s') \<and> takes (enc_string (uint_bytes (if b then 1 else 0))) s s'"
proof -
  have "intsize 1 = 1" by (intro intsize_unique) simp_all
  then have "uint_fits 8 (if b then 1 else 0)" by (simp add: uint_fits_def)
  from uint_complete [OF assms this] obtain s' where "Stream_uint 8 s = (Inr (if b then 1 else 0), s')"
    "takes (enc_string (uint_bytes (if b then 1 else 0))) s s'" by auto
  then show ?thesis by (auto simp: Stream_Bool_def)
qed

section \<open>Big integers\<close>

definition big_bytes :: "int \<Rightarrow> byte list" where
  "big_bytes i = nat_bytes (nat i)"

lemma decodeBigInt_sound:
  assumes "decodeBigInt s = Some (Inr i, s')" "st_kind s = None"
  shows "takes (enc_string (big_bytes i)) s s' \<and> 0 \<le> i"
proof -
  obtain b s1 where b: "Stream_Bytes s = (Inr b, s1)"
    using assms(1) by (cases "Stream_Bytes s"; cases "fst (Stream_Bytes s)") (auto simp: decodeBigInt_def)
  then have "s' = s1" "i = int (bytes_nat b)" "b = [] \<or> hd b \<noteq> 0"
    using assms(1) by (auto simp: decodeBigInt_def split: if_splits)
  then show ?thesis using Bytes_sound [OF b assms(2)] nat_bytes_bytes_nat [of b] by (simp add: big_bytes_def)
qed

lemma decodeBigInt_complete:
  assumes "st_kind s = None" "st_input s = enc_string (big_bytes i) @ r" "room (length (enc_string (big_bytes i))) s"
    "length (big_bytes i) \<le> 2 ^ 48" "0 \<le> i"
  shows "\<exists>s'. decodeBigInt s = Some (Inr i, s') \<and> takes (enc_string (big_bytes i)) s s'"
proof -
  from Bytes_complete [OF assms(1-4)] obtain s' where b: "Stream_Bytes s = (Inr (big_bytes i), s')"
    "takes (enc_string (big_bytes i)) s s'" by blast
  have "nat_bytes 0 = []" by (simp add: nat_bytes.simps [of 0])
  then have "\<not> (nat_bytes n \<noteq> [] \<and> hd (nat_bytes n) = 0)" for n
    using hd_nat_bytes [of n] by (cases "n = 0") simp_all
  then have "\<not> (big_bytes i \<noteq> [] \<and> hd (big_bytes i) = 0)" by (simp only: big_bytes_def not_False_eq_True)
  then show ?thesis using b assms(5) by (auto simp: decodeBigInt_def big_bytes_def bytes_nat_nat_bytes)
qed

section \<open>Byte arrays\<close>

lemma decodeByteArray_sound:
  assumes "decodeByteArray n s = Some (Inr v, s')" "st_kind s = None" "n \<noteq> 1" "n < 2 ^ 64"
  shows "\<exists>b. v = VBytes b \<and> length b = n \<and> takes (enc_string b) s s'"
proof -
  let ?f = "\<lambda>(kind, sz). case kind of
       Byte \<Rightarrow> failS InputTooLong
     | String \<Rightarrow> if of_nat n < sz then failS InputTooLong else if of_nat n > sz then failS InputTooShort
         else bindS (readFull n) (\<lambda>slice.
           if sz = 1 \<and> slice ! 0 < 128 then failS (wrapStreamError ErrCanonSize) else returnS slice)
     | List \<Rightarrow> failS (wrapStreamError ErrExpectedString)"
  obtain b where v: "v = VBytes b" and d: "bindS Stream_Kind ?f s = (Inr b, s')"
    using assms(1,3)
    by (cases "Stream_Kind s"; cases "fst (Stream_Kind s)")
      (auto simp: decodeByteArray_def split: Kind.splits if_splits prod.splits sum.splits)
  show ?thesis
    using d
  proof (rule Kind_success [OF _ assms(2)])
    fix k sz v' r
    assume k: "hdr_ok k sz v'" "st_input s = hdr k sz v' @ r" and f: "?f (k, sz) (peeked k sz v' s) = (Inr b, s')"
    have kk: "k = String" "v' = 0" using f k(1) by (cases k; simp)+
    have sz: "sz = of_nat n" using f kk by (auto split: if_splits intro: antisym)
    have u: "unat sz = n" unfolding sz using assms(4) by (simp add: unsigned_of_nat take_bit_nat_eq_self)
    obtain b1 s1 where rf: "readFull n (peeked k sz v' s) = (Inr b1, s1)"
      using f kk sz by (auto split: if_splits prod.splits sum.splits)
    then have bs: "b = b1" "s' = s1" using f kk sz by (auto split: if_splits)
    note rf = rf [unfolded readFull_iff [OF assms(4)]]
    have b: "b = take n r" "length b = n" using rf bs k(2) by auto
    have "enc_string b = hdr k sz v' @ b" using enc_string_String [of b] kk sz b(2) assms(3) by simp
    moreover have "takes (hdr k sz v' @ b) s s'"
      using adv_peeked [of k sz v' n s] rf bs(2) k(2) b by (intro takesI [of _ _ "drop n r"]) simp_all
    ultimately show ?thesis using v b by simp
  qed
qed

lemma decodeByteArray_complete:
  assumes "st_kind s = None" "st_input s = enc_string b @ r" "room (length (enc_string b)) s"
    "length b = n" "n \<noteq> 1" "n < 2 ^ 64"
  shows "\<exists>s'. decodeByteArray n s = Some (Inr (VBytes b), s') \<and> takes (enc_string b) s s'"
proof -
  let ?sz = "of_nat n :: u64"
  have u: "unat ?sz = n" using assms(6) by (simp add: unsigned_of_nat take_bit_nat_eq_self)
  have e: "enc_string b = hdr String ?sz 0 @ b" using enc_string_String [of b] assms(4,5) by simp
  have rm: "room (length (hdr String ?sz 0) + unat ?sz) s" using assms(3,4) e u by simp
  have i: "st_input s = hdr String ?sz 0 @ b @ r" using assms(2) e by simp
  have K: "Stream_Kind s = (Inr (String, ?sz), peeked String ?sz 0 s)"
    using Kind_iff [OF assms(1)] i kind_roomI [OF rm] by fastforce
  have rf: "readFull n (peeked String ?sz 0 s) = (Inr b, advance n (peeked String ?sz 0 s))"
    using i room_advance [OF rm] u assms(4) by (subst readFull_iff [OF assms(6)]) simp
  have "?sz \<noteq> 1" using u assms(5) by (metis unat_1)
  then have d: "decodeByteArray n s = Some (Inr (VBytes b), advance n (peeked String ?sz 0 s))"
    using K rf by (simp add: decodeByteArray_def)
  then show ?thesis using decodeByteArray_sound [OF _ assms(1,5,6)] by blast
qed

section \<open>Raw values\<close>

text \<open>What a raw value can be: a header and as many bytes as it announces.\<close>

definition raw_ok :: "byte list \<Rightarrow> bool" where
  "raw_ok b = ((\<exists>v. v < 0x80 \<and> b = [v]) \<or>
     (\<exists>k c. k \<noteq> Byte \<and> length c < 2 ^ 64 \<and> b = hdr k (of_nat (length c)) 0 @ c))"

lemma length_hdr: "k \<noteq> Byte \<Longrightarrow> length (hdr k sz v) = headsize sz"
  by (cases k) (simp_all add: length_head_bytes)

lemma headsize_le: "headsize sz \<le> 9"
  using intsize_le [of sz] by (simp add: headsize_def)

lemma raw_buffer:
  assumes "k \<noteq> Byte"
  shows "(case (if k = String then puthead (replicate (headsize sz) 0 @ b) 0x80 0xB7 sz
      else puthead (replicate (headsize sz) 0 @ b) 0xC0 0xF7 sz) of Inl e \<Rightarrow> failS (RlpPanic e)
     | Inr (_, buf) \<Rightarrow> returnS buf) = returnS (hdr k sz 0 @ b)"
  using assms by (cases k) (simp_all add: puthead_fits length_head_bytes)

lemma Raw_bind: "Stream_Raw = bindS Stream_Kind (\<lambda>(kind, sz).
     if kind = Byte then bindS rearm (\<lambda>_ s. (Inr [st_byteval s], s))
     else bindS (makeBytes (of_nat (headsize sz) + sz)) (\<lambda>n.
       if n < headsize sz then failS (RlpPanic SliceOutOfRange)
       else bindS (readFull (n - headsize sz)) (\<lambda>b. returnS (hdr kind sz 0 @ b))))"
proof -
  have "(\<lambda>(kind, sz).
     if kind = Byte then bindS rearm (\<lambda>_ s. (Inr [st_byteval s], s))
     else bindS (makeBytes (of_nat (headsize sz) + sz)) (\<lambda>n.
       if n < headsize sz then failS (RlpPanic SliceOutOfRange)
       else bindS (readFull (n - headsize sz)) (\<lambda>b.
         let buf = replicate (headsize sz) 0 @ b in
         case (if kind = String then puthead buf 0x80 0xB7 sz else puthead buf 0xC0 0xF7 sz) of
           Inl e \<Rightarrow> failS (RlpPanic e)
         | Inr (_, buf) \<Rightarrow> returnS buf))) =
    (\<lambda>(kind, sz).
     if kind = Byte then bindS rearm (\<lambda>_ s. (Inr [st_byteval s], s))
     else bindS (makeBytes (of_nat (headsize sz) + sz)) (\<lambda>n.
       if n < headsize sz then failS (RlpPanic SliceOutOfRange)
       else bindS (readFull (n - headsize sz)) (\<lambda>b. returnS (hdr kind sz 0 @ b))))"
    unfolding Let_def
  proof (rule ext, clarify, goal_cases)
    case (1 k sz)
    show ?case by (cases "k = Byte") (simp_all only: raw_buffer if_True if_False simp_thms)
  qed
  then show ?thesis unfolding Stream_Raw_def by simp
qed

lemma head_plus_size:
  assumes "headsize sz \<le> unat (of_nat (headsize sz) + sz)"
  shows "unat (of_nat (headsize sz) + sz) - headsize sz = unat sz"
proof -
  have u: "unat (of_nat (headsize sz) :: u64) = headsize sz"
    using headsize_le [of sz] by (simp add: unsigned_of_nat take_bit_nat_eq_self)
  have "of_nat (headsize sz) + sz - of_nat (headsize sz) = sz" by simp
  then have "unat sz = unat (of_nat (headsize sz) + sz - of_nat (headsize sz))" by simp
  also have "\<dots> = unat (of_nat (headsize sz) + sz) - headsize sz"
    using assms u by (subst unat_sub) (simp_all add: word_le_nat_alt)
  finally show ?thesis by simp
qed

lemma Raw_sound:
  assumes "Stream_Raw s = (Inr b, s')" "st_kind s = None"
  shows "takes b s s' \<and> raw_ok b"
  using assms(1) unfolding Raw_bind
proof (rule Kind_success [OF _ assms(2)])
  fix k sz v r
  let ?n = "unat (of_nat (headsize sz) + sz)"
  assume k: "hdr_ok k sz v" "st_input s = hdr k sz v @ r"
    and f: "(case (k, sz) of (kind, sz) \<Rightarrow>
     if kind = Byte then bindS rearm (\<lambda>_ s. (Inr [st_byteval s], s))
     else bindS (makeBytes (of_nat (headsize sz) + sz)) (\<lambda>n.
       if n < headsize sz then failS (RlpPanic SliceOutOfRange)
       else bindS (readFull (n - headsize sz)) (\<lambda>b. returnS (hdr kind sz 0 @ b)))) (peeked k sz v s) = (Inr b, s')"
  show ?thesis
  proof (cases "k = Byte")
    case True
    then have "b = [v]" "s' = (peeked k sz v s)\<lparr>st_kind := None\<rparr>" "v < 0x80"
      using f k(1) by (auto simp: rearm_def)
    then show ?thesis using takesI [OF k(2)] adv_rearm [of k sz v s] True by (simp add: raw_ok_def)
  next
    case False
    then have v: "v = 0" using k(1) by (cases k) auto
    have n: "headsize sz \<le> ?n" using f False by (auto simp: makeBytes_def split: if_splits)
    note hs = head_plus_size [OF n]
    obtain c s1 where rf: "readFull (unat sz) (peeked k sz v s) = (Inr c, s1)" "b = hdr k sz 0 @ c" "s' = s1"
      using f False n hs by (auto simp: makeBytes_def split: if_splits prod.splits sum.splits)
    note rf1 = rf(1) [unfolded readFull_iff [OF unat_64]]
    have c: "c = take (unat sz) r" "length c = unat sz" using rf1 k(2) by auto
    have "takes b s s'"
      using adv_peeked [of k sz v "unat sz" s] rf1 rf(2,3) k(2) c v
      by (intro takesI [of _ _ "drop (unat sz) r"]) simp_all
    moreover have "b = hdr k (of_nat (length c)) 0 @ c" using rf(2) c(2) by simp
    moreover have "length c < 2 ^ 64" using c(2) unat_64 [of sz] by simp
    ultimately show ?thesis using False unfolding raw_ok_def by blast
  qed
qed

lemma Raw_complete:
  assumes "st_kind s = None" "st_input s = b @ r" "room (length b) s" "length b \<le> 2 ^ 48" "raw_ok b"
  shows "\<exists>s'. Stream_Raw s = (Inr b, s') \<and> takes b s s'"
proof -
  have "\<exists>s'. Stream_Raw s = (Inr b, s')"
    using assms(5) unfolding raw_ok_def
  proof (elim disjE exE conjE)
    fix v assume v: "v < 0x80" "b = [v]"
    then have rm: "room (length (hdr Byte 0 v) + unat (0 :: u64)) s" and ok: "hdr_ok Byte 0 v"
      and i: "st_input s = hdr Byte 0 v @ r" using assms(2,3) by simp_all
    show ?thesis unfolding Raw_bind Kind_then [OF ok i rm assms(1)] using v by (simp add: rearm_def)
  next
    fix k c assume k: "k \<noteq> Byte" "length c < 2 ^ 64" "b = hdr k (of_nat (length c)) 0 @ c"
    let ?sz = "of_nat (length c) :: u64"
    have u: "unat ?sz = length c" using k(2) by (rule unat_length)
    have ok: "hdr_ok k ?sz 0" using k(1) by (cases k) auto
    have i: "st_input s = hdr k ?sz 0 @ c @ r" using assms(2) k(3) by simp
    have rm: "room (length (hdr k ?sz 0) + unat ?sz) s" using assms(3) k(3) u by simp
    have l: "headsize ?sz + length c \<le> 2 ^ 48" using assms(4) k(3) length_hdr [OF k(1)] by simp
    have n: "unat (of_nat (headsize ?sz) + ?sz) = headsize ?sz + length c"
      unfolding of_nat_add [symmetric] using l by (simp add: unsigned_of_nat take_bit_nat_eq_self del: of_nat_add)
    have "\<not> maxAlloc < of_nat (headsize ?sz) + ?sz" unfolding word_less_nat_alt n using l by (simp add: maxAlloc_def)
    moreover have "readFull (length c) (peeked k ?sz 0 s) = (Inr c, advance (length c) (peeked k ?sz 0 s))"
      using i room_advance [OF rm] u by (subst readFull_iff [OF k(2)]) simp
    ultimately show ?thesis
      unfolding Raw_bind Kind_then [OF ok i rm assms(1)] using k n by (simp add: makeBytes_def)
  qed
  then show ?thesis using Raw_sound assms(1) by blast
qed

section \<open>Lists\<close>

text \<open>The stream inside a list that was just opened.\<close>

definition opened :: "u64 \<Rightarrow> Stream \<Rightarrow> Stream" where
  "opened sz s = (peeked List sz 0 s)\<lparr>st_stack := (0, sz) # st_stack (peeked List sz 0 s), st_kind := None, st_size := 0\<rparr>"

lemma opened_simps [simp]:
  "st_kind (opened sz s) = None" "st_input (opened sz s) = drop (length (hdr List sz 0)) (st_input s)"
  "st_kinderr (opened sz s) = None" "st_stack (opened sz s) = (0, sz) # bump (of_nat (length (hdr List sz 0))) (st_stack s)"
  "st_limited (opened sz s) = st_limited s"
  "st_remaining (opened sz s) =
     (if st_limited s then st_remaining s - of_nat (length (hdr List sz 0)) else st_remaining s)"
  by (simp_all add: opened_def peeked_def)

lemma List_sound:
  assumes "Stream_List s = (Inr sz, s1)" "st_kind s = None"
  shows "s1 = opened sz s \<and> st_input s = hdr List sz 0 @ st_input s1"
  using assms(1) unfolding Stream_List_def
proof (rule Kind_success [OF _ assms(2)])
  fix k sz' v r
  assume k: "hdr_ok k sz' v" "st_input s = hdr k sz' v @ r"
    and f: "(case (k, sz') of (kind, sz) \<Rightarrow> if kind \<noteq> List then failS ErrExpectedList
     else bindS (modifyS (\<lambda>s. s\<lparr>st_stack := (0, sz) # st_stack s, st_kind := None, st_size := 0\<rparr>)) (\<lambda>_. returnS sz))
       (peeked k sz' v s) = (Inr sz, s1)"
  then have "k = List" by (auto split: if_splits)
  then show ?thesis using k f by (auto simp: opened_def)
qed

lemma List_complete:
  assumes "st_kind s = None" "st_input s = hdr List sz 0 @ r" "room (length (hdr List sz 0) + unat sz) s"
  shows "Stream_List s = (Inr sz, opened sz s)"
  unfolding Stream_List_def Kind_then [OF hdr_String_ok(2) assms(2,3,1)] by (simp add: opened_def)

lemma room_opened:
  assumes "room (length (hdr List sz 0) + unat sz) s"
  shows "room (unat sz) (opened sz s)"
proof -
  have "limit_room (unat sz) (advance (length (hdr List sz 0)) s)"
    using limit_room_advance [of "length (hdr List sz 0)" "unat sz" s] assms by (simp add: room_def)
  then show ?thesis by (simp add: room_def limit_room_def)
qed

lemma ListEnd_opened:
  assumes "adv n (opened sz s) s2" "n < 2 ^ 64"
  shows "Stream_ListEnd s2 = (if n = unat sz then (Inr (), s2\<lparr>st_stack := bump (of_nat (length (hdr List sz 0) + n)) (st_stack s),
      st_kind := None, st_size := 0\<rparr>) else (Inl errNotAtEOL, s2))"
proof -
  have st: "st_stack s2 = (of_nat n, sz) # bump (of_nat (length (hdr List sz 0))) (st_stack s)"
    using adv_simps(3) [OF assms(1)] by simp
  have "of_nat n = sz \<longleftrightarrow> n = unat sz"
    using assms(2) by (auto simp: unsigned_of_nat take_bit_nat_eq_self)
  then show ?thesis
    by (cases "st_stack s") (auto simp: Stream_ListEnd_def st add.commute add.left_commute)
qed

lemma ListEnd_adv:
  assumes "adv n (opened sz s) s2"
  shows "adv (length (hdr List sz 0) + n) s (s2\<lparr>st_stack := bump (of_nat (length (hdr List sz 0) + n)) (st_stack s),
      st_kind := None, st_size := 0\<rparr>)"
  by (rule advI) (simp_all add: adv_simps [OF assms] add.commute diff_diff_add)

lemma hdr_List: "length c < 2 ^ 64 \<Longrightarrow> unat sz = length c \<Longrightarrow> enc_value List c = hdr List sz 0 @ c"
proof -
  assume u: "unat sz = length c"
  have "of_nat (unat sz) = sz" by simp
  then have "of_nat (length c) = sz" unfolding u .
  then show ?thesis by simp
qed

text \<open>Open, take the content, close.\<close>

lemma list_sound:
  assumes "Stream_List s = (Inr sz, s1)" "st_kind s = None" "takes c s1 s2" "Stream_ListEnd s2 = (Inr u, s3)"
    "length (st_input s) < 2 ^ 64"
  shows "takes (enc_value List c) s s3"
proof -
  note s1 = conjunct1 [OF List_sound [OF assms(1,2)]] conjunct2 [OF List_sound [OF assms(1,2)]]
  have c: "st_input s1 = c @ st_input s2" "adv (length c) (opened sz s) s2"
    using assms(3) s1(1) by (simp_all add: takes_def)
  have l: "length c < 2 ^ 64" using assms(5) s1(2) c(1) by simp
  have sz: "length c = unat sz" using assms(4) ListEnd_opened [OF c(2) l] by (auto split: if_splits)
  then have s3: "s3 = s2\<lparr>st_stack := bump (of_nat (length (hdr List sz 0) + length c)) (st_stack s), st_kind := None, st_size := 0\<rparr>"
    using assms(4) ListEnd_opened [OF c(2) l] by simp
  have "takes (hdr List sz 0 @ c) s s3"
    using s1(2) c(1) ListEnd_adv [OF c(2)] unfolding s3 by (intro takesI [of _ _ "st_input s2"]) simp_all
  then show ?thesis using hdr_List [OF l, of sz] sz by simp
qed

lemma list_complete:
  assumes "st_kind s = None" "st_input s = enc_value List c @ r" "room (length (enc_value List c)) s" "length c < 2 ^ 64"
  shows "Stream_List s = (Inr (of_nat (length c)), opened (of_nat (length c)) s) \<and>
    st_input (opened (of_nat (length c)) s) = c @ r \<and> room (length c) (opened (of_nat (length c)) s) \<and>
    (\<forall>s2. adv (length c) (opened (of_nat (length c)) s) s2 \<longrightarrow> at_list_end s2 \<and>
       (\<exists>s3. Stream_ListEnd s2 = (Inr (), s3) \<and> takes (enc_value List c) s s3))"
proof -
  let ?sz = "of_nat (length c) :: u64"
  have u: "unat ?sz = length c" using assms(4) by (rule unat_length)
  have e: "enc_value List c = hdr List ?sz 0 @ c" by simp
  have i: "st_input s = hdr List ?sz 0 @ c @ r" using assms(2) by simp
  have rm: "room (length (hdr List ?sz 0) + unat ?sz) s" using assms(3) u by simp
  note L = List_complete [OF assms(1) i rm]
  have "at_list_end s2 \<and> (\<exists>s3. Stream_ListEnd s2 = (Inr (), s3) \<and> takes (enc_value List c) s s3)"
    if a: "adv (length c) (opened ?sz s) s2" for s2
  proof -
    have "st_stack s2 = (?sz, ?sz) # bump (of_nat (length (hdr List ?sz 0))) (st_stack s)"
      using adv_simps(3) [OF a] by simp
    then have "at_list_end s2" by (simp add: at_list_end_def)
    moreover obtain s3 where s3: "Stream_ListEnd s2 = (Inr (), s3)" using ListEnd_opened [OF a assms(4)] u by auto
    moreover have "adv (length (enc_value List c)) s s3"
      using ListEnd_adv [OF a] s3 ListEnd_opened [OF a assms(4)] u by (auto split: if_splits)
    ultimately show ?thesis using takesI [OF assms(2)] by blast
  qed
  then show ?thesis using L i room_opened [OF rm] u by simp
qed

end
