(* ===== verification/RlpSpec.thy ===== *)
theory RlpSpec
  imports RlpOps
begin

text \<open>
  The abstract specification of the encoder: the bytes \<open>rlp_enc\<close> of a value of a type, as the
  documentation of \<^verbatim>\<open>util/serialize/rlp\<close> gives them, without a buffer.  The writers refine it.
\<close>

section \<open>The encoding of a value\<close>

definition ptr_nil_kind :: "rtype \<Rightarrow> tags \<Rightarrow> Kind" where
  "ptr_nil_kind t ts =
     (if t = TBigInt then String else if nilOK ts then nilKind ts else defaultNilKind t)"

function (sequential) rlp_enc :: "rtype \<Rightarrow> tags \<Rightarrow> rval \<Rightarrow> byte list"
  and rlp_elems :: "rtype \<Rightarrow> rval list \<Rightarrow> byte list"
  and rlp_fields :: "sfield list \<Rightarrow> rval list \<Rightarrow> byte list"
where
  "rlp_enc TRawValue ts v = (case v of VBytes b \<Rightarrow> b | _ \<Rightarrow> [])"
| "rlp_enc TBigInt ts v = (case v of VBig i \<Rightarrow> enc_string (big_bytes i) | _ \<Rightarrow> [])"
| "rlp_enc (TPtr t) ts v =
     (case v of
        VPtr None \<Rightarrow> if ptr_nil_kind t ts = String then enc_string [] else enc_value List []
      | VPtr (Some v) \<Rightarrow> rlp_enc t no_tags v
      | _ \<Rightarrow> [])"
| "rlp_enc (TUint n) ts v = (case v of VUint i \<Rightarrow> enc_string (uint_bytes i) | _ \<Rightarrow> [])"
| "rlp_enc TBool ts v = (case v of VBool b \<Rightarrow> enc_string (uint_bytes (if b then 1 else 0)) | _ \<Rightarrow> [])"
| "rlp_enc TString ts v = (case v of VBytes s \<Rightarrow> enc_string s | _ \<Rightarrow> [])"
| "rlp_enc (TSlice e) ts v =
     (case v of
        VBytes b \<Rightarrow> enc_string b
      | VList vs \<Rightarrow> if tail ts then rlp_elems e vs else enc_value List (rlp_elems e vs)
      | _ \<Rightarrow> [])"
| "rlp_enc (TArray n e) ts v =
     (case v of
        VBytes b \<Rightarrow> enc_string b
      | VList vs \<Rightarrow> if tail ts then rlp_elems e vs else enc_value List (rlp_elems e vs)
      | _ \<Rightarrow> [])"
| "rlp_enc (TStruct fs) ts v =
     (case v of
        VStruct vs \<Rightarrow> (case structFields fs of Inl e \<Rightarrow> [] | Inr fl \<Rightarrow> enc_value List (rlp_fields fl vs))
      | _ \<Rightarrow> [])"
| "rlp_enc (TInterface n) ts v =
     (case v of
        VIface None \<Rightarrow> enc_value List []
      | VIface (Some (t, v)) \<Rightarrow> rlp_enc t no_tags v
      | _ \<Rightarrow> [])"
| "rlp_enc (TOther s) ts v = []"
| "rlp_elems e [] = []"
| "rlp_elems e (v # vs) = rlp_enc e no_tags v @ rlp_elems e vs"
| "rlp_fields [] vs = []"
| "rlp_fields ((i, t, ts) # fl) vs = (if i < length vs then rlp_enc t ts (vs ! i) @ rlp_fields fl vs else [])"
  by pat_completeness auto

termination
  by (relation "inv_image (less_than <*lex*> less_than)
    (\<lambda>x. case x of
       Inl (t, ts, v) \<Rightarrow> (size v, 0)
     | Inr (Inl (e, vs)) \<Rightarrow> (size_list size vs, 1)
     | Inr (Inr (fl, vs)) \<Rightarrow> (size_list size vs, Suc (length fl)))")
    (auto simp: size_nth_less)

section \<open>The writers write it\<close>

lemma appends_0x80: "appends w (append_str [0x80] w) (enc_string [])"
  using appends_str [of w "[0x80]"] by (simp add: enc_string_def string_kind_def head_bytes_def)

lemma appends_0xC0: "appends w (append_str [0xC0] w) (enc_value List [])"
  using appends_str [of w "[0xC0]"] by (simp add: head_bytes_def)

lemma appends_empty_list: "encbuf_list w = (lh, w0) \<Longrightarrow> appends w (encbuf_listEnd lh w0) (enc_value List [])"
  by (rule appends_list [OF _ appends_refl]) simp_all

lemma appends_uint: "appends w (writeUint i w) (enc_string (uint_bytes i))"
proof -
  consider "i = 0" | "i \<noteq> 0" "i < 128" | "128 \<le> i" by fastforce
  then show ?thesis
  proof cases
    case 1
    then show ?thesis using appends_0x80 by (simp add: writeUint_def uint_bytes_def)
  next
    case 2
    then show ?thesis using small_uint(2) [OF 2(2,1)] appends_str by (simp add: writeUint_def)
  next
    case 3
    then have "\<not> i < 128" "i \<noteq> 0" by auto
    then show ?thesis using large_uint [OF 3] appends_str by (simp add: writeUint_def Let_def)
  qed
qed

lemma appends_bool: "appends w (writeBool b w) (enc_string (uint_bytes (if b then 1 else 0)))"
proof -
  have "enc_string (uint_bytes 1) = [0x01]" using small_uint(2) [of 1] by simp
  then show ?thesis using appends_0x80 [of w] appends_str [of w "[0x01]"]
    by (cases b) (simp_all add: writeBool_def uint_bytes_def)
qed

lemma length_enc_string: "length b \<le> length (enc_string b)"
  by (simp add: enc_string_def string_kind_def)

lemma appends_writeString:
  "length (enc_string b) < 2 ^ 64 \<Longrightarrow> appends w (writeString b w) (enc_string b)"
  using appends_string [of b w] length_enc_string [of b] by (simp add: writeString_def encodeString_def)

lemma appends_encodeString:
  "length (enc_string b) < 2 ^ 64 \<Longrightarrow> appends w (encodeString b w) (enc_string b)"
  using appends_string [of b w] length_enc_string [of b] by simp

lemma appends_big:
  assumes "writeBigInt i w = Inr w'" "length (enc_string (big_bytes i)) < 2 ^ 64"
  shows "appends w w' (enc_string (big_bytes i))"
proof (cases "i = 0")
  case True
  then show ?thesis using assms appends_0x80 by (auto simp: writeBigInt_def big_bytes_def nat_bytes.simps [of 0])
next
  case False
  then show ?thesis using assms appends_encodeString by (auto simp: writeBigInt_def big_bytes_def split: if_splits)
qed

lemma length_enc_List: "length c < length (enc_value List c)"
  by (simp add: head_bytes_def Let_def)

lemma ptr_nil_split:
  "(if t = TBigInt then a else if (if nilOK ts then nilKind ts else defaultNilKind t) = String then a else b) =
   (if ptr_nil_kind t ts = String then a else b)"
  by (simp add: ptr_nil_kind_def)

lemma write_appends:
  shows "write_value t ts v w = Inr w' \<Longrightarrow> length (rlp_enc t ts v) < 2 ^ 64 \<Longrightarrow> appends w w' (rlp_enc t ts v)"
    and "write_elems e vs w = Inr w' \<Longrightarrow> length (rlp_elems e vs) < 2 ^ 64 \<Longrightarrow> appends w w' (rlp_elems e vs)"
    and "write_fields fl vs w = Inr w' \<Longrightarrow> length (rlp_fields fl vs) < 2 ^ 64 \<Longrightarrow> appends w w' (rlp_fields fl vs)"
proof (induction t ts v w and e vs w and fl vs w arbitrary: w' and w' and w'
    rule: write_value_write_elems_write_fields.induct)
  case (3 t ts v w)
  then show ?case
    by (auto simp: bad_value_def ptr_nil_split appends_0x80 appends_empty_list
        split: rval.splits option.splits prod.splits if_splits simp del: enc_value.simps)
next
  case (7 e ts v w)
  show ?case
  proof (cases v)
    case (VBytes b)
    then show ?thesis using 7(3,4) by (auto simp: bad_value_def intro: appends_encodeString split: if_splits)
  next
    case (VList vs)
    show ?thesis
    proof (cases "tail ts")
      case True
      then show ?thesis using 7 VList by (auto simp: bad_value_def split: if_splits)
    next
      case False
      obtain lh w0 where l: "encbuf_list w = (lh, w0)" by fastforce
      from 7(3) VList False l obtain w1 where w1: "write_elems e vs w0 = Inr w1" "w' = encbuf_listEnd lh w1" and nb: "\<not> isByte e"
        by (auto simp: bad_value_def split: if_splits elim!: bindE_InrE)
      have n: "length (rlp_elems e vs) < 2 ^ 64" using 7(4) VList False length_enc_List [of "rlp_elems e vs"] by simp
      have "appends w0 w1 (rlp_elems e vs)" using 7(2) VList nb False l w1(1) n by auto
      then show ?thesis using appends_list [OF l _ n] w1(2) VList False by simp
    qed
  qed (use 7 in \<open>simp_all add: bad_value_def\<close>)
next
  case (8 n e ts v w)
  show ?case
  proof (cases v)
    case (VBytes b)
    then show ?thesis using 8(3,4) by (auto simp: bad_value_def intro: appends_encodeString split: if_splits)
  next
    case (VList vs)
    show ?thesis
    proof (cases "tail ts")
      case True
      then show ?thesis using 8 VList by (auto simp: bad_value_def split: if_splits)
    next
      case False
      obtain lh w0 where l: "encbuf_list w = (lh, w0)" by fastforce
      from 8(3) VList False l obtain w1 where w1: "write_elems e vs w0 = Inr w1" "w' = encbuf_listEnd lh w1" and nb: "\<not> isByte e"
        by (auto simp: bad_value_def split: if_splits elim!: bindE_InrE)
      have n: "length (rlp_elems e vs) < 2 ^ 64" using 8(4) VList False length_enc_List [of "rlp_elems e vs"] by simp
      have "appends w0 w1 (rlp_elems e vs)" using 8(2) VList nb False l w1(1) n by auto
      then show ?thesis using appends_list [OF l _ n] w1(2) VList False by simp
    qed
  qed (use 8 in \<open>simp_all add: bad_value_def\<close>)
next
  case (9 fs ts v w)
  show ?case
  proof (cases v)
    case (VStruct vs)
    obtain lh w0 where l: "encbuf_list w = (lh, w0)" by fastforce
    from 9(2) VStruct l obtain fl w1 where w1: "structFields fs = Inr fl" "write_fields fl vs w0 = Inr w1" "w' = encbuf_listEnd lh w1"
      by (auto elim!: bindE_InrE)
    have n: "length (rlp_fields fl vs) < 2 ^ 64" using 9(3) VStruct w1(1) length_enc_List [of "rlp_fields fl vs"] by simp
    have "appends w0 w1 (rlp_fields fl vs)" using 9(1) VStruct l w1(1,2) n by auto
    then show ?thesis using appends_list [OF l _ n] w1(1,3) VStruct by simp
  qed (use 9 in \<open>simp_all add: bad_value_def\<close>)
next
  case (10 n ts v w)
  then show ?case
    by (auto simp: bad_value_def appends_0xC0 split: rval.splits option.splits prod.splits simp del: enc_value.simps)
next
  case (13 e v vs w)
  from 13(3) obtain w1 where w1: "write_value e no_tags v w = Inr w1" "write_elems e vs w1 = Inr w'"
    by (auto elim!: bindE_InrE)
  then show ?case using 13 by (auto intro!: appends_trans)
next
  case (15 i t ts fl vs w)
  from 15(3) have i: "i < length vs" by (auto simp: bad_value_def split: if_splits)
  with 15(3) obtain w1 where w1: "write_value t ts (vs ! i) w = Inr w1" "write_fields fl vs w1 = Inr w'"
    by (auto elim!: bindE_InrE)
  then show ?case using 15 i by (auto intro!: appends_trans)
qed (auto simp: bad_value_def appends_str appends_uint appends_bool appends_refl
    intro: appends_big appends_writeString appends_bool [of _ True, simplified] appends_bool [of _ False, simplified] split: rval.splits)

text \<open>What \<^verbatim>\<open>EncodeToBytes\<close> returns is the specified encoding.\<close>

lemma encode_appends:
  assumes "encbuf_encode t v new_encbuf = Inr w" "length (rlp_enc t no_tags v) < 2 ^ 64"
  shows "encbuf_ok w \<and> encbuf_bytes w = rlp_enc t no_tags v"
  using assms appends_new [OF write_appends(1) [of t no_tags v new_encbuf w]]
  by (simp add: encbuf_encode_def split: option.splits)

lemma EncodeToBytes_spec:
  assumes "EncodeToBytes t v = Inr b" "length (rlp_enc t no_tags v) < 2 ^ 64"
  shows "b = rlp_enc t no_tags v"
  using assms encode_appends [OF _ assms(2)] toBytes_ok
  by (auto simp: EncodeToBytes_def liftP_def elim!: bindE_InrE split: sum.splits)

section \<open>Values that survive the round trip\<close>

text \<open>
  Types the theorems speak of: every array has less than \<open>2 ^ 64\<close> elements, integers have the
  widths of Go, and no array of exactly one byte occurs (theory \<open>RlpProps\<close> shows what happens to those).
\<close>

function (sequential) safe :: "rtype \<Rightarrow> bool" where
  "safe (TUint n) = (n \<in> {8, 16, 32, 64})"
| "safe (TPtr t) = (t = TBigInt \<or> safe t)"
| "safe (TSlice e) = (isByte e \<or> safe e)"
| "safe (TArray n e) = (n < 2 ^ 64 \<and> (if isByte e then n \<noteq> 1 else safe e))"
| "safe (TStruct fs) =
     (case structFields fs of Inl e \<Rightarrow> False | Inr fl \<Rightarrow> list_all (\<lambda>(i, t, ts). safe t) fl)"
| "safe (TInterface n) = (n = 0)"
| "safe (TOther s) = False"
| "safe _ = True"
  by pat_completeness auto
termination by (relation "measure size") (auto dest: structFields_smaller)

lemma size_list_less: "x \<in> set xs \<Longrightarrow> size x < size_list size xs"
  by (induction xs) auto

text \<open>
  \<open>val_ok t ts v\<close>: \<open>v\<close> is a value of type \<open>t\<close> that its encoding determines.  Nil pointers need a
  \<^verbatim>\<open>nil\<close> tag, what such a pointer points to must not encode to an empty value, interfaces hold
  byte slices or slices of interfaces, and fields that are not encoded are zero.
\<close>

function (sequential) val_ok :: "rtype \<Rightarrow> tags \<Rightarrow> rval \<Rightarrow> bool" and fields_ok :: "sfield list \<Rightarrow> rval list \<Rightarrow> bool" where
  "val_ok TRawValue ts v = (case v of VBytes b \<Rightarrow> raw_ok b | _ \<Rightarrow> False)"
| "val_ok TBigInt ts v = (case v of VBig i \<Rightarrow> 0 \<le> i | _ \<Rightarrow> False)"
| "val_ok (TPtr t) ts v =
     (case v of
        VPtr None \<Rightarrow> t \<noteq> TBigInt \<and> nilOK ts \<and> nilKind ts \<noteq> Byte
      | VPtr (Some v) \<Rightarrow> val_ok t no_tags v \<and>
          (t \<noteq> TBigInt \<and> nilOK ts \<longrightarrow> rlp_enc t no_tags v \<notin> {enc_string [], enc_value List []})
      | _ \<Rightarrow> False)"
| "val_ok (TUint n) ts v = (case v of VUint i \<Rightarrow> uint_fits n i | _ \<Rightarrow> False)"
| "val_ok TBool ts v = (case v of VBool b \<Rightarrow> True | _ \<Rightarrow> False)"
| "val_ok TString ts v = (case v of VBytes s \<Rightarrow> True | _ \<Rightarrow> False)"
| "val_ok (TSlice e) ts v =
     (case v of
        VBytes b \<Rightarrow> isByte e
      | VList vs \<Rightarrow> \<not> isByte e \<and> list_all (\<lambda>v. val_ok e no_tags v) vs
      | _ \<Rightarrow> False)"
| "val_ok (TArray n e) ts v =
     (\<not> tail ts \<and> (case v of
        VBytes b \<Rightarrow> isByte e \<and> length b = n
      | VList vs \<Rightarrow> \<not> isByte e \<and> length vs = n \<and> list_all (\<lambda>v. val_ok e no_tags v) vs
      | _ \<Rightarrow> False))"
| "val_ok (TStruct fs) ts v =
     (case v of
        VStruct vs \<Rightarrow> length vs = length fs \<and>
          (case structFields fs of Inl e \<Rightarrow> False
           | Inr fl \<Rightarrow> fields_ok fl vs \<and>
               list_all (\<lambda>j. j \<in> set (map fst fl) \<or> vs ! j = zero_field (fs ! j)) [0..<length fs])
      | _ \<Rightarrow> False)"
| "val_ok (TInterface n) ts v =
     (n = 0 \<and> (case v of
        VIface (Some (t, v)) \<Rightarrow> (t = ifaceSlice \<or> t = TSlice (TUint 8)) \<and> val_ok t no_tags v
      | _ \<Rightarrow> False))"
| "val_ok (TOther s) ts v = False"
| "fields_ok [] vs = True"
| "fields_ok ((i, t, ts) # fl) vs = (if i < length vs then val_ok t ts (vs ! i) \<and> fields_ok fl vs else False)"
  by pat_completeness auto

termination
  by (relation "inv_image (less_than <*lex*> less_than)
    (\<lambda>x. case x of
       Inl (t, ts, v) \<Rightarrow> (size v, 0)
     | Inr (fl, vs) \<Rightarrow> (size_list size vs, Suc (length fl)))")
    (auto simp: size_nth_less dest: size_list_less)

text \<open>Such values can be written.\<close>

lemma val_ok_writes:
  shows "val_ok t ts v \<Longrightarrow> safe t \<Longrightarrow> \<exists>w'. write_value t ts v w = Inr w'"
    and "list_all (\<lambda>v. val_ok e no_tags v) vs \<Longrightarrow> safe e \<Longrightarrow> \<exists>w'. write_elems e vs w = Inr w'"
    and "fields_ok fl vs \<Longrightarrow> list_all (\<lambda>(i, t, ts). safe t) fl \<Longrightarrow> \<exists>w'. write_fields fl vs w = Inr w'"
proof (induction t ts v w and e vs w and fl vs w rule: write_value_write_elems_write_fields.induct)
  case (2 ts v w)
  then show ?case by (auto simp: writeBigInt_def split: rval.splits)
next
  case (3 t ts v w)
  then show ?case by (auto split: rval.splits option.splits prod.splits if_splits)
next
  case (7 e ts v w)
  then show ?case by (cases v) (fastforce split: prod.splits)+
next
  case (8 n e ts v w)
  then show ?case by (cases v) (fastforce split: prod.splits)+
next
  case (9 fs ts v w)
  then show ?case by (cases v) (fastforce split: prod.splits sum.splits)+
next
  case (10 n ts v w)
  then obtain t' v' where v: "v = VIface (Some (t', v'))" "t' = ifaceSlice \<or> t' = TSlice (TUint 8)" "val_ok t' no_tags v'"
    by (simp only: val_ok.simps(10)) (auto split: rval.splits option.splits)
  then have "safe t'" "writerErr t' no_tags = None" by auto
  then show ?case using 10(1) [OF v(1) refl refl] v by simp
next
  case (13 e v vs w)
  then obtain w1 where "write_value e no_tags v w = Inr w1" by auto
  then show ?case using 13 by auto
next
  case (15 i t ts fl vs w)
  then have "i < length vs" by (auto split: if_splits)
  moreover from this obtain w1 where "write_value t ts (vs ! i) w = Inr w1" using 15 by auto
  ultimately show ?case using 15 by auto
qed (auto split: rval.splits)

lemma fields_err_None: "fields_err err fs = None \<longleftrightarrow> (\<forall>f \<in> set fs. err f = None)"
proof (cases "filter (\<lambda>f. err f \<noteq> None) fs")
  case Nil
  then show ?thesis by (simp add: fields_err_def filter_empty_conv)
next
  case (Cons f r)
  then have "f \<in> set (filter (\<lambda>f. err f \<noteq> None) fs)" by simp
  then have "f \<in> set fs" "err f \<noteq> None" by simp_all
  then show ?thesis using Cons by (auto simp: fields_err_def)
qed

lemma safe_writerErr: "safe t \<Longrightarrow> writerErr t ts = None"
proof (induction t arbitrary: ts rule: safe.induct)
  case (5 fs)
  then show ?case by (fastforce simp: fields_err_None list_all_iff split: sum.splits)
qed auto

lemma safe_decoderErr: "safe t \<Longrightarrow> decoderErr t ts = None"
proof (induction t arbitrary: ts rule: safe.induct)
  case (5 fs)
  then show ?case by (fastforce simp: fields_err_None list_all_iff split: sum.splits)
qed auto

lemma EncodeToBytes_ok:
  assumes "val_ok t no_tags v" "safe t" "length (rlp_enc t no_tags v) < 2 ^ 64"
  shows "EncodeToBytes t v = Inr (rlp_enc t no_tags v)"
proof -
  obtain w where "write_value t no_tags v new_encbuf = Inr w" using val_ok_writes(1) [OF assms(1,2)] by blast
  then have e: "encbuf_encode t v new_encbuf = Inr w" by (simp add: encbuf_encode_def safe_writerErr assms(2))
  then show ?thesis using encode_appends [OF e assms(3)] toBytes_ok [of w] by (simp add: EncodeToBytes_def liftP_def)
qed

section \<open>Fields of a struct\<close>

lemma structFieldsFrom_idx:
  "structFieldsFrom lastp i fs = Inr fl \<Longrightarrow> sorted_wrt (<) (map fst fl) \<and> (\<forall>j \<in> set (map fst fl). i \<le> j \<and> j < i + length fs)"
proof (induction fs arbitrary: i fl)
  case (Cons f fs)
  show ?case
  proof (cases "structFieldsFrom lastp (Suc i) fs")
    case (Inr r)
    then show ?thesis using Cons.prems Cons.IH [OF Inr]
      by (fastforce elim!: bindE_InrE split: if_splits)
  next
    case (Inl e)
    then show ?thesis using Cons.prems by (auto elim!: bindE_InrE split: if_splits)
  qed
qed simp

lemma structFields_idx:
  assumes "structFields fs = Inr fl"
  shows "distinct (map fst fl)" "\<forall>j \<in> set (map fst fl). j < length fs"
  using structFieldsFrom_idx [OF assms [unfolded structFields_def]] strict_sorted_iff by auto

lemma lastPublicFrom_ge:
  "l \<le> lastPublicFrom i fs l \<or> (\<exists>j < length fs. exported (fs ! j))"
proof (induction fs arbitrary: i l)
  case (Cons f fs)
  show ?case
  proof (cases "exported f")
    case True
    then show ?thesis by (intro disjI2 exI [of _ 0]) simp
  next
    case False
    then show ?thesis using Cons [of l "Suc i"] by auto
  qed
qed simp

lemma lastPublicFrom_max:
  "(\<forall>j < length fs. exported (fs ! j) \<longrightarrow> i + j \<le> lastPublicFrom i fs l) \<and> (l \<le> i \<longrightarrow> l \<le> lastPublicFrom i fs l)"
proof (induction fs arbitrary: i l)
  case (Cons f fs)
  show ?case
  proof (cases "exported f")
    case True
    then have e: "lastPublicFrom i (f # fs) l = lastPublicFrom (Suc i) fs i" by simp
    have "i \<le> lastPublicFrom (Suc i) fs i" using Cons [of "Suc i" i] by simp
    then show ?thesis using Cons [of "Suc i" i] unfolding e by (auto simp: nth_Cons less_Suc_eq_0_disj split: nat.split)
  next
    case False
    then show ?thesis using Cons [of "Suc i" l] by (auto simp: nth_Cons less_Suc_eq_0_disj split: nat.split)
  qed
qed simp

lemma parseTags_tail:
  "parseTags f lastp ws ts0 = Inr ts \<Longrightarrow> (tail ts0 \<longrightarrow> lastp \<and> isSlice (ftype f)) \<Longrightarrow> tail ts \<longrightarrow> lastp \<and> isSlice (ftype f)"
  by (induction f lastp ws ts0 rule: parseTags.induct) (auto simp: Let_def split: if_splits)

lemma parseTags_nil:
  "parseTags f lastp ws ts0 = Inr ts \<Longrightarrow> (nilOK ts0 \<longrightarrow> nilKind ts0 \<noteq> Byte) \<Longrightarrow> nilOK ts \<longrightarrow> nilKind ts \<noteq> Byte"
  by (induction f lastp ws ts0 rule: parseTags.induct) (auto simp: Let_def defaultNilKind_def split: if_splits)

lemma structFieldsFrom_tags:
  "structFieldsFrom lastp i fs = Inr fl \<Longrightarrow> (j, t, ts) \<in> set fl \<Longrightarrow>
   i \<le> j \<and> j < i + length fs \<and> exported (fs ! (j - i)) \<and> t = ftype (fs ! (j - i)) \<and>
   (tail ts \<longrightarrow> j = lastp \<and> isSlice t) \<and> (nilOK ts \<longrightarrow> nilKind ts \<noteq> Byte)"
proof (induction fs arbitrary: i fl)
  case (Cons f fs)
  have step: "i \<le> j \<and> j < i + length (f # fs) \<and> exported ((f # fs) ! (j - i)) \<and> t = ftype ((f # fs) ! (j - i)) \<and>
      (tail ts \<longrightarrow> j = lastp \<and> isSlice t) \<and> (nilOK ts \<longrightarrow> nilKind ts \<noteq> Byte)"
    if "structFieldsFrom lastp (Suc i) fs = Inr r" "(j, t, ts) \<in> set r" for r
  proof -
    note h = Cons.IH [OF that]
    then obtain m where "j = Suc i + m" by (auto simp: le_iff_add)
    then have "(f # fs) ! (j - i) = fs ! (j - Suc i)" by simp
    then show ?thesis using h by auto
  qed
  show ?case
  proof (cases "exported f")
    case False
    then show ?thesis using Cons.prems step by (metis structFieldsFrom.simps(2))
  next
    case True
    with Cons.prems(1) obtain ts1 where p: "parseStructTag f i lastp = Inr ts1" by (auto elim!: bindE_InrE)
    note pt = p [unfolded parseStructTag_def]
    have t1: "tail ts1 \<longrightarrow> i = lastp \<and> isSlice (ftype f)" "nilOK ts1 \<longrightarrow> nilKind ts1 \<noteq> Byte"
      using parseTags_tail [OF pt] parseTags_nil [OF pt] by (simp_all add: no_tags_def)
    show ?thesis
    proof (cases "ignored ts1")
      case True
      then have "structFieldsFrom lastp (Suc i) fs = Inr fl" using Cons.prems(1) p \<open>exported f\<close> by simp
      then show ?thesis using Cons.prems(2) step by blast
    next
      case False
      with Cons.prems(1) p \<open>exported f\<close> obtain r where r: "structFieldsFrom lastp (Suc i) fs = Inr r" "fl = (i, ftype f, ts1) # r"
        by (auto elim!: bindE_InrE)
      then show ?thesis using Cons.prems(2) step [OF r(1)] t1 \<open>exported f\<close> by auto
    qed
  qed
qed simp

text \<open>A \<^verbatim>\<open>tail\<close> field is the last one and a slice.\<close>

definition field_tags_ok :: "sfield list \<Rightarrow> bool" where
  "field_tags_ok fl = ((\<forall>(j, t, ts) \<in> set fl. (tail ts \<longrightarrow> isSlice t) \<and> (nilOK ts \<longrightarrow> nilKind ts \<noteq> Byte)) \<and>
     (\<forall>(j, t, ts) \<in> set (butlast fl). \<not> tail ts))"

lemma structFields_tags:
  assumes "structFields fs = Inr fl"
  shows "field_tags_ok fl"
proof -
  let ?l = "lastPublicField fs"
  note s = assms [unfolded structFields_def]
  have le: "j \<le> ?l" if "(j, t, ts) \<in> set fl" for j t ts
    using structFieldsFrom_tags [OF s that] lastPublicFrom_max [of fs 0 0] by (auto simp: lastPublicField_def)
  have "\<not> tail ts" if b: "(j, t, ts) \<in> set (butlast fl)" for j t ts
  proof
    assume "tail ts"
    then have j: "j = ?l" using structFieldsFrom_tags [OF s in_set_butlastD [OF b]] by blast
    from b have "fl \<noteq> []" by auto
    then obtain l where l: "fl = butlast fl @ [l]" by (metis append_butlast_last_id)
    obtain jl tl' tsl where l': "l = (jl, tl', tsl)" by (cases l) auto
    have "sorted_wrt (<) (map fst (butlast fl @ [l]))" using structFieldsFrom_idx [OF s] l by simp
    then have "j < jl" using b l' by (force simp: sorted_wrt_append)
    moreover have "jl \<le> ?l" using le [of jl tl' tsl] l l' by (metis in_set_conv_decomp)
    ultimately show False using j by simp
  qed
  then show ?thesis using structFieldsFrom_tags [OF s] unfolding field_tags_ok_def by fast
qed

end
