(* ===== verification/RlpDecode.thy ===== *)
theory RlpDecode
  imports RlpSpec
begin

text \<open>
  How decoders treat the value ahead: looking at its kind first changes nothing, and \<^verbatim>\<open>EOL\<close>
  is returned exactly at the end of a list.
\<close>

section \<open>Looking first\<close>

lemma bindS_Kind_peek: "bindS Stream_Kind f (snd (Stream_Kind s)) = bindS Stream_Kind f s"
  by (simp add: Kind_idem)

lemma ops_peek:
  "Stream_Bytes (snd (Stream_Kind s)) = Stream_Bytes s"
  "Stream_Raw (snd (Stream_Kind s)) = Stream_Raw s"
  "Stream_uint bits (snd (Stream_Kind s)) = Stream_uint bits s"
  "Stream_List (snd (Stream_Kind s)) = Stream_List s"
  unfolding Stream_Bytes_def Stream_Raw_def Stream_uint_def Stream_List_def by (rule bindS_Kind_peek)+

lemma Bool_peek: "Stream_Bool (snd (Stream_Kind s)) = Stream_Bool s"
  by (simp add: Stream_Bool_def ops_peek)

definition tail_slice :: "rtype \<Rightarrow> tags \<Rightarrow> bool" where
  "tail_slice t ts = (case t of TSlice e \<Rightarrow> \<not> isByte e \<and> tail ts | _ \<Rightarrow> False)"

lemma tail_slice_simps [simp]:
  "\<not> tail_slice t no_tags" "\<not> tail_slice (TPtr t) ts" "tail_slice (TSlice e) ts = (\<not> isByte e \<and> tail ts)"
  by (simp_all add: tail_slice_def no_tags_def split: rtype.split)

lemma decode_peek:
  "safe t \<Longrightarrow> \<not> tail_slice t ts \<Longrightarrow> decode_value n t ts (snd (Stream_Kind s)) = decode_value n t ts s"
proof (induction t arbitrary: ts rule: safe.induct)
  case (2 t)
  then show ?case
    by (cases "t = TBigInt") (simp_all add: decodeBigInt_def ops_peek Kind_idem)
next
  case (3 e)
  then show ?case by (cases "isByte e") (simp_all add: decodeByteSlice_def ops_peek)
next
  case (5 fs)
  then show ?case by (cases "structFields fs") (simp_all add: ops_peek)
qed (simp_all add: decodeUint_def decodeByteSlice_def decodeByteArray_def decodeBool_def decodeString_def
    decodeRawValue_def decodeBigInt_def ops_peek Bool_peek Kind_idem)

section \<open>The end of a list\<close>

definition no_eol :: "'a sop \<Rightarrow> bool" where
  "no_eol m = (\<forall>s s'. m s \<noteq> (Inl EOL, s'))"

lemma no_eol_bind: "no_eol m \<Longrightarrow> (\<And>x. no_eol (f x)) \<Longrightarrow> no_eol (bindS m f)"
  by (auto simp: no_eol_def split: prod.splits sum.splits)

lemma no_eol_basic [simp]: "no_eol (returnS x)" "no_eol (modifyS g)" "e \<noteq> EOL \<Longrightarrow> no_eol (failS e)" "no_eol rearm"
  "no_eol (\<lambda>s. (Inr (f s), g s))"
  by (simp_all add: no_eol_def rearm_def)

lemma no_eol_willRead: "no_eol (willRead n)"
  by (auto simp: no_eol_def willRead_def Let_def split: list.splits if_splits)

lemma no_eol_readByte: "no_eol readByte"
  unfolding readByte_def by (rule no_eol_bind [OF no_eol_willRead]) (auto simp: no_eol_def split: list.splits)

lemma no_eol_readFull: "no_eol (readFull n)"
  unfolding readFull_def by (rule no_eol_bind [OF no_eol_willRead]) (auto simp: no_eol_def)

lemma no_eol_readUint: "no_eol (readUint n)"
  unfolding readUint_def by (auto intro!: no_eol_bind no_eol_readByte no_eol_readFull)

lemma no_eol_makeBytes: "no_eol (makeBytes n)"
  by (simp add: makeBytes_def)

lemma no_eol_ListEnd: "no_eol Stream_ListEnd"
  by (auto simp: no_eol_def Stream_ListEnd_def split: list.splits if_splits)

lemma readKind_no_eol: "Stream_readKind s \<noteq> ((k, sz, Some EOL), s')"
  using no_eol_readByte no_eol_readUint
  by (auto simp: Stream_readKind_def readSize_def no_eol_def Let_def split: prod.splits sum.splits if_splits)

lemma sizeError_no_eol: "sizeError sz s \<noteq> Some EOL"
  by (auto simp: sizeError_def split: list.splits)

lemma Kind_EOL:
  assumes "st_kind s = None"
  shows "Stream_Kind s = (Inl EOL, s') \<longleftrightarrow> at_list_end s \<and> s' = s\<lparr>st_kinderr := None\<rparr>"
  using assms readKind_no_eol sizeError_no_eol
  by (auto simp: Stream_Kind_def Let_def split: prod.splits option.splits if_splits)

lemma Kind_bind_EOL:
  assumes "bindS Stream_Kind f s = (Inl EOL, s')" "\<And>x. no_eol (f x)"
  shows "Stream_Kind s = (Inl EOL, s')"
  using assms by (auto simp: no_eol_def split: prod.splits sum.splits)

lemma ops_EOL:
  "Stream_Bytes s = (Inl EOL, s') \<Longrightarrow> Stream_Kind s = (Inl EOL, s')"
  "Stream_Raw s = (Inl EOL, s') \<Longrightarrow> Stream_Kind s = (Inl EOL, s')"
  "Stream_uint bits s = (Inl EOL, s') \<Longrightarrow> Stream_Kind s = (Inl EOL, s')"
  "Stream_List s = (Inl EOL, s') \<Longrightarrow> Stream_Kind s = (Inl EOL, s')"
proof -
  show "Stream_Bytes s = (Inl EOL, s') \<Longrightarrow> Stream_Kind s = (Inl EOL, s')"
    unfolding Stream_Bytes_def
    by (erule Kind_bind_EOL)
      (auto simp: no_eol_makeBytes no_eol_readFull intro!: no_eol_bind split: Kind.splits prod.splits)
  show "Stream_Raw s = (Inl EOL, s') \<Longrightarrow> Stream_Kind s = (Inl EOL, s')"
    unfolding Raw_bind
    by (erule Kind_bind_EOL)
      (auto simp: no_eol_makeBytes no_eol_readFull intro!: no_eol_bind split: Kind.splits prod.splits)
  have "no_eol (\<lambda>s. if st_byteval s = 0 then (Inl ErrCanonInt, s)
                    else (Inr (ucast (st_byteval s)), s\<lparr>st_kind := None\<rparr>))"
    by (simp add: no_eol_def)
  moreover have "no_eol (\<lambda>s. case readUint (ucast sz) s of
                 (Inl e, s) \<Rightarrow> (Inl (if e = ErrCanonSize then ErrCanonInt else e), s)
               | (Inr v, s) \<Rightarrow> if sz > 0 \<and> v < 128 then (Inl ErrCanonSize, s) else (Inr v, s))" for sz :: u64
    using no_eol_readUint by (auto simp: no_eol_def split: prod.splits sum.splits)
  ultimately show "Stream_uint bits s = (Inl EOL, s') \<Longrightarrow> Stream_Kind s = (Inl EOL, s')"
    unfolding Stream_uint_def by (erule_tac Kind_bind_EOL) (auto split: Kind.splits prod.splits)
  show "Stream_List s = (Inl EOL, s') \<Longrightarrow> Stream_Kind s = (Inl EOL, s')"
    unfolding Stream_List_def
    by (erule Kind_bind_EOL) (auto intro!: no_eol_bind split: prod.splits)
qed

lemma Bool_EOL: "Stream_Bool s = (Inl EOL, s') \<Longrightarrow> Stream_Kind s = (Inl EOL, s')"
  by (rule ops_EOL(3) [of 8]) (auto simp: Stream_Bool_def split: prod.splits sum.splits if_splits)

lemma wrap_EOL [simp]: "wrapStreamError e = EOL \<longleftrightarrow> e = EOL"
  by (auto simp: wrapStreamError_def)

lemma elems_no_EOL:
  "decodeSliceElems n e vs s \<noteq> Some (Inl EOL, s')"
  "decodeArrayElems m k e vs s \<noteq> Some (Inl EOL, s')"
  "decodeFields m fl vs s \<noteq> Some (Inl EOL, s')"
proof -
  show "decodeSliceElems n e vs s \<noteq> Some (Inl EOL, s')"
    by (induction n arbitrary: vs s) (auto split: option.splits prod.splits sum.splits)
  show "decodeArrayElems m k e vs s \<noteq> Some (Inl EOL, s')"
    by (induction k arbitrary: vs s) (auto split: option.splits prod.splits sum.splits)
  show "decodeFields m fl vs s \<noteq> Some (Inl EOL, s')"
    by (induction fl arbitrary: vs s) (auto split: option.splits prod.splits sum.splits if_splits)
qed

lemma ListEnd_no_EOL [simp]: "Stream_ListEnd s \<noteq> (Inl EOL, s')"
  using no_eol_ListEnd by (simp add: no_eol_def)

lemma bytearray_EOL: "decodeByteArray k s = Some (Inl EOL, s') \<Longrightarrow> Stream_Kind s = (Inl EOL, s')"
  using no_eol_readFull [of k]
  by (auto simp: decodeByteArray_def no_eol_def split: prod.splits sum.splits Kind.splits if_splits)

lemma List_then_EOL:
  assumes "bindD (mapErrD wrapStreamError (liftD Stream_List)) f s = Some (Inl EOL, s')"
    and "\<And>x s1. f x s1 \<noteq> Some (Inl EOL, s')"
  shows "Stream_Kind s = (Inl EOL, s')"
  using assms by (intro ops_EOL(4)) (auto split: prod.splits sum.splits)

lemma decode_EOL:
  "decode_value n t ts s = Some (Inl EOL, s') \<Longrightarrow> safe t \<Longrightarrow> \<not> tail_slice t ts \<Longrightarrow> Stream_Kind s = (Inl EOL, s')"
proof (induction t arbitrary: ts s rule: safe.induct)
  case (1 b)
  then show ?case by (intro ops_EOL(3) [of b]) (auto simp: decodeUint_def split: prod.splits sum.splits)
next
  case (2 t)
  show ?case
  proof (cases "t = TBigInt")
    case True
    then show ?thesis using 2 by (intro ops_EOL(1)) (auto simp: decodeBigInt_def split: prod.splits sum.splits if_splits)
  next
    case F: False
    show ?thesis
    proof (cases "nilOK ts")
      case False
      then show ?thesis using 2 F by (auto split: option.splits prod.splits sum.splits)
    next
      case True
      obtain r s1 where k: "Stream_Kind s = (r, s1)" by fastforce
      show ?thesis
      proof (cases r)
        case (Inl e)
        then show ?thesis using 2(2) F True k by simp
      next
        case (Inr x)
        then obtain kd sz where x: "r = Inr (kd, sz)" by (cases x) auto
        then have "decode_value n t no_tags s1 = Some (Inl EOL, s')"
          using 2(2) F True k by (auto simp: rearm_def split: option.splits prod.splits sum.splits if_splits)
        moreover have "decode_value n t no_tags s1 = decode_value n t no_tags s"
          using decode_peek [of t no_tags n s] 2(3) F k by simp
        ultimately show ?thesis using 2(1) [of no_tags s] 2(3) F by simp
      qed
    qed
  qed
next
  case (3 e)
  show ?case
  proof (cases "isByte e")
    case True
    then show ?thesis using 3 by (intro ops_EOL(1)) (auto simp: decodeByteSlice_def split: prod.splits sum.splits)
  next
    case False
    have "bindD (mapErrD wrapStreamError (liftD Stream_List)) (\<lambda>sz.
          if sz = 0 then bindD (liftD Stream_ListEnd) (\<lambda>_. liftD (returnS (VList [])))
          else bindD (decodeSliceElems n e []) (\<lambda>vs.
                 bindD (liftD Stream_ListEnd) (\<lambda>_. liftD (returnS (VList vs))))) s = Some (Inl EOL, s')"
      using 3(2,4) False by (simp del: dec_simps)
    then show ?thesis
      by (rule List_then_EOL) (auto simp: elems_no_EOL split: option.splits prod.splits sum.splits if_splits)
  qed
next
  case (4 k e)
  show ?case
  proof (cases "isByte e")
    case True
    then show ?thesis using 4 bytearray_EOL by simp
  next
    case False
    then have "bindD (mapErrD wrapStreamError (liftD Stream_List)) (\<lambda>_.
          bindD (decodeArrayElems n k e []) (\<lambda>vs.
            bindD (mapErrD wrapStreamError (liftD Stream_ListEnd)) (\<lambda>_. liftD (returnS (VList vs))))) s = Some (Inl EOL, s')"
      using 4(2) by (simp del: dec_simps)
    then show ?thesis
      by (rule List_then_EOL) (auto simp: elems_no_EOL split: option.splits prod.splits sum.splits if_splits)
  qed
next
  case (5 fs)
  then obtain fl where fl: "structFields fs = Inr fl" by (auto split: sum.splits)
  have "bindD (mapErrD wrapStreamError (liftD Stream_List)) (\<lambda>_.
            bindD (decodeFields n fl (map zero_field fs)) (\<lambda>vs.
              bindD (mapErrD wrapStreamError (liftD Stream_ListEnd)) (\<lambda>_. liftD (returnS (VStruct vs))))) s = Some (Inl EOL, s')"
    using 5(2) fl by (simp del: dec_simps)
  then show ?case
    by (rule List_then_EOL) (auto simp: elems_no_EOL split: option.splits prod.splits sum.splits if_splits)
next
  case (6 m)
  obtain r s1 where k: "Stream_Kind s = (r, s1)" by fastforce
  show ?case
  proof (cases r)
    case (Inl e)
    then show ?thesis using 6 k by simp
  next
    case (Inr x)
    then obtain kd sz where x: "r = Inr (kd, sz)" by (cases x) auto
    have K1: "Stream_Kind s1 = (Inr (kd, sz), s1)" using Kind_idem [of s] k x by simp
    then have "Stream_List s1 \<noteq> (Inl EOL, s')" "Stream_Bytes s1 \<noteq> (Inl EOL, s')"
      using ops_EOL(1,4) [of s1 s'] by auto
    then have False using 6(1,2) k x
      by (auto simp: elems_no_EOL split: option.splits prod.splits sum.splits if_splits)
    then show ?thesis ..
  qed
qed (auto simp: decodeRawValue_def decodeString_def decodeBool_def decodeBigInt_def
    intro: ops_EOL Bool_EOL split: prod.splits sum.splits if_splits)

text \<open>At the end of a list every decoder returns \<^verbatim>\<open>EOL\<close>.\<close>

lemma decode_at_end:
  assumes "at_list_end s" "st_kind s = None"
  shows "safe t \<Longrightarrow> \<not> tail_slice t ts \<Longrightarrow> decode_value n t ts s = Some (Inl EOL, s\<lparr>st_kinderr := None\<rparr>)"
proof -
  have K: "Stream_Kind s = (Inl EOL, s\<lparr>st_kinderr := None\<rparr>)" using Kind_EOL [OF assms(2)] assms(1) by blast
  show "safe t \<Longrightarrow> \<not> tail_slice t ts \<Longrightarrow> decode_value n t ts s = Some (Inl EOL, s\<lparr>st_kinderr := None\<rparr>)"
  proof (induction t arbitrary: ts rule: safe.induct)
    case (2 t)
    then show ?case using K by (cases "t = TBigInt") (simp_all add: decodeBigInt_def Stream_Bytes_def)
  next
    case (3 e)
    then show ?case using K by (cases "isByte e") (simp_all add: decodeByteSlice_def Stream_Bytes_def Stream_List_def)
  next
    case (5 fs)
    then show ?case using K by (auto simp: Stream_List_def split: sum.splits)
  qed (use K in \<open>simp_all add: decodeUint_def decodeByteSlice_def decodeByteArray_def decodeBool_def decodeString_def
    decodeRawValue_def decodeBigInt_def Stream_Bool_def Stream_Bytes_def Stream_Raw_def Stream_uint_def Stream_List_def\<close>)
qed

end
