(* ===== verification/RlpComplete.thy ===== *)
theory RlpComplete
  imports RlpRound
begin

text \<open>
  The other half of the round trip: a decoder applied to the encoding of a value returns it.
\<close>

section \<open>Filled lists\<close>

definition fills :: "nat \<Rightarrow> Stream \<Rightarrow> bool" where
  "fills n s = (\<exists>p z st. st_stack s = (p, z) # st \<and> unat (z - p) = n)"

lemma fills_adv:
  assumes "fills (n + m) s" "adv n s s'"
  shows "fills m s'"
proof -
  from assms(1) obtain p z st where s: "st_stack s = (p, z) # st" "unat (z - p) = n + m" by (auto simp: fills_def)
  then have "unat (z - p - of_nat n) = m" using unat_sub_of_nat [of n "z - p"] by simp
  then show ?thesis using adv_simps(3) [OF assms(2)] s by (auto simp: fills_def diff_diff_add)
qed

lemma fills_end: "fills 0 s \<Longrightarrow> at_list_end s"
  by (auto simp: fills_def at_list_end_def unat_eq_0)

lemma fills_opened: "length c < 2 ^ 64 \<Longrightarrow> fills (length c) (opened (of_nat (length c)) s)"
  by (simp add: fills_def unat_length)

lemma iface_ok:
  assumes "val_ok (TInterface n) ts v"
  shows "n = 0 \<and> ((\<exists>vs. v = VIface (Some (ifaceSlice, VList vs)) \<and> list_all (val_ok (TInterface 0) no_tags) vs) \<or>
    (\<exists>b. v = VIface (Some (TSlice (TUint 8), VBytes b))))"
  using assms by (auto split: rval.splits option.splits prod.splits)

lemma val_ok_nonempty:
  "val_ok t ts v \<Longrightarrow> safe t \<Longrightarrow> \<not> tail_slice t ts \<Longrightarrow> rlp_enc t ts v \<noteq> []"
proof (induction t arbitrary: ts v rule: safe.induct)
  case (2 t)
  show ?case
  proof (cases "\<exists>v'. v = VPtr (Some v')")
    case True
    then show ?thesis using 2 by (cases "t = TBigInt") (auto simp: enc_string_not_Nil split: rval.splits)
  next
    case False
    then show ?thesis using 2(2) enc_string_not_Nil enc_List_not_Nil
      by (auto split: rval.splits option.splits simp del: enc_value.simps)
  qed
next
  case (6 n)
  then show ?case using iface_ok [OF 6(1)] enc_string_not_Nil enc_List_not_Nil
    by (auto simp del: enc_value.simps val_ok.simps)
qed (auto simp: enc_string_not_Nil enc_List_not_Nil raw_not_Nil simp del: enc_value.simps
    split: rval.splits sum.splits if_splits)

section \<open>Completeness\<close>

definition fits :: "nat \<Rightarrow> byte list \<Rightarrow> Stream \<Rightarrow> bool" where
  "fits n b s = (st_kind s = None \<and> (\<exists>r. st_input s = b @ r) \<and> room (length b) s \<and> length b \<le> 2 ^ 48 \<and> length b \<le> n)"

definition complete_value :: "nat \<Rightarrow> rtype \<Rightarrow> tags \<Rightarrow> bool" where
  "complete_value n t ts = (\<forall>s v. val_ok t ts v \<longrightarrow> safe t \<longrightarrow> fits n (rlp_enc t ts v) s \<longrightarrow>
     (tail_slice t ts \<longrightarrow> fills (length (rlp_enc t ts v)) s \<and> length (rlp_enc t ts v) < n) \<longrightarrow>
     (tail ts \<longrightarrow> isSlice t) \<longrightarrow> (nilOK ts \<longrightarrow> nilKind ts \<noteq> Byte) \<longrightarrow>
     (\<exists>s'. decode_value n t ts s = Some (Inr v, s') \<and> takes (rlp_enc t ts v) s s'))"

definition complete_elems :: "nat \<Rightarrow> rtype \<Rightarrow> rval list \<Rightarrow> bool" where
  "complete_elems n e vs = (\<forall>s us. list_all (val_ok e no_tags) us \<longrightarrow> safe e \<longrightarrow> fits n (rlp_elems e us) s \<longrightarrow>
     fills (length (rlp_elems e us)) s \<longrightarrow> length (rlp_elems e us) < n \<longrightarrow>
     (\<exists>s'. decodeSliceElems n e vs s = Some (Inr (vs @ us), s') \<and> takes (rlp_elems e us) s s'))"

definition complete_array :: "nat \<Rightarrow> nat \<Rightarrow> rtype \<Rightarrow> rval list \<Rightarrow> bool" where
  "complete_array n k e vs = (\<forall>s us. list_all (val_ok e no_tags) us \<longrightarrow> safe e \<longrightarrow> fits n (rlp_elems e us) s \<longrightarrow>
     length us = k \<longrightarrow>
     (\<exists>s'. decodeArrayElems n k e vs s = Some (Inr (vs @ us), s') \<and> takes (rlp_elems e us) s s'))"

definition complete_fields :: "nat \<Rightarrow> sfield list \<Rightarrow> rval list \<Rightarrow> bool" where
  "complete_fields n fl vs = (\<forall>s us. fields_ok fl us \<longrightarrow> list_all (\<lambda>(i, t, ts). safe t) fl \<longrightarrow> field_tags_ok fl \<longrightarrow>
     distinct (map fst fl) \<longrightarrow> length us = length vs \<longrightarrow> fits n (rlp_fields fl us) s \<longrightarrow>
     fills (length (rlp_fields fl us)) s \<longrightarrow> length (rlp_fields fl us) < n \<longrightarrow>
     (\<exists>s' vs'. decodeFields n fl vs s = Some (Inr vs', s') \<and> takes (rlp_fields fl us) s s' \<and> length vs' = length vs \<and>
        (\<forall>j. vs' ! j = (if j \<in> set (map fst fl) then us ! j else vs ! j))))"

lemma fits_append:
  assumes "fits n (a @ b) s" "takes a s s'"
  shows "fits (n - length a) b s'"
proof -
  have "adv (length a) s s'" using assms(2) by (simp add: takes_def)
  then have "room (length b) s'" using assms(1) room_adv [of "length a" "length b" s s'] by (simp add: fits_def)
  moreover have "st_kind s' = None" by (rule takes_kind [OF assms(2)])
  moreover from assms have "\<exists>r. st_input s' = b @ r" by (auto simp: fits_def takes_def)
  ultimately show ?thesis using assms(1) by (auto simp: fits_def)
qed

lemma fits_prefix: "fits n (a @ b) s \<Longrightarrow> m \<le> n \<Longrightarrow> length a \<le> m \<Longrightarrow> fits m a s"
  by (auto simp: fits_def intro: room_mono)

lemma fits_mono: "fits n a s \<Longrightarrow> length a \<le> m \<Longrightarrow> fits m a s"
  by (auto simp: fits_def)

text \<open>An encoded list is opened, its content fits inside, and it is closed again.\<close>

lemma fits_list:
  assumes "fits n (enc_value List c) s"
  shows "Stream_List s = (Inr (of_nat (length c)), opened (of_nat (length c)) s) \<and>
    fits n c (opened (of_nat (length c)) s) \<and> fills (length c) (opened (of_nat (length c)) s) \<and> length c < n \<and>
    (\<forall>s2. takes c (opened (of_nat (length c)) s) s2 \<longrightarrow>
       (\<exists>s3. Stream_ListEnd s2 = (Inr (), s3) \<and> takes (enc_value List c) s s3))"
proof -
  let ?o = "opened (of_nat (length c)) s"
  from assms obtain r where r: "st_input s = enc_value List c @ r" "st_kind s = None" "room (length (enc_value List c)) s"
    and n: "length (enc_value List c) \<le> n" "length (enc_value List c) \<le> 2 ^ 48" by (auto simp: fits_def simp del: enc_value.simps)
  have lc: "length c < length (enc_value List c)" by (rule length_enc_List)
  then have l: "length c < 2 ^ 64" using n(2) by (simp del: enc_value.simps)
  note L = list_complete [OF r(2,1,3) l]
  have "length c \<le> 2 ^ 48" "length c \<le> n" using lc n by (meson le_trans less_imp_le)+
  then have "fits n c ?o" using L unfolding fits_def opened_simps(1) by blast
  then show ?thesis using L fills_opened [OF l] lc n(1) unfolding takes_def by (meson order.strict_trans2)
qed

lemma complete_slice:
  assumes "complete_elems n e []" "fits n (enc_value List (rlp_elems e us)) s" "list_all (val_ok e no_tags) us" "safe e"
  shows "\<exists>s'. bindD (mapErrD wrapStreamError (liftD Stream_List)) (\<lambda>sz.
      if sz = 0 then bindD (liftD Stream_ListEnd) (\<lambda>_. liftD (returnS (g [])))
      else bindD (decodeSliceElems n e []) (\<lambda>vs.
             bindD (liftD Stream_ListEnd) (\<lambda>_. liftD (returnS (g vs))))) s = Some (Inr (g us), s') \<and>
    takes (enc_value List (rlp_elems e us)) s s'"
proof -
  let ?c = "rlp_elems e us" let ?o = "opened (of_nat (length ?c)) s"
  note L = fits_list [OF assms(2)]
  have "length ?c < 2 ^ 64" using L by (auto simp: fits_def)
  then have z: "(of_nat (length ?c) :: u64) = 0 \<longleftrightarrow> ?c = []"
    by (metis unat_length unat_eq_0 length_0_conv)
  show ?thesis
  proof (cases "?c = []")
    case True
    have "us = []"
    proof (rule ccontr)
      assume "us \<noteq> []"
      then obtain u us' where "us = u # us'" by (cases us) auto
      then show False using True assms(3,4) val_ok_nonempty [of e no_tags u] by simp
    qed
    have "takes ?c ?o ?o" using True takes_refl [of ?o] by simp
    then obtain s3 where "Stream_ListEnd ?o = (Inr (), s3)" "takes (enc_value List ?c) s s3" using L by blast
    then show ?thesis using L z True \<open>us = []\<close> by (simp del: enc_value.simps)
  next
    case False
    obtain s2 where s2: "decodeSliceElems n e [] ?o = Some (Inr us, s2)" "takes ?c ?o s2"
      using assms(1) [unfolded complete_elems_def] L assms(3,4) by fastforce
    then obtain s3 where "Stream_ListEnd s2 = (Inr (), s3)" "takes (enc_value List ?c) s s3" using L by blast
    then show ?thesis using L z False s2(1) by (simp del: enc_value.simps)
  qed
qed

text \<open>A nil pointer with a \<^verbatim>\<open>nil\<close> tag.\<close>

lemma complete_nil:
  assumes "fits n (rlp_enc (TPtr t) ts (VPtr None)) s" "t \<noteq> TBigInt" "nilOK ts" "nilKind ts \<noteq> Byte"
  shows "\<exists>s'. decode_value n (TPtr t) ts s = Some (Inr (VPtr None), s') \<and> takes (rlp_enc (TPtr t) ts (VPtr None)) s s'"
proof -
  let ?k = "nilKind ts"
  have e: "rlp_enc (TPtr t) ts (VPtr None) = hdr ?k 0 0"
    using assms(2-4) enc_uint_0 by (cases ?k) (simp_all add: ptr_nil_kind_def uint_bytes_def)
  have ok: "hdr_ok ?k 0 0" using assms(4) by (cases ?k) simp_all
  from assms(1) e obtain r where r: "st_input s = hdr ?k 0 0 @ r" "st_kind s = None" "room (length (hdr ?k 0 0)) s"
    by (auto simp: fits_def)
  have "Stream_Kind s = (Inr (?k, 0), peeked ?k 0 0 s)"
    unfolding Kind_iff [OF r(2)] using ok r kind_roomI [of "length (hdr ?k 0 0)" "unat (0 :: u64)" s] by auto
  then have "decode_value n (TPtr t) ts s = Some (Inr (VPtr None), (peeked ?k 0 0 s)\<lparr>st_kind := None\<rparr>)"
    using assms(2-4) by (simp add: rearm_def)
  then show ?thesis unfolding e using takesI [OF r(1)] adv_rearm [of ?k 0 0 s] by blast
qed

lemma hd_head_bytes_List: "0xC0 \<le> hd (head_bytes 0xC0 0xF7 b)"
proof (cases "b < 56")
  case True
  then show ?thesis using short_tag_back(4) [OF True] by (simp add: head_bytes_def)
next
  case False
  then show ?thesis using long_tags(5) [of "intsize b"] intsize_pos [of b] intsize_le [of b]
    by (simp add: long_head_bytes not_less word_le_nat_alt)
qed

lemma hd_head_bytes: "hd (head_bytes 0x80 0xB7 a) \<noteq> hd (head_bytes 0xC0 0xF7 b)"
proof -
  have s: "hd (head_bytes 0x80 0xB7 a) < 0xC0"
  proof (cases "a < 56")
    case True
    then show ?thesis using short_tag_back(2) [OF True] by (simp add: head_bytes_def word_less_nat_alt)
  next
    case False
    then show ?thesis using long_tags(4) [of "intsize a"] intsize_pos [of a] intsize_le [of a]
      by (simp add: long_head_bytes not_less)
  qed
  with hd_head_bytes_List [of b] show ?thesis by auto
qed

text \<open>An encoding is one value; what is not an empty value is not taken for one.\<close>

lemma raw_ok_List: "length c < 2 ^ 64 \<Longrightarrow> raw_ok (enc_value List c)"
  unfolding raw_ok_def by (intro disjI2 exI [of _ List] exI [of _ c]) simp

lemma raw_ok_string: "length b < 2 ^ 64 \<Longrightarrow> raw_ok (enc_string b)"
proof (cases "length b = 1 \<and> hd b < 0x80")
  case True
  then have "enc_string b = [hd b]" using enc_string_Byte [of "hd b"] single_byte [of b] by metis
  then show ?thesis using True by (simp add: raw_ok_def)
next
  case False
  assume "length b < 2 ^ 64"
  then show ?thesis unfolding enc_string_String [OF False] raw_ok_def
    by (intro disjI2 exI [of _ String] exI [of _ b]) simp
qed

lemma raw_enc_string: "length (enc_string b) < 2 ^ 64 \<Longrightarrow> raw_ok (enc_string b)"
  using raw_ok_string length_enc_string [of b] by simp

lemma raw_enc_List: "length (enc_value List c) < 2 ^ 64 \<Longrightarrow> raw_ok (enc_value List c)"
  using raw_ok_List length_enc_List [of c] by (simp del: enc_value.simps)

lemma val_raw_ok:
  "val_ok t ts v \<Longrightarrow> safe t \<Longrightarrow> \<not> tail_slice t ts \<Longrightarrow> length (rlp_enc t ts v) < 2 ^ 64 \<Longrightarrow> raw_ok (rlp_enc t ts v)"
proof (induction t arbitrary: ts v rule: safe.induct)
  case (2 t)
  show ?case
  proof (cases "\<exists>v'. v = VPtr (Some v')")
    case True
    then show ?thesis using 2 by (cases "t = TBigInt") (auto simp: raw_enc_string split: rval.splits)
  next
    case False
    then show ?thesis using 2(2,5) raw_enc_string raw_enc_List
      by (auto split: rval.splits option.splits simp del: enc_value.simps)
  qed
next
  case (6 n)
  then show ?case using iface_ok [OF 6(1)] raw_enc_string raw_enc_List
    by (auto simp del: enc_value.simps val_ok.simps)
qed (auto simp: raw_enc_string raw_enc_List simp del: enc_value.simps
    split: rval.splits sum.splits if_splits)

lemma raw_kind:
  assumes "raw_ok b" "fits n b s"
  shows "\<exists>k sz s1. Stream_Kind s = (Inr (k, sz), s1) \<and> (k \<noteq> Byte \<and> sz = 0 \<longrightarrow> b \<in> {enc_string [], enc_value List []}) \<and>
    (k = List \<longleftrightarrow> (\<exists>c. b = enc_value List c))"
proof -
  from assms(2) obtain r where r: "st_input s = b @ r" "st_kind s = None" "room (length b) s" by (auto simp: fits_def)
  from assms(1) show ?thesis unfolding raw_ok_def
  proof (elim disjE exE conjE)
    fix v assume v: "v < 0x80" "b = [v]"
    have "hdr_ok Byte 0 v" "st_input s = hdr Byte 0 v @ r" "kind_room (length (hdr Byte 0 v)) (unat (0 :: u64)) s"
      using v r by (auto intro: kind_roomI)
    then have "Stream_Kind s = (Inr (Byte, 0), peeked Byte 0 v s)" using Kind_iff [OF r(2)] by blast
    moreover have "b \<noteq> enc_value List c" for c
    proof
      assume e: "b = enc_value List c"
      have "length (enc_value List c) = 1" unfolding e [symmetric] v(2) by simp
      then have "c = []" using length_enc_List [of c] by (simp del: enc_value.simps)
      then show False using e v by (simp add: head_bytes_def)
    qed
    ultimately show ?thesis by simp
  next
    fix k c assume k: "k \<noteq> Byte" "length c < 2 ^ 64" "b = hdr k (of_nat (length c)) 0 @ c"
    let ?sz = "of_nat (length c) :: u64"
    have u: "unat ?sz = length c" using k(2) by (rule unat_length)
    have "hdr_ok k ?sz 0" "st_input s = hdr k ?sz 0 @ c @ r" "kind_room (length (hdr k ?sz 0)) (unat ?sz) s"
      using k r u kind_roomI [of "length (hdr k ?sz 0)" "length c" s] by (cases k; simp)+
    then have K: "Stream_Kind s = (Inr (k, ?sz), peeked k ?sz 0 s)" using Kind_iff [OF r(2)] by blast
    have e: "b \<in> {enc_string [], enc_value List []}" if "?sz = 0"
    proof -
      have "c = []" using that u by simp
      then show ?thesis using k enc_string_String [of "[]"] by (cases k) simp_all
    qed
    have "k = List \<longleftrightarrow> (\<exists>c. b = enc_value List c)"
    proof
      show "k = List \<Longrightarrow> \<exists>c. b = enc_value List c" using k(3) by auto
    next
      assume "\<exists>c. b = enc_value List c"
      then obtain c' where c': "b = enc_value List c'" by blast
      show "k = List"
      proof (rule ccontr)
        assume "k \<noteq> List"
        then have "k = String" using k(1) by (cases k) auto
        have ne: "head_bytes a l x \<noteq> []" for a l x by (simp add: head_bytes_def Let_def)
        have "hd b = hd (head_bytes 0x80 0xB7 ?sz)" unfolding k(3) \<open>k = String\<close> using ne by simp
        moreover have "hd b = hd (head_bytes 0xC0 0xF7 (of_nat (length c')))" unfolding c' using ne by simp
        ultimately
        show False using hd_head_bytes by metis
      qed
    qed
    then show ?thesis using K e by auto
  qed
qed

lemma fits_simps:
  assumes "fits n b s"
  obtains r where "st_kind s = None" "st_input s = b @ r" "room (length b) s" "length b \<le> 2 ^ 48" "length b \<le> n"
  using assms by (auto simp: fits_def)

lemma fits_bytes: "fits n (enc_string b) s \<Longrightarrow> \<exists>s'. Stream_Bytes s = (Inr b, s') \<and> takes (enc_string b) s s'"
  by (erule fits_simps) (rule Bytes_complete, assumption+, meson le_trans length_enc_string)

lemma fits_big:
  "fits n (enc_string (big_bytes i)) s \<Longrightarrow> 0 \<le> i \<Longrightarrow>
   \<exists>s'. decodeBigInt s = Some (Inr i, s') \<and> takes (enc_string (big_bytes i)) s s'"
  by (erule fits_simps) (rule decodeBigInt_complete, assumption+, meson le_trans length_enc_string, assumption)

lemma complete_ptr:
  assumes "complete_value n t no_tags" "safe t" "val_ok t no_tags v" "fits n (rlp_enc t no_tags v) s"
  shows "\<exists>s'. decode_value n t no_tags s = Some (Inr v, s') \<and> takes (rlp_enc t no_tags v) s s'"
  using assms unfolding complete_value_def by simp

lemma complete_some:
  assumes "complete_value n t no_tags" "safe t" "val_ok t no_tags v" "fits n (rlp_enc t no_tags v) s"
    "t \<noteq> TBigInt" "nilOK ts \<longrightarrow> rlp_enc t no_tags v \<notin> {enc_string [], enc_value List []}"
  shows "\<exists>s'. decode_value n (TPtr t) ts s = Some (Inr (VPtr (Some v)), s') \<and> takes (rlp_enc t no_tags v) s s'"
proof -
  from complete_ptr [OF assms(1-4)] obtain s' where d: "decode_value n t no_tags s = Some (Inr v, s')"
    "takes (rlp_enc t no_tags v) s s'" by blast
  show ?thesis
  proof (cases "nilOK ts")
    case False
    then show ?thesis using d assms(5) by simp
  next
    case True
    have "length (rlp_enc t no_tags v) < 2 ^ 64" using assms(4) by (auto simp: fits_def)
    then have "raw_ok (rlp_enc t no_tags v)" using val_raw_ok [OF assms(3,2)] by simp
    from raw_kind [OF this assms(4)] obtain k sz s1 where K: "Stream_Kind s = (Inr (k, sz), s1)"
      "\<not> (k \<noteq> Byte \<and> sz = 0)" using assms(6) True by blast
    have "decode_value n t no_tags s1 = Some (Inr v, s')"
      using decode_peek [OF assms(2), of no_tags n s] K(1) d(1) by simp
    then show ?thesis using K True assms(5) d(2) by auto
  qed
qed

lemma decode_complete:
  shows "complete_value n t ts" and "complete_elems n e vs" and "complete_array n k e vs" and "complete_fields n fl vs"
proof (induction n t ts and n e vs and n k e vs and n fl vs
    rule: decode_value_decodeSliceElems_decodeArrayElems_decodeFields.induct)
  case (1 n ts)
  show ?case
    unfolding complete_value_def
  proof (intro allI impI)
    fix s v assume a: "val_ok TRawValue ts v" "fits n (rlp_enc TRawValue ts v) s"
    then obtain b where b: "v = VBytes b" "raw_ok b" "fits n b s" by (auto split: rval.splits)
    then obtain s' where "Stream_Raw s = (Inr b, s')" "takes b s s'" by (elim fits_simps) (meson Raw_complete)
    then show "\<exists>s'. decode_value n TRawValue ts s = Some (Inr v, s') \<and> takes (rlp_enc TRawValue ts v) s s'"
      using b by (simp add: decodeRawValue_def)
  qed
next
  case (2 n t ts)
  show ?case
    unfolding complete_value_def
  proof (intro allI impI)
    fix s v assume a: "val_ok (TPtr t) ts v" "safe (TPtr t)" "fits n (rlp_enc (TPtr t) ts v) s" "nilOK ts \<longrightarrow> nilKind ts \<noteq> Byte"
    show "\<exists>s'. decode_value n (TPtr t) ts s = Some (Inr v, s') \<and> takes (rlp_enc (TPtr t) ts v) s s'"
    proof (cases "v = VPtr None")
      case True
      then show ?thesis using complete_nil [of n t ts s] a by (simp del: decode_value.simps rlp_enc.simps)
    next
      case False
      then obtain v' where v: "v = VPtr (Some v')" "val_ok t no_tags v'"
        "t \<noteq> TBigInt \<and> nilOK ts \<longrightarrow> rlp_enc t no_tags v' \<notin> {enc_string [], enc_value List []}"
        using a(1) by (auto split: rval.splits option.splits simp del: enc_value.simps)
      have f: "fits n (rlp_enc t no_tags v') s" using a(3) v(1) by simp
      show ?thesis
      proof (cases "t = TBigInt")
        case True
        then obtain i where i: "v' = VBig i" "0 \<le> i" using v(2) by (auto split: rval.splits)
        then show ?thesis using fits_big [of n i s] f v(1) True by auto
      next
        case F: False
        then have sf: "safe t" using a(2) by simp
        have "complete_value n t no_tags" using 2(1) 2(2) [of Byte 1] F by (cases "nilOK ts") auto
        from complete_some [OF this sf v(2) f F, of ts] show ?thesis
          using v F by (simp del: decode_value.simps enc_value.simps)
      qed
    qed
  qed
next
  case (3 n ts)
  show ?case
    unfolding complete_value_def
  proof (intro allI impI)
    fix s v assume a: "val_ok TBigInt ts v" "fits n (rlp_enc TBigInt ts v) s"
    then obtain i where "v = VBig i" "0 \<le> i" by (auto split: rval.splits)
    then show "\<exists>s'. decode_value n TBigInt ts s = Some (Inr v, s') \<and> takes (rlp_enc TBigInt ts v) s s'"
      using a(2) fits_big [of n i s] by auto
  qed
next
  case (4 n b ts)
  show ?case
    unfolding complete_value_def
  proof (intro allI impI)
    fix s v assume a: "val_ok (TUint b) ts v" "safe (TUint b)" "fits n (rlp_enc (TUint b) ts v) s"
    then obtain i where i: "v = VUint i" "uint_fits b i" by (auto split: rval.splits)
    then have f: "fits n (enc_string (uint_bytes i)) s" using a(3) by simp
    have b: "8 \<le> b" "b \<le> 64" using uint_fits_safe [OF a(2)] by simp_all
    from f obtain s' where "Stream_uint b s = (Inr i, s')" "takes (enc_string (uint_bytes i)) s s'"
      by (elim fits_simps) (meson uint_complete [OF _ _ _ i(2) b])
    then show "\<exists>s'. decode_value n (TUint b) ts s = Some (Inr v, s') \<and> takes (rlp_enc (TUint b) ts v) s s'"
      using i by (simp add: decodeUint_def)
  qed
next
  case (5 n ts)
  show ?case
    unfolding complete_value_def
  proof (intro allI impI)
    fix s v assume a: "val_ok TBool ts v" "fits n (rlp_enc TBool ts v) s"
    then obtain b where b: "v = VBool b" by (auto split: rval.splits)
    let ?e = "enc_string (uint_bytes (if b then 1 else 0))"
    have "fits n ?e s" using a(2) b by simp
    then obtain s' where "Stream_Bool s = (Inr b, s')" "takes ?e s s'"
      by (elim fits_simps) (meson Bool_complete)
    then show "\<exists>s'. decode_value n TBool ts s = Some (Inr v, s') \<and> takes (rlp_enc TBool ts v) s s'"
      using b by (simp add: decodeBool_def)
  qed
next
  case (6 n ts)
  show ?case
    unfolding complete_value_def
  proof (intro allI impI)
    fix s v assume a: "val_ok TString ts v" "fits n (rlp_enc TString ts v) s"
    then obtain b where b: "v = VBytes b" by (auto split: rval.splits)
    then show "\<exists>s'. decode_value n TString ts s = Some (Inr v, s') \<and> takes (rlp_enc TString ts v) s s'"
      using a(2) fits_bytes [of n b s] by (auto simp: decodeString_def)
  qed
next
  case (7 n e ts)
  show ?case
    unfolding complete_value_def
  proof (intro allI impI)
    fix s v assume a: "val_ok (TSlice e) ts v" "safe (TSlice e)" "fits n (rlp_enc (TSlice e) ts v) s"
      "tail_slice (TSlice e) ts \<longrightarrow> fills (length (rlp_enc (TSlice e) ts v)) s \<and> length (rlp_enc (TSlice e) ts v) < n"
    show "\<exists>s'. decode_value n (TSlice e) ts s = Some (Inr v, s') \<and> takes (rlp_enc (TSlice e) ts v) s s'"
    proof (cases "isByte e")
      case True
      then obtain b where b: "v = VBytes b" using a(1) by (auto split: rval.splits)
      then show ?thesis using a(3) fits_bytes [of n b s] True by (auto simp: decodeByteSlice_def)
    next
      case B: False
      then obtain us where v: "v = VList us" "list_all (val_ok e no_tags) us" and sf: "safe e"
        using a(1,2) by (auto split: rval.splits)
      show ?thesis
      proof (cases "tail ts")
        case True
        then have "\<exists>s'. decodeSliceElems n e [] s = Some (Inr us, s') \<and> takes (rlp_elems e us) s s'"
          using 7(1) [OF B True, unfolded complete_elems_def] v sf a(3,4) B by fastforce
        then show ?thesis using v True B by auto
      next
        case False
        have "fits n (enc_value List (rlp_elems e us)) s" using a(3) v(1) False by (simp del: enc_value.simps)
        from complete_slice [where g = VList, OF 7(2) [OF B False, of 1] this v(2) sf]
        show ?thesis using v(1) B False by (simp del: dec_simps enc_value.simps)
      qed
    qed
  qed
next
  case (8 n k e ts)
  show ?case
    unfolding complete_value_def
  proof (intro allI impI)
    fix s v assume a: "val_ok (TArray k e) ts v" "safe (TArray k e)" "fits n (rlp_enc (TArray k e) ts v) s"
    have nt: "\<not> tail ts" using a(1) by simp
    show "\<exists>s'. decode_value n (TArray k e) ts s = Some (Inr v, s') \<and> takes (rlp_enc (TArray k e) ts v) s s'"
    proof (cases "isByte e")
      case True
      then obtain b where b: "v = VBytes b" "length b = k" using a(1) by (auto split: rval.splits)
      have k: "fits n (enc_string b) s" "k \<noteq> 1" "k < 2 ^ 64" using a(2,3) b True by simp_all
      from k(1) obtain r where r: "st_kind s = None" "st_input s = enc_string b @ r" "room (length (enc_string b)) s"
        by (rule fits_simps)
      show ?thesis using decodeByteArray_complete [OF r b(2) k(2,3)] b True by simp
    next
      case B: False
      then obtain us where v: "v = VList us" "length us = k" "list_all (val_ok e no_tags) us" and sf: "safe e"
        using a(1,2) by (auto split: rval.splits)
      let ?c = "rlp_elems e us" let ?o = "opened (of_nat (length ?c)) s"
      have "fits n (enc_value List ?c) s" using a(3) v(1) nt by (simp del: enc_value.simps)
      note L = fits_list [OF this]
      obtain s2 where s2: "decodeArrayElems n k e [] ?o = Some (Inr us, s2)" "takes ?c ?o s2"
        using 8 [OF B, unfolded complete_array_def] L v(2,3) sf by fastforce
      then obtain s3 where "Stream_ListEnd s2 = (Inr (), s3)" "takes (enc_value List ?c) s s3" using L by blast
      then show ?thesis using L s2(1) v(1) B nt by (simp del: enc_value.simps)
    qed
  qed
next
  case (9 n fs ts)
  show ?case
    unfolding complete_value_def
  proof (intro allI impI)
    fix s v assume a: "val_ok (TStruct fs) ts v" "safe (TStruct fs)" "fits n (rlp_enc (TStruct fs) ts v) s"
    obtain fl where fl: "structFields fs = Inr fl" "list_all (\<lambda>(i, t, ts). safe t) fl" using a(2) by (auto split: sum.splits)
    then obtain us where v: "v = VStruct us" "length us = length fs" "fields_ok fl us"
      "\<forall>j < length fs. j \<in> set (map fst fl) \<or> us ! j = zero_field (fs ! j)"
      using a(1) by (auto simp: list_all_iff split: rval.splits)
    let ?c = "rlp_fields fl us" let ?o = "opened (of_nat (length ?c)) s"
    have "fits n (enc_value List ?c) s" using a(3) v(1) fl(1) by (simp del: enc_value.simps)
    note L = fits_list [OF this]
    obtain s2 vs' where s2: "decodeFields n fl (map zero_field fs) ?o = Some (Inr vs', s2)" "takes ?c ?o s2"
      "length vs' = length fs" "\<forall>j. vs' ! j = (if j \<in> set (map fst fl) then us ! j else map zero_field fs ! j)"
      using 9 [OF fl(1), unfolded complete_fields_def] L v(2,3) fl structFields_tags [OF fl(1)] structFields_idx(1) [OF fl(1)]
      by (metis length_map)
    have "vs' = us"
      using s2(3,4) v(2,4) by (intro nth_equalityI) (simp_all, metis nth_map)
    moreover obtain s3 where "Stream_ListEnd s2 = (Inr (), s3)" "takes (enc_value List ?c) s s3" using L s2(2) by blast
    ultimately show "\<exists>s'. decode_value n (TStruct fs) ts s = Some (Inr v, s') \<and> takes (rlp_enc (TStruct fs) ts v) s s'"
      using L s2(1) v(1) fl(1) by (simp del: enc_value.simps)
  qed
next
  case (10 n m ts)
  show ?case
    unfolding complete_value_def
  proof (intro allI impI)
    fix s v assume a: "val_ok (TInterface m) ts v" "safe (TInterface m)" "fits n (rlp_enc (TInterface m) ts v) s"
    from iface_ok [OF a(1)] have m: "m = 0" by simp
    have "length (rlp_enc (TInterface m) ts v) < 2 ^ 64" using a(3) by (auto simp: fits_def)
    then have "raw_ok (rlp_enc (TInterface m) ts v)" using val_raw_ok [OF a(1,2)] by (simp add: tail_slice_def)
    from raw_kind [OF this a(3)] obtain k sz s1 where K: "Stream_Kind s = (Inr (k, sz), s1)"
      "k = List \<longleftrightarrow> (\<exists>c. rlp_enc (TInterface m) ts v = enc_value List c)" by blast
    have P: "Stream_List s1 = Stream_List s" "Stream_Bytes s1 = Stream_Bytes s" using ops_peek(1,4) [of s] K(1) by simp_all
    from iface_ok [OF a(1)] consider (l) us where "v = VIface (Some (ifaceSlice, VList us))" "list_all (val_ok (TInterface 0) no_tags) us"
      | (b) b where "v = VIface (Some (TSlice (TUint 8), VBytes b))" by blast
    then show "\<exists>s'. decode_value n (TInterface m) ts s = Some (Inr v, s') \<and> takes (rlp_enc (TInterface m) ts v) s s'"
    proof cases
      case l
      let ?e = "enc_value List (rlp_elems (TInterface 0) us)"
      have e: "rlp_enc (TInterface m) ts v = ?e" using l(1) by (simp del: enc_value.simps)
      then have k: "k = List" using K(2) by blast
      have E: "complete_elems n (TInterface 0) []" using 10 [of List 1] m by simp
      have f: "fits n ?e s" using a(3) unfolding e .
      from complete_slice [where g = "\<lambda>vs. VIface (Some (ifaceSlice, VList vs))", OF E f l(2)]
      show ?thesis unfolding e using l(1) m K(1) P(1) k by (simp del: enc_value.simps)
    next
      case b
      have e: "rlp_enc (TInterface m) ts v = enc_string b" using b by simp
      have "hd (enc_string b) \<noteq> hd (enc_value List c)" for c
      proof (cases "length b = 1 \<and> hd b < 0x80")
        case True
        then have "hd (enc_string b) < 0x80" using enc_string_Byte [of "hd b"] single_byte [of b] by (metis list.sel(1))
        moreover have "0xC0 \<le> hd (enc_value List c)" using hd_head_bytes_List by (simp add: head_bytes_def Let_def)
        ultimately show ?thesis by (auto simp: word_less_nat_alt word_le_nat_alt)
      next
        case False
        then show ?thesis unfolding enc_string_String [OF False] using hd_head_bytes by (simp add: head_bytes_def Let_def)
      qed
      then have "k \<noteq> List" using K(2) e by metis
      moreover obtain s' where "Stream_Bytes s = (Inr b, s')" "takes (enc_string b) s s'"
        using fits_bytes [of n b s] a(3) e by auto
      ultimately show ?thesis unfolding e using b m K(1) P(2) by simp
    qed
  qed
next
  case (12 e vs)
  then show ?case by (simp add: complete_elems_def)
next
  case (13 n e vs)
  show ?case
    unfolding complete_elems_def
  proof (intro allI impI)
    fix s us assume a: "list_all (val_ok e no_tags) us" "safe e" "fits (Suc n) (rlp_elems e us) s"
      "fills (length (rlp_elems e us)) s" "length (rlp_elems e us) < Suc n"
    show "\<exists>s'. decodeSliceElems (Suc n) e vs s = Some (Inr (vs @ us), s') \<and> takes (rlp_elems e us) s s'"
    proof (cases us)
      case Nil
      have k: "st_kind s = None" using a(3) by (auto simp: fits_def)
      have "at_list_end s" using a(4) Nil fills_end by simp
      from decode_at_end [OF this k a(2), of no_tags n]
      show ?thesis using Nil takes_end [OF refl k] by simp
    next
      case (Cons v us')
      let ?b = "rlp_enc e no_tags v" let ?r = "rlp_elems e us'"
      have ok: "val_ok e no_tags v" "list_all (val_ok e no_tags) us'" using a(1) Cons by simp_all
      have ne: "0 < length ?b" using val_ok_nonempty [OF ok(1) a(2)] by simp
      have f: "fits (Suc n) (?b @ ?r) s" "length ?b + length ?r \<le> n" using a(3,5) Cons by simp_all
      have "fits n ?b s" using f by (intro fits_prefix [OF f(1)]) simp_all
      then obtain s1 where s1: "decode_value n e no_tags s = Some (Inr v, s1)" "takes ?b s s1"
        using 13(1) [unfolded complete_value_def] ok(1) a(2) by fastforce
      have f1: "fits n ?r s1" using f(2) by (intro fits_mono [OF fits_append [OF f(1) s1(2)]]) simp
      have g1: "fills (length ?r) s1" using fills_adv [of "length ?b" "length ?r" s s1] a(4) Cons s1(2) by (simp add: takes_def)
      have l1: "length ?r < n" using f(2) ne by linarith
      obtain s' where "decodeSliceElems n e (vs @ [v]) s1 = Some (Inr ((vs @ [v]) @ us'), s')" "takes ?r s1 s'"
        using 13(2) [OF s1(1) refl refl, unfolded complete_elems_def] ok(2) a(2) f1 g1 l1 by blast
      then show ?thesis using Cons s1 takes_trans [OF s1(2)] by auto
    qed
  qed
next
  case (14 n e vs)
  show ?case
    unfolding complete_array_def
  proof (intro allI impI)
    fix s us assume a: "fits n (rlp_elems e us) s" "length us = 0"
    then show "\<exists>s'. decodeArrayElems n 0 e vs s = Some (Inr (vs @ us), s') \<and> takes (rlp_elems e us) s s'"
      using takes_refl [of s] by (simp add: fits_def)
  qed
next
  case (15 n k e vs)
  show ?case
    unfolding complete_array_def
  proof (intro allI impI)
    fix s us assume a: "list_all (val_ok e no_tags) us" "safe e" "fits n (rlp_elems e us) s" "length us = Suc k"
    then obtain v us' where Cons: "us = v # us'" by (cases us) auto
    let ?b = "rlp_enc e no_tags v" let ?r = "rlp_elems e us'"
    have ok: "val_ok e no_tags v" "list_all (val_ok e no_tags) us'" "length us' = k" using a(1,4) Cons by simp_all
    have f: "fits n (?b @ ?r) s" using a(3) Cons by simp
    then have l: "length ?b + length ?r \<le> n" by (simp add: fits_def)
    have "fits n ?b s" using l by (intro fits_prefix [OF f]) simp_all
    then obtain s1 where s1: "decode_value n e no_tags s = Some (Inr v, s1)" "takes ?b s s1"
      using 15(1) [unfolded complete_value_def] ok(1) a(2) by fastforce
    have f1: "fits n ?r s1" using l by (intro fits_mono [OF fits_append [OF f s1(2)]]) simp
    obtain s' where "decodeArrayElems n k e (vs @ [v]) s1 = Some (Inr ((vs @ [v]) @ us'), s')" "takes ?r s1 s'"
      using 15(2) [OF s1(1) refl refl, unfolded complete_array_def] ok(2,3) a(2) f1 by blast
    then show "\<exists>s'. decodeArrayElems n (Suc k) e vs s = Some (Inr (vs @ us), s') \<and> takes (rlp_elems e us) s s'"
      using Cons s1 takes_trans [OF s1(2)] by auto
  qed
next
  case (16 n vs)
  show ?case
    unfolding complete_fields_def
  proof (intro allI impI)
    fix s us assume a: "fits n (rlp_fields [] us) s"
    then show "\<exists>s' vs'. decodeFields n [] vs s = Some (Inr vs', s') \<and> takes (rlp_fields [] us) s s' \<and> length vs' = length vs \<and>
        (\<forall>j. vs' ! j = (if j \<in> set (map fst []) then us ! j else vs ! j))"
      using takes_refl [of s] by (simp add: fits_def)
  qed
next
  case (17 n i t ts fl vs)
  show ?case
    unfolding complete_fields_def
  proof (intro allI impI)
    fix s us assume a: "fields_ok ((i, t, ts) # fl) us" "list_all (\<lambda>(i, t, ts). safe t) ((i, t, ts) # fl)"
      "field_tags_ok ((i, t, ts) # fl)" "distinct (map fst ((i, t, ts) # fl))" "length us = length vs"
      "fits n (rlp_fields ((i, t, ts) # fl) us) s" "fills (length (rlp_fields ((i, t, ts) # fl) us)) s"
      "length (rlp_fields ((i, t, ts) # fl) us) < n"
    let ?b = "rlp_enc t ts (us ! i)" let ?r = "rlp_fields fl us"
    have i: "i < length us" "val_ok t ts (us ! i)" "fields_ok fl us" using a(1) by (auto split: if_splits)
    have f: "fits n (?b @ ?r) s" "fills (length ?b + length ?r) s" "length ?b + length ?r < n" using a(6-8) i(1) by simp_all
    have tg: "tail ts \<longrightarrow> isSlice t" "nilOK ts \<longrightarrow> nilKind ts \<noteq> Byte" "tail ts \<longrightarrow> fl = []" "field_tags_ok fl"
      using a(3) by (auto simp: field_tags_ok_def split: if_splits)
    have "fits n ?b s" using f(3) by (intro fits_prefix [OF f(1)]) simp_all
    moreover have "tail_slice t ts \<longrightarrow> fills (length ?b) s \<and> length ?b < n"
      using tg(3) f(2,3) by (auto simp: tail_slice_def split: rtype.splits)
    ultimately obtain s1 where s1: "decode_value n t ts s = Some (Inr (us ! i), s1)" "takes ?b s s1"
      using 17(1) [unfolded complete_value_def] i(2) a(2) tg(1,2) by fastforce
    have f1: "fits n ?r s1" using f(3) by (intro fits_mono [OF fits_append [OF f(1) s1(2)]]) simp
    have g1: "fills (length ?r) s1" using fills_adv [OF f(2)] s1(2) by (simp add: takes_def)
    obtain s' vs' where r: "decodeFields n fl (vs[i := us ! i]) s1 = Some (Inr vs', s')" "takes ?r s1 s'"
      "length vs' = length vs" "\<forall>j. vs' ! j = (if j \<in> set (map fst fl) then us ! j else vs[i := us ! i] ! j)"
      using 17(2) [OF s1(1) refl refl, unfolded complete_fields_def, rule_format, OF i(3) _ tg(4) _ _ f1 g1] a(2,4,5) f(3)
      by auto
    have "\<forall>j. vs' ! j = (if j \<in> set (map fst ((i, t, ts) # fl)) then us ! j else vs ! j)"
      using r(4) i(1) a(5) by auto
    moreover have "takes (rlp_fields ((i, t, ts) # fl) us) s s'" using takes_trans [OF s1(2) r(2)] i(1) by simp
    moreover have "decodeFields n ((i, t, ts) # fl) vs s = Some (Inr vs', s')" using s1(1) r(1) by simp
    ultimately show "\<exists>s' vs'. decodeFields n ((i, t, ts) # fl) vs s = Some (Inr vs', s') \<and>
        takes (rlp_fields ((i, t, ts) # fl) us) s s' \<and> length vs' = length vs \<and>
        (\<forall>j. vs' ! j = (if j \<in> set (map fst ((i, t, ts) # fl)) then us ! j else vs ! j))"
      using r(3) by blast
  qed
qed (simp add: complete_value_def)

text \<open>Decoding an encoded value.\<close>

lemma DecodeBytes_complete:
  assumes "val_ok t no_tags v" "safe t" "length (rlp_enc t no_tags v) \<le> 2 ^ 48" "length (rlp_enc t no_tags v) \<le> n"
  shows "DecodeBytes n (rlp_enc t no_tags v) t = Some (Inr v)"
proof -
  let ?b = "rlp_enc t no_tags v" let ?s = "NewStream ?b True (of_nat (length ?b))"
  have "length ?b < 2 ^ 64" using assms(3) by simp
  note u = unat_length [OF this]
  have "0 < length ?b" using val_ok_nonempty [OF assms(1,2)] by simp
  then have p: "(0 :: u64) < of_nat (length ?b)" using u by (simp add: word_less_nat_alt)
  have "room (length ?b) ?s" using u p by (simp add: room_def limit_room_def)
  then have "fits n ?b ?s" using assms(3,4) by (simp add: fits_def)
  then obtain s' where d: "decode_value n t no_tags ?s = Some (Inr v, s')" "takes ?b ?s s'"
    using decode_complete(1) [of n t no_tags, unfolded complete_value_def] assms(1,2) by fastforce
  have "st_input s' = []" using d(2) by (simp add: takes_def)
  then show ?thesis using d(1) by (simp add: DecodeBytes_def Stream_Decode_def safe_decoderErr [OF assms(2)])
qed

end
