(* ===== verification/RlpProps.thy ===== *)
theory RlpProps
  imports RlpComplete RlpEncProps
begin

text \<open>
  The properties of the RLP package: what the splitting functions accept, the three encoders
  against the byte string they denote, decoding against encoding in both directions, and
  the one type for which the decoder is not the inverse of the encoder.
\<close>

section \<open>An example type\<close>

definition example_type :: rtype where
  "example_type = TStruct
     [Field ''A'' True (TUint 64) '''',
      Field ''b'' False TBool '''',
      Field ''C'' True (TPtr TString) ''nil'',
      Field ''D'' True (TSlice (TSlice (TUint 8))) ''tail'']"

definition example_value :: rval where
  "example_value = VStruct [VUint 1024, VBool False, VPtr None, VList [VBytes [1], VBytes [2, 3]]]"

definition example_bytes :: "byte list" where
  "example_bytes = [0xC8, 0x82, 0x04, 0x00, 0x80, 0x01, 0x82, 0x02, 0x03]"

lemma example_encodes: "EncodeToBytes example_type example_value = Inr example_bytes"
  unfolding example_type_def example_value_def example_bytes_def by code_simp

lemma example_enc: "rlp_enc example_type no_tags example_value = example_bytes"
  unfolding example_type_def example_value_def example_bytes_def by code_simp

lemma example_safe: "safe example_type"
  unfolding example_type_def by code_simp

lemma example_decodes: "DecodeBytes 9 example_bytes example_type = Some (Inr example_value)"
  unfolding example_type_def example_value_def example_bytes_def by code_simp

lemma example_val_ok: "val_ok example_type no_tags example_value"
  using DecodeBytes_sound [OF example_decodes example_safe] by (simp add: example_bytes_def)

lemma example_encoded: "\<exists>w. encbuf_encode example_type example_value new_encbuf = Inr w"
  using example_encodes by (auto simp: EncodeToBytes_def elim!: bindE_InrE)

section \<open>Splitting\<close>

text \<open>C22 \<^verbatim>\<open>Split\<close> returns a kind, content and rest exactly when the input starts with
  the canonical encoding of that content: no other encoding of the same content is accepted.\<close>

theorem Split_canonical:
  assumes "length b < 2 ^ 64"
  shows "Split b = Inr (k, c, rest) \<longleftrightarrow> content_ok k c \<and> b = enc_value k c @ rest"
  by (rule Split_iff [OF assms])

theorem Split_canonical_witness:
  "Split [0x82, 0x04, 0x00, 0x07] = Inr (String, [0x04, 0x00], [0x07]) \<and> Split [0x81, 0x07] \<noteq> Inr (String, [0x07], [])"
  using Split_canonical [of "[0x82, 0x04, 0x00, 0x07]" String "[0x04, 0x00]" "[0x07]"]
    Split_canonical [of "[0x81, 0x07]" String "[0x07]" "[]"]
  by (simp add: head_bytes_def)

text \<open>\<^verbatim>\<open>CountValues\<close> returns \<open>n\<close> exactly when the input is the concatenation of \<open>n\<close> encoded
  values.\<close>

theorem CountValues_counts:
  assumes "length b < 2 ^ 64"
  shows "CountValues b = Inr n \<longleftrightarrow> (\<exists>vs. values_ok vs \<and> length vs = n \<and> b = enc_values vs)"
  by (rule CountValues_iff [OF assms])

theorem CountValues_counts_witness:
  "CountValues [0xC1, 0x80, 0x07] = Inr 2 \<longleftrightarrow>
     (\<exists>vs. values_ok vs \<and> length vs = 2 \<and> [0xC1, 0x80, 0x07] = enc_values vs)"
  by (rule CountValues_counts [of "[0xC1, 0x80, 0x07]" 2]) simp

section \<open>Encoding\<close>

lemma encbuf_size_bytes: "encbuf_ok w \<Longrightarrow> encbuf_size w = int (length (encbuf_bytes w))"
  by (simp add: encbuf_ok_def encbuf_bytes_def encbuf_size_def length_flat)

text \<open>Whether a value can be written does not depend on what the buffer holds.\<close>

definition same_outcome :: "rlp_error + encbuf \<Rightarrow> rlp_error + encbuf \<Rightarrow> bool" where
  "same_outcome r r' \<longleftrightarrow> map_sum id (\<lambda>_. ()) r = map_sum id (\<lambda>_. ()) r'"

lemma same_outcome_simps [simp]:
  "same_outcome (Inl e) (Inl e')  = (e = e')" "same_outcome (Inr w) (Inr w')" "\<not> same_outcome (Inl e) (Inr w)" "\<not> same_outcome (Inr w) (Inl e)"
  "same_outcome bad_value bad_value"
  by (simp_all add: same_outcome_def bad_value_def)

lemma same_outcome_bind:
  "same_outcome r r' \<Longrightarrow> (\<And>w w'. r = Inr w \<Longrightarrow> same_outcome (f w) (f' w')) \<Longrightarrow> same_outcome (bindE r f) (bindE r' f')"
  by (cases r; cases r') auto

lemma write_outcome:
  shows "same_outcome (write_value t ts v w) (write_value t ts v w')"
    and "same_outcome (write_elems e vs w) (write_elems e vs w')"
    and "same_outcome (write_fields fl vs w) (write_fields fl vs w')"
proof (induction t ts v w and e vs w and fl vs w arbitrary: w' and w' and w'
    rule: write_value_write_elems_write_fields.induct)
  case (9 fs ts v w)
  then show ?case
    by (cases "structFields fs") (auto simp: encbuf_list_def split: rval.splits intro!: same_outcome_bind)
qed (auto simp: writeBigInt_def encbuf_list_def split: rval.splits option.splits intro!: same_outcome_bind)

lemma encode_appends_any:
  assumes "encbuf_encode t v new_encbuf = Inr w" "length (rlp_enc t no_tags v) < 2 ^ 64"
  shows "\<exists>w1. encbuf_encode t v w0 = Inr w1 \<and> appends w0 w1 (rlp_enc t no_tags v)"
proof -
  from assms(1) have e: "writerErr t no_tags = None" "write_value t no_tags v new_encbuf = Inr w"
    by (auto simp: encbuf_encode_def split: option.splits)
  from write_outcome(1) [of t no_tags v new_encbuf w0] e(2) obtain w1 where "write_value t no_tags v w0 = Inr w1"
    by (cases "write_value t no_tags v w0") auto
  then show ?thesis using e(1) write_appends(1) assms(2) by (auto simp: encbuf_encode_def)
qed

lemma appends_ok: "appends w w' b \<Longrightarrow> encbuf_ok w \<Longrightarrow> encbuf_ok w' \<and> encbuf_bytes w' = encbuf_bytes w @ b"
  using heads_ok_append [of 0 "length (eb_str w)" "eb_lheads w"] flat_append [of 0 "eb_str w" "eb_lheads w"]
  by (auto simp: appends_def encbuf_ok_def encbuf_bytes_def)

lemma Encode_Other:
  assumes "encbuf_encode t v new_encbuf = Inr w" "length (rlp_enc t no_tags v) < 2 ^ 64" "io_writer write out"
  shows "\<exists>s' e. Encode write t v (Other s) = Inr (Other s', e) \<and>
    (if e = None then out s' = out s @ rlp_enc t no_tags v else \<exists>more. out s @ rlp_enc t no_tags v = out s' @ more)"
proof -
  have w: "encbuf_ok w" "encbuf_bytes w = rlp_enc t no_tags v" using encode_appends [OF assms(1,2)] by simp_all
  from io_writer.toWriter_ok [OF assms(3) w(1), of s] obtain s' e where
    "toWriter write w s = Inr (s', e)"
    "if e = None then out s' = out s @ rlp_enc t no_tags v else \<exists>more. out s @ rlp_enc t no_tags v = out s' @ more"
    unfolding w(2) by blast
  then show ?thesis using assms(1) by (intro exI [of _ s'] exI [of _ e]) (simp add: Encode_def liftP_def)
qed

lemma Encode_Outer:
  assumes "encbuf_encode t v new_encbuf = Inr w" "length (rlp_enc t no_tags v) < 2 ^ 64"
  shows "\<exists>outer'. Encode write t v (Outer outer) = Inr (Outer outer', None) \<and>
    appends outer outer' (rlp_enc t no_tags v) \<and>
    (encbuf_ok outer \<longrightarrow> toBytes outer' = Inr (encbuf_bytes outer @ rlp_enc t no_tags v))"
  using encode_appends_any [OF assms, of outer] appends_ok toBytes_ok by (fastforce simp: Encode_def)

text \<open>C21 The encoders refine the specification \<open>rlp_enc\<close>: whatever can be encoded, \<^verbatim>\<open>EncodeToBytes\<close> returns its
  encoding; the reader of \<^verbatim>\<open>EncodeToReader\<close> gives the size and, however the reads are sized, the encoding; \<^verbatim>\<open>Encode\<close> to
  a writer that keeps the contract of \<^verbatim>\<open>io.Writer\<close> hands it the encoding, or a part from the front if the writer fails; and
  \<^verbatim>\<open>Encode\<close> to the buffer of an outer value, strings, headers and all, adds the encoding to what the buffer stands for.\<close>

theorem encoders_refine_spec:
  assumes "encbuf_encode t v new_encbuf = Inr w" "length (rlp_enc t no_tags v) < 2 ^ 64" "io_writer write out"
  shows "EncodeToBytes t v = Inr (rlp_enc t no_tags v) \<and>
    (\<exists>rd. EncodeToReader t v = Inr (int (length (rlp_enc t no_tags v)), rd) \<and>
       (\<forall>ks. \<exists>rd'. read_pieces rd ks = Inr (take (sum_list ks) (rlp_enc t no_tags v), rd'))) \<and>
    (\<forall>s. \<exists>s' e. Encode write t v (Other s) = Inr (Other s', e) \<and>
       (if e = None then out s' = out s @ rlp_enc t no_tags v else \<exists>more. out s @ rlp_enc t no_tags v = out s' @ more)) \<and>
    (\<forall>outer. \<exists>outer'. Encode write t v (Outer outer) = Inr (Outer outer', None) \<and>
       appends outer outer' (rlp_enc t no_tags v) \<and>
       (encbuf_ok outer \<longrightarrow> toBytes outer' = Inr (encbuf_bytes outer @ rlp_enc t no_tags v)))"
proof (intro conjI allI)
  note w = encode_appends [OF assms(1,2)]
  show "EncodeToBytes t v = Inr (rlp_enc t no_tags v)"
    using assms(1) w toBytes_ok [of w] by (simp add: EncodeToBytes_def liftP_def)
  show "\<exists>rd. EncodeToReader t v = Inr (int (length (rlp_enc t no_tags v)), rd) \<and>
       (\<forall>ks. \<exists>rd'. read_pieces rd ks = Inr (take (sum_list ks) (rlp_enc t no_tags v), rd'))"
    using assms(1) w new_encReader_ok [of w] read_pieces_ok [of "new_encReader w"] encbuf_size_bytes [of w]
    by (auto simp: EncodeToReader_def)
qed (rule Encode_Other [OF assms] Encode_Outer [OF assms(1,2)])+

text \<open>A writer that takes everything, as \<^verbatim>\<open>bytes.Buffer\<close> does.\<close>

definition buffer_writer :: "byte list \<Rightarrow> byte list \<Rightarrow> byte list \<times> nat \<times> rlp_error option" where
  "buffer_writer s p = (s @ p, length p, None)"

interpretation bw: io_writer buffer_writer id
  by unfold_locales (auto simp: buffer_writer_def)

theorem encoders_refine_spec_witness:
  "EncodeToBytes example_type example_value = Inr example_bytes \<and>
    (\<exists>rd. EncodeToReader example_type example_value = Inr (9, rd) \<and>
       (\<forall>ks. \<exists>rd'. read_pieces rd ks = Inr (take (sum_list ks) example_bytes, rd'))) \<and>
    (\<exists>outer'. Encode buffer_writer example_type example_value (Outer new_encbuf) = Inr (Outer outer', None) \<and>
       toBytes outer' = Inr example_bytes)"
proof -
  obtain w where w: "encbuf_encode example_type example_value new_encbuf = Inr w" using example_encoded by blast
  have "length (rlp_enc example_type no_tags example_value) < 2 ^ 64" by (simp add: example_enc example_bytes_def)
  note s = encoders_refine_spec [OF w this bw.io_writer_axioms, unfolded example_enc]
  have "int (length example_bytes) = 9" by (simp add: example_bytes_def)
  moreover have "encbuf_ok new_encbuf" "encbuf_bytes new_encbuf = []" by (simp_all add: encbuf_ok_def encbuf_bytes_def new_encbuf_def)
  ultimately show ?thesis using s by (metis append_Nil)
qed

section \<open>Decoding\<close>

text \<open>C18 Every value of a safe type is encoded, and \<^verbatim>\<open>DecodeBytes\<close> gives it back; the fuel needed
  is the number of bytes.\<close>

theorem rlp_round_trip:
  assumes "val_ok t no_tags v" "safe t" "length (rlp_enc t no_tags v) \<le> 2 ^ 48"
  shows "\<exists>b. EncodeToBytes t v = Inr b \<and> DecodeBytes (length b) b t = Some (Inr v)"
proof -
  have "length (rlp_enc t no_tags v) < 2 ^ 64" using assms(3) by simp
  then show ?thesis using EncodeToBytes_ok [OF assms(1,2)] DecodeBytes_complete [OF assms order_refl] by blast
qed

theorem rlp_round_trip_witness:
  "\<exists>b. EncodeToBytes example_type example_value = Inr b \<and> DecodeBytes (length b) b example_type = Some (Inr example_value)"
  by (rule rlp_round_trip [OF example_val_ok example_safe]) (simp add: example_enc example_bytes_def)

text \<open>C19 What \<^verbatim>\<open>DecodeBytes\<close> accepts is canonical and well typed: the value it returns has the type it was
  asked for, and encoding it gives back the very bytes that were decoded.\<close>

theorem DecodeBytes_canonical:
  assumes "DecodeBytes n b t = Some (Inr v)" "safe t" "length b < 2 ^ 64"
  shows "val_ok t no_tags v \<and> EncodeToBytes t v = Inr b"
  using DecodeBytes_sound [OF assms] EncodeToBytes_ok [OF _ assms(2), of v] assms(3) by simp

theorem DecodeBytes_canonical_witness:
  "val_ok example_type no_tags example_value \<and> EncodeToBytes example_type example_value = Inr example_bytes"
  by (rule DecodeBytes_canonical [OF example_decodes example_safe]) (simp add: example_bytes_def)

text \<open>C20 Decoding terminates: for a safe type, as much fuel as there are bytes suffices on every
  input, valid or not.\<close>

theorem DecodeBytes_terminates:
  assumes "safe t" "length b < 2 ^ 64"
  shows "\<exists>r. DecodeBytes (length b) b t = Some r"
  using DecodeBytes_returns [OF assms order_refl] by simp

theorem DecodeBytes_terminates_witness:
  "\<exists>r. DecodeBytes 3 [0xC2, 0x01, 0x81] (TSlice (TInterface 0)) = Some r"
proof -
  have l: "length [0xC2, 0x01, 0x81 :: byte] = 3" by simp
  have "length [0xC2, 0x01, 0x81 :: byte] < 2 ^ 64" by simp
  then have "\<exists>r. DecodeBytes (length [0xC2, 0x01, 0x81 :: byte]) [0xC2, 0x01, 0x81] (TSlice (TInterface 0)) = Some r"
    by (rule DecodeBytes_terminates [rotated]) simp
  then show ?thesis unfolding l .
qed

section \<open>Arrays of one byte\<close>

text \<open>
  \<^verbatim>\<open>decodeByteArray\<close> reads an array of one byte with \<^verbatim>\<open>s.Uint\<close> and ignores its error; for the byte zero that
  error leaves the stream where it was, still holding the byte.
\<close>

lemma stuck_elems:
  assumes "\<And>n. decode_value n e no_tags s = Some (Inr v, s)"
  shows "decodeSliceElems n e vs s = None"
  by (induction n arbitrary: vs) (simp_all add: assms)

definition stuck_stream :: Stream where
  "stuck_stream = snd (Stream_Kind (snd (Stream_List (NewStream [0xC1, 0] True 2))))"

lemma stuck_List: "Stream_List (NewStream [0xC1, 0] True 2) = (Inr 1, snd (Stream_List (NewStream [0xC1, 0] True 2)))"
  by code_simp

lemma stuck_first:
  "decodeByteArray 1 (snd (Stream_List (NewStream [0xC1, 0] True 2))) = Some (Inr (VBytes [0]), stuck_stream)"
  unfolding stuck_stream_def by code_simp

lemma stuck_next: "decodeByteArray 1 stuck_stream = Some (Inr (VBytes [0]), stuck_stream)"
  unfolding stuck_stream_def by code_simp

text \<open>C23 Decoding the list of one zero byte into a slice of one-byte arrays never returns, and into
  a struct of two such arrays it reads the one byte twice.\<close>

theorem one_byte_array:
  "(\<forall>n. DecodeBytes n [0xC1, 0] (TSlice (TArray 1 (TUint 8))) = None) \<and>
   DecodeBytes 0 [0xC1, 0] (TStruct [Field ''A'' True (TArray 1 (TUint 8)) '''', Field ''B'' True (TArray 1 (TUint 8)) ''''])
     = Some (Inr (VStruct [VBytes [0], VBytes [0]])) \<and>
   EncodeToBytes (TStruct [Field ''A'' True (TArray 1 (TUint 8)) '''', Field ''B'' True (TArray 1 (TUint 8)) ''''])
     (VStruct [VBytes [0], VBytes [0]]) = Inr [0xC2, 0, 0]"
proof (intro conjI allI)
  fix n
  let ?e = "TArray 1 (TUint 8)"
  obtain s where s: "Stream_List (NewStream [0xC1, 0] True 2) = (Inr 1, s)"
    "decodeByteArray 1 s = Some (Inr (VBytes [0]), stuck_stream)"
    using stuck_List stuck_first by blast
  have d: "decode_value m ?e no_tags = decodeByteArray 1" for m by simp
  have "decodeSliceElems n ?e [] s = None"
    using stuck_elems [of ?e stuck_stream "VBytes [0]"] s(2) stuck_next
    by (cases n) (simp_all add: d)
  moreover have "Stream_Decode n (TSlice ?e) = decode_value n (TSlice ?e) no_tags"
    by (simp add: Stream_Decode_def)
  ultimately show "DecodeBytes n [0xC1, 0] (TSlice ?e) = None"
    using s(1) by (simp add: DecodeBytes_def no_tags_def)
qed code_simp+

end
