(* ===== verification/DecimalOps.thy ===== *)
theory DecimalOps
  imports BigInt Complex_Main "HOL-Library.Code_Target_Nat"
begin

text \<open>
  \<^verbatim>\<open>util/decimal/decimal.go\<close> without the conversions from floats and the trigonometric functions:
  the \<open>Decimal\<close> record, arithmetic, comparison, rounding and the text and binary formats.
  Methods that panic return in a sum type.  The exponent is a 32-bit signed integer: \<open>i32\<close> wraps
  where the code computes with it.  The package variables \<^verbatim>\<open>DivisionPrecision\<close> and
  \<^verbatim>\<open>MarshalJSONWithoutQuotes\<close> have their initial values.
\<close>

unbundle bit_operations_syntax

datatype dec_error =
    PanicDivisionByZero
  | PanicQuoRemOverflow
  | PanicExponentOverflow
  | PanicNotFinite
  | PanicCashInterval
  | PanicRuntime go_error
  | ErrFractionTooLong
  | ErrExponentNotNumeric
  | ErrTooManyPoints
  | ErrNotNumeric
  | ErrDecodingString
  | ErrNotConvertible
  | ErrGobVersion

section \<open>Machine integers\<close>

definition i32 :: "int \<Rightarrow> int" where
  "i32 x = signed_take_bit 31 x"

definition i64 :: "int \<Rightarrow> int" where
  "i64 x = signed_take_bit 63 x"

abbreviation MaxInt32 :: int where "MaxInt32 \<equiv> 2147483647"
abbreviation MinInt32 :: int where "MinInt32 \<equiv> - 2147483648"

section \<open>The record\<close>

text \<open>\<open>dec_value = None\<close> is the nil pointer of a zero \<^verbatim>\<open>Decimal\<close>.\<close>

record Decimal =
  dec_value :: "int option"
  dec_exp :: int

definition mkDecimal :: "int \<Rightarrow> int \<Rightarrow> Decimal" where
  "mkDecimal v e = \<lparr>dec_value = Some v, dec_exp = e\<rparr>"

definition zero_Decimal :: Decimal where
  "zero_Decimal = \<lparr>dec_value = None, dec_exp = 0\<rparr>"

definition New_Decimal :: "int \<Rightarrow> int \<Rightarrow> Decimal" where
  "New_Decimal value e = mkDecimal value e"

definition NewFromBigInt :: "int \<Rightarrow> int \<Rightarrow> Decimal" where
  "NewFromBigInt value e = mkDecimal value e"

definition DivisionPrecision :: int where
  "DivisionPrecision = 16"

definition MarshalJSONWithoutQuotes :: bool where
  "MarshalJSONWithoutQuotes = False"

definition Zero :: Decimal where
  "Zero = New_Decimal 0 1"

definition fiveDec :: Decimal where
  "fiveDec = New_Decimal 5 0"

text \<open>The value after \<^verbatim>\<open>ensureInitialized\<close>.\<close>

definition ensureInitialized :: "Decimal \<Rightarrow> int" where
  "ensureInitialized d = (case dec_value d of None \<Rightarrow> 0 | Some v \<Rightarrow> v)"

text \<open>A method of a \<^verbatim>\<open>big.Int\<close> on the value, without \<^verbatim>\<open>ensureInitialized\<close>.\<close>

definition deref_value :: "Decimal \<Rightarrow> dec_error + int" where
  "deref_value d = (case dec_value d of None \<Rightarrow> Inl (PanicRuntime NilDereference) | Some v \<Rightarrow> Inr v)"

section \<open>Arithmetic\<close>

text \<open>The difference of two 32-bit exponents is exact as a \<^verbatim>\<open>float64\<close>.\<close>

definition rescale :: "Decimal \<Rightarrow> int \<Rightarrow> Decimal" where
  "rescale d e =
     (let v = ensureInitialized d;
          diff = \<bar>e - dec_exp d\<bar>;
          expScale = 10 ^ nat diff
      in mkDecimal (if e > dec_exp d then big_Quo v expScale else if e < dec_exp d then v * expScale else v) e)"

definition Decimal_Abs :: "Decimal \<Rightarrow> Decimal" where
  "Decimal_Abs d = mkDecimal \<bar>ensureInitialized d\<bar> (dec_exp d)"

definition Decimal_Neg :: "Decimal \<Rightarrow> Decimal" where
  "Decimal_Neg d = mkDecimal (- ensureInitialized d) (dec_exp d)"

definition Decimal_Add :: "Decimal \<Rightarrow> Decimal \<Rightarrow> Decimal" where
  "Decimal_Add d d2 =
     (let baseScale = min (dec_exp d) (dec_exp d2);
          rd = rescale d baseScale;
          rd2 = rescale d2 baseScale
      in mkDecimal (ensureInitialized rd + ensureInitialized rd2) baseScale)"

definition Decimal_Sub :: "Decimal \<Rightarrow> Decimal \<Rightarrow> Decimal" where
  "Decimal_Sub d d2 =
     (let baseScale = min (dec_exp d) (dec_exp d2);
          rd = rescale d baseScale;
          rd2 = rescale d2 baseScale
      in mkDecimal (ensureInitialized rd - ensureInitialized rd2) baseScale)"

definition Decimal_Mul :: "Decimal \<Rightarrow> Decimal \<Rightarrow> dec_error + Decimal" where
  "Decimal_Mul d d2 =
     (let e = dec_exp d + dec_exp d2 in
      if e > MaxInt32 \<or> e < MinInt32 then Inl PanicExponentOverflow
      else Inr (mkDecimal (ensureInitialized d * ensureInitialized d2) e))"

definition Decimal_Shift :: "Decimal \<Rightarrow> int \<Rightarrow> Decimal" where
  "Decimal_Shift d shift = mkDecimal (ensureInitialized d) (i32 (dec_exp d + shift))"

definition Decimal_QuoRem :: "Decimal \<Rightarrow> Decimal \<Rightarrow> int \<Rightarrow> dec_error + (Decimal \<times> Decimal)" where
  "Decimal_QuoRem d d2 precision =
     (let a = ensureInitialized d; b = ensureInitialized d2 in
      if b = 0 then Inl PanicDivisionByZero
      else
        let scale = i32 (- precision);
            e = i32 (i32 (dec_exp d - dec_exp d2) - scale)
        in
        if e > MaxInt32 \<or> e < MinInt32 then Inl PanicQuoRemOverflow
        else
          let (aa, bb, scalerest) =
                (if e < 0 then (a, b * 10 ^ nat (- e), dec_exp d)
                 else (a * 10 ^ nat e, b, i32 (scale + dec_exp d2)))
          in Inr (mkDecimal (big_Quo aa bb) scale, mkDecimal (big_Rem aa bb) scalerest))"

definition cmp_int :: "int \<Rightarrow> int \<Rightarrow> int" where
  "cmp_int a b = (if a < b then - 1 else if a = b then 0 else 1)"

definition Decimal_Cmp :: "Decimal \<Rightarrow> Decimal \<Rightarrow> int" where
  "Decimal_Cmp d d2 =
     (if dec_exp d = dec_exp d2 then cmp_int (ensureInitialized d) (ensureInitialized d2)
      else
        let baseExp = min (dec_exp d) (dec_exp d2);
            rd = rescale d baseExp;
            rd2 = rescale d2 baseExp
        in cmp_int (ensureInitialized rd) (ensureInitialized rd2))"

text \<open>\<^verbatim>\<open>DivRound\<close> reads the values of its arguments again after \<^verbatim>\<open>QuoRem\<close> initialised its own copies.\<close>

definition Decimal_DivRound :: "Decimal \<Rightarrow> Decimal \<Rightarrow> int \<Rightarrow> dec_error + Decimal" where
  "Decimal_DivRound d d2 precision =
     bindE (Decimal_QuoRem d d2 precision) (\<lambda>(q, r).
       let rv2 = 2 * \<bar>ensureInitialized r\<bar>;
           r2 = mkDecimal rv2 (i32 (dec_exp r + precision));
           c = Decimal_Cmp r2 (Decimal_Abs d2)
       in
       if c < 0 then Inr q
       else bindE (deref_value d) (\<lambda>v. bindE (deref_value d2) (\<lambda>v2.
         if sgn v * sgn v2 < 0 then Inr (Decimal_Sub q (New_Decimal 1 (i32 (- precision))))
         else Inr (Decimal_Add q (New_Decimal 1 (i32 (- precision)))))))"

definition Decimal_Div :: "Decimal \<Rightarrow> Decimal \<Rightarrow> dec_error + Decimal" where
  "Decimal_Div d d2 = Decimal_DivRound d d2 (i32 DivisionPrecision)"

definition Decimal_Truncate :: "Decimal \<Rightarrow> int \<Rightarrow> Decimal" where
  "Decimal_Truncate d precision =
     (if precision \<ge> 0 \<and> - precision > dec_exp d then rescale d (- precision)
      else mkDecimal (ensureInitialized d) (dec_exp d))"

definition Decimal_Mod :: "Decimal \<Rightarrow> Decimal \<Rightarrow> dec_error + Decimal" where
  "Decimal_Mod d d2 =
     bindE (Decimal_Div d d2) (\<lambda>q.
       bindE (Decimal_Mul d2 (Decimal_Truncate q 0)) (\<lambda>m. Inr (Decimal_Sub d m)))"

definition Decimal_IntPart :: "Decimal \<Rightarrow> int" where
  "Decimal_IntPart d = i64 (ensureInitialized (rescale d 0))"

definition Decimal_Equal :: "Decimal \<Rightarrow> Decimal \<Rightarrow> bool" where
  "Decimal_Equal d d2 = (Decimal_Cmp d d2 = 0)"

definition Decimal_Equals :: "Decimal \<Rightarrow> Decimal \<Rightarrow> bool" where
  "Decimal_Equals d d2 = Decimal_Equal d d2"

definition Decimal_GreaterThan :: "Decimal \<Rightarrow> Decimal \<Rightarrow> bool" where
  "Decimal_GreaterThan d d2 = (Decimal_Cmp d d2 = 1)"

definition Decimal_GreaterThanOrEqual :: "Decimal \<Rightarrow> Decimal \<Rightarrow> bool" where
  "Decimal_GreaterThanOrEqual d d2 = (let c = Decimal_Cmp d d2 in c = 1 \<or> c = 0)"

definition Decimal_LessThan :: "Decimal \<Rightarrow> Decimal \<Rightarrow> bool" where
  "Decimal_LessThan d d2 = (Decimal_Cmp d d2 = - 1)"

definition Decimal_LessThanOrEqual :: "Decimal \<Rightarrow> Decimal \<Rightarrow> bool" where
  "Decimal_LessThanOrEqual d d2 = (let c = Decimal_Cmp d d2 in c = - 1 \<or> c = 0)"

definition Decimal_Sign :: "Decimal \<Rightarrow> int" where
  "Decimal_Sign d = (case dec_value d of None \<Rightarrow> 0 | Some v \<Rightarrow> sgn v)"

definition Decimal_IsPositive :: "Decimal \<Rightarrow> bool" where
  "Decimal_IsPositive d = (Decimal_Sign d = 1)"

definition Decimal_IsNegative :: "Decimal \<Rightarrow> bool" where
  "Decimal_IsNegative d = (Decimal_Sign d = - 1)"

definition Decimal_IsZero :: "Decimal \<Rightarrow> bool" where
  "Decimal_IsZero d = (Decimal_Sign d = 0)"

definition Decimal_Exponent :: "Decimal \<Rightarrow> int" where
  "Decimal_Exponent d = dec_exp d"

definition Decimal_Coefficient :: "Decimal \<Rightarrow> dec_error + int" where
  "Decimal_Coefficient d = deref_value d"

definition Decimal_Rat :: "Decimal \<Rightarrow> rat" where
  "Decimal_Rat d =
     (if dec_exp d \<le> 0 then of_int (ensureInitialized d) / of_int (10 ^ nat (- dec_exp d))
      else of_int (ensureInitialized d * 10 ^ nat (dec_exp d)))"

section \<open>Rounding\<close>

definition Decimal_Round :: "Decimal \<Rightarrow> int \<Rightarrow> Decimal" where
  "Decimal_Round d places =
     (let ret = rescale d (i32 (i32 (- places) - 1));
          v = (if ensureInitialized ret < 0 then ensureInitialized ret - 5 else ensureInitialized ret + 5);
          q = v div 10;
          m = v mod 10;
          e = i32 (dec_exp ret + 1)
      in mkDecimal (if q < 0 \<and> m \<noteq> 0 then q + 1 else q) e)"

definition Decimal_RoundBank :: "Decimal \<Rightarrow> int \<Rightarrow> Decimal" where
  "Decimal_RoundBank d places =
     (let round = Decimal_Round d places;
          remainder = Decimal_Abs (Decimal_Sub d round);
          half = New_Decimal 5 (i32 (i32 (- places) - 1));
          v = ensureInitialized round
      in
      if Decimal_Cmp remainder half = 0 \<and> odd v
      then mkDecimal (if v < 0 then v + 1 else v - 1) (dec_exp round)
      else round)"

text \<open>\<^verbatim>\<open>^\<close> is exclusive or in Go.\<close>

definition cash15 :: "Decimal \<Rightarrow> dec_error + Decimal" where
  "cash15 d =
     (if dec_exp d < 0 then
        let orgExp = dec_exp d;
            dOne = New_Decimal (10 XOR (- orgExp)) orgExp;
            d2 = d\<lparr>dec_exp := 0\<rparr>
        in bindE (Decimal_Mod d2 fiveDec) (\<lambda>m.
             if Decimal_Equal m Zero then Inr (Decimal_Sub (d2\<lparr>dec_exp := orgExp\<rparr>) dOne) else Inr d)
      else Inr d)"

definition Decimal_RoundCash :: "Decimal \<Rightarrow> nat \<Rightarrow> dec_error + Decimal" where
  "Decimal_RoundCash d interval =
     bindE
       (if interval = 5 then Inr (d, 20)
        else if interval = 10 then Inr (d, 10)
        else if interval = 15 then bindE (cash15 d) (\<lambda>d. Inr (d, 10))
        else if interval = 25 then Inr (d, 4)
        else if interval = 50 then Inr (d, 2)
        else if interval = 100 then Inr (d, 1)
        else Inl PanicCashInterval)
       (\<lambda>(d, iVal).
          let dVal = mkDecimal iVal 0 in
          bindE (Decimal_Mul d dVal) (\<lambda>x.
            bindE (Decimal_Div (Decimal_Round x 0) dVal) (\<lambda>y.
              Inr (Decimal_Truncate y 2))))"

definition Decimal_Floor :: "Decimal \<Rightarrow> Decimal" where
  "Decimal_Floor d =
     (let v = ensureInitialized d in
      if dec_exp d \<ge> 0 then mkDecimal v (dec_exp d)
      else mkDecimal (v div 10 ^ nat (- dec_exp d)) 0)"

definition Decimal_Ceil :: "Decimal \<Rightarrow> Decimal" where
  "Decimal_Ceil d =
     (let v = ensureInitialized d in
      if dec_exp d \<ge> 0 then mkDecimal v (dec_exp d)
      else
        let z = v div 10 ^ nat (- dec_exp d);
            m = v mod 10 ^ nat (- dec_exp d)
        in mkDecimal (if m \<noteq> 0 then z + 1 else z) 0)"

section \<open>Lists of decimals\<close>

definition Decimal_Min :: "Decimal \<Rightarrow> Decimal list \<Rightarrow> Decimal" where
  "Decimal_Min first rest = foldl (\<lambda>ans item. if Decimal_Cmp item ans < 0 then item else ans) first rest"

definition Decimal_Max :: "Decimal \<Rightarrow> Decimal list \<Rightarrow> Decimal" where
  "Decimal_Max first rest = foldl (\<lambda>ans item. if Decimal_Cmp item ans > 0 then item else ans) first rest"

definition Decimal_Sum :: "Decimal \<Rightarrow> Decimal list \<Rightarrow> Decimal" where
  "Decimal_Sum first rest = foldl Decimal_Add first rest"

definition Decimal_Avg :: "Decimal \<Rightarrow> Decimal list \<Rightarrow> dec_error + Decimal" where
  "Decimal_Avg first rest =
     Decimal_Div (Decimal_Sum first rest) (New_Decimal (i64 (int (List.length rest) + 1)) 0)"

end
