(* ===== verification/DecimalText.thy ===== *)
theory DecimalText
  imports DecimalOps
begin

text \<open>
  The text, JSON, SQL and binary formats of \<^verbatim>\<open>util/decimal/decimal.go\<close>.  Go strings are lists
  of characters.  The errors carry no message.
\<close>

section \<open>Parsing\<close>

text \<open>\<^verbatim>\<open>strings.IndexAny\<close>, \<^verbatim>\<open>strings.Split\<close> and \<^verbatim>\<open>strings.TrimRight\<close>.\<close>

definition split_e :: "string \<Rightarrow> string \<times> string option" where
  "split_e s =
     (case dropWhile (\<lambda>c. c \<noteq> CHR ''e'' \<and> c \<noteq> CHR ''E'') s of
        [] \<Rightarrow> (s, None)
      | c # r \<Rightarrow> (takeWhile (\<lambda>c. c \<noteq> CHR ''e'' \<and> c \<noteq> CHR ''E'') s, Some r))"

fun split_dots :: "string \<Rightarrow> string list" where
  "split_dots [] = [[]]"
| "split_dots (c # s) =
     (if c = CHR ''.'' then [] # split_dots s else (c # hd (split_dots s)) # tl (split_dots s))"

definition trim_right :: "string \<Rightarrow> string" where
  "trim_right s = rev (dropWhile (\<lambda>c. c = CHR ''0'') (rev s))"

text \<open>
  \<^verbatim>\<open>strconv.ParseUint(s, 10, 32)\<close> stops at the first digit that overflows, before it looks at the
  rest; \<open>None\<close> is that overflow.
\<close>

fun parse_uint32 :: "nat \<Rightarrow> string \<Rightarrow> dec_error + nat option" where
  "parse_uint32 n [] = Inr (Some n)"
| "parse_uint32 n (c # s) =
     (if \<not> is_digit c then Inl ErrExponentNotNumeric
      else if n * 10 + digit_val c > 4294967295 then Inr None
      else parse_uint32 (n * 10 + digit_val c) s)"

definition ParseInt32 :: "string \<Rightarrow> dec_error + int" where
  "ParseInt32 s0 =
     (if s0 = [] then Inl ErrExponentNotNumeric
      else
        let neg = (hd s0 = CHR ''-'');
            s = (if hd s0 = CHR ''-'' \<or> hd s0 = CHR ''+'' then tl s0 else s0)
        in if s = [] then Inl ErrExponentNotNumeric
           else bindE (parse_uint32 0 s) (\<lambda>r.
             case r of
               None \<Rightarrow> Inl ErrFractionTooLong
             | Some un \<Rightarrow>
                 if \<not> neg \<and> un \<ge> 2147483648 then Inl ErrFractionTooLong
                 else if neg \<and> un > 2147483648 then Inl ErrFractionTooLong
                 else Inr (if neg then - int un else int un)))"

definition NewFromString :: "string \<Rightarrow> dec_error + Decimal" where
  "NewFromString s =
     (let (value, e) = split_e s in
      bindE (case e of None \<Rightarrow> Inr 0 | Some t \<Rightarrow> ParseInt32 t) (\<lambda>exp0.
        bindE
          (case split_dots value of
             [p] \<Rightarrow> Inr (value, exp0)
           | [p0, p1] \<Rightarrow>
               let decimalPart = trim_right p1
               in Inr (p0 @ decimalPart, exp0 - int (List.length decimalPart))
           | _ \<Rightarrow> Inl ErrTooManyPoints)
          (\<lambda>(intString, ex).
             case big_SetString intString of
               None \<Rightarrow> Inl ErrNotNumeric
             | Some v \<Rightarrow>
                 if ex < MinInt32 \<or> ex > MaxInt32 then Inl ErrFractionTooLong
                 else Inr (mkDecimal v ex))))"

text \<open>A panic carries the error.\<close>

definition RequireFromString :: "string \<Rightarrow> dec_error + Decimal" where
  "RequireFromString s = NewFromString s"

section \<open>Printing\<close>

definition Decimal_string :: "bool \<Rightarrow> Decimal \<Rightarrow> dec_error + string" where
  "Decimal_string trimTrailingZeros d =
     (if dec_exp d \<ge> 0 then Inr (big_String (ensureInitialized (rescale d 0)))
      else bindE (deref_value d) (\<lambda>v.
        let str = big_String \<bar>v\<bar>;
            k = nat (- dec_exp d);
            (intPart, fractionalPart) =
              (if List.length str > k
               then (take (List.length str - k) str, drop (List.length str - k) str)
               else (''0'', replicate (k - List.length str) (CHR ''0'') @ str));
            fractionalPart = (if trimTrailingZeros then trim_right fractionalPart else fractionalPart);
            number = (if fractionalPart \<noteq> [] then intPart @ ''.'' @ fractionalPart else intPart)
        in Inr (if v < 0 then CHR ''-'' # number else number)))"

definition Decimal_String :: "Decimal \<Rightarrow> dec_error + string" where
  "Decimal_String d = Decimal_string True d"

definition Decimal_StringFixed :: "Decimal \<Rightarrow> int \<Rightarrow> dec_error + string" where
  "Decimal_StringFixed d places = Decimal_string False (Decimal_Round d places)"

definition Decimal_StringFixedBank :: "Decimal \<Rightarrow> int \<Rightarrow> dec_error + string" where
  "Decimal_StringFixedBank d places = Decimal_string False (Decimal_RoundBank d places)"

definition Decimal_StringFixedCash :: "Decimal \<Rightarrow> nat \<Rightarrow> dec_error + string" where
  "Decimal_StringFixedCash d interval = bindE (Decimal_RoundCash d interval) (Decimal_string False)"

definition Decimal_StringScaled :: "Decimal \<Rightarrow> int \<Rightarrow> dec_error + string" where
  "Decimal_StringScaled d e = Decimal_String (rescale d e)"

section \<open>JSON and text\<close>

text \<open>Receivers that are written through a pointer are returned; on a parse error they become the zero value.\<close>

definition unquoteIfQuoted :: "string \<Rightarrow> string" where
  "unquoteIfQuoted b =
     (if List.length b > 2 \<and> hd b = CHR 0x22 \<and> last b = CHR 0x22 then butlast (tl b) else b)"

definition parse_into :: "string \<Rightarrow> Decimal \<times> dec_error option" where
  "parse_into s = (case NewFromString s of Inl e \<Rightarrow> (zero_Decimal, Some e) | Inr d \<Rightarrow> (d, None))"

definition Decimal_UnmarshalJSON :: "Decimal \<Rightarrow> string \<Rightarrow> Decimal \<times> dec_error option" where
  "Decimal_UnmarshalJSON d b =
     (if b = ''null'' then (d, None)
      else case parse_into (unquoteIfQuoted b) of
        (d', Some e) \<Rightarrow> (d', Some ErrDecodingString)
      | (d', None) \<Rightarrow> (d', None))"

definition Decimal_MarshalJSON :: "Decimal \<Rightarrow> dec_error + string" where
  "Decimal_MarshalJSON d =
     bindE (Decimal_String d) (\<lambda>str.
       Inr (if MarshalJSONWithoutQuotes then str else [CHR 0x22] @ str @ [CHR 0x22]))"

definition Decimal_UnmarshalText :: "string \<Rightarrow> Decimal \<times> dec_error option" where
  "Decimal_UnmarshalText text =
     (case parse_into text of
        (d, Some e) \<Rightarrow> (d, Some ErrDecodingString)
      | (d, None) \<Rightarrow> (d, None))"

definition Decimal_MarshalText :: "Decimal \<Rightarrow> dec_error + string" where
  "Decimal_MarshalText d = Decimal_String d"

section \<open>Binary\<close>

definition Decimal_UnmarshalBinary :: "Decimal \<Rightarrow> byte list \<Rightarrow> dec_error + (Decimal \<times> dec_error option)" where
  "Decimal_UnmarshalBinary d data =
     (if List.length data < 4 then Inl (PanicRuntime SliceOutOfRange)
      else
        let e = i32 (int (bytes_nat (take 4 data))) in
        Inr (case big_GobDecode (drop 4 data) of
          None \<Rightarrow> (mkDecimal 0 e, Some ErrGobVersion)
        | Some v \<Rightarrow> (mkDecimal v e, None)))"

definition uint32_bytes :: "int \<Rightarrow> byte list" where
  "uint32_bytes x = rev (le_put 4 (word_of_int x :: u32))"

definition Decimal_MarshalBinary :: "Decimal \<Rightarrow> byte list" where
  "Decimal_MarshalBinary d =
     uint32_bytes (dec_exp d) @ (case dec_value d of None \<Rightarrow> [] | Some v \<Rightarrow> big_GobEncode v)"

definition Decimal_GobEncode :: "Decimal \<Rightarrow> byte list" where
  "Decimal_GobEncode d = Decimal_MarshalBinary d"

definition Decimal_GobDecode :: "Decimal \<Rightarrow> byte list \<Rightarrow> dec_error + (Decimal \<times> dec_error option)" where
  "Decimal_GobDecode d data = Decimal_UnmarshalBinary d data"

end
