(* ===== verification/DecimalProps.thy ===== *)
theory DecimalProps
  imports DecimalText
begin

text \<open>
  The decimals as rational numbers: \<open>dval\<close> is the number a \<open>Decimal\<close> stands for.  Arithmetic and comparison are
  exact on it, the rounding functions are the rounding functions of the rationals, and division
  is rounded to the last digit.
\<close>

section \<open>The number a decimal stands for\<close>

definition dval :: "Decimal \<Rightarrow> rat" where
  "dval d = of_int (ensureInitialized d) * 10 powi dec_exp d"

definition exp_ok :: "Decimal \<Rightarrow> bool" where
  "exp_ok d = (MinInt32 \<le> dec_exp d \<and> dec_exp d \<le> MaxInt32)"

lemma i32_id: "MinInt32 \<le> x \<Longrightarrow> x \<le> MaxInt32 \<Longrightarrow> i32 x = x"
  unfolding i32_def by (rule signed_take_bit_int_eq_self) simp_all

lemma i32_range: "MinInt32 \<le> i32 x \<and> i32 x \<le> MaxInt32"
  using signed_take_bit_int_greater_eq_minus_exp [of 31 x] signed_take_bit_int_less_exp [of 31 x]
  by (simp add: i32_def)

lemma init_mk [simp]: "ensureInitialized (mkDecimal v e) = v" "dec_exp (mkDecimal v e) = e"
  by (simp_all add: ensureInitialized_def mkDecimal_def)

lemma dval_mk [simp]: "dval (mkDecimal v e) = of_int v * 10 powi e"
  by (simp add: dval_def)

lemma New_mk [simp]: "New_Decimal v e = mkDecimal v e"
  by (simp add: New_Decimal_def)

lemma powi_nat: "0 \<le> k \<Longrightarrow> (10 :: rat) powi k = of_int (10 ^ nat k)"
  by (simp add: power_int_def)

lemma powi_plus: "(10 :: rat) powi (a + b) = 10 powi a * 10 powi b"
  by (simp add: power_int_add)

lemma powi_pos [simp]: "0 < (10 :: rat) powi k"
  by simp

lemma powi_minus: "(10 :: rat) powi - k = 1 / 10 powi k"
  by (simp add: power_int_minus field_simps)

lemma powi_cancel: "x * (10 :: rat) powi k * 10 powi - k = x"
  by (simp add: powi_minus)

section \<open>Truncation\<close>

definition trunc :: "rat \<Rightarrow> int" where
  "trunc x = (if x < 0 then - \<lfloor>- x\<rfloor> else \<lfloor>x\<rfloor>)"

lemma trunc_of_int [simp]: "trunc (of_int v) = v"
  by (simp add: trunc_def)

lemma Quo_trunc:
  assumes "0 < b"
  shows "big_Quo a b = trunc (of_int a / of_int b)"
proof -
  have "\<lfloor>rat_of_int \<bar>a\<bar> / of_int b\<rfloor> = \<bar>a\<bar> div b" by (rule floor_divide_of_int_eq)
  moreover have "(rat_of_int a / of_int b < 0) = (a < 0)" using assms by (simp add: divide_less_0_iff)
  ultimately show ?thesis using assms by (auto simp: big_Quo_pos trunc_def sgn_if)
qed

lemma rescale_exp [simp]: "dec_exp (rescale d e) = e"
  by (simp add: rescale_def Let_def)

lemma rescale_value: "ensureInitialized (rescale d e) = trunc (dval d * 10 powi - e)"
proof -
  have x: "dval d * 10 powi - e = of_int (ensureInitialized d) * 10 powi (dec_exp d - e)"
    by (simp add: dval_def powi_plus flip: power_int_add)
  consider "dec_exp d < e" | "e \<le> dec_exp d" by linarith
  then show ?thesis
  proof cases
    case 1
    have "(10 :: rat) powi (dec_exp d - e) = 1 / of_int (10 ^ nat (e - dec_exp d))"
      using powi_minus [of "e - dec_exp d"] powi_nat [of "e - dec_exp d"] 1 by simp
    then have "dval d * 10 powi - e = of_int (ensureInitialized d) / of_int (10 ^ nat (e - dec_exp d))"
      unfolding x by simp
    then show ?thesis using 1 Quo_trunc [of "10 ^ nat (e - dec_exp d)" "ensureInitialized d"]
      by (simp add: rescale_def Let_def)
  next
    case 2
    have "dval d * 10 powi - e = of_int (ensureInitialized d * 10 ^ nat (dec_exp d - e))"
      unfolding x using 2 by (simp add: powi_nat)
    then have "trunc (dval d * 10 powi - e) = ensureInitialized d * 10 ^ nat (dec_exp d - e)"
      by (simp only: trunc_of_int)
    then show ?thesis using 2 by (auto simp: rescale_def Let_def)
  qed
qed

lemma rescale_down:
  assumes "e \<le> dec_exp d"
  shows "dval (rescale d e) = dval d" "ensureInitialized (rescale d e) = ensureInitialized d * 10 ^ nat (dec_exp d - e)"
proof -
  show v: "ensureInitialized (rescale d e) = ensureInitialized d * 10 ^ nat (dec_exp d - e)"
    using assms by (auto simp: rescale_def Let_def)
  have "(10 :: rat) powi dec_exp d = 10 powi (dec_exp d - e) * 10 powi e"
    by (simp flip: powi_plus)
  then show "dval (rescale d e) = dval d"
    using assms by (simp add: dval_def v powi_nat)
qed

section \<open>Arithmetic is exact\<close>

lemma Add_dval: "dval (Decimal_Add a b) = dval a + dval b"
proof -
  let ?e = "min (dec_exp a) (dec_exp b)"
  have "dval (rescale a ?e) = dval a" "dval (rescale b ?e) = dval b" by (simp_all add: rescale_down)
  then show ?thesis by (simp add: Decimal_Add_def Let_def dval_def distrib_right)
qed

lemma Sub_dval: "dval (Decimal_Sub a b) = dval a - dval b"
proof -
  let ?e = "min (dec_exp a) (dec_exp b)"
  have "dval (rescale a ?e) = dval a" "dval (rescale b ?e) = dval b" by (simp_all add: rescale_down)
  then show ?thesis by (simp add: Decimal_Sub_def Let_def dval_def left_diff_distrib)
qed

lemma Neg_dval: "dval (Decimal_Neg a) = - dval a"
  by (simp add: Decimal_Neg_def dval_def)

lemma Abs_dval: "dval (Decimal_Abs a) = \<bar>dval a\<bar>"
  by (simp add: Decimal_Abs_def dval_def abs_mult)

lemma Mul_dval: "Decimal_Mul a b = Inr c \<Longrightarrow> dval c = dval a * dval b"
  by (auto simp: Decimal_Mul_def Let_def dval_def powi_plus split: if_splits)

lemma Mul_ok: "Decimal_Mul a b = Inl e \<longleftrightarrow>
    e = PanicExponentOverflow \<and> \<not> (MinInt32 \<le> dec_exp a + dec_exp b \<and> dec_exp a + dec_exp b \<le> MaxInt32)"
  by (auto simp: Decimal_Mul_def Let_def)

lemma Shift_dval:
  assumes "MinInt32 \<le> dec_exp d + k" "dec_exp d + k \<le> MaxInt32"
  shows "dval (Decimal_Shift d k) = dval d * 10 powi k"
  using i32_id [OF assms] by (simp add: Decimal_Shift_def dval_def powi_plus)

lemma exp_ok_Add: "exp_ok a \<Longrightarrow> exp_ok b \<Longrightarrow> exp_ok (Decimal_Add a b) \<and> exp_ok (Decimal_Sub a b)"
  by (simp add: exp_ok_def Decimal_Add_def Decimal_Sub_def Let_def min_def)

lemma Rat_dval: "Decimal_Rat d = dval d"
proof (cases "dec_exp d \<le> 0")
  case True
  then have "(10 :: rat) powi dec_exp d = 1 / of_int (10 ^ nat (- dec_exp d))"
    using powi_minus [of "- dec_exp d"] powi_nat [of "- dec_exp d"] by simp
  then show ?thesis using True by (simp add: Decimal_Rat_def dval_def)
next
  case False
  then show ?thesis by (simp add: Decimal_Rat_def dval_def powi_nat)
qed

section \<open>Comparison\<close>

definition cmp_rat :: "rat \<Rightarrow> rat \<Rightarrow> int" where
  "cmp_rat x y = (if x < y then - 1 else if x = y then 0 else 1)"

lemma cmp_scaled:
  assumes "0 < (s :: rat)"
  shows "cmp_int a b = cmp_rat (of_int a * s) (of_int b * s)"
  using assms by (simp add: cmp_int_def cmp_rat_def)

lemma Cmp_dval: "Decimal_Cmp a b = cmp_rat (dval a) (dval b)"
proof (cases "dec_exp a = dec_exp b")
  case True
  then show ?thesis using cmp_scaled [OF powi_pos] by (simp add: Decimal_Cmp_def dval_def)
next
  case False
  let ?e = "min (dec_exp a) (dec_exp b)"
  have r: "dval (rescale a ?e) = dval a" "dval (rescale b ?e) = dval b" by (simp_all add: rescale_down)
  have "Decimal_Cmp a b = cmp_int (ensureInitialized (rescale a ?e)) (ensureInitialized (rescale b ?e))"
    using False by (simp add: Decimal_Cmp_def Let_def)
  also have "\<dots> = cmp_rat (dval (rescale a ?e)) (dval (rescale b ?e))"
    using cmp_scaled [OF powi_pos [of ?e]] by (simp add: dval_def)
  finally show ?thesis unfolding r .
qed

lemma relations_dval:
  "Decimal_Equal a b \<longleftrightarrow> dval a = dval b"
  "Decimal_GreaterThan a b \<longleftrightarrow> dval a > dval b"
  "Decimal_GreaterThanOrEqual a b \<longleftrightarrow> dval a \<ge> dval b"
  "Decimal_LessThan a b \<longleftrightarrow> dval a < dval b"
  "Decimal_LessThanOrEqual a b \<longleftrightarrow> dval a \<le> dval b"
  by (auto simp: Decimal_Equal_def Decimal_GreaterThan_def Decimal_GreaterThanOrEqual_def Decimal_LessThan_def
    Decimal_LessThanOrEqual_def Cmp_dval cmp_rat_def Let_def)

lemma Sign_dval: "of_int (Decimal_Sign d) = sgn (dval d)"
proof -
  have "rat_of_int (sgn v) = sgn (rat_of_int v)" for v by (simp add: sgn_if)
  then show ?thesis by (simp add: Decimal_Sign_def dval_def ensureInitialized_def sgn_mult split: option.splits)
qed

section \<open>Rounding\<close>

definition round_away :: "rat \<Rightarrow> int" where
  "round_away x = (if x < 0 then - \<lfloor>- x + 1 / 2\<rfloor> else \<lfloor>x + 1 / 2\<rfloor>)"

definition round_even :: "rat \<Rightarrow> int" where
  "round_even x =
     (if x - of_int \<lfloor>x\<rfloor> = 1 / 2 then (if even \<lfloor>x\<rfloor> then \<lfloor>x\<rfloor> else \<lfloor>x\<rfloor> + 1) else round_away x)"

lemma floor_div10: "\<lfloor>z :: rat\<rfloor> div 10 = \<lfloor>z / 10\<rfloor>"
proof -
  have "of_int (10 * (\<lfloor>z\<rfloor> div 10)) \<le> z" "z < of_int (10 * (\<lfloor>z\<rfloor> div 10) + 10)" by linarith+
  then have "of_int (\<lfloor>z\<rfloor> div 10) \<le> z / 10" "z / 10 < of_int (\<lfloor>z\<rfloor> div 10) + 1" by simp_all
  then show ?thesis by (rule floor_unique [symmetric])
qed

lemma round_digit:
  assumes "t = trunc y" "v = (if t < 0 then t - 5 else t + 5)"
  shows "(if v div 10 < 0 \<and> v mod 10 \<noteq> 0 then v div 10 + 1 else v div 10) = round_away (y / 10)"
proof (cases "y < 0")
  case False
  have "\<lfloor>y\<rfloor> + 5 = \<lfloor>y + 5\<rfloor>" by linarith
  moreover have "\<lfloor>y + 5\<rfloor> div 10 = \<lfloor>(y + 5) / 10\<rfloor>" by (rule floor_div10)
  moreover have "(y + 5) / 10 = y / 10 + 1 / 2" by (simp add: field_simps)
  moreover have "v = \<lfloor>y\<rfloor> + 5" "0 \<le> v" using assms False by (simp_all add: trunc_def)
  ultimately show ?thesis using False by (simp add: round_away_def)
next
  case y: True
  have r: "round_away (y / 10) = - \<lfloor>- y / 10 + 1 / 2\<rfloor>" using y by (simp add: round_away_def)
  define w where "w = \<lfloor>- y\<rfloor> + 5"
  have "w = \<lfloor>- y + 5\<rfloor>" unfolding w_def by linarith
  moreover have "(- y + 5) / 10 = - y / 10 + 1 / 2" by (simp add: field_simps)
  ultimately have w: "w div 10 = \<lfloor>- y / 10 + 1 / 2\<rfloor>" using floor_div10 [of "- y + 5"] by (simp only:)
  have t: "t = - \<lfloor>- y\<rfloor>" using assms(1) y by (simp add: trunc_def)
  show ?thesis
  proof (cases "t < 0")
    case True
    then have "v = - w" "6 \<le> w" using assms(2) t by (simp_all add: w_def)
    moreover from this have "1 \<le> w div 10 \<or> w mod 10 \<noteq> 0" "0 \<le> w div 10" by presburger+
    ultimately have "(if v div 10 < 0 \<and> v mod 10 \<noteq> 0 then v div 10 + 1 else v div 10) = - (w div 10)"
      by (auto simp: zdiv_zminus1_eq_if zmod_zminus1_eq_if)
    then show ?thesis using w r by simp
  next
    case False
    then have "\<lfloor>- y\<rfloor> = 0" using t y by linarith
    then have "w = 5" "v = 5" using assms(2) t by (simp_all add: w_def)
    then show ?thesis using w r by simp
  qed
qed

definition places_ok :: "int \<Rightarrow> bool" where
  "places_ok p = (MinInt32 < p \<and> p \<le> MaxInt32)"

lemma places_i32:
  assumes "places_ok p"
  shows "i32 (- p) = - p" "i32 (- p - 1) = - p - 1" "i32 (i32 (- p) - 1) = - p - 1"
  using assms i32_id [of "- p"] i32_id [of "- p - 1"] by (simp_all add: places_ok_def)

lemma Round_mk:
  assumes "places_ok p"
  shows "Decimal_Round d p = mkDecimal (round_away (dval d * 10 powi p)) (- p)"
proof -
  let ?ret = "rescale d (i32 (i32 (- p) - 1))"
  let ?y = "dval d * 10 powi (p + 1)"
  have ret: "?ret = rescale d (- p - 1)" using places_i32(3) [OF assms] by (simp only:)
  have t: "ensureInitialized (rescale d (- p - 1)) = trunc ?y"
    unfolding rescale_value by (simp add: add.commute)
  have y: "?y / 10 = dval d * 10 powi p" by (simp add: powi_plus)
  show ?thesis
    unfolding Decimal_Round_def ret Let_def rescale_exp round_digit [OF t refl] y
    using places_i32(1) [OF assms] by simp
qed

lemma Round_dval:
  "places_ok p \<Longrightarrow> dval (Decimal_Round d p) = of_int (round_away (dval d * 10 powi p)) * 10 powi - p"
  by (simp add: Round_mk)

lemma round_away_dist: "\<bar>of_int (round_away x) - x\<bar> \<le> 1 / 2"
  unfolding round_away_def by (cases "x < 0"; simp only: if_True if_False; linarith)

lemma half_dist:
  "\<bar>x - of_int (round_away x)\<bar> = 1 / 2 \<longleftrightarrow> x - of_int \<lfloor>x\<rfloor> = 1 / 2"
proof
  assume "x - of_int \<lfloor>x\<rfloor> = 1 / 2"
  then obtain k where k: "x = of_int k + 1 / 2" by (metis add.commute diff_add_cancel)
  then show "\<bar>x - of_int (round_away x)\<bar> = 1 / 2"
    by (cases "k < 0") (auto simp: round_away_def)
next
  assume a: "\<bar>x - of_int (round_away x)\<bar> = 1 / 2"
  then have "x = of_int (round_away x) + 1 / 2 \<or> x = of_int (round_away x - 1) + 1 / 2"
    by (auto simp: abs_if split: if_splits)
  then obtain m where "x = of_int m + 1 / 2" by blast
  moreover from this have "\<lfloor>x\<rfloor> = m" by linarith
  ultimately show "x - of_int \<lfloor>x\<rfloor> = 1 / 2" by simp
qed

lemma round_away_half:
  assumes "x - of_int \<lfloor>x\<rfloor> = 1 / 2"
  shows "round_away x = (if x < 0 then \<lfloor>x\<rfloor> else \<lfloor>x\<rfloor> + 1)"
proof -
  from assms obtain k where "x = of_int k + 1 / 2" by (metis add.commute diff_add_cancel)
  then show ?thesis by (auto simp: round_away_def) linarith
qed

lemma RoundBank_mk:
  assumes "places_ok p"
  shows "Decimal_RoundBank d p = mkDecimal (round_even (dval d * 10 powi p)) (- p)"
proof -
  let ?x = "dval d * 10 powi p"
  have s: "dval d = ?x * 10 powi - p" by (simp add: powi_cancel)
  let ?rem = "Decimal_Abs (Decimal_Sub d (Decimal_Round d p))"
  have "dval ?rem = \<bar>?x * 10 powi - p - of_int (round_away ?x) * 10 powi - p\<bar>"
    unfolding Abs_dval Sub_dval Round_dval [OF assms]
    by (rule arg_cong [OF s, of "\<lambda>z. \<bar>z - of_int (round_away ?x) * 10 powi - p\<bar>"])
  also have "\<dots> = \<bar>?x - of_int (round_away ?x)\<bar> * 10 powi - p"
    by (simp add: abs_mult flip: left_diff_distrib)
  finally have rem: "dval ?rem = \<bar>?x - of_int (round_away ?x)\<bar> * 10 powi - p" .
  have half: "dval (New_Decimal 5 (- p - 1)) = (1 / 2) * 10 powi - p"
    using powi_plus [of "- p" "- 1"] by (simp add: power_int_minus)
  have "Decimal_Cmp ?rem (New_Decimal 5 (- p - 1)) = 0 \<longleftrightarrow> dval ?rem = dval (New_Decimal 5 (- p - 1))"
    by (auto simp: Cmp_dval cmp_rat_def)
  then have c: "Decimal_Cmp ?rem (New_Decimal 5 (- p - 1)) = 0 \<longleftrightarrow> ?x - of_int \<lfloor>?x\<rfloor> = 1 / 2"
    unfolding rem half half_dist [symmetric] by (metis mult_cancel_right powi_pos less_irrefl)
  show ?thesis
  proof (cases "?x - of_int \<lfloor>?x\<rfloor> = 1 / 2")
    case True
    have "(?x < 0) = (\<lfloor>?x\<rfloor> < 0)" by linarith
    then show ?thesis
      using c True round_away_half [OF True] places_i32 [OF assms]
      by (auto simp: Decimal_RoundBank_def Let_def Round_mk [OF assms] round_even_def simp del: New_mk)
  next
    case False
    then show ?thesis
      using c places_i32 [OF assms]
      by (simp add: Decimal_RoundBank_def Let_def Round_mk [OF assms] round_even_def del: New_mk)
  qed
qed

end
