(* ===== verification/DecimalDiv.thy ===== *)
theory DecimalDiv
  imports DecimalProps
begin

text \<open>Truncation, floor and ceiling, and division with remainder and with rounding.\<close>

section \<open>Truncate, Floor, Ceil\<close>

lemma dval_scaled_int:
  assumes "- dec_exp d \<le> p"
  shows "dval d * 10 powi p = of_int (ensureInitialized d * 10 ^ nat (dec_exp d + p))"
  using assms powi_nat [of "dec_exp d + p"] by (simp add: dval_def powi_plus)

lemma Truncate_dval:
  assumes "0 \<le> p"
  shows "dval (Decimal_Truncate d p) = of_int (trunc (dval d * 10 powi p)) * 10 powi - p"
proof (cases "- p > dec_exp d")
  case True
  then show ?thesis using assms by (simp add: Decimal_Truncate_def dval_def rescale_value)
next
  case False
  then have "- dec_exp d \<le> p" by simp
  from dval_scaled_int [OF this] have "of_int (trunc (dval d * 10 powi p)) = dval d * 10 powi p"
    by (metis trunc_of_int)
  then show ?thesis using False powi_cancel [of "dval d" p] by (simp add: Decimal_Truncate_def dval_def)
qed

lemma Floor_dval: "dval (Decimal_Floor d) = of_int \<lfloor>dval d\<rfloor>"
proof (cases "dec_exp d \<ge> 0")
  case True
  then have "dval d = of_int (ensureInitialized d * 10 ^ nat (dec_exp d))"
    by (simp add: dval_def powi_nat)
  then have "of_int \<lfloor>dval d\<rfloor> = dval d" by (metis floor_of_int)
  moreover have "dval (Decimal_Floor d) = dval d" using True by (simp add: Decimal_Floor_def Let_def dval_def)
  ultimately show ?thesis by (simp only:)
next
  case False
  then have "dval d = of_int (ensureInitialized d) / of_int (10 ^ nat (- dec_exp d))"
    using powi_minus [of "- dec_exp d"] powi_nat [of "- dec_exp d"] by (simp add: dval_def)
  then have "\<lfloor>dval d\<rfloor> = ensureInitialized d div 10 ^ nat (- dec_exp d)" by (simp only: floor_divide_of_int_eq)
  then show ?thesis using False by (simp add: Decimal_Floor_def Let_def)
qed

lemma Ceil_dval: "dval (Decimal_Ceil d) = of_int \<lceil>dval d\<rceil>"
proof (cases "dec_exp d \<ge> 0")
  case True
  then have "dval d = of_int (ensureInitialized d * 10 ^ nat (dec_exp d))"
    by (simp add: dval_def powi_nat)
  then have "of_int \<lceil>dval d\<rceil> = dval d" by (metis ceiling_of_int)
  moreover have "dval (Decimal_Ceil d) = dval d" using True by (simp add: Decimal_Ceil_def Let_def dval_def)
  ultimately show ?thesis by (simp only:)
next
  case False
  let ?s = "10 ^ nat (- dec_exp d) :: int"
  have "dval d = of_int (ensureInitialized d) / of_int ?s"
    using False powi_minus [of "- dec_exp d"] powi_nat [of "- dec_exp d"] by (simp add: dval_def)
  then have "\<lceil>dval d\<rceil> = - (- ensureInitialized d div ?s)" by (simp only: ceiling_divide_eq_div)
  also have "\<dots> = (if ensureInitialized d mod ?s \<noteq> 0 then ensureInitialized d div ?s + 1 else ensureInitialized d div ?s)"
    by (simp add: zdiv_zminus1_eq_if)
  finally show ?thesis using False by (simp add: Decimal_Ceil_def Let_def)
qed

section \<open>Division\<close>

text \<open>Exponents and precisions far from the ends of the 32-bit range.\<close>

definition moderate :: "int \<Rightarrow> bool" where
  "moderate x = (- 500000000 \<le> x \<and> x \<le> 500000000)"

lemma powi_nonpos: "\<not> (10 :: rat) powi k \<le> 0"
  by (simp add: not_le)

lemma i32_i32_diff: "i32 (i32 x - y) = i32 (x - y)"
  unfolding i32_def
  using signed_take_bit_diff [of 31 "signed_take_bit 31 x" y] signed_take_bit_diff [of 31 x y] by simp

lemma moderate_i32:
  assumes "moderate a" "moderate b" "moderate p"
  shows "i32 (- p) = - p" "i32 (i32 (a - b) - - p) = a - b + p" "i32 (- p + b) = b - p" "i32 (a + p) = a + p"
    "i32 (b - p + p) = b"
  unfolding i32_i32_diff using assms by (simp_all add: moderate_def i32_id)

lemma quot_scale:
  assumes "A * 10 powi k = (x :: rat)" "B * 10 powi k = y * 10 powi - p"
  shows "A / B = x / y * 10 powi p"
proof -
  have "A / B = (A * 10 powi k) / (B * 10 powi k)" by simp
  also have "\<dots> = x / (y * 10 powi - p)" unfolding assms ..
  finally show ?thesis by (simp add: powi_minus)
qed

lemma QuoRem_mk:
  assumes "moderate (dec_exp d)" "moderate (dec_exp d2)" "moderate p" "dval d2 \<noteq> 0"
  obtains aa bb k where
    "Decimal_QuoRem d d2 p = Inr (mkDecimal (big_Quo aa bb) (- p), mkDecimal (big_Rem aa bb) k)"
    "bb \<noteq> 0" "of_int aa / of_int bb = dval d / dval d2 * 10 powi p"
    "of_int aa * 10 powi k = dval d" "of_int bb * 10 powi k = dval d2 * 10 powi - p" "i32 (k + p) = k + p"
    "sgn aa = sgn (ensureInitialized d)"
proof -
  let ?a = "ensureInitialized d" and ?b = "ensureInitialized d2"
  let ?e = "dec_exp d - dec_exp d2 + p"
  note i = moderate_i32 [OF assms(1-3)]
  have b: "?b \<noteq> 0" using assms(4) by (simp add: dval_def)
  have e: "MinInt32 \<le> ?e" "?e \<le> MaxInt32" using assms(1-3) by (simp_all add: moderate_def)
  have r: "10 powi dec_exp d = (10 :: rat) powi ?e * 10 powi (dec_exp d2 - p)"
    by (simp flip: powi_plus)
  show ?thesis
  proof (cases "?e < 0")
    case True
    let ?bb = "?b * 10 ^ nat (- ?e)"
    have q: "Decimal_QuoRem d d2 p = Inr (mkDecimal (big_Quo ?a ?bb) (- p), mkDecimal (big_Rem ?a ?bb) (dec_exp d))"
      using b e True i by (simp add: Decimal_QuoRem_def Let_def)
    have bb: "of_int ?bb = of_int ?b * (10 :: rat) powi - ?e" using True powi_nat [of "- ?e"] by simp
    have "10 powi - ?e * 10 powi dec_exp d = 10 powi dec_exp d2 * (10 :: rat) powi - p" by (simp flip: powi_plus)
    then have "of_int ?bb * 10 powi dec_exp d = dval d2 * 10 powi - p"
      unfolding bb dval_def by (metis mult.assoc)
    moreover have "of_int ?a * 10 powi dec_exp d = dval d" by (simp add: dval_def)
    moreover from quot_scale [OF calculation(2,1)] have "of_int ?a / of_int ?bb = dval d / dval d2 * 10 powi p" .
    ultimately show ?thesis using that [OF q] b i(4) by simp
  next
    case False
    let ?aa = "?a * 10 ^ nat ?e"
    have q: "Decimal_QuoRem d d2 p = Inr (mkDecimal (big_Quo ?aa ?b) (- p), mkDecimal (big_Rem ?aa ?b) (dec_exp d2 - p))"
      using b e False i by (simp add: Decimal_QuoRem_def Let_def)
    have aa: "of_int ?aa = of_int ?a * (10 :: rat) powi ?e" using False powi_nat [of ?e] by simp
    have "of_int ?b * 10 powi (dec_exp d2 - p) = dval d2 * 10 powi - p"
      using powi_plus [of "dec_exp d2" "- p"] by (simp add: dval_def)
    moreover have "of_int ?aa * 10 powi (dec_exp d2 - p) = dval d"
      unfolding aa by (simp add: dval_def r)
    moreover from quot_scale [OF calculation(2,1)] have "of_int ?aa / of_int ?b = dval d / dval d2 * 10 powi p" .
    ultimately show ?thesis using that [OF q] b i(5) by (simp add: sgn_mult)
  qed
qed

lemma QuoRem_spec:
  assumes "moderate (dec_exp d)" "moderate (dec_exp d2)" "moderate p" "dval d2 \<noteq> 0"
  shows "\<exists>q r. Decimal_QuoRem d d2 p = Inr (q, r) \<and> dval d = dval d2 * dval q + dval r \<and> dec_exp q = - p \<and>
    \<bar>dval r\<bar> < \<bar>dval d2\<bar> * 10 powi - p \<and> (0 \<le> dval d \<longrightarrow> 0 \<le> dval r) \<and> (dval d \<le> 0 \<longrightarrow> dval r \<le> 0)"
proof -
  obtain aa bb k where *:
    "Decimal_QuoRem d d2 p = Inr (mkDecimal (big_Quo aa bb) (- p), mkDecimal (big_Rem aa bb) k)" "bb \<noteq> 0"
    "of_int aa * 10 powi k = dval d" "of_int bb * 10 powi k = dval d2 * 10 powi - p"
    using QuoRem_mk [OF assms] by metis
  have aa: "of_int aa = (of_int bb * of_int (big_Quo aa bb) + of_int (big_Rem aa bb) :: rat)"
    using big_Quo_Rem [of aa bb] by (metis of_int_add of_int_mult)
  have "dval d = of_int bb * 10 powi k * of_int (big_Quo aa bb) + of_int (big_Rem aa bb) * 10 powi k"
    unfolding * (3) [symmetric] aa by (simp add: algebra_simps)
  then have 1: "dval d = dval d2 * (of_int (big_Quo aa bb) * 10 powi - p) + of_int (big_Rem aa bb) * 10 powi k"
    unfolding *(4) by (simp add: algebra_simps)
  have "\<bar>of_int (big_Rem aa bb)\<bar> < (\<bar>of_int bb\<bar> :: rat)" using big_Rem_less [OF *(2), of aa] by linarith
  then have "\<bar>of_int (big_Rem aa bb) * 10 powi k\<bar> < \<bar>of_int bb * (10 :: rat) powi k\<bar>" by (simp add: abs_mult)
  then have 2: "\<bar>of_int (big_Rem aa bb) * 10 powi k\<bar> < \<bar>dval d2\<bar> * 10 powi - p" unfolding *(4) by (simp add: abs_mult)
  have "(0 \<le> dval d) = (0 \<le> aa)" "(dval d \<le> 0) = (aa \<le> 0)"
    unfolding *(3) [symmetric] by (simp_all add: zero_le_mult_iff mult_le_0_iff powi_nonpos)
  then show ?thesis using * (1,2) 1 2 big_Rem_sign [OF *(2), of aa] by (auto simp: mult_le_0_iff)
qed

lemma round_trunc:
  assumes "bb \<noteq> 0" "x = of_int aa / of_int bb"
  shows "round_away x = (if 2 * \<bar>big_Rem aa bb\<bar> < \<bar>bb\<bar> then big_Quo aa bb
    else if sgn aa * sgn bb < 0 then big_Quo aa bb - 1 else big_Quo aa bb + 1)"
proof -
  let ?q = "big_Quo aa bb" and ?r = "big_Rem aa bb"
  have x: "x = of_int ?q + of_int ?r / of_int bb"
  proof -
    have "of_int aa = (of_int bb * of_int ?q + of_int ?r :: rat)"
      using big_Quo_Rem [of aa bb] by (metis of_int_add of_int_mult)
    then show ?thesis using assms by (simp add: field_simps)
  qed
  define f :: rat where "f = of_int ?r / of_int bb"
  have f: "\<bar>f\<bar> < 1" using big_Rem_less [OF assms(1), of aa] by (simp add: f_def abs_divide flip: of_int_abs)
  have half: "2 * \<bar>?r\<bar> < \<bar>bb\<bar> \<longleftrightarrow> \<bar>f\<bar> < 1 / 2"
  proof -
    have "\<bar>f\<bar> < 1 / 2 \<longleftrightarrow> (of_int (2 * \<bar>?r\<bar>) :: rat) < of_int \<bar>bb\<bar>"
      using assms(1) by (simp add: f_def abs_divide field_simps)
    then show ?thesis by (simp only: of_int_less_iff)
  qed
  have sg: "sgn aa * sgn bb < 0 \<longleftrightarrow> x < 0"
    using assms by (auto simp: sgn_if divide_less_0_iff)
  obtain n where n: "?q = sgn aa * sgn bb * n" "0 \<le> n"
    using assms(1) pos_imp_zdiv_nonneg_iff [of "\<bar>bb\<bar>" "\<bar>aa\<bar>"] by (auto simp: big_Quo_def)
  have fx: "0 \<le> x \<Longrightarrow> 0 \<le> f \<and> 0 \<le> ?q" "x < 0 \<Longrightarrow> f \<le> 0 \<and> ?q \<le> 0"
    using assms big_Rem_sign [OF assms(1), of aa] n
    by (auto simp: f_def x[symmetric] zero_le_divide_iff divide_less_0_iff divide_le_0_iff sgn_if)
  show ?thesis
  proof (cases "x < 0")
    case True
    have "\<lfloor>- x + 1 / 2\<rfloor> = (if \<bar>f\<bar> < 1 / 2 then - ?q else - ?q + 1)"
      using fx(2) [OF True] f unfolding x f_def [symmetric] by (auto intro!: floor_unique)
    then show ?thesis using True half sg by (simp add: round_away_def)
  next
    case False
    have "\<lfloor>x + 1 / 2\<rfloor> = (if \<bar>f\<bar> < 1 / 2 then ?q else ?q + 1)"
      using fx(1) False f unfolding x f_def [symmetric] by (auto intro!: floor_unique)
    then show ?thesis using False half sg by (simp add: round_away_def)
  qed
qed

lemma DivRound_spec:
  assumes "moderate (dec_exp d)" "moderate (dec_exp d2)" "moderate p" "dval d2 \<noteq> 0" "dec_value d \<noteq> None"
  shows "\<exists>q. Decimal_DivRound d d2 p = Inr q \<and> dval q = of_int (round_away (dval d / dval d2 * 10 powi p)) * 10 powi - p"
proof -
  obtain aa bb k where *:
    "Decimal_QuoRem d d2 p = Inr (mkDecimal (big_Quo aa bb) (- p), mkDecimal (big_Rem aa bb) k)" "bb \<noteq> 0"
    "of_int aa / of_int bb = dval d / dval d2 * 10 powi p"
    "of_int bb * 10 powi k = dval d2 * 10 powi - p" "i32 (k + p) = k + p" "sgn aa = sgn (ensureInitialized d)"
    using QuoRem_mk [OF assms(1-4)] by metis
  have v: "deref_value d = Inr (ensureInitialized d)" "deref_value d2 = Inr (ensureInitialized d2)"
    using assms(4,5) by (auto simp: deref_value_def ensureInitialized_def dval_def split: option.splits)
  have "of_int (2 * \<bar>big_Rem aa bb\<bar>) * 10 powi (k + p) < \<bar>dval d2\<bar> \<longleftrightarrow> 2 * \<bar>big_Rem aa bb\<bar> < \<bar>bb\<bar>"
  proof -
    have "\<bar>dval d2\<bar> = of_int \<bar>bb\<bar> * 10 powi (k + p)"
    proof -
      have "dval d2 = of_int bb * 10 powi k * 10 powi p" unfolding *(4) by (simp add: powi_minus)
      then show ?thesis by (simp add: powi_plus abs_mult)
    qed
    then show ?thesis by (metis mult_less_cancel_right_pos of_int_less_iff powi_pos)
  qed
  then have c: "Decimal_Cmp (mkDecimal (2 * \<bar>big_Rem aa bb\<bar>) (i32 (k + p))) (Decimal_Abs d2) < 0 \<longleftrightarrow> 2 * \<bar>big_Rem aa bb\<bar> < \<bar>bb\<bar>"
    unfolding *(5) by (simp add: Cmp_dval cmp_rat_def Abs_dval)
  have sg: "sgn bb = sgn (ensureInitialized d2)"
  proof -
    have "sgn (of_int bb * 10 powi k :: rat) = sgn (dval d2 * 10 powi - p)" by (simp only: *(4))
    then have "sgn (of_int bb :: rat) = sgn (of_int (ensureInitialized d2))" by (simp add: sgn_mult dval_def)
    then show ?thesis by (simp add: sgn_if split: if_splits)
  qed
  have i: "i32 (- p) = - p" using moderate_i32(1) [OF assms(1-3)] .
  note r = round_trunc [OF *(2) *(3) [symmetric], unfolded *(6) sg]
  show ?thesis
  proof (cases "2 * \<bar>big_Rem aa bb\<bar> < \<bar>bb\<bar>")
    case True
    then show ?thesis using *(1) c r by (simp add: Decimal_DivRound_def Let_def)
  next
    case False
    have one: "dval (New_Decimal 1 (- p)) = 10 powi - p" by simp
    show ?thesis
      using *(1) c r v i False
      by (simp add: Decimal_DivRound_def Let_def Add_dval Sub_dval one algebra_simps del: New_mk)
  qed
qed

end
