(* ===== verification/DecimalFormat.thy ===== *)
theory DecimalFormat
  imports DecimalDiv
begin

text \<open>The text and binary formats are read back.\<close>

section \<open>Characters\<close>

abbreviation plain :: "char \<Rightarrow> bool" where
  "plain c \<equiv> c \<noteq> CHR ''.'' \<and> c \<noteq> CHR ''e'' \<and> c \<noteq> CHR ''E''"

lemma plain_digits: "list_all is_digit s \<Longrightarrow> list_all plain s"
  using sign_not_digit by (auto simp: list_all_iff)

lemma split_e_plain:
  assumes "list_all (\<lambda>c. c \<noteq> CHR ''e'' \<and> c \<noteq> CHR ''E'') s"
  shows "split_e s = (s, None)"
proof -
  have "dropWhile (\<lambda>c. c \<noteq> CHR ''e'' \<and> c \<noteq> CHR ''E'') s = []" using assms by (simp add: list_all_iff)
  then show ?thesis by (simp only: split_e_def list.case)
qed

lemma split_dots_plain: "list_all plain s \<Longrightarrow> split_dots s = [s]"
  by (induction s) auto

lemma split_dots_append: "list_all plain a \<Longrightarrow> split_dots (a @ CHR ''.'' # s) = a # split_dots s"
  by (induction a) auto

lemma trim_right_split: "\<exists>n. s = trim_right s @ replicate n (CHR ''0'')"
proof -
  have "takeWhile (\<lambda>c. c = CHR ''0'') (rev s) = replicate (List.length (takeWhile (\<lambda>c. c = CHR ''0'') (rev s))) (CHR ''0'')"
    by (rule replicate_length_same [symmetric]) (auto dest: set_takeWhileD)
  moreover have "s = rev (dropWhile (\<lambda>c. c = CHR ''0'') (rev s)) @ rev (takeWhile (\<lambda>c. c = CHR ''0'') (rev s))"
    by (metis rev_append rev_rev_ident takeWhile_dropWhile_id)
  ultimately show ?thesis unfolding trim_right_def by (metis rev_replicate)
qed

lemma trim_right_idem: "trim_right (trim_right s) = trim_right s"
proof -
  have "dropWhile P (dropWhile P xs) = dropWhile P xs" for P and xs :: string by (induction xs) auto
  then show ?thesis by (simp add: trim_right_def)
qed

lemma digits_trim_right: "list_all is_digit s \<Longrightarrow> list_all is_digit (trim_right s)"
  using trim_right_split [of s] by (metis list_all_append)

lemma string_nat_zeros [simp]: "string_nat (s @ replicate n (CHR ''0'')) = string_nat s * 10 ^ n"
proof -
  have "string_nat (replicate n (CHR ''0'')) = 0"
  proof (induction n)
    case (Suc n)
    then show ?case by (simp add: replicate_append_same [symmetric] digit_val_def del: replicate_append_same)
  qed simp
  then show ?thesis by (simp add: string_nat_append)
qed

section \<open>Printing and parsing\<close>

text \<open>A number in fixed-point notation.\<close>

definition fixed_string :: "bool \<Rightarrow> string \<Rightarrow> string \<Rightarrow> string" where
  "fixed_string neg I F = (if neg then ''-'' else []) @ I @ (if F = [] then [] else CHR ''.'' # F)"

lemma parse_fixed:
  assumes "list_all is_digit I" "I \<noteq> []" "list_all is_digit F" "trim_right F = F" "int (List.length F) \<le> 2147483648"
  shows "NewFromString (fixed_string neg I F) =
    Inr (mkDecimal (let n = int (string_nat (I @ F)) in if neg then - n else n) (- int (List.length F)))"
proof -
  let ?sg = "if neg then ''-'' else [] :: string"
  have pl: "list_all plain (?sg @ I)" "list_all plain F" using assms(1,3) plain_digits by auto
  then have e: "split_e (fixed_string neg I F) = (fixed_string neg I F, None)"
    by (intro split_e_plain) (auto simp: fixed_string_def list_all_iff)
  have v: "big_SetString (?sg @ I @ F) = Some (let n = int (string_nat (I @ F)) in if neg then - n else n)"
    using assms(1-3) SetString_neg [of "I @ F"] SetString_digits [of "I @ F"] by (cases neg) simp_all
  show ?thesis
  proof (cases "F = []")
    case True
    then show ?thesis using v e split_dots_plain [OF pl(1)]
      by (simp add: NewFromString_def fixed_string_def)
  next
    case False
    have "split_dots (fixed_string neg I F) = [?sg @ I, F]"
      using False split_dots_append [OF pl(1), of F] split_dots_plain [OF pl(2)] by (simp add: fixed_string_def)
    then show ?thesis using v e assms(4,5) by (simp add: NewFromString_def Let_def)
  qed
qed

lemma string_fixed:
  assumes "dec_exp d < 0" "dec_value d = Some v"
  obtains I F where "Decimal_string t d = Inr (fixed_string (v < 0) I (if t then trim_right F else F))"
    "list_all is_digit I" "I \<noteq> []" "list_all is_digit F" "List.length F = nat (- dec_exp d)"
    "int (string_nat (I @ F)) = \<bar>v\<bar>"
proof -
  let ?s = "nat_string (nat \<bar>v\<bar>)" and ?k = "nat (- dec_exp d)"
  have str: "big_String \<bar>v\<bar> = ?s" by (simp add: big_String_def)
  show ?thesis
  proof (cases "List.length ?s > ?k")
    case True
    let ?I = "take (List.length ?s - ?k) ?s" and ?F = "drop (List.length ?s - ?k) ?s"
    have "list_all is_digit (?I @ ?F)" by simp
    then have "list_all is_digit ?I" "list_all is_digit ?F" unfolding list_all_append by simp_all
    moreover have "Decimal_string t d = Inr (fixed_string (v < 0) ?I (if t then trim_right ?F else ?F))"
      using assms True by (simp add: Decimal_string_def deref_value_def str Let_def fixed_string_def)
    moreover have "?I \<noteq> []" using True assms(1) by simp
    moreover have "int (string_nat (?I @ ?F)) = \<bar>v\<bar>" by simp
    ultimately show ?thesis using that True by simp
  next
    case False
    let ?F = "replicate (?k - List.length ?s) (CHR ''0'') @ ?s"
    have z: "is_digit (CHR ''0'')" using is_digit_char [of 0] by simp
    then have "list_all is_digit (replicate m (CHR ''0''))" for m by (induction m) simp_all
    then have "list_all is_digit ''0''" "list_all is_digit ?F" using z by simp_all
    moreover have "Decimal_string t d = Inr (fixed_string (v < 0) ''0'' (if t then trim_right ?F else ?F))"
      using assms False by (simp add: Decimal_string_def deref_value_def str Let_def fixed_string_def)
    moreover have "string_nat (''0'' @ replicate m (CHR ''0'') @ ?s) = nat \<bar>v\<bar>" for m
      using string_nat_append [of "''0'' @ replicate m (CHR ''0'')" ?s] string_nat_zeros [of "''0''" m]
        string_nat_snoc [of "[]" "CHR ''0''"] by (simp add: digit_val_def)
    ultimately show ?thesis using that [of "''0''" ?F] False by simp
  qed
qed

lemma value_sign: "(if v < 0 then - \<bar>v\<bar> else \<bar>v\<bar>) = (v :: int)"
  by simp

lemma String_parse:
  assumes "exp_ok d" "Decimal_String d = Inr s"
  shows "\<exists>d'. NewFromString s = Inr d' \<and> dval d' = dval d"
proof (cases "dec_exp d < 0")
  case True
  then obtain v where v: "dec_value d = Some v"
    using assms(2) by (auto simp: Decimal_String_def Decimal_string_def deref_value_def split: option.splits)
  obtain I F where F: "s = fixed_string (v < 0) I (trim_right F)" "list_all is_digit I" "I \<noteq> []" "list_all is_digit F"
    "List.length F = nat (- dec_exp d)" "int (string_nat (I @ F)) = \<bar>v\<bar>"
    using string_fixed [OF True v, of True] assms(2) unfolding Decimal_String_def by (metis sum.inject(2))
  obtain n where n: "F = trim_right F @ replicate n (CHR ''0'')" using trim_right_split by blast
  let ?T = "trim_right F"
  have l: "List.length F = List.length ?T + n" using arg_cong [OF n, of List.length] by simp
  then have m: "int (List.length ?T) \<le> int (List.length F)" by simp
  also have "int (List.length F) \<le> 2147483648" using assms(1) F(5) True by (simp add: exp_ok_def)
  finally have m: "int (List.length ?T) \<le> 2147483648" .
  have "string_nat (I @ F) = string_nat (I @ ?T) * 10 ^ n"
    by (subst n) (simp only: append_assoc [symmetric] string_nat_zeros)
  then have val: "int (string_nat (I @ ?T)) * 10 ^ n = \<bar>v\<bar>" using F(6) by simp
  have "(10 :: rat) powi (- int (List.length ?T)) = 10 ^ n * 10 powi dec_exp d"
  proof -
    have "- int (List.length ?T) = int n + dec_exp d" using l F(5) True by simp
    then show ?thesis by (simp add: powi_plus)
  qed
  moreover have "rat_of_int (let k = int (string_nat (I @ ?T)) in if v < 0 then - k else k) * 10 ^ n = of_int v"
  proof -
    have "(let k = int (string_nat (I @ ?T)) in if v < 0 then - k else k) * 10 ^ n = v"
      using val by (auto simp: Let_def)
    then show ?thesis by (metis of_int_mult of_int_numeral of_int_power)
  qed
  ultimately have "dval (mkDecimal (let k = int (string_nat (I @ ?T)) in if v < 0 then - k else k) (- int (List.length ?T)))
      = of_int v * 10 powi dec_exp d"
    by (simp only: dval_mk mult.assoc [symmetric])
  then have dv: "dval (mkDecimal (let k = int (string_nat (I @ ?T)) in if v < 0 then - k else k) (- int (List.length ?T))) = dval d"
    by (simp add: dval_def v ensureInitialized_def del: dval_mk)
  show ?thesis
    using parse_fixed [OF F(2,3) digits_trim_right [OF F(4)] trim_right_idem, of "v < 0"] m dv F(1)
    by (auto simp del: dval_mk)
next
  case False
  then have s: "s = big_String (ensureInitialized (rescale d 0))"
    using assms(2) by (simp add: Decimal_String_def Decimal_string_def)
  let ?v = "ensureInitialized (rescale d 0)"
  have "s = fixed_string (?v < 0) (nat_string (nat \<bar>?v\<bar>)) []"
    by (simp add: s big_String_def fixed_string_def)
  then have "NewFromString s = Inr (mkDecimal ?v 0)"
    using parse_fixed [of "nat_string (nat \<bar>?v\<bar>)" "[]" "?v < 0"] by (simp add: trim_right_def Let_def)
  moreover have "dval (mkDecimal ?v 0) = dval d"
    using rescale_down(1) [of 0 d] False by (simp add: dval_def)
  ultimately show ?thesis by blast
qed

end
