(* ===== verification/DecimalFloat.thy ===== *)
theory DecimalFloat
  imports DecimalText
begin

text \<open>
  \<^verbatim>\<open>decimal-go.go\<close>, \<^verbatim>\<open>rounding.go\<close> and the conversions from floats of \<^verbatim>\<open>decimal.go\<close>: multiprecision
  decimals with at most 800 digits, shifted by powers of two, and the shortest digits that identify
  a float.  A float is given by its bits.  The buffer \<open>mp_d\<close> holds digit values; the code stores
  them as ASCII characters.  Machine integers are non-negative here, and wrap at \<open>2 ^ 64\<close>.
\<close>

section \<open>The buffer\<close>

record mpdec =
  mp_d :: "nat list"
  mp_nd :: nat
  mp_dp :: int
  mp_neg :: bool
  mp_trunc :: bool

definition bufsize :: nat where
  "bufsize = 800"

definition new_mpdec :: mpdec where
  "new_mpdec = \<lparr>mp_d = replicate bufsize 0, mp_nd = 0, mp_dp = 0, mp_neg = False, mp_trunc = False\<rparr>"

fun trim_digits :: "nat list \<Rightarrow> nat \<Rightarrow> nat" where
  "trim_digits d 0 = 0"
| "trim_digits d (Suc n) = (if d ! n = 0 then trim_digits d n else Suc n)"

definition trim :: "mpdec \<Rightarrow> mpdec" where
  "trim a =
     (let nd = trim_digits (mp_d a) (mp_nd a) in
      a\<lparr>mp_nd := nd, mp_dp := (if nd = 0 then 0 else mp_dp a)\<rparr>)"

text \<open>The digits of a 64-bit number, written backwards and reversed again.\<close>

fun assign_digits :: "nat \<Rightarrow> nat list" where
  "assign_digits v = (if v = 0 then [] else assign_digits (v div 10) @ [v mod 10])"

declare assign_digits.simps [simp del]

definition mp_Assign :: "mpdec \<Rightarrow> nat \<Rightarrow> mpdec" where
  "mp_Assign a v =
     (let ds = assign_digits v; n = List.length ds in
      trim (a\<lparr>mp_d := ds @ drop n (mp_d a), mp_nd := n, mp_dp := int n\<rparr>))"

definition maxShift :: nat where
  "maxShift = 60"

section \<open>Shifts\<close>

definition wrap64 :: "nat \<Rightarrow> nat" where
  "wrap64 n = n mod 2 ^ 64"

text \<open>Picking up digits until the first shifted digit is not zero.\<close>

function pickup_zeros :: "nat \<Rightarrow> nat \<Rightarrow> nat \<Rightarrow> nat \<times> nat" where
  "pickup_zeros k n r =
     (if n \<noteq> 0 \<and> n < 2 ^ k then pickup_zeros k (n * 10) (Suc r) else (n, r))"
  by auto
termination by (relation "measure (\<lambda>(k, n, r). 2 ^ k - n)") auto

declare pickup_zeros.simps [simp del]

fun pickup :: "nat \<Rightarrow> nat list \<Rightarrow> nat \<Rightarrow> nat \<Rightarrow> nat \<times> nat \<times> nat list" where
  "pickup k [] n r = (if n div 2 ^ k = 0 then (case pickup_zeros k n r of (n, r) \<Rightarrow> (n, r, [])) else (n, r, []))"
| "pickup k (c # ds) n r =
     (if n div 2 ^ k = 0 then pickup k ds (wrap64 (n * 10 + c)) (Suc r) else (n, r, c # ds))"

fun shift_digits :: "nat \<Rightarrow> nat list \<Rightarrow> nat \<Rightarrow> nat list \<times> nat" where
  "shift_digits k [] n = ([], n)"
| "shift_digits k (c # ds) n =
     (case shift_digits k ds (wrap64 (n mod 2 ^ k * 10 + c)) of (out, n') \<Rightarrow> (n div 2 ^ k # out, n'))"

text \<open>Each turn multiplies what is left by ten, so it has one more factor of two; after \<open>k\<close> turns nothing is left.\<close>

fun extra_digits :: "nat \<Rightarrow> nat \<Rightarrow> nat \<Rightarrow> nat list" where
  "extra_digits 0 k n = []"
| "extra_digits (Suc fuel) k n =
     (if n = 0 then [] else n div 2 ^ k # extra_digits fuel k (wrap64 (n mod 2 ^ k * 10)))"

definition rightShift :: "mpdec \<Rightarrow> nat \<Rightarrow> mpdec" where
  "rightShift a k =
     (case pickup k (take (mp_nd a) (mp_d a)) 0 0 of
        (n, r, ds) \<Rightarrow>
          if n = 0 then a\<lparr>mp_nd := 0\<rparr>
          else
            let (out, n') = shift_digits k ds n;
                ds' = out @ extra_digits (k + 2) k n';
                w = min bufsize (List.length ds')
            in trim (a\<lparr>mp_d := take bufsize ds' @ drop w (mp_d a), mp_nd := w, mp_dp := mp_dp a - (int r - 1),
                       mp_trunc := mp_trunc a \<or> list_ex (\<lambda>x. x > 0) (drop bufsize ds')\<rparr>))"

text \<open>The table: the number of new digits, and the digits of \<open>5 ^ k\<close>.\<close>

definition leftcheats :: "(int \<times> nat list) list" where
  "leftcheats =
     (0, []) # map (\<lambda>(delta, s). (delta, map digit_val s))
      [(1, ''5''), (1, ''25''), (1, ''125''), (2, ''625''), (2, ''3125''), (2, ''15625''),
       (3, ''78125''), (3, ''390625''), (3, ''1953125''), (4, ''9765625''), (4, ''48828125''),
       (4, ''244140625''), (4, ''1220703125''), (5, ''6103515625''), (5, ''30517578125''),
       (5, ''152587890625''), (6, ''762939453125''), (6, ''3814697265625''), (6, ''19073486328125''),
       (7, ''95367431640625''), (7, ''476837158203125''), (7, ''2384185791015625''),
       (7, ''11920928955078125''), (8, ''59604644775390625''), (8, ''298023223876953125''),
       (8, ''1490116119384765625''), (9, ''7450580596923828125''), (9, ''37252902984619140625''),
       (9, ''186264514923095703125''), (10, ''931322574615478515625''), (10, ''4656612873077392578125''),
       (10, ''23283064365386962890625''), (10, ''116415321826934814453125''),
       (11, ''582076609134674072265625''), (11, ''2910383045673370361328125''),
       (11, ''14551915228366851806640625''), (12, ''72759576141834259033203125''),
       (12, ''363797880709171295166015625''), (12, ''1818989403545856475830078125''),
       (13, ''9094947017729282379150390625''), (13, ''45474735088646411895751953125''),
       (13, ''227373675443232059478759765625''), (13, ''1136868377216160297393798828125''),
       (14, ''5684341886080801486968994140625''), (14, ''28421709430404007434844970703125''),
       (14, ''142108547152020037174224853515625''), (15, ''710542735760100185871124267578125''),
       (15, ''3552713678800500929355621337890625''), (15, ''17763568394002504646778106689453125''),
       (16, ''88817841970012523233890533447265625''), (16, ''444089209850062616169452667236328125''),
       (16, ''2220446049250313080847263336181640625''), (16, ''11102230246251565404236316680908203125''),
       (17, ''55511151231257827021181583404541015625''), (17, ''277555756156289135105907917022705078125''),
       (17, ''1387778780781445675529539585113525390625''), (18, ''6938893903907228377647697925567626953125''),
       (18, ''34694469519536141888238489627838134765625''), (18, ''173472347597680709441192448139190673828125''),
       (19, ''867361737988403547205962240695953369140625'')]"

fun prefixIsLessThan :: "nat list \<Rightarrow> nat list \<Rightarrow> bool" where
  "prefixIsLessThan b [] = False"
| "prefixIsLessThan [] (c # s) = True"
| "prefixIsLessThan (x # b) (c # s) = (if x \<noteq> c then x < c else prefixIsLessThan b s)"

text \<open>
  The digits are read from the last to the first and written from index \<open>w\<close> downwards; an index
  beyond the buffer is dropped, a negative one is out of range.
\<close>

definition put_digit :: "int \<Rightarrow> nat \<Rightarrow> mpdec \<Rightarrow> go_error + mpdec" where
  "put_digit w x a =
     (if w \<ge> int bufsize then Inr (if x \<noteq> 0 then a\<lparr>mp_trunc := True\<rparr> else a)
      else if w < 0 then Inl IndexOutOfRange
      else Inr (a\<lparr>mp_d := (mp_d a)[nat w := x]\<rparr>))"

fun left_digits :: "nat \<Rightarrow> nat \<Rightarrow> int \<Rightarrow> nat \<Rightarrow> mpdec \<Rightarrow> go_error + (nat \<times> int \<times> mpdec)" where
  "left_digits k 0 w n a = Inr (n, w, a)"
| "left_digits k (Suc r) w n a =
     (let n = wrap64 (n + wrap64 (mp_d a ! r * 2 ^ k)) in
      bindE (put_digit (w - 1) (n mod 10) a) (left_digits k r (w - 1) (n div 10)))"

fun left_extra :: "int \<Rightarrow> nat \<Rightarrow> mpdec \<Rightarrow> go_error + mpdec" where
  "left_extra w n a =
     (if n = 0 then Inr a else bindE (put_digit (w - 1) (n mod 10) a) (left_extra (w - 1) (n div 10)))"

declare left_extra.simps [simp del]

definition leftShift :: "mpdec \<Rightarrow> nat \<Rightarrow> go_error + mpdec" where
  "leftShift a k =
     (if k \<ge> List.length leftcheats then Inl IndexOutOfRange
      else
        let (delta0, cutoff) = leftcheats ! k;
            delta = (if prefixIsLessThan (take (mp_nd a) (mp_d a)) cutoff then delta0 - 1 else delta0)
        in bindE (left_digits k (mp_nd a) (int (mp_nd a) + delta) 0 a) (\<lambda>(n, w, b).
             bindE (left_extra w n b) (\<lambda>c.
               let nd = int (mp_nd a) + delta;
                   nd = (if nd \<ge> int bufsize then int bufsize else nd)
               in Inr (trim (c\<lparr>mp_nd := nat nd, mp_dp := mp_dp a + delta\<rparr>)))))"

function shift_left :: "mpdec \<Rightarrow> nat \<Rightarrow> go_error + mpdec" where
  "shift_left a k =
     (if k > maxShift then bindE (leftShift a maxShift) (\<lambda>a. shift_left a (k - maxShift)) else leftShift a k)"
  by auto
termination by (relation "measure snd") (auto simp: maxShift_def)

function shift_right :: "mpdec \<Rightarrow> nat \<Rightarrow> mpdec" where
  "shift_right a k =
     (if k > maxShift then shift_right (rightShift a maxShift) (k - maxShift) else rightShift a k)"
  by auto
termination by (relation "measure snd") (auto simp: maxShift_def)

declare shift_left.simps [simp del] shift_right.simps [simp del]

definition mp_Shift :: "mpdec \<Rightarrow> int \<Rightarrow> go_error + mpdec" where
  "mp_Shift a k =
     (if mp_nd a = 0 then Inr a
      else if k > 0 then shift_left a (nat k)
      else if k < 0 then Inr (shift_right a (nat (- k)))
      else Inr a)"

section \<open>Rounding\<close>

definition shouldRoundUp :: "mpdec \<Rightarrow> int \<Rightarrow> bool" where
  "shouldRoundUp a nd =
     (if nd < 0 \<or> nd \<ge> int (mp_nd a) then False
      else if mp_d a ! nat nd = 5 \<and> nd + 1 = int (mp_nd a)
      then (if mp_trunc a then True else nd > 0 \<and> mp_d a ! (nat nd - 1) mod 2 \<noteq> 0)
      else mp_d a ! nat nd \<ge> 5)"

definition mp_RoundDown :: "mpdec \<Rightarrow> int \<Rightarrow> mpdec" where
  "mp_RoundDown a nd =
     (if nd < 0 \<or> nd \<ge> int (mp_nd a) then a else trim (a\<lparr>mp_nd := nat nd\<rparr>))"

fun round_up_at :: "mpdec \<Rightarrow> nat \<Rightarrow> mpdec" where
  "round_up_at a 0 = a\<lparr>mp_d := (mp_d a)[0 := 1], mp_nd := 1, mp_dp := mp_dp a + 1\<rparr>"
| "round_up_at a (Suc i) =
     (if mp_d a ! i < 9 then a\<lparr>mp_d := (mp_d a)[i := mp_d a ! i + 1], mp_nd := Suc i\<rparr>
      else round_up_at a i)"

definition mp_RoundUp :: "mpdec \<Rightarrow> int \<Rightarrow> mpdec" where
  "mp_RoundUp a nd =
     (if nd < 0 \<or> nd \<ge> int (mp_nd a) then a else round_up_at a (nat nd))"

definition mp_Round :: "mpdec \<Rightarrow> int \<Rightarrow> mpdec" where
  "mp_Round a nd =
     (if nd < 0 \<or> nd \<ge> int (mp_nd a) then a
      else if shouldRoundUp a nd then mp_RoundUp a nd else mp_RoundDown a nd)"

definition mp_RoundedInteger :: "mpdec \<Rightarrow> nat" where
  "mp_RoundedInteger a =
     (if mp_dp a > 20 then 0xFFFFFFFFFFFFFFFF
      else
        let i = min (nat (mp_dp a)) (mp_nd a);
            n = foldl (\<lambda>n c. wrap64 (n * 10 + c)) 0 (take i (mp_d a));
            n = foldl (\<lambda>n _. wrap64 (n * 10)) n [i..<nat (mp_dp a)]
        in if shouldRoundUp a (mp_dp a) then wrap64 (n + 1) else n)"

definition mp_String :: "mpdec \<Rightarrow> string" where
  "mp_String a =
     (let ds = map digit_char (take (mp_nd a) (mp_d a)) in
      if mp_nd a = 0 then ''0''
      else if mp_dp a \<le> 0 then ''0.'' @ replicate (nat (- mp_dp a)) (CHR ''0'') @ ds
      else if mp_dp a < int (mp_nd a) then take (nat (mp_dp a)) ds @ ''.'' @ drop (nat (mp_dp a)) ds
      else ds @ replicate (nat (mp_dp a) - mp_nd a) (CHR ''0''))"

section \<open>The shortest digits\<close>

record floatInfo =
  mantbits :: nat
  expbits :: nat
  bias :: int

definition float32info :: floatInfo where
  "float32info = \<lparr>mantbits = 23, expbits = 8, bias = - 127\<rparr>"

definition float64info :: floatInfo where
  "float64info = \<lparr>mantbits = 52, expbits = 11, bias = - 1023\<rparr>"

text \<open>The loop that walks along the digits until they leave both bounds.\<close>

fun shortest_loop :: "mpdec \<Rightarrow> mpdec \<Rightarrow> mpdec \<Rightarrow> bool \<Rightarrow> nat list \<Rightarrow> nat \<Rightarrow> mpdec" where
  "shortest_loop d lower upper inclusive [] i = d"
| "shortest_loop d lower upper inclusive (m # ms) i =
     (let l = (if i < mp_nd lower then mp_d lower ! i else 0);
          u = (if i < mp_nd upper then mp_d upper ! i else 0);
          okdown = (l \<noteq> m \<or> inclusive \<and> i + 1 = mp_nd lower);
          okup = (m \<noteq> u \<and> (inclusive \<or> m + 1 < u \<or> i + 1 < mp_nd upper))
      in if okdown \<and> okup then mp_Round d (int i + 1)
         else if okdown then mp_RoundDown d (int i + 1)
         else if okup then mp_RoundUp d (int i + 1)
         else shortest_loop d lower upper inclusive ms (Suc i))"

definition roundShortest :: "mpdec \<Rightarrow> nat \<Rightarrow> int \<Rightarrow> floatInfo \<Rightarrow> go_error + mpdec" where
  "roundShortest d mant ex flt =
     (if mant = 0 then Inr (d\<lparr>mp_nd := 0\<rparr>)
      else
        let mb = int (mantbits flt); minexp = bias flt + 1 in
        if ex > minexp \<and> 332 * (mp_dp d - int (mp_nd d)) \<ge> 100 * (ex - mb) then Inr d
        else
          bindE (mp_Shift (mp_Assign new_mpdec (wrap64 (mant * 2 + 1))) (ex - mb - 1)) (\<lambda>upper.
            let (mantlo, explo) =
              (if mant > 2 ^ mantbits flt \<or> ex = minexp then (mant - 1, ex) else (wrap64 (mant * 2) - 1, ex - 1))
            in bindE (mp_Shift (mp_Assign new_mpdec (wrap64 (mantlo * 2 + 1))) (explo - mb - 1)) (\<lambda>lower.
                 Inr (shortest_loop d lower upper (even mant) (take (mp_nd d) (mp_d d)) 0))))"

section \<open>Decimals from floats\<close>

definition float_exp :: "nat \<Rightarrow> floatInfo \<Rightarrow> nat" where
  "float_exp bits flt = bits div 2 ^ mantbits flt mod 2 ^ expbits flt"

definition float_mant :: "nat \<Rightarrow> floatInfo \<Rightarrow> nat" where
  "float_mant bits flt = bits mod 2 ^ mantbits flt"

text \<open>\<^verbatim>\<open>math.IsNaN\<close> or \<^verbatim>\<open>math.IsInf\<close>.\<close>

definition not_finite :: "nat \<Rightarrow> floatInfo \<Rightarrow> bool" where
  "not_finite bits flt = (float_exp bits flt = 2 ^ expbits flt - 1)"

text \<open>With fewer than 19 digits the value is computed in an \<^verbatim>\<open>int64\<close>, else parsed from the digits.\<close>

definition newFromFloat :: "nat \<Rightarrow> floatInfo \<Rightarrow> dec_error + Decimal" where
  "newFromFloat bits flt =
     (if not_finite bits flt then Inl PanicNotFinite
      else
        let e = float_exp bits flt;
            mant = (if e = 0 then float_mant bits flt else float_mant bits flt + 2 ^ mantbits flt);
            ex = (if e = 0 then 1 else int e) + bias flt
        in case bindE (mp_Shift (mp_Assign new_mpdec mant) (ex - int (mantbits flt)))
                  (\<lambda>d. roundShortest (d\<lparr>mp_neg := bits div 2 ^ (expbits flt + mantbits flt) \<noteq> 0\<rparr>) mant ex flt) of
             Inl p \<Rightarrow> Inl (PanicRuntime p)
           | Inr d \<Rightarrow>
               let v = foldl (\<lambda>n c. n * 10 + int c) 0 (take (mp_nd d) (mp_d d)) in
               if mp_nd d < 19
               then Inr (mkDecimal (if mp_neg d then - v else v) (mp_dp d - int (mp_nd d)))
               else Inr (mkDecimal v (mp_dp d - int (mp_nd d))))"

definition NewFromFloat :: "nat \<Rightarrow> dec_error + Decimal" where
  "NewFromFloat bits = (if bits mod 2 ^ 63 = 0 then Inr (New_Decimal 0 0) else newFromFloat bits float64info)"

definition NewFromFloat32 :: "nat \<Rightarrow> dec_error + Decimal" where
  "NewFromFloat32 bits = (if bits mod 2 ^ 31 = 0 then Inr (New_Decimal 0 0) else newFromFloat bits float32info)"

end
