(* ===== verification/DecimalShift.thy ===== *)
theory DecimalShift
  imports DecimalFloat DecimalProps
begin

text \<open>
  Shifting a multiprecision decimal multiplies it by a power of two: the digits the table
  \<open>leftcheats\<close> predicts are the digits there are, and the loops leave no gap in the buffer.
\<close>

section \<open>Lists of digits\<close>

definition dnum :: "nat list \<Rightarrow> nat" where
  "dnum ds = foldl (\<lambda>n c. n * 10 + c) 0 ds"

lemma dnum_Nil [simp]: "dnum [] = 0"
  by (simp add: dnum_def)

lemma dnum_snoc: "dnum (ds @ [c]) = dnum ds * 10 + c"
  by (simp add: dnum_def)

lemma dnum_append: "dnum (a @ b) = dnum a * 10 ^ List.length b + dnum b"
  by (induction b rule: rev_induct) (simp_all add: dnum_def algebra_simps)

lemma dnum_Cons: "dnum (c # b) = c * 10 ^ List.length b + dnum b"
  using dnum_append [of "[c]" b] by (simp add: dnum_def)

abbreviation digit :: "nat \<Rightarrow> bool" where
  "digit c \<equiv> c < 10"

lemma dnum_less: "list_all digit ds \<Longrightarrow> dnum ds < 10 ^ List.length ds"
proof (induction ds)
  case (Cons c ds)
  have "c * 10 ^ List.length ds \<le> 9 * 10 ^ List.length ds" using Cons.prems by (intro mult_right_mono) auto
  moreover have "dnum ds < 10 ^ List.length ds" using Cons by simp
  ultimately have "dnum (c # ds) < 10 * 10 ^ List.length ds" unfolding dnum_Cons by linarith
  then show ?case by simp
qed simp

lemma dnum_ge: "c \<noteq> 0 \<Longrightarrow> 10 ^ List.length ds \<le> dnum (c # ds)"
  by (simp add: dnum_Cons trans_le_add1)

lemma dnum_zeros: "dnum (ds @ replicate n 0) = dnum ds * 10 ^ n"
  by (induction n) (simp_all add: dnum_def replicate_append_same [symmetric] flip: append_assoc)

lemma digits_unique:
  assumes "list_all digit a" "list_all digit b" "List.length a = List.length b" "dnum a = dnum b"
  shows "a = b"
  using assms(3,1,2,4)
proof (induction a b rule: list_induct2)
  case (Cons x xs y ys)
  have d: "dnum xs < 10 ^ List.length ys" "dnum ys < 10 ^ List.length ys"
    using dnum_less [of xs] dnum_less [of ys] Cons by simp_all
  have e: "x * 10 ^ List.length ys + dnum xs = y * 10 ^ List.length ys + dnum ys"
    using Cons by (simp add: dnum_Cons)
  have "x = (x * 10 ^ List.length ys + dnum xs) div 10 ^ List.length ys" using d by simp
  also have "\<dots> = y" unfolding e using d by simp
  finally show ?case using e Cons by simp
qed simp

section \<open>The digits of a buffer\<close>

definition digs :: "mpdec \<Rightarrow> nat list" where
  "digs a = take (mp_nd a) (mp_d a)"

text \<open>A canonical list of digits neither begins nor ends with zero.\<close>

definition canonical :: "nat list \<Rightarrow> bool" where
  "canonical ds = (list_all digit ds \<and> (ds \<noteq> [] \<longrightarrow> hd ds \<noteq> 0 \<and> last ds \<noteq> 0))"

definition mp_ok :: "mpdec \<Rightarrow> bool" where
  "mp_ok a = (List.length (mp_d a) = bufsize \<and> mp_nd a \<le> bufsize \<and> canonical (digs a) \<and> (mp_nd a = 0 \<longrightarrow> mp_dp a = 0))"

definition mval :: "mpdec \<Rightarrow> rat" where
  "mval a = of_nat (dnum (digs a)) * 10 powi (mp_dp a - int (mp_nd a))"

lemma trim_digits_le: "trim_digits d n \<le> n"
  by (induction d n rule: trim_digits.induct) auto

lemma trim_digits_last: "trim_digits d n \<noteq> 0 \<Longrightarrow> d ! (trim_digits d n - 1) \<noteq> 0"
  by (induction d n rule: trim_digits.induct) auto

lemma trim_digits_zeros: "n \<le> List.length d \<Longrightarrow> take n d = take (trim_digits d n) d @ replicate (n - trim_digits d n) 0"
proof (induction d n rule: trim_digits.induct)
  case (2 d n)
  then show ?case
    using trim_digits_le [of d n] by (auto simp: take_Suc_conv_app_nth Suc_diff_le replicate_append_same)
qed simp

lemma digs_length: "List.length (mp_d a) = bufsize \<Longrightarrow> mp_nd a \<le> bufsize \<Longrightarrow> List.length (digs a) = mp_nd a"
  by (simp add: digs_def)

lemma powi_shift: "m \<le> n \<Longrightarrow> (10 :: rat) powi (d - int m) = 10 ^ (n - m) * 10 powi (d - int n)"
proof -
  assume "m \<le> n"
  then have "d - int m = int (n - m) + (d - int n)" by simp
  then have "(10 :: rat) powi (d - int m) = 10 powi (int (n - m) + (d - int n))" by (rule arg_cong)
  then show ?thesis by (simp only: powi_plus power_int_of_nat)
qed

text \<open>Trimming keeps the number and leaves a canonical buffer.\<close>

lemma trim_ok:
  assumes "List.length (mp_d a) = bufsize" "mp_nd a \<le> bufsize" "list_all digit (digs a)" "digs a \<noteq> []" "hd (digs a) \<noteq> 0"
  shows "mp_ok (trim a)" "mval (trim a) = mval a" "dnum (digs (trim a)) \<le> dnum (digs a)" "mp_neg (trim a) = mp_neg a"
    "mp_nd (trim a) \<noteq> 0"
proof -
  let ?t = "trim_digits (mp_d a) (mp_nd a)"
  have le: "?t \<le> mp_nd a" by (rule trim_digits_le)
  have z: "digs a = take ?t (mp_d a) @ replicate (mp_nd a - ?t) 0"
    using trim_digits_zeros [of "mp_nd a" "mp_d a"] assms(1,2) by (simp add: digs_def)
  have t0: "?t \<noteq> 0"
  proof
    assume "?t = 0"
    then have "digs a = replicate (mp_nd a) 0" using z by simp
    then show False using assms(4,5) by (cases "mp_nd a") auto
  qed
  have d: "digs (trim a) = take ?t (mp_d a)" by (simp add: trim_def digs_def Let_def)
  have nd: "mp_nd (trim a) = ?t" "mp_dp (trim a) = mp_dp a" "mp_d (trim a) = mp_d a" "mp_neg (trim a) = mp_neg a"
    using t0 by (simp_all add: trim_def Let_def)
  then show "mp_neg (trim a) = mp_neg a" "mp_nd (trim a) \<noteq> 0" using t0 by simp_all
  have v: "dnum (digs a) = dnum (digs (trim a)) * 10 ^ (mp_nd a - ?t)"
    by (simp add: z dnum_zeros d)
  then show "dnum (digs (trim a)) \<le> dnum (digs a)" by simp
  have ne: "take ?t (mp_d a) \<noteq> []" using t0 assms(1,2,4) by (auto simp: digs_def)
  have "hd (take ?t (mp_d a)) = hd (digs a)" using ne by (simp add: z)
  moreover have "last (take ?t (mp_d a)) = mp_d a ! (?t - 1)"
    using ne le assms(1,2) by (simp add: last_conv_nth)
  moreover have "list_all digit (take ?t (mp_d a))" using assms(3) unfolding z by simp
  ultimately have "canonical (digs (trim a))"
    using trim_digits_last [OF t0] assms(5) by (simp add: canonical_def d)
  then show "mp_ok (trim a)" using nd assms(1,2) le t0 by (simp add: mp_ok_def)
  have "(10 :: rat) powi (mp_dp a - int ?t) = 10 ^ (mp_nd a - ?t) * 10 powi (mp_dp a - int (mp_nd a))"
    by (rule powi_shift [OF le])
  then show "mval (trim a) = mval a" by (simp add: mval_def nd v)
qed

section \<open>Assign\<close>

lemma dnum_assign: "dnum (assign_digits v) = v"
proof (induction v rule: assign_digits.induct)
  case (1 v)
  then show ?case by (subst assign_digits.simps) (simp add: dnum_snoc)
qed

lemma digits_assign: "list_all digit (assign_digits v)"
proof (induction v rule: assign_digits.induct)
  case (1 v)
  then show ?case by (subst assign_digits.simps) simp
qed

lemma assign_not_Nil: "v \<noteq> 0 \<Longrightarrow> assign_digits v \<noteq> []"
  by (subst assign_digits.simps) simp

lemma hd_assign: "v \<noteq> 0 \<Longrightarrow> hd (assign_digits v) \<noteq> 0"
proof (induction v rule: assign_digits.induct)
  case (1 v)
  show ?case
  proof (cases "v div 10 = 0")
    case True
    then have "v < 10" by simp
    then show ?thesis using 1(2) True by (simp add: assign_digits.simps [of v] assign_digits.simps [of 0])
  next
    case False
    then show ?thesis using 1 assign_not_Nil [OF False] by (simp add: assign_digits.simps [of v])
  qed
qed

lemma length_assign: "v < 10 ^ k \<Longrightarrow> List.length (assign_digits v) \<le> k"
proof -
  assume v: "v < 10 ^ k"
  show ?thesis
  proof (cases "assign_digits v")
    case (Cons c ds)
    then have "v \<noteq> 0" by (cases "v = 0") (simp_all add: assign_digits.simps [of 0])
    then have "10 ^ List.length ds \<le> dnum (c # ds)" using dnum_ge hd_assign [of v] Cons by simp
    then have "(10 :: nat) ^ List.length ds < 10 ^ k"
      by (rule le_less_trans) (use dnum_assign [of v] v Cons in simp)
    then have "List.length ds < k" by (rule power_less_imp_less_exp [rotated]) simp
    then show ?thesis using Cons by simp
  qed simp
qed

lemma Assign_ok:
  assumes "v \<noteq> 0" "v < 2 ^ 64" "List.length (mp_d a) = bufsize"
  shows "mp_ok (mp_Assign a v)" "mval (mp_Assign a v) = of_nat v" "mp_nd (mp_Assign a v) \<noteq> 0"
    "dnum (digs (mp_Assign a v)) \<le> v"
proof -
  let ?ds = "assign_digits v"
  let ?b = "a\<lparr>mp_d := ?ds @ drop (List.length ?ds) (mp_d a), mp_nd := List.length ?ds, mp_dp := int (List.length ?ds)\<rparr>"
  have "List.length ?ds \<le> 20" using length_assign [of v 20] assms(2) by simp
  then have l: "List.length ?ds \<le> bufsize" by (simp add: bufsize_def)
  have d: "digs ?b = ?ds" by (simp add: digs_def)
  have A: "mp_Assign a v = trim ?b" by (simp add: mp_Assign_def Let_def)
  note t = trim_ok [of ?b, unfolded d dnum_assign]
  have p: "List.length (mp_d ?b) = bufsize" "mp_nd ?b \<le> bufsize" "list_all digit ?ds" "?ds \<noteq> []" "hd ?ds \<noteq> 0"
    using l assms(3) digits_assign assign_not_Nil [OF assms(1)] hd_assign [OF assms(1)] by simp_all
  show "mp_ok (mp_Assign a v)" unfolding A by (rule t(1) [OF p])
  have "mval ?b = of_nat v" unfolding mval_def d dnum_assign by simp
  then show "mval (mp_Assign a v) = of_nat v" unfolding A by (simp only: t(2) [OF p])
  show "mp_nd (mp_Assign a v) \<noteq> 0" unfolding A by (rule t(5) [OF p])
  show "dnum (digs (mp_Assign a v)) \<le> v" unfolding A by (rule t(3) [OF p])
qed

section \<open>Right shift\<close>

lemma wrap64_id: "n < 2 ^ 64 \<Longrightarrow> wrap64 n = n"
  by (simp add: wrap64_def)

lemma shift_bound: "k \<le> 60 \<Longrightarrow> n < 2 ^ k * 10 \<Longrightarrow> n < (2 :: nat) ^ 64"
proof -
  assume "k \<le> 60" "n < 2 ^ k * 10"
  moreover have "(2 :: nat) ^ k \<le> 2 ^ 60" using calculation(1) by (rule power_increasing) simp
  ultimately have "n < 2 ^ 60 * 10" by linarith
  then show ?thesis by simp
qed

lemma step_bound: "n < 2 ^ k \<Longrightarrow> digit c \<Longrightarrow> n * 10 + c < (2 :: nat) ^ k * 10"
  by linarith

lemma pickup_zeros_spec:
  assumes "n \<noteq> 0" "n < 2 ^ k * 10"
  obtains z where "pickup_zeros k n r = (n * 10 ^ z, r + z)" "2 ^ k \<le> n * 10 ^ z" "n * 10 ^ z < 2 ^ k * 10"
  using assms
proof (induction k n r arbitrary: thesis rule: pickup_zeros.induct)
  case (1 k n r)
  show ?case
  proof (cases "n < 2 ^ k")
    case True
    then have c: "n \<noteq> 0 \<and> n < 2 ^ k" using 1(3) by simp
    obtain z where "pickup_zeros k (n * 10) (Suc r) = (n * 10 * 10 ^ z, Suc r + z)" "2 ^ k \<le> n * 10 * 10 ^ z"
      "n * 10 * 10 ^ z < 2 ^ k * 10"
      using 1(1) [OF c] True 1(3) by auto
    then show ?thesis using 1(2) [of "Suc z"] c by (simp add: pickup_zeros.simps [of k n] ac_simps)
  next
    case False
    then show ?thesis using 1(2) [of 0] 1(3,4) by (simp add: pickup_zeros.simps [of k n])
  qed
qed

lemma pickup_spec:
  assumes "k \<le> 60" "list_all digit ds" "n < 2 ^ k" "n \<noteq> 0 \<or> ds \<noteq> [] \<and> hd ds \<noteq> 0"
  shows "\<exists>z n' r' ds'. pickup k ds n r = (n', r', ds') \<and> 2 ^ k \<le> n' \<and> n' < 2 ^ k * 10 \<and>
    (n * 10 ^ List.length ds + dnum ds) * 10 ^ z = n' * 10 ^ List.length ds' + dnum ds' \<and>
    r' + List.length ds' = r + List.length ds + z \<and> list_all digit ds' \<and> (z = 0 \<or> ds' = [] \<and> 10 ^ z dvd n')"
  using assms(2-)
proof (induction ds arbitrary: n r)
  case Nil
  then have n: "n \<noteq> 0" "n < 2 ^ k * 10" by simp_all
  obtain z where z: "pickup_zeros k n r = (n * 10 ^ z, r + z)" "2 ^ k \<le> n * 10 ^ z" "n * 10 ^ z < 2 ^ k * 10"
    using pickup_zeros_spec [OF n] by metis
  then show ?case using Nil by - (rule exI [of _ z], simp)
next
  case (Cons c ds)
  have b: "n * 10 + c < 2 ^ k * 10" using Cons.prems by (intro step_bound) simp_all
  then have w: "wrap64 (n * 10 + c) = n * 10 + c" using wrap64_id shift_bound [OF assms(1)] by blast
  have P: "pickup k (c # ds) n r = pickup k ds (n * 10 + c) (Suc r)" using Cons.prems w by simp
  have e: "n * 10 ^ List.length (c # ds) + dnum (c # ds) = (n * 10 + c) * 10 ^ List.length ds + dnum ds"
    by (simp add: dnum_Cons algebra_simps)
  show ?case
  proof (cases "n * 10 + c < 2 ^ k")
    case True
    have "n * 10 + c \<noteq> 0" using Cons.prems by auto
    then have "\<exists>z n' r' ds'. pickup k ds (n * 10 + c) (Suc r) = (n', r', ds') \<and> 2 ^ k \<le> n' \<and> n' < 2 ^ k * 10 \<and>
      ((n * 10 + c) * 10 ^ List.length ds + dnum ds) * 10 ^ z = n' * 10 ^ List.length ds' + dnum ds' \<and>
      r' + List.length ds' = Suc r + List.length ds + z \<and> list_all digit ds' \<and> (z = 0 \<or> ds' = [] \<and> 10 ^ z dvd n')"
      using Cons.IH [of "n * 10 + c" "Suc r"] Cons.prems(1) True by simp
    then show ?thesis unfolding P e by simp
  next
    case False
    then have "(n * 10 + c) div 2 ^ k \<noteq> 0" by (simp add: div_eq_0_iff)
    then have "pickup k ds (n * 10 + c) (Suc r) = (n * 10 + c, Suc r, ds)" by (cases ds) simp_all
    then show ?thesis unfolding P e using False b Cons.prems
      by (intro exI [of _ 0] exI [of _ "n * 10 + c"] exI [of _ "Suc r"] exI [of _ ds]) simp
  qed
qed

lemma split_step:
  "(q * P + m) * 10 ^ Suc l + (c * 10 ^ l + D) = q * 10 ^ l * 10 * P + ((m * 10 + c) * 10 ^ l + (D :: nat))"
  by (simp add: algebra_simps)

lemma shift_digits_spec:
  assumes "k \<le> 60" "list_all digit ds" "n < 2 ^ k * 10"
  shows "\<exists>out n'. shift_digits k ds n = (out, n') \<and> n' < 2 ^ k * 10 \<and> list_all digit out \<and>
    List.length out = List.length ds \<and> n * 10 ^ List.length ds + dnum ds = dnum out * 10 * 2 ^ k + n' \<and>
    (out \<noteq> [] \<longrightarrow> hd out = n div 2 ^ k) \<and> (ds = [] \<longrightarrow> n' = n)"
  using assms(2,3)
proof (induction ds arbitrary: n)
  case (Cons c ds)
  let ?n1 = "n mod 2 ^ k * 10 + c"
  have b: "?n1 < 2 ^ k * 10" using Cons.prems by (intro step_bound) simp_all
  then have w: "wrap64 ?n1 = ?n1" using wrap64_id shift_bound [OF assms(1)] by blast
  obtain out n' where IH: "shift_digits k ds ?n1 = (out, n')" "n' < 2 ^ k * 10" "list_all digit out"
    "List.length out = List.length ds" "?n1 * 10 ^ List.length ds + dnum ds = dnum out * 10 * 2 ^ k + n'"
    using Cons.IH [of ?n1] Cons.prems b by auto
  have "n * 10 ^ List.length (c # ds) + dnum (c # ds)
      = n div 2 ^ k * 10 ^ List.length ds * 10 * 2 ^ k + (?n1 * 10 ^ List.length ds + dnum ds)"
    using split_step [of "n div 2 ^ k" "2 ^ k" "n mod 2 ^ k" "List.length ds" c "dnum ds"]
    unfolding div_mult_mod_eq by (simp add: dnum_Cons)
  also have "\<dots> = dnum (n div 2 ^ k # out) * 10 * 2 ^ k + n'"
    unfolding IH(5) by (simp add: dnum_Cons IH(4) algebra_simps)
  finally show ?case using IH(1-4) w Cons.prems by (simp add: div_less_iff_less_mult mult.commute)
qed simp

lemma extra_digits_spec:
  assumes "k \<le> 60" "n < 2 ^ k * 10" "2 ^ j dvd n" "j \<le> k" "k + 1 \<le> fuel + j"
  shows "list_all digit (extra_digits fuel k n) \<and> n * 10 ^ List.length (extra_digits fuel k n) = dnum (extra_digits fuel k n) * 10 * 2 ^ k \<and>
    (extra_digits fuel k n \<noteq> [] \<longrightarrow> hd (extra_digits fuel k n) = n div 2 ^ k \<and> last (extra_digits fuel k n) \<noteq> 0) \<and>
    (n \<noteq> 0 \<longrightarrow> extra_digits fuel k n \<noteq> []) \<and> List.length (extra_digits fuel k n) \<le> k + 1 - j"
  using assms(2-)
proof (induction fuel arbitrary: n j)
  case 0
  then show ?case by simp
next
  case (Suc fuel)
  show ?case
  proof (cases "n = 0")
    case False
    let ?n1 = "n mod 2 ^ k * 10"
    have b: "?n1 < 2 ^ k * 10" by simp
    then have w: "wrap64 ?n1 = ?n1" using wrap64_id shift_bound [OF assms(1)] by blast
    have E: "extra_digits (Suc fuel) k n = n div 2 ^ k # extra_digits fuel k ?n1" using False w by simp
    have dig: "n div 2 ^ k < 10" using Suc.prems(1) by (simp add: div_less_iff_less_mult mult.commute)
    have n: "n = n div 2 ^ k * 2 ^ k + n mod 2 ^ k" by (rule div_mult_mod_eq [symmetric])
    show ?thesis
    proof (cases "j = k")
      case True
      then have z: "n mod 2 ^ k = 0" using Suc.prems(2) by simp
      then have "extra_digits fuel k ?n1 = []" by (cases fuel) simp_all
      moreover have "n div 2 ^ k * 2 ^ k = n" "n div 2 ^ k \<noteq> 0" using n z False by auto
      ultimately show ?thesis unfolding E using dig True by (simp add: dnum_def)
    next
      case j: False
      have "2 ^ j dvd n mod 2 ^ k" using Suc.prems(2,3) by (simp add: dvd_mod le_imp_power_dvd)
      then have "2 ^ Suc j dvd ?n1" by (simp add: mult.commute mult_dvd_mono)
      then have IH: "list_all digit (extra_digits fuel k ?n1)"
        "?n1 * 10 ^ List.length (extra_digits fuel k ?n1) = dnum (extra_digits fuel k ?n1) * 10 * 2 ^ k"
        "extra_digits fuel k ?n1 \<noteq> [] \<longrightarrow> last (extra_digits fuel k ?n1) \<noteq> 0" "?n1 \<noteq> 0 \<longrightarrow> extra_digits fuel k ?n1 \<noteq> []"
        "List.length (extra_digits fuel k ?n1) \<le> k + 1 - Suc j"
        using Suc.IH [OF b, of "Suc j"] Suc.prems(3,4) j by auto
      let ?e = "extra_digits fuel k ?n1"
      have "n * 10 ^ Suc (List.length ?e) = n div 2 ^ k * 10 ^ List.length ?e * 10 * 2 ^ k + ?n1 * 10 ^ List.length ?e"
        using split_step [of "n div 2 ^ k" "2 ^ k" "n mod 2 ^ k" "List.length ?e" 0 0] unfolding div_mult_mod_eq by simp
      also have "\<dots> = dnum (n div 2 ^ k # ?e) * 10 * 2 ^ k" unfolding IH(2) by (simp add: dnum_Cons algebra_simps)
      finally have v: "n * 10 ^ Suc (List.length ?e) = dnum (n div 2 ^ k # ?e) * 10 * 2 ^ k" .
      have "?e = [] \<Longrightarrow> n div 2 ^ k \<noteq> 0" using IH(4) n False by auto
      then show ?thesis unfolding E using v dig IH(1,3,5) Suc.prems(3) j by (auto simp: Suc_diff_le)
    qed
  qed simp
qed

lemma digits_bound:
  assumes "list_all digit ds" "ds \<noteq> []" "hd ds \<noteq> 0" "dnum ds < 10 ^ k"
  shows "List.length ds \<le> k"
proof -
  obtain c cs where ds: "ds = c # cs" using assms(2) by (cases ds) auto
  then have "10 ^ List.length cs \<le> dnum ds" using dnum_ge [of c cs] assms(3) by simp
  then have "(10 :: nat) ^ List.length cs < 10 ^ k" using assms(4) by (rule le_less_trans)
  then have "List.length cs < k" by (rule power_less_imp_less_exp [rotated]) simp
  then show ?thesis by (simp add: ds)
qed

lemma digs_ok:
  assumes "mp_ok a" "mp_nd a \<noteq> 0"
  shows "list_all digit (digs a)" "digs a \<noteq> []" "hd (digs a) \<noteq> 0" "List.length (digs a) = mp_nd a"
    "List.length (mp_d a) = bufsize"
proof -
  show l: "List.length (digs a) = mp_nd a" using assms(1) digs_length by (simp add: mp_ok_def)
  then show n: "digs a \<noteq> []" using assms(2) by auto
  show "list_all digit (digs a)" "hd (digs a) \<noteq> 0" "List.length (mp_d a) = bufsize"
    using assms(1) n by (simp_all add: mp_ok_def canonical_def)
qed

lemma right_digits:
  assumes "k \<le> 60" "list_all digit ds" "ds \<noteq> []" "hd ds \<noteq> 0"
  obtains n r ds' out n' D t where "pickup k ds 0 0 = (n, r, ds')" "n \<noteq> 0" "shift_digits k ds' n = (out, n')"
    "D = out @ extra_digits (k + 2) k n'" "list_all digit D" "D \<noteq> []" "hd D \<noteq> 0"
    "dnum D * 10 * 2 ^ k = dnum ds * 10 ^ t" "t \<le> k + 1" "int r + int (List.length D) = int (List.length ds) + int t"
proof -
  obtain z n r ds' where p: "pickup k ds 0 0 = (n, r, ds')" "2 ^ k \<le> n" "n < 2 ^ k * 10"
    "dnum ds * 10 ^ z = n * 10 ^ List.length ds' + dnum ds'" "r + List.length ds' = List.length ds + z"
    "list_all digit ds'" "z = 0 \<or> ds' = [] \<and> 10 ^ z dvd n"
    using pickup_spec [OF assms(1,2), of 0 0] assms(3,4) by auto
  have n0: "n div 2 ^ k \<noteq> 0" "n \<noteq> 0" using p(2) less_le_trans [of 0 "2 ^ k" n] by (simp_all add: div_eq_0_iff)
  obtain out n' where o: "shift_digits k ds' n = (out, n')" "n' < 2 ^ k * 10" "list_all digit out"
    "List.length out = List.length ds'" "n * 10 ^ List.length ds' + dnum ds' = dnum out * 10 * 2 ^ k + n'"
    "out \<noteq> [] \<longrightarrow> hd out = n div 2 ^ k" "ds' = [] \<longrightarrow> n' = n"
    using shift_digits_spec [OF assms(1) p(6,3)] by metis
  have z: "z \<le> k"
  proof (rule ccontr)
    assume "\<not> z \<le> k"
    then have "(10 :: nat) ^ Suc k \<le> 10 ^ z" by (intro power_increasing) simp_all
    also have "10 ^ z \<le> n" using p(7) \<open>\<not> z \<le> k\<close> n0(2) by (auto intro: dvd_imp_le)
    finally have "(10 :: nat) ^ k < 2 ^ k" using p(3) by simp
    then show False using power_mono [of "2 :: nat" 10 k] by simp
  qed
  have "2 ^ z dvd n'"
  proof (cases "z = 0")
    case False
    then have "10 ^ z dvd n'" using p(7) o(7) by simp
    moreover have "(2 :: nat) ^ z dvd 10 ^ z" by (simp add: dvd_power_same)
    ultimately show ?thesis by (rule dvd_trans [rotated])
  qed simp
  from extra_digits_spec [OF assms(1) o(2) this z, of "k + 2"]
  have e: "list_all digit (extra_digits (k + 2) k n')"
    "n' * 10 ^ List.length (extra_digits (k + 2) k n') = dnum (extra_digits (k + 2) k n') * 10 * 2 ^ k"
    "extra_digits (k + 2) k n' \<noteq> [] \<longrightarrow> hd (extra_digits (k + 2) k n') = n' div 2 ^ k"
    "n' \<noteq> 0 \<longrightarrow> extra_digits (k + 2) k n' \<noteq> []" "List.length (extra_digits (k + 2) k n') \<le> k + 1 - z"
    by auto
  let ?e = "extra_digits (k + 2) k n'" let ?D = "out @ ?e"
  have D: "?D \<noteq> []" "hd ?D \<noteq> 0" using o(4,6,7) e(3,4) n0 by (cases "ds' = []"; cases "out = []"; force)+
  have "dnum ds * 10 ^ (z + List.length ?e) = (dnum out * 10 * 2 ^ k + n') * 10 ^ List.length ?e"
    by (simp add: power_add p(4) o(5) flip: mult.assoc)
  also have "\<dots> = dnum ?D * 10 * 2 ^ k" using e(2) by (simp add: dnum_append algebra_simps)
  finally have v: "dnum ?D * 10 * 2 ^ k = dnum ds * 10 ^ (z + List.length ?e)" by simp
  show ?thesis
    using that [OF p(1) n0(2) o(1) refl _ D v] o(3,4) e(1,5) z p(5) by simp
qed

text \<open>Numbers below this fit into the buffer.\<close>

definition buflimit :: nat where
  "buflimit = 10 ^ bufsize"

lemma rightShift_ok:
  assumes "mp_ok a" "mp_nd a \<noteq> 0" "k \<le> 60" "dnum (digs a) * 5 ^ k < buflimit"
  shows "mp_ok (rightShift a k)" "mval (rightShift a k) = mval a / 2 ^ k" "mp_nd (rightShift a k) \<noteq> 0"
    "dnum (digs (rightShift a k)) \<le> dnum (digs a) * 5 ^ k" "mp_neg (rightShift a k) = mp_neg a"
proof -
  note d = digs_ok [OF assms(1,2)]
  obtain n r ds' out n' D t where r: "pickup k (digs a) 0 0 = (n, r, ds')" "n \<noteq> 0" "shift_digits k ds' n = (out, n')"
    "D = out @ extra_digits (k + 2) k n'" "list_all digit D" "D \<noteq> []" "hd D \<noteq> 0"
    "dnum D * 10 * 2 ^ k = dnum (digs a) * 10 ^ t" "t \<le> k + 1"
    "int r + int (List.length D) = int (List.length (digs a)) + int t"
    using right_digits [OF assms(3) d(1-3)] by metis
  have "dnum D * 10 * 2 ^ k \<le> dnum (digs a) * 10 ^ (k + 1)"
    unfolding r(8) using r(9) by (intro mult_left_mono power_increasing) simp_all
  also have "\<dots> = dnum (digs a) * 5 ^ k * 10 * 2 ^ k" by (simp flip: power_mult_distrib)
  finally have b: "dnum D \<le> dnum (digs a) * 5 ^ k" by simp
  then have l: "List.length D \<le> bufsize"
    using digits_bound [OF r(5-7), of bufsize] assms(4) by (simp add: buflimit_def)
  let ?b = "a\<lparr>mp_d := D @ drop (List.length D) (mp_d a), mp_nd := List.length D, mp_dp := mp_dp a - (int r - 1),
    mp_trunc := mp_trunc a \<or> list_ex (\<lambda>x. x > 0) (drop bufsize D)\<rparr>"
  have R: "rightShift a k = trim ?b"
    using r(1-4) l by (simp add: rightShift_def Let_def digs_def min_def)
  have D: "digs ?b = D" by (simp add: digs_def)
  have p: "List.length (mp_d ?b) = bufsize" "mp_nd ?b \<le> bufsize" "list_all digit (digs ?b)" "digs ?b \<noteq> []" "hd (digs ?b) \<noteq> 0"
    unfolding D using l d(5) r(5-7) by simp_all
  note t = trim_ok [OF p]
  show "mp_ok (rightShift a k)" unfolding R by (rule t(1))
  show "mp_nd (rightShift a k) \<noteq> 0" unfolding R by (rule t(5))
  show "dnum (digs (rightShift a k)) \<le> dnum (digs a) * 5 ^ k" unfolding R using t(3) b D by simp
  show "mp_neg (rightShift a k) = mp_neg a" unfolding R t(4) by simp
  have e: "mp_dp a - int (mp_nd a) = (mp_dp a - (int r - 1) - int (List.length D)) + int t - 1" using r(10) d(4) by simp
  have "mval a = of_nat (dnum (digs a) * 10 ^ t) * 10 powi (mp_dp a - (int r - 1) - int (List.length D)) / 10"
    unfolding mval_def e by (simp add: powi_plus power_int_diff) (simp add: ac_simps)
  also have "\<dots> = 2 ^ k * mval ?b" unfolding r(8) [symmetric] mval_def D by simp
  finally show "mval (rightShift a k) = mval a / 2 ^ k" unfolding R t(2) by simp
qed

section \<open>Left shift\<close>

lemma last_dnum: "ds \<noteq> [] \<Longrightarrow> last ds \<noteq> 0 \<Longrightarrow> 0 < dnum ds"
  by (cases ds rule: rev_cases) (simp_all add: dnum_snoc)

lemma prefix_less:
  assumes "list_all digit b" "list_all digit s" "s \<noteq> [] \<Longrightarrow> last s \<noteq> 0"
  shows "prefixIsLessThan b s \<longleftrightarrow> dnum b * 10 ^ List.length s < dnum s * 10 ^ List.length b"
  using assms
proof (induction b s rule: prefixIsLessThan.induct)
  case (2 c s)
  then show ?case using last_dnum [of "c # s"] by simp
next
  case (3 x b c s)
  define P B S where "P = (10 :: nat) ^ (List.length b + List.length s)" and "B = dnum b * 10 ^ List.length s"
    and "S = dnum s * 10 ^ List.length b"
  have B: "B < P"
  proof -
    have "dnum b < 10 ^ List.length b" using 3(2) dnum_less [of b] by simp
    then show ?thesis by (simp add: B_def P_def power_add)
  qed
  have S: "S < P"
  proof -
    have "dnum s < 10 ^ List.length s" using 3(3) dnum_less [of s] by simp
    then show ?thesis by (simp add: S_def P_def power_add)
  qed
  have eq: "dnum (x # b) * 10 ^ List.length (c # s) = 10 * (x * P + B)" "dnum (c # s) * 10 ^ List.length (x # b) = 10 * (c * P + S)"
    by (simp_all add: dnum_Cons P_def B_def S_def algebra_simps power_add)
  consider "x < c" | "c < x" | "x = c" by linarith
  then show ?case
  proof cases
    case 1
    then have "(x + 1) * P \<le> c * P" by (intro mult_right_mono) simp_all
    then have "x * P + B < c * P + S" using B by simp
    then show ?thesis unfolding eq using 1 by simp
  next
    case 2
    then have "(c + 1) * P \<le> x * P" by (intro mult_right_mono) simp_all
    then have "\<not> x * P + B < c * P + S" using S by simp
    then show ?thesis unfolding eq using 2 by simp
  next
    case 3: 3
    then have "prefixIsLessThan b s \<longleftrightarrow> B < S" using "3.IH" "3.prems" unfolding B_def S_def by (cases s) simp_all
    then show ?thesis unfolding eq using 3 by simp
  qed
qed simp

definition cheat_ok :: "nat \<Rightarrow> int \<times> nat list \<Rightarrow> bool" where
  "cheat_ok k c = (case c of (delta, s) \<Rightarrow>
     delta = int k - int (List.length s) + 1 \<and> s \<noteq> [] \<and> dnum s = 5 ^ k \<and> list_all digit s \<and> hd s \<noteq> 0 \<and> last s \<noteq> 0)"

lemma leftcheats_all: "list_all (\<lambda>(k, c). cheat_ok k c) (zip [1..<61] (tl leftcheats)) \<and> List.length leftcheats = 61"
  by code_simp

lemma leftcheats_ok:
  assumes "1 \<le> k" "k \<le> 60"
  shows "cheat_ok k (leftcheats ! k)" "k < List.length leftcheats"
proof -
  have l: "List.length leftcheats = 61" using leftcheats_all by simp
  then show "k < List.length leftcheats" using assms by simp
  have "zip [1..<61] (tl leftcheats) ! (k - 1) = (k, leftcheats ! k)"
    using assms l by (simp add: nth_tl)
  moreover have "zip [1..<61] (tl leftcheats) ! (k - 1) \<in> set (zip [1..<61] (tl leftcheats))"
    using assms l by (intro nth_mem) simp
  ultimately show "cheat_ok k (leftcheats ! k)" using leftcheats_all by (auto simp: list_all_iff)
qed

text \<open>The table predicts the number of digits.\<close>

lemma cheat_digits:
  assumes "cheat_ok k (delta, s)" "list_all digit ds" "ds \<noteq> []" "hd ds \<noteq> 0"
    and "\<delta> = (if prefixIsLessThan ds s then delta - 1 else delta)" "1 \<le> k"
  obtains W where "int W = int (List.length ds) + \<delta>" "List.length ds \<le> W" "W \<noteq> 0" "10 ^ (W - 1) \<le> dnum ds * 2 ^ k" "dnum ds * 2 ^ k < 10 ^ W"
proof -
  obtain c0 s0 x0 ds0 where cs: "s = c0 # s0" "ds = x0 # ds0" using assms(1,3) by (cases s; cases ds) (auto simp: cheat_ok_def)
  let ?n = "List.length ds0" and ?m = "List.length s0"
  have s: "dnum s = 5 ^ k" "delta = int k - int (Suc ?m) + 1" "c0 \<noteq> 0" "list_all digit s" "last s \<noteq> 0"
    using assms(1) by (auto simp: cheat_ok_def cs)
  have C: "10 ^ ?m \<le> (5 :: nat) ^ k" "(5 :: nat) ^ k < 10 ^ Suc ?m"
    using dnum_ge [OF s(3), of s0] dnum_less [OF s(4)] s(1) by (simp_all add: cs)
  have N: "10 ^ ?n \<le> dnum ds" "dnum ds < 10 ^ Suc ?n"
    using dnum_ge [of x0 ds0] dnum_less [OF assms(2)] assms(4) by (simp_all add: cs)
  have T: "(5 :: nat) ^ k * 2 ^ k = 10 ^ k" by (simp flip: power_mult_distrib)
  have "?m < k"
  proof (rule ccontr)
    assume "\<not> ?m < k"
    then have "(10 :: nat) ^ k \<le> 5 ^ k" using C(1) power_increasing [of k ?m "10 :: nat"] by linarith
    then have "(5 :: nat) ^ k * 2 ^ k \<le> 5 ^ k * 1" unfolding T by simp
    then have "(2 :: nat) ^ k \<le> 1" by simp
    then show False using assms(6) power_increasing [of 1 k "2 :: nat"] by simp
  qed
  then obtain j where j: "k = Suc ?m + j" by (metis Suc_leI le_Suc_ex)
  have K: "(10 :: nat) ^ k = 10 ^ Suc ?m * 10 ^ j" unfolding j by (rule power_add)
  have lt: "prefixIsLessThan ds s \<longleftrightarrow> dnum ds * 10 ^ Suc ?m < 5 ^ k * 10 ^ Suc ?n"
    using prefix_less [OF assms(2) s(4)] s(1,5) by (simp add: cs)
  also have "\<dots> \<longleftrightarrow> dnum ds * 10 ^ Suc ?m * 2 ^ k < 5 ^ k * 10 ^ Suc ?n * 2 ^ k" by simp
  also have "5 ^ k * 10 ^ Suc ?n * 2 ^ k = 10 ^ Suc ?n * (5 ^ k * 2 ^ k :: nat)" by (simp only: ac_simps)
  also have "\<dots> = 10 ^ Suc ?m * (10 ^ Suc ?n * 10 ^ j)" unfolding T K by (simp only: ac_simps)
  also have "dnum ds * 10 ^ Suc ?m * 2 ^ k = 10 ^ Suc ?m * (dnum ds * 2 ^ k)" by (simp only: ac_simps)
  finally have less: "prefixIsLessThan ds s \<longleftrightarrow> dnum ds * 2 ^ k < 10 ^ (Suc ?n + j)"
    by (simp add: power_add ac_simps)
  show ?thesis
  proof (cases "prefixIsLessThan ds s")
    case True
    have "10 ^ Suc ?m * 10 ^ j \<le> 10 ^ Suc ?m * (2 :: nat) ^ k"
      using C(2) T K by (metis less_imp_le mult_right_mono zero_le)
    then have "10 ^ j \<le> (2 :: nat) ^ k" by simp
    then have "10 ^ ?n * 10 ^ j \<le> dnum ds * 2 ^ k" using N(1) by (intro mult_mono) simp_all
    then show ?thesis using that [of "Suc ?n + j"] True less assms(5) s(2) j by (simp add: cs power_add)
  next
    case False
    have "10 ^ ?m * (2 :: nat) ^ k \<le> 10 ^ ?m * 10 ^ Suc j"
      using C(1) T K mult_right_mono [of "10 ^ ?m" "(5 :: nat) ^ k" "2 ^ k"] by (simp add: ac_simps)
    then have "(2 :: nat) ^ k \<le> 10 ^ Suc j" by simp
    then have "dnum ds * 2 ^ k < 10 ^ Suc ?n * 10 ^ Suc j"
      using N(2) by (intro mult_less_le_imp_less) simp_all
    then show ?thesis using that [of "Suc (Suc ?n + j)"] False less assms(5) s(2) j by (simp add: cs power_add)
  qed
qed

lemma put_digit_ok:
  "W < bufsize \<Longrightarrow> put_digit (int W) x a = Inr (a\<lparr>mp_d := (mp_d a)[W := x]\<rparr>)"
  by (simp add: put_digit_def)

lemma take_written:
  assumes "List.length d = l" "Suc r \<le> W" "W \<le> l" "drop (W - 1) d = x # xs"
  shows "take (Suc r) (drop (W - Suc r) d) = take r (drop (W - 1 - r) d) @ [x]"
proof -
  have "d ! (W - 1) = x" using assms by (metis Suc_le_lessD Suc_pred' drop_eq_Nil hd_drop_conv_nth le_trans less_le_trans linorder_not_less list.distinct(1) list.sel(1) not_less_eq_eq zero_less_Suc)
  moreover have "W - Suc r = W - 1 - r" "W - 1 - r + r = W - 1" using assms(2) by simp_all
  ultimately show ?thesis using assms(1-3) by (simp add: take_Suc_conv_app_nth nth_drop)
qed

lemma left_digits_spec:
  assumes "k \<le> 60" "n < 2 ^ k" "List.length (mp_d a) = bufsize" "list_all digit (take r (mp_d a))" "r \<le> W" "W \<le> bufsize"
  shows "\<exists>n' d. left_digits k r (int W) n a = Inr (n', int (W - r), a\<lparr>mp_d := d\<rparr>) \<and> n' < 2 ^ k \<and>
    List.length d = bufsize \<and> drop W d = drop W (mp_d a) \<and> list_all digit (take r (drop (W - r) d)) \<and>
    n' * 10 ^ r + dnum (take r (drop (W - r) d)) = dnum (take r (mp_d a)) * 2 ^ k + n"
  using assms(2-)
proof (induction r arbitrary: W n a)
  case 0
  then show ?case by (intro exI [of _ n] exI [of _ "mp_d a"]) simp
next
  case (Suc r)
  let ?c = "mp_d a ! r" and ?m = "n + mp_d a ! r * 2 ^ k"
  have r: "r < List.length (mp_d a)" using Suc.prems by simp
  have t: "take (Suc r) (mp_d a) = take r (mp_d a) @ [?c]" using r by (rule take_Suc_conv_app_nth)
  then have c: "?c \<le> 9" "list_all digit (take r (mp_d a))" using Suc.prems(3) by simp_all
  from c(1) have "?c * 2 ^ k \<le> 9 * 2 ^ k" by (rule mult_right_mono) simp
  then have m: "?c * 2 ^ k < 2 ^ k * 10" "?m < 2 ^ k * 10" using Suc.prems(1) by linarith+
  have w: "wrap64 (n + wrap64 (?c * 2 ^ k)) = ?m"
    using wrap64_id [OF shift_bound [OF assms(1) m(1)]] wrap64_id [OF shift_bound [OF assms(1) m(2)]] by simp
  let ?a = "a\<lparr>mp_d := (mp_d a)[W - 1 := ?m mod 10]\<rparr>"
  have W: "W - 1 < bufsize" "int W - 1 = int (W - 1)" "r \<le> W - 1" "W - 1 - r = W - Suc r" using Suc.prems by simp_all
  have L: "left_digits k (Suc r) (int W) n a = left_digits k r (int (W - 1)) (?m div 10) ?a"
    by (simp only: left_digits.simps(2) Let_def w W(2) put_digit_ok [OF W(1)] bindE_simps)
  have tr: "take r (mp_d ?a) = take r (mp_d a)" using W(3) by simp
  have p: "?m div 10 < 2 ^ k" "List.length (mp_d ?a) = bufsize" "list_all digit (take r (mp_d ?a))" "W - 1 \<le> bufsize"
    using m(2) Suc.prems(2) c(2) W(1) unfolding tr by (simp_all add: div_less_iff_less_mult)
  obtain n' d where IH: "left_digits k r (int (W - 1)) (?m div 10) ?a = Inr (n', int (W - 1 - r), ?a\<lparr>mp_d := d\<rparr>)"
    "n' < 2 ^ k" "List.length d = bufsize" "drop (W - 1) d = drop (W - 1) (mp_d ?a)"
    "list_all digit (take r (drop (W - 1 - r) d))"
    "n' * 10 ^ r + dnum (take r (drop (W - 1 - r) d)) = dnum (take r (mp_d a)) * 2 ^ k + ?m div 10"
    using Suc.IH [OF p(1-3) W(3) p(4)] unfolding tr by blast
  have "drop (W - 1) (mp_d ?a) = ?m mod 10 # drop W (mp_d a)"
    using W(1) Suc.prems(2,4) Cons_nth_drop_Suc [of "W - 1" "mp_d ?a"] by simp
  then have dW: "drop (W - 1) d = ?m mod 10 # drop W (mp_d a)" using IH(4) by simp
  then have "tl (drop (W - 1) d) = drop W (mp_d a)" by simp
  then have dd: "drop W d = drop W (mp_d a)" using Suc.prems(4) by (simp add: drop_Suc [symmetric] tl_drop flip: drop_Suc)
  have tk: "take (Suc r) (drop (W - Suc r) d) = take r (drop (W - 1 - r) d) @ [?m mod 10]"
    by (rule take_written [OF IH(3) Suc.prems(4,5) dW])
  have "n' * 10 ^ Suc r + dnum (take (Suc r) (drop (W - Suc r) d))
      = 10 * (n' * 10 ^ r + dnum (take r (drop (W - 1 - r) d))) + ?m mod 10"
    unfolding tk by (simp add: dnum_snoc)
  also have "\<dots> = dnum (take r (mp_d a)) * 2 ^ k * 10 + ?m" unfolding IH(6) by simp
  also have "\<dots> = dnum (take (Suc r) (mp_d a)) * 2 ^ k + n" unfolding t by (simp add: dnum_snoc algebra_simps)
  finally show ?case
    unfolding L using IH(1-3,5) dd tk W(4) by (intro exI [of _ n'] exI [of _ d]) simp
qed

lemma left_extra_spec:
  assumes "List.length (mp_d a) = bufsize" "W \<le> bufsize" "n < 10 ^ W" "W \<noteq> 0 \<Longrightarrow> 10 ^ (W - 1) \<le> n"
  shows "\<exists>d. left_extra (int W) n a = Inr (a\<lparr>mp_d := d\<rparr>) \<and> List.length d = bufsize \<and> drop W d = drop W (mp_d a) \<and>
    list_all digit (take W d) \<and> dnum (take W d) = n"
  using assms
proof (induction W arbitrary: n a)
  case 0
  then show ?case by (intro exI [of _ "mp_d a"]) (simp add: left_extra.simps)
next
  case (Suc W)
  have n: "n \<noteq> 0" using Suc.prems(4) less_le_trans [of 0 "10 ^ W" n] by simp
  let ?a = "a\<lparr>mp_d := (mp_d a)[W := n mod 10]\<rparr>"
  have L: "left_extra (int (Suc W)) n a = left_extra (int W) (n div 10) ?a"
    using n put_digit_ok [of W "n mod 10" a] Suc.prems(2) by (simp add: left_extra.simps [of _ n])
  have "n div 10 < 10 ^ W" using Suc.prems(3) by (simp add: div_less_iff_less_mult mult.commute)
  moreover have "W \<noteq> 0 \<Longrightarrow> 10 ^ (W - 1) \<le> n div 10"
    using Suc.prems(4) by (cases W) (simp_all add: less_eq_div_iff_mult_less_eq mult.commute)
  ultimately obtain d where IH: "left_extra (int W) (n div 10) ?a = Inr (?a\<lparr>mp_d := d\<rparr>)" "List.length d = bufsize"
    "drop W d = drop W (mp_d ?a)" "list_all digit (take W d)" "dnum (take W d) = n div 10"
    using Suc.IH [of ?a "n div 10"] Suc.prems(1,2) by auto
  have dW: "drop W d = n mod 10 # drop (Suc W) (mp_d a)"
    using IH(3) Suc.prems(1,2) Cons_nth_drop_Suc [of W "mp_d ?a"] by simp
  then have "d ! W = n mod 10" by (metis nth_via_drop)
  then have "take (Suc W) d = take W d @ [n mod 10]" using IH(2) Suc.prems(2) by (simp add: take_Suc_conv_app_nth)
  moreover have "drop (Suc W) d = drop (Suc W) (mp_d a)" using dW by (metis drop_Suc list.sel(3) tl_drop)
  ultimately show ?case using IH L by (intro exI [of _ d]) (simp add: dnum_snoc)
qed

lemma leftShift_ok:
  assumes "mp_ok a" "mp_nd a \<noteq> 0" "1 \<le> k" "k \<le> 60" "dnum (digs a) * 2 ^ k < buflimit"
  obtains b where "leftShift a k = Inr b" "mp_ok b" "mval b = mval a * 2 ^ k" "mp_nd b \<noteq> 0"
    "dnum (digs b) \<le> dnum (digs a) * 2 ^ k" "mp_neg b = mp_neg a"
proof -
  note d = digs_ok [OF assms(1,2)]
  obtain delta s where ds: "leftcheats ! k = (delta, s)" "cheat_ok k (delta, s)" "k < List.length leftcheats"
    using leftcheats_ok [OF assms(3,4)] by (metis surj_pair)
  define \<delta> where "\<delta> = (if prefixIsLessThan (digs a) s then delta - 1 else delta)"
  obtain W where W: "int W = int (mp_nd a) + \<delta>" "mp_nd a \<le> W" "W \<noteq> 0" "10 ^ (W - 1) \<le> dnum (digs a) * 2 ^ k"
    "dnum (digs a) * 2 ^ k < 10 ^ W"
    using cheat_digits [OF ds(2) d(1-3) \<delta>_def assms(3)] unfolding d(4) by metis
  have "(10 :: nat) ^ (W - 1) < buflimit" using W(4) assms(5) by (rule le_less_trans)
  then have "W - 1 < bufsize" unfolding buflimit_def by (rule power_less_imp_less_exp [rotated]) simp
  then have Wb: "W \<le> bufsize" by simp
  let ?r = "mp_nd a" and ?N = "dnum (digs a)"
  obtain n' d1 where l: "left_digits k ?r (int W) 0 a = Inr (n', int (W - ?r), a\<lparr>mp_d := d1\<rparr>)" "List.length d1 = bufsize"
    "list_all digit (take ?r (drop (W - ?r) d1))" "n' * 10 ^ ?r + dnum (take ?r (drop (W - ?r) d1)) = ?N * 2 ^ k"
    using left_digits_spec [OF assms(4) _ d(5) _ W(2) Wb, of 0] d(1) unfolding digs_def by auto
  let ?low = "dnum (take ?r (drop (W - ?r) d1))"
  have ll: "List.length (take ?r (drop (W - ?r) d1)) = ?r" using l(2) W(2) Wb by auto
  have low: "?low < 10 ^ ?r" using dnum_less [OF l(3)] unfolding ll .
  have Wr: "W = (W - ?r) + ?r" using W(2) by simp
  have "n' * 10 ^ ?r < 10 ^ (W - ?r) * 10 ^ ?r"
    using W(5) l(4) Wr by (metis le_add1 le_less_trans power_add)
  then have n1: "n' < 10 ^ (W - ?r)" by simp
  have n2: "10 ^ (W - ?r - 1) \<le> n'" if "W - ?r \<noteq> 0"
  proof (rule ccontr)
    assume "\<not> 10 ^ (W - ?r - 1) \<le> n'"
    then have "(n' + 1) * 10 ^ ?r \<le> 10 ^ (W - ?r - 1) * 10 ^ ?r" by (intro mult_right_mono) simp_all
    also have "(10 :: nat) ^ (W - ?r - 1) * 10 ^ ?r = 10 ^ (W - 1)" using that by (simp flip: power_add)
    finally have "n' * 10 ^ ?r + 10 ^ ?r \<le> 10 ^ (W - 1)" by simp
    then show False using W(4) low l(4) by linarith
  qed
  have wb: "W - ?r \<le> bufsize" using Wb by linarith
  obtain d2 where e: "left_extra (int (W - ?r)) n' (a\<lparr>mp_d := d1\<rparr>) = Inr (a\<lparr>mp_d := d2\<rparr>)" "List.length d2 = bufsize"
    "drop (W - ?r) d2 = drop (W - ?r) d1" "list_all digit (take (W - ?r) d2)" "dnum (take (W - ?r) d2) = n'"
    using left_extra_spec [of "a\<lparr>mp_d := d1\<rparr>" "W - ?r" n', OF _ wb n1 n2] l(2) by auto
  let ?b = "a\<lparr>mp_d := d2, mp_nd := W, mp_dp := mp_dp a + \<delta>\<rparr>"
  have D: "digs ?b = take (W - ?r) d2 @ take ?r (drop (W - ?r) d1)"
    unfolding digs_def e(3) [symmetric] using Wr take_add [of "W - ?r" ?r d2] by simp
  have v: "dnum (digs ?b) = ?N * 2 ^ k"
    unfolding D using l(4) e(5) by (simp only: dnum_append ll)
  have L: "leftShift a k = Inr (trim ?b)"
  proof -
    have "int bufsize \<le> int W \<Longrightarrow> bufsize = W" using Wb by simp
    then show ?thesis
      using ds(1,3) l(1) e(1)
      by (auto simp: leftShift_def Let_def \<delta>_def [symmetric, unfolded digs_def] W(1) [symmetric] simp del: of_nat_le_iff)
  qed
  have pd: "list_all digit (digs ?b)" unfolding D using l(3) e(4) by simp
  have len: "List.length (digs ?b) = W" using e(2) Wb by (simp add: digs_def)
  have hd: "digs ?b \<noteq> []" "hd (digs ?b) \<noteq> 0"
  proof -
    show ne: "digs ?b \<noteq> []" using len W(3) by auto
    show "hd (digs ?b) \<noteq> 0"
    proof
      assume "hd (digs ?b) = 0"
      then obtain ds' where ds': "digs ?b = 0 # ds'" using ne by (cases "digs ?b") auto
      then have "dnum (digs ?b) < 10 ^ (W - 1)" using pd len dnum_less [of ds'] by (auto simp: dnum_Cons)
      then show False using v W(4) by simp
    qed
  qed
  note t = trim_ok [of ?b, OF _ _ pd hd]
  have p: "List.length (mp_d ?b) = bufsize" "mp_nd ?b \<le> bufsize" using e(2) Wb by simp_all
  have "mval ?b = mval a * 2 ^ k"
  proof -
    have e: "mp_dp ?b - int (mp_nd ?b) = mp_dp a - int (mp_nd a)" using W(1) by simp
    show ?thesis unfolding mval_def v e by simp
  qed
  then show ?thesis using that [OF L t(1) [OF p] _ t(5) [OF p]] t(2-4) [OF p] v by simp
qed

section \<open>Shifts by any amount\<close>

lemma shift_right_ok:
  assumes "mp_ok a" "mp_nd a \<noteq> 0" "dnum (digs a) * 5 ^ k < buflimit"
  shows "mp_ok (shift_right a k) \<and> mval (shift_right a k) = mval a / 2 ^ k \<and> mp_nd (shift_right a k) \<noteq> 0 \<and>
    mp_neg (shift_right a k) = mp_neg a"
  using assms
proof (induction a k rule: shift_right.induct)
  case (1 a k)
  show ?case
  proof (cases "k > maxShift")
    case True
    then have k: "k = maxShift + (k - maxShift)" by simp
    have b: "dnum (digs a) * 5 ^ maxShift * 5 ^ (k - maxShift) < buflimit"
      using "1.prems"(3) k by (metis mult.assoc power_add)
    then have "dnum (digs a) * 5 ^ maxShift < buflimit"
      by (rule le_less_trans [rotated]) simp
    from rightShift_ok [OF "1.prems"(1,2) _ this] have r: "mp_ok (rightShift a maxShift)"
      "mval (rightShift a maxShift) = mval a / 2 ^ maxShift" "mp_nd (rightShift a maxShift) \<noteq> 0"
      "dnum (digs (rightShift a maxShift)) \<le> dnum (digs a) * 5 ^ maxShift" "mp_neg (rightShift a maxShift) = mp_neg a"
      by (simp_all add: maxShift_def)
    have "dnum (digs (rightShift a maxShift)) * 5 ^ (k - maxShift) < buflimit"
      by (rule le_less_trans [OF mult_right_mono [OF r(4)] b]) simp
    moreover have "(2 :: rat) ^ k = 2 ^ maxShift * 2 ^ (k - maxShift)" using k by (metis power_add)
    ultimately show ?thesis using "1.IH" [OF True r(1,3)] r(2,5) True by (simp add: shift_right.simps [of a k])
  next
    case False
    then show ?thesis using rightShift_ok [OF "1.prems"(1,2) _ "1.prems"(3)]
      by (simp add: shift_right.simps [of a k] maxShift_def)
  qed
qed

lemma shift_left_ok:
  assumes "mp_ok a" "mp_nd a \<noteq> 0" "1 \<le> k" "dnum (digs a) * 2 ^ k < buflimit"
  shows "\<exists>b. shift_left a k = Inr b \<and> mp_ok b \<and> mval b = mval a * 2 ^ k \<and> mp_nd b \<noteq> 0 \<and> mp_neg b = mp_neg a"
  using assms
proof (induction a k rule: shift_left.induct)
  case (1 a k)
  show ?case
  proof (cases "k > maxShift")
    case True
    then have k: "k = maxShift + (k - maxShift)" by simp
    have b: "dnum (digs a) * 2 ^ maxShift * 2 ^ (k - maxShift) < buflimit"
      using "1.prems"(4) k by (metis mult.assoc power_add)
    then have "dnum (digs a) * 2 ^ maxShift < buflimit"
      by (rule le_less_trans [rotated]) simp
    from leftShift_ok [OF "1.prems"(1,2) _ _ this] obtain c where c: "leftShift a maxShift = Inr c" "mp_ok c"
      "mval c = mval a * 2 ^ maxShift" "mp_nd c \<noteq> 0" "dnum (digs c) \<le> dnum (digs a) * 2 ^ maxShift" "mp_neg c = mp_neg a"
      by (auto simp: maxShift_def)
    have "dnum (digs c) * 2 ^ (k - maxShift) < buflimit"
      by (rule le_less_trans [OF mult_right_mono [OF c(5)] b]) simp
    moreover have "(2 :: rat) ^ k = 2 ^ maxShift * 2 ^ (k - maxShift)" using k by (metis power_add)
    ultimately show ?thesis using "1.IH" [OF True c(1,2,4)] c(1,3,6) True by (simp add: shift_left.simps [of a k] ac_simps)
  next
    case False
    then have "k \<le> 60" by (simp add: maxShift_def)
    from leftShift_ok [OF "1.prems"(1-3) this "1.prems"(4)] show ?thesis
      using False by (metis shift_left.simps)
  qed
qed

lemma Shift_ok:
  assumes "mp_ok a" "mp_nd a \<noteq> 0" "dnum (digs a) * (if k < 0 then 5 ^ nat (- k) else 2 ^ nat k) < buflimit"
  shows "\<exists>b. mp_Shift a k = Inr b \<and> mp_ok b \<and> mval b = mval a * 2 powi k \<and> mp_nd b \<noteq> 0 \<and> mp_neg b = mp_neg a"
proof -
  consider "0 < k" | "k < 0" | "k = 0" by linarith
  then show ?thesis
  proof cases
    case 1
    then show ?thesis using shift_left_ok [OF assms(1,2), of "nat k"] assms(2,3) by (simp add: mp_Shift_def power_int_def)
  next
    case 2
    then show ?thesis using shift_right_ok [OF assms(1,2), of "nat (- k)"] assms(2,3)
      by (simp add: mp_Shift_def power_int_def power_one_over field_simps)
  next
    case 3
    then show ?thesis using assms by (simp add: mp_Shift_def)
  qed
qed

end
