(* ===== verification/DecimalTheorems.thy ===== *)
theory DecimalTheorems
  imports DecimalFormat DecimalShift
begin

text \<open>The properties of the decimals.\<close>

text \<open>C24 Addition, subtraction, negation, absolute value and comparison are those of the rational
  numbers; multiplication is exact or panics because the exponent overflows.\<close>

theorem decimal_exact:
  "dval (Decimal_Add a b) = dval a + dval b \<and>
   dval (Decimal_Sub a b) = dval a - dval b \<and>
   dval (Decimal_Neg a) = - dval a \<and>
   dval (Decimal_Abs a) = \<bar>dval a\<bar> \<and>
   (case Decimal_Mul a b of
      Inr c \<Rightarrow> dval c = dval a * dval b
    | Inl e \<Rightarrow> e = PanicExponentOverflow \<and> (dec_exp a + dec_exp b < MinInt32 \<or> dec_exp a + dec_exp b > MaxInt32)) \<and>
   Decimal_Cmp a b = (if dval a < dval b then - 1 else if dval a = dval b then 0 else 1)"
  using Mul_dval [of a b] Mul_ok [of a b]
  by (auto simp: Add_dval Sub_dval Neg_dval Abs_dval Cmp_dval cmp_rat_def split: sum.splits)

text \<open>C25 \<^verbatim>\<open>Round\<close> rounds to the nearest multiple of the last place, ties away from zero, \<^verbatim>\<open>RoundBank\<close> ties to
  the even digit; \<^verbatim>\<open>Floor\<close> and \<^verbatim>\<open>Ceil\<close> are floor and ceiling.\<close>

theorem decimal_rounding:
  assumes "MinInt32 < p" "p \<le> MaxInt32"
  shows "dval (Decimal_Round d p) = of_int (round_away (dval d * 10 powi p)) * 10 powi - p \<and>
    dval (Decimal_RoundBank d p) = of_int (round_even (dval d * 10 powi p)) * 10 powi - p \<and>
    dval (Decimal_Floor d) = of_int \<lfloor>dval d\<rfloor> \<and> dval (Decimal_Ceil d) = of_int \<lceil>dval d\<rceil>"
proof -
  have "places_ok p" using assms by (simp add: places_ok_def)
  then show ?thesis by (simp add: Round_mk RoundBank_mk Floor_dval Ceil_dval)
qed

theorem decimal_rounding_witness:
  "dval (Decimal_Round (mkDecimal 545 (- 2)) 1) = of_int (round_away (5.45 * 10 powi 1)) * 10 powi - 1"
  using decimal_rounding [of 1 "mkDecimal 545 (- 2)"] by (simp add: power_int_minus)

text \<open>C26 Division: \<^verbatim>\<open>QuoRem\<close> returns a quotient with the given number of places and a remainder that is smaller than
  one unit of it and has the sign of the dividend, and \<^verbatim>\<open>DivRound\<close> the quotient rounded to that many
  places, ties away from zero.\<close>

theorem decimal_division:
  assumes "moderate (dec_exp d)" "moderate (dec_exp d2)" "moderate p" "dval d2 \<noteq> 0" "dec_value d \<noteq> None"
  shows "(\<exists>q r. Decimal_QuoRem d d2 p = Inr (q, r) \<and> dval d = dval d2 * dval q + dval r \<and> dec_exp q = - p \<and>
      \<bar>dval r\<bar> < \<bar>dval d2\<bar> * 10 powi - p \<and> (dval r = 0 \<or> sgn (dval r) = sgn (dval d))) \<and>
    (\<exists>q. Decimal_DivRound d d2 p = Inr q \<and> dval q = of_int (round_away (dval d / dval d2 * 10 powi p)) * 10 powi - p)"
proof
  obtain q r where "Decimal_QuoRem d d2 p = Inr (q, r)" "dval d = dval d2 * dval q + dval r" "dec_exp q = - p"
    "\<bar>dval r\<bar> < \<bar>dval d2\<bar> * 10 powi - p" "0 \<le> dval d \<longrightarrow> 0 \<le> dval r" "dval d \<le> 0 \<longrightarrow> dval r \<le> 0"
    using QuoRem_spec [OF assms(1-4)] by blast
  moreover from this(5,6) have "dval r = 0 \<or> sgn (dval r) = sgn (dval d)" by (auto simp: sgn_if)
  ultimately show "\<exists>q r. Decimal_QuoRem d d2 p = Inr (q, r) \<and> dval d = dval d2 * dval q + dval r \<and> dec_exp q = - p \<and>
      \<bar>dval r\<bar> < \<bar>dval d2\<bar> * 10 powi - p \<and> (dval r = 0 \<or> sgn (dval r) = sgn (dval d))" by blast
qed (rule DivRound_spec [OF assms])

theorem decimal_division_witness:
  "\<exists>q. Decimal_DivRound (mkDecimal 2 0) (mkDecimal 3 0) 3 = Inr q \<and> dval q = of_int (round_away (2 / 3 * 10 powi 3)) * 10 powi - 3"
proof -
  have "dec_value (mkDecimal 2 0) \<noteq> None" by (simp add: mkDecimal_def)
  then show ?thesis
    using conjunct2 [OF decimal_division [of "mkDecimal 2 0" "mkDecimal 3 0" 3]] by (simp add: moderate_def del: power_int_numeral)
qed

lemma bytes_nat_rev_le_put: "bytes_nat (rev (le_put n (w :: u32))) = unat w mod 256 ^ n"
proof (induction n arbitrary: w)
  case 0
  then show ?case by (simp add: bytes_nat_def)
next
  case (Suc n)
  have "unat (ucast w :: byte) = unat w mod 256" by (simp add: unsigned_ucast_eq take_bit_eq_mod)
  moreover have "unat (drop_bit 8 w) = unat w div 256" by (simp add: unat_drop_bit_div)
  ultimately show ?case
    by (simp add: Suc bytes_nat_snoc mod_mult2_eq [of _ 256 "256 ^ n"] mult.commute)
qed

lemma uint32_bytes_back:
  assumes "MinInt32 \<le> e" "e \<le> MaxInt32"
  shows "i32 (int (bytes_nat (uint32_bytes e))) = e"
proof -
  have "unat (word_of_int e :: u32) < 256 ^ 4" using unsigned_less [of "word_of_int e :: u32"] by simp
  then have "int (bytes_nat (uint32_bytes e)) = uint (word_of_int e :: u32)"
    by (simp add: uint32_bytes_def bytes_nat_rev_le_put)
  also have "\<dots> = take_bit 32 e" by (simp add: uint_word_of_int_eq)
  finally have "i32 (int (bytes_nat (uint32_bytes e))) = signed_take_bit 31 (take_bit 32 e)" by (simp add: i32_def)
  also have "\<dots> = signed_take_bit 31 e" by (simp add: signed_take_bit_take_bit)
  finally show ?thesis using i32_id [OF assms] by (simp add: i32_def)
qed

lemma length_uint32_bytes [simp]: "List.length (uint32_bytes e) = 4"
  by (simp add: uint32_bytes_def)

lemma GobDecode_Nil: "big_GobDecode [] = Some 0"
  by (simp add: big_GobDecode_def)

lemma Binary_back:
  assumes "exp_ok d"
  shows "Decimal_UnmarshalBinary d0 (Decimal_MarshalBinary d) = Inr (mkDecimal (ensureInitialized d) (dec_exp d), None)"
  using assms uint32_bytes_back [of "dec_exp d"]
  by (auto simp: Decimal_UnmarshalBinary_def Decimal_MarshalBinary_def exp_ok_def GobDecode_Encode ensureInitialized_def
    GobDecode_Nil Let_def split: option.splits)

lemma string_not_Nil: "Decimal_String d = Inr s \<Longrightarrow> s \<noteq> []"
  by (auto simp: Decimal_String_def Decimal_string_def big_String_def Let_def elim!: bindE_InrE split: if_splits)

lemma unquote_quoted: "s \<noteq> [] \<Longrightarrow> unquoteIfQuoted ([CHR 0x22] @ s @ [CHR 0x22]) = s"
  by (auto simp: unquoteIfQuoted_def butlast_append Suc_lessI)

text \<open>C27 The string of a decimal is parsed to the same number, and the binary and JSON forms are read back.\<close>

theorem decimal_formats:
  assumes "MinInt32 \<le> dec_exp d" "dec_exp d \<le> MaxInt32" "Decimal_String d = Inr s"
  shows "\<exists>d'. dval d' = dval d \<and> NewFromString s = Inr d' \<and>
    (\<forall>d0. \<exists>j. Decimal_MarshalJSON d = Inr j \<and> Decimal_UnmarshalJSON d0 j = (d', None)) \<and>
    (\<forall>d0. \<exists>d''. Decimal_UnmarshalBinary d0 (Decimal_MarshalBinary d) = Inr (d'', None) \<and>
       dval d'' = dval d \<and> dec_exp d'' = dec_exp d)"
proof -
  have ok: "exp_ok d" using assms(1,2) by (simp add: exp_ok_def)
  obtain d' where d': "NewFromString s = Inr d'" "dval d' = dval d" using String_parse [OF ok assms(3)] by blast
  let ?j = "[CHR 0x22] @ s @ [CHR 0x22]"
  have "Decimal_MarshalJSON d = Inr ?j"
    using assms(3) by (simp add: Decimal_MarshalJSON_def MarshalJSONWithoutQuotes_def)
  moreover have "Decimal_UnmarshalJSON d0 ?j = (d', None)" for d0
    using d'(1) unquote_quoted [OF string_not_Nil [OF assms(3)]]
    by (simp add: Decimal_UnmarshalJSON_def parse_into_def)
  moreover have "dval (mkDecimal (ensureInitialized d) (dec_exp d)) = dval d" by (simp add: dval_def)
  ultimately show ?thesis using d' Binary_back [OF ok] init_mk(2) by blast
qed

theorem decimal_formats_witness:
  "\<exists>d'. dval d' = dval (mkDecimal (- 12345) (- 3)) \<and> NewFromString ''-12.345'' = Inr d'"
proof -
  have "Decimal_String (mkDecimal (- 12345) (- 3)) = Inr ''-12.345''" by code_simp
  from decimal_formats [OF _ _ this] show ?thesis by auto
qed

text \<open>C28 Shifting a multiprecision decimal by \<open>k\<close> bits never indexes out of range and multiplies the number by
  exactly \<open>2 ^ k\<close>, as long as its digits fit into the buffer of 800.\<close>

theorem mp_Shift_exact:
  assumes "mp_ok a" "mp_nd a \<noteq> 0" "dnum (digs a) * (if k < 0 then 5 ^ nat (- k) else 2 ^ nat k) < 10 ^ bufsize"
  shows "\<exists>b. mp_Shift a k = Inr b \<and> mval b = mval a * 2 powi k \<and> mp_ok b \<and> mp_nd b \<noteq> 0"
  using Shift_ok [OF assms(1,2)] assms(3) unfolding buflimit_def by blast

theorem mp_Shift_exact_witness:
  "\<exists>b. mp_Shift (mp_Assign new_mpdec 3) (- 2) = Inr b \<and> mval b = 3 / 4"
proof -
  have n: "List.length (mp_d new_mpdec) = bufsize" by (simp add: new_mpdec_def)
  note a = Assign_ok [of 3, OF _ _ n, simplified]
  have "dnum (digs (mp_Assign new_mpdec 3)) * 5 ^ nat 2 \<le> 3 * 25" using a(4) by simp
  also have "(3 * 25 :: nat) < 10 ^ 2" by simp
  also have "(10 :: nat) ^ 2 \<le> 10 ^ bufsize" by (rule power_increasing) (simp_all add: bufsize_def)
  finally have "dnum (digs (mp_Assign new_mpdec 3)) * (if (- 2 :: int) < 0 then 5 ^ nat (- (- 2)) else 2 ^ nat (- 2)) < 10 ^ bufsize" by simp
  from mp_Shift_exact [OF a(1) _ this] a(2,3) show ?thesis by (auto simp: power_int_minus)
qed

section \<open>Cash rounding\<close>

lemma round_away_int [simp]: "round_away (of_int z) = z"
proof -
  have f: "\<lfloor>of_int m + 1 / 2 :: rat\<rfloor> = m" for m :: int by (rule floor_unique) simp_all
  show ?thesis using f [of z] f [of "- z"] by (simp add: round_away_def)
qed

lemma cash_scaled:
  assumes "moderate (dec_exp d)" "dec_value d \<noteq> None" "int n * k = 100"
  shows "\<exists>q. bindE (Decimal_Mul d (mkDecimal (int n) 0)) (\<lambda>x.
      bindE (Decimal_Div (Decimal_Round x 0) (mkDecimal (int n) 0)) (\<lambda>y. Inr (Decimal_Truncate y 2))) = Inr q \<and>
    dval q = of_int (round_away (dval d * of_nat n)) / of_nat n"
proof -
  have n: "(of_nat n :: rat) \<noteq> 0" using assms(3) by (cases n) auto
  have nk: "(of_nat n :: rat) * of_int k = 100" using assms(3) by (metis of_int_mult of_int_numeral of_int_of_nat_eq)
  have e: "dec_exp (mkDecimal (int n) 0) = 0" by (simp add: mkDecimal_def)
  have "MinInt32 \<le> dec_exp d + 0" "dec_exp d + 0 \<le> MaxInt32" using assms(1) by (simp_all add: moderate_def)
  then have "Decimal_Mul d (mkDecimal (int n) 0) \<noteq> Inl e" for e
    unfolding Mul_ok [of d "mkDecimal (int n) 0" e] \<open>dec_exp (mkDecimal (int n) 0) = 0\<close> by blast
  then obtain x where x: "Decimal_Mul d (mkDecimal (int n) 0) = Inr x" by (cases "Decimal_Mul d (mkDecimal (int n) 0)") auto
  have xv: "dval x = dval d * of_nat n" using Mul_dval [OF x] by simp
  define v where "v = round_away (dval d * of_nat n)"
  have r: "Decimal_Round x 0 = mkDecimal v 0" by (simp add: Round_mk places_ok_def xv v_def)
  have "\<exists>q. Decimal_DivRound (mkDecimal v 0) (mkDecimal (int n) 0) 16 = Inr q \<and>
      dval q = of_int (round_away (dval (mkDecimal v 0) / dval (mkDecimal (int n) 0) * 10 powi 16)) * 10 powi - 16"
    by (rule DivRound_spec) (use n in \<open>simp_all add: moderate_def mkDecimal_def [of v]\<close>)
  then obtain y where y: "Decimal_DivRound (mkDecimal v 0) (mkDecimal (int n) 0) 16 = Inr y"
    "dval y = of_int (round_away (of_int v / of_nat n * 10 powi 16)) * 10 powi - 16" by auto
  define w where "w = v * k"
  have q: "of_int v / of_nat n = (of_int w / 100 :: rat)" using n nk by (simp add: w_def field_simps)
  have i: "of_int v / of_nat n * 10 powi 16 = (of_int (w * 10 ^ 14) :: rat)" unfolding q by (simp add: power_int_def)
  have yv: "dval y = of_int w / 100" unfolding y(2) i round_away_int by (simp add: powi_minus power_int_def power_one_over)
  have "dval (Decimal_Truncate y 2) = of_int (trunc (of_int w)) * 10 powi - 2"
    using Truncate_dval [of 2 y] by (simp add: yv power_int_def)
  then have "dval (Decimal_Truncate y 2) = of_int v / of_nat n" unfolding q by (simp add: power_int_minus power_int_def power_one_over power2_eq_square)
  moreover have "i32 DivisionPrecision = 16" by code_simp
  ultimately show ?thesis using y(1) by (simp add: x r Decimal_Div_def v_def)
qed

text \<open>The intervals and the numbers of them in one unit.\<close>

definition cash_intervals :: "(nat \<times> nat) list" where
  "cash_intervals = [(5, 20), (10, 10), (25, 4), (50, 2), (100, 1)]"

lemma cash_regular:
  assumes "moderate (dec_exp d)" "dec_value d \<noteq> None" "(i, n) \<in> set cash_intervals"
  shows "\<exists>q. Decimal_RoundCash d i = Inr q \<and> dval q = of_int (round_away (dval d * of_nat n)) / of_nat n"
proof -
  from assms(3) obtain k where k: "int n * k = 100" and i: "(i, n) \<in> {(5, 20), (10, 10), (25, 4), (50, 2), (100, 1)}"
    by (auto simp: cash_intervals_def)
  have "Decimal_RoundCash d i = bindE (Decimal_Mul d (mkDecimal (int n) 0)) (\<lambda>x.
      bindE (Decimal_Div (Decimal_Round x 0) (mkDecimal (int n) 0)) (\<lambda>y. Inr (Decimal_Truncate y 2)))"
    using i by (auto simp: Decimal_RoundCash_def Let_def)
  with cash_scaled [OF assms(1,2) k] show ?thesis by simp
qed

lemma big_Quo_multiple: "0 < b \<Longrightarrow> big_Quo (a * b) b = a" "0 < b \<Longrightarrow> big_Rem (a * b) b = 0"
  by (simp_all add: big_Quo_def big_Rem_def abs_mult sgn_mult abs_mult_sgn mult.commute)

lemma cash15_tenth: "cash15 (mkDecimal (10 * m) (- 2)) = Inr (mkDecimal (10 * m - 8) (- 2))"
proof -
  have p: "i32 DivisionPrecision = 16" "i32 (i32 (0 - 0) - - 16) = 16" "i32 (- 16) = - 16" "i32 (- 16 + 0) = - 16" "i32 (- 16 + 16) = 0"
    "(10 :: int) XOR 2 = 8" by code_simp+
  have n: "100000000000000000 * m = (m * 20000000000000000) * 5" by simp
  have o: "big_Quo (100000000000000000 * m) 5 = m * 20000000000000000" "big_Rem (100000000000000000 * m) 5 = 0"
    unfolding n by (rule big_Quo_multiple, simp)+
  have r: "Decimal_QuoRem (mkDecimal (10 * m) 0) (mkDecimal 5 0) 16 = Inr (mkDecimal (m * 20000000000000000) (- 16), mkDecimal 0 (- 16))"
    unfolding Decimal_QuoRem_def init_mk Let_def p by (simp add: o)
  have c: "Decimal_Cmp (mkDecimal 0 (i32 0)) (Decimal_Abs (mkDecimal 5 0)) = - 1" by code_simp
  have d: "Decimal_Div (mkDecimal (10 * m) 0) (mkDecimal 5 0) = Inr (mkDecimal (m * 20000000000000000) (- 16))"
    unfolding Decimal_Div_def Decimal_DivRound_def p r by (simp add: Let_def p c)
  have q: "big_Quo (m * 20000000000000000) 10000000000000000 = 2 * m"
    using big_Quo_multiple(1) [of 10000000000000000 "2 * m"] by (simp add: mult.commute)
  have t: "Decimal_Truncate (mkDecimal (m * 20000000000000000) (- 16)) 0 = mkDecimal (2 * m) 0"
    unfolding Decimal_Truncate_def rescale_def init_mk Let_def by (simp add: q)
  have m: "Decimal_Mod (mkDecimal (10 * m) 0) (mkDecimal 5 0) = Inr (mkDecimal 0 0)"
    by (simp add: Decimal_Mod_def d t Decimal_Mul_def Decimal_Sub_def Let_def rescale_def)
  have z: "Decimal_Equal (mkDecimal 0 0) Zero" by code_simp
  have e: "mkDecimal (10 * m) (- 2)\<lparr>dec_exp := 0\<rparr> = mkDecimal (10 * m) 0" "mkDecimal (10 * m) 0\<lparr>dec_exp := - 2\<rparr> = mkDecimal (10 * m) (- 2)"
    by (simp_all add: mkDecimal_def)
  show ?thesis
    by (simp add: cash15_def e fiveDec_def m z p Decimal_Sub_def Let_def rescale_def)
qed

lemma cash15_round: "round_away (of_int (10 * m - 8) * 10 powi - 2 * of_nat 10) = m - 1"
proof -
  have x: "of_int (10 * m - 8) * 10 powi - 2 * of_nat 10 = (of_int m - 8 / 10 :: rat)"
    by (simp add: power_int_minus power_int_def field_simps)
  have p: "0 \<le> (of_int m - 8 / 10 :: rat) \<longleftrightarrow> 1 \<le> m" by linarith
  have f: "\<lfloor>of_int m - 8 / 10 + 1 / 2 :: rat\<rfloor> = m - 1" by (rule floor_unique) simp_all
  have g: "\<lfloor>- (of_int m - 8 / 10) + 1 / 2 :: rat\<rfloor> = 1 - m" by (rule floor_unique) simp_all
  show ?thesis unfolding x round_away_def using f g by simp
qed

text \<open>C29 Cash rounding.  For the intervals of 5, 10, 25, 50 and 100 cents \<^verbatim>\<open>RoundCash\<close> returns the amount rounded,
  half away from zero, to a multiple of the interval; an interval other than these and 15 panics; and for
  the interval of 15 cents, where the code writes a power of ten with Go's exclusive or, every amount of
  whole tens of cents, held with two decimals, loses ten cents.\<close>

theorem decimal_cash:
  assumes "moderate (dec_exp d)" "dec_value d \<noteq> None"
  shows "(\<forall>(i, n) \<in> set cash_intervals.
      \<exists>q. Decimal_RoundCash d i = Inr q \<and> dval q = of_int (round_away (dval d * of_nat n)) / of_nat n) \<and>
    (\<forall>i. i \<noteq> 15 \<and> i \<notin> fst ` set cash_intervals \<longrightarrow> Decimal_RoundCash d i = Inl PanicCashInterval) \<and>
    (\<forall>m. \<exists>q. Decimal_RoundCash (mkDecimal (10 * m) (- 2)) 15 = Inr q \<and> dval q = of_int (m - 1) / 10)"
proof (intro conjI ballI allI impI)
  fix p assume "p \<in> set cash_intervals"
  then show "case p of (i, n) \<Rightarrow> \<exists>q. Decimal_RoundCash d i = Inr q \<and> dval q = of_int (round_away (dval d * of_nat n)) / of_nat n"
    using cash_regular [OF assms] by blast
next
  fix i :: nat assume "i \<noteq> 15 \<and> i \<notin> fst ` set cash_intervals"
  then show "Decimal_RoundCash d i = Inl PanicCashInterval" by (simp add: Decimal_RoundCash_def cash_intervals_def)
next
  fix m
  have r: "round_away (of_int (10 * m - 8) * 10 powi - 2 * of_nat 10) = m - 1"
    by (rule cash15_round)
  have "\<exists>q. bindE (Decimal_Mul (mkDecimal (10 * m - 8) (- 2)) (mkDecimal (int 10) 0)) (\<lambda>x.
      bindE (Decimal_Div (Decimal_Round x 0) (mkDecimal (int 10) 0)) (\<lambda>y. Inr (Decimal_Truncate y 2))) = Inr q \<and>
    dval q = of_int (round_away (dval (mkDecimal (10 * m - 8) (- 2)) * of_nat 10)) / of_nat 10"
    by (rule cash_scaled [where k = 10]) (simp_all add: moderate_def mkDecimal_def [of "10 * m - 8"])
  then show "\<exists>q. Decimal_RoundCash (mkDecimal (10 * m) (- 2)) 15 = Inr q \<and> dval q = of_int (m - 1) / 10"
    unfolding dval_mk r by (simp add: Decimal_RoundCash_def cash15_tenth Let_def)
qed

theorem decimal_cash_witness:
  "\<exists>q. Decimal_RoundCash (mkDecimal 343 (- 2)) 5 = Inr q \<and> dval q = 69 / 20"
proof -
  have a: "moderate (dec_exp (mkDecimal 343 (- 2)))" "dec_value (mkDecimal 343 (- 2)) \<noteq> None" by (simp_all add: moderate_def mkDecimal_def)
  have f: "\<lfloor>343 * 10 powi - 2 * 20 + 1 / 2 :: rat\<rfloor> = 69" by (rule floor_unique) (simp_all add: power_int_minus)
  have i: "(5, 20) \<in> set cash_intervals" by (simp add: cash_intervals_def)
  from conjunct1 [OF decimal_cash [OF a], THEN bspec, OF i] show ?thesis
    using f by (simp add: round_away_def)
qed

end
