(* ===== verification/GaloisField.thy ===== *)
theory GaloisField
  imports Galois
begin

text \<open>
  The arithmetic of \<^verbatim>\<open>crypto/galois\<close> is a field.  The tables are checked entry by entry to be powers and logarithms
  of the generator \<open>0xe5\<close>; multiplication by the generator is linear over exclusive or, and so
  is multiplication by each of its powers.
\<close>

section \<open>The tables\<close>

definition E :: "nat \<Rightarrow> byte" where
  "E n = expTable ! (n mod 255)"

definition lg :: "byte \<Rightarrow> nat" where
  "lg a = unat (logTable ! unat a)"

text \<open>Multiplication by the generator, given on the powers of two.\<close>

definition gen :: "byte \<Rightarrow> byte" where
  "gen x = foldr (\<lambda>k r. (if bit x k then [0xe5, 0xd1, 0xb9, 0x69, 0xd2, 0xbf, 0x65, 0xca] ! k else 0) XOR r) [0..<8] 0"

lemma exp_of_log: "list_all (\<lambda>a. expTable ! (unat (logTable ! unat a) mod 255) = a) (map of_nat [1..<256])"
  by code_simp

lemma log_of_exp: "list_all (\<lambda>n. unat (logTable ! unat (expTable ! n)) mod 255 = n \<and> expTable ! n \<noteq> 0) [0..<255]"
  by code_simp

lemma exp_step: "list_all (\<lambda>n. expTable ! Suc n = gen (expTable ! n)) [0..<255] \<and> expTable ! 0 = 1 \<and> expTable ! 255 = 1"
  by code_simp

lemma byte_cases: "a \<noteq> 0 \<Longrightarrow> (a :: byte) \<in> set (map of_nat [1..<256])"
proof -
  assume "a \<noteq> 0"
  then have "unat a \<in> set [1..<256]" using unsigned_less [of a] by (simp add: unat_gt_0 Suc_le_eq)
  then have "of_nat (unat a) \<in> set (map of_nat [1..<256] :: byte list)" by (metis image_eqI list.set_map)
  then show ?thesis by simp
qed

lemma E_lg: "a \<noteq> 0 \<Longrightarrow> E (lg a) = a"
  using exp_of_log byte_cases [of a] unfolding list_all_iff E_def lg_def by blast

lemma lg_E: "lg (E n) mod 255 = n mod 255"
  using log_of_exp by (simp add: list_all_iff E_def lg_def)

lemma E_nonzero [simp]: "E n \<noteq> 0"
  using log_of_exp by (simp add: list_all_iff E_def)

lemma E_cong: "n mod 255 = m mod 255 \<Longrightarrow> E n = E m"
  by (simp add: E_def)

lemma E_Suc: "E (Suc n) = gen (E n)"
proof -
  have s: "expTable ! Suc (n mod 255) = gen (E n)"
    using exp_step by (simp add: list_all_iff E_def)
  show ?thesis
  proof (cases "n mod 255 = 254")
    case True
    then have "Suc n mod 255 = 0" by (simp add: mod_Suc)
    then show ?thesis using s True exp_step by (simp add: E_def)
  next
    case False
    then have "Suc n mod 255 = Suc (n mod 255)" by (simp add: mod_Suc)
    then show ?thesis using s by (simp add: E_def)
  qed
qed

lemma E_0 [simp]: "E 0 = 1"
  using exp_step by (simp add: E_def)

section \<open>Linearity\<close>

lemma gen_xor: "gen (x XOR y) = gen x XOR gen y"
proof -
  have "foldr (\<lambda>k r. (if bit (x XOR y) k then c k else 0) XOR r) ks 0 =
      foldr (\<lambda>k r. (if bit x k then c k else 0) XOR r) ks 0 XOR foldr (\<lambda>k r. (if bit y k then c k else 0) XOR r) ks 0"
    for ks and c :: "nat \<Rightarrow> byte"
    by (induction ks) (simp_all add: bit_xor_iff xor.left_commute xor.assoc)
  then show ?thesis by (simp add: gen_def)
qed

lemma foldr_keep: "foldr (\<lambda>k r. r) ks z = z"
  by (induction ks) simp_all

lemma gen_0 [simp]: "gen 0 = 0"
  by (simp add: gen_def foldr_keep del: upt_rec_numeral)

lemma gen_pow_xor: "(gen ^^ n) (x XOR y) = (gen ^^ n) x XOR (gen ^^ n) y"
  by (induction n) (simp_all add: gen_xor)

lemma gen_pow_0 [simp]: "(gen ^^ n) 0 = 0"
  by (induction n) simp_all

lemma gen_pow_E: "(gen ^^ n) (E m) = E (n + m)"
  by (induction n) (simp_all add: E_Suc)

lemma mult_E: "gf_mult (E n) (E m) = E (n + m)"
proof -
  have "(lg (E n) + lg (E m)) mod 255 = (n + m) mod 255"
    by (metis lg_E mod_add_eq)
  then show ?thesis by (simp add: gf_mult_def Let_def MaxShares_def flip: lg_def) (simp add: E_def)
qed

lemma mult_0 [simp]: "gf_mult 0 b = 0" "gf_mult a 0 = 0"
  by (simp_all add: gf_mult_def Let_def)

lemma mult_E_pow: "gf_mult (E n) b = (gen ^^ n) b"
  using E_lg [of b] mult_E [of n "lg b"] gen_pow_E [of n "lg b"] by (cases "b = 0") auto

lemma E_cases: obtains "a = 0" | n where "a = E n"
  using E_lg [of a] by metis

section \<open>The laws\<close>

lemma mult_commute: "gf_mult a b = gf_mult b a"
  by (simp add: gf_mult_def Let_def add.commute)

lemma mult_assoc: "gf_mult (gf_mult a b) c = gf_mult a (gf_mult b c)"
  by (rule E_cases [of a]; rule E_cases [of b]; rule E_cases [of c]) (simp_all add: mult_E add.assoc)

lemma mult_xor: "gf_mult a (b XOR c) = gf_mult a b XOR gf_mult a c"
  by (rule E_cases [of a]) (simp_all add: mult_E_pow gen_pow_xor)

lemma mult_1: "gf_mult 1 a = a"
  using mult_E_pow [of 0 a] by simp

lemma div_E: "gf_div (E n) (E m) = Inr (E (n + 254 * m))"
proof -
  have e: "(int (lg (E n)) - int (lg (E m))) mod 255 = int ((n + 254 * m) mod 255)"
  proof -
    have "int (lg (E n)) mod 255 = int n mod 255" "int (lg (E m)) mod 255 = int m mod 255"
      using lg_E [of n] lg_E [of m] by (metis of_nat_mod of_nat_numeral)+
    then have "(int (lg (E n)) - int (lg (E m))) mod 255 = (int n - int m) mod 255" by (rule mod_diff_cong)
    also have "\<dots> = (int n - int m + 255 * int m) mod 255" by (rule mod_mult_self2 [symmetric])
    also have "\<dots> = (int n + 254 * int m) mod 255" by (simp add: algebra_simps)
    finally show ?thesis by (simp add: of_nat_mod)
  qed
  have "nat ((int (lg (E n)) - int (lg (E m))) mod 255) = (n + 254 * m) mod 255" by (simp only: e nat_int)
  then show ?thesis by (simp add: gf_div_def Let_def flip: lg_def) (simp only: E_def)
qed

lemma div_mult: "b \<noteq> 0 \<Longrightarrow> \<exists>q. gf_div a b = Inr q \<and> gf_mult q b = a"
proof -
  assume b: "b \<noteq> 0"
  then obtain m where m: "b = E m" using E_cases by metis
  show ?thesis
  proof (rule E_cases [of a])
    fix n assume a: "a = E n"
    have "E (n + 254 * m + m) = E n" by (rule E_cong) (use mod_mult_self2 [of n 255 m] in \<open>simp add: algebra_simps\<close>)
    then show ?thesis by (simp add: a m div_E mult_E)
  qed (use b in \<open>simp add: gf_div_def Let_def\<close>)
qed

section \<open>The field\<close>

datatype gf = GF (ungf: byte)

lemma gf_eqI: "ungf a = ungf b \<Longrightarrow> a = b"
  by (cases a; cases b) simp

lemma div_unique: "b \<noteq> 0 \<Longrightarrow> gf_mult q b = a \<Longrightarrow> gf_div a b = Inr q"
proof -
  assume b: "b \<noteq> 0" and q: "gf_mult q b = a"
  obtain q' where q': "gf_div a b = Inr q'" "gf_mult q' b = a" using div_mult [OF b] by blast
  obtain i where i: "gf_div 1 b = Inr i" "gf_mult i b = 1" using div_mult [OF b] by blast
  then have "gf_mult b i = 1" by (simp add: mult_commute)
  then have "q = gf_mult (gf_mult q b) i" "q' = gf_mult (gf_mult q' b) i"
    by (simp_all add: mult_assoc mult_commute [of _ 1] mult_1)
  then show ?thesis using q q' by simp
qed

instantiation gf :: field
begin

definition zero_gf :: gf where "0 = GF 0"
definition one_gf :: gf where "1 = GF 1"
definition plus_gf :: "gf \<Rightarrow> gf \<Rightarrow> gf" where "a + b = GF (gf_add (ungf a) (ungf b))"
definition minus_gf :: "gf \<Rightarrow> gf \<Rightarrow> gf" where "a - b = GF (gf_add (ungf a) (ungf b))"
definition uminus_gf :: "gf \<Rightarrow> gf" where "uminus_gf a = a"
definition times_gf :: "gf \<Rightarrow> gf \<Rightarrow> gf" where "a * b = GF (gf_mult (ungf a) (ungf b))"
definition inverse_gf :: "gf \<Rightarrow> gf" where
  "inverse_gf a = (case gf_div 1 (ungf a) of Inl e \<Rightarrow> 0 | Inr q \<Rightarrow> GF q)"
definition divide_gf :: "gf \<Rightarrow> gf \<Rightarrow> gf" where
  "divide_gf a b = (case gf_div (ungf a) (ungf b) of Inl e \<Rightarrow> 0 | Inr q \<Rightarrow> GF q)"

lemmas gf_defs = zero_gf_def one_gf_def plus_gf_def minus_gf_def uminus_gf_def times_gf_def inverse_gf_def divide_gf_def gf_add_def

instance
proof
  fix a b c :: gf
  show "a + b + c = a + (b + c)" by (simp add: gf_defs xor.assoc)
  show "a + b = b + a" by (simp add: gf_defs xor.commute)
  show "0 + a = a" by (simp add: gf_defs)
  show "- a + a = 0" by (simp add: gf_defs)
  show "a - b = a + - b" by (simp add: gf_defs)
  show "a * b * c = a * (b * c)" by (simp add: gf_defs mult_assoc)
  show "a * b = b * a" by (simp add: gf_defs mult_commute)
  show "1 * a = a" by (simp add: gf_defs mult_1)
  show "(a + b) * c = a * c + b * c" by (simp add: gf_defs mult_commute [of _ "ungf c"] mult_xor)
  show "(0 :: gf) \<noteq> 1" by (simp add: gf_defs)
  show "inverse (0 :: gf) = 0" by (simp add: gf_defs gf_div_def)
  {
    assume "a \<noteq> 0"
    then have "ungf a \<noteq> 0" by (auto simp: gf_defs intro: gf_eqI)
    then obtain q where "gf_div 1 (ungf a) = Inr q" "gf_mult q (ungf a) = 1" using div_mult by blast
    then show "inverse a * a = 1" by (simp add: gf_defs)
  }
  show "a div b = a * inverse b"
  proof (cases "ungf b = 0")
    case True
    then show ?thesis by (simp add: gf_defs gf_div_def)
  next
    case False
    then obtain q i where "gf_div (ungf a) (ungf b) = Inr q" "gf_mult q (ungf b) = ungf a"
      "gf_div 1 (ungf b) = Inr i" "gf_mult i (ungf b) = 1" using div_mult by metis
    moreover from this have "gf_mult (gf_mult (ungf a) i) (ungf b) = ungf a"
      by (simp add: mult_assoc mult_commute [of _ 1] mult_1)
    ultimately have "gf_div (ungf a) (ungf b) = Inr (gf_mult (ungf a) i)" "gf_div 1 (ungf b) = Inr i"
      using div_unique [OF False] by metis+
    then show ?thesis by (simp add: gf_defs)
  qed
qed

end

end
