(* ===== verification/GaloisShare.thy ===== *)
theory GaloisShare
  imports GaloisField
begin

text \<open>
  Lagrange interpolation over a field, and what it gives for \<^verbatim>\<open>Split\<close> and \<^verbatim>\<open>Combine\<close>: any
  \<open>threshold\<close> shares determine the secret.
\<close>

section \<open>Polynomials as coefficient lists\<close>

fun peval :: "('a :: field) list \<Rightarrow> 'a \<Rightarrow> 'a" where
  "peval [] x = 0"
| "peval (c # cs) x = c + x * peval cs x"

text \<open>The functions with at most \<open>n\<close> coefficients.\<close>

definition is_poly :: "nat \<Rightarrow> ('a :: field \<Rightarrow> 'a) \<Rightarrow> bool" where
  "is_poly n f = (\<exists>cs. List.length cs = n \<and> (\<forall>x. f x = peval cs x))"

lemma is_polyI: "List.length cs = n \<Longrightarrow> (\<And>x. f x = peval cs x) \<Longrightarrow> is_poly n f"
  by (auto simp: is_poly_def)

lemma peval_append_0: "peval (cs @ replicate k 0) x = peval cs x"
  by (induction cs) (simp, induction k, simp_all)

lemma is_poly_mono: "is_poly n f \<Longrightarrow> n \<le> m \<Longrightarrow> is_poly m f"
proof -
  assume "is_poly n f" "n \<le> m"
  then obtain cs where "List.length cs = n" "\<And>x. f x = peval cs x" by (auto simp: is_poly_def)
  then show ?thesis using \<open>n \<le> m\<close>
    by (intro is_polyI [of "cs @ replicate (m - n) 0"]) (simp_all add: peval_append_0)
qed

lemma peval_add: "List.length cs = List.length ds \<Longrightarrow> peval (map2 (+) cs ds) x = peval cs x + peval ds x"
  by (induction cs ds rule: list_induct2) (simp_all add: algebra_simps)

lemma peval_scale: "peval (map ((*) a) cs) x = a * peval cs x"
  by (induction cs) (simp_all add: algebra_simps)

lemma is_poly_add: "is_poly n f \<Longrightarrow> is_poly n g \<Longrightarrow> is_poly n (\<lambda>x. f x + g x)"
  unfolding is_poly_def using peval_add by (metis length_map length_zip min.idem)

lemma is_poly_scale: "is_poly n f \<Longrightarrow> is_poly n (\<lambda>x. a * f x)"
  unfolding is_poly_def using peval_scale by (metis length_map)

lemma is_poly_const: "is_poly (Suc n) (\<lambda>x. c)"
proof -
  have "is_poly (Suc 0) (\<lambda>x. c)" by (rule is_polyI [of "[c]"]) simp_all
  then show ?thesis by (rule is_poly_mono) simp
qed

lemma is_poly_zero: "is_poly n (\<lambda>x. 0)"
  using is_poly_mono [of 0 "\<lambda>x. 0" n] is_polyI [of "[]" 0 "\<lambda>x. 0"] by simp

lemma is_poly_shift: "is_poly n f \<Longrightarrow> is_poly (Suc n) (\<lambda>x. x * f x)"
  unfolding is_poly_def
proof -
  assume "\<exists>cs. List.length cs = n \<and> (\<forall>x. f x = peval cs x)"
  then obtain cs where "List.length cs = n" "\<forall>x. f x = peval cs x" by blast
  then have "List.length (0 # cs) = Suc n \<and> (\<forall>x. x * f x = peval (0 # cs) x)" by simp
  then show "\<exists>cs. List.length cs = Suc n \<and> (\<forall>x. x * f x = peval cs x)" by blast
qed

lemma is_poly_linear: "is_poly n f \<Longrightarrow> is_poly (Suc n) (\<lambda>x. f x * ((x - a) / b))"
proof -
  assume f: "is_poly n f"
  have "is_poly (Suc n) (\<lambda>x. inverse b * (x * f x) + (- a * inverse b) * f x)"
    by (intro is_poly_add is_poly_scale is_poly_shift f is_poly_mono [OF f]) simp
  moreover have "(\<lambda>x. inverse b * (x * f x) + (- a * inverse b) * f x) = (\<lambda>x. f x * ((x - a) / b))"
    by (rule ext) (simp add: divide_inverse algebra_simps)
  ultimately show ?thesis by simp
qed

section \<open>A polynomial with more roots than its degree is zero\<close>

lemma peval_factor: "\<exists>g. is_poly (List.length cs - 1) g \<and> (\<forall>x. peval cs x - peval cs a = (x - a) * g x)"
proof (induction cs)
  case Nil
  show ?case by (rule exI [of _ "\<lambda>x. 0"]) (simp add: is_poly_zero)
next
  case (Cons c cs)
  then obtain g where g: "is_poly (List.length cs - 1) g" "\<And>x. peval cs x - peval cs a = (x - a) * g x" by blast
  show ?case
  proof (cases cs)
    case Nil
    then show ?thesis by (intro exI [of _ "\<lambda>x. 0"]) (simp add: is_poly_zero)
  next
    case (Cons d ds)
    have "is_poly (List.length cs) (\<lambda>x. x * g x + peval cs a)"
      using is_poly_add [OF is_poly_shift [OF g(1)] is_poly_const] Cons by simp
    moreover have "peval (c # cs) x - peval (c # cs) a = (x - a) * (x * g x + peval cs a)" for x
    proof -
      have "peval (c # cs) x - peval (c # cs) a = x * (peval cs x - peval cs a) + (x - a) * peval cs a"
        by (simp add: algebra_simps)
      then show ?thesis by (simp add: g(2) algebra_simps)
    qed
    ultimately show ?thesis by auto
  qed
qed

lemma poly_roots: "is_poly (List.length rs) f \<Longrightarrow> distinct rs \<Longrightarrow> (\<forall>r \<in> set rs. f r = 0) \<Longrightarrow> f x = 0"
proof (induction rs arbitrary: f)
  case Nil
  then show ?case by (auto simp: is_poly_def)
next
  case (Cons a rs)
  obtain cs where cs: "List.length cs = Suc (List.length rs)" "\<And>x. f x = peval cs x"
    using Cons.prems(1) by (auto simp: is_poly_def)
  obtain g where g: "is_poly (List.length rs) g" "\<And>x. f x - f a = (x - a) * g x"
    using peval_factor [of cs a] cs by auto
  have fg: "f x = (x - a) * g x" for x using g(2) [of x] Cons.prems(3) by simp
  have "g x = 0"
  proof (rule Cons.IH [OF g(1)])
    show "distinct rs" using Cons.prems(2) by simp
    show "\<forall>r \<in> set rs. g r = 0" using Cons.prems(2,3) fg by auto
  qed
  then show ?case using fg by simp
qed

lemma poly_unique:
  assumes "is_poly (List.length rs) f" "is_poly (List.length rs) g" "distinct rs" "\<forall>r \<in> set rs. f r = g r"
  shows "f x = g x"
proof -
  have "is_poly (List.length rs) (\<lambda>x. f x + (- 1) * g x)"
    by (intro is_poly_add is_poly_scale assms)
  then have "f x + (- 1) * g x = 0"
    by (rule poly_roots) (use assms in auto)
  then show ?thesis by simp
qed

section \<open>Lagrange interpolation\<close>

definition basis :: "('a :: field) list \<Rightarrow> nat \<Rightarrow> nat list \<Rightarrow> 'a \<Rightarrow> 'a" where
  "basis xs i js x = (\<Prod>j \<leftarrow> filter ((\<noteq>) i) js. (x - xs ! j) / (xs ! i - xs ! j))"

definition lagrange :: "('a :: field) list \<Rightarrow> 'a list \<Rightarrow> nat list \<Rightarrow> 'a \<Rightarrow> 'a" where
  "lagrange xs ys is x = (\<Sum>i \<leftarrow> is. ys ! i * basis xs i [0..<List.length xs] x)"

lemma is_poly_basis: "is_poly (Suc (List.length (filter ((\<noteq>) i) js))) (basis xs i js)"
proof (induction js)
  case Nil
  show ?case using is_poly_const [of 0 1] by (simp add: basis_def [abs_def])
next
  case (Cons j js)
  show ?case
  proof (cases "i = j")
    case True
    then show ?thesis using Cons by (simp add: basis_def [abs_def])
  next
    case False
    have "basis xs i (j # js) = (\<lambda>x. basis xs i js x * ((x - xs ! j) / (xs ! i - xs ! j)))"
      using False by (auto simp: basis_def)
    then show ?thesis using is_poly_linear [OF Cons] False by simp
  qed
qed

lemma filter_neq_length: "i < n \<Longrightarrow> List.length (filter ((\<noteq>) i) [0..<n]) = n - 1"
proof -
  assume "i < n"
  then have "set (filter ((\<noteq>) i) [0..<n]) = {0..<n} - {i}" by auto
  then show ?thesis using \<open>i < n\<close> distinct_card [of "filter ((\<noteq>) i) [0..<n]"] by simp
qed

lemma is_poly_lagrange: "set is \<subseteq> {0..<List.length xs} \<Longrightarrow> is_poly (List.length xs) (lagrange xs ys is)"
proof (induction "is")
  case Nil
  show ?case using is_poly_zero by (simp add: lagrange_def [abs_def])
next
  case (Cons i "is")
  have "is_poly (List.length xs) (basis xs i [0..<List.length xs])"
    using is_poly_basis [of i "[0..<List.length xs]" xs] Cons.prems filter_neq_length [of i "List.length xs"]
    by (cases "List.length xs") simp_all
  then have "is_poly (List.length xs) (\<lambda>x. ys ! i * basis xs i [0..<List.length xs] x + lagrange xs ys is x)"
    using Cons by (intro is_poly_add is_poly_scale) simp_all
  then show ?case by (simp add: lagrange_def [abs_def])
qed

lemma prod_ones: "(\<Prod>j \<leftarrow> js. (1 :: 'a :: field)) = 1"
  by (induction js) simp_all

lemma basis_at: "distinct xs \<Longrightarrow> i < List.length xs \<Longrightarrow> k < List.length xs \<Longrightarrow>
    basis xs i [0..<List.length xs] (xs ! k) = (if i = k then 1 else 0)"
proof (cases "i = k")
  case True
  assume xs: "distinct xs" "i < List.length xs"
  have "(xs ! k - xs ! j) / (xs ! i - xs ! j) = 1" if "j \<in> set (filter ((\<noteq>) i) [0..<List.length xs])" for j
    using that xs True by (auto simp: nth_eq_iff_index_eq)
  then have "map (\<lambda>j. (xs ! k - xs ! j) / (xs ! i - xs ! j)) (filter ((\<noteq>) i) [0..<List.length xs]) =
      map (\<lambda>j. 1) (filter ((\<noteq>) i) [0..<List.length xs])" by (intro map_cong) simp_all
  then have "basis xs i [0..<List.length xs] (xs ! k) = (\<Prod>j \<leftarrow> filter ((\<noteq>) i) [0..<List.length xs]. 1)"
    by (simp only: basis_def)
  also have "\<dots> = 1" by (rule prod_ones)
  finally show ?thesis using True by simp
next
  case False
  assume "k < List.length xs"
  then have "k \<in> set (filter ((\<noteq>) i) [0..<List.length xs])" using False by auto
  then have "0 \<in> set (map (\<lambda>j. (xs ! k - xs ! j) / (xs ! i - xs ! j)) (filter ((\<noteq>) i) [0..<List.length xs]))"
    by force
  then show ?thesis using False unfolding basis_def by (simp add: prod_list_zero_iff)
qed

lemma sum_delta: "distinct is \<Longrightarrow> k \<in> set is \<Longrightarrow> (\<Sum>i \<leftarrow> is. f i * (if i = k then 1 else (0 :: 'a :: field))) = f k"
proof (induction "is")
  case (Cons i "is")
  have "(\<Sum>i \<leftarrow> is. f i * (if i = k then 1 else (0 :: 'a))) = 0" if "k \<notin> set is"
    using that by (induction "is") auto
  then show ?case using Cons by auto
qed simp

lemma lagrange_at: "distinct xs \<Longrightarrow> k < List.length xs \<Longrightarrow> lagrange xs ys [0..<List.length xs] (xs ! k) = ys ! k"
proof -
  assume xs: "distinct xs" "k < List.length xs"
  have "lagrange xs ys [0..<List.length xs] (xs ! k) =
      (\<Sum>i \<leftarrow> [0..<List.length xs]. ys ! i * (if i = k then 1 else 0))"
    unfolding lagrange_def using xs by (intro arg_cong [of _ _ sum_list] map_cong) (simp_all add: basis_at)
  then show ?thesis using sum_delta [of "[0..<List.length xs]" k "\<lambda>i. ys ! i"] xs(2) by simp
qed

lemma lagrange_exact:
  assumes xs: "distinct xs" "List.length p \<le> List.length xs"
  shows "lagrange xs (map (peval p) xs) [0..<List.length xs] x = peval p x"
proof (rule poly_unique [of xs "lagrange xs (map (peval p) xs) [0..<List.length xs]" "peval p" x])
  show "distinct xs" by (rule xs)
  show "is_poly (List.length xs) (lagrange xs (map (peval p) xs) [0..<List.length xs])"
    by (rule is_poly_lagrange) simp
  show "is_poly (List.length xs) (peval p)"
    by (rule is_poly_mono [OF is_polyI [of p]]) (use xs in simp_all)
  show "\<forall>r \<in> set xs. lagrange xs (map (peval p) xs) [0..<List.length xs] r = peval p r"
    using xs by (auto simp: in_set_conv_nth lagrange_at)
qed

end
