(* ===== verification/GaloisTheorems.thy ===== *)
theory GaloisTheorems
  imports GaloisShare "HOL-Library.Code_Target_Nat"
begin

text \<open>
  The operations of \<^verbatim>\<open>crypto/galois\<close> compute in the field: evaluation, interpolation, and the two
  properties of the secret sharing, that enough shares reconstruct the secret and that fewer say nothing about it.
\<close>

section \<open>Evaluation and interpolation in the field\<close>

lemma gf_ops:
  "gf_add a b = ungf (GF a + GF b)" "gf_add a b = ungf (GF a - GF b)" "gf_mult a b = ungf (GF a * GF b)"
  by (simp_all add: gf_defs)

lemma gf_div_ok: "b \<noteq> 0 \<Longrightarrow> gf_div a b = Inr (ungf (GF a / GF b))"
  using div_mult [of b a] by (auto simp: gf_defs)

lemma GF_0 [simp]: "GF 0 = 0"
  by (simp add: zero_gf_def)

lemma GF_1 [simp]: "GF 1 = 1"
  by (simp add: one_gf_def)

lemma ungf_0 [simp]: "ungf 0 = 0"
  by (metis GF_0 gf.sel)

lemma gf_add_0_iff: "gf_add a b = 0 \<longleftrightarrow> a = b"
  using right_minus_eq [of "GF a" "GF b"] by (simp add: minus_gf_def zero_gf_def del: GF_0)

lemma horner_snoc: "horner x out (cs @ [c]) = gf_add (gf_mult (horner x out cs) x) c"
  by (induction cs arbitrary: out) simp_all

lemma horner_peval: "horner x out (rev cs) = ungf (peval (map GF cs @ [GF out]) (GF x))"
proof (induction cs)
  case (Cons c cs)
  then show ?case by (simp add: horner_snoc gf_ops(1,3) algebra_simps)
qed simp

lemma peval_at_0: "p \<noteq> [] \<Longrightarrow> peval p 0 = p ! 0"
  by (cases p) simp_all

lemma evaluate_peval: "p \<noteq> [] \<Longrightarrow> evaluate p x = ungf (peval (map GF p) (GF x))"
proof -
  assume p: "p \<noteq> []"
  then have "map GF (butlast p) @ [GF (last p)] = map GF p"
    by (metis append_butlast_last_id list.map(1) list.map(2) map_append)
  then show ?thesis using p by (simp add: evaluate_def horner_peval peval_at_0)
qed

lemma basis_loop_ok:
  "distinct xs \<Longrightarrow> i < List.length xs \<Longrightarrow> set js \<subseteq> {0..<List.length xs} \<Longrightarrow>
   basis_loop xs x i js b = Inr (ungf (GF b * basis (map GF xs) i js (GF x)))"
proof (induction js arbitrary: b)
  case Nil
  then show ?case by (simp add: basis_def)
next
  case (Cons j js)
  show ?case
  proof (cases "i = j")
    case True
    then show ?thesis using Cons by (simp add: basis_def)
  next
    case False
    then have "xs ! i \<noteq> xs ! j" using Cons.prems by (simp add: nth_eq_iff_index_eq)
    then have "gf_add (xs ! i) (xs ! j) \<noteq> 0" by (simp add: gf_add_0_iff)
    then have q: "gf_div (gf_add x (xs ! j)) (gf_add (xs ! i) (xs ! j)) =
        Inr (ungf ((GF x - GF (xs ! j)) / (GF (xs ! i) - GF (xs ! j))))"
      using gf_div_ok [of "gf_add (xs ! i) (xs ! j)" "gf_add x (xs ! j)"] by (simp only: minus_gf_def gf.sel simp_thms)
    define t where "t = (GF x - GF (xs ! j)) / (GF (xs ! i) - GF (xs ! j))"
    have r: "basis (map GF xs) i (j # js) (GF x) = t * basis (map GF xs) i js (GF x)"
      using False Cons.prems by (simp add: basis_def t_def)
    have "basis_loop xs x i (j # js) b = basis_loop xs x i js (gf_mult b (ungf t))"
      using False by (simp add: Let_def q flip: t_def)
    then show ?thesis using Cons by (simp add: r gf_ops(3) mult.assoc)
  qed
qed

lemma interpolate_loop_ok:
  "distinct xs \<Longrightarrow> List.length ys = List.length xs \<Longrightarrow> set is \<subseteq> {0..<List.length xs} \<Longrightarrow>
   interpolate_loop xs ys x is r = Inr (ungf (GF r + lagrange (map GF xs) (map GF ys) is (GF x)))"
proof (induction "is" arbitrary: r)
  case Nil
  then show ?case by (simp add: lagrange_def)
next
  case (Cons i "is")
  then show ?case by (simp add: basis_loop_ok lagrange_def gf_ops(1,3) add.assoc)
qed

lemma interpolate_ok:
  "distinct xs \<Longrightarrow> List.length ys = List.length xs \<Longrightarrow>
   interpolatePolynomial xs ys x = Inr (ungf (lagrange (map GF xs) (map GF ys) [0..<List.length xs] (GF x)))"
  by (simp add: interpolatePolynomial_def interpolate_loop_ok)

lemma distinct_GF: "distinct (map GF xs) = distinct xs"
  by (simp add: distinct_map inj_on_def)

lemma interpolate_evaluate:
  assumes "distinct xs" "p \<noteq> []" "List.length p \<le> List.length xs"
  shows "interpolatePolynomial xs (map (evaluate p) xs) 0 = Inr (p ! 0)"
proof -
  have "map GF (map (evaluate p) xs) = map (peval (map GF p)) (map GF xs)"
    using assms(2) by (simp add: evaluate_peval)
  then have "interpolatePolynomial xs (map (evaluate p) xs) 0 = Inr (ungf (peval (map GF p) (GF 0)))"
    using assms lagrange_exact [of "map GF xs" "map GF p"] by (simp add: interpolate_ok distinct_GF del: map_map)
  then show ?thesis using assms(2) by (simp add: peval_at_0)
qed

section \<open>What Split produces\<close>

lemma split_columns_ok:
  "split_columns rnd t xs k secret = Inr cols \<Longrightarrow>
   List.length cols = List.length secret \<and>
   (\<forall>j < List.length secret. \<exists>cs. rnd (k + j) (t - 1) = Some cs \<and> cols ! j = map (evaluate (secret ! j # cs)) xs)"
proof (induction secret arbitrary: k cols)
  case (Cons v secret)
  obtain cs cols' where cs: "rnd k (t - 1) = Some cs" "split_columns rnd t xs (Suc k) secret = Inr cols'"
    "cols = map (evaluate (v # cs)) xs # cols'"
    using Cons.prems by (auto simp: makePolynomial_def bindE_def split: option.splits sum.splits)
  have ih: "List.length cols' = List.length secret"
    "\<forall>j < List.length secret. \<exists>cs. rnd (Suc k + j) (t - 1) = Some cs \<and> cols' ! j = map (evaluate (secret ! j # cs)) xs"
    using Cons.IH [OF cs(2)] by simp_all
  then show ?case using cs by (auto simp: nth_Cons' less_Suc_eq_0_disj)
qed simp

lemma split_columns_total:
  "(\<And>j. j < List.length secret \<Longrightarrow> rnd (k + j) (t - 1) \<noteq> None) \<Longrightarrow> \<exists>cols. split_columns rnd t xs k secret = Inr cols"
proof (induction secret arbitrary: k)
  case (Cons v secret)
  obtain cols where "split_columns rnd t xs (Suc k) secret = Inr cols"
    using Cons.IH [of "Suc k"] Cons.prems [of "Suc j" for j] by auto
  moreover obtain cs where "rnd k (t - 1) = Some cs" using Cons.prems [of 0] by auto
  ultimately show ?case by (simp add: makePolynomial_def)
qed simp

definition share_xs :: "nat list \<Rightarrow> nat \<Rightarrow> byte list" where
  "share_xs perm n = map (\<lambda>k. of_nat k + 1) (take n perm)"

lemma share_x: "k < 255 \<Longrightarrow> unat (of_nat k + 1 :: byte) = Suc k"
proof -
  assume "k < 255"
  then have "unat (of_nat (Suc k) :: byte) = Suc k" by (intro of_nat_inverse [OF refl]) simp
  then show ?thesis by (simp add: add.commute)
qed

lemma share_x_inj: "k < 255 \<Longrightarrow> l < 255 \<Longrightarrow> (of_nat k + 1 :: byte) = of_nat l + 1 \<Longrightarrow> k = l"
  by (metis share_x Suc_inject)

lemma share_x_nonzero: "k < 255 \<Longrightarrow> (of_nat k + 1 :: byte) \<noteq> 0"
  by (metis share_x Zero_not_Suc unsigned_0)

definition share_at :: "nat list \<Rightarrow> byte list list \<Rightarrow> nat \<Rightarrow> byte list" where
  "share_at perm cols i = map (\<lambda>col. col ! i) cols @ [of_nat (perm ! i) + 1]"

lemma Galois_Split_cases:
  assumes "Galois_Split perm rnd secret parts threshold = Inr out" "List.length perm = 255"
  obtains cols where
    "secret \<noteq> []" "2 \<le> threshold" "threshold \<le> parts" "parts \<le> 255"
    "split_columns rnd (nat threshold) (share_xs perm (nat parts)) 0 secret = Inr cols"
    "out = map (share_at perm cols) [0..<nat parts]"
proof -
  from assms have c: "secret \<noteq> []" "2 \<le> threshold" "threshold \<le> parts" "parts \<le> 255"
    by (auto simp: Galois_Split_def MaxShares_def split: if_splits)
  obtain cols where cols: "split_columns rnd (nat threshold) (share_xs perm (nat parts)) 0 secret = Inr cols"
    "out = map (\<lambda>i. map (\<lambda>col. col ! i) cols @ [share_xs perm (nat parts) ! i]) [0..<nat parts]"
    using assms(1) by (auto simp: Galois_Split_def Let_def bindE_def share_xs_def split: if_splits sum.splits)
  have "out = map (share_at perm cols) [0..<nat parts]"
    using cols(2) c assms(2) by (auto simp: share_at_def share_xs_def nat_less_iff)
  then show ?thesis using c cols(1) that by blast
qed

section \<open>Reconstruction\<close>

lemma combine_bytes_ok:
  "(\<And>k. k \<in> set ks \<Longrightarrow> interpolatePolynomial xs (map (\<lambda>part. part ! k) parts) 0 = Inr (f k)) \<Longrightarrow>
   combine_bytes parts xs ks = Inr (map f ks)"
  by (induction ks) simp_all

definition valid_selection :: "nat list \<Rightarrow> nat \<Rightarrow> bool" where
  "valid_selection sel n = (distinct sel \<and> set sel \<subseteq> {0..<n})"

lemma selected_xs_distinct:
  "distinct perm \<Longrightarrow> set perm = {0..<255} \<Longrightarrow> valid_selection sel (nat parts) \<Longrightarrow> parts \<le> 255 \<Longrightarrow>
   distinct (map (\<lambda>i. of_nat (perm ! i) + 1 :: byte) sel)"
proof -
  assume p: "distinct perm" "set perm = {0..<255}" and v: "valid_selection sel (nat parts)" "parts \<le> 255"
  have l: "List.length perm = 255" using p distinct_card by fastforce
  have b: "i < 255 \<and> perm ! i < 255" if "i \<in> set sel" for i
    using that v p(2) l nth_mem [of i perm] by (auto simp: valid_selection_def)
  have "inj_on (\<lambda>i. of_nat (perm ! i) + 1 :: byte) (set sel)"
  proof (rule inj_onI)
    fix x y assume xy: "x \<in> set sel" "y \<in> set sel" and e: "(of_nat (perm ! x) + 1 :: byte) = of_nat (perm ! y) + 1"
    have "perm ! x = perm ! y" by (rule share_x_inj) (use b xy e in blast)+
    then show "x = y" using p(1) b xy l by (metis nth_eq_iff_index_eq)
  qed
  then show ?thesis using v(1) by (simp add: valid_selection_def distinct_map)
qed

text \<open>C36 Any \<open>threshold\<close> different shares of a split, in any order, give the secret back: whatever permutation and random bytes the
  split used, \<^verbatim>\<open>Combine\<close> of the selected shares succeeds and returns the secret.\<close>

theorem shamir_reconstructs:
  assumes "distinct perm" "set perm = {0..<255}"
    and "\<forall>k n cs. rnd k n = Some cs \<longrightarrow> List.length cs = n"
    and "Galois_Split perm rnd secret parts threshold = Inr out"
    and "valid_selection sel (nat parts)" "threshold \<le> int (List.length sel)"
  shows "Combine (map ((!) out) sel) = Inr secret"
proof -
  have l: "List.length perm = 255" using assms(1,2) distinct_card by fastforce
  obtain cols where c: "secret \<noteq> []" "2 \<le> threshold" "threshold \<le> parts" "parts \<le> 255"
    "split_columns rnd (nat threshold) (share_xs perm (nat parts)) 0 secret = Inr cols"
    "out = map (share_at perm cols) [0..<nat parts]"
    using Galois_Split_cases [OF assms(4) l] by blast
  define xs :: "byte list" where "xs = map (\<lambda>i. of_nat (perm ! i) + 1) sel"
  have sel: "i < nat parts" "i < List.length perm" if "i \<in> set sel" for i
    using that assms(5) c(4) l by (auto simp: valid_selection_def)
  have cl: "List.length cols = List.length secret" using split_columns_ok [OF c(5)] by simp
  have shares: "map ((!) out) sel = map (share_at perm cols) sel"
    using sel(1) by (simp add: c(6))
  have len: "List.length sel \<ge> 2" "nat threshold \<le> List.length sel" using c(2) assms(6) by simp_all
  then obtain s ss where ss: "sel = s # ss" by (cases sel) auto
  have row: "List.length (share_at perm cols i) = Suc (List.length secret)" for i by (simp add: share_at_def cl)
  have xs: "map (\<lambda>part. part ! List.length secret) (map (share_at perm cols) sel) = xs"
    by (simp add: xs_def share_at_def cl nth_append)
  have d: "distinct xs" unfolding xs_def by (rule selected_xs_distinct [OF assms(1,2,5) c(4)])
  have "interpolatePolynomial xs (map (\<lambda>part. part ! k) (map (share_at perm cols) sel)) 0 = Inr (secret ! k)"
    if k: "k < List.length secret" for k
  proof -
    obtain cs where cs: "rnd k (nat threshold - 1) = Some cs" "cols ! k = map (evaluate (secret ! k # cs)) (share_xs perm (nat parts))"
      using split_columns_ok [OF c(5)] k by auto
    have n: "List.length (secret ! k # cs) \<le> List.length xs" using assms(3) cs(1) c(2) len(2) by (auto simp: xs_def)
    have "map (\<lambda>part. part ! k) (map (share_at perm cols) sel) = map (evaluate (secret ! k # cs)) xs"
      using k sel by (auto simp: share_at_def nth_append cl cs(2) xs_def share_xs_def)
    then show ?thesis using interpolate_evaluate [OF d _ n] by simp
  qed
  then have "combine_bytes (map (share_at perm cols) sel) xs [0..<List.length secret] = Inr (map ((!) secret) [0..<List.length secret])"
    by (intro combine_bytes_ok) simp
  then have "Combine (map (share_at perm cols) sel) = Inr secret"
    using len(1) d c(1) xs ss by (cases ss) (simp_all add: Combine_def row Let_def map_nth list_ex_iff)
  then show ?thesis by (simp add: shares)
qed

section \<open>Secrecy\<close>

lemma interpolant:
  assumes "distinct xs" "0 \<notin> set xs" "List.length xs < t" "List.length ys = List.length xs"
  shows "\<exists>cs. List.length cs = t - 1 \<and> map (evaluate (s # cs)) xs = ys"
proof -
  let ?X = "map GF (0 # xs)" and ?Y = "map GF (s # ys)"
  have d: "distinct ?X" using assms(1,2) distinct_GF [of "0 # xs"] by simp
  have "is_poly t (lagrange ?X ?Y [0..<List.length ?X])"
    by (rule is_poly_mono [OF is_poly_lagrange]) (use assms(3) in simp_all)
  then obtain p where p: "List.length p = t" "\<And>x. lagrange ?X ?Y [0..<List.length ?X] x = peval p x"
    by (auto simp: is_poly_def)
  have at: "peval p (?X ! k) = ?Y ! k" if "k < List.length ?X" for k
    using lagrange_at [OF d that] p(2) by metis
  obtain c cs where pc: "p = c # cs" using p(1) assms(3) by (cases p) auto
  have c: "c = GF s" using at [of 0] by (simp add: pc)
  have "evaluate (s # map ungf cs) (xs ! k) = ys ! k" if "k < List.length xs" for k
    using at [of "Suc k"] that assms(4) by (simp add: evaluate_peval pc c comp_def)
  then have "map (evaluate (s # map ungf cs)) xs = ys"
    using assms(4) by (intro nth_equalityI) simp_all
  moreover have "List.length (map ungf cs) = t - 1" using p(1) pc by simp
  ultimately show ?thesis by blast
qed

text \<open>C37 Fewer than \<open>threshold\<close> shares say nothing about the secret: for every other secret of the same length there are random
  bytes with which \<^verbatim>\<open>Split\<close> gives exactly the same shares to the selected parties.\<close>

theorem shamir_hides:
  assumes "distinct perm" "set perm = {0..<255}"
    and "\<forall>k n cs. rnd k n = Some cs \<longrightarrow> List.length cs = n"
    and "Galois_Split perm rnd secret parts threshold = Inr out"
    and "valid_selection sel (nat parts)" "int (List.length sel) < threshold"
    and "List.length secret' = List.length secret"
  shows "\<exists>rnd' out'. (\<forall>k n. \<exists>cs. rnd' k n = Some cs \<and> List.length cs = n) \<and>
    Galois_Split perm rnd' secret' parts threshold = Inr out' \<and> map ((!) out') sel = map ((!) out) sel"
proof -
  have l: "List.length perm = 255" using assms(1,2) distinct_card by fastforce
  obtain cols where c: "secret \<noteq> []" "2 \<le> threshold" "threshold \<le> parts" "parts \<le> 255"
    "split_columns rnd (nat threshold) (share_xs perm (nat parts)) 0 secret = Inr cols"
    "out = map (share_at perm cols) [0..<nat parts]"
    using Galois_Split_cases [OF assms(4) l] by blast
  define xs :: "byte list" where "xs = map (\<lambda>i. of_nat (perm ! i) + 1) sel"
  have sel: "i < nat parts" "i < List.length perm" if "i \<in> set sel" for i
    using that assms(5) c(4) l by (auto simp: valid_selection_def)
  have "perm ! i < 255" if "i \<in> set sel" for i
    using sel(2) [OF that] nth_mem [of i perm] assms(2) by auto
  then have z: "0 \<notin> set xs" using share_x_nonzero by (auto simp: xs_def)
  have d: "distinct xs" unfolding xs_def by (rule selected_xs_distinct [OF assms(1,2,5) c(4)])
  have "\<forall>k. \<exists>cs. List.length cs = nat threshold - 1 \<and> map (evaluate (secret' ! k # cs)) xs = map (\<lambda>i. cols ! k ! i) sel"
    by (intro allI interpolant [OF d z]) (use assms(6) in \<open>simp_all add: xs_def zless_nat_conj\<close>)
  then obtain g where g: "\<And>k. List.length (g k) = nat threshold - 1"
    "\<And>k. map (evaluate (secret' ! k # g k)) xs = map (\<lambda>i. cols ! k ! i) sel" by metis
  define rnd' where "rnd' = (\<lambda>k n. Some (if n = nat threshold - 1 then g k else replicate n (0 :: byte)))"
  have r: "\<forall>k n. \<exists>cs. rnd' k n = Some cs \<and> List.length cs = n" using g(1) by (simp add: rnd'_def)
  obtain cols' where cols': "split_columns rnd' (nat threshold) (share_xs perm (nat parts)) 0 secret' = Inr cols'"
    using split_columns_total [of secret' rnd' 0] by (auto simp: rnd'_def)
  have cl: "List.length cols = List.length secret" "List.length cols' = List.length secret"
    using split_columns_ok [OF c(5)] split_columns_ok [OF cols'] assms(7) by simp_all
  have ne: "secret' \<noteq> []" using c(1) assms(7) by auto
  have cases: "List.length secret' \<le> MaxSecretBytes" using assms(4,7) by (auto simp: Galois_Split_def split: if_splits)
  have out': "Galois_Split perm rnd' secret' parts threshold =
      Inr (map (\<lambda>i. map (\<lambda>col. col ! i) cols' @ [share_xs perm (nat parts) ! i]) [0..<nat parts])"
    using cases c(2-4) ne cols' by (simp add: Galois_Split_def MaxShares_def share_xs_def [symmetric])
  have same: "cols' ! k ! i = cols ! k ! i" if k: "k < List.length secret" and i: "i \<in> set sel" for k i
  proof -
    have "cols' ! k = map (evaluate (secret' ! k # g k)) (share_xs perm (nat parts))"
      using split_columns_ok [OF cols'] k assms(7) by (auto simp: rnd'_def)
    then have "cols' ! k ! i = evaluate (secret' ! k # g k) (of_nat (perm ! i) + 1)"
      using sel [OF i] by (simp add: share_xs_def)
    moreover have "\<forall>j \<in> set sel. evaluate (secret' ! k # g k) (of_nat (perm ! j) + 1) = cols ! k ! j"
      using g(2) [of k] by (simp add: xs_def)
    ultimately show ?thesis using i by simp
  qed
  have "map (\<lambda>col. col ! i) cols' = map (\<lambda>col. col ! i) cols" if "i \<in> set sel" for i
    by (rule nth_equalityI) (use that same cl in simp_all)
  then have "map ((!) (map (\<lambda>i. map (\<lambda>col. col ! i) cols' @ [share_xs perm (nat parts) ! i]) [0..<nat parts])) sel = map ((!) out) sel"
    using sel c(6) by (auto simp: share_at_def share_xs_def)
  then show ?thesis using r out' by blast
qed

section \<open>Witnesses\<close>

definition demo_rnd :: "nat \<Rightarrow> nat \<Rightarrow> byte list option" where
  "demo_rnd k n = Some (replicate n (of_nat k + 7))"

definition demo_shares :: "byte list list" where
  "demo_shares = [[13, 28, 1], [4, 4, 2], [3, 12, 3]]"

lemma demo_split: "Galois_Split [0..<255] demo_rnd [10, 20] 3 2 = Inr demo_shares"
  by code_simp

lemma demo_rnd_length: "\<forall>k n cs. demo_rnd k n = Some cs \<longrightarrow> List.length cs = n"
  by (simp add: demo_rnd_def)

lemma shamir_reconstructs_witness: "Combine (map ((!) demo_shares) [2, 0]) = Inr [10, 20]"
  by (rule shamir_reconstructs [OF _ _ demo_rnd_length demo_split]) (simp_all add: valid_selection_def atLeast_upt)

lemma shamir_hides_witness:
  "\<exists>rnd' out'. (\<forall>k n. \<exists>cs. rnd' k n = Some cs \<and> List.length cs = n) \<and>
    Galois_Split [0..<255] rnd' [33, 44] 3 2 = Inr out' \<and> map ((!) out') [1] = map ((!) demo_shares) [1]"
  by (rule shamir_hides [OF _ _ demo_rnd_length demo_split]) (simp_all add: valid_selection_def atLeast_upt)

end
