(* ===== verification/Sm3.thy ===== *)
theory Sm3
  imports Prelude "HOL-Library.Code_Target_Nat"
begin

text \<open>
  \<^verbatim>\<open>crypto/sm3/sm3.go\<close>: the SM3 hash.  Words and the message length have their width; the arrays \<^verbatim>\<open>w\<close> and \<^verbatim>\<open>w1\<close> are lists filled in index order
  (every cell is written before it is read).  The rotation count is a natural number, since it is below \<open>2 ^ 32\<close> in every call.
\<close>

unbundle bit_operations_syntax

section \<open>Big-endian words\<close>

definition be_word :: "byte list \<Rightarrow> 'a::len word" where
  "be_word bs = le_get (rev bs)"

definition be_bytes :: "nat \<Rightarrow> 'a::len word \<Rightarrow> byte list" where
  "be_bytes n w = rev (le_put n w)"

section \<open>Boolean functions and rotation\<close>

definition sm3_leftRotate :: "u32 \<Rightarrow> nat \<Rightarrow> u32" where
  "sm3_leftRotate x i = push_bit (i mod 32) x OR drop_bit (32 - i mod 32) x"

definition sm3_ff0 :: "u32 \<Rightarrow> u32 \<Rightarrow> u32 \<Rightarrow> u32" where
  "sm3_ff0 x y z = x XOR y XOR z"

definition sm3_ff1 :: "u32 \<Rightarrow> u32 \<Rightarrow> u32 \<Rightarrow> u32" where
  "sm3_ff1 x y z = (x AND y) OR (x AND z) OR (y AND z)"

definition sm3_gg0 :: "u32 \<Rightarrow> u32 \<Rightarrow> u32 \<Rightarrow> u32" where
  "sm3_gg0 x y z = x XOR y XOR z"

definition sm3_gg1 :: "u32 \<Rightarrow> u32 \<Rightarrow> u32 \<Rightarrow> u32" where
  "sm3_gg1 x y z = (x AND y) OR (NOT x AND z)"

definition sm3_p0 :: "u32 \<Rightarrow> u32" where
  "sm3_p0 x = x XOR sm3_leftRotate x 9 XOR sm3_leftRotate x 17"

definition sm3_p1 :: "u32 \<Rightarrow> u32" where
  "sm3_p1 x = x XOR sm3_leftRotate x 15 XOR sm3_leftRotate x 23"

section \<open>Compression\<close>

record SM3 =
  sm3_digest :: "u32 list"
  sm3_length :: u64
  sm3_unhandleMsg :: "byte list"

text \<open>The array \<^verbatim>\<open>w\<close>: sixteen words of the block, then one computed word after the other.\<close>

definition w_block :: "byte list \<Rightarrow> u32 list" where
  "w_block msg = map (\<lambda>i. be_word (take 4 (drop (4 * i) msg))) [0..<16]"

definition w_next :: "nat \<Rightarrow> u32 list \<Rightarrow> u32" where
  "w_next i w =
     sm3_p1 (w ! (i - 16) XOR w ! (i - 9) XOR sm3_leftRotate (w ! (i - 3)) 15)
       XOR sm3_leftRotate (w ! (i - 13)) 7 XOR w ! (i - 6)"

definition w_array :: "byte list \<Rightarrow> u32 list" where
  "w_array msg = foldl (\<lambda>w i. w @ [w_next i w]) (w_block msg) [16..<68]"

definition w1_array :: "u32 list \<Rightarrow> u32 list" where
  "w1_array w = map (\<lambda>i. w ! i XOR w ! (i + 4)) [0..<64]"

text \<open>The bodies of the two loops over the registers, for the rounds before and from 16.\<close>

type_synonym registers = "u32 \<times> u32 \<times> u32 \<times> u32 \<times> u32 \<times> u32 \<times> u32 \<times> u32"

definition round0 :: "u32 list \<Rightarrow> u32 list \<Rightarrow> registers \<Rightarrow> nat \<Rightarrow> registers" where
  "round0 w w1 = (\<lambda>(A, B, C, D, E, F, G, H) i.
     let SS1 = sm3_leftRotate (sm3_leftRotate A 12 + E + sm3_leftRotate 0x79cc4519 i) 7;
         SS2 = SS1 XOR sm3_leftRotate A 12;
         TT1 = sm3_ff0 A B C + D + SS2 + w1 ! i;
         TT2 = sm3_gg0 E F G + H + SS1 + w ! i
     in (TT1, A, sm3_leftRotate B 9, C, sm3_p0 TT2, E, sm3_leftRotate F 19, G))"

definition round1 :: "u32 list \<Rightarrow> u32 list \<Rightarrow> registers \<Rightarrow> nat \<Rightarrow> registers" where
  "round1 w w1 = (\<lambda>(A, B, C, D, E, F, G, H) i.
     let SS1 = sm3_leftRotate (sm3_leftRotate A 12 + E + sm3_leftRotate 0x7a879d8a i) 7;
         SS2 = SS1 XOR sm3_leftRotate A 12;
         TT1 = sm3_ff1 A B C + D + SS2 + w1 ! i;
         TT2 = sm3_gg1 E F G + H + SS1 + w ! i
     in (TT1, A, sm3_leftRotate B 9, C, sm3_p0 TT2, E, sm3_leftRotate F 19, G))"

definition update_block :: "registers \<Rightarrow> byte list \<Rightarrow> registers" where
  "update_block = (\<lambda>(a, b, c, d, e, f, g, h) msg.
     let w = w_array msg;
         w1 = w1_array w;
         (A, B, C, D, E, F, G, H) =
           foldl (round1 w w1) (foldl (round0 w w1) (a, b, c, d, e, f, g, h) [0..<16]) [16..<64]
     in (a XOR A, b XOR B, c XOR C, d XOR D, e XOR E, f XOR F, g XOR G, h XOR H))"

function update_loop :: "registers \<Rightarrow> byte list \<Rightarrow> registers" where
  "update_loop r msg =
     (if List.length msg \<ge> 64 then update_loop (update_block r msg) (drop 64 msg) else r)"
  by auto

termination
  by (relation "measure (\<lambda>(r, msg). List.length msg)") auto

declare update_loop.simps [simp del]

definition sm3_update :: "SM3 \<Rightarrow> byte list \<Rightarrow> SM3" where
  "sm3_update sm3 msg =
     (let dg = sm3_digest sm3;
          (a, b, c, d, e, f, g, h) =
            update_loop (dg ! 0, dg ! 1, dg ! 2, dg ! 3, dg ! 4, dg ! 5, dg ! 6, dg ! 7) msg
      in sm3\<lparr>sm3_digest := [a, b, c, d, e, f, g, h]\<rparr>)"

section \<open>Padding\<close>

text \<open>The number of zero bytes still to come when the message fills \<open>r\<close> bytes of its last block.\<close>

lemma pad_count: "r < 64 \<Longrightarrow> (120 - r) mod 64 = (if r \<le> 56 then 56 - r else 120 - r :: nat)"
  by (simp add: mod_if)

datatype sm3_panic = PadMsgLen

function pad_zeros :: "byte list \<Rightarrow> byte list" where
  "pad_zeros msg = (if List.length msg mod 64 \<noteq> 56 then pad_zeros (msg @ [0]) else msg)"
  by auto

termination
  by (relation "measure (\<lambda>msg. (120 - List.length msg mod 64) mod 64)") (auto simp: mod_Suc pad_count)

declare pad_zeros.simps [simp del]

definition sm3_pad :: "SM3 \<Rightarrow> sm3_panic + byte list" where
  "sm3_pad sm3 =
     (let msg = pad_zeros (sm3_unhandleMsg sm3 @ [0x80]);
          l = sm3_length sm3;
          msg = msg @ [ucast (drop_bit 56 l AND 0xff), ucast (drop_bit 48 l AND 0xff),
                       ucast (drop_bit 40 l AND 0xff), ucast (drop_bit 32 l AND 0xff),
                       ucast (drop_bit 24 l AND 0xff), ucast (drop_bit 16 l AND 0xff),
                       ucast (drop_bit 8 l AND 0xff), ucast (drop_bit 0 l AND 0xff)]
      in if List.length msg mod 64 \<noteq> 0 then Inl PadMsgLen else Inr msg)"

section \<open>The running hash\<close>

definition sm3_Reset :: "SM3 \<Rightarrow> SM3" where
  "sm3_Reset sm3 = sm3\<lparr>sm3_digest := [0x7380166f, 0x4914b2b9, 0x172442d7, 0xda8a0600,
      0xa96f30bc, 0x163138aa, 0xe38dee4d, 0xb0fb0e4e], sm3_length := 0, sm3_unhandleMsg := []\<rparr>"

definition sm3_zero :: SM3 where
  "sm3_zero = \<lparr>sm3_digest = replicate 8 0, sm3_length = 0, sm3_unhandleMsg = []\<rparr>"

definition sm3_New :: SM3 where
  "sm3_New = sm3_Reset sm3_zero"

definition sm3_BlockSize :: nat where "sm3_BlockSize = 64"
definition sm3_Size :: nat where "sm3_Size = 32"

text \<open>\<open>Write\<close> returns the number of bytes written, always all of them.\<close>

definition sm3_Write :: "SM3 \<Rightarrow> byte list \<Rightarrow> nat \<times> SM3" where
  "sm3_Write sm3 p =
     (let toWrite = List.length p;
          sm3 = sm3\<lparr>sm3_length := sm3_length sm3 + of_nat (List.length p * 8)\<rparr>;
          msg = sm3_unhandleMsg sm3 @ p;
          nblocks = List.length msg div sm3_BlockSize;
          sm3 = sm3_update sm3 msg
      in (toWrite, sm3\<lparr>sm3_unhandleMsg := drop (nblocks * sm3_BlockSize) msg\<rparr>))"

text \<open>\<open>Sum\<close> returns the thirty-two bytes after \<^verbatim>\<open>in\<close>, and the state it leaves behind.\<close>

definition sm3_Sum :: "SM3 \<Rightarrow> byte list \<Rightarrow> sm3_panic + (byte list \<times> SM3)" where
  "sm3_Sum sm3 input =
     (let (n, sm3) = sm3_Write sm3 input in
      bindE (sm3_pad sm3) (\<lambda>msg.
        let sm3 = sm3_update sm3 msg
        in Inr (concat (map (be_bytes 4) (sm3_digest sm3)), sm3)))"

definition Sm3Sum :: "byte list \<Rightarrow> sm3_panic + byte list" where
  "Sm3Sum data =
     (let sm3 = sm3_Reset sm3_zero;
          (n, sm3) = sm3_Write sm3 data
      in bindE (sm3_Sum sm3 []) (\<lambda>(out, sm3). Inr out))"

end
