(* ===== verification/HashBlocks.thy ===== *)
theory HashBlocks
  imports Prelude
begin

text \<open>
  Messages cut into blocks, shared by the hash functions: the whole blocks of a message, and how they grow with it.
\<close>

definition blocks :: "nat \<Rightarrow> 'a list \<Rightarrow> 'a list list" where
  "blocks n m = map (\<lambda>k. take n (drop (n * k) m)) [0..<List.length m div n]"

lemma blocks_step: "0 < n \<Longrightarrow> n \<le> List.length m \<Longrightarrow> blocks n m = take n m # blocks n (drop n m)"
proof -
  assume n: "0 < n" "n \<le> List.length m"
  have "List.length m div n = Suc ((List.length m - n) div n)" using n by (simp add: le_div_geq)
  then show ?thesis
    by (simp add: blocks_def upt_conv_Cons map_Suc_upt [symmetric] comp_def add.commute del: upt_Suc map_Suc_upt)
qed

lemma blocks_short: "List.length m < n \<Longrightarrow> blocks n m = []"
  by (simp add: blocks_def)

lemma blocks_append: "0 < n \<Longrightarrow> n dvd List.length m \<Longrightarrow> blocks n (m @ m') = blocks n m @ blocks n m'"
proof (induction "List.length m" arbitrary: m rule: less_induct)
  case less
  show ?case
  proof (cases "m = []")
    case True
    then show ?thesis by (simp add: blocks_short less.prems)
  next
    case False
    then have "n \<le> List.length m" using less.prems by (simp add: dvd_imp_le)
    moreover have "blocks n (drop n m @ m') = blocks n (drop n m) @ blocks n m'"
      by (rule less.hyps) (use less.prems False \<open>n \<le> List.length m\<close> in simp_all)
    ultimately show ?thesis using less.prems by (simp add: blocks_step)
  qed
qed

lemma blocks_whole: "0 < n \<Longrightarrow> blocks n (take (List.length m div n * n) m) = blocks n m"
proof -
  assume n: "0 < n"
  let ?a = "take (List.length m div n * n) m" and ?b = "drop (List.length m div n * n) m"
  have "List.length ?a = List.length m div n * n" by simp
  then have "blocks n (?a @ ?b) = blocks n ?a @ blocks n ?b" using n by (intro blocks_append) simp_all
  moreover have "List.length ?b < n" using n by (simp add: minus_div_mult_eq_mod)
  ultimately show ?thesis using blocks_short [of ?b n] by simp
qed

text \<open>Bytes that do not fill the last block, and bytes that just fill it.\<close>

lemma blocks_rest: "0 < n \<Longrightarrow> blocks n (m @ p) = blocks n m @ blocks n (drop (List.length m div n * n) m @ p)"
proof -
  assume n: "0 < n"
  let ?a = "take (List.length m div n * n) m" and ?b = "drop (List.length m div n * n) m"
  have "blocks n (?a @ (?b @ p)) = blocks n ?a @ blocks n (?b @ p)" using n by (intro blocks_append) simp_all
  moreover have "?a @ (?b @ p) = m @ p" by (metis append_assoc append_take_drop_id)
  ultimately show ?thesis using blocks_whole [OF n, of m] by simp
qed

lemma blocks_single: "0 < n \<Longrightarrow> List.length b = n \<Longrightarrow> blocks n b = [b]"
  by (simp add: blocks_step blocks_short)

lemma length_rest: "List.length (drop (List.length m div n * n) m) = List.length m mod n"
  by (simp add: minus_div_mult_eq_mod)

end
