(* ===== verification/Sm3Props.thy ===== *)
theory Sm3Props
  imports Sm3 HashBlocks
begin

text \<open>
  The SM3 standard as a reference (message expansion by recursion, one round function for all sixty-four rounds, padding with the smallest
  number of zeros), and the proof that the streaming implementation computes it.
\<close>

section \<open>The standard\<close>

definition SM3_T :: "nat \<Rightarrow> u32" where
  "SM3_T j = (if j < 16 then 0x79cc4519 else 0x7a879d8a)"

definition SM3_FF :: "nat \<Rightarrow> u32 \<Rightarrow> u32 \<Rightarrow> u32 \<Rightarrow> u32" where
  "SM3_FF j x y z = (if j < 16 then x XOR y XOR z else (x AND y) OR (x AND z) OR (y AND z))"

definition SM3_GG :: "nat \<Rightarrow> u32 \<Rightarrow> u32 \<Rightarrow> u32 \<Rightarrow> u32" where
  "SM3_GG j x y z = (if j < 16 then x XOR y XOR z else (x AND y) OR (NOT x AND z))"

definition SM3_P0 :: "u32 \<Rightarrow> u32" where
  "SM3_P0 x = x XOR word_rotl 9 x XOR word_rotl 17 x"

definition SM3_P1 :: "u32 \<Rightarrow> u32" where
  "SM3_P1 x = x XOR word_rotl 15 x XOR word_rotl 23 x"

fun SM3_W :: "byte list \<Rightarrow> nat \<Rightarrow> u32" where
  "SM3_W B j =
     (if j < 16 then be_word (take 4 (drop (4 * j) B))
      else SM3_P1 (SM3_W B (j - 16) XOR SM3_W B (j - 9) XOR word_rotl 15 (SM3_W B (j - 3)))
        XOR word_rotl 7 (SM3_W B (j - 13)) XOR SM3_W B (j - 6))"

declare SM3_W.simps [simp del]

definition SM3_round :: "byte list \<Rightarrow> registers \<Rightarrow> nat \<Rightarrow> registers" where
  "SM3_round B = (\<lambda>(A, B', C, D, E, F, G, H) j.
     let SS1 = word_rotl 7 (word_rotl 12 A + E + word_rotl j (SM3_T j));
         SS2 = SS1 XOR word_rotl 12 A;
         TT1 = SM3_FF j A B' C + D + SS2 + (SM3_W B j XOR SM3_W B (j + 4));
         TT2 = SM3_GG j E F G + H + SS1 + SM3_W B j
     in (TT1, A, word_rotl 9 B', C, SM3_P0 TT2, E, word_rotl 19 F, G))"

definition xor_registers :: "registers \<Rightarrow> registers \<Rightarrow> registers" where
  "xor_registers = (\<lambda>(a, b, c, d, e, f, g, h) (A, B, C, D, E, F, G, H).
     (a XOR A, b XOR B, c XOR C, d XOR D, e XOR E, f XOR F, g XOR G, h XOR H))"

definition SM3_CF :: "registers \<Rightarrow> byte list \<Rightarrow> registers" where
  "SM3_CF V B = xor_registers V (foldl (SM3_round B) V [0..<64])"

definition SM3_IV :: registers where
  "SM3_IV = (0x7380166f, 0x4914b2b9, 0x172442d7, 0xda8a0600, 0xa96f30bc, 0x163138aa, 0xe38dee4d, 0xb0fb0e4e)"

definition SM3_pad :: "byte list \<Rightarrow> byte list" where
  "SM3_pad m = m @ [0x80] @ replicate ((119 - List.length m mod 64) mod 64) 0 @ be_bytes 8 (of_nat (8 * List.length m) :: u64)"

definition register_bytes :: "registers \<Rightarrow> byte list" where
  "register_bytes = (\<lambda>(a, b, c, d, e, f, g, h). concat (map (be_bytes 4) [a, b, c, d, e, f, g, h]))"

definition SM3_chain :: "byte list \<Rightarrow> registers" where
  "SM3_chain m = foldl SM3_CF SM3_IV (blocks 64 m)"

definition SM3_hash :: "byte list \<Rightarrow> byte list" where
  "SM3_hash m = register_bytes (SM3_chain (SM3_pad m))"

section \<open>The compression function\<close>

lemma rot_index: "k < 32 \<Longrightarrow> n < 32 \<Longrightarrow> (n + 32 - k) mod 32 = (if k \<le> n then n - k else n + 32 - k :: nat)"
  by (simp add: mod_if)

lemma sm3_leftRotate_rotl: "sm3_leftRotate x i = word_rotl i x"
proof (rule bit_word_eqI)
  fix n assume n: "n < LENGTH(32)"
  obtain k where k: "i mod 32 = k" "k < 32" by simp
  have r: "bit (word_rotl i x) n = bit x (if k \<le> n then n - k else n + 32 - k)"
    using n k rot_index [of k n] by (simp add: bit_word_rotl_iff)
  have l: "bit (sm3_leftRotate x i) n \<longleftrightarrow> (k \<le> n \<and> bit x (n - k) \<or> bit x (32 - k + n))"
    using n by (simp add: sm3_leftRotate_def k(1) bit_or_iff bit_push_bit_iff bit_drop_bit_eq)
  show "bit (sm3_leftRotate x i) n = bit (word_rotl i x) n"
  proof (cases "k \<le> n")
    case True
    then have "\<not> bit x (32 - k + n)" using k(2) by (intro impossible_bit) simp
    then show ?thesis using l r True by simp
  next
    case False
    then show ?thesis using l r k(2) by (simp add: add.commute)
  qed
qed

lemma p0_eq: "sm3_p0 x = SM3_P0 x" and p1_eq: "sm3_p1 x = SM3_P1 x"
  by (simp_all add: sm3_p0_def sm3_p1_def SM3_P0_def SM3_P1_def sm3_leftRotate_rotl)

lemma w_next_W: "16 \<le> i \<Longrightarrow> w_next i (map (SM3_W B) [0..<i]) = SM3_W B i"
  by (subst SM3_W.simps) (simp add: w_next_def p1_eq sm3_leftRotate_rotl)

lemma w_array_W: "w_array B = map (SM3_W B) [0..<68]"
proof -
  have "foldl (\<lambda>w i. w @ [w_next i w]) (w_block B) [16..<16 + n] = map (SM3_W B) [0..<16 + n]" for n
  proof (induction n)
    case 0
    show ?case by (simp add: w_block_def SM3_W.simps [of B] del: upt_rec_numeral cong: map_cong)
  next
    case (Suc n)
    have "[16..<16 + Suc n] = [16..<16 + n] @ [16 + n]" "[0..<16 + Suc n] = [0..<16 + n] @ [16 + n]"
      by (simp_all only: add_Suc_right upt_Suc le_add1 le0 if_True)
    then show ?case by (simp only: foldl_append Suc foldl.simps w_next_W le_add1 map_append list.map)
  qed
  from this [of 52] show ?thesis by (simp add: w_array_def del: upt_rec_numeral)
qed

lemma w1_array_W: "w1_array (map (SM3_W B) [0..<68]) = map (\<lambda>j. SM3_W B j XOR SM3_W B (j + 4)) [0..<64]"
  by (simp add: w1_array_def del: upt_rec_numeral)

lemma round0_ref: "j < 16 \<Longrightarrow> round0 (w_array B) (w1_array (w_array B)) r j = SM3_round B r j"
  by (simp add: split_beta round0_def SM3_round_def w1_array_W w_array_W sm3_ff0_def sm3_gg0_def p0_eq sm3_leftRotate_rotl
    SM3_T_def SM3_FF_def SM3_GG_def Let_def del: upt_rec_numeral)

lemma round1_ref: "16 \<le> j \<Longrightarrow> j < 64 \<Longrightarrow> round1 (w_array B) (w1_array (w_array B)) r j = SM3_round B r j"
  by (simp add: split_beta round1_def SM3_round_def w1_array_W w_array_W sm3_ff1_def sm3_gg1_def p0_eq sm3_leftRotate_rotl
    SM3_T_def SM3_FF_def SM3_GG_def Let_def del: upt_rec_numeral)

lemma update_block_CF: "update_block V B = SM3_CF V B"
proof -
  let ?w = "w_array B" and ?w1 = "w1_array (w_array B)"
  have "foldl (round1 ?w ?w1) (foldl (round0 ?w ?w1) V [0..<16]) [16..<64] =
      foldl (SM3_round B) (foldl (SM3_round B) V [0..<16]) [16..<64]"
    by (intro foldl_cong refl) (simp_all add: round0_ref round1_ref del: upt_rec_numeral)
  also have "\<dots> = foldl (SM3_round B) V ([0..<16] @ [16..<64])" by (simp del: upt_rec_numeral)
  also have "[0..<16] @ [16..<64] = [0..<64]" using upt_add_eq_append [of 0 16 48] by (simp del: upt_rec_numeral)
  finally have e: "foldl (round1 ?w ?w1) (foldl (round0 ?w ?w1) V [0..<16]) [16..<64] = foldl (SM3_round B) V [0..<64]" .
  show ?thesis using e
    by (simp add: update_block_def SM3_CF_def xor_registers_def Let_def split_beta del: upt_rec_numeral)
qed

section \<open>Blocks\<close>

lemma w_block_take: "w_block (take 64 m) = w_block m"
  unfolding w_block_def by (intro map_cong refl) (simp add: take_drop min_def del: upt_rec_numeral)

lemma w_array_take: "w_array (take 64 m) = w_array m"
  by (simp only: w_array_def w_block_take)

lemma update_loop_blocks: "update_loop r m = foldl SM3_CF r (blocks 64 m)"
proof (induction r m rule: update_loop.induct)
  case (1 r m)
  show ?case
  proof (cases "64 \<le> List.length m")
    case True
    have e: "update_block r m = SM3_CF r (take 64 m)"
      unfolding update_block_CF [symmetric] by (simp add: update_block_def w_array_take split_beta del: upt_rec_numeral)
    have "update_loop r m = update_loop (update_block r m) (drop 64 m)"
      using True by (subst update_loop.simps) simp
    also have "\<dots> = foldl SM3_CF (update_block r m) (blocks 64 (drop 64 m))" using 1 True by blast
    also have "\<dots> = foldl SM3_CF r (blocks 64 m)" unfolding e using True by (subst (2) blocks_step) simp_all
    finally show ?thesis .
  next
    case False
    then show ?thesis by (subst update_loop.simps) (simp add: blocks_short)
  qed
qed

section \<open>The running state\<close>

definition registers_list :: "registers \<Rightarrow> u32 list" where
  "registers_list = (\<lambda>(a, b, c, d, e, f, g, h). [a, b, c, d, e, f, g, h])"

text \<open>The state of a hash that has absorbed the data.\<close>

definition sm3_absorbed :: "byte list \<Rightarrow> SM3" where
  "sm3_absorbed m = \<lparr>sm3_digest = registers_list (SM3_chain m), sm3_length = of_nat (8 * List.length m),
     sm3_unhandleMsg = drop (List.length m div 64 * 64) m\<rparr>"

lemma sm3_Reset_absorbed: "sm3_Reset st = sm3_absorbed []"
  by (cases st) (simp add: sm3_Reset_def sm3_absorbed_def registers_list_def SM3_chain_def SM3_IV_def blocks_short)

lemma sm3_update_registers:
  "sm3_digest st = registers_list r \<Longrightarrow> sm3_update st m = st\<lparr>sm3_digest := registers_list (foldl SM3_CF r (blocks 64 m))\<rparr>"
  by (simp add: sm3_update_def registers_list_def update_loop_blocks Let_def split_beta)

lemma chain_step:
  "foldl SM3_CF (SM3_chain m) (blocks 64 (drop (List.length m div 64 * 64) m @ p)) = SM3_chain (m @ p)"
  by (simp add: SM3_chain_def blocks_rest [of 64 m p])

lemma div_rest: "(a + b - a div 64 * 64) div 64 * 64 + a div 64 * 64 = (a + b) div 64 * (64 :: nat)"
proof -
  obtain q r where a: "a = q * 64 + r" "r < 64" by (metis div_mult_mod_eq mod_less_divisor zero_less_numeral)
  then have "(a + b) div 64 = q + (r + b) div 64" by (simp add: add.assoc)
  then show ?thesis using a by (simp add: algebra_simps)
qed

lemma drop_rest:
  "drop (List.length (drop (List.length m div 64 * 64) m @ p) div 64 * 64) (drop (List.length m div 64 * 64) m @ p)
    = drop (List.length (m @ p) div 64 * 64) (m @ p)"
proof -
  let ?k = "List.length m div 64 * 64"
  have "drop ?k m @ p = drop ?k (m @ p)" by simp
  then show ?thesis using div_rest [of "List.length m" "List.length p"] by (simp add: drop_drop)
qed

lemma sm3_Write_absorbed: "sm3_Write (sm3_absorbed m) p = (List.length p, sm3_absorbed (m @ p))"
proof -
  have u: "sm3_update (sm3_absorbed m\<lparr>sm3_length := l\<rparr>) (drop (List.length m div 64 * 64) m @ p) =
      sm3_absorbed m\<lparr>sm3_length := l, sm3_digest := registers_list (SM3_chain (m @ p))\<rparr>" for l
    by (subst sm3_update_registers [of _ "SM3_chain m"]) (simp_all add: sm3_absorbed_def chain_step)
  show ?thesis using drop_rest [of m p] u
    by (simp add: sm3_Write_def sm3_BlockSize_def Let_def) (simp add: sm3_absorbed_def algebra_simps)
qed

section \<open>Padding\<close>

lemma pad_count_Suc: "r < 64 \<Longrightarrow> r \<noteq> 56 \<Longrightarrow> (120 - r) mod 64 = Suc ((120 - (if Suc r = 64 then 0 else Suc r)) mod 64)"
  using pad_count [of r] pad_count [of "Suc r"] by (auto split: if_splits)

lemma pad_zeros_eq: "pad_zeros msg = msg @ replicate ((120 - List.length msg mod 64) mod 64) 0"
proof (induction msg rule: pad_zeros.induct)
  case (1 msg)
  show ?case
  proof (cases "List.length msg mod 64 = 56")
    case True
    then show ?thesis by (subst pad_zeros.simps) simp
  next
    case False
    have "pad_zeros msg = pad_zeros (msg @ [0])" using False by (subst pad_zeros.simps) simp
    also have "\<dots> = msg @ 0 # replicate ((120 - Suc (List.length msg) mod 64) mod 64) 0" using 1 False by simp
    also have "(120 - List.length msg mod 64) mod 64 = Suc ((120 - Suc (List.length msg) mod 64) mod 64)"
      using False pad_count_Suc [of "List.length msg mod 64"] by (simp add: mod_Suc)
    ultimately show ?thesis by simp
  qed
qed

lemma length_bytes:
  "[ucast (drop_bit 56 l AND 0xff), ucast (drop_bit 48 l AND 0xff), ucast (drop_bit 40 l AND 0xff), ucast (drop_bit 32 l AND 0xff),
    ucast (drop_bit 24 l AND 0xff), ucast (drop_bit 16 l AND 0xff), ucast (drop_bit 8 l AND 0xff), ucast (drop_bit 0 l AND 0xff)]
   = be_bytes 8 (l :: u64)"
proof -
  have m: "(0xff :: u64) = mask 8" by (simp add: mask_eq_exp_minus_1)
  have "ucast (x AND 0xff) = (ucast x :: byte)" for x :: u64
    by (rule bit_word_eqI) (simp add: m bit_and_iff bit_mask_iff bit_ucast_iff)
  then show ?thesis by (simp add: be_bytes_def numeral_nat)
qed

text \<open>What the standard appends to a message.\<close>

definition pad_tail :: "byte list \<Rightarrow> byte list" where
  "pad_tail m = [0x80] @ replicate ((119 - List.length m mod 64) mod 64) 0 @ be_bytes 8 (of_nat (8 * List.length m) :: u64)"

lemma SM3_pad_tail: "SM3_pad m = m @ pad_tail m"
  by (simp add: SM3_pad_def pad_tail_def)

lemma length_be_bytes [simp]: "List.length (be_bytes n w) = n"
  by (simp add: be_bytes_def)

lemma pad_length: "r < 64 \<Longrightarrow> (r + Suc ((119 - r) mod 64 + 8)) mod 64 = (0 :: nat)"
proof -
  assume r: "r < 64"
  then have "(119 - r) mod 64 = (if r \<le> 55 then 55 - r else 119 - r)" by (simp add: mod_if)
  then show ?thesis using r by (cases "r \<le> 55") simp_all
qed

lemma pad_shift: "r < 64 \<Longrightarrow> (120 - Suc r mod 64) mod 64 = (119 - r) mod (64 :: nat)"
  by (cases "r = 63") simp_all

lemma sm3_pad_absorbed: "sm3_pad (sm3_absorbed m) = Inr (drop (List.length m div 64 * 64) m @ pad_tail m)"
proof -
  let ?u = "drop (List.length m div 64 * 64) m" and ?l = "of_nat (8 * List.length m) :: u64"
  have u: "List.length ?u = List.length m mod 64" by (simp add: minus_div_mult_eq_mod)
  have z: "pad_zeros (?u @ [0x80]) @ be_bytes 8 ?l = ?u @ pad_tail m"
    using pad_shift [of "List.length m mod 64"] by (simp add: pad_zeros_eq pad_tail_def minus_div_mult_eq_mod mod_Suc_eq)
  have "List.length (?u @ pad_tail m) mod 64 = (List.length m mod 64 + Suc ((119 - List.length m mod 64) mod 64 + 8)) mod 64"
    by (simp only: length_append u) (simp add: pad_tail_def)
  then have len: "List.length (?u @ pad_tail m) mod 64 = 0" using pad_length [of "List.length m mod 64"] by simp
  have st: "sm3_unhandleMsg (sm3_absorbed m) = ?u" "sm3_length (sm3_absorbed m) = ?l" by (simp_all add: sm3_absorbed_def)
  show ?thesis unfolding sm3_pad_def Let_def st length_bytes z by (simp only: len simp_thms if_False)
qed

text \<open>The state \<open>Sum\<close> leaves behind: the digest is the final one, the length and the unhandled bytes are as before the padding.\<close>

definition sm3_summed :: "byte list \<Rightarrow> SM3" where
  "sm3_summed m = sm3_absorbed m\<lparr>sm3_digest := registers_list (SM3_chain (SM3_pad m))\<rparr>"

lemma digest_bytes: "concat (map (be_bytes 4) (registers_list r)) = register_bytes r"
  by (simp add: registers_list_def register_bytes_def split_beta)

lemma sm3_Sum_absorbed: "sm3_Sum (sm3_absorbed m) p = Inr (SM3_hash (m @ p), sm3_summed (m @ p))"
proof -
  have "sm3_update (sm3_absorbed (m @ p)) (drop (List.length (m @ p) div 64 * 64) (m @ p) @ pad_tail (m @ p)) = sm3_summed (m @ p)"
    by (subst sm3_update_registers [of _ "SM3_chain (m @ p)"])
      (simp_all only: chain_step sm3_summed_def SM3_pad_tail, simp add: sm3_absorbed_def)
  moreover have "sm3_digest (sm3_summed (m @ p)) = registers_list (SM3_chain (SM3_pad (m @ p)))"
    by (simp add: sm3_summed_def)
  ultimately show ?thesis
    by (simp only: sm3_Sum_def sm3_Write_absorbed prod.case Let_def sm3_pad_absorbed bindE_simps digest_bytes SM3_hash_def)
qed

definition sm3_write_all :: "SM3 \<Rightarrow> byte list list \<Rightarrow> SM3" where
  "sm3_write_all = foldl (\<lambda>st p. snd (sm3_Write st p))"

lemma sm3_write_all_absorbed: "sm3_write_all (sm3_absorbed m) ps = sm3_absorbed (m @ concat ps)"
  by (induction ps arbitrary: m) (simp_all add: sm3_write_all_def sm3_Write_absorbed)

text \<open>Summing once more.\<close>

lemma sm3_Write_nothing:
  "sm3_digest st = registers_list r \<Longrightarrow> List.length (sm3_unhandleMsg st) < 64 \<Longrightarrow> sm3_Write st [] = (0, st)"
  using sm3_update_registers [of st r "sm3_unhandleMsg st"]
  by (cases st) (simp add: sm3_Write_def sm3_BlockSize_def Let_def blocks_short)

lemma sm3_pad_summed: "sm3_pad (sm3_summed m) = sm3_pad (sm3_absorbed m)"
  by (simp add: sm3_pad_def sm3_summed_def)

lemma sm3_Sum_summed:
  "map_sum id fst (sm3_Sum (sm3_summed m) []) =
     Inr (register_bytes (foldl SM3_CF (SM3_chain (SM3_pad m)) (blocks 64 (drop (List.length m div 64 * 64) (SM3_pad m)))))"
proof -
  have d: "sm3_digest (sm3_summed m) = registers_list (SM3_chain (SM3_pad m))" by (simp add: sm3_summed_def)
  have "List.length (sm3_unhandleMsg (sm3_summed m)) < 64"
    by (simp add: sm3_summed_def sm3_absorbed_def minus_div_mult_eq_mod)
  then have w: "sm3_Write (sm3_summed m) [] = (0, sm3_summed m)" by (rule sm3_Write_nothing [OF d])
  have t: "drop (List.length m div 64 * 64) (SM3_pad m) = drop (List.length m div 64 * 64) m @ pad_tail m"
    by (simp add: SM3_pad_tail)
  show ?thesis
    by (simp add: sm3_Sum_def w sm3_pad_summed sm3_pad_absorbed sm3_update_registers [OF d] digest_bytes t)
qed

section \<open>Properties\<close>

text \<open>C34 However a message is cut into writes, the SM3 hash of the standard comes out: after any sequence of \<^verbatim>\<open>Write\<close> calls \<^verbatim>\<open>Sum\<close>
  returns the hash of all bytes written followed by its argument, the padding check never panics, and \<^verbatim>\<open>Sm3Sum\<close> is the hash of its argument.\<close>

theorem sm3_streaming:
  "map_sum id fst (sm3_Sum (sm3_write_all sm3_New chunks) input) = Inr (SM3_hash (concat chunks @ input))
    \<and> Sm3Sum data = Inr (SM3_hash data)"
proof
  show "map_sum id fst (sm3_Sum (sm3_write_all sm3_New chunks) input) = Inr (SM3_hash (concat chunks @ input))"
    by (simp add: sm3_New_def sm3_Reset_absorbed sm3_write_all_absorbed sm3_Sum_absorbed)
  show "Sm3Sum data = Inr (SM3_hash data)"
    by (simp add: Sm3Sum_def sm3_Reset_absorbed sm3_Write_absorbed sm3_Sum_absorbed)
qed

text \<open>C35 \<^verbatim>\<open>Sum\<close> is not the read-only, appending operation its comment promises.  It absorbs its argument and
  returns the thirty-two bytes of the hash of everything written followed by the argument, not after a copy of the argument;
  and it leaves the final digest as the chaining value, so that a second \<^verbatim>\<open>Sum\<close> hashes the padding of the first once more.\<close>

theorem sm3_Sum_disturbs:
  "\<exists>out st'. sm3_Sum (sm3_write_all sm3_New chunks) input = Inr (out, st') \<and> out = SM3_hash (concat chunks @ input) \<and> List.length out = sm3_Size
    \<and> sm3_digest st' = registers_list (SM3_chain (SM3_pad (concat chunks @ input)))
    \<and> map_sum id fst (sm3_Sum st' []) =
        Inr (register_bytes (foldl SM3_CF (SM3_chain (SM3_pad (concat chunks @ input)))
          (blocks 64 (drop (List.length (concat chunks @ input) div 64 * 64) (SM3_pad (concat chunks @ input))))))"
  by (simp add: sm3_New_def sm3_Reset_absorbed sm3_write_all_absorbed sm3_Sum_absorbed sm3_Sum_summed)
    (simp add: sm3_summed_def SM3_hash_def register_bytes_def sm3_Size_def split_beta)

end
