(* ===== verification/Keccak.thy ===== *)
theory Keccak
  imports Prelude
begin

text \<open>
  \<^verbatim>\<open>crypto/sha3/keccakf.go\<close>: the permutation Keccak-f[1600] in the form the code has it, four unrolled rounds that
  work in place and leave the lanes permuted after each but the last.  The state is a list of twenty-five words; a round is split where the code has
  an empty line, into the computation of \<open>d0\<close> to \<open>d4\<close> (the same text in the four rounds) and five groups of five
  assignments.  The debugging output at its start is left out.
\<close>

unbundle bit_operations_syntax

definition rc :: "u64 list" where
  "rc =
   [0x0000000000000001, 0x0000000000008082, 0x800000000000808A,
    0x8000000080008000, 0x000000000000808B, 0x0000000080000001,
    0x8000000080008081, 0x8000000000008009, 0x000000000000008A,
    0x0000000000000088, 0x0000000080008009, 0x000000008000000A,
    0x000000008000808B, 0x800000000000008B, 0x8000000000008089,
    0x8000000000008003, 0x8000000000008002, 0x8000000000000080,
    0x000000000000800A, 0x800000008000000A, 0x8000000080008081,
    0x8000000000008080, 0x0000000080000001, 0x8000000080008008]"

definition keccak_theta :: "u64 list \<Rightarrow> u64 \<times> u64 \<times> u64 \<times> u64 \<times> u64" where
  "keccak_theta a =
     (let bc0 = (((a ! 0 XOR a ! 5) XOR a ! 10) XOR a ! 15) XOR a ! 20;
          bc1 = (((a ! 1 XOR a ! 6) XOR a ! 11) XOR a ! 16) XOR a ! 21;
          bc2 = (((a ! 2 XOR a ! 7) XOR a ! 12) XOR a ! 17) XOR a ! 22;
          bc3 = (((a ! 3 XOR a ! 8) XOR a ! 13) XOR a ! 18) XOR a ! 23;
          bc4 = (((a ! 4 XOR a ! 9) XOR a ! 14) XOR a ! 19) XOR a ! 24;
          d0 = bc4 XOR (push_bit 1 bc1 OR drop_bit 63 bc1);
          d1 = bc0 XOR (push_bit 1 bc2 OR drop_bit 63 bc2);
          d2 = bc1 XOR (push_bit 1 bc3 OR drop_bit 63 bc3);
          d3 = bc2 XOR (push_bit 1 bc4 OR drop_bit 63 bc4);
          d4 = bc3 XOR (push_bit 1 bc0 OR drop_bit 63 bc0)
      in (d0, d1, d2, d3, d4))"

definition keccak_r1_row1 :: "nat \<Rightarrow> u64 \<times> u64 \<times> u64 \<times> u64 \<times> u64 \<Rightarrow> u64 list \<Rightarrow> u64 list" where
  "keccak_r1_row1 i = (\<lambda>(d0, d1, d2, d3, d4) a.
     let bc0 = a ! 0 XOR d0;
         t = a ! 6 XOR d1;
         bc1 = push_bit 44 t OR drop_bit (64 - 44) t;
         t = a ! 12 XOR d2;
         bc2 = push_bit 43 t OR drop_bit (64 - 43) t;
         t = a ! 18 XOR d3;
         bc3 = push_bit 21 t OR drop_bit (64 - 21) t;
         t = a ! 24 XOR d4;
         bc4 = push_bit 14 t OR drop_bit (64 - 14) t;
         a = a[0 := (bc0 XOR (bc2 AND NOT bc1)) XOR rc ! i];
         a = a[6 := bc1 XOR (bc3 AND NOT bc2)];
         a = a[12 := bc2 XOR (bc4 AND NOT bc3)];
         a = a[18 := bc3 XOR (bc0 AND NOT bc4)];
         a = a[24 := bc4 XOR (bc1 AND NOT bc0)]
     in a)"

definition keccak_r1_row2 :: "u64 \<times> u64 \<times> u64 \<times> u64 \<times> u64 \<Rightarrow> u64 list \<Rightarrow> u64 list" where
  "keccak_r1_row2 = (\<lambda>(d0, d1, d2, d3, d4) a.
     let t = a ! 10 XOR d0;
         bc2 = push_bit 3 t OR drop_bit (64 - 3) t;
         t = a ! 16 XOR d1;
         bc3 = push_bit 45 t OR drop_bit (64 - 45) t;
         t = a ! 22 XOR d2;
         bc4 = push_bit 61 t OR drop_bit (64 - 61) t;
         t = a ! 3 XOR d3;
         bc0 = push_bit 28 t OR drop_bit (64 - 28) t;
         t = a ! 9 XOR d4;
         bc1 = push_bit 20 t OR drop_bit (64 - 20) t;
         a = a[10 := bc0 XOR (bc2 AND NOT bc1)];
         a = a[16 := bc1 XOR (bc3 AND NOT bc2)];
         a = a[22 := bc2 XOR (bc4 AND NOT bc3)];
         a = a[3 := bc3 XOR (bc0 AND NOT bc4)];
         a = a[9 := bc4 XOR (bc1 AND NOT bc0)]
     in a)"

definition keccak_r1_row3 :: "u64 \<times> u64 \<times> u64 \<times> u64 \<times> u64 \<Rightarrow> u64 list \<Rightarrow> u64 list" where
  "keccak_r1_row3 = (\<lambda>(d0, d1, d2, d3, d4) a.
     let t = a ! 20 XOR d0;
         bc4 = push_bit 18 t OR drop_bit (64 - 18) t;
         t = a ! 1 XOR d1;
         bc0 = push_bit 1 t OR drop_bit (64 - 1) t;
         t = a ! 7 XOR d2;
         bc1 = push_bit 6 t OR drop_bit (64 - 6) t;
         t = a ! 13 XOR d3;
         bc2 = push_bit 25 t OR drop_bit (64 - 25) t;
         t = a ! 19 XOR d4;
         bc3 = push_bit 8 t OR drop_bit (64 - 8) t;
         a = a[20 := bc0 XOR (bc2 AND NOT bc1)];
         a = a[1 := bc1 XOR (bc3 AND NOT bc2)];
         a = a[7 := bc2 XOR (bc4 AND NOT bc3)];
         a = a[13 := bc3 XOR (bc0 AND NOT bc4)];
         a = a[19 := bc4 XOR (bc1 AND NOT bc0)]
     in a)"

definition keccak_r1_row4 :: "u64 \<times> u64 \<times> u64 \<times> u64 \<times> u64 \<Rightarrow> u64 list \<Rightarrow> u64 list" where
  "keccak_r1_row4 = (\<lambda>(d0, d1, d2, d3, d4) a.
     let t = a ! 5 XOR d0;
         bc1 = push_bit 36 t OR drop_bit (64 - 36) t;
         t = a ! 11 XOR d1;
         bc2 = push_bit 10 t OR drop_bit (64 - 10) t;
         t = a ! 17 XOR d2;
         bc3 = push_bit 15 t OR drop_bit (64 - 15) t;
         t = a ! 23 XOR d3;
         bc4 = push_bit 56 t OR drop_bit (64 - 56) t;
         t = a ! 4 XOR d4;
         bc0 = push_bit 27 t OR drop_bit (64 - 27) t;
         a = a[5 := bc0 XOR (bc2 AND NOT bc1)];
         a = a[11 := bc1 XOR (bc3 AND NOT bc2)];
         a = a[17 := bc2 XOR (bc4 AND NOT bc3)];
         a = a[23 := bc3 XOR (bc0 AND NOT bc4)];
         a = a[4 := bc4 XOR (bc1 AND NOT bc0)]
     in a)"

definition keccak_r1_row5 :: "u64 \<times> u64 \<times> u64 \<times> u64 \<times> u64 \<Rightarrow> u64 list \<Rightarrow> u64 list" where
  "keccak_r1_row5 = (\<lambda>(d0, d1, d2, d3, d4) a.
     let t = a ! 15 XOR d0;
         bc3 = push_bit 41 t OR drop_bit (64 - 41) t;
         t = a ! 21 XOR d1;
         bc4 = push_bit 2 t OR drop_bit (64 - 2) t;
         t = a ! 2 XOR d2;
         bc0 = push_bit 62 t OR drop_bit (64 - 62) t;
         t = a ! 8 XOR d3;
         bc1 = push_bit 55 t OR drop_bit (64 - 55) t;
         t = a ! 14 XOR d4;
         bc2 = push_bit 39 t OR drop_bit (64 - 39) t;
         a = a[15 := bc0 XOR (bc2 AND NOT bc1)];
         a = a[21 := bc1 XOR (bc3 AND NOT bc2)];
         a = a[2 := bc2 XOR (bc4 AND NOT bc3)];
         a = a[8 := bc3 XOR (bc0 AND NOT bc4)];
         a = a[14 := bc4 XOR (bc1 AND NOT bc0)]
     in a)"

definition keccak_r2_row1 :: "nat \<Rightarrow> u64 \<times> u64 \<times> u64 \<times> u64 \<times> u64 \<Rightarrow> u64 list \<Rightarrow> u64 list" where
  "keccak_r2_row1 i = (\<lambda>(d0, d1, d2, d3, d4) a.
     let bc0 = a ! 0 XOR d0;
         t = a ! 16 XOR d1;
         bc1 = push_bit 44 t OR drop_bit (64 - 44) t;
         t = a ! 7 XOR d2;
         bc2 = push_bit 43 t OR drop_bit (64 - 43) t;
         t = a ! 23 XOR d3;
         bc3 = push_bit 21 t OR drop_bit (64 - 21) t;
         t = a ! 14 XOR d4;
         bc4 = push_bit 14 t OR drop_bit (64 - 14) t;
         a = a[0 := (bc0 XOR (bc2 AND NOT bc1)) XOR rc ! (i + 1)];
         a = a[16 := bc1 XOR (bc3 AND NOT bc2)];
         a = a[7 := bc2 XOR (bc4 AND NOT bc3)];
         a = a[23 := bc3 XOR (bc0 AND NOT bc4)];
         a = a[14 := bc4 XOR (bc1 AND NOT bc0)]
     in a)"

definition keccak_r2_row2 :: "u64 \<times> u64 \<times> u64 \<times> u64 \<times> u64 \<Rightarrow> u64 list \<Rightarrow> u64 list" where
  "keccak_r2_row2 = (\<lambda>(d0, d1, d2, d3, d4) a.
     let t = a ! 20 XOR d0;
         bc2 = push_bit 3 t OR drop_bit (64 - 3) t;
         t = a ! 11 XOR d1;
         bc3 = push_bit 45 t OR drop_bit (64 - 45) t;
         t = a ! 2 XOR d2;
         bc4 = push_bit 61 t OR drop_bit (64 - 61) t;
         t = a ! 18 XOR d3;
         bc0 = push_bit 28 t OR drop_bit (64 - 28) t;
         t = a ! 9 XOR d4;
         bc1 = push_bit 20 t OR drop_bit (64 - 20) t;
         a = a[20 := bc0 XOR (bc2 AND NOT bc1)];
         a = a[11 := bc1 XOR (bc3 AND NOT bc2)];
         a = a[2 := bc2 XOR (bc4 AND NOT bc3)];
         a = a[18 := bc3 XOR (bc0 AND NOT bc4)];
         a = a[9 := bc4 XOR (bc1 AND NOT bc0)]
     in a)"

definition keccak_r2_row3 :: "u64 \<times> u64 \<times> u64 \<times> u64 \<times> u64 \<Rightarrow> u64 list \<Rightarrow> u64 list" where
  "keccak_r2_row3 = (\<lambda>(d0, d1, d2, d3, d4) a.
     let t = a ! 15 XOR d0;
         bc4 = push_bit 18 t OR drop_bit (64 - 18) t;
         t = a ! 6 XOR d1;
         bc0 = push_bit 1 t OR drop_bit (64 - 1) t;
         t = a ! 22 XOR d2;
         bc1 = push_bit 6 t OR drop_bit (64 - 6) t;
         t = a ! 13 XOR d3;
         bc2 = push_bit 25 t OR drop_bit (64 - 25) t;
         t = a ! 4 XOR d4;
         bc3 = push_bit 8 t OR drop_bit (64 - 8) t;
         a = a[15 := bc0 XOR (bc2 AND NOT bc1)];
         a = a[6 := bc1 XOR (bc3 AND NOT bc2)];
         a = a[22 := bc2 XOR (bc4 AND NOT bc3)];
         a = a[13 := bc3 XOR (bc0 AND NOT bc4)];
         a = a[4 := bc4 XOR (bc1 AND NOT bc0)]
     in a)"

definition keccak_r2_row4 :: "u64 \<times> u64 \<times> u64 \<times> u64 \<times> u64 \<Rightarrow> u64 list \<Rightarrow> u64 list" where
  "keccak_r2_row4 = (\<lambda>(d0, d1, d2, d3, d4) a.
     let t = a ! 10 XOR d0;
         bc1 = push_bit 36 t OR drop_bit (64 - 36) t;
         t = a ! 1 XOR d1;
         bc2 = push_bit 10 t OR drop_bit (64 - 10) t;
         t = a ! 17 XOR d2;
         bc3 = push_bit 15 t OR drop_bit (64 - 15) t;
         t = a ! 8 XOR d3;
         bc4 = push_bit 56 t OR drop_bit (64 - 56) t;
         t = a ! 24 XOR d4;
         bc0 = push_bit 27 t OR drop_bit (64 - 27) t;
         a = a[10 := bc0 XOR (bc2 AND NOT bc1)];
         a = a[1 := bc1 XOR (bc3 AND NOT bc2)];
         a = a[17 := bc2 XOR (bc4 AND NOT bc3)];
         a = a[8 := bc3 XOR (bc0 AND NOT bc4)];
         a = a[24 := bc4 XOR (bc1 AND NOT bc0)]
     in a)"

definition keccak_r2_row5 :: "u64 \<times> u64 \<times> u64 \<times> u64 \<times> u64 \<Rightarrow> u64 list \<Rightarrow> u64 list" where
  "keccak_r2_row5 = (\<lambda>(d0, d1, d2, d3, d4) a.
     let t = a ! 5 XOR d0;
         bc3 = push_bit 41 t OR drop_bit (64 - 41) t;
         t = a ! 21 XOR d1;
         bc4 = push_bit 2 t OR drop_bit (64 - 2) t;
         t = a ! 12 XOR d2;
         bc0 = push_bit 62 t OR drop_bit (64 - 62) t;
         t = a ! 3 XOR d3;
         bc1 = push_bit 55 t OR drop_bit (64 - 55) t;
         t = a ! 19 XOR d4;
         bc2 = push_bit 39 t OR drop_bit (64 - 39) t;
         a = a[5 := bc0 XOR (bc2 AND NOT bc1)];
         a = a[21 := bc1 XOR (bc3 AND NOT bc2)];
         a = a[12 := bc2 XOR (bc4 AND NOT bc3)];
         a = a[3 := bc3 XOR (bc0 AND NOT bc4)];
         a = a[19 := bc4 XOR (bc1 AND NOT bc0)]
     in a)"

definition keccak_r3_row1 :: "nat \<Rightarrow> u64 \<times> u64 \<times> u64 \<times> u64 \<times> u64 \<Rightarrow> u64 list \<Rightarrow> u64 list" where
  "keccak_r3_row1 i = (\<lambda>(d0, d1, d2, d3, d4) a.
     let bc0 = a ! 0 XOR d0;
         t = a ! 11 XOR d1;
         bc1 = push_bit 44 t OR drop_bit (64 - 44) t;
         t = a ! 22 XOR d2;
         bc2 = push_bit 43 t OR drop_bit (64 - 43) t;
         t = a ! 8 XOR d3;
         bc3 = push_bit 21 t OR drop_bit (64 - 21) t;
         t = a ! 19 XOR d4;
         bc4 = push_bit 14 t OR drop_bit (64 - 14) t;
         a = a[0 := (bc0 XOR (bc2 AND NOT bc1)) XOR rc ! (i + 2)];
         a = a[11 := bc1 XOR (bc3 AND NOT bc2)];
         a = a[22 := bc2 XOR (bc4 AND NOT bc3)];
         a = a[8 := bc3 XOR (bc0 AND NOT bc4)];
         a = a[19 := bc4 XOR (bc1 AND NOT bc0)]
     in a)"

definition keccak_r3_row2 :: "u64 \<times> u64 \<times> u64 \<times> u64 \<times> u64 \<Rightarrow> u64 list \<Rightarrow> u64 list" where
  "keccak_r3_row2 = (\<lambda>(d0, d1, d2, d3, d4) a.
     let t = a ! 15 XOR d0;
         bc2 = push_bit 3 t OR drop_bit (64 - 3) t;
         t = a ! 1 XOR d1;
         bc3 = push_bit 45 t OR drop_bit (64 - 45) t;
         t = a ! 12 XOR d2;
         bc4 = push_bit 61 t OR drop_bit (64 - 61) t;
         t = a ! 23 XOR d3;
         bc0 = push_bit 28 t OR drop_bit (64 - 28) t;
         t = a ! 9 XOR d4;
         bc1 = push_bit 20 t OR drop_bit (64 - 20) t;
         a = a[15 := bc0 XOR (bc2 AND NOT bc1)];
         a = a[1 := bc1 XOR (bc3 AND NOT bc2)];
         a = a[12 := bc2 XOR (bc4 AND NOT bc3)];
         a = a[23 := bc3 XOR (bc0 AND NOT bc4)];
         a = a[9 := bc4 XOR (bc1 AND NOT bc0)]
     in a)"

definition keccak_r3_row3 :: "u64 \<times> u64 \<times> u64 \<times> u64 \<times> u64 \<Rightarrow> u64 list \<Rightarrow> u64 list" where
  "keccak_r3_row3 = (\<lambda>(d0, d1, d2, d3, d4) a.
     let t = a ! 5 XOR d0;
         bc4 = push_bit 18 t OR drop_bit (64 - 18) t;
         t = a ! 16 XOR d1;
         bc0 = push_bit 1 t OR drop_bit (64 - 1) t;
         t = a ! 2 XOR d2;
         bc1 = push_bit 6 t OR drop_bit (64 - 6) t;
         t = a ! 13 XOR d3;
         bc2 = push_bit 25 t OR drop_bit (64 - 25) t;
         t = a ! 24 XOR d4;
         bc3 = push_bit 8 t OR drop_bit (64 - 8) t;
         a = a[5 := bc0 XOR (bc2 AND NOT bc1)];
         a = a[16 := bc1 XOR (bc3 AND NOT bc2)];
         a = a[2 := bc2 XOR (bc4 AND NOT bc3)];
         a = a[13 := bc3 XOR (bc0 AND NOT bc4)];
         a = a[24 := bc4 XOR (bc1 AND NOT bc0)]
     in a)"

definition keccak_r3_row4 :: "u64 \<times> u64 \<times> u64 \<times> u64 \<times> u64 \<Rightarrow> u64 list \<Rightarrow> u64 list" where
  "keccak_r3_row4 = (\<lambda>(d0, d1, d2, d3, d4) a.
     let t = a ! 20 XOR d0;
         bc1 = push_bit 36 t OR drop_bit (64 - 36) t;
         t = a ! 6 XOR d1;
         bc2 = push_bit 10 t OR drop_bit (64 - 10) t;
         t = a ! 17 XOR d2;
         bc3 = push_bit 15 t OR drop_bit (64 - 15) t;
         t = a ! 3 XOR d3;
         bc4 = push_bit 56 t OR drop_bit (64 - 56) t;
         t = a ! 14 XOR d4;
         bc0 = push_bit 27 t OR drop_bit (64 - 27) t;
         a = a[20 := bc0 XOR (bc2 AND NOT bc1)];
         a = a[6 := bc1 XOR (bc3 AND NOT bc2)];
         a = a[17 := bc2 XOR (bc4 AND NOT bc3)];
         a = a[3 := bc3 XOR (bc0 AND NOT bc4)];
         a = a[14 := bc4 XOR (bc1 AND NOT bc0)]
     in a)"

definition keccak_r3_row5 :: "u64 \<times> u64 \<times> u64 \<times> u64 \<times> u64 \<Rightarrow> u64 list \<Rightarrow> u64 list" where
  "keccak_r3_row5 = (\<lambda>(d0, d1, d2, d3, d4) a.
     let t = a ! 10 XOR d0;
         bc3 = push_bit 41 t OR drop_bit (64 - 41) t;
         t = a ! 21 XOR d1;
         bc4 = push_bit 2 t OR drop_bit (64 - 2) t;
         t = a ! 7 XOR d2;
         bc0 = push_bit 62 t OR drop_bit (64 - 62) t;
         t = a ! 18 XOR d3;
         bc1 = push_bit 55 t OR drop_bit (64 - 55) t;
         t = a ! 4 XOR d4;
         bc2 = push_bit 39 t OR drop_bit (64 - 39) t;
         a = a[10 := bc0 XOR (bc2 AND NOT bc1)];
         a = a[21 := bc1 XOR (bc3 AND NOT bc2)];
         a = a[7 := bc2 XOR (bc4 AND NOT bc3)];
         a = a[18 := bc3 XOR (bc0 AND NOT bc4)];
         a = a[4 := bc4 XOR (bc1 AND NOT bc0)]
     in a)"

definition keccak_r4_row1 :: "nat \<Rightarrow> u64 \<times> u64 \<times> u64 \<times> u64 \<times> u64 \<Rightarrow> u64 list \<Rightarrow> u64 list" where
  "keccak_r4_row1 i = (\<lambda>(d0, d1, d2, d3, d4) a.
     let bc0 = a ! 0 XOR d0;
         t = a ! 1 XOR d1;
         bc1 = push_bit 44 t OR drop_bit (64 - 44) t;
         t = a ! 2 XOR d2;
         bc2 = push_bit 43 t OR drop_bit (64 - 43) t;
         t = a ! 3 XOR d3;
         bc3 = push_bit 21 t OR drop_bit (64 - 21) t;
         t = a ! 4 XOR d4;
         bc4 = push_bit 14 t OR drop_bit (64 - 14) t;
         a = a[0 := (bc0 XOR (bc2 AND NOT bc1)) XOR rc ! (i + 3)];
         a = a[1 := bc1 XOR (bc3 AND NOT bc2)];
         a = a[2 := bc2 XOR (bc4 AND NOT bc3)];
         a = a[3 := bc3 XOR (bc0 AND NOT bc4)];
         a = a[4 := bc4 XOR (bc1 AND NOT bc0)]
     in a)"

definition keccak_r4_row2 :: "u64 \<times> u64 \<times> u64 \<times> u64 \<times> u64 \<Rightarrow> u64 list \<Rightarrow> u64 list" where
  "keccak_r4_row2 = (\<lambda>(d0, d1, d2, d3, d4) a.
     let t = a ! 5 XOR d0;
         bc2 = push_bit 3 t OR drop_bit (64 - 3) t;
         t = a ! 6 XOR d1;
         bc3 = push_bit 45 t OR drop_bit (64 - 45) t;
         t = a ! 7 XOR d2;
         bc4 = push_bit 61 t OR drop_bit (64 - 61) t;
         t = a ! 8 XOR d3;
         bc0 = push_bit 28 t OR drop_bit (64 - 28) t;
         t = a ! 9 XOR d4;
         bc1 = push_bit 20 t OR drop_bit (64 - 20) t;
         a = a[5 := bc0 XOR (bc2 AND NOT bc1)];
         a = a[6 := bc1 XOR (bc3 AND NOT bc2)];
         a = a[7 := bc2 XOR (bc4 AND NOT bc3)];
         a = a[8 := bc3 XOR (bc0 AND NOT bc4)];
         a = a[9 := bc4 XOR (bc1 AND NOT bc0)]
     in a)"

definition keccak_r4_row3 :: "u64 \<times> u64 \<times> u64 \<times> u64 \<times> u64 \<Rightarrow> u64 list \<Rightarrow> u64 list" where
  "keccak_r4_row3 = (\<lambda>(d0, d1, d2, d3, d4) a.
     let t = a ! 10 XOR d0;
         bc4 = push_bit 18 t OR drop_bit (64 - 18) t;
         t = a ! 11 XOR d1;
         bc0 = push_bit 1 t OR drop_bit (64 - 1) t;
         t = a ! 12 XOR d2;
         bc1 = push_bit 6 t OR drop_bit (64 - 6) t;
         t = a ! 13 XOR d3;
         bc2 = push_bit 25 t OR drop_bit (64 - 25) t;
         t = a ! 14 XOR d4;
         bc3 = push_bit 8 t OR drop_bit (64 - 8) t;
         a = a[10 := bc0 XOR (bc2 AND NOT bc1)];
         a = a[11 := bc1 XOR (bc3 AND NOT bc2)];
         a = a[12 := bc2 XOR (bc4 AND NOT bc3)];
         a = a[13 := bc3 XOR (bc0 AND NOT bc4)];
         a = a[14 := bc4 XOR (bc1 AND NOT bc0)]
     in a)"

definition keccak_r4_row4 :: "u64 \<times> u64 \<times> u64 \<times> u64 \<times> u64 \<Rightarrow> u64 list \<Rightarrow> u64 list" where
  "keccak_r4_row4 = (\<lambda>(d0, d1, d2, d3, d4) a.
     let t = a ! 15 XOR d0;
         bc1 = push_bit 36 t OR drop_bit (64 - 36) t;
         t = a ! 16 XOR d1;
         bc2 = push_bit 10 t OR drop_bit (64 - 10) t;
         t = a ! 17 XOR d2;
         bc3 = push_bit 15 t OR drop_bit (64 - 15) t;
         t = a ! 18 XOR d3;
         bc4 = push_bit 56 t OR drop_bit (64 - 56) t;
         t = a ! 19 XOR d4;
         bc0 = push_bit 27 t OR drop_bit (64 - 27) t;
         a = a[15 := bc0 XOR (bc2 AND NOT bc1)];
         a = a[16 := bc1 XOR (bc3 AND NOT bc2)];
         a = a[17 := bc2 XOR (bc4 AND NOT bc3)];
         a = a[18 := bc3 XOR (bc0 AND NOT bc4)];
         a = a[19 := bc4 XOR (bc1 AND NOT bc0)]
     in a)"

definition keccak_r4_row5 :: "u64 \<times> u64 \<times> u64 \<times> u64 \<times> u64 \<Rightarrow> u64 list \<Rightarrow> u64 list" where
  "keccak_r4_row5 = (\<lambda>(d0, d1, d2, d3, d4) a.
     let t = a ! 20 XOR d0;
         bc3 = push_bit 41 t OR drop_bit (64 - 41) t;
         t = a ! 21 XOR d1;
         bc4 = push_bit 2 t OR drop_bit (64 - 2) t;
         t = a ! 22 XOR d2;
         bc0 = push_bit 62 t OR drop_bit (64 - 62) t;
         t = a ! 23 XOR d3;
         bc1 = push_bit 55 t OR drop_bit (64 - 55) t;
         t = a ! 24 XOR d4;
         bc2 = push_bit 39 t OR drop_bit (64 - 39) t;
         a = a[20 := bc0 XOR (bc2 AND NOT bc1)];
         a = a[21 := bc1 XOR (bc3 AND NOT bc2)];
         a = a[22 := bc2 XOR (bc4 AND NOT bc3)];
         a = a[23 := bc3 XOR (bc0 AND NOT bc4)];
         a = a[24 := bc4 XOR (bc1 AND NOT bc0)]
     in a)"

definition keccak_round1 :: "nat \<Rightarrow> u64 list \<Rightarrow> u64 list" where
  "keccak_round1 i a =
     (let d = keccak_theta a
      in keccak_r1_row5 d (keccak_r1_row4 d (keccak_r1_row3 d (keccak_r1_row2 d (keccak_r1_row1 i d a)))))"

definition keccak_round2 :: "nat \<Rightarrow> u64 list \<Rightarrow> u64 list" where
  "keccak_round2 i a =
     (let d = keccak_theta a
      in keccak_r2_row5 d (keccak_r2_row4 d (keccak_r2_row3 d (keccak_r2_row2 d (keccak_r2_row1 i d a)))))"

definition keccak_round3 :: "nat \<Rightarrow> u64 list \<Rightarrow> u64 list" where
  "keccak_round3 i a =
     (let d = keccak_theta a
      in keccak_r3_row5 d (keccak_r3_row4 d (keccak_r3_row3 d (keccak_r3_row2 d (keccak_r3_row1 i d a)))))"

definition keccak_round4 :: "nat \<Rightarrow> u64 list \<Rightarrow> u64 list" where
  "keccak_round4 i a =
     (let d = keccak_theta a
      in keccak_r4_row5 d (keccak_r4_row4 d (keccak_r4_row3 d (keccak_r4_row2 d (keccak_r4_row1 i d a)))))"

definition keccakF1600 :: "u64 list \<Rightarrow> u64 list" where
  "keccakF1600 a = foldl (\<lambda>a i. keccak_round4 i (keccak_round3 i (keccak_round2 i (keccak_round1 i a)))) a [0, 4, 8, 12, 16, 20]"

end
