(* ===== verification/Sponge.thy ===== *)
theory Sponge
  imports Keccak
begin

text \<open>
  \<^verbatim>\<open>crypto/sha3/sha3.go\<close> and \<^verbatim>\<open>xor_unaligned.go\<close>: the sponge around the permutation.  The slice \<^verbatim>\<open>buf\<close> always lies in the
  array \<^verbatim>\<open>storage\<close>: it is kept as its offset and its length, and its capacity reaches to the end of the array (a nil slice is the empty one at the start).  The
  words of the state are read and written as bytes in the little-endian order of the processors the file is built for.
\<close>

unbundle bit_operations_syntax

datatype spongeDirection = spongeAbsorbing | spongeSqueezing

datatype sponge_panic = WriteAfterRead | EmptyBuffer | CloneBounds | SpongeFuel

definition maxRate :: nat where "maxRate = 168"

record sponge =
  sp_a :: "u64 list"
  sp_buf :: "nat \<times> nat"
  sp_rate :: nat
  sp_dsbyte :: byte
  sp_storage :: "byte list"
  sp_outputLen :: nat
  sp_state :: spongeDirection

section \<open>The buffer\<close>

definition buf_bytes :: "sponge \<Rightarrow> byte list" where
  "buf_bytes d = take (snd (sp_buf d)) (drop (fst (sp_buf d)) (sp_storage d))"

definition buf_len :: "sponge \<Rightarrow> nat" where
  "buf_len d = snd (sp_buf d)"

definition buf_cap :: "sponge \<Rightarrow> nat" where
  "buf_cap d = maxRate - fst (sp_buf d)"

text \<open>\<^verbatim>\<open>d.buf = append(d.buf, bs...)\<close> within the capacity.\<close>

definition buf_append :: "sponge \<Rightarrow> byte list \<Rightarrow> sponge" where
  "buf_append d bs =
     d\<lparr>sp_storage := go_copy_at (fst (sp_buf d) + snd (sp_buf d)) (sp_storage d) bs,
       sp_buf := (fst (sp_buf d), snd (sp_buf d) + List.length bs)\<rparr>"

section \<open>Words and bytes\<close>

definition buffer_words :: "byte list \<Rightarrow> u64 list" where
  "buffer_words buf = map (\<lambda>i. le_get (take 8 (drop (8 * i) buf))) [0..<maxRate div 8]"

definition xor_range :: "u64 list \<Rightarrow> u64 list \<Rightarrow> nat \<Rightarrow> nat \<Rightarrow> u64 list" where
  "xor_range a bw i j = foldl (\<lambda>a k. a[k := a ! k XOR bw ! k]) a [i..<j]"

definition xorInUnaligned :: "sponge \<Rightarrow> byte list \<Rightarrow> sponge_panic + sponge" where
  "xorInUnaligned d buf =
     (if buf = [] then Inl EmptyBuffer
      else
        let bw = buffer_words buf;
            n = List.length buf;
            a = sp_a d;
            a = (if n \<ge> 72 then xor_range a bw 0 9 else a);
            a = (if n \<ge> 104 then xor_range a bw 9 13 else a);
            a = (if n \<ge> 136 then xor_range a bw 13 17 else a);
            a = (if n \<ge> 144 then xor_range a bw 17 18 else a);
            a = (if n \<ge> 168 then xor_range a bw 18 21 else a)
        in Inr (d\<lparr>sp_a := a\<rparr>))"

definition state_bytes :: "u64 list \<Rightarrow> byte list" where
  "state_bytes a = take maxRate (concat (map (le_put 8) a))"

text \<open>\<^verbatim>\<open>copyOut(d, d.buf)\<close>: as much of the state as the buffer holds.\<close>

definition copyOutUnaligned :: "sponge \<Rightarrow> sponge" where
  "copyOutUnaligned d =
     d\<lparr>sp_storage := go_copy_at (fst (sp_buf d)) (sp_storage d) (take (snd (sp_buf d)) (state_bytes (sp_a d)))\<rparr>"

section \<open>Operations\<close>

definition sponge_BlockSize :: "sponge \<Rightarrow> nat" where
  "sponge_BlockSize d = sp_rate d"

definition sponge_Size :: "sponge \<Rightarrow> nat" where
  "sponge_Size d = sp_outputLen d"

definition sponge_Reset :: "sponge \<Rightarrow> sponge" where
  "sponge_Reset d = d\<lparr>sp_a := replicate (List.length (sp_a d)) 0, sp_state := spongeAbsorbing, sp_buf := (0, 0)\<rparr>"

definition sponge_clone :: "sponge \<Rightarrow> sponge_panic + sponge" where
  "sponge_clone d =
     (case sp_state d of
        spongeAbsorbing \<Rightarrow> Inr (d\<lparr>sp_buf := (0, buf_len d)\<rparr>)
      | spongeSqueezing \<Rightarrow>
          if sp_rate d < buf_cap d then Inl CloneBounds
          else Inr (d\<lparr>sp_buf := (sp_rate d - buf_cap d, buf_cap d)\<rparr>))"

definition permute :: "sponge \<Rightarrow> sponge_panic + sponge" where
  "permute d =
     (case sp_state d of
        spongeAbsorbing \<Rightarrow>
          bindE (xorInUnaligned d (buf_bytes d)) (\<lambda>d.
            Inr (d\<lparr>sp_buf := (0, 0), sp_a := keccakF1600 (sp_a d)\<rparr>))
      | spongeSqueezing \<Rightarrow>
          Inr (copyOutUnaligned (d\<lparr>sp_a := keccakF1600 (sp_a d), sp_buf := (0, sp_rate d)\<rparr>)))"

definition padAndPermute :: "sponge \<Rightarrow> byte \<Rightarrow> sponge_panic + sponge" where
  "padAndPermute d dsbyte =
     (let d = buf_append d [dsbyte];
          zerosStart = buf_len d;
          d = d\<lparr>sp_buf := (0, sp_rate d)\<rparr>;
          st = foldl (\<lambda>st i. st[i := 0]) (sp_storage d) [zerosStart..<sp_rate d];
          st = st[sp_rate d - 1 := st ! (sp_rate d - 1) XOR 0x80]
      in bindE (permute (d\<lparr>sp_storage := st\<rparr>)) (\<lambda>d.
           Inr (copyOutUnaligned (d\<lparr>sp_state := spongeSqueezing, sp_buf := (0, sp_rate d)\<rparr>))))"

text \<open>The loop of \<open>Write\<close>.  Every round takes at least one byte of the input while the buffer is not full; the fuel is the length of the input.\<close>

fun write_loop :: "nat \<Rightarrow> sponge \<Rightarrow> byte list \<Rightarrow> sponge_panic + sponge" where
  "write_loop fuel d [] = Inr d"
| "write_loop 0 d p = Inl SpongeFuel"
| "write_loop (Suc fuel) d p =
     (if buf_len d = 0 \<and> List.length p \<ge> sp_rate d then
        bindE (xorInUnaligned d (take (sp_rate d) p)) (\<lambda>d'.
          write_loop fuel (d'\<lparr>sp_a := keccakF1600 (sp_a d')\<rparr>) (drop (sp_rate d) p))
      else
        let todo = min (sp_rate d - buf_len d) (List.length p);
            d = buf_append d (take todo p);
            p = drop todo p
        in if buf_len d = sp_rate d then bindE (permute d) (\<lambda>d. write_loop fuel d p)
           else write_loop fuel d p)"

definition sponge_Write :: "sponge \<Rightarrow> byte list \<Rightarrow> sponge_panic + (nat \<times> sponge)" where
  "sponge_Write d p =
     (if sp_state d \<noteq> spongeAbsorbing then Inl WriteAfterRead
      else bindE (write_loop (List.length p) d p) (\<lambda>d. Inr (List.length p, d)))"

text \<open>The loop of \<open>Read\<close>, for a slice of \<open>n\<close> bytes: the bytes read, and the state.  Every round delivers at least one byte while the buffer is not empty.\<close>

fun read_loop :: "nat \<Rightarrow> sponge \<Rightarrow> nat \<Rightarrow> sponge_panic + (byte list \<times> sponge)" where
  "read_loop fuel d 0 = Inr ([], d)"
| "read_loop 0 d (Suc n) = Inl SpongeFuel"
| "read_loop (Suc fuel) d (Suc n) =
     (let bs = take (Suc n) (buf_bytes d);
          k = List.length bs;
          d = d\<lparr>sp_buf := (fst (sp_buf d) + k, snd (sp_buf d) - k)\<rparr>
      in bindE (if buf_len d = 0 then permute d else Inr d) (\<lambda>d.
           bindE (read_loop fuel d (Suc n - k)) (\<lambda>(out, d). Inr (bs @ out, d))))"

definition sponge_Read :: "sponge \<Rightarrow> nat \<Rightarrow> sponge_panic + (byte list \<times> sponge)" where
  "sponge_Read d n =
     bindE (if sp_state d = spongeAbsorbing then padAndPermute d (sp_dsbyte d) else Inr d) (\<lambda>d.
       read_loop n d n)"

text \<open>\<open>Sum\<close> works on a copy: the state it is called on stays as it is.\<close>

definition sponge_Sum :: "sponge \<Rightarrow> byte list \<Rightarrow> sponge_panic + byte list" where
  "sponge_Sum d input =
     bindE (sponge_clone d) (\<lambda>dup.
       bindE (sponge_Read dup (sp_outputLen dup)) (\<lambda>(hash, dup). Inr (input @ hash)))"

section \<open>The hash functions\<close>

definition new_state :: "nat \<Rightarrow> nat \<Rightarrow> byte \<Rightarrow> sponge" where
  "new_state rate outputLen dsbyte = \<lparr>sp_a = replicate 25 0, sp_buf = (0, 0), sp_rate = rate, sp_dsbyte = dsbyte,
     sp_storage = replicate maxRate 0, sp_outputLen = outputLen, sp_state = spongeAbsorbing\<rparr>"

definition NewShake128 :: sponge where "NewShake128 = new_state 168 0 0x1f"
definition NewShake256 :: sponge where "NewShake256 = new_state 136 0 0x1f"
definition NewKeccak256 :: sponge where "NewKeccak256 = new_state 136 32 0x01"
definition NewKeccak512 :: sponge where "NewKeccak512 = new_state 72 64 0x01"
definition New224 :: sponge where "New224 = new_state 144 28 0x06"
definition New256 :: sponge where "New256 = new_state 136 32 0x06"
definition New384 :: sponge where "New384 = new_state 104 48 0x06"
definition New512 :: sponge where "New512 = new_state 72 64 0x06"

definition shake_sum :: "sponge \<Rightarrow> byte list \<Rightarrow> nat \<Rightarrow> sponge_panic + byte list" where
  "shake_sum h data n =
     bindE (sponge_Write h data) (\<lambda>(w, h). bindE (sponge_Read h n) (\<lambda>(out, h). Inr out))"

definition ShakeSum128 :: "byte list \<Rightarrow> nat \<Rightarrow> sponge_panic + byte list" where
  "ShakeSum128 data n = shake_sum NewShake128 data n"

definition ShakeSum256 :: "byte list \<Rightarrow> nat \<Rightarrow> sponge_panic + byte list" where
  "ShakeSum256 data n = shake_sum NewShake256 data n"

definition sha3_sum :: "sponge \<Rightarrow> byte list \<Rightarrow> sponge_panic + byte list" where
  "sha3_sum h data = bindE (sponge_Write h data) (\<lambda>(w, h). sponge_Sum h [])"

definition Sum224 :: "byte list \<Rightarrow> sponge_panic + byte list" where "Sum224 data = sha3_sum New224 data"
definition Sum256 :: "byte list \<Rightarrow> sponge_panic + byte list" where "Sum256 data = sha3_sum New256 data"
definition Sum384 :: "byte list \<Rightarrow> sponge_panic + byte list" where "Sum384 data = sha3_sum New384 data"
definition Sum512 :: "byte list \<Rightarrow> sponge_panic + byte list" where "Sum512 data = sha3_sum New512 data"

fun write_all :: "sponge \<Rightarrow> byte list list \<Rightarrow> sponge_panic + sponge" where
  "write_all d [] = Inr d"
| "write_all d (b # data) = bindE (sponge_Write d b) (\<lambda>(w, d). write_all d data)"

definition Keccak256 :: "byte list list \<Rightarrow> sponge_panic + byte list" where
  "Keccak256 data = bindE (write_all NewKeccak256 data) (\<lambda>d. sponge_Sum d [])"

end
