(* ===== verification/KeccakRef.thy ===== *)
theory KeccakRef
  imports Keccak
begin

text \<open>
  Keccak-f[1600] as the standard defines it, by the five steps theta, rho, pi, chi and iota over the lane \<open>x + 5 * y\<close>, with the rotation offsets and the
  round constants computed by the standard's rules, and the proof that the unrolled, in-place code computes it.
\<close>

section \<open>The standard\<close>

definition theta_C :: "u64 list \<Rightarrow> nat \<Rightarrow> u64" where
  "theta_C a x = (((a ! x XOR a ! (x + 5)) XOR a ! (x + 10)) XOR a ! (x + 15)) XOR a ! (x + 20)"

definition theta_D :: "u64 list \<Rightarrow> nat \<Rightarrow> u64" where
  "theta_D a x = theta_C a ((x + 4) mod 5) XOR word_rotl 1 (theta_C a ((x + 1) mod 5))"

definition theta :: "u64 list \<Rightarrow> u64 list" where
  "theta a = map (\<lambda>k. a ! k XOR theta_D a (k mod 5)) [0..<25]"

text \<open>The walk of rho through the lanes: step \<open>t\<close> rotates by \<open>(t + 1) * (t + 2) / 2\<close> and goes from \<open>(x, y)\<close> to \<open>(y, 2 x + 3 y)\<close>.\<close>

fun rho_walk :: "nat \<Rightarrow> nat \<Rightarrow> nat \<Rightarrow> nat \<Rightarrow> nat list \<Rightarrow> nat list" where
  "rho_walk 0 t x y r = r"
| "rho_walk (Suc n) t x y r = rho_walk n (Suc t) y ((2 * x + 3 * y) mod 5) (r[x + 5 * y := ((t + 1) * (t + 2) div 2) mod 64])"

definition rho_offsets :: "nat list" where
  "rho_offsets = rho_walk 24 0 1 0 (replicate 25 0)"

definition rho :: "u64 list \<Rightarrow> u64 list" where
  "rho a = map (\<lambda>k. word_rotl (rho_offsets ! k) (a ! k)) [0..<25]"

text \<open>The lane \<open>(y, 2 x + 3 y)\<close> after pi is the lane \<open>(x, y)\<close> before.\<close>

definition pi_step :: "u64 list \<Rightarrow> u64 list" where
  "pi_step a = map (\<lambda>k. a ! ((k mod 5 + 3 * (k div 5)) mod 5 + 5 * (k mod 5))) [0..<25]"

definition chi :: "u64 list \<Rightarrow> u64 list" where
  "chi a = map (\<lambda>k. a ! k XOR (a ! ((k mod 5 + 2) mod 5 + 5 * (k div 5)) AND NOT (a ! ((k mod 5 + 1) mod 5 + 5 * (k div 5))))) [0..<25]"

definition iota :: "u64 \<Rightarrow> u64 list \<Rightarrow> u64 list" where
  "iota c a = a[0 := a ! 0 XOR c]"

definition keccak_round :: "u64 list \<Rightarrow> u64 \<Rightarrow> u64 list" where
  "keccak_round a c = iota c (chi (pi_step (rho (theta a))))"

text \<open>The round constants come from a linear feedback shift register of eight bits: seven steps for a round, and step \<open>j\<close> of
  them decides about bit \<open>2 ^ j - 1\<close>.\<close>

definition lfsr_step :: "byte \<Rightarrow> byte" where
  "lfsr_step r = push_bit 1 r XOR (if bit r 7 then 0x71 else 0)"

fun constant_bits :: "nat list \<Rightarrow> byte \<Rightarrow> u64 \<Rightarrow> byte \<times> u64" where
  "constant_bits [] r c = (r, c)"
| "constant_bits (j # js) r c = constant_bits js (lfsr_step r) (if bit r 0 then c OR push_bit (2 ^ j - 1) 1 else c)"

fun round_constants :: "nat \<Rightarrow> byte \<Rightarrow> u64 list" where
  "round_constants 0 r = []"
| "round_constants (Suc n) r = (case constant_bits [0..<7] r 0 of (r', c) \<Rightarrow> c # round_constants n r')"

definition keccak_f :: "u64 list \<Rightarrow> u64 list" where
  "keccak_f a = foldl keccak_round a (round_constants 24 1)"

section \<open>The tables\<close>

lemma rc_standard: "rc = round_constants 24 1"
  by code_simp

lemma rho_offsets_table: "rho_offsets = [0, 1, 62, 28, 27, 36, 44, 6, 55, 20, 3, 10, 43, 25, 39, 41, 45, 15, 21, 8, 18, 2, 61, 56, 14]"
  by code_simp

section \<open>One round\<close>

lemma rotl64: "0 < k \<Longrightarrow> k < 64 \<Longrightarrow> push_bit k t OR drop_bit (64 - k) t = word_rotl k (t :: u64)"
proof (rule bit_word_eqI)
  fix n assume k: "0 < k" "k < 64" and n: "n < LENGTH(64)"
  have "(n + 64 - k) mod 64 = (if k \<le> n then n - k else n + 64 - k)" using n k by (simp add: mod_if)
  then have r: "bit (word_rotl k t) n = bit t (if k \<le> n then n - k else n + 64 - k)"
    using n k by (simp add: bit_word_rotl_iff)
  have l: "bit (push_bit k t OR drop_bit (64 - k) t) n \<longleftrightarrow> (k \<le> n \<and> bit t (n - k) \<or> bit t (64 - k + n))"
    using n by (simp add: bit_or_iff bit_push_bit_iff bit_drop_bit_eq)
  show "bit (push_bit k t OR drop_bit (64 - k) t) n = bit (word_rotl k t) n"
  proof (cases "k \<le> n")
    case True
    then have "\<not> bit t (64 - k + n)" using k(2) by (intro impossible_bit) simp
    then show ?thesis using l r True by simp
  next
    case False
    then show ?thesis using l r k(2) by (simp add: add.commute)
  qed
qed

lemma rotl_0: "word_rotl 0 x = x"
  by (rule bit_word_eqI) (simp add: bit_word_rotl_iff)

lemmas rotl64_at =
  rotl64 [of 1, simplified] rotl64 [of 2, simplified] rotl64 [of 3, simplified] rotl64 [of 6, simplified] rotl64 [of 8, simplified] rotl64 [of 10, simplified] rotl64 [of 14, simplified] rotl64 [of 15, simplified] rotl64 [of 18, simplified] rotl64 [of 20, simplified] rotl64 [of 21, simplified] rotl64 [of 25, simplified] rotl64 [of 27, simplified] rotl64 [of 28, simplified] rotl64 [of 36, simplified] rotl64 [of 39, simplified] rotl64 [of 41, simplified] rotl64 [of 43, simplified] rotl64 [of 44, simplified] rotl64 [of 45, simplified] rotl64 [of 55, simplified] rotl64 [of 56, simplified] rotl64 [of 61, simplified] rotl64 [of 62, simplified]

lemma list25: "List.length a = 25 \<Longrightarrow> \<exists>x0 x1 x2 x3 x4 x5 x6 x7 x8 x9 x10 x11 x12 x13 x14 x15 x16 x17 x18 x19 x20 x21 x22 x23 x24.
    a = [x0, x1, x2, x3, x4, x5, x6, x7, x8, x9, x10, x11, x12, x13, x14, x15, x16, x17, x18, x19, x20, x21, x22, x23, x24]"
  by (auto simp: numeral_eq_Suc length_Suc_conv)

text \<open>The places where the lanes of the standard stand after the first, second and third round.\<close>

definition lanes_at :: "nat list \<Rightarrow> u64 list \<Rightarrow> u64 list" where
  "lanes_at q a = map (\<lambda>k. a ! k) q"

definition q1 :: "nat list" where "q1 = [0, 6, 12, 18, 24, 10, 16, 22, 3, 9, 20, 1, 7, 13, 19, 5, 11, 17, 23, 4, 15, 21, 2, 8, 14]"
definition q2 :: "nat list" where "q2 = [0, 16, 7, 23, 14, 20, 11, 2, 18, 9, 15, 6, 22, 13, 4, 10, 1, 17, 8, 24, 5, 21, 12, 3, 19]"
definition q3 :: "nat list" where "q3 = [0, 11, 22, 8, 19, 15, 1, 12, 23, 9, 5, 16, 2, 13, 24, 20, 6, 17, 3, 14, 10, 21, 7, 18, 4]"

text \<open>The standard's round, evaluated on twenty-five lanes.\<close>

lemma upt25: "[0..<25] = [0, 1, 2, 3, 4, 5, 6, 7, 8, 9, 10, 11, 12, 13, 14, 15, 16, 17, 18, 19, 20, 21, 22, 23, 24 :: nat]"
  by (simp add: upt_rec)

lemmas keccak_ref_defs = rho_def pi_step_def chi_def iota_def rho_offsets_table upt25

text \<open>The column sums are the same wherever the lanes stand.\<close>

lemma keccak_theta_D: "keccak_theta a = (theta_D a 0, theta_D a 1, theta_D a 2, theta_D a 3, theta_D a 4)"
  by (simp add: keccak_theta_def theta_D_def theta_C_def rotl64_at Let_def numeral_2_eq_2)

lemma theta_C_lanes:
  "List.length a = 25 \<Longrightarrow> x < 5 \<Longrightarrow> theta_C (lanes_at q1 a) x = theta_C a x"
  "List.length a = 25 \<Longrightarrow> x < 5 \<Longrightarrow> theta_C (lanes_at q2 a) x = theta_C a x"
  "List.length a = 25 \<Longrightarrow> x < 5 \<Longrightarrow> theta_C (lanes_at q3 a) x = theta_C a x"
  by (auto simp: theta_C_def lanes_at_def q1_def q2_def q3_def less_Suc_eq numeral_eq_Suc xor.assoc xor.commute xor.left_commute)

lemma theta_D_lanes:
  "List.length a = 25 \<Longrightarrow> theta_D (lanes_at q1 a) x = theta_D a x"
  "List.length a = 25 \<Longrightarrow> theta_D (lanes_at q2 a) x = theta_D a x"
  "List.length a = 25 \<Longrightarrow> theta_D (lanes_at q3 a) x = theta_D a x"
  by (simp_all add: theta_D_def theta_C_lanes)

lemmas round1_defs = keccak_round1_def keccak_theta_D keccak_r1_row1_def keccak_r1_row2_def keccak_r1_row3_def
  keccak_r1_row4_def keccak_r1_row5_def lanes_at_def q1_def

lemma round1_standard:
  assumes "List.length a = 25"
  shows "lanes_at q1 (keccak_round1 i a) = keccak_round a (rc ! i)"
proof -
  note d = theta_D_lanes [OF assms]
  show ?thesis using list25 [OF assms]
    by (simp only: keccak_round_def theta_def d, elim exE)
      (simp add: round1_defs keccak_ref_defs rotl64_at rotl_0 Let_def and.commute)
qed

lemmas round2_defs = keccak_round2_def keccak_theta_D keccak_r2_row1_def keccak_r2_row2_def keccak_r2_row3_def
  keccak_r2_row4_def keccak_r2_row5_def lanes_at_def q1_def q2_def

lemma round2_standard:
  assumes "List.length a = 25"
  shows "lanes_at q2 (keccak_round2 i a) = keccak_round (lanes_at q1 a) (rc ! (i + 1))"
proof -
  note d = theta_D_lanes [OF assms]
  show ?thesis using list25 [OF assms]
    by (simp only: keccak_round_def theta_def d, elim exE)
      (simp add: round2_defs keccak_ref_defs rotl64_at rotl_0 Let_def and.commute)
qed

lemmas round3_defs = keccak_round3_def keccak_theta_D keccak_r3_row1_def keccak_r3_row2_def keccak_r3_row3_def
  keccak_r3_row4_def keccak_r3_row5_def lanes_at_def q2_def q3_def

lemma round3_standard:
  assumes "List.length a = 25"
  shows "lanes_at q3 (keccak_round3 i a) = keccak_round (lanes_at q2 a) (rc ! (i + 2))"
proof -
  note d = theta_D_lanes [OF assms]
  show ?thesis using list25 [OF assms]
    by (simp only: keccak_round_def theta_def d, elim exE)
      (simp add: round3_defs keccak_ref_defs rotl64_at rotl_0 Let_def and.commute)
qed

lemmas round4_defs = keccak_round4_def keccak_theta_D keccak_r4_row1_def keccak_r4_row2_def keccak_r4_row3_def
  keccak_r4_row4_def keccak_r4_row5_def lanes_at_def q3_def

lemma round4_standard:
  assumes "List.length a = 25"
  shows "keccak_round4 i a = keccak_round (lanes_at q3 a) (rc ! (i + 3))"
proof -
  note d = theta_D_lanes [OF assms]
  show ?thesis using list25 [OF assms]
    by (simp only: keccak_round_def theta_def d, elim exE)
      (simp add: round4_defs keccak_ref_defs rotl64_at rotl_0 Let_def and.commute)
qed

section \<open>The permutation\<close>

lemma length_keccak_round [simp]: "List.length (keccak_round a c) = 25"
  by (simp add: keccak_round_def chi_def iota_def)

lemma length_rounds: "List.length a = 25 \<Longrightarrow> List.length (keccak_round1 i a) = 25"
    "List.length a = 25 \<Longrightarrow> List.length (keccak_round2 i a) = 25" "List.length a = 25 \<Longrightarrow> List.length (keccak_round3 i a) = 25"
  by (simp_all add: round1_defs round2_defs round3_defs Let_def)

lemma four_rounds:
  "List.length a = 25 \<Longrightarrow> keccak_round4 i (keccak_round3 i (keccak_round2 i (keccak_round1 i a))) =
    foldl keccak_round a [rc ! i, rc ! (i + 1), rc ! (i + 2), rc ! (i + 3)]"
  by (simp add: round4_standard round3_standard round2_standard round1_standard length_rounds)

lemma length_four_rounds: "List.length (foldl keccak_round a (c # cs)) = 25"
  by (induction cs rule: rev_induct) simp_all

lemma keccakF1600_foldl: "List.length a = 25 \<Longrightarrow> keccakF1600 a = foldl keccak_round a (round_constants 24 1)"
  by (simp add: keccakF1600_def four_rounds flip: rc_standard) (simp add: rc_def)

lemma length_keccakF1600: "List.length a = 25 \<Longrightarrow> List.length (keccakF1600 a) = 25"
  by (simp add: keccakF1600_foldl length_four_rounds flip: rc_standard) (simp add: rc_def)

text \<open>C30 The unrolled permutation is Keccak-f[1600]: four rounds at a time in place, with the lanes scattered over the array after each of the first three,
  \<^verbatim>\<open>keccakF1600\<close> computes the twenty-four rounds theta, rho, pi, chi and iota of the standard, with its table of constants that of the standard's shift register.\<close>

theorem keccakF1600_standard:
  "List.length a = 25 \<Longrightarrow> keccakF1600 a = keccak_f a"
  by (simp add: keccakF1600_foldl keccak_f_def)

lemma keccakF1600_standard_witness: "keccakF1600 (replicate 25 0) = keccak_f (replicate 25 0)"
  by (rule keccakF1600_standard) simp

end
