(* ===== verification/SpongeProps.thy ===== *)
theory SpongeProps
  imports Sponge KeccakRef HashBlocks
begin

text \<open>
  The sponge construction of the standard, and the proof that the streaming implementation follows it: absorbing in pieces, padding, and
  reading the output in pieces.
\<close>

section \<open>The standard\<close>

definition xor_block :: "u64 list \<Rightarrow> byte list \<Rightarrow> u64 list" where
  "xor_block a b =
     map (\<lambda>i. if i < List.length b div 8 then a ! i XOR le_get (take 8 (drop (8 * i) b)) else a ! i) [0..<25]"

definition absorb_block :: "u64 list \<Rightarrow> byte list \<Rightarrow> u64 list" where
  "absorb_block a b = keccak_f (xor_block a b)"

definition absorb :: "nat \<Rightarrow> byte list \<Rightarrow> u64 list" where
  "absorb r m = foldl absorb_block (replicate 25 0) (blocks r m)"

text \<open>The message, the domain bits, zeros, and a one as the last bit of the last block.\<close>

definition sponge_padding :: "nat \<Rightarrow> byte \<Rightarrow> nat \<Rightarrow> byte list" where
  "sponge_padding r ds n =
     (let q = r - n mod r in if q = 1 then [ds XOR 0x80] else ds # replicate (q - 2) 0 @ [0x80])"

definition sponge_pad :: "nat \<Rightarrow> byte \<Rightarrow> byte list \<Rightarrow> byte list" where
  "sponge_pad r ds m = m @ sponge_padding r ds (List.length m)"

text \<open>Byte \<open>j\<close> of the output: byte \<open>j mod r\<close> of the state after \<open>j div r\<close> more permutations.\<close>

definition squeeze :: "nat \<Rightarrow> u64 list \<Rightarrow> nat \<Rightarrow> byte" where
  "squeeze r a j = state_bytes ((keccak_f ^^ (j div r)) a) ! (j mod r)"

definition sponge_function :: "nat \<Rightarrow> byte \<Rightarrow> byte list \<Rightarrow> nat \<Rightarrow> byte list" where
  "sponge_function r ds m n = map (squeeze r (absorb r (sponge_pad r ds m))) [0..<n]"

definition sha3_rates :: "nat set" where
  "sha3_rates = {72, 104, 136, 144, 168}"

section \<open>Reading a block into the state\<close>

lemma xor_range_append: "i \<le> j \<Longrightarrow> j \<le> k \<Longrightarrow> xor_range (xor_range a bw i j) bw j k = xor_range a bw i k"
  using upt_add_eq_append [of i j "k - j"] by (simp add: xor_range_def)

lemma length_xor_range [simp]: "List.length (xor_range a bw i j) = List.length a"
  unfolding xor_range_def by (induction j) (auto simp: upt_Suc)

lemma nth_xor_range: "j \<le> List.length a \<Longrightarrow> k < List.length a \<Longrightarrow>
    xor_range a bw 0 j ! k = (if k < j then a ! k XOR bw ! k else a ! k)"
proof (induction j)
  case (Suc j)
  have "xor_range a bw 0 (Suc j) = (xor_range a bw 0 j)[j := xor_range a bw 0 j ! j XOR bw ! j]"
    by (simp add: xor_range_def)
  then show ?case using Suc by (auto simp: nth_list_update less_Suc_eq)
qed (simp add: xor_range_def)

lemma xor_range_block:
  "List.length a = 25 \<Longrightarrow> List.length b \<le> 168 \<Longrightarrow> xor_range a (buffer_words b) 0 (List.length b div 8) = xor_block a b"
  by (rule nth_equalityI) (auto simp: nth_xor_range xor_block_def buffer_words_def maxRate_def)

lemma xorIn_block:
  assumes "List.length b \<in> sha3_rates" "List.length (sp_a d) = 25"
  shows "xorInUnaligned d b = Inr (d\<lparr>sp_a := xor_block (sp_a d) b\<rparr>)"
proof -
  let ?w = "buffer_words b"
  have "b \<noteq> []" "List.length b \<le> 168" using assms(1) by (auto simp: sha3_rates_def)
  moreover from assms(1) consider "List.length b = 72" | "List.length b = 104" | "List.length b = 136" | "List.length b = 144" | "List.length b = 168"
    by (auto simp: sha3_rates_def)
  then have "xorInUnaligned d b = Inr (d\<lparr>sp_a := xor_range (sp_a d) ?w 0 (List.length b div 8)\<rparr>)"
    using \<open>b \<noteq> []\<close> by cases (simp_all add: xorInUnaligned_def Let_def xor_range_append)
  ultimately show ?thesis using xor_range_block [OF assms(2)] by simp
qed

lemma length_xor_block [simp]: "List.length (xor_block a b) = 25"
  by (simp add: xor_block_def)

lemma length_keccak_f [simp]: "List.length a = 25 \<Longrightarrow> List.length (keccak_f a) = 25"
  using length_keccakF1600 keccakF1600_foldl by (simp add: keccak_f_def)

lemma permutation: "List.length a = 25 \<Longrightarrow> keccakF1600 a = keccak_f a"
  by (simp add: keccakF1600_foldl keccak_f_def)

lemma length_absorb [simp]: "List.length (absorb r m) = 25"
proof -
  have "List.length a = 25 \<Longrightarrow> List.length (foldl absorb_block a bs) = 25" for a bs
    by (induction bs arbitrary: a) (simp_all add: absorb_block_def)
  then show ?thesis by (simp add: absorb_def)
qed

section \<open>Absorbing\<close>

text \<open>The state of a hash function with rate \<open>r\<close> that has absorbed the bytes \<open>m\<close>.\<close>

definition absorbing :: "nat \<Rightarrow> byte \<Rightarrow> nat \<Rightarrow> sponge \<Rightarrow> byte list \<Rightarrow> bool" where
  "absorbing r ds ol d m \<longleftrightarrow>
     sp_state d = spongeAbsorbing \<and> sp_rate d = r \<and> sp_dsbyte d = ds \<and> sp_outputLen d = ol \<and>
     List.length (sp_storage d) = maxRate \<and> sp_a d = absorb r m \<and>
     sp_buf d = (0, List.length m mod r) \<and> buf_bytes d = drop (List.length m div r * r) m"

lemma sha3_rate_bounds: "r \<in> sha3_rates \<Longrightarrow> 0 < r \<and> r \<le> maxRate"
  by (auto simp: sha3_rates_def maxRate_def)

lemma absorbing_new: "r \<in> sha3_rates \<Longrightarrow> absorbing r ds ol (new_state r ol ds) []"
  using sha3_rate_bounds [of r]
  by (simp add: absorbing_def new_state_def absorb_def blocks_short buf_bytes_def)

text \<open>Appending to the buffer.\<close>

lemma buf_append_bytes:
  "snd (sp_buf d) + List.length x \<le> maxRate \<Longrightarrow> fst (sp_buf d) = 0 \<Longrightarrow> List.length (sp_storage d) = maxRate \<Longrightarrow>
   buf_bytes (buf_append d x) = buf_bytes d @ x"
  by (simp add: buf_bytes_def buf_append_def go_copy_at_def go_copy_def)

lemma absorb_full:
  "0 < r \<Longrightarrow> List.length (drop (List.length m div r * r) m @ x) = r \<Longrightarrow>
   absorb r (m @ x) = absorb_block (absorb r m) (drop (List.length m div r * r) m @ x)"
  by (simp add: absorb_def blocks_rest [of r m x] blocks_single)

lemma absorb_partial:
  "0 < r \<Longrightarrow> List.length (drop (List.length m div r * r) m @ x) < r \<Longrightarrow> absorb r (m @ x) = absorb r m"
  by (simp add: absorb_def blocks_rest [of r m x] blocks_short)

lemma append_div_mod:
  assumes "0 < r" "n mod r + k < (r :: nat)"
  shows "(n + k) div r = n div r" "(n + k) mod r = n mod r + k"
  using assms by (metis div_mult_mod_eq add.assoc div_mult_self3 add.right_neutral div_less mult.commute less_nat_zero_code,
    metis mod_add_left_eq mod_less)

lemma append_div_mod_full:
  assumes "0 < r" "n mod r + k = (r :: nat)"
  shows "(n + k) mod r = 0"
  using assms by (metis mod_add_left_eq mod_self)

lemma absorbing_append_partial:
  assumes "absorbing r ds ol d m" "r \<in> sha3_rates" "List.length m mod r + List.length x < r"
  shows "absorbing r ds ol (buf_append d x) (m @ x)"
proof -
  note r = sha3_rate_bounds [OF assms(2)]
  have "buf_bytes (buf_append d x) = buf_bytes d @ x"
    by (rule buf_append_bytes) (use assms r in \<open>auto simp: absorbing_def\<close>)
  moreover have "absorb r (m @ x) = absorb r m"
    by (rule absorb_partial) (use assms(3) r length_rest [of m r] in simp_all)
  ultimately show ?thesis using assms r append_div_mod [of r "List.length m" "List.length x"]
    by (simp add: absorbing_def buf_append_def)
qed

lemma absorbing_append_full:
  assumes "absorbing r ds ol d m" "r \<in> sha3_rates" "List.length m mod r + List.length x = r"
  shows "\<exists>d'. permute (buf_append d x) = Inr d' \<and> absorbing r ds ol d' (m @ x)"
proof -
  note r = sha3_rate_bounds [OF assms(2)]
  have b: "buf_bytes (buf_append d x) = drop (List.length m div r * r) m @ x"
    using assms r buf_append_bytes [of d x] by (simp add: absorbing_def)
  have len: "List.length (drop (List.length m div r * r) m @ x) = r" using assms(3) length_rest [of m r] by simp
  have "xorInUnaligned (buf_append d x) (buf_bytes (buf_append d x)) =
      Inr (buf_append d x\<lparr>sp_a := xor_block (absorb r m) (drop (List.length m div r * r) m @ x)\<rparr>)"
    unfolding b using assms len by (subst xorIn_block) (simp_all add: absorbing_def buf_append_def)
  moreover have "List.length (m @ x) mod r = 0" using append_div_mod_full [of r "List.length m"] assms(3) r by simp
  moreover from this have "List.length (m @ x) div r * r = List.length (m @ x)" by (simp add: mod_0_imp_dvd)
  ultimately show ?thesis using assms r absorb_full [OF _ len]
    by (simp add: permute_def absorbing_def buf_append_def permutation absorb_block_def buf_bytes_def)
qed

text \<open>A whole block straight from the input.\<close>

lemma absorbing_block:
  assumes "absorbing r ds ol d m" "r \<in> sha3_rates" "buf_len d = 0" "List.length b = r"
  shows "\<exists>d'. xorInUnaligned d b = Inr d' \<and> absorbing r ds ol (d'\<lparr>sp_a := keccakF1600 (sp_a d')\<rparr>) (m @ b)"
proof -
  note r = sha3_rate_bounds [OF assms(2)]
  have z: "List.length m mod r = 0" using assms by (simp add: absorbing_def buf_len_def)
  then have rest: "drop (List.length m div r * r) m = []" by (simp add: mod_0_imp_dvd)
  have "absorb r (m @ b) = absorb_block (absorb r m) b"
    using absorb_full [of r m b] r rest assms(4) by simp
  moreover have "xorInUnaligned d b = Inr (d\<lparr>sp_a := xor_block (absorb r m) b\<rparr>)"
    using assms xorIn_block [of b d] by (simp add: absorbing_def)
  moreover have "List.length (m @ b) mod r = 0" using z assms(4) by simp
  moreover from this have "List.length (m @ b) div r * r = List.length (m @ b)" by (simp add: mod_0_imp_dvd)
  ultimately show ?thesis using assms z
    by (simp add: absorbing_def permutation absorb_block_def buf_bytes_def)
qed

lemma write_loop_Suc:
  "p \<noteq> [] \<Longrightarrow> write_loop (Suc fuel) d p =
     (if buf_len d = 0 \<and> sp_rate d \<le> List.length p then
        bindE (xorInUnaligned d (take (sp_rate d) p)) (\<lambda>d'.
          write_loop fuel (d'\<lparr>sp_a := keccakF1600 (sp_a d')\<rparr>) (drop (sp_rate d) p))
      else
        let todo = min (sp_rate d - buf_len d) (List.length p);
            d = buf_append d (take todo p);
            p = drop todo p
        in if buf_len d = sp_rate d then bindE (permute d) (\<lambda>d. write_loop fuel d p)
           else write_loop fuel d p)"
  by (cases p) simp_all

lemma buf_append_rate [simp]: "sp_rate (buf_append d x) = sp_rate d" "buf_len (buf_append d x) = buf_len d + List.length x"
  by (simp_all add: buf_append_def buf_len_def)

lemma write_loop_absorbs:
  assumes r_in: "r \<in> sha3_rates"
  shows "absorbing r ds ol d m \<Longrightarrow> List.length p \<le> fuel \<Longrightarrow>
    \<exists>d'. write_loop fuel d p = Inr d' \<and> absorbing r ds ol d' (m @ p)"
proof (induction fuel arbitrary: d m p)
  case 0
  then show ?case by simp
next
  case (Suc fuel)
  note r = sha3_rate_bounds [OF r_in] and abs = Suc.prems(1)
  have rate: "sp_rate d = r" and len: "buf_len d = List.length m mod r"
    using abs by (simp_all add: absorbing_def buf_len_def)
  show ?case
  proof (cases "p = []")
    case True
    then show ?thesis using abs by simp
  next
    case False
    note step = write_loop_Suc [OF False, of fuel d, unfolded rate]
    show ?thesis
    proof (cases "buf_len d = 0 \<and> r \<le> List.length p")
      case True
      then obtain d1 where d1: "xorInUnaligned d (take r p) = Inr d1"
        "absorbing r ds ol (d1\<lparr>sp_a := keccakF1600 (sp_a d1)\<rparr>) (m @ take r p)"
        using absorbing_block [OF abs r_in, of "take r p"] by auto
      have "List.length (drop r p) \<le> fuel" using Suc.prems(2) r by (simp add: le_diff_conv)
      from Suc.IH [OF d1(2) this] show ?thesis using step True d1(1) by simp
    next
      case slow: False
      define todo where "todo = min (r - buf_len d) (List.length p)"
      have todo: "0 < todo" "todo \<le> List.length p" using r len False by (simp_all add: todo_def)
      then have f: "List.length (drop todo p) \<le> fuel" using Suc.prems(2) by simp
      have l: "buf_len (buf_append d (take todo p)) = List.length m mod r + todo" using todo(2) len by simp
      have step': "write_loop (Suc fuel) d p =
          (if List.length m mod r + todo = r
           then bindE (permute (buf_append d (take todo p))) (\<lambda>d. write_loop fuel d (drop todo p))
           else write_loop fuel (buf_append d (take todo p)) (drop todo p))"
        using step slow by (simp only: if_False Let_def todo_def [symmetric] buf_append_rate(1) l rate simp_thms)
      show ?thesis
      proof (cases "List.length m mod r + todo = r")
        case full: True
        then obtain d1 where d1: "permute (buf_append d (take todo p)) = Inr d1" "absorbing r ds ol d1 (m @ take todo p)"
          using absorbing_append_full [OF abs r_in, of "take todo p"] todo(2) by auto
        from Suc.IH [OF d1(2) f] show ?thesis using step' full d1(1) by simp
      next
        case part: False
        moreover have "List.length m mod r + todo \<le> r" using len r by (auto simp: todo_def min_def)
        ultimately have "absorbing r ds ol (buf_append d (take todo p)) (m @ take todo p)"
          using absorbing_append_partial [OF abs r_in, of "take todo p"] todo(2) by simp
        from Suc.IH [OF this f] show ?thesis using step' part by simp
      qed
    qed
  qed
qed

lemma sponge_Write_absorbs:
  "r \<in> sha3_rates \<Longrightarrow> absorbing r ds ol d m \<Longrightarrow>
   \<exists>d'. sponge_Write d p = Inr (List.length p, d') \<and> absorbing r ds ol d' (m @ p)"
  using write_loop_absorbs [of r ds ol d m p "List.length p"] by (auto simp: sponge_Write_def absorbing_def)

lemma write_all_absorbs:
  "r \<in> sha3_rates \<Longrightarrow> absorbing r ds ol d m \<Longrightarrow>
   \<exists>d'. write_all d ps = Inr d' \<and> absorbing r ds ol d' (m @ concat ps)"
proof (induction ps arbitrary: d m)
  case (Cons p ps)
  obtain d1 where d1: "sponge_Write d p = Inr (List.length p, d1)" "absorbing r ds ol d1 (m @ p)"
    using sponge_Write_absorbs [OF Cons.prems] by blast
  from Cons.IH [OF Cons.prems(1) d1(2)] show ?case using d1(1) by simp
qed simp

section \<open>Padding\<close>

lemma length_padding: "0 < r \<Longrightarrow> List.length (sponge_padding r ds n) = r - n mod r"
  by (simp add: sponge_padding_def Let_def) (metis Suc_diff_Suc diff_is_0_eq less_numeral_extra(3) mod_less_divisor not_less_eq_eq numeral_2_eq_2 One_nat_def not_less diff_Suc_Suc)

lemma nth_padding:
  "0 < r \<Longrightarrow> j < r - n mod r \<Longrightarrow> sponge_padding r ds n ! j =
    (if j = 0 then ds else 0) XOR (if j = r - n mod r - 1 then 0x80 else 0)"
  by (auto simp: sponge_padding_def Let_def nth_Cons' nth_append)

lemma nth_zero_fill:
  "k < List.length st \<Longrightarrow> foldl (\<lambda>st i. st[i := 0]) st [i..<j] ! k = (if i \<le> k \<and> k < j then 0 else st ! k)"
proof (induction j)
  case (Suc j)
  have l: "List.length (foldl (\<lambda>st i. st[i := 0]) st js) = List.length st" for js :: "nat list"
    by (induction js arbitrary: st) simp_all
  show ?case using Suc by (auto simp: nth_list_update l less_Suc_eq)
qed simp

lemma length_zero_fill [simp]: "List.length (foldl (\<lambda>st i. st[i := z]) st js) = List.length st"
  by (induction js arbitrary: st) simp_all

text \<open>The state that has delivered \<open>k\<close> bytes of the output that starts from the words \<open>A\<close>.\<close>

definition squeezing :: "nat \<Rightarrow> sponge \<Rightarrow> u64 list \<Rightarrow> nat \<Rightarrow> bool" where
  "squeezing r d A k \<longleftrightarrow>
     sp_state d = spongeSqueezing \<and> sp_rate d = r \<and> List.length (sp_storage d) = maxRate \<and> List.length A = 25 \<and>
     sp_a d = (keccak_f ^^ (k div r)) A \<and> sp_buf d = (k mod r, r - k mod r) \<and>
     take r (sp_storage d) = take r (state_bytes (sp_a d))"

lemma length_le_puts: "List.length (concat (map (le_put 8) a)) = 8 * List.length a"
  by (induction a) simp_all

lemma length_state_bytes: "List.length a = 25 \<Longrightarrow> List.length (state_bytes a) = maxRate"
  by (simp add: state_bytes_def length_le_puts maxRate_def)

lemma length_keccak_pow [simp]: "List.length A = 25 \<Longrightarrow> List.length ((keccak_f ^^ n) A) = 25"
  by (induction n) simp_all

lemma copyOut_take:
  "sp_buf d = (0, r) \<Longrightarrow> r \<le> maxRate \<Longrightarrow> List.length (sp_storage d) = maxRate \<Longrightarrow> List.length (sp_a d) = 25 \<Longrightarrow>
   take r (sp_storage (copyOutUnaligned d)) = take r (state_bytes (sp_a d))"
  by (simp add: copyOutUnaligned_def go_copy_at_def go_copy_def length_state_bytes)

lemma padAndPermute_squeezes:
  assumes "absorbing r ds ol d m" "r \<in> sha3_rates"
  shows "\<exists>d'. padAndPermute d ds = Inr d' \<and> squeezing r d' (absorb r (sponge_pad r ds m)) 0"
proof -
  note r = sha3_rate_bounds [OF assms(2)]
  define u where "u = List.length m mod r"
  have u: "u < r" using r by (simp add: u_def)
  let ?rest = "drop (List.length m div r * r) m" and ?pad = "sponge_padding r ds (List.length m)"
  have d: "sp_state d = spongeAbsorbing" "sp_rate d = r" "List.length (sp_storage d) = maxRate" "sp_a d = absorb r m"
    "sp_buf d = (0, u)" "take u (sp_storage d) = ?rest"
    using assms(1) by (auto simp: absorbing_def u_def buf_bytes_def)
  have rest: "List.length ?rest = u" by (simp only: u_def length_rest)
  let ?st0 = "sp_storage (buf_append d [ds])"
  define zs where "zs = foldl (\<lambda>st i. st[i := 0]) ?st0 [Suc u..<r]"
  define st where "st = zs[r - Suc 0 := zs ! (r - Suc 0) XOR 0x80]"
  have st0: "List.length ?st0 = maxRate" using d by (simp add: buf_append_def)
  have st0_nth: "?st0 ! i = (if i = u then ds else sp_storage d ! i)" if "i < maxRate" for i
    using that d by (auto simp: buf_append_def nth_go_copy_at)
  have stlen: "List.length st = maxRate" using st0 by (simp add: st_def zs_def)
  have pad: "take r st = ?rest @ ?pad"
  proof (rule nth_equalityI)
    show "List.length (take r st) = List.length (?rest @ ?pad)"
      using stlen r rest u by (simp add: length_padding u_def del: length_drop)
    fix i assume "i < List.length (take r st)"
    then have i: "i < r" "i < maxRate" using stlen r by auto
    have "sp_storage d ! i = ?rest ! i" if "i < u" using that d(6) by (metis nth_take)
    then show "take r st ! i = (?rest @ ?pad) ! i"
      using i u r rest st0 nth_padding [of r "i - u" "List.length m" ds]
      by (auto simp: st_def zs_def nth_list_update nth_zero_fill st0_nth nth_append u_def [symmetric] simp del: length_drop)
  qed
  let ?d1 = "buf_append d [ds]\<lparr>sp_buf := (0, r), sp_storage := st\<rparr>"
  have "buf_bytes ?d1 = take r st" by (simp add: buf_bytes_def)
  then have b: "buf_bytes ?d1 = ?rest @ ?pad" by (simp only: pad)
  have len: "List.length (?rest @ ?pad) = r" using stlen r pad by (metis length_take min.absorb2)
  have x: "xorInUnaligned ?d1 (?rest @ ?pad) = Inr (?d1\<lparr>sp_a := xor_block (absorb r m) (?rest @ ?pad)\<rparr>)"
    using assms(2) len d(4) by (subst xorIn_block) (simp_all add: buf_append_def)
  let ?A = "absorb r (sponge_pad r ds m)"
  have A: "?A = keccakF1600 (xor_block (absorb r m) (?rest @ ?pad))"
    using absorb_full [OF _ len] r by (simp add: sponge_pad_def absorb_block_def permutation)
  have st1: "sp_state (buf_append d [ds]) = spongeAbsorbing" using d by (simp add: buf_append_def)
  have z: "buf_len d = u" using d by (simp add: buf_len_def)
  let ?d2 = "buf_append d [ds]\<lparr>sp_storage := st, sp_a := ?A, sp_state := spongeSqueezing, sp_buf := (0, r)\<rparr>"
  have "padAndPermute d ds = Inr (copyOutUnaligned ?d2)"
    using x d(2) st1 b by (simp add: padAndPermute_def permute_def Let_def z A flip: zs_def) (simp flip: st_def)
  moreover have "take r (sp_storage (copyOutUnaligned ?d2)) = take r (state_bytes ?A)"
    using copyOut_take [of ?d2 r] r stlen by simp
  ultimately show ?thesis using d stlen by (simp add: squeezing_def copyOutUnaligned_def buf_append_def)
qed

section \<open>Reading\<close>

lemma squeezing_bytes:
  assumes "squeezing r d A k" "r \<in> sha3_rates"
  shows "take n (buf_bytes d) = map (squeeze r A) [k..<k + min n (r - k mod r)]"
proof (rule nth_equalityI)
  note r = sha3_rate_bounds [OF assms(2)]
  have st: "List.length (sp_storage d) = maxRate" "sp_buf d = (k mod r, r - k mod r)"
    "take r (sp_storage d) = take r (state_bytes ((keccak_f ^^ (k div r)) A))"
    using assms(1) by (auto simp: squeezing_def)
  then show "List.length (take n (buf_bytes d)) = List.length (map (squeeze r A) [k..<k + min n (r - k mod r)])"
    using r by (auto simp: buf_bytes_def min_def)
  fix i assume "i < List.length (take n (buf_bytes d))"
  then have i: "i < n" "k mod r + i < r" using r st by (auto simp: buf_bytes_def)
  then have "take n (buf_bytes d) ! i = sp_storage d ! (k mod r + i)" using st r by (simp add: buf_bytes_def)
  also have "\<dots> = state_bytes ((keccak_f ^^ (k div r)) A) ! (k mod r + i)" using i(2) st(3) by (metis nth_take)
  finally show "take n (buf_bytes d) ! i = map (squeeze r A) [k..<k + min n (r - k mod r)] ! i"
    using i r append_div_mod [of r k i] by (simp add: squeeze_def)
qed

lemma squeezing_advance:
  assumes "squeezing r d A k" "r \<in> sha3_rates" "k mod r + j \<le> r"
  defines "d1 \<equiv> d\<lparr>sp_buf := (fst (sp_buf d) + j, snd (sp_buf d) - j)\<rparr>"
  shows "\<exists>d2. (if buf_len d1 = 0 then permute d1 else Inr d1) = Inr d2 \<and> squeezing r d2 A (k + j)"
proof (cases "k mod r + j = r")
  case True
  note r = sha3_rate_bounds [OF assms(2)]
  have z: "buf_len d1 = 0" using assms(1) True by (simp add: d1_def squeezing_def buf_len_def)
  let ?d2 = "d1\<lparr>sp_a := keccakF1600 (sp_a d1), sp_buf := (0, r)\<rparr>"
  have p: "permute d1 = Inr (copyOutUnaligned ?d2)"
    using assms(1) by (simp add: permute_def d1_def squeezing_def)
  have kj: "(k + j) mod r = 0" "(k + j) div r = Suc (k div r)"
  proof -
    have "k + j = Suc (k div r) * r" using True by (metis add.commute add.assoc mod_div_mult_eq mult_Suc)
    then show "(k + j) mod r = 0" "(k + j) div r = Suc (k div r)" using r by simp_all
  qed
  have a: "keccakF1600 (sp_a d1) = (keccak_f ^^ Suc (k div r)) A" using assms(1) by (simp add: squeezing_def d1_def permutation)
  have "take r (sp_storage (copyOutUnaligned ?d2)) = take r (state_bytes (sp_a ?d2))"
    by (rule copyOut_take) (use assms(1) r a in \<open>simp_all add: squeezing_def d1_def\<close>)
  then have "squeezing r (copyOutUnaligned ?d2) A (k + j)"
    using assms(1) r kj a by (simp add: squeezing_def copyOutUnaligned_def d1_def)
  then show ?thesis using p z by simp
next
  case False
  then have "k mod r + j < r" using assms(3) by simp
  moreover have "buf_len d1 \<noteq> 0" using assms(1) calculation by (simp add: d1_def squeezing_def buf_len_def)
  ultimately show ?thesis using assms(1) sha3_rate_bounds [OF assms(2)] append_div_mod [of r k j]
    by (simp add: squeezing_def d1_def)
qed

lemma read_loop_squeezes:
  assumes "r \<in> sha3_rates"
  shows "squeezing r d A k \<Longrightarrow> n \<le> fuel \<Longrightarrow>
    \<exists>d'. read_loop fuel d n = Inr (map (squeeze r A) [k..<k + n], d') \<and> squeezing r d' A (k + n)"
proof (induction fuel arbitrary: d k n)
  case 0
  then show ?case by simp
next
  case (Suc fuel)
  note r = sha3_rate_bounds [OF assms]
  show ?case
  proof (cases n)
    case 0
    then show ?thesis using Suc.prems(1) by simp
  next
    case n: (Suc n')
    define j where "j = min n (r - k mod r)"
    have j: "0 < j" "j \<le> n" "k mod r + j \<le> r" using r n by (auto simp: j_def min_def)
    have bs: "take n (buf_bytes d) = map (squeeze r A) [k..<k + j]"
      unfolding j_def by (rule squeezing_bytes [OF Suc.prems(1) assms])
    let ?d1 = "d\<lparr>sp_buf := (fst (sp_buf d) + j, snd (sp_buf d) - j)\<rparr>"
    obtain d2 where d2: "(if buf_len ?d1 = 0 then permute ?d1 else Inr ?d1) = Inr d2" "squeezing r d2 A (k + j)"
      using squeezing_advance [OF Suc.prems(1) assms j(3)] by blast
    have "n - j \<le> fuel" using Suc.prems(2) j(1) by simp
    from Suc.IH [OF d2(2) this] obtain d' where
      d': "read_loop fuel d2 (n - j) = Inr (map (squeeze r A) [k + j..<k + j + (n - j)], d')" "squeezing r d' A (k + j + (n - j))"
      by blast
    have "read_loop (Suc fuel) d n =
        bindE (if buf_len ?d1 = 0 then permute ?d1 else Inr ?d1) (\<lambda>d.
          bindE (read_loop fuel d (n - j)) (\<lambda>(out, d). Inr (map (squeeze r A) [k..<k + j] @ out, d)))"
      using bs by (simp add: n Let_def del: take_Suc_Cons upt_Suc)
    also have "\<dots> = Inr (map (squeeze r A) ([k..<k + j] @ [k + j..<k + j + (n - j)]), d')" by (simp add: d2(1) d'(1))
    also have "[k..<k + j] @ [k + j..<k + j + (n - j)] = [k..<k + n]" using j(2) upt_add_eq_append [of k "k + j" "n - j"] by simp
    finally show ?thesis using d'(2) j(2) by simp
  qed
qed

lemma sponge_Read_squeezing:
  "r \<in> sha3_rates \<Longrightarrow> squeezing r d A k \<Longrightarrow>
   \<exists>d'. sponge_Read d n = Inr (map (squeeze r A) [k..<k + n], d') \<and> squeezing r d' A (k + n)"
  using read_loop_squeezes [of r d A k n n] by (auto simp: sponge_Read_def squeezing_def)

lemma sponge_Read_absorbing:
  assumes "r \<in> sha3_rates" "absorbing r ds ol d m"
  shows "\<exists>d'. sponge_Read d n = Inr (sponge_function r ds m n, d') \<and> squeezing r d' (absorb r (sponge_pad r ds m)) n"
proof -
  obtain d1 where d1: "padAndPermute d ds = Inr d1" "squeezing r d1 (absorb r (sponge_pad r ds m)) 0"
    using padAndPermute_squeezes [OF assms(2,1)] by blast
  then show ?thesis using assms(2) read_loop_squeezes [OF assms(1) d1(2) order_refl, of n]
    by (auto simp: sponge_Read_def absorbing_def sponge_function_def)
qed

lemma sponge_Sum_absorbing:
  "r \<in> sha3_rates \<Longrightarrow> absorbing r ds ol d m \<Longrightarrow> sponge_Sum d input = Inr (input @ sponge_function r ds m ol)"
proof -
  assume a: "r \<in> sha3_rates" "absorbing r ds ol d m"
  then have "sponge_clone d = Inr d" by (cases d) (simp add: sponge_clone_def absorbing_def buf_len_def)
  then show ?thesis using sponge_Read_absorbing [OF a, of ol] a(2) by (auto simp: sponge_Sum_def absorbing_def)
qed

end
