(* ===== verification/SpongeTheorems.thy ===== *)
theory SpongeTheorems
  imports SpongeProps
begin

text \<open>
  What the exported functions of \<^verbatim>\<open>crypto/sha3\<close> compute, how reading continues, and what a copy of a squeezing state reads.
\<close>

lemma sha3_rates_all: "72 \<in> sha3_rates" "104 \<in> sha3_rates" "136 \<in> sha3_rates" "144 \<in> sha3_rates" "168 \<in> sha3_rates"
  by (simp_all add: sha3_rates_def)

lemmas sha3_new_defs = NewShake128_def NewShake256_def NewKeccak256_def NewKeccak512_def New224_def New256_def New384_def New512_def

lemma sha3_sum_new: "r \<in> sha3_rates \<Longrightarrow> sha3_sum (new_state r ol ds) data = Inr (sponge_function r ds data ol)"
proof -
  assume r: "r \<in> sha3_rates"
  obtain d where d: "sponge_Write (new_state r ol ds) data = Inr (List.length data, d)" "absorbing r ds ol d data"
    using sponge_Write_absorbs [OF r absorbing_new [OF r], of ol ds data] by auto
  then show ?thesis using sponge_Sum_absorbing [OF r d(2), of "[]"] by (simp add: sha3_sum_def)
qed

lemma shake_sum_new: "r \<in> sha3_rates \<Longrightarrow> shake_sum (new_state r ol ds) data n = Inr (sponge_function r ds data n)"
proof -
  assume r: "r \<in> sha3_rates"
  obtain d where d: "sponge_Write (new_state r ol ds) data = Inr (List.length data, d)" "absorbing r ds ol d data"
    using sponge_Write_absorbs [OF r absorbing_new [OF r], of ol ds data] by auto
  then show ?thesis using sponge_Read_absorbing [OF r d(2), of n] by (auto simp: shake_sum_def)
qed

text \<open>C31 Every exported hash function is the sponge function of the standard with its rate, its domain byte and its output length, for every input: \<^verbatim>\<open>Sum224\<close> to
  \<^verbatim>\<open>Sum512\<close>, the two SHAKE functions for every output length, and \<^verbatim>\<open>Keccak256\<close> over all its arguments; none of them panics or runs on.\<close>

theorem sha3_functions_standard:
  "Sum224 data = Inr (sponge_function 144 0x06 data 28)
    \<and> Sum256 data = Inr (sponge_function 136 0x06 data 32)
    \<and> Sum384 data = Inr (sponge_function 104 0x06 data 48)
    \<and> Sum512 data = Inr (sponge_function 72 0x06 data 64)
    \<and> ShakeSum128 data n = Inr (sponge_function 168 0x1f data n)
    \<and> ShakeSum256 data n = Inr (sponge_function 136 0x1f data n)
    \<and> Keccak256 chunks = Inr (sponge_function 136 0x01 (concat chunks) 32)"
proof (intro conjI)
  show "Keccak256 chunks = Inr (sponge_function 136 0x01 (concat chunks) 32)"
    using write_all_absorbs [OF sha3_rates_all(3) absorbing_new [OF sha3_rates_all(3)], of 32 1 chunks]
      sponge_Sum_absorbing [OF sha3_rates_all(3), of 1 32 _ "concat chunks" "[]"]
    by (auto simp: Keccak256_def NewKeccak256_def)
qed (simp_all add: Sum224_def Sum256_def Sum384_def Sum512_def ShakeSum128_def ShakeSum256_def sha3_new_defs
    sha3_sum_new shake_sum_new sha3_rates_all)

text \<open>C32 Writing and reading in pieces is writing and reading at once: after any sequence of \<^verbatim>\<open>Write\<close> calls on a SHAKE256 state, two \<^verbatim>\<open>Read\<close> calls deliver
  consecutive parts of the one output, and a \<^verbatim>\<open>Write\<close> after them panics.\<close>

theorem shake_reads_continue:
  "\<exists>h d1 d2. write_all NewShake256 chunks = Inr h
    \<and> sponge_Read h n1 = Inr (take n1 (sponge_function 136 0x1f (concat chunks) (n1 + n2)), d1)
    \<and> sponge_Read d1 n2 = Inr (drop n1 (sponge_function 136 0x1f (concat chunks) (n1 + n2)), d2)
    \<and> sponge_Write d2 p = Inl WriteAfterRead"
proof -
  note r = sha3_rates_all(3)
  obtain h where h: "write_all NewShake256 chunks = Inr h" "absorbing 136 0x1f 0 h (concat chunks)"
    using write_all_absorbs [OF r absorbing_new [OF r], of 0 "0x1f" chunks] by (auto simp: NewShake256_def)
  let ?A = "absorb 136 (sponge_pad 136 0x1f (concat chunks))"
  obtain d1 where d1: "sponge_Read h n1 = Inr (sponge_function 136 0x1f (concat chunks) n1, d1)" "squeezing 136 d1 ?A n1"
    using sponge_Read_absorbing [OF r h(2)] by blast
  obtain d2 where d2: "sponge_Read d1 n2 = Inr (map (squeeze 136 ?A) [n1..<n1 + n2], d2)" "squeezing 136 d2 ?A (n1 + n2)"
    using sponge_Read_squeezing [OF r d1(2)] by blast
  have "sponge_Write d2 p = Inl WriteAfterRead" using d2(2) by (simp add: sponge_Write_def squeezing_def)
  then show ?thesis using h(1) d1(1) d2(1) by (simp add: sponge_function_def take_map drop_map)
qed

text \<open>Copies of a squeezing state.\<close>

lemma clone_squeezing_short:
  "squeezing r d A k \<Longrightarrow> k mod r < maxRate - r \<Longrightarrow> sponge_clone d = Inl CloneBounds"
  by (simp add: squeezing_def sponge_clone_def buf_cap_def)

lemma clone_squeezing_back:
  assumes "squeezing r d A k" "r \<in> sha3_rates" "maxRate - r \<le> k mod r"
  shows "\<exists>c. sponge_clone d = Inr c \<and> squeezing r c A (k - (maxRate - r))"
proof -
  note r = sha3_rate_bounds [OF assms(2)]
  let ?g = "maxRate - r"
  have "(k - ?g) mod r = k mod r - ?g" "(k - ?g) div r = k div r"
  proof -
    have "k - ?g = k div r * r + (k mod r - ?g)" using assms(3) by (metis Nat.add_diff_assoc div_mult_mod_eq)
    moreover have "k mod r - ?g < r" using r by (metis less_imp_diff_less mod_less_divisor)
    ultimately show "(k - ?g) mod r = k mod r - ?g" "(k - ?g) div r = k div r" using r by simp_all
  qed
  moreover have "r - (k mod r - ?g) = maxRate - k mod r" using r assms(3) mod_less_divisor [of r k] by linarith
  moreover have "r - (maxRate - k mod r) = k mod r - ?g" using r assms(3) mod_less_divisor [of r k] by linarith
  ultimately show ?thesis using assms r mod_less_divisor [of r k]
    by (auto simp: squeezing_def sponge_clone_def buf_cap_def)
qed

text \<open>C33 A copy of a SHAKE256 state that has been read from is wrong: within the first thirty-two bytes of each output block making the copy panics (the
  slice bounds are negative), and after that the copy repeats the last thirty-two bytes that were already delivered instead of going on.\<close>

theorem shake256_clone_repeats:
  "\<exists>h d. sponge_Write NewShake256 data = Inr (List.length data, h)
    \<and> sponge_Read h k = Inr (sponge_function 136 0x1f data k, d)
    \<and> (if k mod 136 < 32 then sponge_clone d = Inl CloneBounds
       else \<exists>c c'. sponge_clone d = Inr c
         \<and> sponge_Read c n = Inr (take n (drop (k - 32) (sponge_function 136 0x1f data (k + n))), c'))"
proof -
  note r = sha3_rates_all(3)
  obtain h where h: "sponge_Write NewShake256 data = Inr (List.length data, h)" "absorbing 136 0x1f 0 h data"
    using sponge_Write_absorbs [OF r absorbing_new [OF r], of 0 "0x1f" data] by (auto simp: NewShake256_def)
  let ?A = "absorb 136 (sponge_pad 136 0x1f data)"
  obtain d where d: "sponge_Read h k = Inr (sponge_function 136 0x1f data k, d)" "squeezing 136 d ?A k"
    using sponge_Read_absorbing [OF r h(2)] by blast
  show ?thesis
  proof (cases "k mod 136 < 32")
    case True
    then show ?thesis using h(1) d clone_squeezing_short [OF d(2)] by (simp add: maxRate_def)
  next
    case False
    then obtain c where c: "sponge_clone d = Inr c" "squeezing 136 c ?A (k - 32)"
      using clone_squeezing_back [OF d(2) r] by (auto simp: maxRate_def)
    obtain c' where "sponge_Read c n = Inr (map (squeeze 136 ?A) [k - 32..<k - 32 + n], c')"
      using sponge_Read_squeezing [OF r c(2)] by blast
    moreover have "take n (drop (k - 32) (sponge_function 136 0x1f data (k + n))) = map (squeeze 136 ?A) [k - 32..<k - 32 + n]"
      by (simp add: sponge_function_def drop_map take_map take_upt)
    ultimately show ?thesis using h(1) d(1) c(1) False by auto
  qed
qed

text \<open>SHAKE128, whose rate is the size of the array, is copied correctly.\<close>

lemma shake128_clone: "squeezing 168 d A k \<Longrightarrow> sponge_clone d = Inr d"
  by (cases d) (simp add: squeezing_def sponge_clone_def buf_cap_def maxRate_def)

end
