(* ===== verification/Spec2Isabelle.thy ===== *)
theory Spec2Isabelle
  imports EndToEnd RlpProps DecimalTheorems GaloisTheorems Sm3Props SpongeTheorems
begin

text \<open>
  A verification library for sea-pkg: the WebAssembly engine of \<^verbatim>\<open>wagon\<close>, the RLP
  serialization, the decimals, and the hash and secret sharing functions of \<^verbatim>\<open>crypto\<close>.  Paths are relative to
  \<^verbatim>\<open>src/\<close>.  This theory only gathers the others.

  \<^bold>\<open>The parts and how they meet.\<close>  A contract is a module in the WebAssembly binary format.
  \<^verbatim>\<open>wagon/wasm\<close> decodes it and builds the index spaces; \<^verbatim>\<open>wagon/disasm\<close> turns the bytes of each
  function into instructions and records the blocks they form; \<^verbatim>\<open>wagon/exec/internal/compile\<close> turns these into
  code with jumps to addresses; \<^verbatim>\<open>wagon/exec\<close> makes a machine of the result and runs it.  The other parts stand alone.

  \<^bold>\<open>Conventions\<close> (\<open>Prelude\<close>).  Fixed-width integers are words, so that \<open>+\<close> wraps as in Go; a Go
  \<^verbatim>\<open>int\<close> that stays small is \<open>int\<close> or \<open>nat\<close>.  A function that can fail returns in a sum, \<open>Inl\<close> for errors and for panics,
  sequenced by \<open>bindE\<close>; Go's run-time panics are the datatype \<open>go_error\<close>.  A reader is the list of
  bytes still to come, a writer a function that extends a list.  Definitions have the names of the code; a method
  \<^verbatim>\<open>T.M\<close> is \<open>T_M\<close>, and a name that HOL uses has a suffix.

  \<^bold>\<open>Decoding and encoding modules.\<close>
  \<open>Leb128\<close>: \<^verbatim>\<open>wasm/leb128\<close>, readers and writers of variable-length integers, inverse to each other.
  \<open>Codec\<close>: the locale \<open>codec\<close>, the contract of a pair of \<^verbatim>\<open>UnmarshalWASM\<close> and \<^verbatim>\<open>MarshalWASM\<close>: what was written is read
  back, whatever follows.  \<open>WasmTypes\<close> (\<^verbatim>\<open>wasm/types.go\<close>, \<^verbatim>\<open>read.go\<close>), \<open>Sections\<close> and \<open>Payloads\<close>
  (\<^verbatim>\<open>section.go\<close>, \<^verbatim>\<open>imports.go\<close>, \<^verbatim>\<open>init_expr.go\<close>) interpret it for every type, entry and section; the locale \<open>vector\<close> lifts
  it to vectors with a count in front.  \<open>WasmModule\<close>: \<^verbatim>\<open>module.go\<close>, \<^verbatim>\<open>encode.go\<close> and \<^verbatim>\<open>internal/readpos\<close>,
  with the round trip of whole modules.  \<open>WasmIndex\<close>: \<^verbatim>\<open>index.go\<close> and the resolution of imports.

  \<^bold>\<open>Disassembling and compiling.\<close>
  \<open>Operators\<close>: the table of \<^verbatim>\<open>wasm/operators\<close>, built by running the registrations in their order.
  \<open>WStack\<close>: \<^verbatim>\<open>internal/stack\<close>.  \<open>SeaTypes\<close>: \<^verbatim>\<open>wagon/sea\<close>, branch tables and the contract memory.
  \<open>Disasm\<close>: \<^verbatim>\<open>disasm.go\<close> and \<^verbatim>\<open>asm.go\<close>, one definition per kind of instruction over the state of the
  disassembler.  \<open>DisasmProps\<close> shows that assembling and disassembling are inverse, \<open>DisasmBlocks\<close> how \<^verbatim>\<open>end\<close> and
  \<^verbatim>\<open>else\<close> are linked with what they close.  \<open>Compile\<close>: \<^verbatim>\<open>compile.go\<close>, over the buffer, the open blocks and the branch tables.
  \<open>CompileProps\<close> gives the layout of the code and what patching changes; \<open>CompileSafe\<close> and
  \<open>CompileDisasm\<close> show on which input the compiler panics.

  \<^bold>\<open>The machine.\<close>
  \<open>VmState\<close>: the records \<^verbatim>\<open>VM\<close> and \<^verbatim>\<open>context\<close>, and the operations on stack, code and immediates.  The stack is a list
  with its top at the end.  A method of the machine is a function from states to an outcome and a state: a panic leaves
  the state as it was reached.  The locale \<open>vm_frame\<close> states what a relation between states must satisfy to be
  kept by the primitives; \<open>VmNum\<close>, \<open>VmInstr\<close> and \<open>VmExec\<close> prove inside it, method by method, that everything up to \<open>execCode\<close>
  keeps it, and \<open>VmFrame\<close> interprets it for the call depth, the size of the memory and the program.
  \<open>VmNum\<close> (\<^verbatim>\<open>num.go\<close>, \<^verbatim>\<open>conv.go\<close>, \<^verbatim>\<open>reinterp.go\<close>) and \<open>VmInstr\<close> (\<^verbatim>\<open>memory.go\<close>, \<^verbatim>\<open>var.go\<close>, \<^verbatim>\<open>const.go\<close>,
  \<^verbatim>\<open>parametric.go\<close>, \<^verbatim>\<open>control.go\<close>) have one definition per instruction.  \<open>VmExec\<close>: calls, host and contract functions, the
  table of instructions, the loop and the entry points.  \<open>VmNew\<close>: \<^verbatim>\<open>NewVM\<close>, the interpreter and the contract process.
  \<open>VmEval\<close> and \<open>VmRun\<close> hold closed forms for running code; \<open>VmNumProps\<close>, \<open>VmMemProps\<close>, \<open>VmCalls\<close> and \<open>VmEntry\<close> what
  instructions, loads and stores, calls and entry points do, and the recursion limit.  \<open>EndToEnd\<close> follows two
  modules from their bytes to the result of a call.

  \<^bold>\<open>RLP\<close> (\<^verbatim>\<open>util/serialize/rlp\<close>).
  \<open>RlpCore\<close>: headers and \<^verbatim>\<open>raw.go\<close>.  \<open>RlpEnc\<close>: the encoder's buffer, which keeps the headers of lists apart from the
  text, and its outputs.  \<open>RlpStream\<close>: the \<^verbatim>\<open>Stream\<close> of \<^verbatim>\<open>decode.go\<close>.  \<open>RlpTypes\<close>: Go's types
  and values as datatypes, struct tags, and the writer and the decoder of each type.  \<open>RlpSpec\<close> defines the
  encoding \<open>rlp_enc\<close> on values alone, the types \<open>safe\<close> and the values \<open>val_ok\<close> that their encoding determines; \<open>RlpEncProps\<close> shows
  that the buffer refines it, with the contract of \<^verbatim>\<open>io.Writer\<close> as the locale \<open>io_writer\<close>; \<open>RlpStreamProps\<close>, \<open>RlpOps\<close> and \<open>RlpDecode\<close> follow the
  stream; \<open>RlpRound\<close> and \<open>RlpComplete\<close> are the two directions of the round trip; \<open>RlpProps\<close> states the results.

  \<^bold>\<open>Decimals\<close> (\<^verbatim>\<open>util/decimal\<close>).
  \<open>BigInt\<close>: what is used of \<^verbatim>\<open>math/big\<close>.  \<open>DecimalOps\<close>, \<open>DecimalText\<close> and \<open>DecimalFloat\<close> model the package.  \<open>DecimalProps\<close>
  and \<open>DecimalDiv\<close> relate it to the rational numbers by \<open>dval\<close>, \<open>DecimalFormat\<close> to its texts, \<open>DecimalShift\<close> proves the shifts of
  multiprecision decimals exact, \<open>DecimalTheorems\<close> states the results and adds cash rounding.

  \<^bold>\<open>Cryptography\<close> (\<^verbatim>\<open>crypto\<close>).
  \<open>Galois\<close> models \<^verbatim>\<open>galois\<close>; \<open>GaloisField\<close> checks the tables and makes the bytes a field, \<open>GaloisShare\<close> has Lagrange
  interpolation over any field, \<open>GaloisTheorems\<close> the two properties of secret sharing.  \<open>Sm3\<close> models \<^verbatim>\<open>sm3\<close>, \<open>Sm3Props\<close> compares
  it with the standard.  \<open>Keccak\<close> and \<open>Sponge\<close> model \<^verbatim>\<open>sha3\<close>; \<open>KeccakRef\<close>, \<open>SpongeProps\<close> and \<open>SpongeTheorems\<close> compare them with
  the standard.  \<open>HashBlocks\<close> is about messages cut into blocks.

  \<^bold>\<open>Fuel.\<close>  Four loops count fuel.  \<open>execCode\<close> takes one unit for an instruction and gives the rest to a called function as well as to what follows; running short
  is the panic \<open>OutOfFuel\<close>, \<open>VmFuel\<close> shows that more fuel never changes any other outcome, and the properties that promise a result name fuel that is
  enough.  The decoders of RLP take one for each element of a slice and each level of nested interfaces, and return \<open>None\<close> when they run short; the number of
  input bytes is enough for every safe type, and no fuel is for the type \<open>one_byte_array\<close> names.  The loops of the sponge get the number of bytes
  to write or read, and \<open>SpongeProps\<close> shows that this is enough.  The digits of a shifted decimal get one more than the shift, which
  \<open>DecimalShift\<close> shows to be enough.  All other loops end by structure or by a proved measure.

  \<^bold>\<open>Parameters.\<close>  Code that is not in the repository is an argument: floating-point arithmetic of the hardware and of
  \<^verbatim>\<open>math\<close> (\<open>float_ops\<close>), host functions, the resolver of imported modules, the order in which Go visits a map, random bytes, and
  the writer that \<^verbatim>\<open>Encode\<close> writes to.

  \<^bold>\<open>Not modelled.\<close>  The validator (\<^verbatim>\<open>wagon/validate\<close>), which only the command line calls, and not \<^verbatim>\<open>NewVM\<close>; the commands; logging and debugging
  output; RLP types with methods of their own, recursive types and the cache of types; the trigonometric functions of
  decimals; elliptic curves, wallet codecs, AES, the hashes that wrap the standard library; the database, network and
  logging packages.\<close>

end
